(* ===== verification/Prelude.thy ===== *)
theory Prelude
  imports Main "HOL-Library.Char_ord" "HOL-Library.List_Lexorder"
begin

text \<open>
  Shared vocabulary of the development: failures as values (\<open>error\<close>, \<open>res\<close>), sequencing of
  fallible code (\<open>bindE\<close>, \<open>mapE\<close>, \<open>foldE\<close>), the transaction brackets of the two stores
  (\<open>commit\<close>), the text operations of Python and SQLite that the sources use, and the generic lemmas
  the component theories share. Text is a \<open>string\<close> whose characters stand for the code points 0 to
  255, so \<open>length\<close> counts code points as Python's \<open>len\<close> does.
\<close>

section \<open>Failures as values\<close>

text \<open>
  \<open>PersistenceError code status retryable\<close> is the exception class of
  \<open>persistence/errors.py\<close> without its human-readable detail; \<open>IntegrityError\<close> is SQLite's
  constraint violation; \<open>ValueError\<close>, \<open>TypeError\<close> and \<open>KeyError\<close> are Python's own.
\<close>

datatype error =
    PersistenceError (err_code: string) (err_status: int) (err_retryable: bool)
  | IntegrityError
  | ValueError
  | TypeError
  | KeyError

type_synonym 'a res = "error + 'a"

abbreviation raise :: "string \<Rightarrow> int \<Rightarrow> 'a res" where
  "raise code status \<equiv> Inl (PersistenceError code status False)"

named_theorems resE \<open>inversion rules for sequenced fallible code\<close>

definition bindE :: "'a res \<Rightarrow> ('a \<Rightarrow> 'b res) \<Rightarrow> 'b res" where
  "bindE m f = (case m of Inl e \<Rightarrow> Inl e | Inr x \<Rightarrow> f x)"

lemma bindE_simps [simp]:
  "bindE (Inl e) f = Inl e"
  "bindE (Inr x) f = f x"
  by (simp_all add: bindE_def)

lemma bindE_eq_Inr [resE]: "bindE m f = Inr y \<longleftrightarrow> (\<exists>x. m = Inr x \<and> f x = Inr y)"
  by (cases m) auto

lemma bindE_eq_Inl [resE]:
  "bindE m f = Inl e \<longleftrightarrow> m = Inl e \<or> (\<exists>x. m = Inr x \<and> f x = Inl e)"
  by (cases m) auto

lemma bindE_cong [fundef_cong]:
  "m = m' \<Longrightarrow> (\<And>x. m' = Inr x \<Longrightarrow> f x = f' x) \<Longrightarrow> bindE m f = bindE m' f'"
  by (cases m') auto

lemma if_Inl_eq_Inr [resE]: "(if b then Inl e else m) = Inr y \<longleftrightarrow> \<not> b \<and> m = Inr y"
  by simp

text \<open>A handler that turns a low-level failure into one of the store's own.\<close>

lemma case_sum_eq_Inr [resE]:
  "(case m of Inl e \<Rightarrow> Inl (g e) | Inr x \<Rightarrow> f x) = Inr y \<longleftrightarrow> (\<exists>x. m = Inr x \<and> f x = Inr y)"
  by (cases m) auto

text \<open>A guard that raises, and the loops of the sources: stop at the first failure.\<close>

definition guardE :: "bool \<Rightarrow> error \<Rightarrow> unit res" where
  "guardE ok e = (if ok then Inr () else Inl e)"

lemma guardE_simps [simp]:
  "guardE True e = Inr ()"
  "guardE False e = Inl e"
  by (simp_all add: guardE_def)

lemma guardE_eq [resE]:
  "guardE ok e = Inr u \<longleftrightarrow> ok"
  "guardE ok e = Inl e' \<longleftrightarrow> \<not> ok \<and> e = e'"
  by (auto simp: guardE_def)

fun mapE :: "('a \<Rightarrow> 'b res) \<Rightarrow> 'a list \<Rightarrow> 'b list res" where
  "mapE f [] = Inr []"
| "mapE f (x # xs) = bindE (f x) (\<lambda>y. bindE (mapE f xs) (\<lambda>ys. Inr (y # ys)))"

fun foldE :: "('s \<Rightarrow> 'a \<Rightarrow> 's res) \<Rightarrow> 's \<Rightarrow> 'a list \<Rightarrow> 's res" where
  "foldE f s [] = Inr s"
| "foldE f s (x # xs) = bindE (f s x) (\<lambda>s'. foldE f s' xs)"

lemma mapE_Inr_iff:
  "mapE f xs = Inr ys \<longleftrightarrow> list_all2 (\<lambda>x y. f x = Inr y) xs ys"
  by (induction xs arbitrary: ys) (auto simp: list_all2_Cons1 bindE_eq_Inr)

lemma mapE_length: "mapE f xs = Inr ys \<Longrightarrow> length ys = length xs"
  by (auto simp: mapE_Inr_iff dest: list_all2_lengthD)

lemma mapE_total: "(\<And>x. x \<in> set xs \<Longrightarrow> f x = Inr (g x)) \<Longrightarrow> mapE f xs = Inr (map g xs)"
  by (induction xs) auto

lemma mapE_append:
  "mapE f (xs @ ys) = bindE (mapE f xs) (\<lambda>us. bindE (mapE f ys) (\<lambda>vs. Inr (us @ vs)))"
  by (induction xs) (auto simp: bindE_def split: sum.splits)

lemma foldE_append:
  "foldE f s (xs @ ys) = bindE (foldE f s xs) (\<lambda>s'. foldE f s' ys)"
  by (induction xs arbitrary: s) (auto simp: bindE_def split: sum.splits)

section \<open>Transactions\<close>

text \<open>
  Both stores run a mutation between \<open>BEGIN IMMEDIATE\<close> and \<open>COMMIT\<close> and roll back on any
  exception. The body of a transaction maps the database to a failure or to a result and the new
  database; \<open>commit\<close> gives the pair of what the caller sees and what is on disk afterwards.
\<close>

definition commit :: "'s \<Rightarrow> ('a \<times> 's) res \<Rightarrow> 'a res \<times> 's" where
  "commit s r = (case r of Inl e \<Rightarrow> (Inl e, s) | Inr (v, s') \<Rightarrow> (Inr v, s'))"

lemma commit_simps [simp]:
  "commit s (Inl e) = (Inl e, s)"
  "commit s (Inr (v, s')) = (Inr v, s')"
  by (simp_all add: commit_def)

lemma commit_Inl [resE]: "commit s r = (Inl e, s') \<longleftrightarrow> r = Inl e \<and> s' = s"
  by (auto simp: commit_def split: sum.splits prod.splits)

lemma commit_Inr [resE]: "commit s r = (Inr v, s') \<longleftrightarrow> r = Inr (v, s')"
  by (auto simp: commit_def split: sum.splits prod.splits)

lemma fst_commit_Inl: "fst (commit s r) = Inl e \<longleftrightarrow> r = Inl e"
  by (auto simp: commit_def split: sum.splits prod.splits)

lemma fst_commit_Inr: "fst (commit s r) = Inr v \<longleftrightarrow> (\<exists>s'. r = Inr (v, s'))"
  by (auto simp: commit_def split: sum.splits prod.splits)

lemma snd_commit_cases:
  "snd (commit s r) = s' \<Longrightarrow> s' = s \<or> (\<exists>v. r = Inr (v, s'))"
  by (auto simp: commit_def split: sum.splits prod.splits)

section \<open>Text\<close>

text \<open>Python's \<open>str.isspace\<close> on code points below 256, which \<open>str.strip\<close> removes.\<close>

definition py_space :: "char \<Rightarrow> bool" where
  "py_space c \<longleftrightarrow> (let n = (of_char c :: nat)
     in (9 \<le> n \<and> n \<le> 13) \<or> (28 \<le> n \<and> n \<le> 32) \<or> n = 133 \<or> n = 160)"

definition py_strip :: "string \<Rightarrow> string" where
  "py_strip s = rev (dropWhile py_space (rev (dropWhile py_space s)))"

text \<open>\<open>str.lower\<close> on code points below 256, and SQLite's \<open>lower\<close>, which folds ASCII only.\<close>

definition py_lower_char :: "char \<Rightarrow> char" where
  "py_lower_char c = (let n = (of_char c :: nat)
     in if (65 \<le> n \<and> n \<le> 90) \<or> (192 \<le> n \<and> n \<le> 222 \<and> n \<noteq> 215)
        then char_of (n + 32) else c)"

definition py_lower :: "string \<Rightarrow> string" where
  "py_lower = map py_lower_char"

definition sql_lower_char :: "char \<Rightarrow> char" where
  "sql_lower_char c = (let n = (of_char c :: nat)
     in if 65 \<le> n \<and> n \<le> 90 then char_of (n + 32) else c)"

definition sql_lower :: "string \<Rightarrow> string" where
  "sql_lower = map sql_lower_char"

definition is_ctrl :: "char \<Rightarrow> bool" where
  "is_ctrl c \<longleftrightarrow> (of_char c :: nat) < 32 \<or> (of_char c :: nat) = 127"

definition starts_with :: "string \<Rightarrow> string \<Rightarrow> bool" where
  "starts_with p s \<longleftrightarrow> take (length p) s = p"

definition ends_with :: "string \<Rightarrow> string \<Rightarrow> bool" where
  "ends_with p s \<longleftrightarrow> starts_with (rev p) (rev s)"

text \<open>The UTF-8 bytes of a text whose code points are below 256.\<close>

definition utf8_char :: "char \<Rightarrow> int list" where
  "utf8_char c = (let n = (of_char c :: int)
     in if n < 128 then [n] else [192 + n div 64, 128 + n mod 64])"

definition utf8 :: "string \<Rightarrow> int list" where
  "utf8 s = concat (map utf8_char s)"

lemma of_char_less_256: "(of_char c :: nat) < 256"
  using nat_of_char_less_256 by simp

lemma length_py_strip: "length (py_strip s) \<le> length s"
proof -
  have "length (dropWhile py_space (rev (dropWhile py_space s))) \<le> length (dropWhile py_space s)"
    using length_dropWhile_le [of py_space "rev (dropWhile py_space s)"] by simp
  also have "\<dots> \<le> length s" by (rule length_dropWhile_le)
  finally show ?thesis by (simp add: py_strip_def)
qed

lemma length_py_lower [simp]: "length (py_lower s) = length s"
  by (simp add: py_lower_def)

text \<open>Lower-casing twice is lower-casing once: what the actor comparisons rely on.\<close>

lemma py_lower_char_idem [simp]: "py_lower_char (py_lower_char c) = py_lower_char c"
  by (simp add: py_lower_char_def Let_def)

lemma py_lower_idem [simp]: "py_lower (py_lower s) = py_lower s"
  by (simp add: py_lower_def)

section \<open>Lists\<close>

lemma find_append: "List.find P (xs @ ys) =
  (case List.find P xs of None \<Rightarrow> List.find P ys | Some x \<Rightarrow> Some x)"
  by (induction xs) auto

lemma find_map_edit:
  assumes "\<And>x. P (f x) = P x"
  shows "List.find P (map f xs) = map_option f (List.find P xs)"
  using assms by (induction xs) auto

lemma upto_snoc_block: "0 \<le> n \<Longrightarrow> [0..n - 1 + int k] = [0..n - 1] @ map (\<lambda>i. n + int i) [0..<k]"
proof (induction k)
  case 0
  then show ?case by simp
next
  case (Suc k)
  have "[0..n - 1 + int (Suc k)] = [0..n - 1 + int k] @ [n + int k]"
    using Suc.prems upto_rec2 [of 0 "n - 1 + int (Suc k)"] by (simp add: algebra_simps)
  with Suc show ?case by simp
qed

end
