(* ===== verification/Tables.thy ===== *)
theory Tables
  imports Prelude
begin

text \<open>
  Relational tables as the two stores use them. A table is the list of its rows in insertion order.
  \<open>locale table\<close> is the interface a table with a primary key offers its clients (what a lookup
  returns after an insert or an update, and that keys stay unique); \<open>list_table\<close> shows that the
  list operations implement it for every key function, and each component interprets the locale on
  its own tables.
\<close>

section \<open>Operations\<close>

text \<open>\<open>SELECT ... WHERE key = ?\<close> with \<open>fetchone\<close>.\<close>

definition find_by :: "('r \<Rightarrow> 'k) \<Rightarrow> 'k \<Rightarrow> 'r list \<Rightarrow> 'r option" where
  "find_by key k t = List.find (\<lambda>r. key r = k) t"

text \<open>\<open>INSERT\<close>: a duplicate primary key is an \<open>IntegrityError\<close>.\<close>

definition insert_by :: "('r \<Rightarrow> 'k) \<Rightarrow> 'r \<Rightarrow> 'r list \<Rightarrow> 'r list res" where
  "insert_by key r t = (if key r \<in> set (map key t) then Inl IntegrityError else Inr (t @ [r]))"

text \<open>\<open>executemany\<close> of an \<open>INSERT\<close>: all rows or none.\<close>

definition insert_all :: "('r \<Rightarrow> 'k) \<Rightarrow> 'r list \<Rightarrow> 'r list \<Rightarrow> 'r list res" where
  "insert_all key rs t = foldE (\<lambda>t r. insert_by key r t) t rs"

text \<open>\<open>UPDATE ... WHERE key = ?\<close>.\<close>

definition edit_by :: "('r \<Rightarrow> 'k) \<Rightarrow> 'k \<Rightarrow> ('r \<Rightarrow> 'r) \<Rightarrow> 'r list \<Rightarrow> 'r list" where
  "edit_by key k f t = map (\<lambda>r. if key r = k then f r else r) t"

text \<open>\<open>ORDER BY\<close> one or two columns and \<open>LIMIT\<close>; ties keep the order of the table.\<close>

definition order_by :: "('r \<Rightarrow> 'o::linorder) \<Rightarrow> 'r list \<Rightarrow> 'r list" where
  "order_by f t = sort_key f t"

definition order_by2 :: "('r \<Rightarrow> 'o::linorder) \<Rightarrow> ('r \<Rightarrow> 'p::linorder) \<Rightarrow> 'r list \<Rightarrow> 'r list" where
  "order_by2 f g t = sort_key f (sort_key g t)"

definition keyed :: "('r \<Rightarrow> 'k) \<Rightarrow> 'r list \<Rightarrow> bool" where
  "keyed key t \<longleftrightarrow> distinct (map key t)"

section \<open>Facts about the list operations\<close>

named_theorems table_simps \<open>lookups after inserts and updates\<close>

lemma find_by_Nil [simp]: "find_by key k [] = None"
  by (simp add: find_by_def)

lemma find_by_Cons: "find_by key k (r # t) = (if key r = k then Some r else find_by key k t)"
  by (simp add: find_by_def)

lemma find_by_SomeD: "find_by key k t = Some r \<Longrightarrow> r \<in> set t \<and> key r = k"
  by (induction t) (auto simp: find_by_Cons split: if_splits)

lemma find_by_key: "find_by key k t = Some r \<Longrightarrow> key r = k"
  by (drule find_by_SomeD) simp

lemma find_by_None_iff: "find_by key k t = None \<longleftrightarrow> k \<notin> key ` set t"
  by (induction t) (auto simp: find_by_Cons)

lemma find_by_keyed: "keyed key t \<Longrightarrow> r \<in> set t \<Longrightarrow> find_by key (key r) t = Some r"
  by (induction t) (auto simp: find_by_Cons keyed_def image_iff)

lemma find_by_append:
  "find_by key k (t @ u) = (case find_by key k t of None \<Rightarrow> find_by key k u | Some r \<Rightarrow> Some r)"
  unfolding find_by_def by (rule find_append)

lemma find_by_edit [table_simps]:
  assumes "\<And>r. key (f r) = key r"
  shows "find_by key k (edit_by key k' f t) =
    (if k = k' then map_option f (find_by key k t) else find_by key k t)"
  using assms by (induction t) (auto simp: find_by_Cons edit_by_def)

lemma insert_by_eq_Inr [resE]:
  "insert_by key r t = Inr t' \<longleftrightarrow> find_by key (key r) t = None \<and> t' = t @ [r]"
  by (auto simp: insert_by_def find_by_None_iff)

lemma insert_by_eq_Inl [resE]:
  "insert_by key r t = Inl e \<longleftrightarrow> find_by key (key r) t \<noteq> None \<and> e = IntegrityError"
  by (auto simp: insert_by_def find_by_None_iff)

lemma insert_by_fresh: "find_by key (key r) t = None \<Longrightarrow> insert_by key r t = Inr (t @ [r])"
  by (auto simp: insert_by_eq_Inr)

lemma find_by_snoc [table_simps]:
  "find_by key (key r) t = None \<Longrightarrow>
   find_by key k (t @ [r]) = (if k = key r then Some r else find_by key k t)"
  by (auto simp: find_by_append find_by_Cons split: option.splits)

lemma keyed_snoc: "find_by key (key r) t = None \<Longrightarrow> keyed key t \<Longrightarrow> keyed key (t @ [r])"
  by (auto simp: keyed_def find_by_None_iff)

lemma map_key_edit:
  "(\<And>r. key (f r) = key r) \<Longrightarrow> map key (edit_by key k f t) = map key t"
  by (induction t) (auto simp: edit_by_def)

lemma keyed_edit: "(\<And>r. key (f r) = key r) \<Longrightarrow> keyed key (edit_by key k f t) = keyed key t"
  by (simp add: keyed_def map_key_edit)

lemma edit_by_id: "find_by key k t = None \<Longrightarrow> edit_by key k f t = t"
  by (induction t) (auto simp: edit_by_def find_by_Cons split: if_splits)

lemma in_edit_by: "r \<in> set (edit_by key k f t) \<longleftrightarrow>
    (r \<in> set t \<and> key r \<noteq> k) \<or> (\<exists>r0 \<in> set t. key r0 = k \<and> r = f r0)"
  by (auto simp: edit_by_def)

lemma edit_by_edit_by:
  assumes "\<And>r. key (f r) = key r"
  shows "edit_by key k g (edit_by key k f t) = edit_by key k (\<lambda>r. g (f r)) t"
  using assms by (simp add: edit_by_def comp_def)

lemma filter_edit_by_other:
  assumes "\<And>r. P r \<Longrightarrow> key r \<noteq> k" and "\<And>r. key r = k \<Longrightarrow> P (f r) \<Longrightarrow> False"
  shows "filter P (edit_by key k f t) = filter P t"
  using assms by (induction t) (auto simp: edit_by_def)

lemma insert_all_Inr:
  "insert_all key rs t = Inr t' \<Longrightarrow> t' = t @ rs \<and> (keyed key t \<longrightarrow> keyed key t')"
proof (induction rs arbitrary: t)
  case Nil
  then show ?case by (simp add: insert_all_def)
next
  case (Cons r rs)
  then have fresh: "find_by key (key r) t = None" and rest: "insert_all key rs (t @ [r]) = Inr t'"
    by (auto simp: insert_all_def resE)
  from Cons.IH [OF rest] fresh show ?case by (auto dest: keyed_snoc)
qed

lemma insert_all_fresh: "keyed key (t @ rs) \<Longrightarrow> insert_all key rs t = Inr (t @ rs)"
proof (induction rs arbitrary: t)
  case Nil
  then show ?case by (simp add: insert_all_def)
next
  case (Cons r rs)
  then have "find_by key (key r) t = None" by (auto simp: keyed_def find_by_None_iff)
  moreover from Cons have "insert_all key rs (t @ [r]) = Inr (t @ r # rs)" by simp
  ultimately show ?case by (simp add: insert_all_def insert_by_fresh)
qed

section \<open>How a table may change over time\<close>

text \<open>
  Rows are never deleted: a later table holds the earlier rows, each moved forward by \<open>R\<close>, and then new rows.
\<close>

definition table_ext :: "('r \<Rightarrow> 'r \<Rightarrow> bool) \<Rightarrow> 'r list \<Rightarrow> 'r list \<Rightarrow> bool" where
  "table_ext R t t' \<longleftrightarrow> (\<exists>u v. t' = u @ v \<and> list_all2 R t u)"

lemma table_ext_refl: "(\<And>r. R r r) \<Longrightarrow> table_ext R t t"
  unfolding table_ext_def by (intro exI [of _ t] exI [of _ "[]"]) (simp add: list_all2_refl)

lemma table_ext_trans:
  assumes "transp R" and "table_ext R t t'" and "table_ext R t' t''"
  shows "table_ext R t t''"
proof -
  from assms(2) obtain u v where t': "t' = u @ v" and tu: "list_all2 R t u" by (auto simp: table_ext_def)
  from assms(3) obtain w x where t'': "t'' = w @ x" and "list_all2 R t' w" by (auto simp: table_ext_def)
  then obtain w1 w2 where w: "w = w1 @ w2" and uw: "list_all2 R u w1" by (auto simp: t' list_all2_append1)
  have "list_all2 R t w1" by (rule list_all2_trans [OF _ tu uw]) (rule transpD [OF assms(1)])
  then show ?thesis unfolding table_ext_def t'' w by (intro exI [of _ w1] exI [of _ "w2 @ x"]) simp
qed

lemma table_ext_append: "(\<And>r. R r r) \<Longrightarrow> table_ext R t (t @ u)"
  unfolding table_ext_def by (intro exI [of _ t] exI [of _ u]) (simp add: list_all2_refl)

lemma table_ext_all2: "list_all2 R t t' \<Longrightarrow> table_ext R t t'"
  unfolding table_ext_def by (intro exI [of _ t'] exI [of _ "[]"]) simp

lemma all2_edit:
  assumes "\<And>r. r \<in> set t \<Longrightarrow> key r = k \<Longrightarrow> R r (f r)" and "\<And>r. R r r"
  shows "list_all2 R t (edit_by key k f t)"
  using assms by (induction t) (auto simp: edit_by_def)

lemma table_ext_find:
  assumes "table_ext R t t'" and "\<And>r r'. R r r' \<Longrightarrow> key r' = key r" and "find_by key k t = Some r"
  obtains r' where "find_by key k t' = Some r'" and "R r r'"
proof -
  from assms(1) obtain u v where t': "t' = u @ v" and tu: "list_all2 R t u" by (auto simp: table_ext_def)
  have "\<exists>r'. find_by key k u = Some r' \<and> R r r'"
    using tu assms(3) by (induction rule: list_all2_induct) (auto simp: find_by_Cons assms(2) split: if_splits)
  with that show thesis by (auto simp: t' find_by_append)
qed

lemma all2_in: "list_all2 R t u \<Longrightarrow> r \<in> set t \<Longrightarrow> \<exists>r' \<in> set u. R r r'"
  by (induction rule: list_all2_induct) auto

lemma all2_in': "list_all2 R t u \<Longrightarrow> r' \<in> set u \<Longrightarrow> \<exists>r \<in> set t. R r r'"
  by (induction rule: list_all2_induct) auto

lemma table_ext_in: "table_ext R t t' \<Longrightarrow> r \<in> set t \<Longrightarrow> \<exists>r' \<in> set t'. R r r'"
  unfolding table_ext_def by (fastforce dest: all2_in)

lemma map_all2: "list_all2 R t u \<Longrightarrow> (\<And>r r'. R r r' \<Longrightarrow> key r' = key r) \<Longrightarrow> map key u = map key t"
  by (induction rule: list_all2_induct) auto

lemma keyed_all2: "list_all2 R t u \<Longrightarrow> (\<And>r r'. R r r' \<Longrightarrow> key r' = key r) \<Longrightarrow> keyed key u = keyed key t"
  by (simp add: keyed_def map_all2 [of R t u key])

lemma keyed_eq: "keyed key t \<Longrightarrow> r \<in> set t \<Longrightarrow> r' \<in> set t \<Longrightarrow> key r = key r' \<Longrightarrow> r = r'"
  by (auto simp: keyed_def distinct_map inj_on_def)

section \<open>The interface of a table with a primary key\<close>

locale table =
  fixes key :: "'r \<Rightarrow> 'k"
    and row_at :: "'k \<Rightarrow> 't \<Rightarrow> 'r option"
    and add_row :: "'r \<Rightarrow> 't \<Rightarrow> 't res"
    and edit_row :: "'k \<Rightarrow> ('r \<Rightarrow> 'r) \<Rightarrow> 't \<Rightarrow> 't"
    and inv :: "'t \<Rightarrow> bool"
  assumes row_at_key: "row_at k t = Some r \<Longrightarrow> key r = k"
    and add_taken: "row_at (key r) t = Some r' \<Longrightarrow> add_row r t = Inl IntegrityError"
    and add_fresh: "row_at (key r) t = None \<Longrightarrow> \<exists>t'. add_row r t = Inr t'"
    and row_at_add: "add_row r t = Inr t' \<Longrightarrow>
          row_at k t' = (if k = key r then Some r else row_at k t)"
    and row_at_edit: "(\<And>r. key (f r) = key r) \<Longrightarrow>
          row_at k (edit_row k' f t) = (if k = k' then map_option f (row_at k t) else row_at k t)"
    and inv_add: "add_row r t = Inr t' \<Longrightarrow> inv t \<Longrightarrow> inv t'"
    and inv_edit: "(\<And>r. key (f r) = key r) \<Longrightarrow> inv t \<Longrightarrow> inv (edit_row k f t)"
begin

lemma add_iff_fresh: "(\<exists>t'. add_row r t = Inr t') \<longleftrightarrow> row_at (key r) t = None"
proof (cases "row_at (key r) t")
  case None
  then show ?thesis by (simp add: add_fresh)
next
  case (Some r')
  then show ?thesis by (simp add: add_taken)
qed

lemma add_frame: "add_row r t = Inr t' \<Longrightarrow> k \<noteq> key r \<Longrightarrow> row_at k t' = row_at k t"
  by (simp add: row_at_add)

lemma add_get: "add_row r t = Inr t' \<Longrightarrow> row_at (key r) t' = Some r"
  by (simp add: row_at_add)

lemma add_keeps: "add_row r t = Inr t' \<Longrightarrow> row_at k t = Some r0 \<Longrightarrow> row_at k t' = Some r0"
proof -
  assume add: "add_row r t = Inr t'" and k: "row_at k t = Some r0"
  have "k \<noteq> key r"
  proof
    assume "k = key r"
    with k have "add_row r t = Inl IntegrityError" by (auto intro: add_taken)
    with add show False by simp
  qed
  with add k show ?thesis by (simp add: add_frame)
qed

lemma edit_frame:
  "(\<And>r. key (f r) = key r) \<Longrightarrow> k \<noteq> k' \<Longrightarrow> row_at k (edit_row k' f t) = row_at k t"
  by (simp add: row_at_edit)

lemma edit_get:
  "(\<And>r. key (f r) = key r) \<Longrightarrow> row_at k t = Some r \<Longrightarrow> row_at k (edit_row k f t) = Some (f r)"
  by (simp add: row_at_edit)

text \<open>A second insert under the same key is refused, whatever its other columns hold.\<close>

lemma add_twice:
  "add_row r t = Inr t' \<Longrightarrow> key r' = key r \<Longrightarrow> add_row r' t' = Inl IntegrityError"
  by (rule add_taken [of _ _ r]) (simp add: add_get)

end

text \<open>The list operations implement the interface, whatever the key is.\<close>

lemma list_table: "table key (find_by key) (insert_by key) (edit_by key) (keyed key)"
  by unfold_locales
    (auto simp: insert_by_eq_Inr insert_by_eq_Inl table_simps keyed_snoc keyed_edit
      dest: find_by_key)

end
