(* ===== verification/Sha256.thy ===== *)
theory Sha256
  imports Prelude "HOL-Library.Word"
begin

text \<open>
  The hash of Python's \<open>hashlib.sha256(text.encode("utf-8")).hexdigest()\<close> (FIPS 180-4), which both
  stores use for idempotency digests and to keep bearer capabilities out of the database. The
  development relies on two facts only: a digest is a function of the text, and it is 64 lower-case
  hexadecimal digits. Where a theorem needs two digests to differ, it says so as a hypothesis about
  those two texts.
\<close>

unbundle bit_operations_syntax

section \<open>Compression\<close>

definition rotr32 :: "nat \<Rightarrow> 32 word \<Rightarrow> 32 word" where
  "rotr32 n x = (drop_bit n x) OR (push_bit (32 - n) x)"

definition sha_k :: "32 word list" where
  "sha_k =
    [1116352408, 1899447441, 3049323471, 3921009573, 961987163, 1508970993, 2453635748, 2870763221,
     3624381080, 310598401, 607225278, 1426881987, 1925078388, 2162078206, 2614888103, 3248222580,
     3835390401, 4022224774, 264347078, 604807628, 770255983, 1249150122, 1555081692, 1996064986,
     2554220882, 2821834349, 2952996808, 3210313671, 3336571891, 3584528711, 113926993, 338241895,
     666307205, 773529912, 1294757372, 1396182291, 1695183700, 1986661051, 2177026350, 2456956037,
     2730485921, 2820302411, 3259730800, 3345764771, 3516065817, 3600352804, 4094571909, 275423344,
     430227734, 506948616, 659060556, 883997877, 958139571, 1322822218, 1537002063, 1747873779,
     1955562222, 2024104815, 2227730452, 2361852424, 2428436474, 2756734187, 3204031479, 3329325298]"

text \<open>The message schedule, from a window of its last sixteen words.\<close>

fun sha_expand :: "nat \<Rightarrow> 32 word list \<Rightarrow> 32 word list" where
  "sha_expand 0 w = w"
| "sha_expand (Suc n) w = (case w of
     w0 # w1 # _ \<Rightarrow>
       (let w14 = w ! 14; w9 = w ! 9;
            s0 = rotr32 7 w1 XOR rotr32 18 w1 XOR drop_bit 3 w1;
            s1 = rotr32 17 w14 XOR rotr32 19 w14 XOR drop_bit 10 w14
        in w0 # sha_expand n (tl w @ [w0 + s0 + w9 + s1]))
   | _ \<Rightarrow> w)"

datatype sha_state = ShaState "32 word" "32 word" "32 word" "32 word" "32 word" "32 word" "32 word" "32 word"

fun sha_round :: "sha_state \<Rightarrow> 32 word \<times> 32 word \<Rightarrow> sha_state" where
  "sha_round (ShaState a b c d e f g h) (k, w) =
    (let s1 = rotr32 6 e XOR rotr32 11 e XOR rotr32 25 e;
         ch = (e AND f) XOR (NOT e AND g);
         t1 = h + s1 + ch + k + w;
         s0 = rotr32 2 a XOR rotr32 13 a XOR rotr32 22 a;
         mj = (a AND b) XOR (a AND c) XOR (b AND c)
     in ShaState (t1 + (s0 + mj)) a b c (d + t1) e f g)"

fun sha_add :: "sha_state \<Rightarrow> sha_state \<Rightarrow> sha_state" where
  "sha_add (ShaState a b c d e f g h) (ShaState a' b' c' d' e' f' g' h') =
     ShaState (a + a') (b + b') (c + c') (d + d') (e + e') (f + f') (g + g') (h + h')"

fun sha_words :: "sha_state \<Rightarrow> 32 word list" where
  "sha_words (ShaState a b c d e f g h) = [a, b, c, d, e, f, g, h]"

definition sha_h0 :: sha_state where
  "sha_h0 = ShaState 1779033703 3144134277 1013904242 2773480762
                     1359893119 2600822924 528734635 1541459225"

definition sha_block :: "sha_state \<Rightarrow> 32 word list \<Rightarrow> sha_state" where
  "sha_block st w = sha_add st (foldl sha_round st (zip sha_k (sha_expand 48 w)))"

section \<open>Padding and hexadecimal output\<close>

fun be_words :: "int list \<Rightarrow> 32 word list" where
  "be_words (a # b # c # d # r) =
     of_int (((a * 256 + b) * 256 + c) * 256 + d) # be_words r"
| "be_words _ = []"

definition be_bytes64 :: "int \<Rightarrow> int list" where
  "be_bytes64 n = map (\<lambda>i. n div 256 ^ i mod 256) (rev [0..<8])"

definition sha_pad :: "int list \<Rightarrow> int list" where
  "sha_pad bs = bs @ 128 # replicate ((119 - length bs mod 64) mod 64) 0 @ be_bytes64 (8 * int (length bs))"

fun sha_blocks :: "nat \<Rightarrow> 32 word list \<Rightarrow> sha_state \<Rightarrow> sha_state" where
  "sha_blocks 0 ws st = st"
| "sha_blocks (Suc n) ws st =
     (if ws = [] then st else sha_blocks n (drop 16 ws) (sha_block st (take 16 ws)))"

definition hex_digit :: "int \<Rightarrow> char" where
  "hex_digit n = (if n < 10 then char_of (48 + n) else char_of (87 + n))"

definition hex_word :: "32 word \<Rightarrow> string" where
  "hex_word w = map (\<lambda>i. hex_digit (uint w div 16 ^ i mod 16)) (rev [0..<8])"

definition sha256_bytes :: "int list \<Rightarrow> string" where
  "sha256_bytes bs = (let ws = be_words (sha_pad bs)
     in concat (map hex_word (sha_words (sha_blocks (length ws) ws sha_h0))))"

definition sha256_hex :: "string \<Rightarrow> string" where
  "sha256_hex s = sha256_bytes (utf8 s)"

section \<open>The shape of a digest\<close>

lemma length_sha_words: "length (sha_words st) = 8"
  by (cases st) simp

lemma length_concat_const: "(\<And>x. length (f x) = n) \<Longrightarrow> length (concat (map f xs)) = n * length xs"
  by (induction xs) auto

lemma length_sha256_hex: "length (sha256_hex s) = 64"
  by (simp add: sha256_hex_def sha256_bytes_def Let_def length_concat_const [of hex_word 8]
      hex_word_def length_sha_words)

definition is_hex :: "char \<Rightarrow> bool" where
  "is_hex c \<longleftrightarrow> c \<in> set ''0123456789abcdef''"

lemma hex_digit_is_hex: "0 \<le> n \<Longrightarrow> n < 16 \<Longrightarrow> is_hex (hex_digit n)"
proof -
  assume "0 \<le> n" "n < 16"
  then have "n \<in> set [0..15]" by simp
  moreover have "\<forall>m \<in> set [0..15]. is_hex (hex_digit m)" by code_simp
  ultimately show ?thesis by blast
qed

lemma sha256_hex_is_hex: "c \<in> set (sha256_hex s) \<Longrightarrow> is_hex c"
  by (auto simp: sha256_hex_def sha256_bytes_def Let_def hex_word_def hex_digit_is_hex)

lemma sha256_hex_not_empty [simp]: "sha256_hex s \<noteq> []"
  using length_sha256_hex [of s] by auto

end
