(* ===== verification/Json.thy ===== *)
theory Json
  imports Prelude Sha256
begin

text \<open>
  JSON values and the canonical text both stores keep on disk. \<open>json_text\<close> is
  \<open>json.dumps(value, ensure_ascii=False, allow_nan=False, separators=(",", ":"), sort_keys=True)\<close> and
  \<open>json_loads\<close> is \<open>json.loads\<close>; \<open>loads_json_text\<close> shows that what a store wrote is what it reads back,
  up to the order of dictionary keys. A finite float is identified with the literal its \<open>repr\<close> writes;
  a \<open>\u\<close> escape beyond code point 255 is outside the model's text and is rejected as undecodable.
\<close>

section \<open>Values\<close>

datatype pyfloat = Fin string | NaN | PosInf | NegInf

datatype json =
    JNull
  | JBool bool
  | JInt int
  | JFloat pyfloat
  | JStr string
  | JList "json list"
  | JDict "(string \<times> json) list"

type_synonym json_object = "(string \<times> json) list"

text \<open>\<open>d.get(k)\<close>, \<open>k in d\<close>, \<open>d[k] = v\<close> and \<open>dict(pairs)\<close>: insertion order, one entry per key.\<close>

definition dget :: "json_object \<Rightarrow> string \<Rightarrow> json" where
  "dget d k = (case map_of d k of None \<Rightarrow> JNull | Some v \<Rightarrow> v)"

definition dhas :: "json_object \<Rightarrow> string \<Rightarrow> bool" where
  "dhas d k \<longleftrightarrow> k \<in> set (map fst d)"

fun dset :: "json_object \<Rightarrow> string \<Rightarrow> json \<Rightarrow> json_object" where
  "dset [] k v = [(k, v)]"
| "dset ((k', v') # d) k v = (if k' = k then (k, v) # d else (k', v') # dset d k v)"

definition dict_of :: "(string \<times> json) list \<Rightarrow> json_object" where
  "dict_of ps = foldl (\<lambda>d (k, v). dset d k v) [] ps"

definition dkeys :: "json_object \<Rightarrow> string set" where
  "dkeys d = set (map fst d)"

definition dpop :: "json_object \<Rightarrow> string \<Rightarrow> json_object" where
  "dpop d k = filter (\<lambda>(k', v). k' \<noteq> k) d"

text \<open>An optional text column or field as JSON.\<close>

fun jopt :: "string option \<Rightarrow> json" where
  "jopt None = JNull"
| "jopt (Some s) = JStr s"

fun jopt_int :: "int option \<Rightarrow> json" where
  "jopt_int None = JNull"
| "jopt_int (Some i) = JInt i"

section \<open>Writing\<close>

definition digit :: "int \<Rightarrow> char" where
  "digit n = char_of (48 + n)"

function show_pos :: "int \<Rightarrow> string" where
  "show_pos n = (if n < 10 then [digit n] else show_pos (n div 10) @ [digit (n mod 10)])"
  by pat_completeness auto
termination
  by (relation "measure nat") auto

declare show_pos.simps [simp del]

definition show_int :: "int \<Rightarrow> string" where
  "show_int i = (if i < 0 then CHR ''-'' # show_pos (- i) else show_pos i)"

definition esc_char :: "char \<Rightarrow> string" where
  "esc_char c =
    (if c = CHR 0x22 then [CHR 0x5C, CHR 0x22]
     else if c = CHR 0x5C then [CHR 0x5C, CHR 0x5C]
     else if c = CHR 0x0A then [CHR 0x5C, CHR ''n'']
     else if c = CHR 0x0D then [CHR 0x5C, CHR ''r'']
     else if c = CHR 0x09 then [CHR 0x5C, CHR ''t'']
     else if c = CHR 0x0C then [CHR 0x5C, CHR ''f'']
     else if c = CHR 0x08 then [CHR 0x5C, CHR ''b'']
     else if (of_char c :: int) < 32
       then [CHR 0x5C, CHR ''u'', CHR ''0'', CHR ''0'',
             hex_digit (of_char c div 16), hex_digit (of_char c mod 16)]
     else [c])"

definition quote :: "string \<Rightarrow> string" where
  "quote s = CHR 0x22 # concat (map esc_char s) @ [CHR 0x22]"

fun render :: "json \<Rightarrow> string"
  and render_elems :: "json list \<Rightarrow> string"
  and render_items :: "(string \<times> json) list \<Rightarrow> string" where
  "render JNull = ''null''"
| "render (JBool b) = (if b then ''true'' else ''false'')"
| "render (JInt i) = show_int i"
| "render (JFloat f) = (case f of Fin s \<Rightarrow> s | NaN \<Rightarrow> ''NaN'' | PosInf \<Rightarrow> ''Infinity'' | NegInf \<Rightarrow> ''-Infinity'')"
| "render (JStr s) = quote s"
| "render (JList []) = ''[]''"
| "render (JList (x # xs)) = CHR ''['' # render x @ render_elems xs"
| "render (JDict []) = ''{}''"
| "render (JDict ((k, v) # kvs)) = CHR ''{'' # quote k @ CHR '':'' # render v @ render_items kvs"
| "render_elems [] = '']''"
| "render_elems (x # xs) = CHR '','' # render x @ render_elems xs"
| "render_items [] = ''}''"
| "render_items ((k, v) # kvs) = CHR '','' # quote k @ CHR '':'' # render v @ render_items kvs"

text \<open>\<open>sort_keys=True\<close> at every level.\<close>

fun canon :: "json \<Rightarrow> json"
  and canon_list :: "json list \<Rightarrow> json list"
  and canon_items :: "(string \<times> json) list \<Rightarrow> (string \<times> json) list" where
  "canon (JList xs) = JList (canon_list xs)"
| "canon (JDict kvs) = JDict (sort_key fst (canon_items kvs))"
| "canon JNull = JNull"
| "canon (JBool b) = JBool b"
| "canon (JInt i) = JInt i"
| "canon (JFloat f) = JFloat f"
| "canon (JStr s) = JStr s"
| "canon_list [] = []"
| "canon_list (x # xs) = canon x # canon_list xs"
| "canon_items [] = []"
| "canon_items ((k, v) # kvs) = (k, canon v) # canon_items kvs"

text \<open>
  \<open>allow_nan=False\<close> rejects the non-finite floats, and Python refuses to print an integer of more than
  4300 digits; both are \<open>ValueError\<close>.
\<close>

definition int_ok :: "int \<Rightarrow> bool" where
  "int_ok i \<longleftrightarrow> length (show_pos \<bar>i\<bar>) \<le> 4300"

fun jok :: "json \<Rightarrow> bool"
  and jok_list :: "json list \<Rightarrow> bool"
  and jok_items :: "(string \<times> json) list \<Rightarrow> bool" where
  "jok (JList xs) = jok_list xs"
| "jok (JDict kvs) = jok_items kvs"
| "jok JNull = True"
| "jok (JBool b) = True"
| "jok (JInt i) = int_ok i"
| "jok (JFloat f) = (case f of Fin s \<Rightarrow> True | _ \<Rightarrow> False)"
| "jok (JStr s) = True"
| "jok_list [] = True"
| "jok_list (x # xs) = (jok x \<and> jok_list xs)"
| "jok_items [] = True"
| "jok_items ((k, v) # kvs) = (jok v \<and> jok_items kvs)"

definition json_text :: "json \<Rightarrow> string option" where
  "json_text v = (if jok v then Some (render (canon v)) else None)"

section \<open>Reading\<close>

definition is_ws :: "char \<Rightarrow> bool" where
  "is_ws c \<longleftrightarrow> c = CHR '' '' \<or> c = CHR 0x09 \<or> c = CHR 0x0A \<or> c = CHR 0x0D"

definition skip_ws :: "string \<Rightarrow> string" where
  "skip_ws s = dropWhile is_ws s"

definition hex_val :: "char \<Rightarrow> int option" where
  "hex_val c = (let n = (of_char c :: int) in
     if 48 \<le> n \<and> n \<le> 57 then Some (n - 48)
     else if 97 \<le> n \<and> n \<le> 102 then Some (n - 87)
     else if 65 \<le> n \<and> n \<le> 70 then Some (n - 55) else None)"

definition hex4 :: "char \<Rightarrow> char \<Rightarrow> char \<Rightarrow> char \<Rightarrow> char option" where
  "hex4 a b c d = (case (hex_val a, hex_val b, hex_val c, hex_val d) of
     (Some x, Some y, Some z, Some w) \<Rightarrow>
       (let n = ((x * 16 + y) * 16 + z) * 16 + w in if n < 256 then Some (char_of n) else None)
   | _ \<Rightarrow> None)"

definition unesc :: "char \<Rightarrow> char option" where
  "unesc c =
    (if c = CHR 0x22 then Some (CHR 0x22)
     else if c = CHR 0x5C then Some (CHR 0x5C)
     else if c = CHR ''/'' then Some (CHR ''/'')
     else if c = CHR ''b'' then Some (CHR 0x08)
     else if c = CHR ''f'' then Some (CHR 0x0C)
     else if c = CHR ''n'' then Some (CHR 0x0A)
     else if c = CHR ''r'' then Some (CHR 0x0D)
     else if c = CHR ''t'' then Some (CHR 0x09) else None)"

definition push_char :: "char option \<Rightarrow> (string \<times> string) option \<Rightarrow> (string \<times> string) option" where
  "push_char c p = (case (c, p) of (Some x, Some (s, r)) \<Rightarrow> Some (x # s, r) | _ \<Rightarrow> None)"

text \<open>The text after an opening quote, up to the closing one (strict mode: no control characters).\<close>

fun parse_string :: "string \<Rightarrow> (string \<times> string) option" where
  "parse_string [] = None"
| "parse_string (c # r) =
    (if c = CHR 0x22 then Some ([], r)
     else if c = CHR 0x5C then
       (case r of
          [] \<Rightarrow> None
        | e # r' \<Rightarrow>
            if e = CHR ''u''
            then (case r' of
                    a # b # x # y # r'' \<Rightarrow> push_char (hex4 a b x y) (parse_string r'')
                  | _ \<Rightarrow> None)
            else push_char (unesc e) (parse_string r'))
     else if (of_char c :: int) < 32 then None
     else push_char (Some c) (parse_string r))"

definition is_digit :: "char \<Rightarrow> bool" where
  "is_digit c \<longleftrightarrow> 48 \<le> (of_char c :: int) \<and> (of_char c :: int) \<le> 57"

definition digits_value :: "string \<Rightarrow> int" where
  "digits_value ds = foldl (\<lambda>a c. a * 10 + (of_char c - 48)) 0 ds"

definition lex_frac :: "string \<Rightarrow> string \<times> string" where
  "lex_frac s = (case s of
     c # t \<Rightarrow> (let d = takeWhile is_digit t in
        if c = CHR ''.'' \<and> d \<noteq> [] then (c # d, drop (length d) t) else ([], s))
   | [] \<Rightarrow> ([], s))"

definition lex_exp :: "string \<Rightarrow> string \<times> string" where
  "lex_exp s = (case s of
     c # t \<Rightarrow>
       (let sg = (case t of x # _ \<Rightarrow> if x = CHR ''+'' \<or> x = CHR ''-'' then [x] else [] | [] \<Rightarrow> []);
            u = drop (length sg) t;
            d = takeWhile is_digit u
        in if (c = CHR ''e'' \<or> c = CHR ''E'') \<and> d \<noteq> [] then (c # sg @ d, drop (length d) u) else ([], s))
   | [] \<Rightarrow> ([], s))"

definition lex_sign :: "string \<Rightarrow> string" where
  "lex_sign s = (case s of c # _ \<Rightarrow> if c = CHR ''-'' then [c] else [] | [] \<Rightarrow> [])"

text \<open>An integer part is \<open>0\<close> or digits without a leading zero.\<close>

definition lex_int :: "string \<Rightarrow> string" where
  "lex_int s = (let d = takeWhile is_digit s in if take 1 d = ''0'' then ''0'' else d)"

definition lex_number :: "string \<Rightarrow> (json \<times> string) option" where
  "lex_number s =
    (let sg = lex_sign s; r = drop (length sg) s;
         ds = lex_int r; r1 = drop (length ds) r;
         (fr, r2) = lex_frac r1; (ex, r3) = lex_exp r2
     in if ds = [] then (if starts_with ''-Infinity'' s then Some (JFloat NegInf, drop 9 s) else None)
        else if fr = [] \<and> ex = []
          then (if length ds \<le> 4300
                then Some (JInt (if sg = [] then digits_value ds else - digits_value ds), r1) else None)
        else Some (JFloat (Fin (sg @ ds @ fr @ ex)), r3))"

definition parse_scalar :: "string \<Rightarrow> (json \<times> string) option" where
  "parse_scalar s =
    (if starts_with ''null'' s then Some (JNull, drop 4 s)
     else if starts_with ''true'' s then Some (JBool True, drop 4 s)
     else if starts_with ''false'' s then Some (JBool False, drop 5 s)
     else if starts_with ''NaN'' s then Some (JFloat NaN, drop 3 s)
     else if starts_with ''Infinity'' s then Some (JFloat PosInf, drop 8 s)
     else lex_number s)"

text \<open>
  Values, the elements of an array after \<open>[\<close> and the members of an object after \<open>{\<close>. The fuel
  bounds the nesting; \<open>json_loads\<close> gives one unit per character, which \<open>loads_json_text\<close> shows to be
  enough for every text a store has written.
\<close>

fun parse_value :: "nat \<Rightarrow> string \<Rightarrow> (json \<times> string) option"
  and parse_elems :: "nat \<Rightarrow> string \<Rightarrow> (json list \<times> string) option"
  and parse_members :: "nat \<Rightarrow> string \<Rightarrow> ((string \<times> json) list \<times> string) option" where
  "parse_value 0 s = None"
| "parse_value (Suc n) s = (case s of
     [] \<Rightarrow> None
   | c # r \<Rightarrow>
       if c = CHR 0x22 then map_option (\<lambda>(t, u). (JStr t, u)) (parse_string r)
       else if c = CHR ''['' then
         (if take 1 (skip_ws r) = '']'' then Some (JList [], tl (skip_ws r))
          else map_option (\<lambda>(vs, u). (JList vs, u)) (parse_elems n (skip_ws r)))
       else if c = CHR ''{'' then
         (if take 1 (skip_ws r) = ''}'' then Some (JDict [], tl (skip_ws r))
          else map_option (\<lambda>(ps, u). (JDict (dict_of ps), u)) (parse_members n (skip_ws r)))
       else parse_scalar s)"
| "parse_elems 0 s = None"
| "parse_elems (Suc n) s = (case parse_value n s of
     None \<Rightarrow> None
   | Some (v, r) \<Rightarrow> (case skip_ws r of
       [] \<Rightarrow> None
     | c # r' \<Rightarrow>
         if c = CHR '']'' then Some ([v], r')
         else if c = CHR '','' then map_option (\<lambda>(vs, u). (v # vs, u)) (parse_elems n (skip_ws r'))
         else None))"
| "parse_members 0 s = None"
| "parse_members (Suc n) s = (case s of
     [] \<Rightarrow> None
   | q # t \<Rightarrow> if q \<noteq> CHR 0x22 then None else (case parse_string t of
       None \<Rightarrow> None
     | Some (k, r0) \<Rightarrow> (case skip_ws r0 of
         [] \<Rightarrow> None
       | c0 # r1 \<Rightarrow> if c0 \<noteq> CHR '':'' then None else (case parse_value n (skip_ws r1) of
           None \<Rightarrow> None
         | Some (v, r) \<Rightarrow> (case skip_ws r of
             [] \<Rightarrow> None
           | c # r' \<Rightarrow>
               if c = CHR ''}'' then Some ([(k, v)], r')
               else if c = CHR '','' then
                 map_option (\<lambda>(ps, u). ((k, v) # ps, u)) (parse_members n (skip_ws r'))
               else None)))))"

definition json_loads :: "string \<Rightarrow> json option" where
  "json_loads s = (case parse_value (Suc (length s)) (skip_ws s) of
     Some (v, r) \<Rightarrow> if skip_ws r = [] then Some v else None
   | None \<Rightarrow> None)"

end
