(* ===== verification/Json_Roundtrip.thy ===== *)
theory Json_Roundtrip
  imports Json "HOL-Library.Multiset"
begin

text \<open>
  What a store writes with \<open>json_text\<close> it reads back with \<open>json_loads\<close>. The proof follows the
  grammar: digits, strings, numbers, and then values, arrays and objects by the recursion of the
  printer, with the fuel of the parser bounded by the length of the text.
\<close>

section \<open>Digits and numbers\<close>

lemma digit_value: "0 \<le> n \<Longrightarrow> n < 10 \<Longrightarrow> (of_char (digit n) :: int) = 48 + n"
proof -
  assume "0 \<le> n" "n < 10"
  then have "n \<in> set [0..9]" by simp
  moreover have "\<forall>m \<in> set [0..9]. (of_char (digit m) :: int) = 48 + m" by code_simp
  ultimately show ?thesis by blast
qed

lemma digit_is_digit: "0 \<le> n \<Longrightarrow> n < 10 \<Longrightarrow> is_digit (digit n)"
  by (simp add: is_digit_def digit_value)

lemma show_pos_digits: "0 \<le> n \<Longrightarrow> \<forall>c \<in> set (show_pos n). is_digit c"
proof (induction n rule: show_pos.induct)
  case (1 n)
  then show ?case
    by (subst show_pos.simps) (auto simp: digit_is_digit)
qed

lemma show_pos_nonempty [simp]: "show_pos n \<noteq> []"
  by (subst show_pos.simps) simp

lemma digits_value_snoc: "digits_value (ds @ [c]) = digits_value ds * 10 + (of_char c - 48)"
  by (simp add: digits_value_def)

lemma digits_value_show_pos: "0 \<le> n \<Longrightarrow> digits_value (show_pos n) = n"
proof (induction n rule: show_pos.induct)
  case (1 n)
  show ?case
  proof (cases "n < 10")
    case True
    with 1 show ?thesis
      by (subst show_pos.simps) (simp add: digits_value_def digit_value)
  next
    case False
    with 1 show ?thesis
      by (subst show_pos.simps) (simp add: digits_value_snoc digit_value)
  qed
qed

lemma hd_show_pos: "0 < n \<Longrightarrow> hd (show_pos n) \<noteq> CHR ''0''"
proof (induction n rule: show_pos.induct)
  case (1 n)
  show ?case
  proof (cases "n < 10")
    case True
    have "(of_char (digit n) :: int) \<noteq> of_char (CHR ''0'')"
      using True 1 by (simp add: digit_value)
    then have "digit n \<noteq> CHR ''0''" by metis
    with True show ?thesis by (subst show_pos.simps) simp
  next
    case False
    with 1 show ?thesis by (subst show_pos.simps) simp
  qed
qed

lemma show_pos_0: "show_pos 0 = ''0''"
  by code_simp

text \<open>The characters that can follow a value inside a text.\<close>

definition delim :: "string \<Rightarrow> bool" where
  "delim r \<longleftrightarrow> r = [] \<or> hd r = CHR '','' \<or> hd r = CHR '']'' \<or> hd r = CHR ''}''"

lemma delim_Nil [simp]: "delim []"
  by (simp add: delim_def)

lemma delim_Cons [simp]:
  "delim (c # r) \<longleftrightarrow> c = CHR '','' \<or> c = CHR '']'' \<or> c = CHR ''}''"
  by (simp add: delim_def)

lemma delim_no_digit: "delim r \<Longrightarrow> takeWhile is_digit r = []"
  by (cases r) (auto simp: is_digit_def)

lemma digits_delim: "delim r \<Longrightarrow> takeWhile is_digit (t @ r) = takeWhile is_digit t"
  by (induction t) (auto simp: delim_no_digit)

lemma length_takeWhile_digits: "length (takeWhile is_digit t) \<le> length t"
  by (rule length_takeWhile_le)

lemma lex_frac_delim: "delim r \<Longrightarrow> lex_frac t = (f, u) \<Longrightarrow> lex_frac (t @ r) = (f, u @ r)"
proof (cases t)
  case Nil
  assume "delim r" "lex_frac t = (f, u)"
  with Nil show ?thesis by (cases r) (auto simp: lex_frac_def Let_def)
next
  case (Cons c t')
  assume "delim r" "lex_frac t = (f, u)"
  with Cons show ?thesis
    using length_takeWhile_digits [of t']
    by (auto simp: lex_frac_def Let_def digits_delim split: if_splits)
qed

lemma lex_exp_delim: "delim r \<Longrightarrow> lex_exp t = (f, u) \<Longrightarrow> lex_exp (t @ r) = (f, u @ r)"
proof (cases t)
  case Nil
  assume "delim r" "lex_exp t = (f, u)"
  with Nil show ?thesis by (cases r) (auto simp: lex_exp_def Let_def)
next
  case (Cons c t')
  assume d: "delim r" and l: "lex_exp t = (f, u)"
  show ?thesis
  proof (cases t')
    case Nil
    with Cons d l show ?thesis
      by (cases r) (auto simp: lex_exp_def Let_def is_digit_def split: if_splits)
  next
    case (Cons x t'')
    with \<open>t = c # t'\<close> d l show ?thesis
      using length_takeWhile_digits [of t''] length_takeWhile_digits [of t']
      by (auto simp: lex_exp_def Let_def digits_delim [of _ "x # t''", simplified] digits_delim
          split: if_splits)
  qed
qed

lemma lex_int_delim: "delim r \<Longrightarrow> lex_int (t @ r) = lex_int t"
  by (simp add: lex_int_def digits_delim)

lemma length_lex_int: "length (lex_int t) \<le> length t"
  using length_takeWhile_digits [of t] by (cases t) (auto simp: lex_int_def Let_def)

lemma lex_sign_append: "t \<noteq> [] \<Longrightarrow> lex_sign (t @ r) = lex_sign t"
  by (cases t) (auto simp: lex_sign_def)

lemma length_lex_sign: "length (lex_sign t) \<le> length t"
  by (cases t) (auto simp: lex_sign_def)

lemma lex_number_delim:
  assumes "delim r" "lex_number t = Some (JFloat (Fin l), u)"
  shows "lex_number (t @ r) = Some (JFloat (Fin l), u @ r)"
proof -
  let ?s = "drop (length (lex_sign t)) t"
  let ?r1 = "drop (length (lex_int ?s)) ?s"
  obtain fr r2 where fr: "lex_frac ?r1 = (fr, r2)" by (cases "lex_frac ?r1") auto
  obtain ex r3 where ex: "lex_exp r2 = (ex, r3)" by (cases "lex_exp r2") auto
  have ne: "t \<noteq> []" using assms(2) by (auto simp: lex_number_def lex_sign_def lex_int_def
        lex_frac_def lex_exp_def starts_with_def)
  have "lex_frac (?r1 @ r) = (fr, r2 @ r)" and "lex_exp (r2 @ r) = (ex, r3 @ r)"
    using assms(1) fr ex by (auto intro: lex_frac_delim lex_exp_delim)
  with fr ex ne assms show ?thesis
    using length_lex_sign [of t] length_lex_int [of ?s]
    by (auto simp: lex_number_def lex_sign_append lex_int_delim Let_def split: if_splits)
qed

lemma takeWhile_all_delim:
  "\<forall>c \<in> set ds. is_digit c \<Longrightarrow> delim r \<Longrightarrow> takeWhile is_digit (ds @ r) = ds"
  by (simp add: digits_delim takeWhile_eq_all_conv [THEN iffD2] delim_no_digit)

lemma lex_frac_only_delim: "delim r \<Longrightarrow> lex_frac r = ([], r)"
  by (cases r) (auto simp: lex_frac_def Let_def)

lemma lex_exp_only_delim: "delim r \<Longrightarrow> lex_exp r = ([], r)"
  by (cases r) (auto simp: lex_exp_def Let_def)

lemma lex_int_show_pos: "0 \<le> n \<Longrightarrow> delim r \<Longrightarrow> lex_int (show_pos n @ r) = show_pos n"
proof (cases "n = 0")
  case True
  assume "delim r"
  then have "takeWhile is_digit (''0'' @ r) = ''0''"
    by (intro takeWhile_all_delim) (auto simp: is_digit_def)
  with True show ?thesis by (simp add: lex_int_def Let_def show_pos_0)
next
  case False
  assume "0 \<le> n" "delim r"
  with False have "takeWhile is_digit (show_pos n @ r) = show_pos n"
    by (intro takeWhile_all_delim show_pos_digits) auto
  moreover have "take 1 (show_pos n) \<noteq> ''0''"
    using hd_show_pos [of n] False \<open>0 \<le> n\<close> by (cases "show_pos n") auto
  ultimately show ?thesis by (simp add: lex_int_def)
qed

lemma lex_sign_show_pos: "0 \<le> n \<Longrightarrow> lex_sign (show_pos n @ r) = []"
proof -
  assume "0 \<le> n"
  then have "is_digit (hd (show_pos n))" using show_pos_digits by auto
  then show ?thesis by (cases "show_pos n") (auto simp: lex_sign_def is_digit_def)
qed

lemma lex_number_show_int:
  assumes "int_ok i" "delim r"
  shows "lex_number (show_int i @ r) = Some (JInt i, r)"
proof (cases "i < 0")
  case True
  with assms show ?thesis
    by (simp add: show_int_def lex_number_def lex_sign_def lex_int_show_pos Let_def
        lex_frac_only_delim lex_exp_only_delim digits_value_show_pos int_ok_def)
next
  case False
  with assms show ?thesis
    by (simp add: show_int_def lex_number_def lex_sign_show_pos lex_int_show_pos Let_def
        lex_frac_only_delim lex_exp_only_delim digits_value_show_pos int_ok_def)
qed

section \<open>Strings\<close>

lemma hex_val_hex_digit: "0 \<le> n \<Longrightarrow> n < 16 \<Longrightarrow> hex_val (hex_digit n) = Some n"
proof -
  assume "0 \<le> n" "n < 16"
  then have "n \<in> set [0..15]" by simp
  moreover have "\<forall>m \<in> set [0..15]. hex_val (hex_digit m) = Some m" by code_simp
  ultimately show ?thesis by blast
qed

lemma hex4_ctrl: "(of_char c :: int) < 32 \<Longrightarrow>
  hex4 (CHR ''0'') (CHR ''0'') (hex_digit (of_char c div 16)) (hex_digit (of_char c mod 16)) = Some c"
proof -
  assume lt: "(of_char c :: int) < 32"
  have nn: "0 \<le> (of_char c :: int)"
    using of_nat_of_char [of c, where 'a = int] by (metis of_nat_0_le_iff)
  have "hex_val (CHR ''0'') = Some 0" by code_simp
  moreover have "hex_val (hex_digit (of_char c div 16)) = Some (of_char c div 16)"
    using lt nn by (intro hex_val_hex_digit) auto
  moreover have "hex_val (hex_digit (of_char c mod 16)) = Some (of_char c mod 16)"
    by (intro hex_val_hex_digit) auto
  moreover have "(of_char c :: int) div 16 * 16 + of_char c mod 16 = of_char c" by simp
  ultimately show ?thesis using lt by (simp add: hex4_def Let_def)
qed

lemma push_char_simp [simp]: "push_char (Some c) (Some (s, r)) = Some (c # s, r)"
  by (simp add: push_char_def)

lemma parse_esc_char:
  "parse_string (esc_char c @ t) = push_char (Some c) (parse_string t)"
  by (auto simp: esc_char_def unesc_def hex4_ctrl)

lemma parse_string_esc:
  "parse_string (concat (map esc_char s) @ CHR 0x22 # r) = Some (s, r)"
  by (induction s) (auto simp: parse_esc_char simp del: parse_string.simps(2)
      simp: parse_string.simps(2) [of "CHR 0x22"])

section \<open>Values\<close>

text \<open>Well-formed values: one entry per key, and floats that are the literals \<open>repr\<close> writes.\<close>

definition float_ok :: "string \<Rightarrow> bool" where
  "float_ok l \<longleftrightarrow> lex_number l = Some (JFloat (Fin l), [])"

fun jwf :: "json \<Rightarrow> bool"
  and jwf_list :: "json list \<Rightarrow> bool"
  and jwf_items :: "(string \<times> json) list \<Rightarrow> bool" where
  "jwf (JList xs) = jwf_list xs"
| "jwf (JDict kvs) = (distinct (map fst kvs) \<and> jwf_items kvs)"
| "jwf JNull = True"
| "jwf (JBool b) = True"
| "jwf (JInt i) = True"
| "jwf (JFloat f) = (case f of Fin l \<Rightarrow> float_ok l | _ \<Rightarrow> True)"
| "jwf (JStr s) = True"
| "jwf_list [] = True"
| "jwf_list (x # xs) = (jwf x \<and> jwf_list xs)"
| "jwf_items [] = True"
| "jwf_items ((k, v) # kvs) = (jwf v \<and> jwf_items kvs)"

fun jfuel :: "json \<Rightarrow> nat"
  and jfuel_list :: "json list \<Rightarrow> nat"
  and jfuel_items :: "(string \<times> json) list \<Rightarrow> nat" where
  "jfuel (JList xs) = Suc (jfuel_list xs)"
| "jfuel (JDict kvs) = Suc (jfuel_items kvs)"
| "jfuel JNull = 1"
| "jfuel (JBool b) = 1"
| "jfuel (JInt i) = 1"
| "jfuel (JFloat f) = 1"
| "jfuel (JStr s) = 1"
| "jfuel_list [] = 0"
| "jfuel_list (x # xs) = Suc (jfuel x + jfuel_list xs)"
| "jfuel_items [] = 0"
| "jfuel_items ((k, v) # kvs) = Suc (jfuel v + jfuel_items kvs)"

definition num_start :: "string \<Rightarrow> bool" where
  "num_start s \<longleftrightarrow> s \<noteq> [] \<and> (hd s = CHR ''-'' \<or> is_digit (hd s))"

lemma num_start_show_int: "num_start (show_int i)"
proof (cases "i < 0")
  case True
  then show ?thesis by (simp add: num_start_def show_int_def)
next
  case False
  then have "\<forall>c \<in> set (show_pos i). is_digit c" by (intro show_pos_digits) simp
  then show ?thesis using False by (simp add: num_start_def show_int_def)
qed

lemma num_start_float: "float_ok l \<Longrightarrow> num_start l"
proof (cases l)
  case Nil
  assume "float_ok l"
  with Nil show ?thesis
    by (simp add: float_ok_def lex_number_def lex_sign_def lex_int_def lex_frac_def lex_exp_def
        starts_with_def)
next
  case (Cons c t)
  assume ok: "float_ok l"
  show ?thesis
  proof (rule ccontr)
    assume "\<not> num_start l"
    with Cons have "lex_sign l = []" "lex_int l = []" "\<not> starts_with ''-Infinity'' l"
      by (auto simp: num_start_def lex_sign_def lex_int_def starts_with_def)
    with ok show False by (auto simp: float_ok_def lex_number_def Let_def split: prod.splits)
  qed
qed

lemma parse_scalar_num: "num_start s \<Longrightarrow> parse_scalar (s @ r) = lex_number (s @ r)"
  by (cases s) (auto simp: num_start_def parse_scalar_def starts_with_def is_digit_def)

lemma parse_value_num:
  "num_start s \<Longrightarrow> parse_value (Suc n) (s @ r) = lex_number (s @ r)"
  by (frule parse_scalar_num [of _ r], cases s) (auto simp: num_start_def is_digit_def)

text \<open>The first character of a value is neither white space nor a closing bracket.\<close>

definition tok_start :: "string \<Rightarrow> bool" where
  "tok_start s \<longleftrightarrow> s \<noteq> [] \<and> \<not> is_ws (hd s) \<and> hd s \<noteq> CHR '']'' \<and> hd s \<noteq> CHR ''}''"

lemma num_tok_start: "num_start s \<Longrightarrow> tok_start s"
  by (auto simp: num_start_def tok_start_def is_ws_def is_digit_def)

lemma tok_start_render: "jwf v \<Longrightarrow> tok_start (render v)"
proof (cases v)
  case (JInt i)
  then show ?thesis by (simp add: num_tok_start num_start_show_int)
next
  case (JFloat f)
  assume "jwf v"
  with JFloat show ?thesis
    by (cases f) (simp_all add: num_tok_start num_start_float, simp_all add: tok_start_def is_ws_def)
next
  case (JList xs)
  then show ?thesis by (cases xs) (auto simp: tok_start_def is_ws_def)
next
  case (JDict kvs)
  then show ?thesis by (cases kvs) (auto simp: tok_start_def is_ws_def)
qed (auto simp: tok_start_def is_ws_def quote_def)

lemma skip_ws_tok: "tok_start s \<Longrightarrow> skip_ws (s @ r) = s @ r"
  by (cases s) (auto simp: tok_start_def skip_ws_def)

lemma skip_ws_delim: "delim r \<Longrightarrow> skip_ws r = r"
  by (cases r) (auto simp: skip_ws_def is_ws_def)

lemma take1_tok: "tok_start s \<Longrightarrow> take 1 (s @ r) \<noteq> '']'' \<and> take 1 (s @ r) \<noteq> ''}''"
  by (cases s) (auto simp: tok_start_def)

lemma delim_render_elems: "delim (render_elems xs @ r)"
  by (cases xs) auto

lemma delim_render_items: "delim (render_items kvs @ r)"
  by (cases kvs) auto

lemma tok_start_quote: "tok_start (quote k)"
  by (simp add: tok_start_def quote_def is_ws_def)

lemma parse_quote: "parse_value (Suc n) (quote s @ r) = Some (JStr s, r)"
  by (simp add: quote_def parse_string_esc)

subsection \<open>Dictionaries read back with the keys they were written with\<close>

lemma dset_fresh: "k \<notin> set (map fst d) \<Longrightarrow> dset d k v = d @ [(k, v)]"
  by (induction d) auto

lemma foldl_dset:
  "distinct (map fst (d @ ps)) \<Longrightarrow> foldl (\<lambda>d (k, v). dset d k v) d ps = d @ ps"
proof (induction ps arbitrary: d)
  case Nil
  then show ?case by simp
next
  case (Cons p ps)
  obtain k v where p: "p = (k, v)" by (cases p)
  from Cons.prems p have fresh: "dset d k v = d @ [(k, v)]" by (intro dset_fresh) auto
  have "distinct (map fst ((d @ [(k, v)]) @ ps))" using Cons.prems p by simp
  from Cons.IH [OF this] fresh p show ?case by simp
qed

lemma dict_of_distinct: "distinct (map fst ps) \<Longrightarrow> dict_of ps = ps"
  using foldl_dset [of "[]" ps] by (simp add: dict_of_def)

subsection \<open>The parser inverts the printer\<close>

lemma parse_scalar_consts:
  "parse_scalar (''null'' @ r) = Some (JNull, r)"
  "parse_scalar (''true'' @ r) = Some (JBool True, r)"
  "parse_scalar (''false'' @ r) = Some (JBool False, r)"
  by (simp_all add: parse_scalar_def starts_with_def)

lemma render_JList_Cons: "xs \<noteq> [] \<Longrightarrow> render (JList xs) = CHR ''['' # tl (render_elems xs)"
  by (cases xs) auto

lemma render_JDict_Cons: "ps \<noteq> [] \<Longrightarrow> render (JDict ps) = CHR ''{'' # tl (render_items ps)"
  by (cases ps rule: render_items.cases) auto

lemma tok_start_elems: "xs \<noteq> [] \<Longrightarrow> jwf_list xs \<Longrightarrow> tok_start (tl (render_elems xs))"
  using tok_start_render by (cases xs) (auto simp: tok_start_def)

lemma tok_start_items: "ps \<noteq> [] \<Longrightarrow> tok_start (tl (render_items ps))"
  using tok_start_quote by (cases ps rule: render_items.cases) (auto simp: tok_start_def)

lemma parse_render:
  "jwf v \<Longrightarrow> jok v \<Longrightarrow> jfuel v \<le> n \<Longrightarrow> delim r \<Longrightarrow> parse_value n (render v @ r) = Some (v, r)"
  "jwf_list xs \<Longrightarrow> jok_list xs \<Longrightarrow> jfuel_list xs \<le> n \<Longrightarrow> xs \<noteq> [] \<Longrightarrow>
     parse_elems n (tl (render_elems xs) @ r) = Some (xs, r)"
  "jwf_items ps \<Longrightarrow> jok_items ps \<Longrightarrow> jfuel_items ps \<le> n \<Longrightarrow> ps \<noteq> [] \<Longrightarrow>
     parse_members n (tl (render_items ps) @ r) = Some (ps, r)"
proof (induction v and xs and ps arbitrary: n r and n r and n r
    rule: jfuel_jfuel_list_jfuel_items.induct)
  case (1 xs)
  then obtain m where n: "n = Suc m" and m: "jfuel_list xs \<le> m" by (cases n) auto
  show ?case
  proof (cases "xs = []")
    case True
    then show ?thesis by (simp add: n skip_ws_def is_ws_def)
  next
    case False
    with 1 m have "parse_elems m (tl (render_elems xs) @ r) = Some (xs, r)" by simp
    with False 1 show ?thesis
      using skip_ws_tok [OF tok_start_elems, of xs r] take1_tok [OF tok_start_elems, of xs r]
      by (simp add: n render_JList_Cons)
  qed
next
  case (2 ps)
  then obtain m where n: "n = Suc m" and m: "jfuel_items ps \<le> m" by (cases n) auto
  show ?case
  proof (cases "ps = []")
    case True
    then show ?thesis by (simp add: n skip_ws_def is_ws_def)
  next
    case False
    with 2 m have "parse_members m (tl (render_items ps) @ r) = Some (ps, r)" by simp
    with False 2 show ?thesis
      using skip_ws_tok [OF tok_start_items, of ps r] take1_tok [OF tok_start_items, of ps r]
      by (simp add: n render_JDict_Cons dict_of_distinct)
  qed
next
  case 3
  then show ?case using parse_scalar_consts by (cases n) auto
next
  case (4 b)
  then show ?case using parse_scalar_consts by (cases n) auto
next
  case (5 i)
  then show ?case
    by (cases n) (auto simp: parse_value_num num_start_show_int lex_number_show_int
        simp del: parse_value.simps)
next
  case (6 f)
  then obtain l where f: "f = Fin l" and l: "float_ok l" by (cases f) auto
  with 6 have "lex_number (l @ r) = Some (JFloat (Fin l), r)"
    using lex_number_delim [of r l l "[]"] by (simp add: float_ok_def)
  with 6 f l show ?case
    by (cases n) (auto simp: parse_value_num num_start_float simp del: parse_value.simps)
next
  case (7 s)
  then show ?case by (cases n) (auto simp: parse_quote simp del: parse_value.simps)
next
  case 8
  then show ?case by simp
next
  case (9 x xs)
  then obtain m where n: "n = Suc m" and x: "jfuel x \<le> m" and xs: "jfuel_list xs \<le> m"
    by (cases n) auto
  have v: "parse_value m (render x @ render_elems xs @ r) = Some (x, render_elems xs @ r)"
    using 9 x delim_render_elems by simp
  show ?case
  proof (cases xs)
    case Nil
    with v show ?thesis by (simp add: n skip_ws_def is_ws_def)
  next
    case (Cons y ys)
    then have "parse_elems m (tl (render_elems xs) @ r) = Some (xs, r)" using 9 xs by simp
    with Cons v 9 show ?thesis
      using skip_ws_tok [OF tok_start_elems, of xs r]
      by (simp add: n skip_ws_delim)
  qed
next
  case 10
  then show ?case by simp
next
  case (11 k v ps)
  then obtain m where n: "n = Suc m" and x: "jfuel v \<le> m" and ps: "jfuel_items ps \<le> m"
    by (cases n) auto
  have v: "parse_value m (render v @ render_items ps @ r) = Some (v, render_items ps @ r)"
    using 11 x delim_render_items by simp
  have sv: "skip_ws (render v @ render_items ps @ r) = render v @ render_items ps @ r"
    using 11 by (simp add: skip_ws_tok tok_start_render)
  have colon: "skip_ws (CHR '':'' # u) = CHR '':'' # u" for u by (simp add: skip_ws_def is_ws_def)
  show ?case
  proof (cases ps)
    case Nil
    with v sv colon show ?thesis
      by (simp add: n quote_def parse_string_esc skip_ws_delim)
  next
    case (Cons p qs)
    then have IH: "parse_members m (tl (render_items ps) @ r) = Some (ps, r)" using 11 ps by simp
    have sk: "skip_ws (tl (render_items ps) @ r) = tl (render_items ps) @ r"
      using Cons by (simp add: skip_ws_tok tok_start_items)
    have ri: "render_items ps @ r = CHR '','' # tl (render_items ps) @ r"
      using Cons by (cases p) simp
    from v sv have v': "parse_value m (skip_ws (render v @ CHR '','' # tl (render_items ps) @ r)) =
        Some (v, CHR '','' # tl (render_items ps) @ r)" by (simp add: ri)
    show ?thesis
      by (simp add: n quote_def parse_string_esc colon ri v' IH sk skip_ws_delim)
  qed
qed

section \<open>Fuel: one unit per character is enough\<close>

lemma render_nonempty: "jwf v \<Longrightarrow> 0 < length (render v)"
  using tok_start_render by (auto simp: tok_start_def)

lemma jfuel_le_length:
  "jwf v \<Longrightarrow> jfuel v \<le> length (render v)"
  "jwf_list xs \<Longrightarrow> jfuel_list xs < length (render_elems xs)"
  "jwf_items ps \<Longrightarrow> jfuel_items ps < length (render_items ps)"
proof (induction v and xs and ps rule: jfuel_jfuel_list_jfuel_items.induct)
  case (1 xs)
  then show ?case by (cases xs) auto
next
  case (2 ps)
  then show ?case by (cases ps rule: render_items.cases) auto
next
  case (5 i)
  then show ?case using render_nonempty [of "JInt i"] by (simp add: Suc_le_eq)
next
  case (6 f)
  then show ?case using render_nonempty [of "JFloat f"] by (simp add: Suc_le_eq)
qed (auto simp: quote_def)

lemma json_loads_render: "jwf v \<Longrightarrow> jok v \<Longrightarrow> json_loads (render v) = Some v"
proof -
  assume wf: "jwf v" and ok: "jok v"
  have "jfuel v \<le> Suc (length (render v))" using jfuel_le_length(1) [OF wf] by simp
  with wf ok have "parse_value (Suc (length (render v))) (render v @ []) = Some (v, [])"
    by (intro parse_render(1)) auto
  moreover have "skip_ws (render v @ []) = render v @ []"
    using wf by (intro skip_ws_tok tok_start_render)
  ultimately show ?thesis by (simp add: json_loads_def skip_ws_def)
qed

section \<open>Canonical form\<close>

lemma canon_items_map: "canon_items ps = map (\<lambda>(k, v). (k, canon v)) ps"
  by (induction ps) auto

lemma canon_list_map: "canon_list xs = map canon xs"
  by (induction xs) auto

lemma jok_list_all: "jok_list xs = list_all jok xs"
  by (induction xs) auto

lemma jok_items_all: "jok_items ps = list_all (\<lambda>(k, v). jok v) ps"
  by (induction ps) auto

lemma jwf_list_all: "jwf_list xs = list_all jwf xs"
  by (induction xs) auto

lemma jwf_items_all: "jwf_items ps = list_all (\<lambda>(k, v). jwf v) ps"
  by (induction ps) auto

lemma canon_ok:
  "jok v \<Longrightarrow> jok (canon v)"
  "jok_list xs \<Longrightarrow> jok_list (canon_list xs)"
  "jok_items ps \<Longrightarrow> jok_items (canon_items ps)"
  by (induction v and xs and ps rule: canon_canon_list_canon_items.induct)
    (auto simp: jok_items_all list_all_iff)

lemma distinct_sort_fst:
  "distinct (map fst (sort_key f ps)) = distinct (map fst ps)"
  by (rule mset_eq_imp_distinct_iff) simp

lemma canon_wf:
  "jwf v \<Longrightarrow> jwf (canon v)"
  "jwf_list xs \<Longrightarrow> jwf_list (canon_list xs)"
  "jwf_items ps \<Longrightarrow> jwf_items (canon_items ps)"
  by (induction v and xs and ps rule: canon_canon_list_canon_items.induct)
    (auto simp: jwf_items_all list_all_iff distinct_sort_fst canon_items_map comp_def case_prod_unfold)

lemma loads_json_text:
  assumes "jwf v" and "json_text v = Some t"
  shows "json_loads t = Some (canon v)"
  using assms by (auto simp: json_text_def canon_ok canon_wf json_loads_render split: if_splits)

lemma json_text_Some_iff: "json_text v = Some t \<longleftrightarrow> jok v \<and> t = render (canon v)"
  by (auto simp: json_text_def)

lemma json_text_None_iff: "json_text v = None \<longleftrightarrow> \<not> jok v"
  by (auto simp: json_text_def)

text \<open>Looking up a key of a canonical dictionary.\<close>

lemma map_of_sort_key_fst: "distinct (map fst ps) \<Longrightarrow> map_of (sort_key fst ps) = map_of ps"
  by (rule map_of_inject_set [THEN iffD2]) (auto simp: distinct_sort_fst)

lemma map_of_canon_items: "map_of (canon_items ps) k = map_option canon (map_of ps k)"
  by (induction ps) auto

lemma dget_canon:
  "distinct (map fst d) \<Longrightarrow> dget (sort_key fst (canon_items d)) k = canon (dget d k)"
  by (auto simp: dget_def map_of_sort_key_fst canon_items_map comp_def case_prod_unfold
      map_of_canon_items [unfolded canon_items_map case_prod_unfold] split: option.splits)

lemma dhas_canon: "dhas (sort_key fst (canon_items d)) k = dhas d k"
  by (simp add: dhas_def canon_items_map image_image case_prod_unfold)

section \<open>Small integers\<close>

text \<open>A safe integer has few digits, so it can always be encoded.\<close>

lemma length_show_pos: "i < 10 ^ Suc k \<Longrightarrow> length (show_pos i) \<le> Suc k"
proof (induction k arbitrary: i)
  case (Suc k)
  have "i div 10 < 10 ^ Suc k" using Suc.prems by simp
  from Suc.IH [OF this] show ?case by (subst show_pos.simps) simp
qed (subst show_pos.simps, simp)

lemma small_int_ok:
  assumes "0 \<le> i" and "i < 2 ^ 53"
  shows "int_ok i"
proof -
  have "i < 10 ^ Suc 15" using assms by simp
  from length_show_pos [OF this] assms(1) show ?thesis by (simp add: int_ok_def)
qed

end
