(* ===== verification/Persist_Base.thy ===== *)
theory Persist_Base
  imports Tables Json_Roundtrip
begin

text \<open>
  The data model and the validators of the Harness persistence authority
  (\<open>persistence/store.py\<close>): principals, the four scoped SQLite tables with their CHECK constraints,
  the column readers that fail closed, and the checks on identifiers, integers, headers and event
  envelopes. Arguments that the HTTP layer has already typed as text or integers have those types;
  headers and events are arbitrary JSON.
\<close>

section \<open>Error codes (\<open>persistence/errors.py\<close>)\<close>

abbreviation SESSION_NOT_FOUND :: string where "SESSION_NOT_FOUND \<equiv> ''SESSION_NOT_FOUND''"
abbreviation SESSION_ALREADY_EXISTS :: string where "SESSION_ALREADY_EXISTS \<equiv> ''SESSION_ALREADY_EXISTS''"
abbreviation SESSION_ALREADY_OWNED :: string where "SESSION_ALREADY_OWNED \<equiv> ''SESSION_ALREADY_OWNED''"
abbreviation SESSION_OWNERSHIP_LOST :: string where "SESSION_OWNERSHIP_LOST \<equiv> ''SESSION_OWNERSHIP_LOST''"
abbreviation SESSION_SEQUENCE_CONFLICT :: string where
  "SESSION_SEQUENCE_CONFLICT \<equiv> ''SESSION_SEQUENCE_CONFLICT''"
abbreviation SESSION_INVALID_HEADER :: string where "SESSION_INVALID_HEADER \<equiv> ''SESSION_INVALID_HEADER''"
abbreviation SESSION_INVALID_EVENT :: string where "SESSION_INVALID_EVENT \<equiv> ''SESSION_INVALID_EVENT''"
abbreviation SESSION_STORAGE_CORRUPT :: string where "SESSION_STORAGE_CORRUPT \<equiv> ''SESSION_STORAGE_CORRUPT''"

section \<open>Principals\<close>

record principal =
  actor_id :: string
  workspace_ids :: "string list"
  can_takeover :: bool
  organization_id :: "string option"
  can_write_harness :: bool
  can_publish_credential_health :: bool
  can_bind_teams_private_conversations :: bool
  actor_private_scope :: bool

text \<open>\<open>PersistencePrincipal.__post_init__\<close>: construction fails on an inconsistent principal.\<close>

definition principal_post_init :: "principal \<Rightarrow> principal res" where
  "principal_post_init p =
    (let one_scope = (organization_id p \<noteq> None \<and> length (remdups (workspace_ids p)) = 1) in
     if py_strip (actor_id p) = [] then Inl ValueError
     else if (case organization_id p of None \<Rightarrow> False | Some org \<Rightarrow> py_strip org = []) then Inl ValueError
     else if actor_private_scope p \<and> \<not> one_scope then Inl ValueError
     else if can_bind_teams_private_conversations p \<and>
         (can_takeover p \<or> can_write_harness p \<or> can_publish_credential_health p
          \<or> actor_private_scope p \<or> \<not> one_scope) then Inl ValueError
     else Inr p)"

section \<open>Tables\<close>

type_synonym scope_key = "string \<times> string \<times> string"

record session_row =
  s_org :: string
  s_ws :: string
  s_sid :: string
  s_header_json :: string
  s_inherited :: int
  s_event_count :: int
  s_revision :: string
  s_last_activity :: int
  s_owner_actor :: "string option"
  s_owner_client :: "string option"
  s_token_hash :: "string option"
  s_epoch :: int
  s_lease :: "int option"

record event_row =
  e_org :: string
  e_ws :: string
  e_sid :: string
  e_seq :: int
  e_json :: string

record batch_row =
  b_org :: string
  b_ws :: string
  b_sid :: string
  b_epoch :: int
  b_id :: string
  b_digest :: string
  b_event_count :: int
  b_next_seq :: int

record meta_row =
  m_org :: string
  m_ws :: string
  m_sid :: string
  m_creator :: "string option"
  m_owner :: "string option"
  m_owner_state :: string
  m_version :: int
  m_source :: string
  m_created_at :: "int option"
  m_private :: int

record pdb =
  sessions :: "session_row list"
  session_events :: "event_row list"
  session_batches :: "batch_row list"
  session_metas :: "meta_row list"

definition s_key :: "session_row \<Rightarrow> scope_key" where
  "s_key r = (s_org r, s_ws r, s_sid r)"

definition e_scope :: "event_row \<Rightarrow> scope_key" where
  "e_scope r = (e_org r, e_ws r, e_sid r)"

definition e_key :: "event_row \<Rightarrow> scope_key \<times> int" where
  "e_key r = (e_scope r, e_seq r)"

definition b_scope :: "batch_row \<Rightarrow> scope_key" where
  "b_scope r = (b_org r, b_ws r, b_sid r)"

definition b_key :: "batch_row \<Rightarrow> scope_key \<times> int \<times> string" where
  "b_key r = (b_scope r, b_epoch r, b_id r)"

definition m_key :: "meta_row \<Rightarrow> scope_key" where
  "m_key r = (m_org r, m_ws r, m_sid r)"

text \<open>The CHECK constraints of the schema.\<close>

definition session_check :: "session_row \<Rightarrow> bool" where
  "session_check r \<longleftrightarrow> 0 \<le> s_inherited r \<and> 0 \<le> s_event_count r \<and> 0 \<le> s_epoch r \<and>
     ((s_owner_actor r = None \<and> s_owner_client r = None \<and> s_token_hash r = None \<and> s_lease r = None) \<or>
      (s_owner_actor r \<noteq> None \<and> s_owner_client r \<noteq> None \<and> s_token_hash r \<noteq> None \<and> s_lease r \<noteq> None))"

definition event_check :: "event_row \<Rightarrow> bool" where
  "event_check r \<longleftrightarrow> 0 \<le> e_seq r"

definition batch_check :: "batch_row \<Rightarrow> bool" where
  "batch_check r \<longleftrightarrow> 0 \<le> b_epoch r \<and> 0 < b_event_count r \<and> 0 \<le> b_next_seq r"

definition meta_check :: "meta_row \<Rightarrow> bool" where
  "meta_check r \<longleftrightarrow> m_owner_state r \<in> {''known'', ''unknown''} \<and> 1 \<le> m_version r \<and>
     m_source r \<in> {''cyrene'', ''legacy''} \<and> m_private r \<in> {0, 1}"

interpretation session_tbl: table s_key "find_by s_key" "insert_by s_key" "edit_by s_key" "keyed s_key"
  by (rule list_table)

interpretation event_tbl: table e_key "find_by e_key" "insert_by e_key" "edit_by e_key" "keyed e_key"
  by (rule list_table)

interpretation batch_tbl: table b_key "find_by b_key" "insert_by b_key" "edit_by b_key" "keyed b_key"
  by (rule list_table)

interpretation meta_tbl: table m_key "find_by m_key" "insert_by m_key" "edit_by m_key" "keyed m_key"
  by (rule list_table)

section \<open>Integers, identifiers and columns\<close>

definition MAX_SAFE_INTEGER :: int where
  "MAX_SAFE_INTEGER = 2 ^ 53 - 1"

definition is_safe_int :: "int \<Rightarrow> bool" where
  "is_safe_int v \<longleftrightarrow> 0 \<le> v \<and> v \<le> MAX_SAFE_INTEGER"

definition validate_non_negative_int :: "int \<Rightarrow> int res" where
  "validate_non_negative_int v =
    (if \<not> is_safe_int v \<or> v < 0 then raise ''PERSISTENCE_INVALID_INTEGER'' 422 else Inr v)"

definition validate_identifier :: "string \<Rightarrow> string res" where
  "validate_identifier s =
    (if s = [] \<or> length s > 512 then raise ''PERSISTENCE_INVALID_IDENTIFIER'' 422
     else if list_ex is_ctrl s then raise ''PERSISTENCE_INVALID_IDENTIFIER'' 422
     else Inr s)"

definition organization_key :: "string option \<Rightarrow> string res" where
  "organization_key org = (case org of None \<Rightarrow> Inr [] | Some o' \<Rightarrow> validate_identifier o')"

definition column_int :: "int \<Rightarrow> int res" where
  "column_int v = (if \<not> is_safe_int v then raise SESSION_STORAGE_CORRUPT 500 else Inr v)"

definition column_optional_int :: "int option \<Rightarrow> int option res" where
  "column_optional_int v = (case v of
     None \<Rightarrow> Inr None
   | Some i \<Rightarrow> if \<not> is_safe_int i then raise SESSION_STORAGE_CORRUPT 500 else Inr (Some i))"

definition stored_json_object :: "string \<Rightarrow> json_object res" where
  "stored_json_object t = (case json_loads t of
     None \<Rightarrow> raise SESSION_STORAGE_CORRUPT 500
   | Some (JDict d) \<Rightarrow> Inr d
   | Some _ \<Rightarrow> raise SESSION_STORAGE_CORRUPT 500)"

section \<open>Headers and events\<close>

text \<open>
  Python's \<open>v in (2, 4)\<close>: the integer or the equal float (\<open>True\<close> equals 1, so it is neither).
\<close>

definition version_supported :: "json \<Rightarrow> bool" where
  "version_supported v \<longleftrightarrow> v \<in> set [JInt 2, JInt 4, JFloat (Fin ''2.0''), JFloat (Fin ''4.0'')]"

definition validate_header :: "json \<Rightarrow> string \<Rightarrow> int \<Rightarrow> json_object res" where
  "validate_header header sid inherited =
    (case header of
       JDict h \<Rightarrow>
         if dget h ''id'' \<noteq> JStr sid then raise SESSION_INVALID_HEADER 422
         else if \<not> version_supported (dget h ''version'') then raise SESSION_INVALID_HEADER 422
         else if (case dget h ''createdAt'' of JInt i \<Rightarrow> i < 0 \<or> i > MAX_SAFE_INTEGER | _ \<Rightarrow> True)
           then raise SESSION_INVALID_HEADER 422
         else if (case dget h ''isSeeded'' of JBool b \<Rightarrow> False | _ \<Rightarrow> True)
           then raise SESSION_INVALID_HEADER 422
         else if dget h ''isSeeded'' = JBool False \<and> inherited \<noteq> 0 then raise SESSION_INVALID_HEADER 422
         else if json_text (JDict h) = None then raise SESSION_INVALID_HEADER 422
         else Inr h
     | _ \<Rightarrow> raise SESSION_INVALID_HEADER 422)"

definition safe_int_json :: "json \<Rightarrow> bool" where
  "safe_int_json v \<longleftrightarrow> (case v of JInt i \<Rightarrow> is_safe_int i \<and> \<not> i < 0 | _ \<Rightarrow> False)"

definition validate_event_shape :: "json \<Rightarrow> json_object res" where
  "validate_event_shape ev =
    (case ev of
       JDict d \<Rightarrow>
         if \<not> (dhas d ''seq'' \<and> dhas d ''time'' \<and> dhas d ''type'' \<and> dhas d ''data'')
           then raise SESSION_INVALID_EVENT 422
         else if \<not> safe_int_json (dget d ''seq'') then raise SESSION_INVALID_EVENT 422
         else if \<not> safe_int_json (dget d ''time'') then raise SESSION_INVALID_EVENT 422
         else if (case dget d ''type'' of JStr t \<Rightarrow> t = [] \<or> length t > 512 | _ \<Rightarrow> True)
           then raise SESSION_INVALID_EVENT 422
         else if json_text (JDict d) = None then raise SESSION_INVALID_EVENT 422
         else Inr d
     | _ \<Rightarrow> raise SESSION_INVALID_EVENT 422)"

definition validate_event_shapes :: "json list \<Rightarrow> json_object list res" where
  "validate_event_shapes evs =
    (if evs = [] then raise SESSION_INVALID_EVENT 422 else mapE validate_event_shape evs)"

fun validate_event_sequence :: "json_object list \<Rightarrow> int \<Rightarrow> unit res" where
  "validate_event_sequence [] expected = Inr ()"
| "validate_event_sequence (d # ds) expected =
    (if dget d ''seq'' \<noteq> JInt expected then raise SESSION_SEQUENCE_CONFLICT 409
     else validate_event_sequence ds (expected + 1))"

definition validate_stored_event :: "json_object \<Rightarrow> int \<Rightarrow> unit res" where
  "validate_stored_event d expected_seq =
    (case validate_event_shapes [JDict d] of
       Inl _ \<Rightarrow> raise SESSION_STORAGE_CORRUPT 500
     | Inr _ \<Rightarrow> if dget d ''seq'' \<noteq> JInt expected_seq then raise SESSION_STORAGE_CORRUPT 500
                else Inr ())"

definition text_of :: "json \<Rightarrow> string res" where
  "text_of v = (case json_text v of None \<Rightarrow> Inl ValueError | Some t \<Rightarrow> Inr t)"

definition events_digest :: "json_object list \<Rightarrow> string res" where
  "events_digest evs = bindE (text_of (JList (map JDict evs))) (\<lambda>t. Inr (sha256_hex t))"

definition revision :: "int \<Rightarrow> string \<Rightarrow> string" where
  "revision next_seq digest = show_int next_seq @ '':'' @ take 16 digest"

definition token_hash :: "string \<Rightarrow> string" where
  "token_hash t = sha256_hex t"

definition lease_expiry :: "int \<Rightarrow> int \<Rightarrow> int" where
  "lease_expiry lease_ms now = now + max 1 lease_ms"

section \<open>Facts about the validators\<close>

lemma validate_identifier_Inr [resE]:
  "validate_identifier s = Inr t \<longleftrightarrow> t = s \<and> s \<noteq> [] \<and> length s \<le> 512 \<and> \<not> list_ex is_ctrl s"
  by (auto simp: validate_identifier_def)

lemma validate_non_negative_int_Inr [resE]:
  "validate_non_negative_int v = Inr w \<longleftrightarrow> w = v \<and> is_safe_int v"
  by (auto simp: validate_non_negative_int_def is_safe_int_def)

lemma column_int_Inr [resE]: "column_int v = Inr w \<longleftrightarrow> w = v \<and> is_safe_int v"
  by (auto simp: column_int_def)

lemma column_optional_int_Inr [resE]:
  "column_optional_int v = Inr w \<longleftrightarrow> w = v \<and> (\<forall>i. v = Some i \<longrightarrow> is_safe_int i)"
  by (auto simp: column_optional_int_def split: option.splits)

lemma validate_event_shape_Inr:
  "validate_event_shape ev = Inr d \<longleftrightarrow> ev = JDict d \<and>
     dhas d ''seq'' \<and> dhas d ''time'' \<and> dhas d ''type'' \<and> dhas d ''data'' \<and>
     safe_int_json (dget d ''seq'') \<and> safe_int_json (dget d ''time'') \<and>
     (\<exists>t. dget d ''type'' = JStr t \<and> t \<noteq> [] \<and> length t \<le> 512) \<and> jok (JDict d)"
  by (auto simp: validate_event_shape_def json_text_None_iff not_less split: json.splits if_splits)

lemma validate_event_shapes_JDict:
  "validate_event_shapes evs = Inr ds \<Longrightarrow> evs = map JDict ds \<and> ds \<noteq> [] \<and>
     (\<forall>d \<in> set ds. validate_event_shape (JDict d) = Inr d)"
proof -
  assume "validate_event_shapes evs = Inr ds"
  then have ne: "evs \<noteq> []" and all: "list_all2 (\<lambda>x y. validate_event_shape x = Inr y) evs ds"
    by (auto simp: validate_event_shapes_def mapE_Inr_iff split: if_splits)
  from all have "evs = map JDict ds \<and> (\<forall>d \<in> set ds. validate_event_shape (JDict d) = Inr d)"
    by (induction rule: list_all2_induct) (auto simp: validate_event_shape_Inr)
  with ne show ?thesis by auto
qed

lemma validate_event_sequence_Inr:
  "validate_event_sequence ds n = Inr u \<longleftrightarrow>
     map (\<lambda>d. dget d ''seq'') ds = map (\<lambda>i. JInt (n + int i)) [0..<length ds]"
proof (induction ds arbitrary: n)
  case Nil
  then show ?case by simp
next
  case (Cons d ds)
  have "map (\<lambda>i. JInt (n + int i)) [0..<length (d # ds)] =
        JInt n # map (\<lambda>i. JInt (n + 1 + int i)) [0..<length ds]"
    by (simp add: upt_conv_Cons map_Suc_upt [symmetric] del: upt_Suc map_Suc_upt)
  with Cons show ?case by auto
qed

text \<open>A validated event reads back, in canonical form, as a valid event with the same sequence.\<close>

lemma validate_event_shape_canon:
  assumes "validate_event_shape (JDict d) = Inr d" and "jwf (JDict d)"
  shows "validate_event_shape (canon (JDict d)) = Inr (sort_key fst (canon_items d))"
proof -
  from assms(2) have dist: "distinct (map fst d)" by simp
  have get: "dget (sort_key fst (canon_items d)) k = canon (dget d k)" for k
    using dist by (rule dget_canon)
  from assms(1) have ok: "jok (canon (JDict d))"
    by (intro canon_ok(1)) (simp add: validate_event_shape_Inr)
  from assms(1) ok show ?thesis
    by (auto simp: validate_event_shape_Inr dhas_canon get safe_int_json_def split: json.splits)
qed

end
