(* ===== verification/Persist_Store.thy ===== *)
theory Persist_Store
  imports Persist_Base
begin

text \<open>
  The operations of \<open>PersistenceStore\<close> (\<open>persistence/store.py\<close>). A mutation is a transaction body
  bracketed by \<open>commit\<close>: it returns what the caller sees and the database afterwards. A read returns a
  result or an error. Every reading of the clock (\<open>_unix_ms()\<close>) and every fresh capability
  (\<open>_new_token()\<close>) is an argument, in the order the code asks for them; \<open>lease_ms\<close> is
  \<open>int(lease_seconds * 1000)\<close>.
\<close>

section \<open>Rows and access\<close>

definition fetch_session :: "pdb \<Rightarrow> scope_key \<Rightarrow> session_row option" where
  "fetch_session db k = find_by s_key k (sessions db)"

definition require_session :: "pdb \<Rightarrow> scope_key \<Rightarrow> session_row res" where
  "require_session db k = (case fetch_session db k of
     None \<Rightarrow> raise SESSION_NOT_FOUND 404
   | Some row \<Rightarrow> Inr row)"

definition require_product_metadata :: "pdb \<Rightarrow> scope_key \<Rightarrow> meta_row res" where
  "require_product_metadata db k = (case find_by m_key k (session_metas db) of
     None \<Rightarrow> raise SESSION_STORAGE_CORRUPT 500
   | Some row \<Rightarrow> Inr row)"

record product_metadata =
  pm_workspace :: string
  pm_session :: string
  pm_creator :: "string option"
  pm_owner :: "string option"
  pm_owner_state :: string
  pm_version :: int
  pm_source :: string
  pm_created_at :: "int option"

definition product_metadata_from_row :: "meta_row \<Rightarrow> product_metadata res" where
  "product_metadata_from_row row =
    bindE (column_int (m_version row)) (\<lambda>version.
    bindE (column_int (m_private row)) (\<lambda>private.
    bindE (column_optional_int (m_created_at row)) (\<lambda>created_at.
      if m_source row \<notin> {''cyrene'', ''legacy''} then raise SESSION_STORAGE_CORRUPT 500
      else if m_owner_state row \<notin> {''known'', ''unknown''} then raise SESSION_STORAGE_CORRUPT 500
      else if version < 1 then raise SESSION_STORAGE_CORRUPT 500
      else if private \<notin> {0, 1} then raise SESSION_STORAGE_CORRUPT 500
      else if m_source row = ''cyrene'' \<and> (m_creator row = None \<or> m_owner row = None
          \<or> m_owner_state row \<noteq> ''known'' \<or> created_at = None)
        then raise SESSION_STORAGE_CORRUPT 500
      else if m_source row = ''legacy'' \<and> (m_creator row \<noteq> None \<or> m_owner row \<noteq> None
          \<or> m_owner_state row \<noteq> ''unknown'')
        then raise SESSION_STORAGE_CORRUPT 500
      else Inr \<lparr>pm_workspace = m_ws row, pm_session = m_sid row, pm_creator = m_creator row,
                pm_owner = m_owner row, pm_owner_state = m_owner_state row, pm_version = version,
                pm_source = m_source row, pm_created_at = created_at\<rparr>)))"

definition can_access_session :: "pdb \<Rightarrow> session_row \<Rightarrow> principal \<Rightarrow> bool res" where
  "can_access_session db row p =
    bindE (require_product_metadata db (s_key row)) (\<lambda>meta.
    bindE (column_int (m_private meta)) (\<lambda>private.
      if private \<notin> {0, 1} then raise SESSION_STORAGE_CORRUPT 500
      else bindE (product_metadata_from_row meta) (\<lambda>owner.
        let same_actor = (pm_owner_state owner = ''known'' \<and> pm_owner owner = Some (actor_id p)) in
        if private = 1 \<or> actor_private_scope p then Inr same_actor else Inr True)))"

definition assert_session_access :: "pdb \<Rightarrow> session_row \<Rightarrow> principal \<Rightarrow> unit res" where
  "assert_session_access db row p =
    bindE (can_access_session db row p) (\<lambda>ok.
      if \<not> ok then raise SESSION_NOT_FOUND 404 else Inr ())"

text \<open>The writer fence. \<open>hmac.compare_digest\<close> is equality of the two digests.\<close>

definition assert_writer :: "int \<Rightarrow> session_row \<Rightarrow> principal \<Rightarrow> string \<Rightarrow> int \<Rightarrow> unit res" where
  "assert_writer now row p writer_token epoch =
    bindE (column_int (s_epoch row)) (\<lambda>expected_epoch.
    bindE (column_optional_int (s_lease row)) (\<lambda>lease.
      if epoch \<noteq> expected_epoch \<or> s_owner_actor row \<noteq> Some (actor_id p)
         \<or> s_token_hash row \<noteq> Some (token_hash writer_token)
         \<or> (case lease of None \<Rightarrow> True | Some l \<Rightarrow> l \<le> now)
      then Inl (PersistenceError SESSION_OWNERSHIP_LOST 409 True)
      else Inr ()))"

section \<open>Handles and snapshots\<close>

record session_handle =
  h_session_id :: string
  h_header :: json_object
  h_inherited :: int
  h_access :: string
  h_next_seq :: int
  h_epoch :: int
  h_writer_token :: "string option"
  h_lease_expires_at :: "int option"

definition handle_as_dict :: "session_handle \<Rightarrow> json_object" where
  "handle_as_dict h =
    [(''id'', JStr (h_session_id h)), (''header'', JDict (h_header h)),
     (''inheritedEventCount'', JInt (h_inherited h)), (''access'', JStr (h_access h)),
     (''nextSeq'', JInt (h_next_seq h)), (''epoch'', JInt (h_epoch h))] @
    (case h_writer_token h of None \<Rightarrow> [] | Some t \<Rightarrow> [(''writerToken'', JStr t)]) @
    (case h_lease_expires_at h of None \<Rightarrow> [] | Some l \<Rightarrow> [(''leaseExpiresAt'', JInt l)])"

definition handle_from_row :: "session_row \<Rightarrow> string \<Rightarrow> string option \<Rightarrow> session_handle res" where
  "handle_from_row row access token_override =
    bindE (if access = ''write'' then column_optional_int (s_lease row) else Inr None) (\<lambda>lease.
    bindE (stored_json_object (s_header_json row)) (\<lambda>header.
    bindE (column_int (s_inherited row)) (\<lambda>inherited.
    bindE (column_int (s_event_count row)) (\<lambda>next_seq.
    bindE (column_int (s_epoch row)) (\<lambda>epoch.
      Inr \<lparr>h_session_id = s_sid row, h_header = header, h_inherited = inherited, h_access = access,
           h_next_seq = next_seq, h_epoch = epoch,
           h_writer_token = (if access = ''write'' then token_override else None),
           h_lease_expires_at = lease\<rparr>)))))"

record snapshot =
  sn_meta :: json_object
  sn_product :: product_metadata
  sn_revision :: string
  sn_event_count :: int
  sn_last_activity :: "int option"

definition snapshot_from_row :: "pdb \<Rightarrow> session_row \<Rightarrow> snapshot res" where
  "snapshot_from_row db row =
    bindE (column_optional_int (Some (s_last_activity row))) (\<lambda>last_activity.
    bindE (stored_json_object (s_header_json row)) (\<lambda>meta.
    bindE (require_product_metadata db (s_key row)) (\<lambda>mrow.
    bindE (product_metadata_from_row mrow) (\<lambda>product.
    bindE (column_int (s_event_count row)) (\<lambda>event_count.
      Inr \<lparr>sn_meta = meta, sn_product = product, sn_revision = s_revision row,
           sn_event_count = event_count, sn_last_activity = last_activity\<rparr>)))))"

section \<open>Creating a session\<close>

definition create_session ::
  "int \<Rightarrow> int \<Rightarrow> string \<Rightarrow> string \<Rightarrow> string \<Rightarrow> json \<Rightarrow> int \<Rightarrow> principal \<Rightarrow> string \<Rightarrow> pdb
   \<Rightarrow> session_handle res \<times> pdb" where
  "create_session lease_ms now token ws sid header inherited p client db = commit db (
    bindE (validate_identifier ws) (\<lambda>ws.
    bindE (validate_identifier sid) (\<lambda>sid.
    bindE (validate_identifier client) (\<lambda>client.
    bindE (validate_non_negative_int inherited) (\<lambda>inherited.
    bindE (validate_header header sid inherited) (\<lambda>h.
    bindE (validate_identifier (actor_id p)) (\<lambda>creator.
    bindE (organization_key (organization_id p)) (\<lambda>org.
    bindE (text_of (JDict h)) (\<lambda>header_json.
      let k = (org, ws, sid);
          row = \<lparr>s_org = org, s_ws = ws, s_sid = sid, s_header_json = header_json,
                 s_inherited = inherited, s_event_count = 0, s_revision = ''0'', s_last_activity = now,
                 s_owner_actor = Some creator, s_owner_client = Some client,
                 s_token_hash = Some (token_hash token), s_epoch = 1,
                 s_lease = Some (lease_expiry lease_ms now)\<rparr>;
          meta = \<lparr>m_org = org, m_ws = ws, m_sid = sid, m_creator = Some creator,
                  m_owner = Some creator, m_owner_state = ''known'', m_version = 1,
                  m_source = ''cyrene'', m_created_at = Some now,
                  m_private = (if actor_private_scope p then 1 else 0)\<rparr>
      in case fetch_session db k of
           Some _ \<Rightarrow> raise SESSION_ALREADY_EXISTS 409
         | None \<Rightarrow>
            (case bindE (insert_by s_key row (sessions db)) (\<lambda>ss.
                  bindE (insert_by m_key meta (session_metas db)) (\<lambda>ms.
                    Inr (db\<lparr>sessions := ss, session_metas := ms\<rparr>))) of
               Inl _ \<Rightarrow> raise SESSION_ALREADY_EXISTS 409
             | Inr db' \<Rightarrow>
                 bindE (require_session db' k) (\<lambda>row.
                 bindE (handle_from_row row ''write'' (Some token)) (\<lambda>h.
                   Inr (h, db')))))))))))))"

section \<open>Opening handles\<close>

definition open_read_handle :: "string \<Rightarrow> string \<Rightarrow> principal \<Rightarrow> pdb \<Rightarrow> session_handle res" where
  "open_read_handle ws sid p db =
    bindE (organization_key (organization_id p)) (\<lambda>org.
    bindE (require_session db (org, ws, sid)) (\<lambda>row.
    bindE (assert_session_access db row p) (\<lambda>_.
      handle_from_row row ''read'' None)))"

text \<open>Who may take the pen: the guards of \<open>open_handle\<close> for write access.\<close>

definition takeover_guard :: "session_row \<Rightarrow> principal \<Rightarrow> int option \<Rightarrow> int res" where
  "takeover_guard row p expected =
    bindE (column_int (s_epoch row)) (\<lambda>current_epoch.
      if s_owner_actor row \<noteq> None \<or> s_token_hash row \<noteq> None then
        (case expected of
           None \<Rightarrow> raise SESSION_ALREADY_OWNED 409
         | Some e \<Rightarrow>
             if e \<noteq> current_epoch then Inl (PersistenceError SESSION_OWNERSHIP_LOST 409 True)
             else if s_owner_actor row \<noteq> Some (actor_id p) \<and> \<not> can_takeover p
               then raise ''SESSION_TAKEOVER_FORBIDDEN'' 403
             else Inr current_epoch)
      else
        (case expected of
           None \<Rightarrow> Inr current_epoch
         | Some e \<Rightarrow> if e \<noteq> current_epoch then Inl (PersistenceError SESSION_OWNERSHIP_LOST 409 True)
                     else Inr current_epoch))"

definition open_handle ::
  "int \<Rightarrow> int \<Rightarrow> int \<Rightarrow> string \<Rightarrow> string \<Rightarrow> string \<Rightarrow> string \<Rightarrow> principal \<Rightarrow> string \<Rightarrow> int option \<Rightarrow> pdb
   \<Rightarrow> session_handle res \<times> pdb" where
  "open_handle lease_ms t1 t2 token ws sid access p client expected db = commit db (
    bindE (validate_identifier ws) (\<lambda>ws.
    bindE (validate_identifier sid) (\<lambda>sid.
    bindE (validate_identifier client) (\<lambda>client.
    bindE (organization_key (organization_id p)) (\<lambda>org.
      if access \<notin> {''read'', ''write''} then raise ''PERSISTENCE_INVALID_ACCESS'' 422
      else bindE (case expected of None \<Rightarrow> Inr None
                  | Some e \<Rightarrow> bindE (validate_non_negative_int e) (\<lambda>e. Inr (Some e))) (\<lambda>expected.
        if access = ''read'' then bindE (open_read_handle ws sid p db) (\<lambda>h. Inr (h, db))
        else
          bindE (require_session db (org, ws, sid)) (\<lambda>row.
          bindE (assert_session_access db row p) (\<lambda>_.
          bindE (takeover_guard row p expected) (\<lambda>current_epoch.
          bindE (validate_identifier (actor_id p)) (\<lambda>actor.
            let db' = db\<lparr>sessions := edit_by s_key (org, ws, sid) (\<lambda>r. r\<lparr>
                  s_owner_actor := Some actor, s_owner_client := Some client,
                  s_token_hash := Some (token_hash token), s_epoch := current_epoch + 1,
                  s_lease := Some (lease_expiry lease_ms t1), s_last_activity := t2\<rparr>) (sessions db)\<rparr>
            in bindE (require_session db' (org, ws, sid)) (\<lambda>current.
               bindE (handle_from_row current ''write'' (Some token)) (\<lambda>h.
                 Inr (h, db')))))))))))))"

section \<open>The fenced writer's operations\<close>

text \<open>What every fenced mutation checks before it does anything else.\<close>

definition fenced_row ::
  "int \<Rightarrow> string \<Rightarrow> string \<Rightarrow> principal \<Rightarrow> string \<Rightarrow> int \<Rightarrow> string \<Rightarrow> pdb \<Rightarrow> session_row res" where
  "fenced_row now ws sid p writer_token epoch org db =
    bindE (require_session db (org, ws, sid)) (\<lambda>row.
    bindE (assert_session_access db row p) (\<lambda>_.
    bindE (assert_writer now row p writer_token epoch) (\<lambda>_. Inr row)))"

definition event_row_of :: "scope_key \<Rightarrow> json_object \<Rightarrow> event_row res" where
  "event_row_of k d = (case k of (org, ws, sid) \<Rightarrow>
    bindE (text_of (JDict d)) (\<lambda>t.
      Inr \<lparr>e_org = org, e_ws = ws, e_sid = sid,
           e_seq = (case dget d ''seq'' of JInt i \<Rightarrow> i | _ \<Rightarrow> 0), e_json = t\<rparr>))"

text \<open>The part of \<open>append_events\<close> that runs when the batch id is new.\<close>

definition append_fresh ::
  "int \<Rightarrow> scope_key \<Rightarrow> int \<Rightarrow> string \<Rightarrow> string \<Rightarrow> json_object list \<Rightarrow> session_row \<Rightarrow> pdb \<Rightarrow> (int \<times> pdb) res" where
  "append_fresh t2 k epoch batch digest ds row db = (case k of (org, ws, sid) \<Rightarrow>
    bindE (column_int (s_event_count row)) (\<lambda>next_seq.
    bindE (validate_event_sequence ds next_seq) (\<lambda>_.
    bindE (mapE (event_row_of k) ds) (\<lambda>rows.
      let committed = next_seq + int (length ds);
          batch_row = \<lparr>b_org = org, b_ws = ws, b_sid = sid, b_epoch = epoch, b_id = batch,
                       b_digest = digest, b_event_count = int (length ds), b_next_seq = committed\<rparr>;
          sess = edit_by s_key k (\<lambda>r. r\<lparr>s_event_count := committed,
            s_revision := revision committed digest, s_last_activity := t2\<rparr>) (sessions db)
      in case bindE (insert_all e_key rows (session_events db)) (\<lambda>es.
              bindE (insert_by b_key batch_row (session_batches db)) (\<lambda>bs.
                Inr (db\<lparr>sessions := sess, session_events := es, session_batches := bs\<rparr>))) of
           Inl _ \<Rightarrow> raise SESSION_SEQUENCE_CONFLICT 409
         | Inr db' \<Rightarrow> Inr (committed, db')))))"

definition append_events ::
  "int \<Rightarrow> int \<Rightarrow> string \<Rightarrow> string \<Rightarrow> principal \<Rightarrow> string \<Rightarrow> int \<Rightarrow> string \<Rightarrow> json list \<Rightarrow> pdb
   \<Rightarrow> int res \<times> pdb" where
  "append_events t1 t2 ws sid p writer_token epoch batch evs db = commit db (
    bindE (validate_identifier ws) (\<lambda>ws.
    bindE (validate_identifier sid) (\<lambda>sid.
    bindE (validate_identifier writer_token) (\<lambda>writer_token.
    bindE (validate_identifier batch) (\<lambda>batch.
    bindE (validate_non_negative_int epoch) (\<lambda>epoch.
    bindE (organization_key (organization_id p)) (\<lambda>org.
    bindE (validate_event_shapes evs) (\<lambda>ds.
    bindE (events_digest ds) (\<lambda>digest.
    bindE (fenced_row t1 ws sid p writer_token epoch org db) (\<lambda>row.
      case find_by b_key ((org, ws, sid), epoch, batch) (session_batches db) of
        Some existing \<Rightarrow>
          if b_digest existing = digest
          then bindE (column_int (b_next_seq existing)) (\<lambda>n. Inr (n, db))
          else raise SESSION_SEQUENCE_CONFLICT 409
      | None \<Rightarrow> append_fresh t2 (org, ws, sid) epoch batch digest ds row db))))))))))"

definition renew_or_confirm ::
  "bool \<Rightarrow> int \<Rightarrow> int \<Rightarrow> int \<Rightarrow> int \<Rightarrow> string \<Rightarrow> string \<Rightarrow> principal \<Rightarrow> string \<Rightarrow> int \<Rightarrow> pdb
   \<Rightarrow> (int \<times> int) res \<times> pdb" where
  "renew_or_confirm renew lease_ms t1 t2 t3 ws sid p writer_token epoch db = commit db (
    bindE (validate_identifier ws) (\<lambda>ws.
    bindE (validate_identifier sid) (\<lambda>sid.
    bindE (validate_identifier writer_token) (\<lambda>writer_token.
    bindE (validate_non_negative_int epoch) (\<lambda>epoch.
    bindE (organization_key (organization_id p)) (\<lambda>org.
    bindE (fenced_row t1 ws sid p writer_token epoch org db) (\<lambda>row.
    bindE (case s_lease row of None \<Rightarrow> raise SESSION_STORAGE_CORRUPT 500 | Some l \<Rightarrow> column_int l) (\<lambda>lease.
      let lease' = (if renew then lease_expiry lease_ms t2 else lease);
          db' = (if renew
                 then db\<lparr>sessions := edit_by s_key (org, ws, sid)
                   (\<lambda>r. r\<lparr>s_lease := Some lease', s_last_activity := t3\<rparr>) (sessions db)\<rparr>
                 else db)
      in bindE (column_int (s_event_count row)) (\<lambda>n. Inr ((n, lease'), db'))))))))))"

definition heartbeat ::
  "int \<Rightarrow> int \<Rightarrow> int \<Rightarrow> int \<Rightarrow> string \<Rightarrow> string \<Rightarrow> principal \<Rightarrow> string \<Rightarrow> int \<Rightarrow> pdb \<Rightarrow> (int \<times> int) res \<times> pdb" where
  "heartbeat = renew_or_confirm True"

definition flush ::
  "int \<Rightarrow> int \<Rightarrow> int \<Rightarrow> int \<Rightarrow> string \<Rightarrow> string \<Rightarrow> principal \<Rightarrow> string \<Rightarrow> int \<Rightarrow> pdb \<Rightarrow> (int \<times> int) res \<times> pdb" where
  "flush = renew_or_confirm False"

definition release ::
  "int \<Rightarrow> string \<Rightarrow> string \<Rightarrow> principal \<Rightarrow> string \<Rightarrow> int \<Rightarrow> pdb \<Rightarrow> int res \<times> pdb" where
  "release t1 ws sid p writer_token epoch db = commit db (
    bindE (validate_identifier ws) (\<lambda>ws.
    bindE (validate_identifier sid) (\<lambda>sid.
    bindE (validate_identifier writer_token) (\<lambda>writer_token.
    bindE (validate_non_negative_int epoch) (\<lambda>epoch.
    bindE (organization_key (organization_id p)) (\<lambda>org.
    bindE (fenced_row t1 ws sid p writer_token epoch org db) (\<lambda>row.
    bindE (column_int (s_epoch row)) (\<lambda>e.
      let db' = db\<lparr>sessions := edit_by s_key (org, ws, sid) (\<lambda>r. r\<lparr>
            s_owner_actor := None, s_owner_client := None, s_token_hash := None,
            s_epoch := e + 1, s_lease := None\<rparr>) (sessions db)\<rparr>
      in bindE (column_int (s_event_count row)) (\<lambda>n. Inr (n, db'))))))))))"

section \<open>Reading\<close>

definition MAX_PAGE_LENGTH :: int where
  "MAX_PAGE_LENGTH = 10000"

text \<open>The read loop: row \<open>index\<close> must hold sequence \<open>offset + index\<close> and a valid envelope.\<close>

fun read_rows :: "int \<Rightarrow> event_row list \<Rightarrow> json_object list res" where
  "read_rows expected [] = Inr []"
| "read_rows expected (r # rs) =
    bindE (column_int (e_seq r)) (\<lambda>sequence.
      if sequence \<noteq> expected then raise SESSION_STORAGE_CORRUPT 500
      else bindE (stored_json_object (e_json r)) (\<lambda>event.
           bindE (validate_stored_event event sequence) (\<lambda>_.
           bindE (read_rows (expected + 1) rs) (\<lambda>events.
             Inr (event # events)))))"

definition check_access :: "pdb \<Rightarrow> session_row \<Rightarrow> principal option \<Rightarrow> unit res" where
  "check_access db row p = (case p of None \<Rightarrow> Inr () | Some p \<Rightarrow> assert_session_access db row p)"

definition read_events ::
  "string \<Rightarrow> string \<Rightarrow> int \<Rightarrow> int \<Rightarrow> string option \<Rightarrow> principal option \<Rightarrow> pdb
   \<Rightarrow> (json_object list \<times> int) res" where
  "read_events ws sid offset len org p db =
    bindE (validate_identifier ws) (\<lambda>ws.
    bindE (validate_identifier sid) (\<lambda>sid.
    bindE (organization_key org) (\<lambda>org.
    bindE (validate_non_negative_int offset) (\<lambda>offset.
    bindE (validate_non_negative_int len) (\<lambda>len.
      if len > MAX_PAGE_LENGTH then raise ''PERSISTENCE_PAGE_TOO_LARGE'' 422
      else
        bindE (require_session db (org, ws, sid)) (\<lambda>row.
        bindE (check_access db row p) (\<lambda>_.
        bindE (column_int (s_event_count row)) (\<lambda>next_seq.
          if len = 0 \<or> offset \<ge> next_seq then Inr ([], next_seq)
          else
            (let rows = take (nat len) (order_by e_seq
                   (filter (\<lambda>e. e_scope e = (org, ws, sid) \<and> e_seq e \<ge> offset) (session_events db)))
             in if int (length rows) \<noteq> min len (next_seq - offset)
                then raise SESSION_STORAGE_CORRUPT 500
                else bindE (read_rows offset rows) (\<lambda>events. Inr (events, next_seq)))))))))))"

definition list_snapshots ::
  "string \<Rightarrow> string option \<Rightarrow> principal option \<Rightarrow> pdb \<Rightarrow> snapshot list res" where
  "list_snapshots ws org p db =
    bindE (validate_identifier ws) (\<lambda>ws.
    bindE (organization_key org) (\<lambda>org.
    bindE (mapE (\<lambda>row.
        bindE (case p of None \<Rightarrow> Inr True | Some p \<Rightarrow> can_access_session db row p) (\<lambda>ok.
          if ok then bindE (snapshot_from_row db row) (\<lambda>s. Inr [s]) else Inr []))
      (order_by s_sid (filter (\<lambda>r. s_org r = org \<and> s_ws r = ws) (sessions db)))) (\<lambda>pages.
      Inr (concat pages))))"

definition get_snapshot ::
  "string \<Rightarrow> string \<Rightarrow> string option \<Rightarrow> principal option \<Rightarrow> pdb \<Rightarrow> snapshot res" where
  "get_snapshot ws sid org p db =
    bindE (validate_identifier ws) (\<lambda>ws.
    bindE (validate_identifier sid) (\<lambda>sid.
    bindE (organization_key org) (\<lambda>org.
    bindE (require_session db (org, ws, sid)) (\<lambda>row.
    bindE (check_access db row p) (\<lambda>_.
      snapshot_from_row db row)))))"

definition get_product_metadata ::
  "string \<Rightarrow> string \<Rightarrow> string option \<Rightarrow> principal option \<Rightarrow> pdb \<Rightarrow> product_metadata res" where
  "get_product_metadata ws sid org p db =
    bindE (validate_identifier ws) (\<lambda>ws.
    bindE (validate_identifier sid) (\<lambda>sid.
    bindE (organization_key org) (\<lambda>org.
    bindE (require_session db (org, ws, sid)) (\<lambda>row.
    bindE (check_access db row p) (\<lambda>_.
    bindE (require_product_metadata db (org, ws, sid)) (\<lambda>m.
      product_metadata_from_row m))))))"

definition authorize_session_access :: "string \<Rightarrow> string \<Rightarrow> principal \<Rightarrow> pdb \<Rightarrow> unit res" where
  "authorize_session_access ws sid p db =
    bindE (validate_identifier ws) (\<lambda>ws.
    bindE (validate_identifier sid) (\<lambda>sid.
    bindE (organization_key (organization_id p)) (\<lambda>org.
    bindE (require_session db (org, ws, sid)) (\<lambda>row.
      assert_session_access db row p))))"

end
