(* ===== verification/Systems.thy ===== *)
theory Systems
  imports Prelude
begin

text \<open>
  The interface between a store and the arguments about its whole history. A store offers a step
  relation (one committed or rolled-back call), an invariant every step keeps, and an order in which
  every step moves forward; \<open>locale history\<close> then gives the invariant and the order for every
  sequence of steps. Each store interprets it on its own step relation.
\<close>

locale history =
  fixes step :: "'s \<Rightarrow> 's \<Rightarrow> bool"
    and inv :: "'s \<Rightarrow> bool"
    and grows :: "'s \<Rightarrow> 's \<Rightarrow> bool"
  assumes inv_step: "step s s' \<Longrightarrow> inv s \<Longrightarrow> inv s'"
    and grows_step: "step s s' \<Longrightarrow> inv s \<Longrightarrow> grows s s'"
    and grows_refl: "grows s s"
    and grows_trans: "grows s s' \<Longrightarrow> grows s' s'' \<Longrightarrow> grows s s''"
begin

lemma inv_steps: "step\<^sup>*\<^sup>* s s' \<Longrightarrow> inv s \<Longrightarrow> inv s'"
  by (induction rule: rtranclp_induct) (auto intro: inv_step)

lemma grows_steps: "step\<^sup>*\<^sup>* s s' \<Longrightarrow> inv s \<Longrightarrow> grows s s'"
proof (induction rule: rtranclp_induct)
  case base
  then show ?case by (simp add: grows_refl)
next
  case (step y z)
  have "inv y" by (rule inv_steps [OF step.hyps(1) step.prems])
  with step show ?case by (blast intro: grows_step grows_trans)
qed

text \<open>A fact about two states that only depends on how far the history has moved is never undone.\<close>

lemma stable_steps:
  assumes "\<And>s'. grows s s' \<Longrightarrow> P s'" and "inv s" and "step\<^sup>*\<^sup>* s s'"
  shows "P s'"
  using assms grows_steps by blast

text \<open>Two moments of one run: what held at the first is in the past of the second.\<close>

lemma grows_between:
  assumes "inv s0" and "step\<^sup>*\<^sup>* s0 s1" and "step\<^sup>*\<^sup>* s1 s2"
  shows "inv s1 \<and> inv s2 \<and> grows s0 s1 \<and> grows s1 s2 \<and> grows s0 s2"
  using assms by (meson inv_steps grows_steps grows_trans)

end

end
