(* ===== verification/Persist_Inv.thy ===== *)
theory Persist_Inv
  imports Persist_Store Systems
begin

text \<open>
  The persistence authority as a transition system: \<open>pstep\<close> is one call of a mutation, \<open>pinv\<close> the
  invariant of the four tables and \<open>pgrows\<close> the order of history (logs only get longer, epochs only
  move forward, metadata never changes). The operations are first inverted to the change they make
  (\<open>*_Inr\<close>); the invariant is then shown for the three kinds of change: a new session, an edited
  session row, an appended batch.
\<close>

section \<open>What a successful call does\<close>

definition log_of :: "pdb \<Rightarrow> scope_key \<Rightarrow> event_row list" where
  "log_of db k = filter (\<lambda>e. e_scope e = k) (session_events db)"

lemma text_of_Inr [resE]: "text_of v = Inr t \<longleftrightarrow> json_text v = Some t"
  by (auto simp: text_of_def split: option.splits)

lemma require_session_Inr [resE]: "require_session db k = Inr row \<longleftrightarrow> fetch_session db k = Some row"
  by (auto simp: require_session_def split: option.splits)

lemma require_product_metadata_Inr [resE]:
  "require_product_metadata db k = Inr m \<longleftrightarrow> find_by m_key k (session_metas db) = Some m"
  by (auto simp: require_product_metadata_def split: option.splits)

lemma assert_writer_Inr [resE]:
  "assert_writer now row p tok epoch = Inr u \<longleftrightarrow>
     epoch = s_epoch row \<and> is_safe_int epoch \<and> s_owner_actor row = Some (actor_id p) \<and>
     s_token_hash row = Some (token_hash tok) \<and>
     (\<exists>l. s_lease row = Some l \<and> is_safe_int l \<and> now < l)"
  by (auto simp: assert_writer_def resE split: option.splits if_splits)

lemma fenced_row_Inr:
  "fenced_row now ws sid p tok epoch org db = Inr row \<longleftrightarrow>
     fetch_session db (org, ws, sid) = Some row \<and> assert_session_access db row p = Inr () \<and>
     assert_writer now row p tok epoch = Inr ()"
  by (auto simp: fenced_row_def resE)

lemma validate_header_Inr:
  "validate_header header sid inherited = Inr h \<longleftrightarrow> header = JDict h \<and> dget h ''id'' = JStr sid \<and>
     version_supported (dget h ''version'') \<and>
     (\<exists>i. dget h ''createdAt'' = JInt i \<and> is_safe_int i) \<and>
     (\<exists>b. dget h ''isSeeded'' = JBool b \<and> (\<not> b \<longrightarrow> inherited = 0)) \<and> jok (JDict h)"
  by (auto simp: validate_header_def is_safe_int_def json_text_None_iff not_less
      split: json.splits if_splits)

lemma validate_header_JDict: "validate_header header sid inherited = Inr h \<Longrightarrow> header = JDict h"
  by (simp add: validate_header_Inr)

definition new_session_row ::
  "int \<Rightarrow> int \<Rightarrow> string \<Rightarrow> scope_key \<Rightarrow> string \<Rightarrow> int \<Rightarrow> string \<Rightarrow> string \<Rightarrow> session_row" where
  "new_session_row lease_ms now token k header_json inherited actor client = (case k of (org, ws, sid) \<Rightarrow>
     \<lparr>s_org = org, s_ws = ws, s_sid = sid, s_header_json = header_json, s_inherited = inherited,
      s_event_count = 0, s_revision = ''0'', s_last_activity = now, s_owner_actor = Some actor,
      s_owner_client = Some client, s_token_hash = Some (token_hash token), s_epoch = 1,
      s_lease = Some (lease_expiry lease_ms now)\<rparr>)"

definition new_meta_row :: "int \<Rightarrow> scope_key \<Rightarrow> principal \<Rightarrow> meta_row" where
  "new_meta_row now k p = (case k of (org, ws, sid) \<Rightarrow>
     \<lparr>m_org = org, m_ws = ws, m_sid = sid, m_creator = Some (actor_id p), m_owner = Some (actor_id p),
      m_owner_state = ''known'', m_version = 1, m_source = ''cyrene'', m_created_at = Some now,
      m_private = (if actor_private_scope p then 1 else 0)\<rparr>)"

lemma new_row_keys [simp]:
  "s_key (new_session_row lease_ms now token k hj inh actor client) = k"
  "m_key (new_meta_row now k p) = k"
  by (auto simp: new_session_row_def new_meta_row_def s_key_def m_key_def split: prod.splits)

lemma create_session_Inr:
  assumes "create_session lease_ms now token ws sid header inherited p client db = (Inr h, db')"
  obtains org hd hj where "organization_key (organization_id p) = Inr org"
    "validate_header header sid inherited = Inr hd" "json_text (JDict hd) = Some hj"
    "is_safe_int inherited" "fetch_session db (org, ws, sid) = None"
    "find_by m_key (org, ws, sid) (session_metas db) = None"
    "db' = db\<lparr>sessions := sessions db @
            [new_session_row lease_ms now token (org, ws, sid) hj inherited (actor_id p) client],
          session_metas := session_metas db @ [new_meta_row now (org, ws, sid) p]\<rparr>"
    "handle_from_row (new_session_row lease_ms now token (org, ws, sid) hj inherited (actor_id p) client)
       ''write'' (Some token) = Inr h"
  using assms
  by (auto simp: create_session_def resE Let_def fetch_session_def find_by_snoc
      new_session_row_def new_meta_row_def s_key_def m_key_def
      split: option.splits)

lemma open_handle_write_Inr:
  assumes "open_handle lease_ms t1 t2 token ws sid access p client expected db = (Inr h, db')"
  obtains (Read) "access = ''read''" "db' = db" "open_read_handle ws sid p db = Inr h"
  | (Write) org row where "access = ''write''" "organization_key (organization_id p) = Inr org"
      "fetch_session db (org, ws, sid) = Some row" "assert_session_access db row p = Inr ()"
      "takeover_guard row p expected = Inr (s_epoch row)"
      "db' = db\<lparr>sessions := edit_by s_key (org, ws, sid) (\<lambda>r. r\<lparr>
          s_owner_actor := Some (actor_id p), s_owner_client := Some client,
          s_token_hash := Some (token_hash token), s_epoch := s_epoch row + 1,
          s_lease := Some (lease_expiry lease_ms t1), s_last_activity := t2\<rparr>) (sessions db)\<rparr>"
      "\<exists>current. fetch_session db' (org, ws, sid) = Some current \<and>
         handle_from_row current ''write'' (Some token) = Inr h"
proof -
  have guard: "takeover_guard row p e = Inr c \<Longrightarrow> c = s_epoch row" for row e c
    by (auto simp: takeover_guard_def resE split: if_splits option.splits)
  show ?thesis
    using assms that
    by (auto simp: open_handle_def resE Let_def split: if_splits option.splits dest: guard)
qed

lemma renew_or_confirm_Inr:
  assumes "renew_or_confirm renew lease_ms t1 t2 t3 ws sid p tok epoch db = (Inr (n, l), db')"
  obtains org row where "organization_key (organization_id p) = Inr org"
    "fenced_row t1 ws sid p tok epoch org db = Inr row" "n = s_event_count row"
    "l = (if renew then lease_expiry lease_ms t2 else the (s_lease row))"
    "db' = (if renew then db\<lparr>sessions := edit_by s_key (org, ws, sid)
        (\<lambda>r. r\<lparr>s_lease := Some (lease_expiry lease_ms t2), s_last_activity := t3\<rparr>) (sessions db)\<rparr> else db)"
proof -
  from assms obtain org row where ok: "organization_key (organization_id p) = Inr org"
      "fenced_row t1 ws sid p tok epoch org db = Inr row"
    and rest: "bindE (case s_lease row of None \<Rightarrow> raise SESSION_STORAGE_CORRUPT 500 | Some l \<Rightarrow> column_int l)
      (\<lambda>lease. let lease' = (if renew then lease_expiry lease_ms t2 else lease);
          db' = (if renew
                 then db\<lparr>sessions := edit_by s_key (org, ws, sid)
                   (\<lambda>r. r\<lparr>s_lease := Some lease', s_last_activity := t3\<rparr>) (sessions db)\<rparr>
                 else db)
      in bindE (column_int (s_event_count row)) (\<lambda>n. Inr ((n, lease'), db'))) = Inr ((n, l), db')"
    unfolding renew_or_confirm_def commit_Inr bindE_eq_Inr validate_identifier_Inr
      validate_non_negative_int_Inr by blast
  from rest show ?thesis
    by (intro that [OF ok]) (auto simp: resE Let_def split: option.splits if_splits)
qed

lemma release_Inr:
  assumes "release t1 ws sid p tok epoch db = (Inr n, db')"
  obtains org row where "organization_key (organization_id p) = Inr org"
    "fenced_row t1 ws sid p tok epoch org db = Inr row" "n = s_event_count row"
    "db' = db\<lparr>sessions := edit_by s_key (org, ws, sid) (\<lambda>r. r\<lparr>
        s_owner_actor := None, s_owner_client := None, s_token_hash := None,
        s_epoch := s_epoch row + 1, s_lease := None\<rparr>) (sessions db)\<rparr>"
  using assms by (auto simp: release_def resE Let_def)

text \<open>The rows of a batch and what the append leaves behind.\<close>

definition batch_rows :: "scope_key \<Rightarrow> int \<Rightarrow> json_object list \<Rightarrow> event_row list" where
  "batch_rows k n ds = (case k of (org, ws, sid) \<Rightarrow>
     map (\<lambda>(i, d). \<lparr>e_org = org, e_ws = ws, e_sid = sid, e_seq = n + int i,
        e_json = the (json_text (JDict d))\<rparr>) (zip [0..<length ds] ds))"

definition new_batch_row :: "scope_key \<Rightarrow> int \<Rightarrow> string \<Rightarrow> string \<Rightarrow> int \<Rightarrow> int \<Rightarrow> batch_row" where
  "new_batch_row k epoch batch digest len committed = (case k of (org, ws, sid) \<Rightarrow>
     \<lparr>b_org = org, b_ws = ws, b_sid = sid, b_epoch = epoch, b_id = batch, b_digest = digest,
      b_event_count = len, b_next_seq = committed\<rparr>)"

definition after_append :: "int \<Rightarrow> scope_key \<Rightarrow> int \<Rightarrow> string \<Rightarrow> string \<Rightarrow> json_object list \<Rightarrow> int \<Rightarrow> pdb \<Rightarrow> pdb" where
  "after_append t2 k epoch batch digest ds n db = (let committed = n + int (length ds) in
     db\<lparr>sessions := edit_by s_key k (\<lambda>r. r\<lparr>s_event_count := committed,
          s_revision := revision committed digest, s_last_activity := t2\<rparr>) (sessions db),
        session_events := session_events db @ batch_rows k n ds,
        session_batches := session_batches db @
          [new_batch_row k epoch batch digest (int (length ds)) committed]\<rparr>)"

lemma mapE_event_rows:
  assumes "mapE (event_row_of k) ds = Inr rows"
    and "validate_event_sequence ds n = Inr ()"
  shows "rows = batch_rows k n ds"
proof -
  obtain org ws sid where k: "k = (org, ws, sid)" by (cases k)
  from assms(2) have seqs: "dget (ds ! i) ''seq'' = JInt (n + int i)" if "i < length ds" for i
    using that by (auto simp: validate_event_sequence_Inr dest!: arg_cong [where f = "\<lambda>l. l ! i"])
  from assms(1) have rows: "list_all2 (\<lambda>d r. event_row_of k d = Inr r) ds rows"
    by (simp add: mapE_Inr_iff)
  show ?thesis
  proof (rule nth_equalityI)
    show "length rows = length (batch_rows k n ds)"
      using rows by (auto simp: batch_rows_def k dest: list_all2_lengthD)
    fix i assume i: "i < length rows"
    with rows have i': "i < length ds" by (simp add: list_all2_lengthD)
    from list_all2_nthD2 [OF rows i] have "event_row_of k (ds ! i) = Inr (rows ! i)" .
    with seqs [OF i'] i' show "rows ! i = batch_rows k n ds ! i"
      by (auto simp: event_row_of_def k resE batch_rows_def)
  qed
qed

lemma append_fresh_Inr:
  assumes "append_fresh t2 k epoch batch digest ds row db = Inr (n, db')"
  shows "is_safe_int (s_event_count row)" "validate_event_sequence ds (s_event_count row) = Inr ()"
    "insert_all e_key (batch_rows k (s_event_count row) ds) (session_events db) =
       Inr (session_events db @ batch_rows k (s_event_count row) ds)"
    "n = s_event_count row + int (length ds)"
    "db' = after_append t2 k epoch batch digest ds (s_event_count row) db"
proof -
  obtain org ws sid where k: "k = (org, ws, sid)" by (cases k)
  from assms obtain rows es bs where
    safe: "is_safe_int (s_event_count row)"
    and seq: "validate_event_sequence ds (s_event_count row) = Inr ()"
    and rows: "mapE (event_row_of k) ds = Inr rows"
    and ins: "insert_all e_key rows (session_events db) = Inr es"
    and rest: "insert_by b_key (new_batch_row k epoch batch digest (int (length ds))
        (s_event_count row + int (length ds))) (session_batches db) = Inr bs"
      "n = s_event_count row + int (length ds)"
      "db' = db\<lparr>sessions := edit_by s_key k (\<lambda>r. r\<lparr>s_event_count := n, s_revision := revision n digest,
          s_last_activity := t2\<rparr>) (sessions db), session_events := es, session_batches := bs\<rparr>"
    by (auto simp: append_fresh_def resE Let_def k new_batch_row_def)
  have rows': "rows = batch_rows k (s_event_count row) ds" by (rule mapE_event_rows [OF rows seq])
  have es: "es = session_events db @ rows" using insert_all_Inr [OF ins] by simp
  show "is_safe_int (s_event_count row)" "validate_event_sequence ds (s_event_count row) = Inr ()"
    using safe seq .
  show "insert_all e_key (batch_rows k (s_event_count row) ds) (session_events db) =
       Inr (session_events db @ batch_rows k (s_event_count row) ds)"
    using ins es rows' by simp
  show "n = s_event_count row + int (length ds)" by (rule rest(2))
  show "db' = after_append t2 k epoch batch digest ds (s_event_count row) db"
    using rest es rows' by (simp add: after_append_def insert_by_eq_Inr Let_def)
qed

lemma append_events_Inr:
  assumes "append_events t1 t2 ws sid p tok epoch batch evs db = (Inr n, db')"
  obtains (Replay) org row ds digest b where "organization_key (organization_id p) = Inr org"
      "fenced_row t1 ws sid p tok epoch org db = Inr row"
      "validate_event_shapes evs = Inr ds" "events_digest ds = Inr digest"
      "find_by b_key ((org, ws, sid), epoch, batch) (session_batches db) = Some b"
      "b_digest b = digest" "n = b_next_seq b" "is_safe_int n" "db' = db"
  | (Fresh) org row ds digest where "organization_key (organization_id p) = Inr org"
      "fenced_row t1 ws sid p tok epoch org db = Inr row"
      "validate_event_shapes evs = Inr ds" "events_digest ds = Inr digest"
      "find_by b_key ((org, ws, sid), epoch, batch) (session_batches db) = None"
      "is_safe_int (s_event_count row)"
      "validate_event_sequence ds (s_event_count row) = Inr ()"
      "insert_all e_key (batch_rows (org, ws, sid) (s_event_count row) ds) (session_events db) =
         Inr (session_events db @ batch_rows (org, ws, sid) (s_event_count row) ds)"
      "n = s_event_count row + int (length ds)"
      "db' = after_append t2 (org, ws, sid) epoch batch digest ds (s_event_count row) db"
proof -
  from assms obtain org row ds digest where
    ok: "organization_key (organization_id p) = Inr org"
      "fenced_row t1 ws sid p tok epoch org db = Inr row"
      "validate_event_shapes evs = Inr ds" "events_digest ds = Inr digest"
    and rest: "(case find_by b_key ((org, ws, sid), epoch, batch) (session_batches db) of
        Some existing \<Rightarrow>
          if b_digest existing = digest
          then bindE (column_int (b_next_seq existing)) (\<lambda>n. Inr (n, db))
          else raise SESSION_SEQUENCE_CONFLICT 409
      | None \<Rightarrow> append_fresh t2 (org, ws, sid) epoch batch digest ds row db) = Inr (n, db')"
    by (simp add: append_events_def resE Let_def) blast
  show ?thesis
  proof (cases "find_by b_key ((org, ws, sid), epoch, batch) (session_batches db)")
    case (Some b)
    with rest show ?thesis by (intro Replay [OF ok Some]) (auto simp: resE split: if_splits)
  next
    case None
    with rest have fresh: "append_fresh t2 (org, ws, sid) epoch batch digest ds row db = Inr (n, db')"
      by simp
    show ?thesis by (rule Fresh [OF ok None]) (use append_fresh_Inr [OF fresh] in auto)
  qed
qed

section \<open>The invariant\<close>

definition event_ok :: "event_row \<Rightarrow> bool" where
  "event_ok e \<longleftrightarrow> event_check e \<and>
     (\<exists>d. json_loads (e_json e) = Some (JDict d) \<and> validate_event_shape (JDict d) = Inr d \<and>
          dget d ''seq'' = JInt (e_seq e))"

definition header_ok :: "session_row \<Rightarrow> bool" where
  "header_ok row \<longleftrightarrow> (\<exists>h. json_loads (s_header_json row) = Some (JDict h) \<and>
     validate_header (JDict h) (s_sid row) (s_inherited row) = Inr h)"

definition session_ok :: "session_row \<Rightarrow> bool" where
  "session_ok row \<longleftrightarrow> session_check row \<and> 1 \<le> s_epoch row \<and> is_safe_int (s_inherited row) \<and> header_ok row"

definition meta_ok :: "meta_row \<Rightarrow> bool" where
  "meta_ok m \<longleftrightarrow> meta_check m \<and> is_safe_int (m_version m) \<and>
     (\<forall>t. m_created_at m = Some t \<longrightarrow> is_safe_int t) \<and>
     (m_source m = ''cyrene'' \<longrightarrow> m_creator m \<noteq> None \<and> m_owner m \<noteq> None \<and>
        m_owner_state m = ''known'' \<and> m_created_at m \<noteq> None) \<and>
     (m_source m = ''legacy'' \<longrightarrow> m_creator m = None \<and> m_owner m = None \<and> m_owner_state m = ''unknown'')"

definition batch_ok :: "pdb \<Rightarrow> batch_row \<Rightarrow> bool" where
  "batch_ok db b \<longleftrightarrow> batch_check b \<and> (\<exists>row. fetch_session db (b_scope b) = Some row \<and>
     b_next_seq b \<le> s_event_count row \<and> b_epoch b \<le> s_epoch row)"

definition log_ok :: "pdb \<Rightarrow> session_row \<Rightarrow> bool" where
  "log_ok db row \<longleftrightarrow> map e_seq (log_of db (s_key row)) = [0..s_event_count row - 1]"

definition pinv :: "pdb \<Rightarrow> bool" where
  "pinv db \<longleftrightarrow>
     keyed s_key (sessions db) \<and> keyed e_key (session_events db) \<and>
     keyed b_key (session_batches db) \<and> keyed m_key (session_metas db) \<and>
     s_key ` set (sessions db) = m_key ` set (session_metas db) \<and>
     (\<forall>row \<in> set (sessions db). session_ok row \<and> log_ok db row) \<and>
     (\<forall>e \<in> set (session_events db). event_ok e \<and> e_scope e \<in> s_key ` set (sessions db)) \<and>
     (\<forall>b \<in> set (session_batches db). batch_ok db b) \<and>
     (\<forall>m \<in> set (session_metas db). meta_ok m)"

definition empty_pdb :: pdb where
  "empty_pdb = \<lparr>sessions = [], session_events = [], session_batches = [], session_metas = []\<rparr>"

lemma pinvD:
  assumes "pinv db"
  shows "keyed s_key (sessions db)" "keyed e_key (session_events db)"
    "keyed b_key (session_batches db)" "keyed m_key (session_metas db)"
    "s_key ` set (sessions db) = m_key ` set (session_metas db)"
    "row \<in> set (sessions db) \<Longrightarrow> session_ok row" "row \<in> set (sessions db) \<Longrightarrow> log_ok db row"
    "e \<in> set (session_events db) \<Longrightarrow> event_ok e"
    "e \<in> set (session_events db) \<Longrightarrow> e_scope e \<in> s_key ` set (sessions db)"
    "b \<in> set (session_batches db) \<Longrightarrow> batch_ok db b"
    "m \<in> set (session_metas db) \<Longrightarrow> meta_ok m"
  using assms unfolding pinv_def by blast+

lemma pinvI:
  assumes "keyed s_key (sessions db)" "keyed e_key (session_events db)"
    "keyed b_key (session_batches db)" "keyed m_key (session_metas db)"
    "s_key ` set (sessions db) = m_key ` set (session_metas db)"
    "\<And>row. row \<in> set (sessions db) \<Longrightarrow> session_ok row" "\<And>row. row \<in> set (sessions db) \<Longrightarrow> log_ok db row"
    "\<And>e. e \<in> set (session_events db) \<Longrightarrow> event_ok e"
    "\<And>e. e \<in> set (session_events db) \<Longrightarrow> e_scope e \<in> s_key ` set (sessions db)"
    "\<And>b. b \<in> set (session_batches db) \<Longrightarrow> batch_ok db b"
    "\<And>m. m \<in> set (session_metas db) \<Longrightarrow> meta_ok m"
  shows "pinv db"
  unfolding pinv_def by (intro conjI ballI assms)

lemma pinv_empty: "pinv empty_pdb"
  by (simp add: pinv_def empty_pdb_def keyed_def)

lemma fetch_in_sessions: "fetch_session db k = Some row \<Longrightarrow> row \<in> set (sessions db) \<and> s_key row = k"
  unfolding fetch_session_def by (rule find_by_SomeD)

lemma pinv_fetch: "pinv db \<Longrightarrow> row \<in> set (sessions db) \<Longrightarrow> fetch_session db (s_key row) = Some row"
  by (simp add: pinv_def fetch_session_def find_by_keyed)

lemma pinv_session:
  "pinv db \<Longrightarrow> fetch_session db k = Some row \<Longrightarrow> session_ok row \<and> log_ok db row \<and> s_key row = k"
  by (meson fetch_in_sessions pinvD(6,7))

text \<open>Every session has its metadata row.\<close>

lemma pinv_meta:
  assumes "pinv db" and "fetch_session db k = Some row"
  obtains m where "find_by m_key k (session_metas db) = Some m" "meta_ok m" "m_key m = k"
proof -
  have "k \<in> s_key ` set (sessions db)" using fetch_in_sessions [OF assms(2)] by blast
  with pinvD(5) [OF assms(1)] have "k \<in> m_key ` set (session_metas db)" by simp
  then obtain m where m: "m \<in> set (session_metas db)" "m_key m = k" by blast
  show ?thesis
    using find_by_keyed [OF pinvD(4) [OF assms(1)] m(1)] pinvD(11) [OF assms(1) m(1)] m(2)
    by (intro that) auto
qed

section \<open>The three kinds of change\<close>

text \<open>A new session with its metadata.\<close>

lemma pinv_add_session:
  assumes inv: "pinv db" and fresh: "fetch_session db k = None" "find_by m_key k (session_metas db) = None"
    and row: "s_key row = k" "session_ok row" "s_event_count row = 0"
    and meta: "m_key m = k" "meta_ok m"
  shows "pinv (db\<lparr>sessions := sessions db @ [row], session_metas := session_metas db @ [m]\<rparr>)"
    (is "pinv ?db'")
proof -
  have k: "k \<notin> s_key ` set (sessions db)" using fresh(1) by (simp add: fetch_session_def find_by_None_iff)
  have fetch: "fetch_session ?db' k' = (if k' = k then Some row else fetch_session db k')" for k'
    using fresh(1) row(1) by (auto simp: fetch_session_def find_by_snoc)
  have "log_of db k = []" using k pinvD(9) [OF inv] by (auto simp: log_of_def filter_empty_conv)
  with row have new_log: "log_ok ?db' row" by (simp add: log_ok_def log_of_def)
  have log: "log_ok ?db' r = log_ok db r" for r by (simp add: log_ok_def log_of_def)
  have batch: "batch_ok ?db' b" if "batch_ok db b" for b
    using that fresh(1) by (auto simp: batch_ok_def fetch)
  have keys: "keyed s_key (sessions ?db')" "keyed m_key (session_metas ?db')"
    using pinvD(1,4) [OF inv] fresh row(1) meta(1) by (auto simp: fetch_session_def intro!: keyed_snoc)
  show ?thesis
    by (rule pinvI) (use pinvD [OF inv] row meta new_log log batch keys in auto)
qed

text \<open>An edited session row that keeps its key and its log.\<close>

lemma pinv_edit_session:
  assumes inv: "pinv db" and row: "fetch_session db k = Some row"
    and f: "\<And>r. s_key (f r) = s_key r" "\<And>r. s_event_count (f r) = s_event_count r"
      "session_ok (f row)" "s_epoch row \<le> s_epoch (f row)"
  shows "pinv (db\<lparr>sessions := edit_by s_key k f (sessions db)\<rparr>)" (is "pinv ?db'")
proof -
  have fetch: "fetch_session ?db' k' = (if k' = k then Some (f row) else fetch_session db k')" for k'
    using row f(1) by (simp add: fetch_session_def find_by_edit)
  have only: "r = row" if "r \<in> set (sessions db)" "s_key r = k" for r
    using pinv_fetch [OF inv that(1)] row that(2) by simp
  have keys: "s_key ` set (sessions ?db') = s_key ` set (sessions db)"
    using arg_cong [OF map_key_edit [of s_key f k "sessions db", OF f(1)], of set] by simp
  have log: "log_ok ?db' (f r) = log_ok db r" "log_ok ?db' r = log_ok db r" for r
    by (simp_all add: log_ok_def log_of_def f(1,2))
  have batch: "batch_ok ?db' b" if "batch_ok db b" for b
    using that row f(2,4) by (auto simp: batch_ok_def fetch)
  have keyed: "keyed s_key (sessions ?db')"
    using pinvD(1) [OF inv] f(1) by (simp add: keyed_edit)
  have rows: "session_ok r \<and> log_ok ?db' r" if "r \<in> set (sessions ?db')" for r
    using that f(3) only pinvD(6,7) [OF inv] log by (auto simp: in_edit_by)
  show ?thesis
    by (rule pinvI) (use keys pinvD [OF inv] log batch keyed rows in simp_all)
qed

text \<open>An appended batch.\<close>

lemma length_batch_rows [simp]: "length (batch_rows k n ds) = length ds"
  by (simp add: batch_rows_def split: prod.splits)

lemma nth_batch_rows:
  "i < length ds \<Longrightarrow> e_scope (batch_rows k n ds ! i) = k \<and> e_seq (batch_rows k n ds ! i) = n + int i \<and>
     e_json (batch_rows k n ds ! i) = the (json_text (JDict (ds ! i)))"
  by (auto simp: batch_rows_def e_scope_def split: prod.splits)

lemma batch_rows_seq: "map e_seq (batch_rows k n ds) = map (\<lambda>i. n + int i) [0..<length ds]"
  by (rule nth_equalityI) (auto simp: nth_batch_rows)

lemma batch_rows_scope: "e \<in> set (batch_rows k n ds) \<Longrightarrow> e_scope e = k"
  by (auto simp: in_set_conv_nth nth_batch_rows)

lemma log_of_after_append:
  "log_of (after_append t2 k epoch batch digest ds n db) k' =
     (if k' = k then log_of db k @ batch_rows k n ds else log_of db k')"
proof -
  have "filter (\<lambda>e. e_scope e = k') (batch_rows k n ds) = (if k' = k then batch_rows k n ds else [])"
    using batch_rows_scope [of _ k n ds] by (auto simp: filter_empty_conv intro: filter_True)
  then show ?thesis by (simp add: log_of_def after_append_def Let_def)
qed

text \<open>What the stored text of a validated event decodes to.\<close>

lemma stored_event_decodes:
  assumes "validate_event_shape (JDict d) = Inr d" and "jwf (JDict d)"
  shows "json_loads (the (json_text (JDict d))) = Some (canon (JDict d))"
proof -
  from assms(1) have "jok (JDict d)" by (simp add: validate_event_shape_Inr)
  then obtain t where t: "json_text (JDict d) = Some t" by (auto simp: json_text_def)
  from loads_json_text [OF assms(2) t] t show ?thesis by simp
qed

lemma batch_rows_ok:
  assumes valid: "\<forall>d \<in> set ds. validate_event_shape (JDict d) = Inr d \<and> jwf (JDict d)"
    and seq: "validate_event_sequence ds n = Inr ()" and n: "0 \<le> n"
    and e: "e \<in> set (batch_rows k n ds)"
  shows "event_ok e"
proof -
  from e obtain i where i: "i < length ds" and e: "e = batch_rows k n ds ! i"
    by (auto simp: in_set_conv_nth)
  let ?d = "ds ! i"
  from valid i have d: "validate_event_shape (JDict ?d) = Inr ?d" "jwf (JDict ?d)" by auto
  from seq i have "dget ?d ''seq'' = JInt (n + int i)"
    by (auto simp: validate_event_sequence_Inr dest!: arg_cong [where f = "\<lambda>l. l ! i"])
  with d(2) have "dget (sort_key fst (canon_items ?d)) ''seq'' = JInt (n + int i)"
    by (simp add: dget_canon)
  with validate_event_shape_canon [OF d] stored_event_decodes [OF d] n show ?thesis
    by (simp add: event_ok_def event_check_def e nth_batch_rows [OF i])
qed

lemma pinv_append:
  assumes inv: "pinv db" and row: "fetch_session db k = Some row"
    and valid: "\<forall>d \<in> set ds. validate_event_shape (JDict d) = Inr d \<and> jwf (JDict d)" and ne: "ds \<noteq> []"
    and seq: "validate_event_sequence ds (s_event_count row) = Inr ()"
    and ins: "insert_all e_key (batch_rows k (s_event_count row) ds) (session_events db) =
       Inr (session_events db @ batch_rows k (s_event_count row) ds)"
    and fresh: "find_by b_key (k, epoch, batch) (session_batches db) = None"
    and epoch: "0 \<le> epoch" "epoch \<le> s_epoch row"
  shows "pinv (after_append t2 k epoch batch digest ds (s_event_count row) db)" (is "pinv ?db'")
proof -
  let ?n = "s_event_count row" let ?rows = "batch_rows k ?n ds"
  let ?committed = "?n + int (length ds)"
  let ?f = "\<lambda>r. r\<lparr>s_event_count := ?committed, s_revision := revision ?committed digest,
    s_last_activity := t2\<rparr>"
  let ?b = "new_batch_row k epoch batch digest (int (length ds)) ?committed"
  have f: "s_key (?f r) = s_key r" for r by (simp add: s_key_def)
  have db': "sessions ?db' = edit_by s_key k ?f (sessions db)"
    "session_events ?db' = session_events db @ ?rows"
    "session_batches ?db' = session_batches db @ [?b]" "session_metas ?db' = session_metas db"
    by (simp_all add: after_append_def Let_def)
  have bkey: "b_key ?b = (k, epoch, batch)" "b_scope ?b = k"
    by (auto simp: new_batch_row_def b_key_def b_scope_def split: prod.splits)
  have ok: "session_ok row" "log_ok db row" "s_key row = k" using pinv_session [OF inv row] by auto
  from ok(1) have n0: "0 \<le> ?n" by (simp add: session_ok_def session_check_def)
  have fetch: "fetch_session ?db' k' = (if k' = k then Some (?f row) else fetch_session db k')" for k'
    using row f by (simp add: fetch_session_def db' find_by_edit)
  have only: "r = row" if "r \<in> set (sessions db)" "s_key r = k" for r
    using pinv_fetch [OF inv that(1)] row that(2) by simp
  have keys: "s_key ` set (sessions ?db') = s_key ` set (sessions db)"
    using arg_cong [OF map_key_edit [of s_key ?f k "sessions db", OF f], of set] by (simp add: db')
  have log_new: "log_ok ?db' (?f row)"
    using ok(2,3) n0 upto_snoc_block [OF n0, of "length ds"]
    by (simp add: log_ok_def log_of_after_append f batch_rows_seq algebra_simps)
  have log_old: "log_ok ?db' r" if "r \<in> set (sessions db)" "s_key r \<noteq> k" for r
    using pinvD(7) [OF inv that(1)] that(2) by (simp add: log_ok_def log_of_after_append)
  have new_ok: "session_ok (?f row)"
    using ok(1) n0 by (simp add: session_ok_def session_check_def header_ok_def)
  have sess: "session_ok r \<and> log_ok ?db' r" if "r \<in> set (sessions ?db')" for r
    using that only new_ok log_new log_old pinvD(6) [OF inv] unfolding db' in_edit_by by blast
  have "batch_ok ?db' ?b"
    using epoch n0 ne
    by (simp add: batch_ok_def bkey fetch batch_check_def) (simp add: new_batch_row_def split: prod.splits)
  moreover have "batch_ok ?db' b" if "batch_ok db b" for b
    using that row by (auto simp: batch_ok_def fetch)
  ultimately have batch: "batch_ok ?db' b" if "b \<in> set (session_batches ?db')" for b
    using that pinvD(10) [OF inv] by (auto simp: db')
  have ev: "event_ok e \<and> e_scope e \<in> s_key ` set (sessions db)" if "e \<in> set (session_events ?db')" for e
    using that pinvD(8,9) [OF inv] batch_rows_ok [OF valid seq n0, of e k] batch_rows_scope [of e k ?n ds]
      fetch_in_sessions [OF row] unfolding db' set_append by (auto intro: image_eqI [of _ _ row])
  have keyed: "keyed s_key (sessions ?db')" "keyed b_key (session_batches ?db')" "keyed e_key (session_events ?db')"
    using pinvD(1,2,3) [OF inv] fresh insert_all_Inr [OF ins]
    by (auto simp: db' keyed_edit f bkey intro!: keyed_snoc)
  show ?thesis
    by (rule pinvI) (use keyed keys pinvD [OF inv] sess batch ev in \<open>simp_all add: db'(4)\<close>)
qed

section \<open>Steps\<close>

text \<open>
  One call of a mutation of the store, with any arguments, at any time and with any outcome. Headers
  and events are values a JSON decoder can produce (\<open>jwf\<close>: the keys of a dictionary are distinct);
  the clock at a creation is a safe integer, as milliseconds since 1970 are.
\<close>

inductive pstep :: "pdb \<Rightarrow> pdb \<Rightarrow> bool" where
  Create: "jwf header \<Longrightarrow> is_safe_int now \<Longrightarrow>
    create_session lease_ms now token ws sid header inherited p client db = (r, db') \<Longrightarrow> pstep db db'"
| Open: "open_handle lease_ms t1 t2 token ws sid access p client expected db = (r, db') \<Longrightarrow> pstep db db'"
| Append: "\<forall>ev \<in> set evs. jwf ev \<Longrightarrow>
    append_events t1 t2 ws sid p token epoch batch evs db = (n, db') \<Longrightarrow> pstep db db'"
| Heartbeat: "heartbeat lease_ms t1 t2 t3 ws sid p token epoch db = (r', db') \<Longrightarrow> pstep db db'"
| Flush: "flush lease_ms t1 t2 t3 ws sid p token epoch db = (r', db') \<Longrightarrow> pstep db db'"
| Release: "release t1 ws sid p token epoch db = (n, db') \<Longrightarrow> pstep db db'"

text \<open>
  What a step can do: nothing, add a session, hand a session to another writer (the epoch moves),
  keep the writer and renew its lease, or append to a log.
\<close>

inductive pchange :: "pdb \<Rightarrow> pdb \<Rightarrow> bool" where
  Same: "pchange db db"
| Added: "fetch_session db k = None \<Longrightarrow> find_by m_key k (session_metas db) = None \<Longrightarrow>
    s_key row = k \<Longrightarrow> session_ok row \<Longrightarrow> s_event_count row = 0 \<Longrightarrow> m_key m = k \<Longrightarrow> meta_ok m \<Longrightarrow>
    pchange db (db\<lparr>sessions := sessions db @ [row], session_metas := session_metas db @ [m]\<rparr>)"
| Writer: "fetch_session db k = Some row \<Longrightarrow> (owner = None \<longleftrightarrow> client = None) \<Longrightarrow>
    (owner = None \<longleftrightarrow> hash = None) \<Longrightarrow> (owner = None \<longleftrightarrow> lease = None) \<Longrightarrow>
    pchange db (db\<lparr>sessions := edit_by s_key k (\<lambda>r. r\<lparr>s_owner_actor := owner, s_owner_client := client,
      s_token_hash := hash, s_epoch := s_epoch row + 1, s_lease := lease,
      s_last_activity := activity r\<rparr>) (sessions db)\<rparr>)"
| Renew: "fetch_session db k = Some row \<Longrightarrow> s_lease row \<noteq> None \<Longrightarrow>
    pchange db (db\<lparr>sessions := edit_by s_key k (\<lambda>r. r\<lparr>s_lease := Some l, s_last_activity := t\<rparr>)
      (sessions db)\<rparr>)"
| Batch: "fetch_session db k = Some row \<Longrightarrow>
    \<forall>d \<in> set ds. validate_event_shape (JDict d) = Inr d \<and> jwf (JDict d) \<Longrightarrow> ds \<noteq> [] \<Longrightarrow>
    validate_event_sequence ds (s_event_count row) = Inr () \<Longrightarrow>
    insert_all e_key (batch_rows k (s_event_count row) ds) (session_events db) =
       Inr (session_events db @ batch_rows k (s_event_count row) ds) \<Longrightarrow>
    find_by b_key (k, epoch, batch) (session_batches db) = None \<Longrightarrow>
    0 \<le> epoch \<Longrightarrow> epoch = s_epoch row \<Longrightarrow>
    pchange db (after_append t2 k epoch batch digest ds (s_event_count row) db)"

lemma header_canon_ok:
  assumes "validate_header (JDict h) sid inherited = Inr h" and "jwf (JDict h)"
    and "json_text (JDict h) = Some t"
  shows "\<exists>h'. json_loads t = Some (JDict h') \<and> validate_header (JDict h') sid inherited = Inr h'"
proof -
  let ?h = "sort_key fst (canon_items h)"
  from assms(2) have get: "dget ?h k = canon (dget h k)" for k by (simp add: dget_canon)
  have "jok (JDict ?h)" using canon_ok(1) [of "JDict h"] assms(1) by (simp add: validate_header_Inr)
  moreover have "canon v = v" if "version_supported v" for v
    using that by (auto simp: version_supported_def)
  ultimately have "validate_header (JDict ?h) sid inherited = Inr ?h"
    using assms(1) by (auto simp: validate_header_Inr get)
  with loads_json_text [OF assms(2,3)] show ?thesis by simp
qed

lemma new_rows_ok:
  assumes "validate_header header sid inherited = Inr h" and "jwf header"
    and "json_text (JDict h) = Some hj" and "is_safe_int inherited" and "is_safe_int now"
  shows "session_ok (new_session_row lease_ms now token (org, ws, sid) hj inherited actor client)"
    and "s_event_count (new_session_row lease_ms now token (org, ws, sid) hj inherited actor client) = 0"
    and "meta_ok (new_meta_row now (org, ws, sid) p)"
  using header_canon_ok [of h sid inherited hj] assms validate_header_JDict [OF assms(1)]
  by (auto simp: session_ok_def session_check_def header_ok_def new_session_row_def is_safe_int_def
      new_meta_row_def meta_ok_def meta_check_def MAX_SAFE_INTEGER_def)

lemma open_handle_pchange:
  assumes "open_handle lease_ms t1 t2 token ws sid access p client expected db = (Inr h, db')"
  shows "pchange db db'"
  using assms
proof (cases rule: open_handle_write_Inr)
  case Read
  then show ?thesis by (simp add: Same)
next
  case (Write org row)
  show ?thesis
    unfolding Write(6) using Writer [OF Write(3), of "Some (actor_id p)" "Some client"
      "Some (token_hash token)" "Some (lease_expiry lease_ms t1)" "\<lambda>_. t2"] by simp
qed

lemma append_events_pchange:
  assumes "append_events t1 t2 ws sid p tok epoch batch evs db = (Inr n, db')" and "\<forall>ev \<in> set evs. jwf ev"
  shows "pchange db db'"
  using assms(1)
proof (cases rule: append_events_Inr)
  case (Replay org row ds digest b)
  then show ?thesis by (simp add: Same)
next
  case (Fresh org row ds digest)
  from Fresh(2) have row: "fetch_session db (org, ws, sid) = Some row" "epoch = s_epoch row" "0 \<le> epoch"
    by (auto simp: fenced_row_Inr assert_writer_Inr is_safe_int_def)
  from validate_event_shapes_JDict [OF Fresh(3)] assms(2)
  have "\<forall>d \<in> set ds. validate_event_shape (JDict d) = Inr d \<and> jwf (JDict d)" "ds \<noteq> []" by auto
  from Batch [OF row(1) this Fresh(7,8,5) row(3,2)] show ?thesis by (simp add: Fresh(10))
qed

lemma renew_pchange:
  assumes "renew_or_confirm renew lease_ms t1 t2 t3 ws sid p tok epoch db = (Inr nl, db')"
  shows "pchange db db'"
proof -
  obtain n l where "nl = (n, l)" by (cases nl)
  with assms have "renew_or_confirm renew lease_ms t1 t2 t3 ws sid p tok epoch db = (Inr (n, l), db')"
    by simp
  then show ?thesis
  proof (cases rule: renew_or_confirm_Inr)
    case (1 org row)
    then have "fetch_session db (org, ws, sid) = Some row" "s_lease row \<noteq> None"
      by (auto simp: fenced_row_Inr assert_writer_Inr)
    from Renew [OF this, of t3 "lease_expiry lease_ms t2"] 1(5) show ?thesis
      by (cases renew) (auto intro: Same)
  qed
qed

lemma release_pchange:
  assumes "release t1 ws sid p tok epoch db = (Inr n, db')"
  shows "pchange db db'"
  using assms
proof (cases rule: release_Inr)
  case (1 org row)
  then have "fetch_session db (org, ws, sid) = Some row" by (simp add: fenced_row_Inr)
  from Writer [OF this, of None None None None s_last_activity] show ?thesis by (simp add: 1(4))
qed

lemma create_session_pchange:
  assumes "create_session lease_ms now token ws sid header inherited p client db = (Inr h, db')"
    and "jwf header" and "is_safe_int now"
  shows "pchange db db'"
  using assms(1)
proof (cases rule: create_session_Inr)
  case (1 org hd hj)
  from new_rows_ok [OF 1(2) assms(2) 1(3,4) assms(3)] show ?thesis
    unfolding 1(7) by (intro Added [OF 1(5,6)]) simp_all
qed

text \<open>A failed call is rolled back.\<close>

lemma failed_same:
  "create_session lease_ms now token ws sid header inherited p client db = (Inl e, db') \<Longrightarrow> db' = db"
  "open_handle lease_ms t1 t2 token ws sid access p client expected db = (Inl e, db') \<Longrightarrow> db' = db"
  "append_events t1 t2 ws sid p token epoch batch evs db = (Inl e, db') \<Longrightarrow> db' = db"
  "renew_or_confirm renew lease_ms t1 t2 t3 ws sid p token epoch db = (Inl e, db') \<Longrightarrow> db' = db"
  "release t1 ws sid p token epoch db = (Inl e, db') \<Longrightarrow> db' = db"
  by (simp_all add: create_session_def open_handle_def append_events_def renew_or_confirm_def
      release_def commit_Inl)

lemma pstep_pchange: "pstep db db' \<Longrightarrow> pchange db db'"
proof (induction rule: pstep.induct)
  case (Create header lease_ms now token ws sid inherited p client db r db')
  then show ?case by (cases r) (auto intro: create_session_pchange Same dest: failed_same)
next
  case (Open lease_ms t1 t2 token ws sid access p client expected db r db')
  then show ?case by (cases r) (auto intro: open_handle_pchange Same dest: failed_same)
next
  case (Append evs t1 t2 ws sid p token epoch batch db n db')
  then show ?case by (cases n) (auto intro: append_events_pchange Same dest: failed_same)
next
  case (Heartbeat lease_ms t1 t2 t3 ws sid p token epoch db r' db')
  then show ?case by (cases r') (auto simp: heartbeat_def intro: renew_pchange Same dest: failed_same)
next
  case (Flush lease_ms t1 t2 t3 ws sid p token epoch db r' db')
  then show ?case by (cases r') (auto simp: flush_def intro: renew_pchange Same dest: failed_same)
next
  case (Release t1 ws sid p token epoch db n db')
  then show ?case by (cases n) (auto intro: release_pchange Same dest: failed_same)
qed

lemma pchange_pinv: "pchange db db' \<Longrightarrow> pinv db \<Longrightarrow> pinv db'"
proof (induction rule: pchange.induct)
  case (Same db)
  then show ?case by simp
next
  case (Added db k row m)
  then show ?case by (intro pinv_add_session)
next
  case (Writer db k row owner client hash lease activity)
  note ok = pinv_session [OF Writer.prems Writer.hyps(1)]
  show ?case
    by (rule pinv_edit_session [OF Writer.prems Writer.hyps(1)])
      (use ok Writer.hyps in \<open>auto simp: s_key_def session_ok_def session_check_def header_ok_def\<close>)
next
  case (Renew db k row l t)
  note ok = pinv_session [OF Renew.prems Renew.hyps(1)]
  show ?case
    by (rule pinv_edit_session [OF Renew.prems Renew.hyps(1)])
      (use ok Renew.hyps in \<open>auto simp: s_key_def session_ok_def session_check_def header_ok_def\<close>)
next
  case (Batch db k row ds epoch batch t2 digest)
  then show ?case by (intro pinv_append) auto
qed

section \<open>The order of history\<close>

text \<open>
  How a later session row relates to an earlier one: the same header, a log at least as long, an epoch
  at least as high, and, while the epoch stands, the same writer with the same capability.
\<close>

definition row_grows :: "session_row \<Rightarrow> session_row \<Rightarrow> bool" where
  "row_grows r r' \<longleftrightarrow> s_header_json r' = s_header_json r \<and> s_inherited r' = s_inherited r \<and>
     s_event_count r \<le> s_event_count r' \<and> s_epoch r \<le> s_epoch r' \<and>
     (s_epoch r' = s_epoch r \<longrightarrow> s_owner_actor r' = s_owner_actor r \<and>
        s_owner_client r' = s_owner_client r \<and> s_token_hash r' = s_token_hash r)"

definition pgrows :: "pdb \<Rightarrow> pdb \<Rightarrow> bool" where
  "pgrows db db' \<longleftrightarrow> (\<forall>k row. fetch_session db k = Some row \<longrightarrow>
      (\<exists>row'. fetch_session db' k = Some row' \<and> row_grows row row') \<and>
      find_by m_key k (session_metas db') = find_by m_key k (session_metas db) \<and>
      (\<exists>more. log_of db' k = log_of db k @ more)) \<and>
    (\<forall>bk b. find_by b_key bk (session_batches db) = Some b \<longrightarrow>
      find_by b_key bk (session_batches db') = Some b)"

lemma row_grows_refl: "row_grows r r"
  by (simp add: row_grows_def)

lemma row_grows_trans: "row_grows r r' \<Longrightarrow> row_grows r' r'' \<Longrightarrow> row_grows r r''"
  by (auto simp: row_grows_def)

lemma pgrows_refl: "pgrows db db"
  by (auto simp: pgrows_def row_grows_refl)

lemma pgrowsD:
  assumes "pgrows db db'" and "fetch_session db k = Some row"
  shows "\<exists>row'. fetch_session db' k = Some row' \<and> row_grows row row'"
    and "find_by m_key k (session_metas db') = find_by m_key k (session_metas db)"
    and "\<exists>more. log_of db' k = log_of db k @ more"
  using assms unfolding pgrows_def by blast+

lemma pgrows_trans: "pgrows db db' \<Longrightarrow> pgrows db' db'' \<Longrightarrow> pgrows db db''"
proof -
  assume a: "pgrows db db'" and b: "pgrows db' db''"
  have "(\<exists>row''. fetch_session db'' k = Some row'' \<and> row_grows row row'') \<and>
      find_by m_key k (session_metas db'') = find_by m_key k (session_metas db) \<and>
      (\<exists>more. log_of db'' k = log_of db k @ more)" if row: "fetch_session db k = Some row" for k row
  proof -
    from pgrowsD [OF a row] obtain row' more where 1: "fetch_session db' k = Some row'" "row_grows row row'"
      "find_by m_key k (session_metas db') = find_by m_key k (session_metas db)"
      "log_of db' k = log_of db k @ more" by blast
    from pgrowsD [OF b 1(1)] 1 show ?thesis by (auto intro: row_grows_trans)
  qed
  moreover have "find_by b_key bk (session_batches db) = Some b \<Longrightarrow>
      find_by b_key bk (session_batches db'') = Some b" for bk b
    using a b unfolding pgrows_def by blast
  ultimately show ?thesis unfolding pgrows_def by blast
qed

lemma pgrows_edit:
  assumes row: "fetch_session db k = Some row" and f: "\<And>r. s_key (f r) = s_key r"
    and grow: "row_grows row (f row)"
  shows "pgrows db (db\<lparr>sessions := edit_by s_key k f (sessions db)\<rparr>)" (is "pgrows db ?db'")
proof -
  have "fetch_session ?db' k' = (if k' = k then Some (f row) else fetch_session db k')" for k'
    using row f by (simp add: fetch_session_def find_by_edit)
  then show ?thesis
    using row grow by (auto simp: pgrows_def log_of_def row_grows_refl)
qed

lemma pgrows_append:
  assumes row: "fetch_session db k = Some row"
    and fresh: "find_by b_key (k, epoch, batch) (session_batches db) = None"
  shows "pgrows db (after_append t2 k epoch batch digest ds (s_event_count row) db)" (is "pgrows db ?db'")
proof -
  let ?b = "new_batch_row k epoch batch digest (int (length ds)) (s_event_count row + int (length ds))"
  have bkey: "b_key ?b = (k, epoch, batch)"
    by (auto simp: new_batch_row_def b_key_def b_scope_def split: prod.splits)
  have "\<exists>row'. fetch_session ?db' k' = Some row' \<and> row_grows r row'" if "fetch_session db k' = Some r" for k' r
    using that row
    by (auto simp: fetch_session_def after_append_def Let_def find_by_edit s_key_def row_grows_def)
  moreover have "find_by b_key bk (session_batches ?db') = Some b"
    if "find_by b_key bk (session_batches db) = Some b" for bk b
    using that fresh find_by_snoc [of b_key ?b "session_batches db" bk]
    by (auto simp: after_append_def Let_def bkey)
  ultimately show ?thesis
    by (simp add: pgrows_def log_of_after_append) (simp add: after_append_def Let_def)
qed

lemma pchange_pgrows: "pchange db db' \<Longrightarrow> pinv db \<Longrightarrow> pgrows db db'"
proof (induction rule: pchange.induct)
  case (Same db)
  then show ?case by (simp add: pgrows_refl)
next
  case (Added db k row m)
  then show ?case
    by (auto simp: pgrows_def fetch_session_def log_of_def find_by_snoc row_grows_refl)
next
  case (Writer db k row owner client hash lease activity)
  show ?case by (rule pgrows_edit [OF Writer.hyps(1)]) (auto simp: s_key_def row_grows_def)
next
  case (Renew db k row l t)
  show ?case by (rule pgrows_edit [OF Renew.hyps(1)]) (auto simp: s_key_def row_grows_def)
next
  case (Batch db k row ds epoch batch t2 digest)
  show ?case by (rule pgrows_append [OF Batch.hyps(1,6)])
qed

interpretation persist: history pstep pinv pgrows
  by unfold_locales
    (auto intro: pchange_pinv pchange_pgrows pgrows_refl pgrows_trans dest: pstep_pchange)

end
