(* ===== verification/Persist_Read.thy ===== *)
theory Persist_Read
  imports Persist_Inv
begin

text \<open>
  What the readers of the persistence authority return on a well-formed database: access decisions as a
  plain condition on the metadata row, and \<open>read_events\<close> as a slice of the decoded log. The lemmas are
  the library under the properties of \<open>Persist_Props\<close>.
\<close>

section \<open>Access\<close>

text \<open>Who may see a session: everybody in its scope, or its product owner alone.\<close>

definition may_see :: "meta_row \<Rightarrow> principal \<Rightarrow> bool" where
  "may_see m p \<longleftrightarrow> (m_private m = 1 \<or> actor_private_scope p \<longrightarrow>
     m_owner_state m = ''known'' \<and> m_owner m = Some (actor_id p))"

lemma product_metadata_total:
  assumes "meta_ok m"
  shows "product_metadata_from_row m = Inr
    \<lparr>pm_workspace = m_ws m, pm_session = m_sid m, pm_creator = m_creator m, pm_owner = m_owner m,
     pm_owner_state = m_owner_state m, pm_version = m_version m, pm_source = m_source m,
     pm_created_at = m_created_at m\<rparr>"
proof -
  from assms have "column_int (m_version m) = Inr (m_version m)" "column_int (m_private m) = Inr (m_private m)"
    "column_optional_int (m_created_at m) = Inr (m_created_at m)"
    by (auto simp: resE meta_ok_def meta_check_def is_safe_int_def MAX_SAFE_INTEGER_def)
  with assms show ?thesis
    by (auto simp: product_metadata_from_row_def meta_ok_def meta_check_def)
qed

lemma can_access_total:
  assumes "pinv db" and "fetch_session db k = Some row" and "find_by m_key k (session_metas db) = Some m"
  shows "can_access_session db row p = Inr (may_see m p)"
proof -
  have k: "s_key row = k" using pinv_session [OF assms(1,2)] by simp
  have m: "meta_ok m" using pinvD(11) [OF assms(1)] find_by_SomeD [OF assms(3)] by simp
  then have priv: "column_int (m_private m) = Inr (m_private m)" "m_private m \<in> {0, 1}"
    by (auto simp: resE meta_ok_def meta_check_def is_safe_int_def MAX_SAFE_INTEGER_def)
  show ?thesis
    using priv by (auto simp: can_access_session_def require_product_metadata_def k assms(3)
        product_metadata_total [OF m] may_see_def Let_def)
qed

lemma assert_access_total:
  assumes "pinv db" and "fetch_session db k = Some row" and "find_by m_key k (session_metas db) = Some m"
  shows "assert_session_access db row p = (if may_see m p then Inr () else raise SESSION_NOT_FOUND 404)"
  by (simp add: assert_session_access_def can_access_total [OF assms])

section \<open>The log as a list of events\<close>

definition decode :: "event_row \<Rightarrow> json_object" where
  "decode e = (case json_loads (e_json e) of Some (JDict d) \<Rightarrow> d | _ \<Rightarrow> [])"

definition events_of :: "pdb \<Rightarrow> scope_key \<Rightarrow> json_object list" where
  "events_of db k = map decode (log_of db k)"

lemma log_seq:
  assumes "pinv db" and "fetch_session db k = Some row"
  shows "map e_seq (log_of db k) = [0..s_event_count row - 1]"
  using pinv_session [OF assms] by (auto simp: log_ok_def)

lemma event_count_nonneg: "pinv db \<Longrightarrow> fetch_session db k = Some row \<Longrightarrow> 0 \<le> s_event_count row"
  using pinv_session [of db k row] by (simp add: session_ok_def session_check_def)

lemma length_log:
  assumes "pinv db" and "fetch_session db k = Some row"
  shows "length (log_of db k) = nat (s_event_count row)"
  using arg_cong [OF log_seq [OF assms], of length] by simp

lemma nth_log_seq:
  assumes "pinv db" and "fetch_session db k = Some row" and "i < length (log_of db k)"
  shows "e_seq (log_of db k ! i) = int i"
  using arg_cong [OF log_seq [OF assms(1,2)], of "\<lambda>l. l ! i"] assms(3) length_log [OF assms(1,2)]
  by simp

text \<open>The rows from an offset on, as the query selects and orders them, are the tail of the log.\<close>

lemma log_from_offset:
  assumes inv: "pinv db" "fetch_session db k = Some row" and off: "0 \<le> offset"
  shows "order_by e_seq (filter (\<lambda>e. e_scope e = k \<and> e_seq e \<ge> offset) (session_events db)) =
    drop (nat offset) (log_of db k)"
proof -
  let ?log = "log_of db k"
  have "filter (\<lambda>e. e_scope e = k \<and> e_seq e \<ge> offset) (session_events db) =
      filter (\<lambda>e. offset \<le> e_seq e) ?log"
    by (simp add: log_of_def conj_commute)
  also have "\<dots> = drop (nat offset) ?log"
  proof -
    have "filter (\<lambda>e. offset \<le> e_seq e) (take (nat offset) ?log) = []"
      using nth_log_seq [OF inv] by (auto simp: filter_empty_conv in_set_conv_nth)
    moreover have "filter (\<lambda>e. offset \<le> e_seq e) (drop (nat offset) ?log) = drop (nat offset) ?log"
      using nth_log_seq [OF inv] off by (auto simp: in_set_conv_nth intro!: filter_True)
    ultimately show ?thesis
      by (metis append_Nil append_take_drop_id filter_append)
  qed
  moreover have "sorted (map e_seq (drop (nat offset) ?log))"
    using log_seq [OF inv] by (simp add: drop_map [symmetric] sorted_wrt_drop)
  ultimately show ?thesis by (simp add: order_by_def sort_key_id_if_sorted)
qed

lemma event_ok_decode:
  assumes "event_ok e" "is_safe_int (e_seq e)"
  shows "column_int (e_seq e) = Inr (e_seq e)" "stored_json_object (e_json e) = Inr (decode e)"
    "validate_stored_event (decode e) (e_seq e) = Inr ()"
proof -
  from assms(1) obtain d where d: "json_loads (e_json e) = Some (JDict d)"
    "validate_event_shape (JDict d) = Inr d" "dget d ''seq'' = JInt (e_seq e)"
    by (auto simp: event_ok_def)
  then show "column_int (e_seq e) = Inr (e_seq e)" "stored_json_object (e_json e) = Inr (decode e)"
    "validate_stored_event (decode e) (e_seq e) = Inr ()"
    using assms(2)
    by (auto simp: resE stored_json_object_def decode_def validate_stored_event_def validate_event_shapes_def)
qed

lemma read_rows_total:
  assumes "\<And>i. i < length rs \<Longrightarrow> event_ok (rs ! i) \<and> e_seq (rs ! i) = n + int i"
    and "is_safe_int n" and "n + int (length rs) - 1 \<le> MAX_SAFE_INTEGER"
  shows "read_rows n rs = Inr (map decode rs)"
  using assms
proof (induction rs arbitrary: n)
  case Nil
  then show ?case by simp
next
  case (Cons r rs)
  from Cons.prems(1) [of 0] have r: "event_ok r" "e_seq r = n" by auto
  have tail: "read_rows (n + 1) rs = Inr (map decode rs)"
  proof (cases rs)
    case (Cons r' rs')
    show ?thesis
    proof (rule Cons.IH)
      show "event_ok (rs ! i) \<and> e_seq (rs ! i) = n + 1 + int i" if "i < length rs" for i
        using Cons.prems(1) [of "Suc i"] that by simp
    qed (use Cons.prems(2,3) local.Cons in \<open>auto simp: is_safe_int_def\<close>)
  qed simp
  with event_ok_decode [OF r(1)] r(2) Cons.prems(2) show ?case by simp
qed

text \<open>Reading never fails on a well-formed database, and returns the slice that was asked for.\<close>

lemma read_events_slice:
  assumes inv: "pinv db" "fetch_session db (org, ws, sid) = Some row"
    and ids: "validate_identifier ws = Inr ws" "validate_identifier sid = Inr sid"
      "organization_key oid = Inr org"
    and access: "check_access db row p = Inr ()"
    and page: "is_safe_int offset" "0 \<le> len" "len \<le> MAX_PAGE_LENGTH"
    and count: "is_safe_int (s_event_count row)"
  shows "read_events ws sid offset len oid p db =
    Inr (take (nat len) (drop (nat offset) (events_of db (org, ws, sid))), s_event_count row)"
proof -
  let ?k = "(org, ws, sid)" let ?n = "s_event_count row"
  let ?rows = "take (nat len) (drop (nat offset) (log_of db ?k))"
  have off: "0 \<le> offset" using page(1) by (simp add: is_safe_int_def)
  have len: "length (log_of db ?k) = nat ?n" by (rule length_log [OF inv])
  have ints: "validate_non_negative_int offset = Inr offset" "validate_non_negative_int len = Inr len"
    using page by (auto simp: resE is_safe_int_def MAX_SAFE_INTEGER_def MAX_PAGE_LENGTH_def)
  have rows: "take (nat len) (order_by e_seq (filter (\<lambda>e. e_scope e = ?k \<and> e_seq e \<ge> offset)
      (session_events db))) = ?rows"
    by (simp only: log_from_offset [OF inv off])
  have n: "int (length ?rows) = min len (?n - offset)" if "offset < ?n"
    using that len page off by auto
  have "read_rows offset ?rows = Inr (map decode ?rows)" if "offset < ?n"
  proof (rule read_rows_total)
    fix i assume i: "i < length ?rows"
    then have "?rows ! i = log_of db ?k ! (nat offset + i)" "nat offset + i < length (log_of db ?k)"
      by (auto simp: add.commute)
    moreover have "log_of db ?k ! j \<in> set (session_events db)" if "j < length (log_of db ?k)" for j
      using nth_mem [OF that] by (auto simp: log_of_def)
    ultimately show "event_ok (?rows ! i) \<and> e_seq (?rows ! i) = offset + int i"
      using pinvD(8) [OF inv(1)] nth_log_seq [OF inv] off by auto
  qed (use n [OF that] count page in \<open>auto simp: is_safe_int_def\<close>)
  then show ?thesis
    using inv(2) ids ints access count n rows page len
    by (simp add: read_events_def require_session_def resE column_int_def events_of_def take_map drop_map
        min_def not_less nat_mono)
qed

section \<open>Appending\<close>

text \<open>The canonical form in which an event is stored and read back.\<close>

definition canon_object :: "json_object \<Rightarrow> json_object" where
  "canon_object d = sort_key fst (canon_items d)"

lemma decode_batch_rows:
  assumes "\<forall>d \<in> set ds. validate_event_shape (JDict d) = Inr d \<and> jwf (JDict d)"
  shows "map decode (batch_rows k n ds) = map canon_object ds"
proof (rule nth_equalityI)
  fix i assume "i < length (map decode (batch_rows k n ds))"
  then have i: "i < length ds" by simp
  with assms have "json_loads (the (json_text (JDict (ds ! i)))) = Some (canon (JDict (ds ! i)))"
    by (intro stored_event_decodes) auto
  with i show "map decode (batch_rows k n ds) ! i = map canon_object ds ! i"
    by (simp add: decode_def nth_batch_rows canon_object_def)
qed simp

lemma validate_event_sequence_Inl:
  "validate_event_sequence ds n = Inl e \<Longrightarrow> e = PersistenceError SESSION_SEQUENCE_CONFLICT 409 False"
  by (induction ds arbitrary: n) (auto split: if_splits)

lemma mapE_event_rows_total:
  assumes "\<forall>d \<in> set ds. validate_event_shape (JDict d) = Inr d"
    and seq: "validate_event_sequence ds n = Inr ()"
  shows "mapE (event_row_of k) ds = Inr (batch_rows k n ds)"
proof -
  have "\<exists>r. event_row_of k d = Inr r" if "d \<in> set ds" for d
    using assms(1) that
    by (auto simp: event_row_of_def validate_event_shape_Inr text_of_def json_text_def split: prod.splits)
  then obtain g where "\<And>d. d \<in> set ds \<Longrightarrow> event_row_of k d = Inr (g d)" by metis
  then have "mapE (event_row_of k) ds = Inr (map g ds)" by (rule mapE_total)
  with mapE_event_rows [OF this seq] show ?thesis by simp
qed

text \<open>The keys of a batch that starts at the committed count are all new.\<close>

lemma batch_rows_fresh:
  assumes inv: "pinv db" "fetch_session db k = Some row"
  shows "insert_all e_key (batch_rows k (s_event_count row) ds) (session_events db) =
    Inr (session_events db @ batch_rows k (s_event_count row) ds)"
proof (rule insert_all_fresh)
  let ?n = "s_event_count row" let ?rows = "batch_rows k ?n ds"
  have new: "map e_key ?rows = map (\<lambda>i. (k, ?n + int i)) [0..<length ds]"
    by (rule nth_equalityI) (auto simp: e_key_def nth_batch_rows)
  have "e_key e \<notin> e_key ` set ?rows" if "e \<in> set (session_events db)" for e
  proof
    assume "e_key e \<in> e_key ` set ?rows"
    then have "e_key e \<in> set (map e_key ?rows)" by simp
    then obtain i where i: "e_scope e = k" "e_seq e = ?n + int i" unfolding new by (auto simp: e_key_def)
    with that have "e \<in> set (log_of db k)" by (simp add: log_of_def)
    then have "e_seq e \<in> set (map e_seq (log_of db k))" by simp
    with log_seq [OF inv] i(2) show False by simp
  qed
  moreover have "distinct (map e_key ?rows)" unfolding new by (simp add: distinct_map inj_on_def)
  ultimately show "keyed e_key (session_events db @ ?rows)"
    using pinvD(2) [OF inv(1)] unfolding keyed_def map_append distinct_append set_map by blast
qed

lemma append_fresh_total:
  assumes inv: "pinv db" "fetch_session db k = Some row" and count: "is_safe_int (s_event_count row)"
    and valid: "\<forall>d \<in> set ds. validate_event_shape (JDict d) = Inr d"
    and seq: "validate_event_sequence ds (s_event_count row) = Inr ()"
    and fresh: "find_by b_key (k, epoch, batch) (session_batches db) = None"
  shows "append_fresh t2 k epoch batch digest ds row db =
    Inr (s_event_count row + int (length ds), after_append t2 k epoch batch digest ds (s_event_count row) db)"
proof -
  obtain org ws sid where k: "k = (org, ws, sid)" by (cases k)
  from fresh have "insert_by b_key (new_batch_row k epoch batch digest (int (length ds))
      (s_event_count row + int (length ds))) (session_batches db) =
    Inr (session_batches db @ [new_batch_row k epoch batch digest (int (length ds))
      (s_event_count row + int (length ds))])"
    by (intro insert_by_fresh) (simp add: b_key_def b_scope_def new_batch_row_def k)
  then show ?thesis
    using count seq mapE_event_rows_total [OF valid seq, of k] batch_rows_fresh [OF inv, of ds]
    by (simp add: append_fresh_def k column_int_def after_append_def new_batch_row_def Let_def)
qed

end
