(* ===== verification/Persist_Demo.thy ===== *)
theory Persist_Demo
  imports Persist_Read
begin

text \<open>
  A concrete run of the persistence authority: a session is created, one event is appended and the
  session is handed to a second actor. The witnesses of the properties apply them to this run.
\<close>

definition demo_p :: principal where
  "demo_p = \<lparr>actor_id = ''alice'', workspace_ids = [''w''], can_takeover = False,
     organization_id = Some ''org'', can_write_harness = True, can_publish_credential_health = False,
     can_bind_teams_private_conversations = False, actor_private_scope = False\<rparr>"

definition demo_q :: principal where
  "demo_q = demo_p\<lparr>actor_id := ''bob'', can_takeover := True\<rparr>"

definition demo_header :: json where
  "demo_header = JDict [(''id'', JStr ''s''), (''version'', JInt 4), (''createdAt'', JInt 5),
     (''isSeeded'', JBool False)]"

definition demo_event :: json_object where
  "demo_event = [(''seq'', JInt 0), (''time'', JInt 7), (''type'', JStr ''note''), (''data'', JNull)]"

definition demo_key :: scope_key where
  "demo_key = (''org'', ''w'', ''s'')"

definition demo_db1 :: pdb where
  "demo_db1 = snd (create_session 60000 1000 ''tok1'' ''w'' ''s'' demo_header 0 demo_p ''c1'' empty_pdb)"

definition demo_db2 :: pdb where
  "demo_db2 = snd (append_events 2000 2001 ''w'' ''s'' demo_p ''tok1'' 1 ''b1'' [JDict demo_event] demo_db1)"

definition demo_db3 :: pdb where
  "demo_db3 = snd (open_handle 60000 3000 3001 ''tok2'' ''w'' ''s'' ''write'' demo_q ''c2'' (Some 1) demo_db2)"

definition demo_row1 :: session_row where
  "demo_row1 = new_session_row 60000 1000 ''tok1'' demo_key
     (the (json_text demo_header)) 0 ''alice'' ''c1''"

definition demo_meta :: meta_row where
  "demo_meta = new_meta_row 1000 demo_key demo_p"

definition demo_digest :: string where
  "demo_digest = sha256_hex (the (json_text (JList [JDict demo_event])))"

lemmas demo_eval = demo_p_def demo_q_def demo_header_def demo_event_def demo_key_def
  validate_identifier_def is_ctrl_def organization_key_def validate_non_negative_int_def
  is_safe_int_def MAX_SAFE_INTEGER_def version_supported_def dget_def dhas_def int_ok_def show_pos.simps

lemma demo_args:
  "validate_identifier ''w'' = Inr ''w''" "validate_identifier ''s'' = Inr ''s''"
  "validate_identifier ''c1'' = Inr ''c1''" "validate_identifier ''c2'' = Inr ''c2''"
  "validate_identifier ''b1'' = Inr ''b1''" "validate_identifier ''tok1'' = Inr ''tok1''"
  "validate_identifier ''tok2'' = Inr ''tok2''" "validate_identifier ''alice'' = Inr ''alice''"
  "validate_identifier ''bob'' = Inr ''bob''"
  "organization_key (Some ''org'') = Inr ''org''"
  "actor_id demo_p = ''alice''" "actor_id demo_q = ''bob''" "can_takeover demo_q" "\<not> can_takeover demo_p"
  "organization_id demo_p = Some ''org''" "organization_id demo_q = Some ''org''"
  "\<not> actor_private_scope demo_p" "\<not> actor_private_scope demo_q"
  "is_safe_int 0" "is_safe_int 1" "is_safe_int 2" "is_safe_int 3" "is_safe_int 1000" "is_safe_int 61000" "is_safe_int 63000"
  "jwf demo_header" "jwf (JDict demo_event)"
  by (simp_all add: demo_eval)

lemma demo_json:
  "demo_header = JDict h \<Longrightarrow> validate_header demo_header ''s'' 0 = Inr h"
  "\<exists>h. demo_header = JDict h"
  "\<exists>t. json_text demo_header = Some t"
  "\<exists>t. json_text (JDict demo_event) = Some t"
  "validate_event_shape (JDict demo_event) = Inr demo_event"
  "validate_event_shapes [JDict demo_event] = Inr [demo_event]"
  "events_digest [demo_event] = Inr demo_digest"
  "dget demo_event ''seq'' = JInt 0"
  by (auto simp: validate_header_def demo_eval json_text_def validate_event_shape_def
      validate_event_shapes_def safe_int_json_def events_digest_def text_of_def demo_digest_def)

lemma demo_header_loads: "\<exists>h. stored_json_object (the (json_text demo_header)) = Inr h"
proof -
  obtain h t where h: "demo_header = JDict h" and t: "json_text demo_header = Some t"
    using demo_json(2,3) by blast
  have "json_loads t = Some (canon (JDict h))" using loads_json_text [OF demo_args(26) t] h by simp
  with t show ?thesis by (simp add: stored_json_object_def)
qed

lemma demo_create_by:
  assumes "actor_id p = ''alice''" and "organization_id p = Some ''org''"
  shows "\<exists>h. create_session 60000 1000 ''tok1'' ''w'' ''s'' demo_header 0 p ''c1'' empty_pdb =
    (Inr h, \<lparr>sessions = [demo_row1], session_events = [], session_batches = [],
             session_metas = [new_meta_row 1000 demo_key p]\<rparr>)"
proof -
  obtain h t where h: "demo_header = JDict h" and t: "json_text demo_header = Some t"
    using demo_json(2,3) by blast
  obtain h' where h': "stored_json_object t = Inr h'" using demo_header_loads t by auto
  show ?thesis
    using h t h' demo_json(1) [OF h] assms
    by (simp add: create_session_def demo_args resE text_of_def validate_non_negative_int_def
        is_safe_int_def MAX_SAFE_INTEGER_def Let_def fetch_session_def empty_pdb_def insert_by_def find_by_Cons
        require_session_def handle_from_row_def demo_row1_def new_session_row_def
        new_meta_row_def demo_key_def column_int_def column_optional_int_def lease_expiry_def s_key_def)
qed

lemma demo_create:
  "\<exists>h. create_session 60000 1000 ''tok1'' ''w'' ''s'' demo_header 0 demo_p ''c1'' empty_pdb = (Inr h, demo_db1)"
  "sessions demo_db1 = [demo_row1]" "session_events demo_db1 = []" "session_batches demo_db1 = []"
  "session_metas demo_db1 = [demo_meta]"
  using demo_create_by [OF demo_args(11,15)] by (auto simp: demo_db1_def demo_meta_def)

text \<open>The same creation by an actor-private principal.\<close>

definition demo_private :: principal where
  "demo_private = demo_p\<lparr>actor_private_scope := True\<rparr>"

definition demo_priv_db :: pdb where
  "demo_priv_db = snd (create_session 60000 1000 ''tok1'' ''w'' ''s'' demo_header 0 demo_private ''c1'' empty_pdb)"

lemma demo_private:
  "pstep\<^sup>*\<^sup>* empty_pdb demo_priv_db" "fetch_session demo_priv_db demo_key = Some demo_row1"
  "find_by m_key demo_key (session_metas demo_priv_db) = Some (new_meta_row 1000 demo_key demo_private)"
  "m_private (new_meta_row 1000 demo_key demo_private) = 1"
  "m_owner (new_meta_row 1000 demo_key demo_private) = Some ''alice''"
proof -
  have p: "actor_id demo_private = ''alice''" "organization_id demo_private = Some ''org''" "actor_private_scope demo_private"
    by (simp_all add: demo_private_def demo_args)
  obtain h where run: "create_session 60000 1000 ''tok1'' ''w'' ''s'' demo_header 0 demo_private ''c1'' empty_pdb =
    (Inr h, \<lparr>sessions = [demo_row1], session_events = [], session_batches = [],
             session_metas = [new_meta_row 1000 demo_key demo_private]\<rparr>)" using demo_create_by [OF p(1,2)] by blast
  then have db: "demo_priv_db = \<lparr>sessions = [demo_row1], session_events = [], session_batches = [],
             session_metas = [new_meta_row 1000 demo_key demo_private]\<rparr>" by (simp add: demo_priv_db_def)
  show "pstep\<^sup>*\<^sup>* empty_pdb demo_priv_db"
    unfolding db by (rule r_into_rtranclp [of pstep], rule pstep.Create [OF demo_args(26) _ run]) (simp add: demo_args)
  show "fetch_session demo_priv_db demo_key = Some demo_row1"
    "find_by m_key demo_key (session_metas demo_priv_db) = Some (new_meta_row 1000 demo_key demo_private)"
    by (simp_all add: db fetch_session_def find_by_Cons demo_row1_def)
  show "m_private (new_meta_row 1000 demo_key demo_private) = 1"
    "m_owner (new_meta_row 1000 demo_key demo_private) = Some ''alice''"
    by (simp_all add: new_meta_row_def demo_key_def p)
qed

lemma demo_reach1: "pstep\<^sup>*\<^sup>* empty_pdb demo_db1" "pinv demo_db1"
proof -
  obtain h where "create_session 60000 1000 ''tok1'' ''w'' ''s'' demo_header 0 demo_p ''c1'' empty_pdb =
    (Inr h, demo_db1)" using demo_create(1) by blast
  from pstep.Create [OF demo_args(26) _ this] show "pstep\<^sup>*\<^sup>* empty_pdb demo_db1"
    by (auto simp: demo_args)
  then show "pinv demo_db1" by (rule persist.inv_steps) (rule pinv_empty)
qed

lemma demo_rows:
  "s_key demo_row1 = demo_key" "m_key demo_meta = demo_key" "s_epoch demo_row1 = 1"
  "s_event_count demo_row1 = 0" "s_owner_actor demo_row1 = Some ''alice''"
  "s_token_hash demo_row1 = Some (token_hash ''tok1'')" "s_lease demo_row1 = Some 61000"
  "fetch_session demo_db1 demo_key = Some demo_row1"
  "find_by m_key demo_key (session_metas demo_db1) = Some demo_meta"
  "may_see demo_meta p \<longleftrightarrow> (actor_private_scope p \<longrightarrow> actor_id p = ''alice'')"
proof -
  show keys: "s_key demo_row1 = demo_key" "m_key demo_meta = demo_key" by (simp_all add: demo_row1_def demo_meta_def)
  show "fetch_session demo_db1 demo_key = Some demo_row1"
    "find_by m_key demo_key (session_metas demo_db1) = Some demo_meta"
    by (simp_all add: fetch_session_def demo_create find_by_Cons keys)
qed (auto simp: demo_row1_def new_session_row_def demo_key_def lease_expiry_def demo_meta_def new_meta_row_def
    may_see_def demo_args)

lemma demo_fence:
  "now < 61000 \<Longrightarrow> fenced_row now ''w'' ''s'' demo_p ''tok1'' 1 ''org'' demo_db1 = Inr demo_row1"
  using assert_access_total [OF demo_reach1(2) demo_rows(8,9), of demo_p]
  by (simp add: fenced_row_Inr assert_writer_Inr demo_rows demo_args demo_key_def [symmetric])

lemma demo_append:
  "append_events 2000 2001 ''w'' ''s'' demo_p ''tok1'' 1 ''b1'' [JDict demo_event] demo_db1 = (Inr 1, demo_db2)"
  "demo_db2 = after_append 2001 demo_key 1 ''b1'' demo_digest [demo_event] 0 demo_db1"
proof -
  obtain t where t: "json_text (JDict demo_event) = Some t" using demo_json(4) by blast
  have "append_events 2000 2001 ''w'' ''s'' demo_p ''tok1'' 1 ''b1'' [JDict demo_event] demo_db1 =
    (Inr 1, after_append 2001 demo_key 1 ''b1'' demo_digest [demo_event] 0 demo_db1)"
    using demo_fence [of 2000]
    by (simp add: append_events_def demo_args demo_json resE validate_non_negative_int_def
        is_safe_int_def MAX_SAFE_INTEGER_def demo_create append_fresh_def demo_rows column_int_def
        event_row_of_def text_of_def t insert_all_def insert_by_def after_append_def batch_rows_def
        new_batch_row_def demo_key_def Let_def)
  then show "append_events 2000 2001 ''w'' ''s'' demo_p ''tok1'' 1 ''b1'' [JDict demo_event] demo_db1 = (Inr 1, demo_db2)"
    "demo_db2 = after_append 2001 demo_key 1 ''b1'' demo_digest [demo_event] 0 demo_db1"
    by (simp_all add: demo_db2_def)
qed

definition demo_row2 :: session_row where
  "demo_row2 = demo_row1\<lparr>s_event_count := 1, s_revision := revision 1 demo_digest, s_last_activity := 2001\<rparr>"

lemma demo_reach2: "pstep demo_db1 demo_db2" "pstep\<^sup>*\<^sup>* empty_pdb demo_db2" "pinv demo_db2"
proof -
  show step: "pstep demo_db1 demo_db2" by (rule pstep.Append [OF _ demo_append(1)]) (simp add: demo_event_def)
  then show "pinv demo_db2" using demo_reach1 persist.inv_step by blast
  show "pstep\<^sup>*\<^sup>* empty_pdb demo_db2" using demo_reach1(1) step by simp
qed

lemma demo_rows2:
  "s_key demo_row2 = demo_key" "s_epoch demo_row2 = 1"
  "s_event_count demo_row2 = 1" "s_owner_actor demo_row2 = Some ''alice''"
  "s_token_hash demo_row2 = Some (token_hash ''tok1'')" "s_lease demo_row2 = Some 61000"
  "fetch_session demo_db2 demo_key = Some demo_row2"
  "find_by m_key demo_key (session_metas demo_db2) = Some demo_meta"
  using demo_rows
  by (simp_all add: demo_row2_def s_key_def demo_append(2) after_append_def Let_def fetch_session_def
      edit_by_def demo_create find_by_Cons)

lemma demo_takeover:
  "\<exists>h. open_handle 60000 3000 3001 ''tok2'' ''w'' ''s'' ''write'' demo_q ''c2'' (Some 1) demo_db2 = (Inr h, demo_db3)"
proof -
  obtain h' where h': "stored_json_object (s_header_json demo_row1) = Inr h'"
    using demo_header_loads by (auto simp: demo_row1_def new_session_row_def demo_key_def)
  have acc: "assert_session_access demo_db2 demo_row2 demo_q = Inr ()"
    using assert_access_total [OF demo_reach2(3) demo_rows2(7,8), of demo_q] by (simp add: demo_rows demo_args)
  have inh: "s_inherited demo_row1 = 0" by (simp add: demo_row1_def new_session_row_def demo_key_def)
  let ?f = "\<lambda>r. r\<lparr>s_owner_actor := Some ''bob'', s_owner_client := Some ''c2'', s_token_hash := Some (token_hash ''tok2''),
      s_epoch := 2, s_lease := Some 63000, s_last_activity := 3001\<rparr>"
  have "find_by s_key (''org'', ''w'', ''s'') (edit_by s_key (''org'', ''w'', ''s'') ?f (sessions demo_db2)) =
      Some (?f demo_row2)"
    using demo_rows2(7) by (subst find_by_edit) (simp_all add: s_key_def fetch_session_def demo_key_def)
  then have "\<exists>h db. open_handle 60000 3000 3001 ''tok2'' ''w'' ''s'' ''write'' demo_q ''c2'' (Some 1) demo_db2 = (Inr h, db)"
    using demo_rows2 acc h'
    by (simp add: open_handle_def demo_args resE validate_non_negative_int_def is_safe_int_def
        MAX_SAFE_INTEGER_def demo_key_def require_session_def takeover_guard_def column_int_def lease_expiry_def Let_def
        fetch_session_def handle_from_row_def column_optional_int_def demo_row2_def demo_rows inh)
  then show ?thesis by (auto simp: demo_db3_def)
qed

end
