(* ===== verification/Persist_Props.thy ===== *)
theory Persist_Props
  imports Persist_Demo
begin

text \<open>
  The properties of the persistence authority: what holds in every reachable database, what a stale
  writer can and cannot do, idempotent and lossless logging, hidden private sessions and isolation of
  scopes. Each is proved from the library of \<open>Persist_Inv\<close> and \<open>Persist_Read\<close>, and each property with
  hypotheses is applied to the run of \<open>Persist_Demo\<close>.
\<close>

section \<open>Library: what a stale or foreign capability meets\<close>

lemma append_fenced: "append_events t1 t2 ws sid p tok epoch batch evs db = (Inr n, db') \<Longrightarrow>
    \<exists>org row. organization_key (organization_id p) = Inr org \<and> fenced_row t1 ws sid p tok epoch org db = Inr row"
  by (erule append_events_Inr) blast+

lemma renew_fenced: "renew_or_confirm renew lease_ms t1 t2 t3 ws sid p tok epoch db = (Inr nl, db') \<Longrightarrow>
    \<exists>org row. organization_key (organization_id p) = Inr org \<and> fenced_row t1 ws sid p tok epoch org db = Inr row"
  by (cases nl) (auto elim!: renew_or_confirm_Inr)

lemma release_fenced: "release t1 ws sid p tok epoch db = (Inr n, db') \<Longrightarrow>
    \<exists>org row. organization_key (organization_id p) = Inr org \<and> fenced_row t1 ws sid p tok epoch org db = Inr row"
  by (auto elim!: release_Inr)

text \<open>A call that the fence does not let through fails and changes nothing.\<close>

definition refused :: "'a res \<times> pdb \<Rightarrow> pdb \<Rightarrow> bool" where
  "refused out db \<longleftrightarrow> (\<exists>e. out = (Inl e, db))"

lemma refusedI:
  assumes "\<And>v db'. out = (Inr v, db') \<Longrightarrow> False" and "\<And>e db'. out = (Inl e, db') \<Longrightarrow> db' = db"
  shows "refused out db"
proof (cases out)
  case (Pair r db')
  with assms show ?thesis by (cases r) (auto simp: refused_def)
qed

definition no_writer_access :: "pdb \<Rightarrow> string \<Rightarrow> string \<Rightarrow> principal \<Rightarrow> string \<Rightarrow> int \<Rightarrow> bool" where
  "no_writer_access db ws sid p tok epoch \<longleftrightarrow>
     (\<forall>t1 t2 batch evs. refused (append_events t1 t2 ws sid p tok epoch batch evs db) db) \<and>
     (\<forall>lease_ms t1 t2 t3. refused (heartbeat lease_ms t1 t2 t3 ws sid p tok epoch db) db) \<and>
     (\<forall>lease_ms t1 t2 t3. refused (flush lease_ms t1 t2 t3 ws sid p tok epoch db) db) \<and>
     (\<forall>t1. refused (release t1 ws sid p tok epoch db) db)"

lemma no_writer_accessI:
  assumes "\<And>t1 org row. organization_key (organization_id p) = Inr org \<Longrightarrow>
    fenced_row t1 ws sid p tok epoch org db = Inr row \<Longrightarrow> False"
  shows "no_writer_access db ws sid p tok epoch"
proof -
  have "refused (append_events t1 t2 ws sid p tok epoch batch evs db) db" for t1 t2 batch evs
    by (rule refusedI) (use assms in \<open>auto dest: append_fenced failed_same\<close>)
  moreover have "refused (renew_or_confirm renew lease_ms t1 t2 t3 ws sid p tok epoch db) db" for renew lease_ms t1 t2 t3
    by (rule refusedI) (use assms in \<open>auto dest: renew_fenced failed_same\<close>)
  moreover have "refused (release t1 ws sid p tok epoch db) db" for t1
    by (rule refusedI) (use assms in \<open>auto dest: release_fenced failed_same\<close>)
  ultimately show ?thesis by (simp add: no_writer_access_def heartbeat_def flush_def)
qed

lemma epoch_fenced:
  assumes "fetch_session db (org, ws, sid) = Some row" and "epoch \<noteq> s_epoch row"
    and "organization_key (organization_id p) = Inr org"
  shows "no_writer_access db ws sid p tok epoch"
  by (rule no_writer_accessI) (use assms in \<open>auto simp: fenced_row_Inr assert_writer_Inr\<close>)

section \<open>Properties\<close>

text \<open>
  C1. Every database the store can reach from an empty one is well formed: primary keys are unique,
  every session has exactly its metadata row, every log is contiguous from 0 to the committed count and
  holds only events that decode and validate, every batch record lies within the log and was written
  under an epoch the session has reached, and the CHECK constraints of the schema hold.
\<close>

theorem reachable_wellformed: "pstep\<^sup>*\<^sup>* empty_pdb db \<Longrightarrow> pinv db"
  by (erule persist.inv_steps) (rule pinv_empty)

theorem reachable_wellformed_witness: "pstep\<^sup>*\<^sup>* empty_pdb demo_db2 \<and> pinv demo_db2"
  using reachable_wellformed [OF demo_reach2(2)] demo_reach2(2) by simp

text \<open>
  C2. History is never rewritten. Along any run, a session that exists keeps its header, its inherited
  count and its product metadata (owner, privacy), its log only gains events at the end, its epoch never
  goes back, and while the epoch stands the writer and its capability stay the same.
\<close>

theorem history_append_only:
  assumes "pstep\<^sup>*\<^sup>* empty_pdb db" and "pstep\<^sup>*\<^sup>* db db'" and "fetch_session db k = Some row"
  shows "\<exists>row' more. fetch_session db' k = Some row' \<and> log_of db' k = log_of db k @ more \<and>
     s_event_count row' = s_event_count row + int (length more) \<and>
     s_header_json row' = s_header_json row \<and> s_inherited row' = s_inherited row \<and>
     find_by m_key k (session_metas db') = find_by m_key k (session_metas db) \<and>
     s_epoch row \<le> s_epoch row' \<and>
     (s_epoch row' = s_epoch row \<longrightarrow> s_owner_actor row' = s_owner_actor row \<and>
        s_owner_client row' = s_owner_client row \<and> s_token_hash row' = s_token_hash row)"
proof -
  note run = persist.grows_between [OF pinv_empty assms(1,2)]
  from pgrowsD [OF _ assms(3), of db'] run obtain row' more where
    r: "fetch_session db' k = Some row'" "row_grows row row'" "log_of db' k = log_of db k @ more"
      "find_by m_key k (session_metas db') = find_by m_key k (session_metas db)" by blast
  have "s_event_count row' = s_event_count row + int (length more)"
    using length_log [of db k row] length_log [of db' k row'] run r(1,3) assms(3)
      event_count_nonneg [of db k row] event_count_nonneg [of db' k row'] by simp
  with r show ?thesis by (auto simp: row_grows_def)
qed

theorem history_append_only_witness:
  "\<exists>row' more. fetch_session demo_db2 demo_key = Some row' \<and>
     log_of demo_db2 demo_key = log_of demo_db1 demo_key @ more \<and>
     s_event_count row' = s_event_count demo_row1 + int (length more)"
  using history_append_only [OF demo_reach1(1) r_into_rtranclp [of pstep, OF demo_reach2(1)] demo_rows(8)]
  by blast

text \<open>
  C3. A writer that has lost its epoch stays fenced for ever. Once a session has moved past an epoch, no
  append, heartbeat, flush or release made under that epoch succeeds in any later state, whatever the
  token, the actor or the clock: each is refused and leaves the database as it is.
\<close>

theorem stale_epoch_fenced:
  assumes "pstep\<^sup>*\<^sup>* empty_pdb db" and "fetch_session db (org, ws, sid) = Some row"
    and "epoch < s_epoch row" and "pstep\<^sup>*\<^sup>* db db'"
    and "organization_key (organization_id p) = Inr org"
  shows "no_writer_access db' ws sid p tok epoch"
proof -
  have "pgrows db db'" using persist.grows_between [OF pinv_empty assms(1,4)] by simp
  from pgrowsD(1) [OF this assms(2)] obtain row' where row': "fetch_session db' (org, ws, sid) = Some row'"
    "s_epoch row \<le> s_epoch row'" by (auto simp: row_grows_def)
  show ?thesis by (rule epoch_fenced [OF row'(1) _ assms(5)]) (use row'(2) assms(3) in simp)
qed

theorem stale_epoch_fenced_witness: "no_writer_access demo_db3 ''w'' ''s'' demo_p ''tok1'' 0"
proof -
  obtain h where "open_handle 60000 3000 3001 ''tok2'' ''w'' ''s'' ''write'' demo_q ''c2'' (Some 1) demo_db2 = (Inr h, demo_db3)"
    using demo_takeover by blast
  then have "pstep\<^sup>*\<^sup>* demo_db2 demo_db3" by (intro r_into_rtranclp pstep.Open)
  from stale_epoch_fenced [OF demo_reach2(2) _ _ this, of "''org''" "''w''" "''s''" demo_row2 0 demo_p "''tok1''"]
  show ?thesis by (simp add: demo_rows2 demo_key_def [symmetric] demo_args)
qed

text \<open>
  C4. Taking the pen. When \<open>open_handle\<close> grants write access, the epoch goes up by exactly one, the handle
  carries the new epoch and the new token, the new writer passes the fence until its lease runs out, and
  every capability issued under the previous epoch is refused at once.
\<close>

theorem takeover_transfers_pen:
  assumes "pstep\<^sup>*\<^sup>* empty_pdb db"
    and "open_handle lease_ms t1 t2 token ws sid ''write'' p client expected db = (Inr h, db')"
  shows "\<exists>org row row'. organization_key (organization_id p) = Inr org \<and>
     fetch_session db (org, ws, sid) = Some row \<and> fetch_session db' (org, ws, sid) = Some row' \<and>
     h_epoch h = s_epoch row + 1 \<and> s_epoch row' = s_epoch row + 1 \<and> h_writer_token h = Some token \<and>
     (\<forall>now < lease_expiry lease_ms t1. fenced_row now ws sid p token (h_epoch h) org db' = Inr row') \<and>
     (\<forall>q tok. organization_key (organization_id q) = Inr org \<longrightarrow> no_writer_access db' ws sid q tok (s_epoch row))"
  using assms(2)
proof (cases rule: open_handle_write_Inr)
  case Read
  then show ?thesis by simp
next
  case (Write org row)
  let ?k = "(org, ws, sid)"
  have inv: "pinv db" "pinv db'"
    using persist.inv_steps [OF assms(1) pinv_empty] persist.inv_step [OF pstep.Open [OF assms(2)]] by auto
  from Write(7) obtain row' where row': "fetch_session db' ?k = Some row'"
    and h: "handle_from_row row' ''write'' (Some token) = Inr h" by blast
  from row' Write(3,6) have new: "s_epoch row' = s_epoch row + 1" "s_owner_actor row' = Some (actor_id p)"
    "s_token_hash row' = Some (token_hash token)" "s_lease row' = Some (lease_expiry lease_ms t1)"
    by (auto simp: fetch_session_def find_by_edit s_key_def)
  from h new have h': "h_epoch h = s_epoch row + 1" "h_writer_token h = Some token"
    "is_safe_int (s_epoch row + 1)" "is_safe_int (lease_expiry lease_ms t1)"
    by (auto simp: handle_from_row_def resE)
  obtain m where m: "find_by m_key ?k (session_metas db) = Some m" using pinv_meta [OF inv(1) Write(3)] .
  then have m': "find_by m_key ?k (session_metas db') = Some m" by (simp add: Write(6))
  from Write(4) have "assert_session_access db' row' p = Inr ()"
    by (simp add: assert_access_total [OF inv(1) Write(3) m] assert_access_total [OF inv(2) row' m'])
  then have "fenced_row now ws sid p token (h_epoch h) org db' = Inr row'"
    if "now < lease_expiry lease_ms t1" for now
    using that row' new h' by (simp add: fenced_row_Inr assert_writer_Inr)
  moreover have "no_writer_access db' ws sid q tok (s_epoch row)"
    if "organization_key (organization_id q) = Inr org" for q tok
    by (rule epoch_fenced [OF row' _ that]) (simp add: new(1))
  ultimately show ?thesis using Write(2,3) row' new(1) h'(1,2) by blast
qed

theorem takeover_transfers_pen_witness:
  "\<exists>h. fst (open_handle 60000 3000 3001 ''tok2'' ''w'' ''s'' ''write'' demo_q ''c2'' (Some 1) demo_db2) = Inr h \<and>
     h_writer_token h = Some ''tok2'' \<and> no_writer_access demo_db3 ''w'' ''s'' demo_p ''tok1'' 1"
proof -
  obtain h where run: "open_handle 60000 3000 3001 ''tok2'' ''w'' ''s'' ''write'' demo_q ''c2'' (Some 1) demo_db2 =
    (Inr h, demo_db3)" using demo_takeover by blast
  from takeover_transfers_pen [OF demo_reach2(2) run] demo_rows2(2,7) run show ?thesis
    by (auto simp: demo_args demo_key_def)
qed

text \<open>
  C5. Nobody takes a pen that is held without naming the current epoch, and only the current owner or a
  principal with the takeover right succeeds; the three refusals carry the codes the clients act on, and
  nothing is written.
\<close>

theorem takeover_guarded:
  assumes "fetch_session db (org, ws, sid) = Some row" and "s_owner_actor row = Some owner"
    and "assert_session_access db row p = Inr ()" and "is_safe_int (s_epoch row)"
    and "validate_identifier ws = Inr ws" and "validate_identifier sid = Inr sid"
    and "validate_identifier client = Inr client" and "organization_key (organization_id p) = Inr org"
  shows "open_handle lease_ms t1 t2 token ws sid ''write'' p client None db = (raise SESSION_ALREADY_OWNED 409, db)
     \<and> (\<forall>e. is_safe_int e \<and> e \<noteq> s_epoch row \<longrightarrow>
      open_handle lease_ms t1 t2 token ws sid ''write'' p client (Some e) db =
        (Inl (PersistenceError SESSION_OWNERSHIP_LOST 409 True), db))
     \<and> (actor_id p \<noteq> owner \<and> \<not> can_takeover p \<longrightarrow>
      open_handle lease_ms t1 t2 token ws sid ''write'' p client (Some (s_epoch row)) db =
        (raise ''SESSION_TAKEOVER_FORBIDDEN'' 403, db))"
  using assms
  by (auto simp: open_handle_def require_session_def takeover_guard_def column_int_def
      validate_non_negative_int_def is_safe_int_def)

theorem takeover_guarded_witness:
  "open_handle 1 2 3 ''t'' ''w'' ''s'' ''write'' demo_q ''c2'' None demo_db1 = (raise SESSION_ALREADY_OWNED 409, demo_db1) \<and>
   open_handle 1 2 3 ''t'' ''w'' ''s'' ''write'' demo_q ''c2'' (Some 3) demo_db1 =
     (Inl (PersistenceError SESSION_OWNERSHIP_LOST 409 True), demo_db1) \<and>
   open_handle 1 2 3 ''t'' ''w'' ''s'' ''write'' (demo_q\<lparr>can_takeover := False\<rparr>) ''c2'' (Some 1) demo_db1 =
     (raise ''SESSION_TAKEOVER_FORBIDDEN'' 403, demo_db1)"
proof -
  let ?r = "demo_q\<lparr>can_takeover := False\<rparr>"
  have acc: "assert_session_access demo_db1 demo_row1 demo_q = Inr ()" "assert_session_access demo_db1 demo_row1 ?r = Inr ()"
    using assert_access_total [OF demo_reach1(2) demo_rows(8,9)] by (simp_all add: demo_rows demo_args)
  show ?thesis
    using takeover_guarded [of demo_db1 "''org''" "''w''" "''s''" demo_row1 "''alice''" demo_q "''c2''" 1 2 3 "''t''"]
      takeover_guarded [of demo_db1 "''org''" "''w''" "''s''" demo_row1 "''alice''" ?r "''c2''" 1 2 3 "''t''"]
    by (simp add: acc demo_rows demo_args demo_key_def [symmetric])
qed

text \<open>
  C6. Release is final. A release ends the writer's ownership: the session has no owner, no client, no token and
  no lease any more and its epoch is one past the released one; until the next \<open>open_handle\<close> no
  capability of any epoch and any actor of that scope writes to it, and in every later state, whoever has taken the
  pen since, the released epoch and all before it stay refused. The reported count is that of the log, which is kept.
\<close>

theorem release_revokes:
  assumes "pstep\<^sup>*\<^sup>* empty_pdb db" and "release t1 ws sid p tok epoch db = (Inr n, db')"
    and "organization_key (organization_id p) = Inr org"
  shows "(\<exists>row. fetch_session db (org, ws, sid) = Some row \<and> s_epoch row = epoch \<and>
      fetch_session db' (org, ws, sid) = Some (row\<lparr>s_owner_actor := None, s_owner_client := None,
        s_token_hash := None, s_epoch := epoch + 1, s_lease := None\<rparr>)) \<and>
    (\<forall>q tok' e. organization_key (organization_id q) = Inr org \<longrightarrow> no_writer_access db' ws sid q tok' e) \<and>
    (\<forall>db'' q tok' e. pstep\<^sup>*\<^sup>* db' db'' \<longrightarrow> organization_key (organization_id q) = Inr org \<longrightarrow> e \<le> epoch \<longrightarrow>
      no_writer_access db'' ws sid q tok' e) \<and>
    n = int (length (log_of db (org, ws, sid))) \<and> log_of db' (org, ws, sid) = log_of db (org, ws, sid)"
  using assms(2)
proof (cases rule: release_Inr)
  case (1 org' row)
  let ?k = "(org, ws, sid)"
  let ?row' = "row\<lparr>s_owner_actor := None, s_owner_client := None, s_token_hash := None, s_epoch := epoch + 1, s_lease := None\<rparr>"
  have inv: "pinv db" by (rule persist.inv_steps [OF assms(1) pinv_empty])
  have inv': "pinv db'" by (rule persist.inv_step [OF pstep.Release [OF assms(2)] inv])
  from 1 assms(3) have row: "fetch_session db ?k = Some row" "org' = org" "s_epoch row = epoch"
    by (auto simp: fenced_row_Inr assert_writer_Inr)
  then have row': "fetch_session db' ?k = Some ?row'"
    by (simp add: 1(4) fetch_session_def find_by_edit s_key_def)
  have "no_writer_access db' ws sid q tok' e" if "organization_key (organization_id q) = Inr org" for q tok' e
    by (rule no_writer_accessI) (use that row' in \<open>auto simp: fenced_row_Inr assert_writer_Inr\<close>)
  moreover have "no_writer_access db'' ws sid q tok' e"
    if "pstep\<^sup>*\<^sup>* db' db''" "organization_key (organization_id q) = Inr org" "e \<le> epoch" for db'' q tok' e
  proof -
    from pgrowsD(1) [OF persist.grows_steps [OF that(1) inv'] row'] obtain row'' where
      "fetch_session db'' ?k = Some row''" "epoch + 1 \<le> s_epoch row''" by (auto simp: row_grows_def)
    then show ?thesis using that(3) by (intro epoch_fenced [OF _ _ that(2)]) auto
  qed
  moreover have "log_of db' ?k = log_of db ?k" by (simp add: 1(4) log_of_def)
  ultimately show ?thesis
    using row row' length_log [OF inv row(1)] event_count_nonneg [OF inv row(1)] 1(3) by simp
qed

theorem release_revokes_witness:
  "\<exists>n db'. release 2000 ''w'' ''s'' demo_p ''tok1'' 1 demo_db1 = (Inr n, db') \<and>
     fetch_session db' demo_key = Some (demo_row1\<lparr>s_owner_actor := None, s_owner_client := None,
       s_token_hash := None, s_epoch := 2, s_lease := None\<rparr>) \<and>
     (\<forall>db''. pstep\<^sup>*\<^sup>* db' db'' \<longrightarrow> no_writer_access db'' ''w'' ''s'' demo_p ''tok1'' 1)"
proof -
  have "\<exists>n db'. release 2000 ''w'' ''s'' demo_p ''tok1'' 1 demo_db1 = (Inr n, db')"
    by (simp add: release_def demo_args validate_non_negative_int_def is_safe_int_def MAX_SAFE_INTEGER_def
        demo_fence demo_rows column_int_def)
  then obtain n db' where run: "release 2000 ''w'' ''s'' demo_p ''tok1'' 1 demo_db1 = (Inr n, db')" by blast
  from release_revokes [OF demo_reach1(1) run, of "''org''"] run show ?thesis
    by (auto simp: demo_args demo_rows demo_key_def [symmetric])
qed

text \<open>
  Appends are idempotent. If a batch was committed, then in every later state in which the writer
  still passes the fence, sending the same batch again returns the same next sequence and changes
  nothing: nothing is logged twice.
\<close>

theorem append_idempotent:
  assumes "pstep\<^sup>*\<^sup>* empty_pdb db"
    and "append_events t1 t2 ws sid p tok epoch batch evs db = (Inr n, db')" and "\<forall>ev \<in> set evs. jwf ev"
    and "is_safe_int n" and "pstep\<^sup>*\<^sup>* db' db''"
    and "organization_key (organization_id p) = Inr org"
    and "fenced_row t3 ws sid p tok epoch org db'' = Inr row"
  shows "append_events t3 t4 ws sid p tok epoch batch evs db'' = (Inr n, db'')"
proof -
  have inv: "pinv db'"
    using persist.inv_steps [OF assms(1) pinv_empty] persist.inv_step [OF pstep.Append [OF assms(3,2)]] by simp
  have later: "find_by b_key bk (session_batches db') = Some b \<Longrightarrow> find_by b_key bk (session_batches db'') = Some b"
    for bk b using persist.grows_steps [OF assms(5) inv] unfolding pgrows_def by blast
  from assms(2) have ids: "validate_identifier ws = Inr ws" "validate_identifier sid = Inr sid"
    "validate_identifier tok = Inr tok" "validate_identifier batch = Inr batch" "validate_non_negative_int epoch = Inr epoch"
    by (auto simp: append_events_def resE)
  obtain ds digest b where "validate_event_shapes evs = Inr ds" "events_digest ds = Inr digest"
    "find_by b_key ((org, ws, sid), epoch, batch) (session_batches db') = Some b" "b_digest b = digest" "b_next_seq b = n"
    using assms(2)
  proof (cases rule: append_events_Inr)
    case (Replay org' row' ds digest b)
    with assms(6) show ?thesis by (intro that) auto
  next
    case (Fresh org' row' ds digest)
    let ?b = "new_batch_row (org, ws, sid) epoch batch digest (int (length ds)) n"
    have key: "b_key ?b = ((org, ws, sid), epoch, batch)" "b_digest ?b = digest" "b_next_seq ?b = n"
      by (auto simp: b_key_def b_scope_def new_batch_row_def)
    from Fresh assms(6) key have "find_by b_key ((org, ws, sid), epoch, batch) (session_batches db') = Some ?b"
      using find_by_snoc [of b_key ?b "session_batches db"] by (simp add: after_append_def Let_def)
    with Fresh key show ?thesis by (intro that) auto
  qed
  with ids assms(4,6,7) show ?thesis
    by (simp add: append_events_def later column_int_def)
qed

theorem append_idempotent_witness:
  "append_events 4000 4001 ''w'' ''s'' demo_p ''tok1'' 1 ''b1'' [JDict demo_event] demo_db2 = (Inr 1, demo_db2)"
proof -
  have "assert_session_access demo_db2 demo_row2 demo_p = Inr ()"
    using assert_access_total [OF demo_reach2(3) demo_rows2(7,8), of demo_p] by (simp add: demo_rows demo_args)
  then have "fenced_row 4000 ''w'' ''s'' demo_p ''tok1'' 1 ''org'' demo_db2 = Inr demo_row2"
    by (simp add: fenced_row_Inr assert_writer_Inr demo_rows2 demo_args demo_key_def [symmetric])
  from append_idempotent [OF demo_reach1(1) demo_append(1) _ _ _ _ this] show ?thesis
    using demo_args by simp
qed

text \<open>
  A batch id names one body. Reusing a committed batch id of the same epoch for events with another
  digest is refused as a sequence conflict, and nothing is written.
\<close>

theorem batch_id_binds_body:
  assumes "find_by b_key ((org, ws, sid), epoch, batch) (session_batches db) = Some b"
    and "validate_event_shapes evs = Inr ds" and "events_digest ds = Inr digest" and "digest \<noteq> b_digest b"
    and "organization_key (organization_id p) = Inr org"
    and "fenced_row t1 ws sid p tok epoch org db = Inr row"
    and "validate_identifier ws = Inr ws" and "validate_identifier sid = Inr sid"
    and "validate_identifier tok = Inr tok" and "validate_identifier batch = Inr batch"
  shows "append_events t1 t2 ws sid p tok epoch batch evs db = (raise SESSION_SEQUENCE_CONFLICT 409, db)"
proof -
  from assms(6) have "validate_non_negative_int epoch = Inr epoch"
    by (auto simp: fenced_row_Inr assert_writer_Inr resE)
  with assms show ?thesis by (auto simp: append_events_def)
qed

theorem batch_id_binds_body_witness:
  "append_events 2000 2001 ''w'' ''s'' demo_p ''tok1'' 1 ''b1'' [JDict demo_event]
     (demo_db1\<lparr>session_batches := [new_batch_row demo_key 1 ''b1'' ''other'' 1 1]\<rparr>) =
   (raise SESSION_SEQUENCE_CONFLICT 409, demo_db1\<lparr>session_batches := [new_batch_row demo_key 1 ''b1'' ''other'' 1 1]\<rparr>)"
    (is "append_events _ _ _ _ _ _ _ _ _ ?db = _")
proof -
  let ?b = "new_batch_row demo_key 1 ''b1'' ''other'' 1 1"
  have "can_access_session ?db demo_row1 demo_p = can_access_session demo_db1 demo_row1 demo_p"
    by (simp add: can_access_session_def require_product_metadata_def)
  then have "fenced_row 2000 ''w'' ''s'' demo_p ''tok1'' 1 ''org'' ?db = Inr demo_row1"
    using demo_fence [of 2000]
    by (simp add: fenced_row_Inr assert_session_access_def fetch_session_def)
  moreover have "find_by b_key ((''org'', ''w'', ''s''), 1, ''b1'') (session_batches ?db) = Some ?b"
    by (simp add: find_by_Cons b_key_def b_scope_def new_batch_row_def demo_key_def)
  moreover have "length demo_digest \<noteq> length (b_digest ?b)"
    by (simp add: demo_digest_def length_sha256_hex new_batch_row_def demo_key_def)
  then have "demo_digest \<noteq> b_digest ?b" by metis
  ultimately show ?thesis
    using demo_args demo_json by (intro batch_id_binds_body) simp_all
qed

text \<open>
  What an append accepts. On a reachable database, a fenced writer that sends well-formed events under
  a new batch id gets them committed if and only if they are numbered consecutively from the committed
  count; otherwise the answer is a sequence conflict and nothing is written. No internal conflict can
  arise: the database never refuses the insert.
\<close>

theorem append_accepts_exactly_next:
  assumes "pstep\<^sup>*\<^sup>* empty_pdb db" and "organization_key (organization_id p) = Inr org"
    and "fenced_row t1 ws sid p tok epoch org db = Inr row"
    and "validate_event_shapes evs = Inr ds" and "events_digest ds = Inr digest"
    and "find_by b_key ((org, ws, sid), epoch, batch) (session_batches db) = None"
    and "is_safe_int (s_event_count row)"
    and "validate_identifier ws = Inr ws" and "validate_identifier sid = Inr sid"
    and "validate_identifier tok = Inr tok" and "validate_identifier batch = Inr batch"
  shows "append_events t1 t2 ws sid p tok epoch batch evs db =
    (if map (\<lambda>d. dget d ''seq'') ds = map (\<lambda>i. JInt (s_event_count row + int i)) [0..<length ds]
     then (Inr (s_event_count row + int (length ds)),
           after_append t2 (org, ws, sid) epoch batch digest ds (s_event_count row) db)
     else (raise SESSION_SEQUENCE_CONFLICT 409, db))"
proof -
  have inv: "pinv db" by (rule persist.inv_steps [OF assms(1) pinv_empty])
  from assms(3) have row: "fetch_session db (org, ws, sid) = Some row" "validate_non_negative_int epoch = Inr epoch"
    by (auto simp: fenced_row_Inr assert_writer_Inr resE)
  have valid: "\<forall>d \<in> set ds. validate_event_shape (JDict d) = Inr d"
    using validate_event_shapes_JDict [OF assms(4)] by blast
  have run: "append_events t1 t2 ws sid p tok epoch batch evs db =
      commit db (append_fresh t2 (org, ws, sid) epoch batch digest ds row db)"
    using assms row(2) by (simp add: append_events_def)
  show ?thesis
  proof (cases "validate_event_sequence ds (s_event_count row)")
    case (Inl e)
    then have "e = PersistenceError SESSION_SEQUENCE_CONFLICT 409 False"
      by (rule validate_event_sequence_Inl)
    with Inl run assms(7) validate_event_sequence_Inr [of ds "s_event_count row"] show ?thesis
      by (auto simp: append_fresh_def column_int_def)
  next
    case (Inr u)
    with run append_fresh_total [OF inv row(1) assms(7) valid _ assms(6)]
      validate_event_sequence_Inr [of ds "s_event_count row" u] show ?thesis by auto
  qed
qed

theorem append_accepts_exactly_next_witness:
  "append_events 2000 2001 ''w'' ''s'' demo_p ''tok1'' 1 ''b1'' [JDict demo_event] demo_db1 =
     (Inr 1, after_append 2001 (''org'', ''w'', ''s'') 1 ''b1'' demo_digest [demo_event] 0 demo_db1)"
  using append_accepts_exactly_next [OF demo_reach1(1) _ demo_fence [of 2000] demo_json(6,7), of "''b1''" 2001]
  by (simp add: demo_args demo_create demo_rows demo_json)

text \<open>
  What was appended is what is read. After a fresh append, reading from the old count returns the new
  events, each in canonical form (keys sorted, values unchanged), in order, with the new count.
\<close>

theorem append_then_read:
  assumes "pstep\<^sup>*\<^sup>* empty_pdb db" and "fetch_session db (org, ws, sid) = Some row"
    and "find_by b_key ((org, ws, sid), epoch, batch) (session_batches db) = None"
    and "append_events t1 t2 ws sid p tok epoch batch (map JDict ds) db = (Inr n, db')"
    and "\<forall>d \<in> set ds. jwf (JDict d)" and "organization_key (organization_id p) = Inr org"
    and "is_safe_int n" and "int (length ds) \<le> MAX_PAGE_LENGTH"
  shows "read_events ws sid (s_event_count row) (int (length ds)) (organization_id p) (Some p) db' =
     Inr (map canon_object ds, n)"
  using assms(4)
proof (cases rule: append_events_Inr)
  case (Replay org' row' ds' digest b)
  with assms(3,6) show ?thesis by simp
next
  case (Fresh org' row' ds' digest)
  let ?k = "(org, ws, sid)" let ?n = "s_event_count row"
  from Fresh(1,2) assms(2,6) have row: "row' = row" "org' = org" by (auto simp: fenced_row_Inr)
  from validate_event_shapes_JDict [OF Fresh(3)] have ds: "ds' = ds"
    "\<forall>d \<in> set ds. validate_event_shape (JDict d) = Inr d" by (auto simp: inj_map_eq_map inj_def)
  have inv: "pinv db" by (rule persist.inv_steps [OF assms(1) pinv_empty])
  have inv': "pinv db'"
    by (rule persist.inv_step [OF pstep.Append [OF _ assms(4)] inv]) (use assms(5) in auto)
  have db': "db' = after_append t2 ?k epoch batch digest ds ?n db" using Fresh(10) row ds by simp
  obtain row'' where row'': "fetch_session db' ?k = Some row''" "s_event_count row'' = n"
    using assms(2) Fresh(9) row ds
    by (auto simp: db' after_append_def Let_def fetch_session_def find_by_edit s_key_def)
  obtain m where m: "find_by m_key ?k (session_metas db) = Some m" using pinv_meta [OF inv assms(2)] .
  have "find_by m_key ?k (session_metas db') = Some m" by (simp add: db' after_append_def Let_def m)
  from assert_access_total [OF inv' row''(1) this] assert_access_total [OF inv assms(2) m] Fresh(2) row
  have access: "check_access db' row'' (Some p) = Inr ()" by (simp add: check_access_def fenced_row_Inr)
  have ids: "validate_identifier ws = Inr ws" "validate_identifier sid = Inr sid"
    using assms(4) by (auto simp: append_events_def resE)
  have "events_of db' ?k = events_of db ?k @ map canon_object ds"
    using ds(2) assms(5) by (simp add: events_of_def db' log_of_after_append decode_batch_rows)
  moreover have "length (events_of db ?k) = nat ?n" using length_log [OF inv assms(2)] by (simp add: events_of_def)
  ultimately show ?thesis
    using read_events_slice [OF inv' row''(1) ids assms(6) access, of ?n "int (length ds)"]
      Fresh(6) row row''(2) assms(7,8) by simp
qed

theorem append_then_read_witness:
  "read_events ''w'' ''s'' 0 1 (Some ''org'') (Some demo_p) demo_db2 = Inr ([canon_object demo_event], 1)"
  using append_then_read [OF demo_reach1(1), of "''org''" "''w''" "''s''" demo_row1 1 "''b1''" 2000 2001 demo_p
      "''tok1''" "[demo_event]" 1 demo_db2] demo_append(1)
  by (simp add: demo_rows demo_key_def [symmetric] demo_create demo_args MAX_PAGE_LENGTH_def)
    (simp add: demo_event_def)

text \<open>
  Reading never finds the store corrupt. On a reachable database whose committed count is a safe
  integer, a permitted reader with a legal page gets exactly the slice of the committed log it asked for,
  in order, together with the committed count.
\<close>

theorem read_returns_slice:
  assumes "pstep\<^sup>*\<^sup>* empty_pdb db" and "fetch_session db (org, ws, sid) = Some row"
    and "validate_identifier ws = Inr ws" and "validate_identifier sid = Inr sid"
    and "organization_key oid = Inr org" and "check_access db row p = Inr ()"
    and "is_safe_int offset" and "0 \<le> len" and "len \<le> MAX_PAGE_LENGTH"
    and "is_safe_int (s_event_count row)"
  shows "read_events ws sid offset len oid p db =
    Inr (take (nat len) (drop (nat offset) (events_of db (org, ws, sid))), s_event_count row)"
  by (rule read_events_slice [OF persist.inv_steps [OF assms(1) pinv_empty] assms(2-10)])

theorem read_returns_slice_witness:
  "read_events ''w'' ''s'' 0 5 (Some ''org'') None demo_db2 = Inr (take 5 (events_of demo_db2 demo_key), 1)"
  using read_returns_slice [OF demo_reach2(2), of "''org''" "''w''" "''s''" demo_row2 "Some ''org''" None 0 5]
  by (simp add: demo_rows2 demo_key_def [symmetric] demo_args check_access_def MAX_PAGE_LENGTH_def)

text \<open>
  What it means for a session to be hidden from a principal: every call that names it answers "not found", an open
  whatever epoch it expects, a mutation gets the very answer it would get on the database without the session, and
  the listing of the workspace is the listing of that database.
\<close>

definition without_session :: "scope_key \<Rightarrow> pdb \<Rightarrow> pdb" where
  "without_session k db = db\<lparr>sessions := filter (\<lambda>r. s_key r \<noteq> k) (sessions db)\<rparr>"

definition hidden_from :: "pdb \<Rightarrow> string \<Rightarrow> string \<Rightarrow> principal \<Rightarrow> bool" where
  "hidden_from db ws sid p \<longleftrightarrow>
     get_snapshot ws sid (organization_id p) (Some p) db = raise SESSION_NOT_FOUND 404 \<and>
     get_product_metadata ws sid (organization_id p) (Some p) db = raise SESSION_NOT_FOUND 404 \<and>
     authorize_session_access ws sid p db = raise SESSION_NOT_FOUND 404 \<and>
     (\<forall>offset len. is_safe_int offset \<and> is_safe_int len \<and> len \<le> MAX_PAGE_LENGTH \<longrightarrow>
        read_events ws sid offset len (organization_id p) (Some p) db = raise SESSION_NOT_FOUND 404) \<and>
     (\<forall>lease_ms t1 t2 token access client expected. access \<in> {''read'', ''write''} \<longrightarrow>
        validate_identifier client = Inr client \<longrightarrow> (\<forall>e. expected = Some e \<longrightarrow> is_safe_int e) \<longrightarrow>
        open_handle lease_ms t1 t2 token ws sid access p client expected db = (raise SESSION_NOT_FOUND 404, db)) \<and>
     (\<forall>tok epoch. no_writer_access db ws sid p tok epoch) \<and>
     (\<forall>org. organization_key (organization_id p) = Inr org \<longrightarrow> (let absent = without_session (org, ws, sid) db in
        list_snapshots ws (organization_id p) (Some p) db = list_snapshots ws (organization_id p) (Some p) absent \<and>
        (\<forall>sns. list_snapshots ws (organization_id p) (Some p) db = Inr sns \<longrightarrow>
           (\<forall>sn \<in> set sns. pm_session (sn_product sn) \<noteq> sid)) \<and>
        (\<forall>lease_ms t1 t2 token access client expected.
           open_handle lease_ms t1 t2 token ws sid access p client expected db =
             (fst (open_handle lease_ms t1 t2 token ws sid access p client expected absent), db)) \<and>
        (\<forall>t1 t2 tok epoch batch evs. append_events t1 t2 ws sid p tok epoch batch evs db =
           (fst (append_events t1 t2 ws sid p tok epoch batch evs absent), db)) \<and>
        (\<forall>lease_ms t1 t2 t3 tok epoch. heartbeat lease_ms t1 t2 t3 ws sid p tok epoch db =
           (fst (heartbeat lease_ms t1 t2 t3 ws sid p tok epoch absent), db)) \<and>
        (\<forall>lease_ms t1 t2 t3 tok epoch. flush lease_ms t1 t2 t3 ws sid p tok epoch db =
           (fst (flush lease_ms t1 t2 t3 ws sid p tok epoch absent), db)) \<and>
        (\<forall>t1 tok epoch. release t1 ws sid p tok epoch db = (fst (release t1 ws sid p tok epoch absent), db))))"

lemma without_simps [simp]:
  "session_metas (without_session k db) = session_metas db"
  "session_events (without_session k db) = session_events db"
  "session_batches (without_session k db) = session_batches db"
  by (simp_all add: without_session_def)

lemma require_without [simp]: "require_session (without_session k db) k = raise SESSION_NOT_FOUND 404"
proof -
  have "find_by s_key k (filter (\<lambda>r. s_key r \<noteq> k) (sessions db)) = None" by (auto simp: find_by_None_iff)
  then show ?thesis by (simp add: require_session_def fetch_session_def without_session_def)
qed

lemma access_without [simp]:
  "can_access_session (without_session k db) r p = can_access_session db r p"
  "snapshot_from_row (without_session k db) r = snapshot_from_row db r"
  by (simp_all add: can_access_session_def snapshot_from_row_def require_product_metadata_def)

text \<open>A fence that answers "not found" makes every fenced call answer as on the database without the session.\<close>

lemma fenced_absent:
  assumes "\<And>t tok epoch. fenced_row t ws sid p tok epoch org db = raise SESSION_NOT_FOUND 404"
    and org: "organization_key (organization_id p) = Inr org"
  shows "append_events t1 t2 ws sid p tok epoch batch evs db =
      (fst (append_events t1 t2 ws sid p tok epoch batch evs (without_session (org, ws, sid) db)), db)"
    and "renew_or_confirm renew lease_ms t1 t2 t3 ws sid p tok epoch db =
      (fst (renew_or_confirm renew lease_ms t1 t2 t3 ws sid p tok epoch (without_session (org, ws, sid) db)), db)"
    and "release t1 ws sid p tok epoch db = (fst (release t1 ws sid p tok epoch (without_session (org, ws, sid) db)), db)"
proof -
  have absent: "fenced_row t ws sid p tok epoch org (without_session (org, ws, sid) db) = raise SESSION_NOT_FOUND 404"
    for t tok epoch by (simp add: fenced_row_def)
  have ids: "validate_identifier x = Inr y \<Longrightarrow> y = x" "validate_non_negative_int z = Inr z' \<Longrightarrow> z' = z" for x y z z'
    by (auto simp: validate_identifier_def validate_non_negative_int_def split: if_split_asm)
  show "append_events t1 t2 ws sid p tok epoch batch evs db =
      (fst (append_events t1 t2 ws sid p tok epoch batch evs (without_session (org, ws, sid) db)), db)"
    by (auto simp: append_events_def org commit_def bindE_def assms(1) absent split: sum.split dest!: ids)
  show "renew_or_confirm renew lease_ms t1 t2 t3 ws sid p tok epoch db =
      (fst (renew_or_confirm renew lease_ms t1 t2 t3 ws sid p tok epoch (without_session (org, ws, sid) db)), db)"
    by (auto simp: renew_or_confirm_def org commit_def bindE_def assms(1) absent split: sum.split dest!: ids)
  show "release t1 ws sid p tok epoch db = (fst (release t1 ws sid p tok epoch (without_session (org, ws, sid) db)), db)"
    by (auto simp: release_def org commit_def bindE_def assms(1) absent split: sum.split dest!: ids)
qed

lemma open_absent:
  assumes "require_session db (org, ws, sid) = Inr row" "assert_session_access db row p = raise SESSION_NOT_FOUND 404"
    and org: "organization_key (organization_id p) = Inr org"
  shows "open_handle lease_ms t1 t2 token ws sid access p client expected db =
    (fst (open_handle lease_ms t1 t2 token ws sid access p client expected (without_session (org, ws, sid) db)), db)"
proof -
  have ids: "validate_identifier x = Inr y \<Longrightarrow> y = x" for x y
    by (auto simp: validate_identifier_def split: if_split_asm)
  show ?thesis
    using assms by (auto simp: open_handle_def open_read_handle_def commit_def bindE_def split: sum.split dest!: ids)
qed

lemma mapE_from:
  assumes "mapE f xs = Inr ys" and "y \<in> set ys"
  obtains x where "x \<in> set xs" and "f x = Inr y"
  using assms by (auto simp: mapE_Inr_iff list_all2_conv_all_nth in_set_conv_nth) (metis nth_mem)

text \<open>The page of a hidden row is empty, so the listing is that of the database without it.\<close>

lemma mapE_skip:
  assumes "\<And>x. x \<in> set xs \<Longrightarrow> \<not> P x \<Longrightarrow> f x = Inr []"
  shows "bindE (mapE f xs) (\<lambda>yss. Inr (concat yss)) = bindE (mapE f (filter P xs)) (\<lambda>yss. Inr (concat yss))"
  using assms
proof (induction xs)
  case (Cons x xs)
  from Cons.IH Cons.prems have "bindE (mapE f xs) (\<lambda>yss. Inr (concat yss)) =
    bindE (mapE f (filter P xs)) (\<lambda>yss. Inr (concat yss))" by simp
  then show ?case
    using Cons.prems [of x] by (cases "f x"; cases "mapE f xs"; cases "mapE f (filter P xs)") auto
qed simp

lemma list_absent:
  assumes hidden: "\<And>r. r \<in> set (sessions db) \<Longrightarrow> s_key r = (org, ws, sid) \<Longrightarrow> can_access_session db r p = Inr False"
    and "organization_key oid = Inr org"
  shows "list_snapshots ws oid (Some p) db = list_snapshots ws oid (Some p) (without_session (org, ws, sid) db)"
proof -
  let ?k = "(org, ws, sid)" let ?db = "without_session ?k db"
  let ?page = "\<lambda>db r. bindE (can_access_session db r p) (\<lambda>ok.
    if ok then bindE (snapshot_from_row db r) (\<lambda>s. Inr [s]) else Inr [])"
  let ?rows = "\<lambda>db. order_by s_sid (filter (\<lambda>r. s_org r = org \<and> s_ws r = ws) (sessions db))"
  have page: "?page ?db = ?page db"
    by (simp cong: if_cong)
  have rows: "?rows ?db = filter (\<lambda>r. s_key r \<noteq> ?k) (?rows db)"
    by (simp add: order_by_def filter_sort without_session_def filter_filter conj_commute)
  have "bindE (mapE (?page db) (?rows db)) (\<lambda>pages. Inr (concat pages)) =
    bindE (mapE (?page ?db) (?rows ?db)) (\<lambda>pages. Inr (concat pages))"
    unfolding page rows by (rule mapE_skip) (auto simp: order_by_def hidden)
  moreover have "validate_identifier ws = Inr x \<Longrightarrow> x = ws" for x
    by (auto simp: validate_identifier_def split: if_split_asm)
  ultimately show ?thesis
    by (cases "validate_identifier ws") (auto simp: list_snapshots_def assms(2))
qed

lemma list_names:
  assumes "list_snapshots ws oid p db = Inr sns" and "organization_key oid = Inr org" and "sn \<in> set sns"
  obtains r where "r \<in> set (sessions db)" and "s_key r = (org, ws, pm_session (sn_product sn))"
proof -
  let ?page = "\<lambda>r. bindE (case p of None \<Rightarrow> Inr True | Some p \<Rightarrow> can_access_session db r p) (\<lambda>ok.
    if ok then bindE (snapshot_from_row db r) (\<lambda>s. Inr [s]) else Inr [])"
  have "validate_identifier ws = Inr x \<Longrightarrow> x = ws" for x by (auto simp: validate_identifier_def split: if_split_asm)
  with assms(1,2) obtain pages where pages: "sns = concat pages"
    "mapE ?page (order_by s_sid (filter (\<lambda>r. s_org r = org \<and> s_ws r = ws) (sessions db))) = Inr pages"
    by (auto simp: list_snapshots_def resE)
  from assms(3) pages(1) obtain pg where pg: "pg \<in> set pages" "sn \<in> set pg" by auto
  from mapE_from [OF pages(2) pg(1)] obtain r where r: "r \<in> set (sessions db)" "s_org r = org" "s_ws r = ws"
    "?page r = Inr pg" by (auto simp: order_by_def)
  from r(4) pg(2) have "pm_session (sn_product sn) = s_sid r"
    by (auto simp: snapshot_from_row_def product_metadata_from_row_def require_product_metadata_def resE m_key_def s_key_def
        split: if_split_asm option.split_asm dest!: find_by_SomeD)
  with r show thesis by (intro that [of r]) (auto simp: s_key_def)
qed

lemma denied_hidden:
  assumes inv: "pinv db" and row: "fetch_session db (org, ws, sid) = Some row"
    and deny: "can_access_session db row p = Inr False"
    and ids: "validate_identifier ws = Inr ws" "validate_identifier sid = Inr sid"
      "organization_key (organization_id p) = Inr org"
  shows "hidden_from db ws sid p"
proof -
  let ?absent = "without_session (org, ws, sid) db"
  have req: "require_session db (org, ws, sid) = Inr row" using row by (simp add: require_session_def)
  have acc: "assert_session_access db row p = raise SESSION_NOT_FOUND 404" using deny by (simp add: assert_session_access_def)
  have fence: "fenced_row t ws sid p tok epoch org db = raise SESSION_NOT_FOUND 404" for t tok epoch
    by (simp add: fenced_row_def req acc)
  have "no_writer_access db ws sid p tok epoch" for tok epoch
    by (rule no_writer_accessI) (use fence ids(3) in auto)
  moreover have "open_handle lease_ms t1 t2 token ws sid access p client expected db = (raise SESSION_NOT_FOUND 404, db)"
    if "access \<in> {''read'', ''write''}" "validate_identifier client = Inr client" "\<forall>e. expected = Some e \<longrightarrow> is_safe_int e"
    for lease_ms t1 t2 token access client expected
    using that ids req acc
    by (cases expected) (auto simp: open_handle_def open_read_handle_def validate_non_negative_int_def is_safe_int_def)
  moreover have "read_events ws sid offset len (organization_id p) (Some p) db = raise SESSION_NOT_FOUND 404"
    if "is_safe_int offset" "is_safe_int len" "len \<le> MAX_PAGE_LENGTH" for offset len
    using that ids req acc by (auto simp: read_events_def check_access_def validate_non_negative_int_def is_safe_int_def)
  moreover have "r = row" if "r \<in> set (sessions db)" "s_key r = (org, ws, sid)" for r
    using pinv_fetch [OF inv that(1)] that(2) row by simp
  then have list: "list_snapshots ws (organization_id p) (Some p) db = list_snapshots ws (organization_id p) (Some p) ?absent"
    using deny by (intro list_absent ids) auto
  moreover have "pm_session (sn_product sn) \<noteq> sid"
    if "list_snapshots ws (organization_id p) (Some p) db = Inr sns" "sn \<in> set sns" for sns sn
    using that(1) [unfolded list] ids(3) that(2) by (rule list_names) (auto simp: without_session_def)
  ultimately show ?thesis
    using fenced_absent [OF fence ids(3)] open_absent [OF req acc ids(3)] ids req acc
    by (simp add: hidden_from_def get_snapshot_def get_product_metadata_def authorize_session_access_def
        check_access_def Let_def heartbeat_def flush_def)
qed

text \<open>
  C12. Private sessions are invisible. For an actor-private session, every call of a principal who is not its
  product owner answers as if the session did not exist, now and in every later state: reading events, the
  snapshot, the metadata and the authorization, opening for reading or writing with any expected epoch, append,
  heartbeat, flush and release; and the listing of the workspace is that of the database without the session.
\<close>

theorem private_session_hidden:
  assumes "pstep\<^sup>*\<^sup>* empty_pdb db" and "fetch_session db (org, ws, sid) = Some row"
    and "find_by m_key (org, ws, sid) (session_metas db) = Some m" and "m_private m = 1"
    and "m_owner m \<noteq> Some (actor_id p)" and "pstep\<^sup>*\<^sup>* db db'"
    and "validate_identifier ws = Inr ws" and "validate_identifier sid = Inr sid"
    and "organization_key (organization_id p) = Inr org"
  shows "hidden_from db' ws sid p"
proof -
  note run = persist.grows_between [OF pinv_empty assms(1,6)]
  from pgrowsD [OF _ assms(2), of db'] run assms(3) obtain row' where
    row': "fetch_session db' (org, ws, sid) = Some row'"
    and m': "find_by m_key (org, ws, sid) (session_metas db') = Some m" by auto
  have "pinv db'" using run by simp
  with can_access_total [OF this row' m', of p] assms(4,5)
  have "can_access_session db' row' p = Inr False" by (simp add: may_see_def)
  from denied_hidden [OF \<open>pinv db'\<close> row' this assms(7-9)] show ?thesis .
qed

theorem private_session_hidden_witness: "hidden_from demo_priv_db ''w'' ''s'' demo_q"
  using private_session_hidden [OF demo_private(1), of "''org''" "''w''" "''s''" demo_row1
      "new_meta_row 1000 demo_key demo_private" demo_q demo_priv_db]
  by (simp add: demo_private demo_key_def [symmetric] demo_args)

text \<open>The rows of one session are untouched.\<close>

definition untouched :: "scope_key \<Rightarrow> pdb \<Rightarrow> pdb \<Rightarrow> bool" where
  "untouched k db db' \<longleftrightarrow> fetch_session db' k = fetch_session db k \<and> log_of db' k = log_of db k \<and>
     find_by m_key k (session_metas db') = find_by m_key k (session_metas db) \<and>
     filter (\<lambda>b. b_scope b = k) (session_batches db') = filter (\<lambda>b. b_scope b = k) (session_batches db)"

lemma untouched_refl [simp]: "untouched k db db"
  by (simp add: untouched_def)

lemma untouched_edit:
  "(\<And>r. s_key (f r) = s_key r) \<Longrightarrow> k \<noteq> k' \<Longrightarrow> untouched k db (db\<lparr>sessions := edit_by s_key k' f (sessions db)\<rparr>)"
  by (simp add: untouched_def fetch_session_def log_of_def find_by_edit)

lemma untouched_append: "k \<noteq> k' \<Longrightarrow> untouched k db (after_append t2 k' epoch batch digest ds n db)"
proof -
  assume k: "k \<noteq> k'"
  have "b_scope (new_batch_row k' epoch batch digest len c) = k'" for len c
    by (simp add: b_scope_def new_batch_row_def split: prod.splits)
  with k show ?thesis
    by (simp add: untouched_def log_of_after_append)
      (simp add: after_append_def Let_def fetch_session_def find_by_edit s_key_def)
qed

lemma untouched_outcome:
  "(\<And>v db'. out = (Inr v, db') \<Longrightarrow> untouched k db db') \<Longrightarrow> (\<And>e db'. out = (Inl e, db') \<Longrightarrow> db' = db) \<Longrightarrow>
   untouched k db (snd out)"
proof -
  assume ok: "\<And>v db'. out = (Inr v, db') \<Longrightarrow> untouched k db db'" and err: "\<And>e db'. out = (Inl e, db') \<Longrightarrow> db' = db"
  obtain r db' where "out = (r, db')" by (cases out)
  with ok err show ?thesis by (cases r) auto
qed

text \<open>
  Scopes are isolated. A call that addresses one session of one organization and workspace leaves the
  row, the metadata, the log and the batch records of every other session, in particular of every other
  organization and workspace, exactly as they were.
\<close>

theorem scopes_isolated:
  assumes "organization_key (organization_id p) = Inr org" and "k \<noteq> (org, ws, sid)"
  shows "untouched k db (snd (create_session lease_ms now token ws sid header inherited p client db)) \<and>
    untouched k db (snd (open_handle lease_ms t1 t2 token ws sid access p client expected db)) \<and>
    untouched k db (snd (append_events t1 t2 ws sid p token epoch batch evs db)) \<and>
    untouched k db (snd (heartbeat lease_ms t1 t2 t3 ws sid p token epoch db)) \<and>
    untouched k db (snd (flush lease_ms t1 t2 t3 ws sid p token epoch db)) \<and>
    untouched k db (snd (release t1 ws sid p token epoch db))"
proof -
  have create: "untouched k db db'"
    if "create_session lease_ms now token ws sid header inherited p client db = (Inr h, db')" for h db'
    using that by (rule create_session_Inr)
      (use assms in \<open>auto simp: untouched_def fetch_session_def find_by_snoc log_of_def\<close>)
  have open_: "untouched k db db'"
    if "open_handle lease_ms t1 t2 token ws sid access p client expected db = (Inr h, db')" for h db'
    using that by (rule open_handle_write_Inr) (use assms in \<open>auto simp: s_key_def intro!: untouched_edit\<close>)
  have append: "untouched k db db'"
    if "append_events t1 t2 ws sid p token epoch batch evs db = (Inr n, db')" for n db'
    using that by (rule append_events_Inr) (use assms in \<open>auto intro!: untouched_append\<close>)
  have renew: "untouched k db db'"
    if "renew_or_confirm renew lease_ms t1 t2 t3 ws sid p token epoch db = (Inr nl, db')" for renew nl db'
    using that by (cases nl) (auto elim!: renew_or_confirm_Inr simp: assms s_key_def intro!: untouched_edit)
  have rel: "untouched k db db'" if "release t1 ws sid p token epoch db = (Inr n, db')" for n db'
    using that by (rule release_Inr) (use assms in \<open>auto simp: s_key_def intro!: untouched_edit\<close>)
  show ?thesis
    unfolding heartbeat_def flush_def
    by (intro conjI untouched_outcome) (auto dest: create open_ append renew rel failed_same)
qed

theorem scopes_isolated_witness:
  "untouched (''other'', ''w'', ''s'') demo_db1
     (snd (append_events 2000 2001 ''w'' ''s'' demo_p ''tok1'' 1 ''b1'' [JDict demo_event] demo_db1))"
  using scopes_isolated [of demo_p "''org''" "(''other'', ''w'', ''s'')" "''w''" "''s''" demo_db1]
  by (simp add: demo_args)

text \<open>
  A session id is created once. After a creation succeeded, every later creation of the same session in
  the same scope, by anybody and with any header, fails and changes nothing; with valid arguments the
  answer is the conflict code.
\<close>

theorem create_once:
  assumes "pstep\<^sup>*\<^sup>* empty_pdb db" and "is_safe_int now" and "jwf header"
    and "create_session lease_ms now token ws sid header inherited p client db = (Inr h, db')"
    and "pstep\<^sup>*\<^sup>* db' db''" and "organization_key (organization_id q) = organization_key (organization_id p)"
  shows "refused (create_session lease_ms' now' token' ws sid header' inherited' q client' db'') db'' \<and>
    (validate_identifier client' = Inr client' \<and> is_safe_int inherited' \<and>
     validate_header header' sid inherited' = Inr hd' \<and> validate_identifier (actor_id q) = Inr (actor_id q) \<longrightarrow>
     create_session lease_ms' now' token' ws sid header' inherited' q client' db'' =
       (raise SESSION_ALREADY_EXISTS 409, db''))"
  using assms(4)
proof (cases rule: create_session_Inr)
  case (1 org hd hj)
  let ?k = "(org, ws, sid)"
  let ?row = "new_session_row lease_ms now token ?k hj inherited (actor_id p) client"
  have "pinv db'"
    by (rule persist.inv_step [OF pstep.Create [OF assms(3,2,4)] persist.inv_steps [OF assms(1) pinv_empty]])
  moreover have "fetch_session db' ?k = Some ?row"
    unfolding 1(7) using 1(5) find_by_snoc [of s_key ?row] by (simp add: fetch_session_def)
  ultimately obtain row where row: "fetch_session db'' ?k = Some row"
    using pgrowsD(1) [OF persist.grows_steps [OF assms(5)]] by blast
  have q: "organization_key (organization_id q) = Inr org" using assms(6) 1(1) by simp
  have "refused (create_session lease_ms' now' token' ws sid header' inherited' q client' db'') db''"
    by (rule refusedI) (use row q in \<open>auto elim!: create_session_Inr dest: failed_same\<close>)
  moreover have "validate_header header' sid inherited' = Inr hd' \<Longrightarrow> \<exists>t. text_of (JDict hd') = Inr t"
    by (auto simp: validate_header_Inr text_of_def json_text_def)
  moreover have "validate_identifier ws = Inr ws" "validate_identifier sid = Inr sid"
    using assms(4) by (auto simp: create_session_def resE)
  ultimately show ?thesis
    using row q by (auto simp: create_session_def validate_non_negative_int_def is_safe_int_def Let_def)
qed

theorem create_once_witness:
  "refused (create_session 9 9 ''x'' ''w'' ''s'' demo_header 0 demo_q ''c9'' demo_db2) demo_db2"
proof -
  obtain h where run: "create_session 60000 1000 ''tok1'' ''w'' ''s'' demo_header 0 demo_p ''c1'' empty_pdb = (Inr h, demo_db1)"
    using demo_create(1) by blast
  from create_once [OF _ _ _ run r_into_rtranclp [of pstep, OF demo_reach2(1)], of demo_q 9 9 "''x''" demo_header 0 "''c9''"]
  show ?thesis by (simp add: demo_args)
qed

definition visible :: "pdb \<Rightarrow> principal \<Rightarrow> session_row \<Rightarrow> bool" where
  "visible db p row \<longleftrightarrow> (case find_by m_key (s_key row) (session_metas db) of
     None \<Rightarrow> False | Some m \<Rightarrow> may_see m p)"

lemma snapshot_total:
  assumes inv: "pinv db" and mem: "row \<in> set (sessions db)"
    and "is_safe_int (s_event_count row)" and "is_safe_int (s_last_activity row)"
  shows "can_access_session db row p = Inr (visible db p row)"
    and "\<exists>sn. snapshot_from_row db row = Inr sn \<and> pm_session (sn_product sn) = s_sid row"
proof -
  note fetch = pinv_fetch [OF inv mem]
  obtain m where m: "find_by m_key (s_key row) (session_metas db) = Some m" "meta_ok m" "m_key m = s_key row"
    by (rule pinv_meta [OF inv fetch])
  obtain h where "json_loads (s_header_json row) = Some (JDict h)"
    using pinvD(6) [OF inv mem] by (auto simp: session_ok_def header_ok_def)
  with m assms(3,4) show "\<exists>sn. snapshot_from_row db row = Inr sn \<and> pm_session (sn_product sn) = s_sid row"
    by (auto simp: snapshot_from_row_def column_optional_int_def stored_json_object_def column_int_def
        require_product_metadata_def product_metadata_total m_key_def s_key_def)
  show "can_access_session db row p = Inr (visible db p row)"
    using can_access_total [OF inv fetch m(1)] m(1) by (simp add: visible_def)
qed

text \<open>
  Listing is complete and discreet. On a reachable database the listing of a workspace succeeds and
  names exactly the sessions of that organization and workspace the principal may see, sorted by id.
\<close>

theorem list_snapshots_exact:
  assumes "pstep\<^sup>*\<^sup>* empty_pdb db" and "validate_identifier ws = Inr ws" and "organization_key oid = Inr org"
    and "\<forall>row \<in> set (sessions db). is_safe_int (s_event_count row) \<and> is_safe_int (s_last_activity row)"
  shows "\<exists>sns. list_snapshots ws oid (Some p) db = Inr sns \<and>
     map (\<lambda>sn. pm_session (sn_product sn)) sns = map s_sid (filter (visible db p)
       (sort_key s_sid (filter (\<lambda>row. s_org row = org \<and> s_ws row = ws) (sessions db))))"
proof -
  have inv: "pinv db" by (rule persist.inv_steps [OF assms(1) pinv_empty])
  let ?page = "\<lambda>row. bindE (can_access_session db row p) (\<lambda>ok.
    if ok then bindE (snapshot_from_row db row) (\<lambda>s. Inr [s]) else Inr [])"
  let ?rows = "sort_key s_sid (filter (\<lambda>row. s_org row = org \<and> s_ws row = ws) (sessions db))"
  have "\<exists>pages. mapE ?page rs = Inr pages \<and>
      map (\<lambda>sn. pm_session (sn_product sn)) (concat pages) = map s_sid (filter (visible db p) rs)"
    if "set rs \<subseteq> set (sessions db)" for rs
    using that
  proof (induction rs)
    case Nil
    then show ?case by simp
  next
    case (Cons row rs)
    then have row: "row \<in> set (sessions db)" "set rs \<subseteq> set (sessions db)" by simp_all
    from Cons.IH [OF row(2)] obtain pages where ih: "mapE ?page rs = Inr pages"
      "map (\<lambda>sn. pm_session (sn_product sn)) (concat pages) = map s_sid (filter (visible db p) rs)" by blast
    obtain sn where "snapshot_from_row db row = Inr sn" "pm_session (sn_product sn) = s_sid row"
      using snapshot_total(2) [OF inv row(1)] assms(4) row(1) by blast
    with ih snapshot_total(1) [OF inv row(1)] assms(4) row(1) show ?case by simp
  qed
  from this [of ?rows] show ?thesis
    by (auto simp: list_snapshots_def assms(2,3) order_by_def)
qed

theorem list_snapshots_exact_witness:
  "\<exists>sns. list_snapshots ''w'' (Some ''org'') (Some demo_q) demo_db1 = Inr sns \<and>
     map (\<lambda>sn. pm_session (sn_product sn)) sns = [''s'']"
proof -
  have row: "s_sid demo_row1 = ''s''" "s_org demo_row1 = ''org''" "s_ws demo_row1 = ''w''" "s_last_activity demo_row1 = 1000"
    by (simp_all add: demo_row1_def new_session_row_def demo_key_def)
  have "find_by m_key demo_key [demo_meta] = Some demo_meta" by (simp add: find_by_Cons demo_rows)
  with list_snapshots_exact [OF demo_reach1(1), of "''w''" "Some ''org''" "''org''" demo_q] row show ?thesis
    by (simp add: demo_create demo_args demo_rows visible_def)
qed

end
