(* ===== verification/Persist_Migrate.thy ===== *)
theory Persist_Migrate
  imports Persist_Demo
begin

text \<open>
  Opening a database file: \<open>PersistenceStore._initialize\<close> and the schema migration it runs. A table on disk
  is its column names, its primary key and its rows; a column a historical schema does not have holds an
  arbitrary value in the model's row, which no statement reads. \<open>INSERT ... SELECT\<close> into a rebuilt table
  enforces its primary key, its CHECK constraints and its foreign key.
\<close>

section \<open>Tables on disk\<close>

record 'r disk_table =
  t_columns :: "string list"
  t_pk :: "string list"
  t_rows :: "'r list"

record raw_db =
  raw_sessions :: "session_row disk_table option"
  raw_events :: "event_row disk_table option"
  raw_batches :: "batch_row disk_table option"
  raw_metas :: "meta_row disk_table option"

definition sessions_columns :: "string list" where
  "sessions_columns = [''organization_id'', ''workspace_id'', ''session_id'', ''header_json'',
    ''inherited_event_count'', ''event_count'', ''revision'', ''last_activity_at'', ''owner_actor_id'',
    ''owner_client_id'', ''writer_token_hash'', ''epoch'', ''lease_expires_at'']"

definition events_columns :: "string list" where
  "events_columns = [''organization_id'', ''workspace_id'', ''session_id'', ''seq'', ''event_json'']"

definition batches_columns :: "string list" where
  "batches_columns = [''organization_id'', ''workspace_id'', ''session_id'', ''epoch'', ''batch_id'',
    ''digest'', ''event_count'', ''next_seq'']"

definition metas_columns :: "string list" where
  "metas_columns = [''organization_id'', ''workspace_id'', ''session_id'', ''creator_actor_id'',
    ''owner_actor_id'', ''owner_state'', ''metadata_version'', ''source'', ''created_at'', ''actor_private'']"

definition scope_pk :: "string list" where
  "scope_pk = [''organization_id'', ''workspace_id'', ''session_id'']"

definition events_pk :: "string list" where
  "events_pk = scope_pk @ [''seq'']"

definition batches_pk :: "string list" where
  "batches_pk = scope_pk @ [''epoch'', ''batch_id'']"

section \<open>The migration\<close>

definition table_outdated :: "string list \<Rightarrow> 'r disk_table option \<Rightarrow> bool" where
  "table_outdated primary_key tbl = (case tbl of
     None \<Rightarrow> False
   | Some t \<Rightarrow> ''organization_id'' \<notin> set (t_columns t) \<or> t_pk t \<noteq> primary_key)"

definition needs_scope_rebuild :: "raw_db \<Rightarrow> bool" where
  "needs_scope_rebuild raw \<longleftrightarrow> table_outdated scope_pk (raw_sessions raw) \<or>
     table_outdated events_pk (raw_events raw) \<or> table_outdated batches_pk (raw_batches raw) \<or>
     table_outdated scope_pk (raw_metas raw)"

definition create_if_missing :: "string list \<Rightarrow> string list \<Rightarrow> 'r disk_table option \<Rightarrow> 'r disk_table option" where
  "create_if_missing columns primary_key tbl = (case tbl of
     None \<Rightarrow> Some \<lparr>t_columns = columns, t_pk = primary_key, t_rows = []\<rparr>
   | Some t \<Rightarrow> Some t)"

definition create_scoped_schema :: "raw_db \<Rightarrow> raw_db" where
  "create_scoped_schema raw = \<lparr>
     raw_sessions = create_if_missing sessions_columns scope_pk (raw_sessions raw),
     raw_events = create_if_missing events_columns events_pk (raw_events raw),
     raw_batches = create_if_missing batches_columns batches_pk (raw_batches raw),
     raw_metas = create_if_missing metas_columns scope_pk (raw_metas raw)\<rparr>"

definition ensure_actor_private_column :: "raw_db \<Rightarrow> raw_db" where
  "ensure_actor_private_column raw = (case raw_metas raw of
     None \<Rightarrow> raw
   | Some t \<Rightarrow>
       if ''actor_private'' \<in> set (t_columns t) then raw
       else raw\<lparr>raw_metas := Some (t\<lparr>t_columns := t_columns t @ [''actor_private''],
              t_rows := map (\<lambda>m. m\<lparr>m_private := 0\<rparr>) (t_rows t)\<rparr>)\<rparr>)"

definition rows_of :: "'r disk_table option \<Rightarrow> 'r list" where
  "rows_of tbl = (case tbl of None \<Rightarrow> [] | Some t \<Rightarrow> t_rows t)"

text \<open>\<open>INSERT INTO new SELECT\<close>: refused when a row violates a CHECK, the key or the foreign key.\<close>

definition insert_select :: "('r \<Rightarrow> 'k) \<Rightarrow> ('r \<Rightarrow> bool) \<Rightarrow> 'r list \<Rightarrow> 'r list res" where
  "insert_select key ok rows = (if list_all ok rows then insert_all key rows [] else Inl IntegrityError)"

text \<open>The projections of the four copies; \<open>actor_private\<close> is 0 when the old table has no such column.\<close>

definition unscope_session :: "session_row \<Rightarrow> session_row" where
  "unscope_session r = r\<lparr>s_org := []\<rparr>"

definition unscope_event :: "event_row \<Rightarrow> event_row" where
  "unscope_event e = e\<lparr>e_org := []\<rparr>"

definition unscope_batch :: "batch_row \<Rightarrow> batch_row" where
  "unscope_batch b = b\<lparr>b_org := []\<rparr>"

definition unscope_meta :: "raw_db \<Rightarrow> meta_row \<Rightarrow> meta_row" where
  "unscope_meta raw m = m\<lparr>m_org := [], m_private := (case raw_metas raw of None \<Rightarrow> 0 | Some t \<Rightarrow>
     if ''actor_private'' \<in> set (t_columns t) then m_private m else 0)\<rparr>"

definition rebuild_scope_schema :: "raw_db \<Rightarrow> raw_db res" where
  "rebuild_scope_schema raw =
    bindE (insert_select s_key session_check (map unscope_session (rows_of (raw_sessions raw)))) (\<lambda>ss.
    bindE (insert_select e_key (\<lambda>e. event_check e \<and> e_scope e \<in> set (map s_key ss))
      (map unscope_event (rows_of (raw_events raw)))) (\<lambda>es.
    bindE (insert_select b_key (\<lambda>b. batch_check b \<and> b_scope b \<in> set (map s_key ss))
      (map unscope_batch (rows_of (raw_batches raw)))) (\<lambda>bs.
    bindE (insert_select m_key (\<lambda>m. meta_check m \<and> m_key m \<in> set (map s_key ss))
      (map (unscope_meta raw) (rows_of (raw_metas raw)))) (\<lambda>ms.
      Inr \<lparr>raw_sessions = Some \<lparr>t_columns = sessions_columns, t_pk = scope_pk, t_rows = ss\<rparr>,
           raw_events = Some \<lparr>t_columns = events_columns, t_pk = events_pk, t_rows = es\<rparr>,
           raw_batches = Some \<lparr>t_columns = batches_columns, t_pk = batches_pk, t_rows = bs\<rparr>,
           raw_metas = Some \<lparr>t_columns = metas_columns, t_pk = scope_pk, t_rows = ms\<rparr>\<rparr>))))"

definition legacy_meta :: "session_row \<Rightarrow> meta_row" where
  "legacy_meta r = \<lparr>m_org = s_org r, m_ws = s_ws r, m_sid = s_sid r, m_creator = None, m_owner = None,
     m_owner_state = ''unknown'', m_version = 1, m_source = ''legacy'', m_created_at = None, m_private = 0\<rparr>"

text \<open>\<open>INSERT OR IGNORE ... SELECT ... FROM sessions\<close>.\<close>

fun bootstrap_metas :: "session_row list \<Rightarrow> meta_row list \<Rightarrow> meta_row list" where
  "bootstrap_metas [] ms = ms"
| "bootstrap_metas (r # rs) ms = bootstrap_metas rs
     (if s_key r \<in> set (map m_key ms) then ms else ms @ [legacy_meta r])"

definition initialize :: "raw_db \<Rightarrow> unit res \<times> raw_db" where
  "initialize raw = commit raw (
    bindE (if raw_sessions raw \<noteq> None \<and> needs_scope_rebuild raw then rebuild_scope_schema raw
           else Inr (create_scoped_schema raw)) (\<lambda>raw.
      let raw = ensure_actor_private_column raw
      in Inr ((), raw\<lparr>raw_metas := map_option
           (\<lambda>t. t\<lparr>t_rows := bootstrap_metas (rows_of (raw_sessions raw)) (t_rows t)\<rparr>) (raw_metas raw)\<rparr>)))"

text \<open>The database the operations then work on.\<close>

definition pdb_of :: "raw_db \<Rightarrow> pdb" where
  "pdb_of raw = \<lparr>sessions = rows_of (raw_sessions raw), session_events = rows_of (raw_events raw),
     session_batches = rows_of (raw_batches raw), session_metas = rows_of (raw_metas raw)\<rparr>"

section \<open>Library\<close>

lemma legacy_meta_key [simp]: "m_key (legacy_meta r) = s_key r"
  by (simp add: legacy_meta_def m_key_def s_key_def)

lemma legacy_meta_ok: "meta_ok (legacy_meta r)"
  by (simp add: legacy_meta_def meta_ok_def meta_check_def is_safe_int_def MAX_SAFE_INTEGER_def)

text \<open>The bootstrap adds rows at the end, one for each session that has none.\<close>

lemma bootstrap_metas_spec:
  "\<exists>new. bootstrap_metas rs ms = ms @ map legacy_meta new \<and> set new \<subseteq> set rs \<and>
     m_key ` set (bootstrap_metas rs ms) = m_key ` set ms \<union> s_key ` set rs \<and>
     (\<forall>r \<in> set new. s_key r \<notin> m_key ` set ms) \<and> (keyed m_key ms \<longrightarrow> keyed m_key (bootstrap_metas rs ms))"
proof (induction rs arbitrary: ms)
  case Nil
  then show ?case by (intro exI [of _ "[]"]) simp
next
  case (Cons r rs)
  show ?case
  proof (cases "s_key r \<in> m_key ` set ms")
    case True
    from Cons.IH [of ms] obtain new where new: "bootstrap_metas rs ms = ms @ map legacy_meta new"
      "set new \<subseteq> set rs" "m_key ` set (bootstrap_metas rs ms) = m_key ` set ms \<union> s_key ` set rs"
      "\<forall>r \<in> set new. s_key r \<notin> m_key ` set ms" "keyed m_key ms \<longrightarrow> keyed m_key (bootstrap_metas rs ms)" by blast
    from True have "bootstrap_metas (r # rs) ms = bootstrap_metas rs ms"
      "m_key ` set ms \<union> s_key ` set (r # rs) = m_key ` set ms \<union> s_key ` set rs" by auto
    with new show ?thesis by (intro exI [of _ new]) auto
  next
    case False
    from Cons.IH [of "ms @ [legacy_meta r]"] obtain new where
      new: "bootstrap_metas rs (ms @ [legacy_meta r]) = ms @ map legacy_meta (r # new)" "set new \<subseteq> set rs"
        "m_key ` set (bootstrap_metas rs (ms @ [legacy_meta r])) = insert (s_key r) (m_key ` set ms \<union> s_key ` set rs)"
        "\<forall>r' \<in> set new. s_key r' \<notin> insert (s_key r) (m_key ` set ms)"
        "keyed m_key (ms @ [legacy_meta r]) \<longrightarrow> keyed m_key (bootstrap_metas rs (ms @ [legacy_meta r]))" by auto
    have "keyed m_key ms \<longrightarrow> keyed m_key (ms @ [legacy_meta r])" using False by (auto simp: keyed_def)
    with False new show ?thesis by (intro exI [of _ "r # new"]) auto
  qed
qed

lemma bootstrap_metas_complete: "s_key ` set rs \<subseteq> m_key ` set ms \<Longrightarrow> bootstrap_metas rs ms = ms"
  by (induction rs arbitrary: ms) auto

lemma insert_select_ok:
  "list_all ok rows \<Longrightarrow> keyed key rows \<Longrightarrow> insert_select key ok rows = Inr rows"
  using insert_all_fresh [of key "[]" rows] by (simp add: insert_select_def)

section \<open>Databases of the first schema\<close>

text \<open>
  A database written before organizations existed: sessions are keyed by workspace and session id, and its
  rows obey the rules that schema had.
\<close>

definition legacy_ok :: "raw_db \<Rightarrow> bool" where
  "legacy_ok raw \<longleftrightarrow> raw_sessions raw \<noteq> None \<and> needs_scope_rebuild raw \<and>
     (let ss = rows_of (raw_sessions raw); es = rows_of (raw_events raw);
          bs = rows_of (raw_batches raw); ms = rows_of (raw_metas raw)
      in distinct (map (\<lambda>r. (s_ws r, s_sid r)) ss) \<and> distinct (map (\<lambda>e. (e_ws e, e_sid e, e_seq e)) es) \<and>
         distinct (map (\<lambda>b. (b_ws b, b_sid b, b_epoch b, b_id b)) bs) \<and> distinct (map (\<lambda>m. (m_ws m, m_sid m)) ms) \<and>
         (\<forall>r \<in> set ss. session_ok r \<and>
            map e_seq (filter (\<lambda>e. e_ws e = s_ws r \<and> e_sid e = s_sid r) es) = [0..s_event_count r - 1]) \<and>
         (\<forall>e \<in> set es. event_ok e \<and> (e_ws e, e_sid e) \<in> (\<lambda>r. (s_ws r, s_sid r)) ` set ss) \<and>
         (\<forall>b \<in> set bs. batch_check b \<and> (\<exists>r \<in> set ss. b_ws b = s_ws r \<and> b_sid b = s_sid r \<and>
            b_next_seq b \<le> s_event_count r \<and> b_epoch b \<le> s_epoch r)) \<and>
         (\<forall>m \<in> set ms. meta_ok (m\<lparr>m_private := (case raw_metas raw of None \<Rightarrow> 0 | Some t \<Rightarrow>
            if ''actor_private'' \<in> set (t_columns t) then m_private m else 0)\<rparr>) \<and>
            (m_ws m, m_sid m) \<in> (\<lambda>r. (s_ws r, s_sid r)) ` set ss))"

lemmas unscope_defs = unscope_session_def unscope_event_def unscope_batch_def unscope_meta_def

lemma unscope_keys:
  "s_key (unscope_session r) = ([], s_ws r, s_sid r)" "e_scope (unscope_event e) = ([], e_ws e, e_sid e)"
  "e_key (unscope_event e) = (([], e_ws e, e_sid e), e_seq e)" "b_scope (unscope_batch b) = ([], b_ws b, b_sid b)"
  "b_key (unscope_batch b) = (([], b_ws b, b_sid b), b_epoch b, b_id b)" "m_key (unscope_meta raw m) = ([], m_ws m, m_sid m)"
  by (simp_all add: unscope_defs s_key_def e_scope_def e_key_def b_scope_def b_key_def m_key_def)

lemma unscope_ok:
  "session_ok (unscope_session r) = session_ok r" "event_ok (unscope_event e) = event_ok e"
  "batch_check (unscope_batch b) = batch_check b" "e_seq (unscope_event e) = e_seq e"
  "s_event_count (unscope_session r) = s_event_count r" "s_epoch (unscope_session r) = s_epoch r"
  "b_next_seq (unscope_batch b) = b_next_seq b" "b_epoch (unscope_batch b) = b_epoch b"
  by (simp_all add: unscope_defs session_ok_def session_check_def header_ok_def event_ok_def event_check_def
      batch_check_def)

text \<open>The database a legacy file becomes.\<close>

definition migrated :: "raw_db \<Rightarrow> pdb" where
  "migrated raw = (let ss = map unscope_session (rows_of (raw_sessions raw)) in
     \<lparr>sessions = ss, session_events = map unscope_event (rows_of (raw_events raw)),
      session_batches = map unscope_batch (rows_of (raw_batches raw)),
      session_metas = bootstrap_metas ss (map (unscope_meta raw) (rows_of (raw_metas raw)))\<rparr>)"

lemma legacy_keyed:
  assumes "legacy_ok raw"
  shows "keyed s_key (map unscope_session (rows_of (raw_sessions raw)))"
    "keyed e_key (map unscope_event (rows_of (raw_events raw)))"
    "keyed b_key (map unscope_batch (rows_of (raw_batches raw)))"
    "keyed m_key (map (unscope_meta raw) (rows_of (raw_metas raw)))"
  using assms
  by (auto simp: legacy_ok_def keyed_def Let_def unscope_keys distinct_map inj_on_def)

lemma legacy_rows:
  assumes "legacy_ok raw"
  shows "r \<in> set (rows_of (raw_sessions raw)) \<Longrightarrow> session_ok r \<and>
      map e_seq (filter (\<lambda>e. e_ws e = s_ws r \<and> e_sid e = s_sid r) (rows_of (raw_events raw))) = [0..s_event_count r - 1]"
    "e \<in> set (rows_of (raw_events raw)) \<Longrightarrow> event_ok e \<and>
      (e_ws e, e_sid e) \<in> (\<lambda>r. (s_ws r, s_sid r)) ` set (rows_of (raw_sessions raw))"
    "b \<in> set (rows_of (raw_batches raw)) \<Longrightarrow> batch_check b \<and> (\<exists>r \<in> set (rows_of (raw_sessions raw)).
      b_ws b = s_ws r \<and> b_sid b = s_sid r \<and> b_next_seq b \<le> s_event_count r \<and> b_epoch b \<le> s_epoch r)"
    "m \<in> set (rows_of (raw_metas raw)) \<Longrightarrow> meta_ok (unscope_meta raw m) \<and>
      (m_ws m, m_sid m) \<in> (\<lambda>r. (s_ws r, s_sid r)) ` set (rows_of (raw_sessions raw))"
  using assms unfolding legacy_ok_def Let_def
  by (auto simp: unscope_meta_def meta_ok_def meta_check_def)

lemma migrated_pinv:
  assumes leg: "legacy_ok raw"
  shows "pinv (migrated raw)"
proof (rule pinvI)
  let ?ss = "rows_of (raw_sessions raw)" let ?ms = "map (unscope_meta raw) (rows_of (raw_metas raw))"
  note rows = legacy_rows [OF leg]
  show keys: "keyed s_key (sessions (migrated raw))" "keyed e_key (session_events (migrated raw))"
    "keyed b_key (session_batches (migrated raw))"
    using legacy_keyed [OF leg] by (simp_all add: migrated_def Let_def)
  from bootstrap_metas_spec [of "map unscope_session ?ss" ?ms] obtain new where
    new: "session_metas (migrated raw) = ?ms @ map legacy_meta new" "keyed m_key (session_metas (migrated raw))"
      "m_key ` set (session_metas (migrated raw)) = m_key ` set ?ms \<union> s_key ` set (map unscope_session ?ss)"
    using legacy_keyed(4) [OF leg] by (auto simp: migrated_def Let_def)
  show "keyed m_key (session_metas (migrated raw))" by (rule new(2))
  have "m_key ` set ?ms \<subseteq> s_key ` set (map unscope_session ?ss)"
    using rows(4) by (auto simp: unscope_keys image_iff)
  with new(3) show "s_key ` set (sessions (migrated raw)) = m_key ` set (session_metas (migrated raw))"
    by (simp add: migrated_def Let_def Un_absorb1)
  show "meta_ok m" if "m \<in> set (session_metas (migrated raw))" for m
    using that rows(4) legacy_meta_ok by (auto simp: new(1))
  show "session_ok row" if "row \<in> set (sessions (migrated raw))" for row
    using that rows(1) by (auto simp: migrated_def Let_def unscope_ok)
  show "log_ok (migrated raw) row" if "row \<in> set (sessions (migrated raw))" for row
    using that rows(1)
    by (auto simp: migrated_def Let_def log_ok_def log_of_def filter_map comp_def unscope_keys unscope_ok)
  show "event_ok e" if "e \<in> set (session_events (migrated raw))" for e
    using that rows(2) by (auto simp: migrated_def Let_def unscope_ok)
  show "e_scope e \<in> s_key ` set (sessions (migrated raw))" if "e \<in> set (session_events (migrated raw))" for e
    using that rows(2) by (auto simp: migrated_def Let_def unscope_keys image_iff)
  show "batch_ok (migrated raw) b" if b: "b \<in> set (session_batches (migrated raw))" for b
  proof -
    from b obtain b0 where b0: "b0 \<in> set (rows_of (raw_batches raw))" "b = unscope_batch b0"
      by (auto simp: migrated_def Let_def)
    from rows(3) [OF b0(1)] obtain r where r: "r \<in> set ?ss" "b_ws b0 = s_ws r" "b_sid b0 = s_sid r"
      "b_next_seq b0 \<le> s_event_count r" "b_epoch b0 \<le> s_epoch r" "batch_check b0" by blast
    have "fetch_session (migrated raw) (s_key (unscope_session r)) = Some (unscope_session r)"
      unfolding fetch_session_def using keys(1) r(1)
      by (intro find_by_keyed) (auto simp: migrated_def Let_def)
    with r b0(2) show ?thesis by (auto simp: batch_ok_def unscope_ok unscope_keys)
  qed
qed

lemma rebuild_legacy:
  assumes leg: "legacy_ok raw"
  shows "rebuild_scope_schema raw = Inr
    \<lparr>raw_sessions = Some \<lparr>t_columns = sessions_columns, t_pk = scope_pk, t_rows = sessions (migrated raw)\<rparr>,
     raw_events = Some \<lparr>t_columns = events_columns, t_pk = events_pk, t_rows = session_events (migrated raw)\<rparr>,
     raw_batches = Some \<lparr>t_columns = batches_columns, t_pk = batches_pk, t_rows = session_batches (migrated raw)\<rparr>,
     raw_metas = Some \<lparr>t_columns = metas_columns, t_pk = scope_pk,
       t_rows = map (unscope_meta raw) (rows_of (raw_metas raw))\<rparr>\<rparr>"
proof -
  let ?ss = "map unscope_session (rows_of (raw_sessions raw))"
  note rows = legacy_rows [OF leg]
  have keys: "set (map s_key ?ss) = (\<lambda>r. ([], s_ws r, s_sid r)) ` set (rows_of (raw_sessions raw))"
    by (auto simp: unscope_keys)
  have s: "insert_select s_key session_check ?ss = Inr ?ss"
    using rows(1) unscope_ok(1) legacy_keyed(1) [OF leg]
    by (intro insert_select_ok) (auto simp: list_all_iff session_ok_def)
  have e: "insert_select e_key (\<lambda>e. event_check e \<and> e_scope e \<in> set (map s_key ?ss))
      (map unscope_event (rows_of (raw_events raw))) = Inr (map unscope_event (rows_of (raw_events raw)))"
    using rows(2) unscope_ok(2) legacy_keyed(2) [OF leg] unfolding keys
    by (intro insert_select_ok) (auto simp: list_all_iff event_ok_def unscope_keys image_iff)
  have b: "insert_select b_key (\<lambda>b. batch_check b \<and> b_scope b \<in> set (map s_key ?ss))
      (map unscope_batch (rows_of (raw_batches raw))) = Inr (map unscope_batch (rows_of (raw_batches raw)))"
    using rows(3) legacy_keyed(3) [OF leg] unfolding keys
    by (intro insert_select_ok) (auto simp: list_all_iff unscope_ok unscope_keys image_iff)
  have m: "insert_select m_key (\<lambda>m. meta_check m \<and> m_key m \<in> set (map s_key ?ss))
      (map (unscope_meta raw) (rows_of (raw_metas raw))) = Inr (map (unscope_meta raw) (rows_of (raw_metas raw)))"
    using rows(4) legacy_keyed(4) [OF leg] unfolding keys
    by (intro insert_select_ok) (auto simp: list_all_iff meta_ok_def unscope_keys image_iff)
  show ?thesis
    unfolding rebuild_scope_schema_def s bindE_simps e b m by (simp add: migrated_def Let_def)
qed

text \<open>What a current file looks like, and that opening it changes nothing.\<close>

definition current_schema :: "raw_db \<Rightarrow> bool" where
  "current_schema raw \<longleftrightarrow> raw_sessions raw \<noteq> None \<and> raw_events raw \<noteq> None \<and> raw_batches raw \<noteq> None \<and>
     (\<exists>t. raw_metas raw = Some t \<and> ''actor_private'' \<in> set (t_columns t)) \<and> \<not> needs_scope_rebuild raw"

lemma initialize_current:
  assumes "current_schema raw" and "s_key ` set (rows_of (raw_sessions raw)) \<subseteq> m_key ` set (rows_of (raw_metas raw))"
  shows "initialize raw = (Inr (), raw)"
proof -
  obtain s e b t where t: "raw_sessions raw = Some s" "raw_events raw = Some e" "raw_batches raw = Some b"
    "raw_metas raw = Some t" "''actor_private'' \<in> set (t_columns t)"
    using assms(1) by (auto simp: current_schema_def)
  then have "create_scoped_schema raw = raw" "ensure_actor_private_column raw = raw"
    by (simp_all add: create_scoped_schema_def create_if_missing_def ensure_actor_private_column_def)
  moreover have "bootstrap_metas (rows_of (raw_sessions raw)) (t_rows t) = t_rows t"
    using assms(2) t by (intro bootstrap_metas_complete) (simp add: rows_of_def)
  ultimately show ?thesis
    using assms(1) t by (simp add: initialize_def current_schema_def Let_def)
qed

section \<open>Properties\<close>

text \<open>
  C16. Upgrading loses nothing and grants nothing. Opening a file of the pre-organization schema succeeds;
  every session, event and batch is kept under the unknown organization, the result satisfies the
  invariant of the current store (so every theorem about it applies), sessions without metadata get a
  legacy row with no owner that is not private (the mutable writer is never promoted to product owner), and
  a second start changes nothing.
\<close>

theorem legacy_upgrade:
  assumes "legacy_ok raw"
  shows "\<exists>raw'. initialize raw = (Inr (), raw') \<and> pdb_of raw' = migrated raw \<and> pinv (pdb_of raw') \<and>
     current_schema raw' \<and> initialize raw' = (Inr (), raw') \<and>
     (\<forall>m \<in> set (rows_of (raw_metas raw')). m \<in> unscope_meta raw ` set (rows_of (raw_metas raw)) \<or>
        (m_owner m = None \<and> m_creator m = None \<and> m_owner_state m = ''unknown'' \<and> m_private m = 0))"
proof -
  let ?ss = "map unscope_session (rows_of (raw_sessions raw))"
  let ?ms = "map (unscope_meta raw) (rows_of (raw_metas raw))"
  let ?raw' = "\<lparr>raw_sessions = Some \<lparr>t_columns = sessions_columns, t_pk = scope_pk, t_rows = sessions (migrated raw)\<rparr>,
     raw_events = Some \<lparr>t_columns = events_columns, t_pk = events_pk, t_rows = session_events (migrated raw)\<rparr>,
     raw_batches = Some \<lparr>t_columns = batches_columns, t_pk = batches_pk, t_rows = session_batches (migrated raw)\<rparr>,
     raw_metas = Some \<lparr>t_columns = metas_columns, t_pk = scope_pk, t_rows = session_metas (migrated raw)\<rparr>\<rparr>"
  have run: "initialize raw = (Inr (), ?raw')"
    using assms rebuild_legacy [OF assms]
    by (simp add: initialize_def legacy_ok_def ensure_actor_private_column_def metas_columns_def Let_def
        migrated_def rows_of_def)
  have pdb: "pdb_of ?raw' = migrated raw" by (simp add: pdb_of_def rows_of_def)
  have inv: "pinv (migrated raw)" by (rule migrated_pinv [OF assms])
  have cur: "current_schema ?raw'"
    by (simp add: current_schema_def metas_columns_def needs_scope_rebuild_def table_outdated_def
        sessions_columns_def events_columns_def batches_columns_def)
  have again: "initialize ?raw' = (Inr (), ?raw')"
    by (rule initialize_current [OF cur]) (use pinvD(5) [OF inv] in \<open>simp add: rows_of_def\<close>)
  from bootstrap_metas_spec [of ?ss ?ms] obtain new where "session_metas (migrated raw) = ?ms @ map legacy_meta new"
    by (auto simp: migrated_def Let_def)
  then have metas: "\<forall>m \<in> set (rows_of (raw_metas ?raw')). m \<in> unscope_meta raw ` set (rows_of (raw_metas raw)) \<or>
        (m_owner m = None \<and> m_creator m = None \<and> m_owner_state m = ''unknown'' \<and> m_private m = 0)"
    by (auto simp: rows_of_def legacy_meta_def)
  show ?thesis using run pdb inv cur again metas by (intro exI [of _ ?raw']) simp
qed

definition demo_legacy :: raw_db where
  "demo_legacy = \<lparr>raw_sessions = Some \<lparr>t_columns = tl sessions_columns, t_pk = tl scope_pk, t_rows = [demo_row1]\<rparr>,
     raw_events = None, raw_batches = None, raw_metas = None\<rparr>"

theorem legacy_upgrade_witness:
  "\<exists>raw'. initialize demo_legacy = (Inr (), raw') \<and> pinv (pdb_of raw') \<and> sessions (pdb_of raw') = [unscope_session demo_row1]"
proof -
  have "session_ok demo_row1" using pinvD(6) [OF demo_reach1(2)] demo_create(2) by simp
  then have "legacy_ok demo_legacy"
    by (simp add: legacy_ok_def demo_legacy_def rows_of_def needs_scope_rebuild_def table_outdated_def
        sessions_columns_def demo_rows Let_def)
  from legacy_upgrade [OF this] show ?thesis
    by (auto simp: migrated_def demo_legacy_def rows_of_def Let_def)
qed

end
