(* ===== verification/Persist_Refine.thy ===== *)
theory Persist_Refine
  imports Persist_Demo
begin

text \<open>
  The contract of the persistence store: a family of journals, one per session, each with an append-only list of
  entries, an epoch, and at most one writer, named by the hash of its capability token. The store refines it:
  every successful call is the corresponding journal action and every failed call is none.
\<close>

section \<open>The specification\<close>

record journal =
  j_entries :: "string list"
  j_epoch :: int
  j_writer :: "string option"

type_synonym journals = "scope_key \<Rightarrow> journal option"

datatype action =
    NewSession scope_key string
  | Write scope_key string int "string list"
  | Grant scope_key string
  | Leave scope_key string int
  | Idle

text \<open>Only the writer of the current epoch appends or leaves; a grant or a departure moves the epoch by one.\<close>

definition holds_pen :: "journal \<Rightarrow> string \<Rightarrow> int \<Rightarrow> bool" where
  "holds_pen j token epoch \<longleftrightarrow> j_writer j = Some (token_hash token) \<and> j_epoch j = epoch"

inductive jstep :: "action \<Rightarrow> journals \<Rightarrow> journals \<Rightarrow> bool" where
  j_new: "a k = None \<Longrightarrow>
    jstep (NewSession k token) a (a(k \<mapsto> \<lparr>j_entries = [], j_epoch = 1, j_writer = Some (token_hash token)\<rparr>))"
| j_write: "a k = Some j \<Longrightarrow> holds_pen j token epoch \<Longrightarrow>
    jstep (Write k token epoch es) a (a(k \<mapsto> j\<lparr>j_entries := j_entries j @ es\<rparr>))"
| j_grant: "a k = Some j \<Longrightarrow>
    jstep (Grant k token) a (a(k \<mapsto> j\<lparr>j_epoch := j_epoch j + 1, j_writer := Some (token_hash token)\<rparr>))"
| j_leave: "a k = Some j \<Longrightarrow> holds_pen j token epoch \<Longrightarrow>
    jstep (Leave k token epoch) a (a(k \<mapsto> j\<lparr>j_epoch := j_epoch j + 1, j_writer := None\<rparr>))"
| j_idle: "jstep Idle a a"

section \<open>The abstraction\<close>

definition journal_of :: "pdb \<Rightarrow> journals" where
  "journal_of db k = map_option (\<lambda>row. \<lparr>j_entries = map e_json (log_of db k), j_epoch = s_epoch row,
     j_writer = s_token_hash row\<rparr>) (fetch_session db k)"

lemma journal_Some:
  "fetch_session db k = Some row \<Longrightarrow>
   journal_of db k = Some \<lparr>j_entries = map e_json (log_of db k), j_epoch = s_epoch row, j_writer = s_token_hash row\<rparr>"
  by (simp add: journal_of_def)

lemma fenced_pen:
  assumes "fenced_row t ws sid p tok epoch org db = Inr row"
  shows "fetch_session db (org, ws, sid) = Some row" and "s_token_hash row = Some (token_hash tok)" and "s_epoch row = epoch"
  using assms by (auto simp: fenced_row_Inr assert_writer_Inr)

lemma journal_edit:
  assumes "fetch_session db k = Some row" and "\<And>r. s_key (f r) = s_key r"
  shows "journal_of (db\<lparr>sessions := edit_by s_key k f (sessions db)\<rparr>) =
    (journal_of db)(k \<mapsto> \<lparr>j_entries = map e_json (log_of db k), j_epoch = s_epoch (f row), j_writer = s_token_hash (f row)\<rparr>)"
proof
  fix k'
  show "journal_of (db\<lparr>sessions := edit_by s_key k f (sessions db)\<rparr>) k' = ((journal_of db)
      (k \<mapsto> \<lparr>j_entries = map e_json (log_of db k), j_epoch = s_epoch (f row), j_writer = s_token_hash (f row)\<rparr>)) k'"
    using assms by (auto simp: journal_of_def fetch_session_def find_by_edit log_of_def option.map_comp comp_def)
qed

section \<open>Each call is its action\<close>

lemma create_refines:
  assumes "create_session lease_ms now token ws sid header inherited p client db = (Inr h, db')" and "pinv db"
  shows "\<exists>org. organization_key (organization_id p) = Inr org \<and>
    jstep (NewSession (org, ws, sid) token) (journal_of db) (journal_of db')"
  using assms(1)
proof (cases rule: create_session_Inr)
  case (1 org hd hj)
  let ?k = "(org, ws, sid)"
  have "?k \<notin> s_key ` set (sessions db)" using 1(5) by (auto simp: fetch_session_def find_by_None_iff)
  then have none: "log_of db ?k = []" unfolding log_of_def filter_empty_conv using pinvD(9) [OF assms(2)] by metis
  have "journal_of db' k = ((journal_of db)(?k \<mapsto> \<lparr>j_entries = [], j_epoch = 1, j_writer = Some (token_hash token)\<rparr>)) k" for k
    using none 1(5) unfolding 1(7)
    by (auto simp: journal_of_def fetch_session_def find_by_append find_by_Cons log_of_def new_session_row_def s_key_def
        split: option.splits)
  then have "journal_of db' = (journal_of db)(?k \<mapsto> \<lparr>j_entries = [], j_epoch = 1, j_writer = Some (token_hash token)\<rparr>)" by blast
  moreover have "journal_of db ?k = None" using 1(5) by (simp add: journal_of_def)
  ultimately show ?thesis using 1(1) j_new by metis
qed

lemma open_refines:
  assumes "open_handle lease_ms t1 t2 token ws sid access p client expected db = (Inr h, db')"
  shows "(access = ''read'' \<and> jstep Idle (journal_of db) (journal_of db')) \<or>
    (access = ''write'' \<and> (\<exists>org. organization_key (organization_id p) = Inr org \<and>
       jstep (Grant (org, ws, sid) token) (journal_of db) (journal_of db')))"
  using assms
proof (cases rule: open_handle_write_Inr)
  case Read
  then show ?thesis by (simp add: j_idle)
next
  case (Write org row)
  let ?k = "(org, ws, sid)"
  have "journal_of db' = (journal_of db)(?k \<mapsto> \<lparr>j_entries = map e_json (log_of db ?k), j_epoch = s_epoch row + 1,
      j_writer = Some (token_hash token)\<rparr>)"
    unfolding Write(6) by (subst journal_edit [OF Write(3)]) (simp_all add: s_key_def)
  with j_grant [of "journal_of db" ?k _ token, OF journal_Some [OF Write(3)]] Write(1,2) show ?thesis by auto
qed

text \<open>
  An append is told apart by the batch record: under a new batch id the journal takes the events, and under a
  committed one nothing happens and the answer is the recorded one.
\<close>

definition append_action :: "string \<Rightarrow> string \<Rightarrow> string \<Rightarrow> int \<Rightarrow> string \<Rightarrow> json list \<Rightarrow> string \<Rightarrow> int \<Rightarrow> pdb \<Rightarrow> pdb \<Rightarrow> bool" where
  "append_action ws sid token epoch batch evs org n db db' \<longleftrightarrow> (\<exists>ds digest. evs = map JDict ds \<and> events_digest ds = Inr digest \<and>
     (case find_by b_key ((org, ws, sid), epoch, batch) (session_batches db) of
        Some b \<Rightarrow> b_digest b = digest \<and> b_next_seq b = n \<and> jstep Idle (journal_of db) (journal_of db')
      | None \<Rightarrow> ds \<noteq> [] \<and> n = int (length (log_of db' (org, ws, sid))) \<and>
          jstep (Write (org, ws, sid) token epoch (map (\<lambda>d. the (json_text (JDict d))) ds)) (journal_of db) (journal_of db') \<and>
          find_by b_key ((org, ws, sid), epoch, batch) (session_batches db') =
            Some (new_batch_row (org, ws, sid) epoch batch digest (int (length ds)) n)))"

lemma append_refines:
  assumes "append_events t1 t2 ws sid p token epoch batch evs db = (Inr n, db')" and "pinv db"
  shows "\<exists>org. organization_key (organization_id p) = Inr org \<and> append_action ws sid token epoch batch evs org n db db'"
  using assms(1)
proof (cases rule: append_events_Inr)
  case (Replay org row ds digest b)
  with validate_event_shapes_JDict [OF Replay(3)] show ?thesis by (auto simp: append_action_def j_idle)
next
  case (Fresh org row ds digest)
  let ?k = "(org, ws, sid)" and ?es = "map (\<lambda>d. the (json_text (JDict d))) ds"
  note pen = fenced_pen [OF Fresh(2)]
  have es: "map e_json (batch_rows ?k m ds) = ?es" for m by (rule nth_equalityI) (simp_all add: batch_rows_def)
  have "journal_of db' k = ((journal_of db)(?k \<mapsto> \<lparr>j_entries = map e_json (log_of db ?k) @ ?es, j_epoch = s_epoch row,
      j_writer = s_token_hash row\<rparr>)) k" for k
    using pen(1) unfolding Fresh(10) journal_of_def log_of_after_append
    by (auto simp: after_append_def Let_def fetch_session_def find_by_edit s_key_def es option.map_comp comp_def)
  then have "journal_of db' = (journal_of db)(?k \<mapsto> \<lparr>j_entries = map e_json (log_of db ?k) @ ?es, j_epoch = s_epoch row,
      j_writer = s_token_hash row\<rparr>)" by blast
  moreover have "holds_pen \<lparr>j_entries = map e_json (log_of db ?k), j_epoch = s_epoch row, j_writer = s_token_hash row\<rparr> token epoch"
    using pen by (simp add: holds_pen_def)
  ultimately have wr: "jstep (Write ?k token epoch ?es) (journal_of db) (journal_of db')"
    using j_write [of "journal_of db" ?k, OF journal_Some [OF pen(1)]] by fastforce
  let ?b = "new_batch_row ?k epoch batch digest (int (length ds)) n"
  have "b_key ?b = (?k, epoch, batch)" by (simp add: b_key_def b_scope_def new_batch_row_def)
  then have batch: "find_by b_key (?k, epoch, batch) (session_batches db') = Some ?b"
    using find_by_snoc [of b_key ?b "session_batches db"] Fresh(5,9) unfolding Fresh(10)
    by (simp add: after_append_def Let_def)
  have "n = int (length (log_of db' ?k))"
    using length_log [OF assms(2) pen(1)] event_count_nonneg [OF assms(2) pen(1)] Fresh(9) unfolding Fresh(10)
    by (simp add: log_of_after_append batch_rows_def)
  with Fresh(1,4,5) wr batch validate_event_shapes_JDict [OF Fresh(3)] show ?thesis by (auto simp: append_action_def)
qed

lemma renew_refines:
  assumes "renew_or_confirm renew lease_ms t1 t2 t3 ws sid p token epoch db = (Inr nl, db')"
  shows "jstep Idle (journal_of db) (journal_of db')"
proof -
  obtain n l where nl: "nl = (n, l)" by (cases nl)
  from assms [unfolded nl] have "journal_of db' = journal_of db"
  proof (cases rule: renew_or_confirm_Inr)
    case (1 org row)
    note pen = fenced_pen [OF 1(2)]
    from journal_Some [OF pen(1)] show ?thesis
      unfolding 1(5) by (cases renew) (simp_all add: journal_edit [OF pen(1)] s_key_def fun_upd_idem)
  qed
  then show ?thesis by (simp add: j_idle)
qed

lemma release_refines:
  assumes "release t1 ws sid p token epoch db = (Inr n, db')"
  shows "\<exists>org. organization_key (organization_id p) = Inr org \<and> jstep (Leave (org, ws, sid) token epoch) (journal_of db) (journal_of db')"
  using assms
proof (cases rule: release_Inr)
  case (1 org row)
  let ?k = "(org, ws, sid)"
  note pen = fenced_pen [OF 1(2)]
  have "journal_of db' = (journal_of db)(?k \<mapsto> \<lparr>j_entries = map e_json (log_of db ?k), j_epoch = s_epoch row + 1, j_writer = None\<rparr>)"
    unfolding 1(4) by (subst journal_edit [OF pen(1)]) (simp_all add: s_key_def)
  moreover have "holds_pen \<lparr>j_entries = map e_json (log_of db ?k), j_epoch = s_epoch row, j_writer = s_token_hash row\<rparr> token epoch"
    using pen by (simp add: holds_pen_def)
  ultimately show ?thesis using 1(1) j_leave [of "journal_of db" ?k, OF journal_Some [OF pen(1)]] by fastforce
qed

text \<open>
  C37. The store refines its contract, a family of single-writer append-only journals: in every reachable state a
  successful creation, write grant or release is the corresponding journal action on exactly one session. A successful
  append under a new batch id is the write of exactly the given events, the answer is the new length of the journal and
  the batch is on record; under a committed batch id it changes nothing and repeats the recorded answer. Appends
  and releases come only from the token and epoch that hold the pen; reads, renewals and confirmations change no
  journal, and neither does any call that fails.
\<close>

theorem store_refines_journal:
  assumes "pstep\<^sup>*\<^sup>* empty_pdb db"
  shows "(create_session lease_ms now token ws sid header inherited p client db = (rc, db1) \<longrightarrow>
      (case rc of Inl e \<Rightarrow> journal_of db1 = journal_of db
       | Inr h \<Rightarrow> \<exists>org. organization_key (organization_id p) = Inr org \<and>
           jstep (NewSession (org, ws, sid) token) (journal_of db) (journal_of db1))) \<and>
    (open_handle lease_ms t1 t2 token ws sid access p client expected db = (ro, db2) \<longrightarrow>
      (case ro of Inl e \<Rightarrow> journal_of db2 = journal_of db
       | Inr h \<Rightarrow> (access = ''read'' \<and> jstep Idle (journal_of db) (journal_of db2)) \<or>
           (access = ''write'' \<and> (\<exists>org. organization_key (organization_id p) = Inr org \<and>
             jstep (Grant (org, ws, sid) token) (journal_of db) (journal_of db2))))) \<and>
    (append_events t1 t2 ws sid p token epoch batch evs db = (ra, db3) \<longrightarrow>
      (case ra of Inl e \<Rightarrow> journal_of db3 = journal_of db
       | Inr n \<Rightarrow> \<exists>org. organization_key (organization_id p) = Inr org \<and>
           append_action ws sid token epoch batch evs org n db db3)) \<and>
    (heartbeat lease_ms t1 t2 t3 ws sid p token epoch db = (rh, db4) \<longrightarrow> journal_of db4 = journal_of db) \<and>
    (flush lease_ms t1 t2 t3 ws sid p token epoch db = (rf, db5) \<longrightarrow> journal_of db5 = journal_of db) \<and>
    (release t1 ws sid p token epoch db = (rr, db6) \<longrightarrow>
      (case rr of Inl e \<Rightarrow> journal_of db6 = journal_of db
       | Inr n \<Rightarrow> \<exists>org. organization_key (organization_id p) = Inr org \<and>
           jstep (Leave (org, ws, sid) token epoch) (journal_of db) (journal_of db6)))"
proof -
  have inv: "pinv db" by (rule persist.inv_steps [OF assms pinv_empty])
  have idle: "jstep Idle a b \<Longrightarrow> b = a" for a b by (erule jstep.cases) auto
  have renew: "renew_or_confirm r lease_ms t1 t2 t3 ws sid p token epoch db = (x, d) \<Longrightarrow> journal_of d = journal_of db" for r x d
    by (cases x) (auto dest: failed_same idle [OF renew_refines])
  show ?thesis
    unfolding heartbeat_def flush_def
    by (intro conjI impI)
      (auto split: sum.split dest: failed_same renew create_refines [OF _ inv] open_refines append_refines [OF _ inv] release_refines)
qed

theorem store_refines_journal_witness:
  "jstep (NewSession demo_key ''tok1'') (\<lambda>k. None) (journal_of demo_db1) \<and>
   jstep (Write demo_key ''tok1'' 1 [the (json_text (JDict demo_event))]) (journal_of demo_db1) (journal_of demo_db2)"
proof -
  obtain h where run: "create_session 60000 1000 ''tok1'' ''w'' ''s'' demo_header 0 demo_p ''c1'' empty_pdb = (Inr h, demo_db1)"
    using demo_create(1) by blast
  have "journal_of empty_pdb = (\<lambda>k. None)" by (rule ext) (simp add: journal_of_def fetch_session_def empty_pdb_def)
  moreover from store_refines_journal [OF rtranclp.rtrancl_refl] run
  have "\<exists>org. organization_key (organization_id demo_p) = Inr org \<and>
      jstep (NewSession (org, ''w'', ''s'') ''tok1'') (journal_of empty_pdb) (journal_of demo_db1)" by fastforce
  moreover from store_refines_journal [OF demo_reach1(1)] demo_append(1)
  have "\<exists>org. organization_key (organization_id demo_p) = Inr org \<and>
      append_action ''w'' ''s'' ''tok1'' 1 ''b1'' [JDict demo_event] org 1 demo_db1 demo_db2" by fastforce
  ultimately show ?thesis by (auto simp: demo_args demo_key_def append_action_def demo_create)
qed

end
