(* ===== verification/Work_Base.thy ===== *)
theory Work_Base
  imports Tables Json_Roundtrip
begin

text \<open>
  The data model and the validators of the Work store (\<open>work/store.py\<close>): the scoped tables the task,
  gate, operation and outbox components share, the checks on identifiers, texts, JSON objects and
  execution metadata, and the route descriptor of a task result. Request bodies are JSON objects as the
  code receives them; scopes and actor ids are text.
\<close>

section \<open>Failures (\<open>_invalid\<close>, \<open>_conflict\<close>, \<open>_not_found\<close>)\<close>

abbreviation invalid :: "string \<Rightarrow> 'a res" where "invalid code \<equiv> raise code 422"
abbreviation conflict :: "string \<Rightarrow> 'a res" where "conflict code \<equiv> raise code 409"
abbreviation not_found :: "string \<Rightarrow> 'a res" where "not_found code \<equiv> raise code 404"

section \<open>Tables\<close>

type_synonym task_key = "string \<times> string \<times> string"

record task_row =
  tk_org :: string
  tk_ws :: string
  tk_id :: string
  tk_session :: string
  tk_prompt :: string
  tk_status :: string
  tk_created_at :: int
  tk_started_at :: "int option"
  tk_ended_at :: "int option"
  tk_output :: string
  tk_reasoning :: string
  tk_error :: "string option"
  tk_duration :: int
  tk_sequence :: int
  tk_title :: "string option"
  tk_description :: "string option"
  tk_metadata :: string
  tk_digest :: string
  tk_creator :: string
  tk_cont_of :: "string option"
  tk_cont_mode :: "string option"
  tk_class :: string

record task_event_row =
  te_org :: string
  te_ws :: string
  te_task :: string
  te_seq :: int
  te_json :: string
  te_digest :: string
  te_created_at :: int
  te_message :: "string option"

record owner_row =
  po_org :: string
  po_ws :: string
  po_task :: string
  po_actor :: string
  po_created_at :: int

record origin_row =
  to_org :: string
  to_ws :: string
  to_task :: string
  to_actor :: string
  to_issuer :: string
  to_subject :: string
  to_tenant :: string
  to_connector :: string
  to_thread :: string
  to_message :: string
  to_kind :: string
  to_bot :: "string option"
  to_created_at :: int

record approval_row =
  ap_org :: string
  ap_ws :: string
  ap_id :: string
  ap_task :: string
  ap_kind :: string
  ap_summary :: string
  ap_details :: string
  ap_status :: string
  ap_created_at :: int
  ap_resolved_at :: "int option"
  ap_resolved_by :: "string option"
  ap_message :: "string option"
  ap_create_message :: "string option"
  ap_create_digest :: string
  ap_resolution_digest :: "string option"

record input_row =
  in_org :: string
  in_ws :: string
  in_id :: string
  in_task :: string
  in_summary :: string
  in_details :: string
  in_status :: string
  in_created_at :: int
  in_answered_at :: "int option"
  in_answered_by :: "string option"
  in_answer :: "string option"
  in_create_message :: "string option"
  in_answer_message :: "string option"
  in_create_digest :: string
  in_answer_digest :: "string option"

record operation_row =
  op_org :: string
  op_ws :: string
  op_id :: string
  op_key :: string
  op_type :: string
  op_task :: "string option"
  op_target :: "string option"
  op_scope_lock :: "string option"
  op_producer :: "string option"
  op_request :: string
  op_status :: string
  op_evidence :: string
  op_digest :: string
  op_created_at :: int
  op_updated_at :: int

record note_row =
  nt_org :: string
  nt_ws :: string
  nt_id :: string
  nt_dedup :: string
  nt_type :: string
  nt_payload :: string
  nt_connector :: "string option"
  nt_recipient :: "string option"
  nt_status :: string
  nt_task :: "string option"
  nt_available_at :: int
  nt_created_at :: int
  nt_updated_at :: int
  nt_worker :: "string option"
  nt_token_hash :: "string option"
  nt_lease :: "int option"
  nt_started_at :: "int option"
  nt_result :: string
  nt_digest :: string
  nt_owner :: "string option"
  nt_private_task :: "string option"
  nt_private_tenant :: "string option"
  nt_private_aad :: "string option"
  nt_private_bot :: "string option"

record backend_row =
  bs_org :: string
  bs_ws :: string
  bs_actor :: string
  bs_session :: string
  bs_backend :: string
  bs_native :: string
  bs_created_at :: int

record connector_event_row =
  ce_org :: string
  ce_ws :: string
  ce_type :: string
  ce_sender :: "string option"
  ce_payload :: string
  ce_task :: "string option"
  ce_origin_actor :: "string option"

record actor_thread_row =
  at_org :: string
  at_ws :: string
  at_subject :: string
  at_session :: "string option"

record installation_row =
  pi_org :: string
  pi_ws :: string
  pi_tenant :: string
  pi_actor :: string
  pi_bot :: string
  pi_conversation :: string
  pi_service_url :: string
  pi_active :: int

text \<open>
  \<open>w_backend\<close> is \<open>work_backend_sessions\<close>, whose key has no actor (\<open>bs_actor\<close> is empty there), and
  \<open>w_actor_backend\<close> is \<open>work_backend_actor_sessions\<close>. The last three tables are written by the connector
  intake and the installation routes.
\<close>

record wdb =
  w_tasks :: "task_row list"
  w_events :: "task_event_row list"
  w_owners :: "owner_row list"
  w_origins :: "origin_row list"
  w_approvals :: "approval_row list"
  w_inputs :: "input_row list"
  w_operations :: "operation_row list"
  w_notes :: "note_row list"
  w_backend :: "backend_row list"
  w_actor_backend :: "backend_row list"
  w_connector_events :: "connector_event_row list"
  w_actor_threads :: "actor_thread_row list"
  w_installations :: "installation_row list"

definition tk_key :: "task_row \<Rightarrow> task_key" where
  "tk_key r = (tk_org r, tk_ws r, tk_id r)"

definition te_scope :: "task_event_row \<Rightarrow> task_key" where
  "te_scope r = (te_org r, te_ws r, te_task r)"

definition po_key :: "owner_row \<Rightarrow> task_key" where
  "po_key r = (po_org r, po_ws r, po_task r)"

definition to_key :: "origin_row \<Rightarrow> task_key" where
  "to_key r = (to_org r, to_ws r, to_task r)"

definition ap_key :: "approval_row \<Rightarrow> task_key" where
  "ap_key r = (ap_org r, ap_ws r, ap_id r)"

definition in_key :: "input_row \<Rightarrow> task_key" where
  "in_key r = (in_org r, in_ws r, in_id r)"

definition op_ident :: "operation_row \<Rightarrow> task_key" where
  "op_ident r = (op_org r, op_ws r, op_id r)"

definition nt_key :: "note_row \<Rightarrow> task_key" where
  "nt_key r = (nt_org r, nt_ws r, nt_id r)"

definition bs_key :: "backend_row \<Rightarrow> string \<times> string \<times> string \<times> string \<times> string" where
  "bs_key r = (bs_org r, bs_ws r, bs_actor r, bs_session r, bs_backend r)"

definition pi_key :: "installation_row \<Rightarrow> string \<times> string \<times> string \<times> string \<times> string" where
  "pi_key r = (pi_org r, pi_ws r, pi_tenant r, pi_actor r, pi_bot r)"

interpretation task_tbl: table tk_key "find_by tk_key" "insert_by tk_key" "edit_by tk_key" "keyed tk_key"
  by (rule list_table)

interpretation owner_tbl: table po_key "find_by po_key" "insert_by po_key" "edit_by po_key" "keyed po_key"
  by (rule list_table)

interpretation backend_tbl: table bs_key "find_by bs_key" "insert_by bs_key" "edit_by bs_key" "keyed bs_key"
  by (rule list_table)

text \<open>An \<open>INSERT\<close> into a table with several uniqueness constraints.\<close>

definition insert_with :: "('r \<Rightarrow> 'r \<Rightarrow> bool) \<Rightarrow> 'r \<Rightarrow> 'r list \<Rightarrow> 'r list res" where
  "insert_with clash r t = (if list_ex (clash r) t then Inl IntegrityError else Inr (t @ [r]))"

lemma insert_with_Inr [resE]:
  "insert_with clash r t = Inr t' \<longleftrightarrow> (\<forall>r' \<in> set t. \<not> clash r r') \<and> t' = t @ [r]"
  by (auto simp: insert_with_def list_ex_iff)

section \<open>Constants\<close>

definition terminal_task_states :: "string set" where
  "terminal_task_states = set [''completed'', ''failed'', ''aborted'']"

definition task_transitions :: "string \<Rightarrow> string set option" where
  "task_transitions status = map_of
    [(''queued'', set [''running'', ''failed'', ''aborted'', ''waiting_approval'', ''waiting_input'']),
     (''running'', set [''completed'', ''failed'', ''aborted'', ''waiting_approval'', ''waiting_input'',
        ''awaiting_user_authorization'']),
     (''waiting_approval'', set [''running'', ''failed'', ''aborted'']),
     (''waiting_input'', set [''running'', ''failed'', ''aborted'']),
     (''awaiting_user_authorization'', set [''aborted'']),
     (''completed'', set []), (''failed'', set []), (''aborted'', set [])] status"

definition native_session_backends :: "string list" where
  "native_session_backends = [''codebuddy-acp'', ''antigravity-acp'']"

definition trusted_operation_producers :: "string list" where
  "trusted_operation_producers = [''exchange-connector-dispatch'', ''conversation-research-runtime'',
     ''notification-outbox'']"

definition MAX_JSON_BYTES :: int where
  "MAX_JSON_BYTES = 2000000"

section \<open>Identifiers, texts and JSON\<close>

definition work_identifier :: "string \<Rightarrow> string res" where
  "work_identifier s =
    (if py_strip s = [] \<or> length s > 512 then invalid ''WORK_INVALID_IDENTIFIER''
     else if list_ex is_ctrl s then invalid ''WORK_INVALID_IDENTIFIER'' else Inr s)"

definition work_identifier_of :: "json \<Rightarrow> string res" where
  "work_identifier_of v = (case v of JStr s \<Rightarrow> work_identifier s | _ \<Rightarrow> invalid ''WORK_INVALID_IDENTIFIER'')"

definition work_scope :: "string option \<Rightarrow> string \<Rightarrow> (string \<times> string) res" where
  "work_scope org ws =
    bindE (case org of None \<Rightarrow> Inr [] | Some o' \<Rightarrow> work_identifier o') (\<lambda>o'.
    bindE (work_identifier ws) (\<lambda>w. Inr (o', w)))"

text \<open>\<open>_identifier(actor_id).lower() if actor_id is not None else None\<close>.\<close>

definition actor_of :: "string option \<Rightarrow> string option res" where
  "actor_of a = (case a of None \<Rightarrow> Inr None | Some s \<Rightarrow> bindE (work_identifier s) (\<lambda>s. Inr (Some (py_lower s))))"

definition bounded_text :: "json \<Rightarrow> nat \<Rightarrow> bool \<Rightarrow> string res" where
  "bounded_text v maximum allow_empty = (case v of
     JStr s \<Rightarrow>
       if (\<not> allow_empty \<and> py_strip s = []) \<or> length s > maximum then invalid ''WORK_INVALID_TEXT''
       else if CHR 0x00 \<in> set s then invalid ''WORK_INVALID_TEXT'' else Inr s
   | _ \<Rightarrow> invalid ''WORK_INVALID_TEXT'')"

definition optional_text :: "json \<Rightarrow> nat \<Rightarrow> string option res" where
  "optional_text v maximum = (case v of
     JNull \<Rightarrow> Inr None
   | JStr s \<Rightarrow> if length s > maximum \<or> CHR 0x00 \<in> set s then invalid ''WORK_INVALID_TEXT'' else Inr (Some s)
   | _ \<Rightarrow> invalid ''WORK_INVALID_TEXT'')"

definition nonnegative_integer :: "json \<Rightarrow> int res" where
  "nonnegative_integer v = (case v of
     JInt i \<Rightarrow> if i < 0 \<or> i > 2 ^ 53 - 1 then invalid ''WORK_INVALID_INTEGER'' else Inr i
   | _ \<Rightarrow> invalid ''WORK_INVALID_INTEGER'')"

definition work_json_text :: "json \<Rightarrow> string res" where
  "work_json_text v = (case json_text v of None \<Rightarrow> invalid ''WORK_INVALID_JSON'' | Some t \<Rightarrow> Inr t)"

definition work_json_object :: "json \<Rightarrow> json_object res" where
  "work_json_object v = (case v of
     JDict d \<Rightarrow> bindE (work_json_text v) (\<lambda>t.
       if int (length (utf8 t)) > MAX_JSON_BYTES then invalid ''WORK_JSON_TOO_LARGE'' else Inr d)
   | _ \<Rightarrow> invalid ''WORK_INVALID_JSON'')"

definition stored_object :: "string \<Rightarrow> json_object res" where
  "stored_object t = (case json_loads t of
     Some (JDict d) \<Rightarrow> Inr d
   | _ \<Rightarrow> raise ''WORK_STORAGE_CORRUPT'' 500)"

definition work_digest :: "json \<Rightarrow> string res" where
  "work_digest v = bindE (work_json_text v) (\<lambda>t. Inr (sha256_hex t))"

text \<open>\<open>d.get(k, default)\<close> and the truth value of a JSON value.\<close>

definition dget_or :: "json_object \<Rightarrow> string \<Rightarrow> json \<Rightarrow> json" where
  "dget_or d k v = (if dhas d k then dget d k else v)"

definition float_zero :: "string \<Rightarrow> bool" where
  "float_zero s = list_all (\<lambda>c. c = CHR ''0'' \<or> c = CHR ''.'' \<or> c = CHR ''-'')
     (takeWhile (\<lambda>c. c \<noteq> CHR ''e'' \<and> c \<noteq> CHR ''E'') s)"

definition jtruthy :: "json \<Rightarrow> bool" where
  "jtruthy v = (case v of
     JNull \<Rightarrow> False | JBool b \<Rightarrow> b | JInt i \<Rightarrow> i \<noteq> 0
   | JFloat f \<Rightarrow> (case f of Fin s \<Rightarrow> \<not> float_zero s | _ \<Rightarrow> True)
   | JStr s \<Rightarrow> s \<noteq> [] | JList l \<Rightarrow> l \<noteq> [] | JDict d \<Rightarrow> d \<noteq> [])"

definition keys_are :: "json_object \<Rightarrow> string list \<Rightarrow> bool" where
  "keys_are d ks \<longleftrightarrow> set (map fst d) = set ks"

text \<open>
  Python's \<open>==\<close> on decoded JSON: the order of keys does not matter, and a boolean, an integer and a float
  with an integral literal compare by value.
\<close>

definition jnum :: "json \<Rightarrow> string option" where
  "jnum v = (case v of
     JBool b \<Rightarrow> Some (if b then ''1'' else ''0'')
   | JInt i \<Rightarrow> Some (show_int i)
   | JFloat (Fin s) \<Rightarrow>
       (let t = (if ends_with ''.0'' s then take (length s - 2) s else s) in Some (if t = ''-0'' then ''0'' else t))
   | _ \<Rightarrow> None)"

fun py_eq_c :: "json \<Rightarrow> json \<Rightarrow> bool"
  and py_eq_list :: "json list \<Rightarrow> json list \<Rightarrow> bool"
  and py_eq_items :: "(string \<times> json) list \<Rightarrow> (string \<times> json) list \<Rightarrow> bool" where
  "py_eq_c (JList a) v = (case v of JList b \<Rightarrow> py_eq_list a b | _ \<Rightarrow> False)"
| "py_eq_c (JDict a) v = (case v of JDict b \<Rightarrow> py_eq_items a b | _ \<Rightarrow> False)"
| "py_eq_c JNull v = (v = JNull)"
| "py_eq_c (JStr s) v = (v = JStr s)"
| "py_eq_c (JBool b) v = (jnum v = jnum (JBool b))"
| "py_eq_c (JInt i) v = (jnum v = jnum (JInt i))"
| "py_eq_c (JFloat f) v = (case f of Fin s \<Rightarrow> jnum v = jnum (JFloat f) | NaN \<Rightarrow> False | _ \<Rightarrow> v = JFloat f)"
| "py_eq_list [] l = (l = [])"
| "py_eq_list (a # as) l = (case l of [] \<Rightarrow> False | b # bs \<Rightarrow> py_eq_c a b \<and> py_eq_list as bs)"
| "py_eq_items [] l = (l = [])"
| "py_eq_items ((k, a) # as) l = (case l of [] \<Rightarrow> False | (k', b) # bs \<Rightarrow> k = k' \<and> py_eq_c a b \<and> py_eq_items as bs)"

definition py_eq :: "json \<Rightarrow> json \<Rightarrow> bool" where
  "py_eq a b = py_eq_c (canon a) (canon b)"

section \<open>Facts about the validators\<close>

lemma work_identifier_Inr [resE]:
  "work_identifier s = Inr t \<longleftrightarrow> t = s \<and> py_strip s \<noteq> [] \<and> length s \<le> 512 \<and> \<not> list_ex is_ctrl s"
  by (auto simp: work_identifier_def)

lemma work_identifier_of_Inr [resE]: "work_identifier_of v = Inr t \<longleftrightarrow> v = JStr t \<and> work_identifier t = Inr t"
  by (auto simp: work_identifier_of_def work_identifier_Inr split: json.splits)

lemma work_scope_Inr:
  "work_scope org ws = Inr (o', w) \<longleftrightarrow> w = ws \<and> work_identifier ws = Inr ws \<and>
     (case org of None \<Rightarrow> o' = [] | Some x \<Rightarrow> o' = x \<and> work_identifier x = Inr x)"
  by (auto simp: work_scope_def resE split: option.splits)

lemma work_json_text_Inr [resE]: "work_json_text v = Inr t \<longleftrightarrow> json_text v = Some t"
  by (auto simp: work_json_text_def split: option.splits)

lemma work_json_object_Inr:
  "work_json_object v = Inr d \<Longrightarrow> v = JDict d \<and> jok v \<and> (\<exists>t. json_text v = Some t)"
  by (auto simp: work_json_object_def resE json_text_def split: json.splits if_splits)

lemma stored_object_Inr: "stored_object t = Inr d \<longleftrightarrow> json_loads t = Some (JDict d)"
  by (auto simp: stored_object_def split: option.splits json.splits)

lemma stored_object_text:
  assumes "work_json_text (JDict d) = Inr t" and "jwf (JDict d)"
  shows "stored_object t = Inr (sort_key fst (canon_items d))"
  using loads_json_text [OF assms(2)] assms(1) by (simp add: resE stored_object_Inr)

end
