(* ===== verification/Work_Meta.thy ===== *)
theory Work_Meta
  imports Work_Base
begin

text \<open>
  What a task's metadata may say: the reply route of its result (\<open>_task_notification_descriptor\<close>, with the
  Bot Framework service URL check), the provenance a background task must carry
  (\<open>_validate_task_execution_metadata\<close>), the credential filter on human input (\<open>_human_input_object\<close>), and
  the bounded text of a terminal result (\<open>_task_result_text\<close>).
\<close>

section \<open>The Bot Framework service URL\<close>

definition is_lower_hex :: "char \<Rightarrow> bool" where
  "is_lower_hex c \<longleftrightarrow> c \<in> set ''0123456789abcdef''"

text \<open>The shape \<open>8-4-4-4-12\<close> over a class of characters.\<close>

definition uuid_shape :: "(char \<Rightarrow> bool) \<Rightarrow> string \<Rightarrow> bool" where
  "uuid_shape ok s \<longleftrightarrow> length s = 36 \<and>
     list_all (\<lambda>(i, c). if i \<in> {8, 13, 18, 23} then c = CHR ''-'' else ok c) (zip [0..<36] s)"

definition is_uuid_text :: "string \<Rightarrow> bool" where
  "is_uuid_text s \<longleftrightarrow> uuid_shape (\<lambda>c. c \<in> set ''0123456789abcdefABCDEF'') s"

definition canonical_uuid :: "json \<Rightarrow> string res" where
  "canonical_uuid v = (case v of
     JStr s \<Rightarrow> if is_uuid_text s then Inr (py_lower s) else invalid ''WORK_INVALID_IDENTIFIER''
   | _ \<Rightarrow> invalid ''WORK_INVALID_IDENTIFIER'')"

text \<open>
  \<open>str(UUID(segment)) == tenant\<close> on a segment of letters, digits and hyphens: the constructor drops the
  hyphens and reads 32 digits in base 16, where a leading \<open>0x\<close> is a radix prefix.
\<close>

definition teams_service_tenant_matches :: "string \<Rightarrow> string \<Rightarrow> bool" where
  "teams_service_tenant_matches segment tenant =
    (let h = py_lower (filter (\<lambda>c. c \<noteq> CHR ''-'') segment);
         digits = (if starts_with ''0x'' h then ''00'' @ drop 2 h else h)
     in length h = 32 \<and> list_all is_lower_hex digits \<and> digits = filter (\<lambda>c. c \<noteq> CHR ''-'') tenant)"

fun split_on :: "char \<Rightarrow> string \<Rightarrow> string list" where
  "split_on d [] = [[]]"
| "split_on d (c # s) = (if c = d then [] # split_on d s
     else (case split_on d s of [] \<Rightarrow> [[c]] | w # ws \<Rightarrow> (c # w) # ws))"

definition remove_suffix :: "string \<Rightarrow> string \<Rightarrow> string" where
  "remove_suffix suf s = (if ends_with suf s then take (length s - length suf) s else s)"

definition is_segment :: "string \<Rightarrow> bool" where
  "is_segment s \<longleftrightarrow> 1 \<le> length s \<and> length s \<le> 128 \<and>
     list_all (\<lambda>c. c = CHR ''-'' \<or> is_digit c \<or> (let n = (of_char c :: int) in (65 \<le> n \<and> n \<le> 90) \<or> (97 \<le> n \<and> n \<le> 122))) s"

definition teams_regions :: "string list" where
  "teams_regions = [''amer'', ''in'', ''emea'', ''apac'']"

definition teams_service_url :: "json \<Rightarrow> string \<Rightarrow> string res" where
  "teams_service_url value tenant =
    (let bad = invalid ''WORK_CONNECTOR_INVALID_TEAMS_THREAD'' in
     if value = JStr [] then Inr []
     else if \<not> uuid_shape is_lower_hex tenant then bad
     else case value of
       JStr v \<Rightarrow>
         if length v > 512 \<or> py_strip v \<noteq> v
            \<or> list_ex (\<lambda>c. py_space c \<or> is_ctrl c \<or> c = CHR ''%'' \<or> c = CHR 0x5C) v then bad
         else
           (let rest = drop 8 v;
                authority = takeWhile (\<lambda>c. c \<notin> set ''/?#'') rest;
                path = drop (length authority) rest
            in if \<not> starts_with ''https://'' v \<or> authority = [] \<or> \<not> starts_with ''/'' path
                  \<or> list_ex (\<lambda>c. c \<in> set ''?#'') path then bad
               else
                 (let host = remove_suffix '':443'' (py_lower authority);
                      channel_path = (path = ''/teams'' \<or> path = ''/teams/'');
                      segments0 = tl (split_on (CHR ''/'') path);
                      segments = (if segments0 \<noteq> [] \<and> last segments0 = [] then butlast segments0 else segments0)
                  in if host \<notin> set [''smba.trafficmanager.net'', ''smba.infra.teams.microsoft.com''] then bad
                     else if host = ''smba.infra.teams.microsoft.com'' then (if channel_path then Inr v else bad)
                     else if channel_path then Inr v
                     else if list_ex (\<lambda>s. \<not> is_segment s) segments then bad
                     else (case segments of
                         [r] \<Rightarrow> if r \<in> set teams_regions then Inr v else bad
                       | [r, t] \<Rightarrow> if r \<in> set teams_regions \<and> teams_service_tenant_matches t tenant
                                   then Inr v else bad
                       | _ \<Rightarrow> bad)))
     | _ \<Rightarrow> bad)"

section \<open>The reply route of a task\<close>

record descriptor =
  ds_type :: string
  ds_connector :: string
  ds_recipient :: string
  ds_payload :: json_object

definition wecom_fields :: "string list" where
  "wecom_fields = [''accountId'', ''chatType'', ''conversationId'', ''senderId'']"

definition teams_fields :: "string list" where
  "teams_fields = [''channelId'', ''conversationId'', ''rootThreadId'', ''teamId'', ''tenantId'']"

text \<open>\<open>str(payload.get("tenantId", "")).lower()\<close>; only text can pass the tenant check that follows.\<close>

definition tenant_text :: "json_object \<Rightarrow> string" where
  "tenant_text payload = (case dget_or payload ''tenantId'' (JStr []) of JStr s \<Rightarrow> py_lower s | _ \<Rightarrow> [])"

definition route_of :: "json_object \<Rightarrow> string list \<Rightarrow> json_object res" where
  "route_of payload expected =
    mapE (\<lambda>f. bindE (bounded_text (dget payload f) 512 False) (\<lambda>s. Inr (f, JStr s))) (sort expected)"

definition task_notification_descriptor :: "json_object \<Rightarrow> descriptor option res" where
  "task_notification_descriptor metadata =
    (let bad = invalid ''WORK_TASK_INVALID_NOTIFICATION'' in
     case dget metadata ''notification'' of
       JNull \<Rightarrow> Inr None
     | JDict v \<Rightarrow>
         if \<not> keys_are v [''type'', ''connectorId'', ''recipient'', ''payload''] then bad
         else
           bindE (bounded_text (dget v ''type'') 128 False) (\<lambda>ntype.
           bindE (work_identifier_of (dget v ''connectorId'')) (\<lambda>connector.
           bindE (bounded_text (dget v ''recipient'') 2000 False) (\<lambda>recipient.
           bindE (work_json_object (dget v ''payload'')) (\<lambda>payload.
           bindE (if ntype = ''wecom.message'' then Inr (wecom_fields, payload)
                  else if ntype = ''teams.message'' then
                    (if keys_are payload (''serviceUrl'' # teams_fields)
                     then bindE (teams_service_url (dget payload ''serviceUrl'') (tenant_text payload)) (\<lambda>u.
                            Inr (''serviceUrl'' # teams_fields, dset payload ''serviceUrl'' (JStr u)))
                     else Inr (teams_fields, payload))
                  else invalid ''WORK_TASK_INVALID_NOTIFICATION'') (\<lambda>(expected, payload).
             if \<not> keys_are payload expected then bad
             else bindE (route_of payload expected) (\<lambda>route.
               Inr (Some \<lparr>ds_type = ntype, ds_connector = connector, ds_recipient = recipient,
                          ds_payload = route\<rparr>)))))))
     | _ \<Rightarrow> bad)"

section \<open>Background provenance\<close>

definition maintenance_fields :: "string list" where
  "maintenance_fields = [''source'', ''maintenanceJobId'', ''kind'', ''workspaceId'', ''actorId'',
     ''idempotencyKey'', ''jobVersion'']"

definition maintenance_kinds :: "string list" where
  "maintenance_kinds = [''dream'', ''forget'', ''daily_review'', ''backup'', ''import'']"

definition hashable :: "json \<Rightarrow> bool" where
  "hashable v = (case v of JList _ \<Rightarrow> False | JDict _ \<Rightarrow> False | _ \<Rightarrow> True)"

definition validate_maintenance :: "json_object \<Rightarrow> string \<Rightarrow> string \<Rightarrow> unit res" where
  "validate_maintenance m actor ws =
    (let bad = invalid ''WORK_TASK_BACKGROUND_PROVENANCE_REQUIRED'' in
     if \<not> keys_are m maintenance_fields then bad
     else
       bindE (work_identifier_of (dget m ''maintenanceJobId'')) (\<lambda>_.
       bindE (work_identifier_of (dget m ''idempotencyKey'')) (\<lambda>_.
       bindE (nonnegative_integer (dget m ''jobVersion'')) (\<lambda>v.
         if v < 1 then bad
         else if \<not> hashable (dget m ''kind'') then Inl TypeError
         else if dget m ''kind'' \<notin> JStr ` set maintenance_kinds then bad
         else if dget m ''actorId'' \<noteq> JStr actor \<or> dget m ''workspaceId'' \<noteq> JStr ws
           then raise ''WORK_TASK_ACTOR_SCOPE_MISMATCH'' 403
         else Inr ()))))"

definition validate_authorization :: "json \<Rightarrow> unit res" where
  "validate_authorization v =
    (let bad = invalid ''WORK_TASK_BACKGROUND_AUTHORIZATION_REQUIRED'' in
     case v of
       JDict a \<Rightarrow>
         bindE (if dget a ''kind'' = JStr ''teams_thread'' \<and> keys_are a [''kind'', ''threadBindingId'', ''ownerTaskId'']
                then bindE (work_identifier_of (dget a ''threadBindingId'')) (\<lambda>_. Inr ())
                else if dget a ''kind'' = JStr ''owner_private'' \<and> keys_are a [''kind'', ''ownerTaskId'']
                then Inr ()
                else bad) (\<lambda>_.
         bindE (work_identifier_of (dget a ''ownerTaskId'')) (\<lambda>_. Inr ()))
     | _ \<Rightarrow> bad)"

definition validate_workflow_provenance :: "json_object \<Rightarrow> unit res" where
  "validate_workflow_provenance m =
    (if dget m ''source'' \<noteq> JStr ''workflow'' then invalid ''WORK_TASK_BACKGROUND_PROVENANCE_REQUIRED''
     else
       bindE (work_identifier_of (dget m ''workflowId'')) (\<lambda>_.
       bindE (work_identifier_of (dget m ''triggerId'')) (\<lambda>_.
       bindE (work_identifier_of (dget m ''occurrenceId'')) (\<lambda>_.
       bindE (validate_authorization (dget m ''authorizationRef'')) (\<lambda>_.
         if dget m ''actionId'' \<noteq> JNull then
           bindE (work_identifier_of (dget m ''actionId'')) (\<lambda>_.
           bindE (work_identifier_of (dget m ''actionType'')) (\<lambda>_.
           bindE (work_identifier_of (dget m ''parentTaskId'')) (\<lambda>_. Inr ())))
         else if dget m ''parentTaskId'' \<noteq> JNull \<or> dget m ''actionType'' \<noteq> JNull
           then invalid ''WORK_TASK_BACKGROUND_PARENT_INVALID''
         else Inr ())))))"

definition validate_task_execution_metadata :: "string \<Rightarrow> json_object \<Rightarrow> string \<Rightarrow> string \<Rightarrow> unit res" where
  "validate_task_execution_metadata execution_class m actor ws =
    (if execution_class = ''foreground'' then Inr ()
     else if execution_class \<noteq> ''background'' then invalid ''WORK_TASK_INVALID_EXECUTION_CLASS''
     else if dget m ''source'' = JStr ''conversation-maintenance'' then validate_maintenance m actor ws
     else validate_workflow_provenance m)"

section \<open>Human input\<close>

definition blocked_keys :: "string list" where
  "blocked_keys = [''password'', ''passwd'', ''token'', ''secret'', ''credential'', ''credentials'',
     ''authorization'', ''cookie'', ''qr'', ''qrpayload'', ''apikey'', ''privatekey'', ''accesskey'',
     ''refreshkey'', ''qrcode'', ''qrdata'', ''qrimage'']"

definition sensitive_suffixes :: "string list" where
  "sensitive_suffixes = [''password'', ''passwd'', ''token'', ''secret'', ''credential'', ''cookie'',
     ''apikey'', ''privatekey'']"

text \<open>\<open>str.isalnum\<close> on code points below 256.\<close>

definition py_alnum :: "char \<Rightarrow> bool" where
  "py_alnum c \<longleftrightarrow> (let n = (of_char c :: int) in
     (48 \<le> n \<and> n \<le> 57) \<or> (65 \<le> n \<and> n \<le> 90) \<or> (97 \<le> n \<and> n \<le> 122) \<or>
     n \<in> {170, 178, 179, 181, 185, 186, 188, 189, 190} \<or> (192 \<le> n \<and> n \<le> 255 \<and> n \<noteq> 215 \<and> n \<noteq> 247))"

definition is_sensitive :: "string \<Rightarrow> bool" where
  "is_sensitive key \<longleftrightarrow> (let k = filter py_alnum (py_lower key) in
     k \<in> set blocked_keys \<or> list_ex (\<lambda>suf. ends_with suf k) sensitive_suffixes)"

definition check_answer_text :: "bool \<Rightarrow> string \<Rightarrow> json \<Rightarrow> unit res" where
  "check_answer_text is_answer key child =
    (if is_answer \<and> key = ''text'' then
       (case child of
          JStr s \<Rightarrow> if length s > 4000 then invalid ''WORK_INPUT_TEXT_TOO_LARGE'' else Inr ()
        | _ \<Rightarrow> invalid ''WORK_INPUT_INVALID_TEXT'')
     else Inr ())"

fun validate_human :: "bool \<Rightarrow> nat \<Rightarrow> json \<Rightarrow> unit res"
  and validate_human_list :: "bool \<Rightarrow> nat \<Rightarrow> json list \<Rightarrow> unit res"
  and validate_human_items :: "bool \<Rightarrow> nat \<Rightarrow> (string \<times> json) list \<Rightarrow> unit res" where
  "validate_human is_answer depth (JDict d) =
    (if depth > 16 then invalid ''WORK_INPUT_TOO_DEEP'' else validate_human_items is_answer (Suc depth) d)"
| "validate_human is_answer depth (JList l) =
    (if depth > 16 then invalid ''WORK_INPUT_TOO_DEEP'' else validate_human_list is_answer (Suc depth) l)"
| "validate_human is_answer depth JNull = (if depth > 16 then invalid ''WORK_INPUT_TOO_DEEP'' else Inr ())"
| "validate_human is_answer depth (JBool b) = (if depth > 16 then invalid ''WORK_INPUT_TOO_DEEP'' else Inr ())"
| "validate_human is_answer depth (JInt i) = (if depth > 16 then invalid ''WORK_INPUT_TOO_DEEP'' else Inr ())"
| "validate_human is_answer depth (JFloat f) = (if depth > 16 then invalid ''WORK_INPUT_TOO_DEEP'' else Inr ())"
| "validate_human is_answer depth (JStr s) = (if depth > 16 then invalid ''WORK_INPUT_TOO_DEEP'' else Inr ())"
| "validate_human_list is_answer depth [] = Inr ()"
| "validate_human_list is_answer depth (v # vs) =
    bindE (validate_human is_answer depth v) (\<lambda>_. validate_human_list is_answer depth vs)"
| "validate_human_items is_answer depth [] = Inr ()"
| "validate_human_items is_answer depth ((k, v) # kvs) =
    (if is_sensitive k then invalid ''WORK_INPUT_SENSITIVE_FIELD''
     else bindE (check_answer_text is_answer k v) (\<lambda>_.
          bindE (validate_human is_answer depth v) (\<lambda>_. validate_human_items is_answer depth kvs)))"

definition human_input_object :: "json \<Rightarrow> bool \<Rightarrow> json_object res" where
  "human_input_object v is_answer =
    bindE (work_json_object v) (\<lambda>d. bindE (validate_human is_answer 0 (JDict d)) (\<lambda>_. Inr d))"

section \<open>The text of a terminal result\<close>

definition RESULT_MAX :: nat where
  "RESULT_MAX = 20000"

definition truncation_mark :: string where
  "truncation_mark = CHR 0x0A # ''...[middle task result truncated]...'' @ [CHR 0x0A]"

definition result_separator :: string where
  "result_separator = [CHR 0x0A, CHR 0x0A]"

text \<open>\<open>s[-n:]\<close> for a positive \<open>n\<close>.\<close>

definition suffix_of :: "nat \<Rightarrow> string \<Rightarrow> string" where
  "suffix_of n s = drop (length s - n) s"

definition failed_result_text :: "string \<Rightarrow> string \<Rightarrow> string" where
  "failed_result_text error_text output =
    (if output = [] then
       (if length error_text > RESULT_MAX then take (RESULT_MAX - 20) error_text @ '' [truncated]'' else error_text)
     else if length error_text + length result_separator + length output \<le> RESULT_MAX
       then error_text @ result_separator @ output
     else
       (let limit = RESULT_MAX div 4;
            prefix = (if length error_text > limit
                      then take (limit - length '' [error truncated]'') error_text @ '' [error truncated]''
                      else error_text)
        in if length prefix + length result_separator + length output \<le> RESULT_MAX
           then prefix @ result_separator @ output
           else
             (let budget = RESULT_MAX - length prefix - length result_separator - length truncation_mark;
                  front = budget div 2
              in prefix @ result_separator @ take front output @ truncation_mark @
                 suffix_of (budget - front) output)))"

definition strip_or :: "string \<Rightarrow> string \<Rightarrow> string" where
  "strip_or s fallback = (let t = py_strip s in if t = [] then fallback else t)"

definition task_result_text :: "task_row \<Rightarrow> string" where
  "task_result_text task =
    (let status = tk_status task;
         text = (if status = ''completed'' then strip_or (tk_output task) ''Task completed.''
                 else if status = ''failed''
                   then failed_result_text (strip_or (case tk_error task of None \<Rightarrow> [] | Some e \<Rightarrow> e) ''Task failed.'')
                          (py_strip (tk_output task))
                 else ''Task aborted.'')
     in if status \<noteq> ''failed'' \<and> length text > RESULT_MAX then take (RESULT_MAX - 20) text @ '' [truncated]''
        else text)"

end
