(* ===== verification/Work_Access.thy ===== *)
theory Work_Access
  imports Work_Meta
begin

text \<open>
  Reading the Work tables: the actor boundary every task-scoped call passes
  (\<open>_require_teams_task_actor\<close>), the scope-hiding lookups, the public views, and the one way an event
  enters a task's log (\<open>_append_event\<close>).
\<close>

section \<open>Lookups\<close>

definition find_task :: "wdb \<Rightarrow> task_key \<Rightarrow> task_row option" where
  "find_task db k = find_by tk_key k (w_tasks db)"

definition require_task :: "wdb \<Rightarrow> task_key \<Rightarrow> task_row res" where
  "require_task db k = (case find_task db k of None \<Rightarrow> not_found ''WORK_TASK_NOT_FOUND'' | Some r \<Rightarrow> Inr r)"

definition require_running_task :: "wdb \<Rightarrow> string \<Rightarrow> string \<Rightarrow> string \<Rightarrow> task_row res" where
  "require_running_task db org ws task =
    bindE (work_identifier task) (\<lambda>task.
    bindE (require_task db (org, ws, task)) (\<lambda>r.
      if tk_status r \<noteq> ''running'' then conflict ''WORK_TASK_NOT_ACTIVE'' else Inr r))"

definition require_approval :: "wdb \<Rightarrow> string \<Rightarrow> string \<Rightarrow> string \<Rightarrow> approval_row res" where
  "require_approval db org ws aid =
    bindE (work_identifier aid) (\<lambda>aid.
      case find_by ap_key (org, ws, aid) (w_approvals db) of
        None \<Rightarrow> not_found ''WORK_APPROVAL_NOT_FOUND'' | Some r \<Rightarrow> Inr r)"

definition require_input :: "wdb \<Rightarrow> string \<Rightarrow> string \<Rightarrow> string \<Rightarrow> input_row res" where
  "require_input db org ws iid =
    bindE (work_identifier iid) (\<lambda>iid.
      case find_by in_key (org, ws, iid) (w_inputs db) of
        None \<Rightarrow> not_found ''WORK_INPUT_NOT_FOUND'' | Some r \<Rightarrow> Inr r)"

section \<open>The actor boundary\<close>

text \<open>\<open>json_extract(metadata_json, '$.navigatorConversationOrigin.kind')\<close>; \<open>JNull\<close> stands for SQL NULL.\<close>

definition chat_origin :: "string \<Rightarrow> json" where
  "chat_origin metadata = (case json_loads metadata of
     Some (JDict d) \<Rightarrow> (case dget d ''navigatorConversationOrigin'' of JDict e \<Rightarrow> dget e ''kind'' | _ \<Rightarrow> JNull)
   | _ \<Rightarrow> JNull)"

text \<open>A connector event that came from Teams; \<open>LIKE\<close> folds ASCII case.\<close>

definition teams_event :: "connector_event_row \<Rightarrow> bool" where
  "teams_event e \<longleftrightarrow> ce_origin_actor e \<noteq> None \<or>
     (case json_loads (ce_payload e) of
        Some (JDict d) \<Rightarrow> (case dget d ''provider'' of JStr s \<Rightarrow> sql_lower s = ''teams'' | _ \<Rightarrow> False)
      | _ \<Rightarrow> False) \<or>
     starts_with ''teams.'' (sql_lower (ce_type e))"

definition teams_events_of :: "wdb \<Rightarrow> task_key \<Rightarrow> connector_event_row list" where
  "teams_events_of db k = filter (\<lambda>e. (case ce_task e of None \<Rightarrow> False | Some t \<Rightarrow> (ce_org e, ce_ws e, t) = k) \<and>
     teams_event e) (w_connector_events db)"

definition same_actor :: "string \<Rightarrow> string option \<Rightarrow> bool" where
  "same_actor a b \<longleftrightarrow> (case b of None \<Rightarrow> False | Some b \<Rightarrow> py_lower a = py_lower b)"

definition is_chat_task :: "wdb \<Rightarrow> task_row \<Rightarrow> bool" where
  "is_chat_task db task \<longleftrightarrow> chat_origin (tk_metadata task) \<in> {JStr ''web'', JStr ''teams_channel''} \<or>
     (case find_by to_key (tk_key task) (w_origins db) of None \<Rightarrow> False | Some o' \<Rightarrow> to_kind o' = ''private'')"

definition require_teams_task_actor :: "wdb \<Rightarrow> task_key \<Rightarrow> string option \<Rightarrow> bool \<Rightarrow> bool res" where
  "require_teams_task_actor db k actor private_scope =
    (let hidden = not_found ''WORK_TASK_NOT_FOUND'';
         owner = find_by po_key k (w_owners db) in
     case find_task db k of
       None \<Rightarrow> hidden
     | Some task \<Rightarrow>
         if (case owner of None \<Rightarrow> False | Some p \<Rightarrow> \<not> same_actor (po_actor p) actor) then hidden
         else if is_chat_task db task \<and> (\<not> private_scope \<or> \<not> same_actor (tk_creator task) actor) then hidden
         else if private_scope \<and> \<not> same_actor (tk_creator task) actor then hidden
         else (case find_by to_key k (w_origins db) of
             None \<Rightarrow>
               (case teams_events_of db k of
                  [] \<Rightarrow> Inr (owner \<noteq> None)
                | e # _ \<Rightarrow>
                    (case ce_sender e of
                       None \<Rightarrow> hidden
                     | Some s \<Rightarrow> if s = [] \<or> \<not> same_actor s actor then hidden else Inr True))
           | Some o' \<Rightarrow>
               (case actor of
                  None \<Rightarrow> hidden
                | Some a \<Rightarrow> if to_actor o' \<noteq> py_lower a \<or> to_subject o' \<noteq> py_lower a then hidden else Inr True)))"

definition require_no_foreign_teams_session :: "wdb \<Rightarrow> string \<Rightarrow> string \<Rightarrow> string \<Rightarrow> string option \<Rightarrow> unit res" where
  "require_no_foreign_teams_session db org ws session actor =
    (case actor of
       None \<Rightarrow> Inr ()
     | Some a \<Rightarrow>
        (let hidden = not_found ''WORK_BACKEND_SESSION_NOT_FOUND'';
             mine = filter (\<lambda>t. tk_org t = org \<and> tk_ws t = ws \<and> tk_session t = session) (w_tasks db) in
         if list_ex (\<lambda>r. at_org r = org \<and> at_ws r = ws \<and> at_session r = Some session \<and>
              at_subject r \<noteq> py_lower a) (w_actor_threads db) then hidden
         else if list_ex (\<lambda>t. case find_by po_key (tk_key t) (w_owners db) of None \<Rightarrow> False
              | Some p \<Rightarrow> sql_lower (po_actor p) \<noteq> py_lower a) mine then hidden
         else if list_ex (\<lambda>t. list_ex (\<lambda>e. case ce_sender e of None \<Rightarrow> False
              | Some s \<Rightarrow> sql_lower s \<noteq> py_lower a) (teams_events_of db (tk_key t))) mine then hidden
         else Inr ()))"

section \<open>Views\<close>

definition nonempty :: "string \<Rightarrow> string option" where
  "nonempty s = (if s = [] then None else Some s)"

definition task_view :: "wdb \<Rightarrow> task_row \<Rightarrow> json_object res" where
  "task_view db r =
    bindE (stored_object (tk_metadata r)) (\<lambda>metadata.
      let base =
        [(''id'', JStr (tk_id r)), (''workspaceId'', JStr (tk_ws r)), (''createdByActorId'', jopt (nonempty (tk_creator r))),
         (''sessionId'', JStr (tk_session r)), (''prompt'', JStr (tk_prompt r)), (''status'', JStr (tk_status r)),
         (''createdAt'', JInt (tk_created_at r)), (''startedAt'', jopt_int (tk_started_at r)),
         (''endedAt'', jopt_int (tk_ended_at r)), (''output'', JStr (tk_output r)), (''reasoning'', JStr (tk_reasoning r)),
         (''error'', jopt (tk_error r)), (''durationMs'', JInt (tk_duration r)), (''sequence'', JInt (tk_sequence r)),
         (''title'', jopt (tk_title r)), (''description'', jopt (tk_description r)), (''metadata'', JDict metadata),
         (''continuationOfTaskId'', jopt (tk_cont_of r)), (''continuationMode'', jopt (tk_cont_mode r)),
         (''executionClass'', JStr (if tk_class r = [] then ''foreground'' else tk_class r))]
      in Inr (case find_by to_key (tk_key r) (w_origins db) of
           Some o' \<Rightarrow>
             (case to_bot o' of
                Some bot_id \<Rightarrow>
                  if to_kind o' = ''private'' then base @
                    [(''origin'', JDict [(''kind'', JStr ''teams_private''), (''messageId'', JStr (to_message o')),
                      (''tenantId'', JStr (to_tenant o')), (''botAppId'', JStr bot_id),
                      (''actorAadObjectId'', JStr (to_subject o'))])]
                  else base
              | None \<Rightarrow> base)
         | None \<Rightarrow> base))"

definition approval_view :: "approval_row \<Rightarrow> json_object res" where
  "approval_view r =
    bindE (stored_object (ap_details r)) (\<lambda>details.
      Inr [(''id'', JStr (ap_id r)), (''taskId'', JStr (ap_task r)), (''kind'', JStr (ap_kind r)),
           (''summary'', JStr (ap_summary r)), (''details'', JDict details), (''status'', JStr (ap_status r)),
           (''createdAt'', JInt (ap_created_at r)), (''resolvedAt'', jopt_int (ap_resolved_at r)),
           (''resolvedBy'', jopt (ap_resolved_by r)), (''messageId'', jopt (ap_message r))])"

text \<open>\<open>int(NULL)\<close> is a \<open>TypeError\<close> and \<open>str(None)\<close> is not JSON: an answered row has both columns.\<close>

definition input_view :: "input_row \<Rightarrow> json_object res" where
  "input_view r =
    (let answered = (in_status r = ''answered'') in
     bindE (stored_object (in_details r)) (\<lambda>details.
     bindE (if answered then (case in_answered_at r of None \<Rightarrow> Inl TypeError | Some t \<Rightarrow> Inr (JInt t)) else Inr JNull) (\<lambda>at.
     bindE (if answered then bindE (case in_answer r of None \<Rightarrow> raise ''WORK_STORAGE_CORRUPT'' 500
              | Some t \<Rightarrow> stored_object t) (\<lambda>d. Inr (JDict d)) else Inr JNull) (\<lambda>answer.
       Inr [(''id'', JStr (in_id r)), (''taskId'', JStr (in_task r)), (''summary'', JStr (in_summary r)),
            (''details'', JDict details), (''status'', JStr (in_status r)), (''createdAt'', JInt (in_created_at r)),
            (''answeredAt'', at), (''answeredBy'', if answered then jopt (in_answered_by r) else JNull),
            (''answer'', answer), (''messageId'', jopt (in_create_message r)),
            (''answerMessageId'', jopt (in_answer_message r))]))))"

definition operation_view :: "operation_row \<Rightarrow> json_object res" where
  "operation_view r =
    bindE (stored_object (op_request r)) (\<lambda>request.
    bindE (stored_object (op_evidence r)) (\<lambda>evidence.
      Inr [(''id'', JStr (op_id r)), (''idempotencyKey'', JStr (op_key r)), (''operationType'', JStr (op_type r)),
           (''taskId'', jopt (op_task r)), (''target'', jopt (op_target r)), (''scopeLock'', jopt (op_scope_lock r)),
           (''trustedProducer'', jopt (op_producer r)), (''request'', JDict request), (''status'', JStr (op_status r)),
           (''evidence'', JDict evidence), (''createdAt'', JInt (op_created_at r)),
           (''updatedAt'', JInt (op_updated_at r))]))"

definition notification_view :: "note_row \<Rightarrow> json_object res" where
  "notification_view r =
    bindE (stored_object (nt_payload r)) (\<lambda>payload.
    bindE (stored_object (nt_result r)) (\<lambda>result.
      Inr [(''id'', JStr (nt_id r)), (''deduplicationKey'', JStr (nt_dedup r)), (''type'', JStr (nt_type r)),
           (''payload'', JDict payload), (''connectorId'', jopt (nt_connector r)), (''recipient'', jopt (nt_recipient r)),
           (''taskId'', jopt (nt_task r)), (''status'', JStr (nt_status r)), (''availableAt'', JInt (nt_available_at r)),
           (''createdAt'', JInt (nt_created_at r)), (''updatedAt'', JInt (nt_updated_at r)),
           (''workerId'', jopt (nt_worker r)), (''leaseExpiresAt'', jopt_int (nt_lease r)), (''result'', JDict result)]))"

section \<open>The event log of a task\<close>

text \<open>The primary key and the unique message id of \<open>work_task_events\<close>.\<close>

definition te_clash :: "task_event_row \<Rightarrow> task_event_row \<Rightarrow> bool" where
  "te_clash r r' \<longleftrightarrow> te_scope r = te_scope r' \<and>
     (te_seq r = te_seq r' \<or> (te_message r \<noteq> None \<and> te_message r = te_message r'))"

definition append_event :: "task_key \<Rightarrow> json_object \<Rightarrow> string option \<Rightarrow> int \<Rightarrow> wdb \<Rightarrow> (int \<times> wdb) res" where
  "append_event k event msg created_at db = (case k of (org, ws, tid) \<Rightarrow>
    bindE (require_task db k) (\<lambda>task.
    bindE (work_json_object (JDict event)) (\<lambda>d.
    bindE (work_json_text (JDict d)) (\<lambda>text.
    bindE (work_digest (JDict d)) (\<lambda>digest.
    bindE (insert_with te_clash \<lparr>te_org = org, te_ws = ws, te_task = tid, te_seq = tk_sequence task + 1,
        te_json = text, te_digest = digest, te_created_at = created_at, te_message = msg\<rparr> (w_events db)) (\<lambda>evs.
      Inr (tk_sequence task + 1, db\<lparr>w_events := evs,
        w_tasks := edit_by tk_key k (\<lambda>r. r\<lparr>tk_sequence := tk_sequence task + 1\<rparr>) (w_tasks db)\<rparr>)))))))"

definition status_event :: "string \<Rightarrow> string \<Rightarrow> json_object" where
  "status_event from to =
    [(''type'', JStr ''task.status_changed''), (''from'', JStr from), (''to'', JStr to)]"

end
