(* ===== verification/Work_Outbox.thy ===== *)
theory Work_Outbox
  imports Work_Access
begin

text \<open>
  The notification outbox of the Work store: deduplicated enqueueing, the terminal result of a task, leasing
  by workers with expiry, and the token-fenced delivery transitions. A fresh notification id or lease token
  is an argument; \<open>token_of i\<close> is the token the \<open>i\<close>-th leased row gets.
\<close>

section \<open>Digests and private routes\<close>

record private_scope =
  ps_ws :: string
  ps_issuer :: string
  ps_tenant :: string
  ps_bot :: string
  ps_subjects :: "string list"

definition notification_request_digest ::
  "string \<Rightarrow> json_object \<Rightarrow> string option \<Rightarrow> string option \<Rightarrow> string option \<Rightarrow> string res" where
  "notification_request_digest ntype payload connector recipient task = work_digest (JDict
    [(''type'', JStr ntype), (''payload'', JDict payload), (''connectorId'', jopt connector),
     (''recipient'', jopt recipient), (''taskId'', jopt task)])"

definition HEALTH_TYPE :: string where
  "HEALTH_TYPE = ''teams.credential-health''"

record private_fields =
  pf_owner :: "string option"
  pf_task :: "string option"
  pf_tenant :: "string option"
  pf_aad :: "string option"
  pf_bot :: "string option"

definition no_private :: private_fields where
  "no_private = \<lparr>pf_owner = None, pf_task = None, pf_tenant = None, pf_aad = None, pf_bot = None\<rparr>"

definition private_health_notice ::
  "string \<Rightarrow> json_object \<Rightarrow> string option \<Rightarrow> string option \<Rightarrow> string option \<Rightarrow> json_object \<Rightarrow> bool" where
  "private_health_notice ntype payload connector recipient task po \<longleftrightarrow>
     ntype = HEALTH_TYPE \<and> connector = Some ''teams-v1'' \<and> recipient = Some ''teams:owner-private'' \<and> task = None \<and>
     dget payload ''provider'' = JStr ''microsoft_graph'' \<and> keys_are po [''tenantId'', ''actorAadObjectId'', ''botAppId'']"

definition private_task_notice ::
  "string \<Rightarrow> string option \<Rightarrow> string option \<Rightarrow> string option \<Rightarrow> json_object \<Rightarrow> bool" where
  "private_task_notice ntype connector recipient task po \<longleftrightarrow>
     ntype = ''teams.message'' \<and> connector = Some ''teams-v1'' \<and> recipient = Some ''teams:owner-private'' \<and> task \<noteq> None \<and>
     (keys_are po [''taskId'', ''tenantId'', ''actorAadObjectId''] \<or>
      keys_are po [''taskId'', ''tenantId'', ''actorAadObjectId'', ''botAppId''])"

text \<open>The verified owner columns of a private notification, or none.\<close>

definition private_fields_of ::
  "string \<Rightarrow> json_object \<Rightarrow> string option \<Rightarrow> string option \<Rightarrow> string option \<Rightarrow> string option \<Rightarrow> json_object option
   \<Rightarrow> private_fields res" where
  "private_fields_of ntype payload connector recipient task owner po = (case po of
     None \<Rightarrow> if owner \<noteq> None then invalid ''WORK_NOTIFICATION_PRIVATE_OWNER_INVALID'' else Inr no_private
   | Some d \<Rightarrow>
       let health = private_health_notice ntype payload connector recipient task d;
           task_notice = private_task_notice ntype connector recipient task d in
       (case owner of
          None \<Rightarrow> invalid ''WORK_NOTIFICATION_PRIVATE_OWNER_INVALID''
        | Some ow \<Rightarrow>
            if \<not> (health \<or> task_notice) then invalid ''WORK_NOTIFICATION_PRIVATE_OWNER_INVALID''
            else
              bindE (canonical_uuid (dget d ''actorAadObjectId'')) (\<lambda>actor.
              bindE (work_identifier ow) (\<lambda>ow.
                if py_lower ow \<noteq> actor then invalid ''WORK_NOTIFICATION_PRIVATE_OWNER_INVALID''
                else
                  bindE (if task_notice then bindE (work_identifier_of (dget d ''taskId'')) (\<lambda>t. Inr (Some t)) else Inr None) (\<lambda>ptask.
                  bindE (canonical_uuid (dget d ''tenantId'')) (\<lambda>tenant.
                  bindE (if dget d ''botAppId'' \<noteq> JNull then bindE (canonical_uuid (dget d ''botAppId'')) (\<lambda>b. Inr (Some b)) else Inr None) (\<lambda>bot_app.
                    Inr \<lparr>pf_owner = Some actor, pf_task = ptask, pf_tenant = Some tenant, pf_aad = Some actor,
                         pf_bot = bot_app\<rparr>)))))))"

definition private_fields_json :: "private_fields \<Rightarrow> json" where
  "private_fields_json f = JDict
    [(''owner_actor_id'', jopt (pf_owner f)), (''private_owner_task_id'', jopt (pf_task f)),
     (''private_tenant_id'', jopt (pf_tenant f)), (''private_owner_aad_object_id'', jopt (pf_aad f)),
     (''private_bot_app_id'', jopt (pf_bot f))]"

section \<open>Enqueueing\<close>

text \<open>The primary key and the unique deduplication key of \<open>work_notifications\<close>.\<close>

definition nt_dedup_key :: "note_row \<Rightarrow> task_key" where
  "nt_dedup_key r = (nt_org r, nt_ws r, nt_dedup r)"

definition nt_clash :: "note_row \<Rightarrow> note_row \<Rightarrow> bool" where
  "nt_clash r r' \<longleftrightarrow> nt_key r = nt_key r' \<or> nt_dedup_key r = nt_dedup_key r'"

definition enqueue_notification ::
  "string \<Rightarrow> string \<Rightarrow> string \<Rightarrow> string \<Rightarrow> string \<Rightarrow> json_object \<Rightarrow> string option \<Rightarrow> string option \<Rightarrow> string option
   \<Rightarrow> int \<Rightarrow> int \<Rightarrow> string option \<Rightarrow> json_object option \<Rightarrow> wdb \<Rightarrow> ((json_object \<times> bool) \<times> wdb) res" where
  "enqueue_notification nid org ws dedup ntype payload connector recipient task available_at now owner po db =
    bindE (notification_request_digest ntype payload connector recipient task) (\<lambda>base.
    bindE (private_fields_of ntype payload connector recipient task owner po) (\<lambda>pf.
    bindE (if po = None then Inr base
           else work_digest (JDict [(''notificationDigest'', JStr base), (''privateOwner'', private_fields_json pf)])) (\<lambda>digest.
      case find_by nt_dedup_key (org, ws, dedup) (w_notes db) of
        Some prior \<Rightarrow>
          if nt_digest prior \<noteq> digest then conflict ''WORK_NOTIFICATION_KEY_CONFLICT''
          else bindE (notification_view prior) (\<lambda>v. Inr ((v, True), db))
      | None \<Rightarrow>
          bindE (work_json_text (JDict payload)) (\<lambda>text.
            let row = \<lparr>nt_org = org, nt_ws = ws, nt_id = nid, nt_dedup = dedup, nt_type = ntype, nt_payload = text,
                  nt_connector = connector, nt_recipient = recipient, nt_status = ''queued'', nt_task = task,
                  nt_available_at = available_at, nt_created_at = now, nt_updated_at = now, nt_worker = None,
                  nt_token_hash = None, nt_lease = None, nt_started_at = None, nt_result = ''{}'', nt_digest = digest,
                  nt_owner = pf_owner pf, nt_private_task = pf_task pf, nt_private_tenant = pf_tenant pf,
                  nt_private_aad = pf_aad pf, nt_private_bot = pf_bot pf\<rparr>
            in bindE (insert_with nt_clash row (w_notes db)) (\<lambda>ns.
               bindE (notification_view row) (\<lambda>v. Inr ((v, False), db\<lparr>w_notes := ns\<rparr>)))))))"

definition create_notification ::
  "string \<Rightarrow> int \<Rightarrow> int \<Rightarrow> string option \<Rightarrow> string \<Rightarrow> json_object \<Rightarrow> string option \<Rightarrow> bool \<Rightarrow> wdb
   \<Rightarrow> (json_object \<times> bool) res \<times> wdb" where
  "create_notification nid t0 now org ws body actor private_scope db = commit db (
    bindE (work_scope org ws) (\<lambda>(org, ws).
    bindE (work_identifier_of (dget body ''deduplicationKey'')) (\<lambda>dedup.
    bindE (bounded_text (dget body ''type'') 128 False) (\<lambda>ntype.
      if private_scope \<and> ntype = ''teams.message'' then raise ''WORK_NOTIFICATION_PRIVATE_ROUTE_REQUIRED'' 403
      else
        bindE (work_json_object (dget body ''payload'')) (\<lambda>payload.
        bindE (optional_text (dget body ''connectorId'') 512) (\<lambda>connector.
        bindE (optional_text (dget body ''taskId'') 512) (\<lambda>task.
        bindE (actor_of actor) (\<lambda>actor.
        bindE (optional_text (dget body ''recipient'') 2000) (\<lambda>recipient.
          if ntype = HEALTH_TYPE then invalid ''WORK_NOTIFICATION_RESERVED_TYPE''
          else
            bindE (nonnegative_integer (dget_or body ''availableAt'' (JInt t0))) (\<lambda>available_at.
            bindE (case task of None \<Rightarrow> Inr True
                   | Some t \<Rightarrow> require_teams_task_actor db (org, ws, t) actor private_scope) (\<lambda>_.
            bindE (notification_request_digest ntype payload connector recipient task) (\<lambda>digest.
              case find_by nt_dedup_key (org, ws, dedup) (w_notes db) of
                Some prior \<Rightarrow>
                  if nt_digest prior \<noteq> digest then conflict ''WORK_NOTIFICATION_KEY_CONFLICT''
                  else bindE (notification_view prior) (\<lambda>v. Inr ((v, True), db))
              | None \<Rightarrow>
                  bindE (case task of None \<Rightarrow> Inr ()
                         | Some t \<Rightarrow> bindE (require_running_task db org ws t) (\<lambda>_. Inr ())) (\<lambda>_.
                    enqueue_notification nid org ws dedup ntype payload connector recipient task available_at now
                      None None db)))))))))))))"

section \<open>The result of a task\<close>

definition hold_event :: "string \<Rightarrow> string \<Rightarrow> json_object" where
  "hold_event reason status = [(''type'', JStr ''task.result_delivery_held.v1''), (''reasonCode'', JStr reason),
     (''status'', JStr status)]"

definition append_hold :: "task_key \<Rightarrow> string \<Rightarrow> string \<Rightarrow> int \<Rightarrow> wdb \<Rightarrow> wdb res" where
  "append_hold k reason status now db =
    bindE (append_event k (hold_event reason status)
      (Some (''task-result-delivery-hold:'' @ snd (snd k) @ '':'' @ status)) now db) (\<lambda>(_, db'). Inr db')"

definition policy_allows :: "private_scope option \<Rightarrow> string \<Rightarrow> origin_row \<Rightarrow> string \<Rightarrow> bool" where
  "policy_allows ps ws o' actor \<longleftrightarrow> (case ps of
     None \<Rightarrow> False
   | Some p \<Rightarrow> ps_ws p = ws \<and> ps_issuer p = to_issuer o' \<and> py_lower (ps_tenant p) = py_lower (to_tenant o') \<and>
       actor \<in> set (ps_subjects p))"

definition origin_bot_matches :: "private_scope option \<Rightarrow> origin_row \<Rightarrow> bool" where
  "origin_bot_matches ps o' \<longleftrightarrow> to_kind o' \<noteq> ''private'' \<or>
     (case (ps, to_bot o') of (Some p, Some b) \<Rightarrow> py_lower b = py_lower (ps_bot p) | _ \<Rightarrow> False)"

definition installation_active :: "wdb \<Rightarrow> string \<Rightarrow> string \<Rightarrow> string \<Rightarrow> string \<Rightarrow> string \<Rightarrow> bool" where
  "installation_active db org ws tenant actor bot_app =
    (case find_by pi_key (org, ws, tenant, actor, bot_app) (w_installations db) of
       None \<Rightarrow> False | Some r \<Rightarrow> pi_active r \<noteq> 0)"

definition hold_code :: "wdb \<Rightarrow> string \<Rightarrow> string \<Rightarrow> private_scope option \<Rightarrow> origin_row \<Rightarrow> string \<Rightarrow> string option" where
  "hold_code db org ws ps o' actor =
    (if \<not> policy_allows ps ws o' actor then Some ''WORK_TEAMS_PRIVATE_POLICY_NOT_CONFIGURED''
     else if \<not> origin_bot_matches ps o' then Some ''WORK_TEAMS_PRIVATE_BOT_APP_MISMATCH''
     else if \<not> installation_active db org ws (py_lower (to_tenant o')) actor
        (case ps of None \<Rightarrow> [] | Some p \<Rightarrow> py_lower (ps_bot p))
       then Some ''WORK_TEAMS_PRIVATE_INSTALLATION_NOT_CONFIGURED''
     else None)"

definition queue_private_result ::
  "string \<Rightarrow> string \<Rightarrow> string \<Rightarrow> task_row \<Rightarrow> int \<Rightarrow> private_scope option \<Rightarrow> origin_row \<Rightarrow> string \<Rightarrow> wdb \<Rightarrow> wdb res" where
  "queue_private_result nid org ws task now ps o' actor db =
    (let tid = tk_id task; status = tk_status task;
         bot_app = (if policy_allows ps ws o' actor \<and> origin_bot_matches ps o' then map_option ps_bot ps else None);
         route = [(''taskId'', JStr tid), (''tenantId'', JStr (to_tenant o')), (''actorAadObjectId'', JStr (to_subject o'))] @
           (case bot_app of None \<Rightarrow> [] | Some b \<Rightarrow> [(''botAppId'', JStr b)])
     in bindE (enqueue_notification nid org ws (''task-result-private:'' @ tid @ '':'' @ status) ''teams.message''
           [(''text'', JStr (task_result_text task)), (''taskId'', JStr tid), (''status'', JStr status)]
           (Some ''teams-v1'') (Some ''teams:owner-private'') (Some tid) now now (Some actor) (Some route) db)
         (\<lambda>((view, duplicate), db').
           case hold_code db' org ws ps o' actor of
             None \<Rightarrow> Inr db'
           | Some code \<Rightarrow>
               if duplicate then Inr db'
               else bindE (work_json_text (JDict [(''deliveryHoldCode'', JStr code)])) (\<lambda>text.
                 Inr (db'\<lparr>w_notes := map (\<lambda>n. if nt_key n = (org, ws, nid) \<and> nt_status n = ''queued''
                    then n\<lparr>nt_result := text, nt_updated_at := now\<rparr> else n) (w_notes db')\<rparr>))))"

definition queue_task_result_notification ::
  "string \<Rightarrow> string \<Rightarrow> string \<Rightarrow> task_row \<Rightarrow> int \<Rightarrow> private_scope option \<Rightarrow> wdb \<Rightarrow> wdb res" where
  "queue_task_result_notification nid org ws task now ps db =
    (let k = (org, ws, tk_id task); status = tk_status task in
     bindE (stored_object (tk_metadata task)) (\<lambda>metadata.
       case find_by po_key k (w_owners db) of
         Some p \<Rightarrow>
           (case find_by to_key k (w_origins db) of
              None \<Rightarrow>
                if dget metadata ''notification'' \<noteq> JNull \<or> teams_events_of db k \<noteq> []
                then append_hold k ''verified_teams_origin_not_configured'' status now db else Inr db
            | Some o' \<Rightarrow>
                let actor = py_lower (po_actor p) in
                if py_lower (tk_creator task) \<noteq> actor \<or> py_lower (to_actor o') \<noteq> actor
                   \<or> py_lower (to_subject o') \<noteq> actor \<or> to_connector o' \<noteq> ''teams-v1''
                then append_hold k ''verified_teams_origin_mismatch'' status now db
                else queue_private_result nid org ws task now ps o' actor db)
       | None \<Rightarrow>
           bindE (task_notification_descriptor metadata) (\<lambda>descriptor.
             case descriptor of
               None \<Rightarrow> Inr db
             | Some ds \<Rightarrow>
                 let payload = foldl (\<lambda>d (key, v). dset d key v) (ds_payload ds)
                   [(''text'', JStr (task_result_text task)), (''taskId'', JStr (tk_id task)), (''status'', JStr status)]
                 in bindE (enqueue_notification nid org ws (''task-result:'' @ tk_id task @ '':'' @ status) (ds_type ds) payload
                      (Some (ds_connector ds)) (Some (ds_recipient ds)) (Some (tk_id task)) now now None None db)
                    (\<lambda>(_, db'). Inr db'))))"

section \<open>Leasing\<close>

definition claim_visible :: "wdb \<Rightarrow> string \<Rightarrow> bool \<Rightarrow> note_row \<Rightarrow> bool" where
  "claim_visible db actor private_scope n \<longleftrightarrow>
    (let key = (\<lambda>t. (nt_org n, nt_ws n, t));
         owner = (case nt_task n of None \<Rightarrow> None | Some t \<Rightarrow> find_by po_key (key t) (w_owners db));
         origin = (case nt_task n of None \<Rightarrow> None | Some t \<Rightarrow> find_by to_key (key t) (w_origins db)) in
     nt_owner n = None \<and>
     (if private_scope
      then (case nt_task n of None \<Rightarrow> False | Some t \<Rightarrow>
             (case find_task db (key t) of None \<Rightarrow> False | Some r \<Rightarrow> sql_lower (tk_creator r) = actor))
      else nt_task n = None \<or>
        ((case owner of None \<Rightarrow> True | Some p \<Rightarrow> sql_lower (po_actor p) = actor) \<and>
         (case origin of None \<Rightarrow> True | Some o' \<Rightarrow> sql_lower (to_actor o') = actor))) \<and>
     \<not> (nt_type n = ''teams.message'' \<and> nt_task n \<noteq> None \<and> owner \<noteq> None))"

definition lease_expired :: "int \<Rightarrow> note_row \<Rightarrow> bool" where
  "lease_expired now n \<longleftrightarrow> nt_status n \<in> {''leased'', ''started''} \<and>
     (case nt_lease n of None \<Rightarrow> False | Some l \<Rightarrow> l \<le> now)"

definition expire_note :: "int \<Rightarrow> note_row \<Rightarrow> note_row" where
  "expire_note now n = n\<lparr>nt_status := (if nt_status n = ''started'' then ''uncertain'' else ''queued''),
     nt_updated_at := now, nt_worker := None, nt_token_hash := None, nt_lease := None\<rparr>"

definition sweep :: "(note_row \<Rightarrow> bool) \<Rightarrow> string \<Rightarrow> string \<Rightarrow> int \<Rightarrow> note_row list \<Rightarrow> note_row list" where
  "sweep visible org ws now ns = map (\<lambda>n. if nt_org n = org \<and> nt_ws n = ws \<and> lease_expired now n \<and> visible n
     then expire_note now n else n) ns"

definition lease_note :: "string \<Rightarrow> string \<Rightarrow> int \<Rightarrow> int \<Rightarrow> note_row \<Rightarrow> note_row" where
  "lease_note worker token expires now n = n\<lparr>nt_status := ''leased'', nt_worker := Some worker,
     nt_token_hash := Some (sha256_hex token), nt_lease := Some expires, nt_updated_at := now\<rparr>"

text \<open>The loop over the selected rows: lease each and report it.\<close>

fun lease_rows :: "(nat \<Rightarrow> string) \<Rightarrow> string \<Rightarrow> int \<Rightarrow> int \<Rightarrow> nat \<Rightarrow> note_row list \<Rightarrow> note_row list
   \<Rightarrow> ((json_object \<times> string \<times> int) list \<times> note_row list) res" where
  "lease_rows token_of worker expires now i [] ns = Inr ([], ns)"
| "lease_rows token_of worker expires now i (r # rs) ns =
    (let ns' = edit_by nt_key (nt_key r) (lease_note worker (token_of i) expires now) ns in
     bindE (case find_by nt_key (nt_key r) ns' of None \<Rightarrow> Inl TypeError | Some n \<Rightarrow> notification_view n) (\<lambda>v.
     bindE (lease_rows token_of worker expires now (Suc i) rs ns') (\<lambda>(leases, ns'').
       Inr ((v, token_of i, expires) # leases, ns''))))"

definition matches :: "string option \<Rightarrow> string option \<Rightarrow> bool" where
  "matches filter_value v \<longleftrightarrow> (case filter_value of None \<Rightarrow> True | Some f \<Rightarrow> v = Some f)"

definition claim_notifications ::
  "(nat \<Rightarrow> string) \<Rightarrow> int \<Rightarrow> string option \<Rightarrow> string \<Rightarrow> json \<Rightarrow> int \<Rightarrow> int \<Rightarrow> json \<Rightarrow> json \<Rightarrow> json
   \<Rightarrow> string option \<Rightarrow> bool \<Rightarrow> wdb \<Rightarrow> (json_object \<times> string \<times> int) list res \<times> wdb" where
  "claim_notifications token_of now org ws worker limit lease_seconds ntype connector recipient actor private_scope db =
    commit db (
    bindE (work_scope org ws) (\<lambda>(org, ws).
    bindE (bounded_text worker 256 False) (\<lambda>worker.
      if \<not> (1 \<le> limit \<and> limit \<le> 100) then invalid ''WORK_NOTIFICATION_INVALID_PAGE''
      else if \<not> (5 \<le> lease_seconds \<and> lease_seconds \<le> 3600) then invalid ''WORK_NOTIFICATION_INVALID_LEASE''
      else
        bindE (optional_text ntype 128) (\<lambda>ntype.
        bindE (optional_text connector 512) (\<lambda>connector.
        bindE (optional_text recipient 2000) (\<lambda>recipient.
        bindE (actor_of actor) (\<lambda>actor.
          if connector \<noteq> None \<and> ntype = None then invalid ''WORK_NOTIFICATION_INVALID_FILTER''
          else
            let actor = (case actor of None \<Rightarrow> [] | Some a \<Rightarrow> a);
                visible = claim_visible db actor private_scope;
                ns = sweep visible org ws now (w_notes db);
                rows = take (nat limit) (order_by2 nt_available_at nt_created_at (filter (\<lambda>n.
                  nt_org n = org \<and> nt_ws n = ws \<and> nt_status n = ''queued'' \<and> nt_available_at n \<le> now \<and>
                  matches ntype (Some (nt_type n)) \<and> matches connector (nt_connector n) \<and>
                  matches recipient (nt_recipient n) \<and> visible n) ns))
            in bindE (lease_rows token_of worker (now + lease_seconds * 1000) now 0 rows ns) (\<lambda>(leases, ns').
                 Inr (leases, db\<lparr>w_notes := ns'\<rparr>)))))))))"

section \<open>Private routes\<close>

definition FORBIDDEN :: string where
  "FORBIDDEN = ''WORK_TEAMS_PRIVATE_INSTALLATION_FORBIDDEN''"

definition installation_route ::
  "wdb \<Rightarrow> string \<Rightarrow> string \<Rightarrow> string \<Rightarrow> string \<Rightarrow> string \<Rightarrow> json_object res" where
  "installation_route db org ws tenant actor bot_app =
    (case find_by pi_key (org, ws, tenant, actor, bot_app) (w_installations db) of
       None \<Rightarrow> not_found ''WORK_TEAMS_PRIVATE_INSTALLATION_NOT_FOUND''
     | Some r \<Rightarrow>
         if pi_active r = 0 then not_found ''WORK_TEAMS_PRIVATE_INSTALLATION_NOT_FOUND''
         else Inr [(''kind'', JStr ''teams_personal''), (''tenantId'', JStr tenant), (''botAppId'', JStr bot_app),
           (''actorAadObjectId'', JStr actor), (''conversationId'', JStr (pi_conversation r)),
           (''serviceUrl'', JStr (pi_service_url r))])"

definition resolve_private_teams_route ::
  "wdb \<Rightarrow> string \<Rightarrow> string \<Rightarrow> string \<Rightarrow> string \<Rightarrow> private_scope \<Rightarrow> json_object res" where
  "resolve_private_teams_route db org ws owner_task owner_actor ps =
    (if ps_ws ps \<noteq> ws then raise FORBIDDEN 403
     else
       bindE (work_identifier owner_task) (\<lambda>task_id.
       bindE (work_identifier owner_actor) (\<lambda>actor.
         case find_task db (org, ws, task_id) of
           None \<Rightarrow> not_found ''WORK_TASK_NOT_FOUND''
         | Some task \<Rightarrow>
             if py_lower (tk_creator task) \<noteq> py_lower actor then not_found ''WORK_TASK_NOT_FOUND''
             else (case find_by to_key (org, ws, task_id) (w_origins db) of
                 None \<Rightarrow> raise FORBIDDEN 403
               | Some o' \<Rightarrow>
                   let subject = to_subject o' in
                   if py_lower (to_actor o') \<noteq> py_lower actor \<or> to_issuer o' \<noteq> ps_issuer ps
                      \<or> \<not> is_uuid_text subject \<or> py_lower subject \<noteq> py_lower actor
                      \<or> py_lower subject \<notin> set (ps_subjects ps)
                      \<or> py_lower (to_tenant o') \<noteq> py_lower (ps_tenant ps)
                      \<or> (to_kind o' = ''private'' \<and> (case to_bot o' of None \<Rightarrow> True
                           | Some b \<Rightarrow> py_lower b \<noteq> py_lower (ps_bot ps)))
                   then raise FORBIDDEN 403
                   else installation_route db org ws (py_lower (ps_tenant ps)) (py_lower subject)
                          (py_lower (ps_bot ps))))))"

definition resolve_private_teams_installation_route ::
  "wdb \<Rightarrow> string \<Rightarrow> string \<Rightarrow> string \<Rightarrow> string \<Rightarrow> string \<Rightarrow> private_scope \<Rightarrow> json_object res" where
  "resolve_private_teams_installation_route db org ws aad tenant bot_app ps =
    bindE (canonical_uuid (JStr aad)) (\<lambda>actor.
    bindE (canonical_uuid (JStr tenant)) (\<lambda>tenant.
    bindE (canonical_uuid (JStr bot_app)) (\<lambda>bot_app.
      if ps_ws ps \<noteq> ws \<or> tenant \<noteq> py_lower (ps_tenant ps) \<or> bot_app \<noteq> py_lower (ps_bot ps)
         \<or> actor \<notin> set (ps_subjects ps)
      then raise FORBIDDEN 403
      else installation_route db org ws tenant actor bot_app)))"

definition opt_text :: "string option \<Rightarrow> string" where
  "opt_text s = (case s of None \<Rightarrow> [] | Some t \<Rightarrow> t)"

section \<open>Leasing owner-private rows\<close>

text \<open>The joined candidate query: the row agrees with the current owner projection and its own origin.\<close>

definition private_origin_ok :: "wdb \<Rightarrow> private_scope \<Rightarrow> note_row \<Rightarrow> string \<Rightarrow> bool" where
  "private_origin_ok db ps n owner = (case nt_private_task n of
     None \<Rightarrow> False
   | Some t \<Rightarrow>
       (case find_task db (nt_org n, nt_ws n, t) of None \<Rightarrow> False | Some task \<Rightarrow> tk_creator task = owner) \<and>
       (case find_by to_key (nt_org n, nt_ws n, t) (w_origins db) of
          None \<Rightarrow> False
        | Some o' \<Rightarrow> to_actor o' = owner \<and> to_subject o' = owner \<and> to_issuer o' = ps_issuer ps \<and>
            sql_lower (to_tenant o') = py_lower (ps_tenant ps) \<and>
            (to_kind o' \<noteq> ''private'' \<or> map_option sql_lower (to_bot o') = Some (py_lower (ps_bot ps)))))"

definition payload_provider :: "note_row \<Rightarrow> json" where
  "payload_provider n = (case json_loads (nt_payload n) of Some (JDict d) \<Rightarrow> dget d ''provider'' | _ \<Rightarrow> JNull)"

definition private_candidate :: "wdb \<Rightarrow> private_scope \<Rightarrow> string option \<Rightarrow> int \<Rightarrow> note_row \<Rightarrow> bool" where
  "private_candidate db ps ntype now n = (case nt_owner n of
     None \<Rightarrow> False
   | Some owner \<Rightarrow>
       nt_private_aad n = Some owner \<and> owner \<in> set (ps_subjects ps) \<and>
       nt_private_tenant n = Some (py_lower (ps_tenant ps)) \<and>
       (case nt_private_bot n of None \<Rightarrow> True | Some b \<Rightarrow> sql_lower b = py_lower (ps_bot ps)) \<and>
       nt_connector n = Some ''teams-v1'' \<and> nt_recipient n = Some ''teams:owner-private'' \<and>
       matches ntype (Some (nt_type n)) \<and>
       ((nt_type n = ''teams.message'' \<and> private_origin_ok db ps n owner) \<or>
        (nt_type n = HEALTH_TYPE \<and> nt_task n = None \<and> nt_private_task n = None \<and>
         payload_provider n = JStr ''microsoft_graph'')) \<and>
       nt_status n = ''queued'' \<and> nt_available_at n \<le> now)"

definition private_route :: "wdb \<Rightarrow> string \<Rightarrow> string \<Rightarrow> private_scope \<Rightarrow> note_row \<Rightarrow> json_object res" where
  "private_route db org ws ps n =
    (if opt_text (nt_connector n) \<noteq> ''teams-v1'' \<or> opt_text (nt_recipient n) \<noteq> ''teams:owner-private''
        \<or> py_lower (opt_text (nt_private_tenant n)) \<noteq> py_lower (ps_tenant ps)
        \<or> (case nt_private_bot n of None \<Rightarrow> False | Some b \<Rightarrow> py_lower b \<noteq> py_lower (ps_bot ps))
        \<or> opt_text (nt_private_aad n) \<notin> set (ps_subjects ps)
     then raise FORBIDDEN 403
     else if nt_type n = ''teams.message''
       then resolve_private_teams_route db org ws (opt_text (nt_private_task n)) (opt_text (nt_owner n)) ps
     else if nt_type n = HEALTH_TYPE then
       bindE (stored_object (nt_payload n)) (\<lambda>payload.
         if dget payload ''provider'' \<noteq> JStr ''microsoft_graph'' \<or> nt_task n \<noteq> None then raise FORBIDDEN 403
         else resolve_private_teams_installation_route db org ws (opt_text (nt_private_aad n))
                (opt_text (nt_private_tenant n)) (opt_text (nt_private_bot n)) ps)
     else raise FORBIDDEN 403)"

definition hold_codes :: "string list" where
  "hold_codes = [FORBIDDEN, ''WORK_TEAMS_PRIVATE_INSTALLATION_NOT_FOUND'', ''WORK_TASK_NOT_FOUND'']"

text \<open>The two guarded updates of the loop; both require the row to be queued still.\<close>

definition hold_note :: "string \<Rightarrow> int \<Rightarrow> note_row \<Rightarrow> note_row" where
  "hold_note text now n = (if nt_status n = ''queued'' then n\<lparr>nt_updated_at := now, nt_result := text,
     nt_worker := None, nt_token_hash := None, nt_lease := None\<rparr> else n)"

definition lease_queued :: "string \<Rightarrow> string \<Rightarrow> int \<Rightarrow> int \<Rightarrow> note_row \<Rightarrow> note_row" where
  "lease_queued worker token expires now n =
    (if nt_status n = ''queued'' then lease_note worker token expires now n else n)"

text \<open>The loop over the candidates: \<open>i\<close> rows are leased already, \<open>limit\<close> ends it.\<close>

fun lease_private :: "wdb \<Rightarrow> string \<Rightarrow> string \<Rightarrow> private_scope \<Rightarrow> (nat \<Rightarrow> string) \<Rightarrow> string \<Rightarrow> int \<Rightarrow> int \<Rightarrow> nat \<Rightarrow> nat
   \<Rightarrow> note_row list \<Rightarrow> note_row list \<Rightarrow> ((json_object \<times> string \<times> int \<times> json_object) list \<times> note_row list) res" where
  "lease_private db org ws ps token_of worker expires now limit i [] ns = Inr ([], ns)"
| "lease_private db org ws ps token_of worker expires now limit i (r # rs) ns =
    (case private_route db org ws ps r of
       Inl e \<Rightarrow>
         (case e of
            PersistenceError code status retryable \<Rightarrow>
              if code \<notin> set hold_codes then Inl e
              else
                bindE (work_json_text (JDict [(''deliveryHoldCode'', JStr code)])) (\<lambda>text.
                  lease_private db org ws ps token_of worker expires now limit i rs
                    (edit_by nt_key (nt_key r) (hold_note text now) ns))
          | _ \<Rightarrow> Inl e)
     | Inr route \<Rightarrow>
         let ns' = edit_by nt_key (nt_key r) (lease_queued worker (token_of i) expires now) ns in
         bindE (case find_by nt_key (nt_key r) ns' of None \<Rightarrow> Inl TypeError | Some n \<Rightarrow> notification_view n) (\<lambda>v.
           if Suc i \<ge> limit then Inr ([(v, token_of i, expires, route)], ns')
           else
             bindE (lease_private db org ws ps token_of worker expires now limit (Suc i) rs ns') (\<lambda>(leases, ns'').
               Inr ((v, token_of i, expires, route) # leases, ns''))))"

definition claim_private_notifications ::
  "(nat \<Rightarrow> string) \<Rightarrow> int \<Rightarrow> string option \<Rightarrow> string \<Rightarrow> json \<Rightarrow> int \<Rightarrow> int \<Rightarrow> private_scope \<Rightarrow> string option \<Rightarrow> wdb
   \<Rightarrow> (json_object \<times> string \<times> int \<times> json_object) list res \<times> wdb" where
  "claim_private_notifications token_of now org ws worker limit lease_seconds ps ntype db = commit db (
    bindE (work_scope org ws) (\<lambda>(org, ws).
      if ntype \<notin> {None, Some ''teams.message'', Some HEALTH_TYPE} then invalid ''WORK_NOTIFICATION_INVALID_FILTER''
      else if ps_ws ps \<noteq> ws then raise FORBIDDEN 403
      else
        bindE (bounded_text worker 256 False) (\<lambda>worker.
          if \<not> (1 \<le> limit \<and> limit \<le> 100) then invalid ''WORK_NOTIFICATION_INVALID_PAGE''
          else if \<not> (5 \<le> lease_seconds \<and> lease_seconds \<le> 3600) then invalid ''WORK_NOTIFICATION_INVALID_LEASE''
          else
            let ns = sweep (\<lambda>n. nt_owner n \<noteq> None) org ws now (w_notes db);
                rows = take (nat (min 1000 (max (limit * 20) limit))) (order_by2 nt_available_at nt_created_at
                  (filter (\<lambda>n. nt_org n = org \<and> nt_ws n = ws \<and> private_candidate db ps ntype now n) ns))
            in bindE (lease_private db org ws ps token_of worker (now + lease_seconds * 1000) now (nat limit) 0 rows ns)
                 (\<lambda>(leases, ns'). Inr (leases, db\<lparr>w_notes := ns'\<rparr>)))))"

section \<open>Reading notifications\<close>

definition require_notification_actor ::
  "wdb \<Rightarrow> string \<Rightarrow> string \<Rightarrow> note_row \<Rightarrow> string option \<Rightarrow> bool \<Rightarrow> unit res" where
  "require_notification_actor db org ws n actor private_scope = (case nt_owner n of
     Some owner \<Rightarrow> if actor \<noteq> Some (py_lower owner) then not_found ''WORK_NOTIFICATION_NOT_FOUND'' else Inr ()
   | None \<Rightarrow>
       (case nt_task n of
          None \<Rightarrow> if private_scope then not_found ''WORK_NOTIFICATION_NOT_FOUND'' else Inr ()
        | Some t \<Rightarrow> bindE (require_teams_task_actor db (org, ws, t) actor private_scope) (\<lambda>_. Inr ())))"

definition read_note ::
  "wdb \<Rightarrow> string \<Rightarrow> string \<Rightarrow> note_row option \<Rightarrow> string option \<Rightarrow> bool \<Rightarrow> json_object res" where
  "read_note db org ws row actor private_scope = (case row of
     None \<Rightarrow> not_found ''WORK_NOTIFICATION_NOT_FOUND''
   | Some n \<Rightarrow>
       bindE (case nt_task n of None \<Rightarrow> Inr True
              | Some t \<Rightarrow> require_teams_task_actor db (org, ws, t) actor private_scope) (\<lambda>_.
       bindE (require_notification_actor db org ws n actor private_scope) (\<lambda>_. notification_view n)))"

definition get_notification :: "string option \<Rightarrow> string \<Rightarrow> string \<Rightarrow> string option \<Rightarrow> bool \<Rightarrow> wdb \<Rightarrow> json_object res" where
  "get_notification org ws nid actor private_scope db =
    bindE (work_scope org ws) (\<lambda>(org, ws).
    bindE (work_identifier nid) (\<lambda>nid.
    bindE (actor_of actor) (\<lambda>actor.
      read_note db org ws (find_by nt_key (org, ws, nid) (w_notes db)) actor private_scope)))"

definition get_notification_by_deduplication_key ::
  "string option \<Rightarrow> string \<Rightarrow> string \<Rightarrow> string option \<Rightarrow> bool \<Rightarrow> wdb \<Rightarrow> json_object res" where
  "get_notification_by_deduplication_key org ws key actor private_scope db =
    bindE (work_scope org ws) (\<lambda>(org, ws).
    bindE (work_identifier key) (\<lambda>key.
    bindE (actor_of actor) (\<lambda>actor.
      read_note db org ws (find_by nt_dedup_key (org, ws, key) (w_notes db)) actor private_scope)))"

section \<open>Delivery transitions\<close>

text \<open>Who may touch a notification with a lease: the guards before the token is looked at.\<close>

definition transition_access ::
  "wdb \<Rightarrow> string \<Rightarrow> string \<Rightarrow> note_row \<Rightarrow> private_scope option \<Rightarrow> bool \<Rightarrow> bool \<Rightarrow> string option \<Rightarrow> bool \<Rightarrow> unit res" where
  "transition_access db org ws n ps allow_private private_only actor private_scope =
    (let hidden = not_found ''WORK_NOTIFICATION_NOT_FOUND'' in
     if nt_owner n = None \<and> nt_type n = ''teams.message'' \<and>
        (case nt_task n of None \<Rightarrow> False | Some t \<Rightarrow> t \<noteq> [] \<and> find_by po_key (org, ws, t) (w_owners db) \<noteq> None)
     then hidden
     else if nt_owner n \<noteq> None then
       (case ps of
          None \<Rightarrow> hidden
        | Some p \<Rightarrow>
            if \<not> allow_private then hidden
            else if nt_type n = HEALTH_TYPE then
              bindE (stored_object (nt_payload n)) (\<lambda>payload.
                if opt_text (nt_connector n) \<noteq> ''teams-v1'' \<or> opt_text (nt_recipient n) \<noteq> ''teams:owner-private''
                   \<or> nt_task n \<noteq> None \<or> nt_private_task n \<noteq> None
                   \<or> py_lower (opt_text (nt_owner n)) \<noteq> py_lower (opt_text (nt_private_aad n))
                   \<or> nt_private_bot n = None \<or> dget payload ''provider'' \<noteq> JStr ''microsoft_graph''
                then hidden
                else bindE (resolve_private_teams_installation_route db org ws (opt_text (nt_private_aad n))
                       (opt_text (nt_private_tenant n)) (opt_text (nt_private_bot n)) p) (\<lambda>_. Inr ()))
            else bindE (resolve_private_teams_route db org ws (opt_text (nt_private_task n)) (opt_text (nt_owner n)) p)
                   (\<lambda>_. Inr ()))
     else if private_only then hidden
     else (case nt_task n of
         Some t \<Rightarrow>
           bindE (actor_of actor) (\<lambda>actor.
           bindE (require_teams_task_actor db (org, ws, t) actor private_scope) (\<lambda>_. Inr ()))
       | None \<Rightarrow> if private_scope then hidden else Inr ()))"

definition lease_live :: "int \<Rightarrow> note_row \<Rightarrow> bool" where
  "lease_live now n \<longleftrightarrow> (case nt_lease n of None \<Rightarrow> 0 | Some l \<Rightarrow> l) > now"

text \<open>The state change itself, once the token has been accepted.\<close>

definition deliver :: "int \<Rightarrow> string \<Rightarrow> json_object \<Rightarrow> int option \<Rightarrow> note_row \<Rightarrow> note_row res" where
  "deliver now target result retry n =
    bindE (stored_object (nt_result n)) (\<lambda>old.
      let current = nt_status n in
      if target = ''started'' \<and> current = ''started'' then Inr n
      else if current = target \<and> py_eq (JDict old) (JDict result) then Inr n
      else if target = ''started'' then
        (if current \<noteq> ''leased'' \<or> \<not> lease_live now n then conflict ''WORK_NOTIFICATION_LEASE_LOST''
         else Inr (n\<lparr>nt_status := ''started'', nt_started_at := Some now, nt_updated_at := now\<rparr>))
      else if current \<noteq> ''started'' \<or> \<not> lease_live now n
        then conflict ''WORK_NOTIFICATION_DELIVERY_STATE_INVALID''
      else if target = ''retry'' then
        (case dget_or old ''retryCount'' (JInt 0) of
           JInt c \<Rightarrow>
             if c < 0 then raise ''WORK_STORAGE_CORRUPT'' 500
             else
               bindE (work_json_text (JDict (dset result ''retryCount'' (JInt (c + 1))))) (\<lambda>text.
                 Inr (n\<lparr>nt_status := ''queued'', nt_available_at := now + (case retry of None \<Rightarrow> 0 | Some s \<Rightarrow> s) * 1000,
                   nt_result := text, nt_updated_at := now, nt_worker := None, nt_token_hash := None,
                   nt_lease := None\<rparr>))
         | _ \<Rightarrow> raise ''WORK_STORAGE_CORRUPT'' 500)
      else
        bindE (work_json_text (JDict result)) (\<lambda>text.
          Inr (n\<lparr>nt_status := target, nt_result := text, nt_updated_at := now, nt_worker := None, nt_lease := None\<rparr>)))"

definition notification_transition ::
  "int \<Rightarrow> string option \<Rightarrow> string \<Rightarrow> string \<Rightarrow> string \<Rightarrow> string \<Rightarrow> json \<Rightarrow> int option \<Rightarrow> private_scope option \<Rightarrow> bool \<Rightarrow> bool
   \<Rightarrow> string option \<Rightarrow> bool \<Rightarrow> wdb \<Rightarrow> json_object res \<times> wdb" where
  "notification_transition now org ws nid token target result retry ps allow_private private_only actor private_scope db =
    commit db (
    bindE (work_scope org ws) (\<lambda>(org, ws).
    bindE (work_identifier nid) (\<lambda>nid.
      if token = [] then invalid ''WORK_NOTIFICATION_INVALID_LEASE''
      else
        bindE (work_json_object result) (\<lambda>result.
          case find_by nt_key (org, ws, nid) (w_notes db) of
            None \<Rightarrow> not_found ''WORK_NOTIFICATION_NOT_FOUND''
          | Some n \<Rightarrow>
              bindE (transition_access db org ws n ps allow_private private_only actor private_scope) (\<lambda>_.
                if opt_text (nt_token_hash n) \<noteq> sha256_hex token then conflict ''WORK_NOTIFICATION_LEASE_LOST''
                else
                  bindE (deliver now target result retry n) (\<lambda>n'.
                  bindE (notification_view n') (\<lambda>v.
                    Inr (v, db\<lparr>w_notes := edit_by nt_key (org, ws, nid) (\<lambda>_. n') (w_notes db)\<rparr>))))))))"

definition start_notification ::
  "int \<Rightarrow> string option \<Rightarrow> string \<Rightarrow> string \<Rightarrow> string \<Rightarrow> private_scope option \<Rightarrow> bool \<Rightarrow> bool \<Rightarrow> string option \<Rightarrow> bool \<Rightarrow> wdb
   \<Rightarrow> json_object res \<times> wdb" where
  "start_notification now org ws nid token ps allow_private private_only actor private_scope db =
    notification_transition now org ws nid token ''started'' (JDict []) None ps allow_private private_only actor
      private_scope db"

definition finish_notification ::
  "int \<Rightarrow> string option \<Rightarrow> string \<Rightarrow> string \<Rightarrow> string \<Rightarrow> string \<Rightarrow> json \<Rightarrow> int option \<Rightarrow> private_scope option \<Rightarrow> bool \<Rightarrow> bool
   \<Rightarrow> string option \<Rightarrow> bool \<Rightarrow> wdb \<Rightarrow> json_object res \<times> wdb" where
  "finish_notification now org ws nid token outcome result retry ps allow_private private_only actor private_scope db =
    (if outcome \<notin> {''delivered'', ''failed'', ''uncertain'', ''retry''}
       then (invalid ''WORK_NOTIFICATION_INVALID_OUTCOME'', db)
     else if outcome = ''retry'' \<and> (case retry of None \<Rightarrow> True | Some s \<Rightarrow> \<not> (1 \<le> s \<and> s \<le> 300))
       then (invalid ''WORK_NOTIFICATION_INVALID_RETRY'', db)
     else if outcome \<noteq> ''retry'' \<and> retry \<noteq> None then (invalid ''WORK_NOTIFICATION_INVALID_RETRY'', db)
     else notification_transition now org ws nid token outcome result retry ps allow_private private_only actor
       private_scope db)"

end
