(* ===== verification/Work_Task.thy ===== *)
theory Work_Task
  imports Work_Outbox
begin

text \<open>
  Tasks of the Work store: admission (with idempotent replay), read-only continuations, connector admission
  with verified Teams provenance, the executor's patch and single-winner claim, the task event log, the
  native session bindings and the paged listing. A generated task id is an argument.
\<close>

section \<open>Immutable provenance\<close>

definition record_private_task_owner :: "int \<Rightarrow> task_key \<Rightarrow> string \<Rightarrow> wdb \<Rightarrow> wdb res" where
  "record_private_task_owner now k actor db = (case k of (org, ws, tid) \<Rightarrow>
    bindE (work_identifier actor) (\<lambda>actor.
      case find_by po_key k (w_owners db) of
        Some p \<Rightarrow> if po_actor p \<noteq> py_lower actor then conflict ''WORK_TASK_PRIVATE_OWNER_CONFLICT'' else Inr db
      | None \<Rightarrow>
          bindE (insert_by po_key \<lparr>po_org = org, po_ws = ws, po_task = tid, po_actor = py_lower actor,
            po_created_at = now\<rparr> (w_owners db)) (\<lambda>os. Inr (db\<lparr>w_owners := os\<rparr>))))"

text \<open>The primary key and the unique message of \<open>work_task_teams_origins\<close>.\<close>

definition to_clash :: "origin_row \<Rightarrow> origin_row \<Rightarrow> bool" where
  "to_clash r r' \<longleftrightarrow> to_key r = to_key r' \<or>
     (to_org r, to_ws r, to_connector r, to_actor r, to_message r) =
     (to_org r', to_ws r', to_connector r', to_actor r', to_message r')"

definition record_teams_task_origin :: "int \<Rightarrow> task_key \<Rightarrow> string \<Rightarrow> json_object \<Rightarrow> wdb \<Rightarrow> wdb res" where
  "record_teams_task_origin now k actor origin db = (case k of (org, ws, tid) \<Rightarrow>
    bindE (bounded_text (dget origin ''actorIssuer'') 512 False) (\<lambda>issuer.
    bindE (work_identifier_of (dget origin ''actorSubject'')) (\<lambda>subject.
    bindE (work_identifier_of (dget origin ''tenantId'')) (\<lambda>tenant.
    bindE (work_identifier_of (dget origin ''connectorId'')) (\<lambda>connector.
    bindE (work_identifier_of (dget origin ''threadId'')) (\<lambda>thread.
    bindE (work_identifier_of (dget origin ''messageId'')) (\<lambda>message.
      let kind = dget_or origin ''conversationKind'' (JStr ''channel'') in
      if \<not> hashable kind then Inl TypeError
      else if kind \<notin> {JStr ''channel'', JStr ''private''} then invalid ''WORK_CONNECTOR_INVALID_TEAMS_ORIGIN''
      else
        bindE (if kind = JStr ''private''
               then bindE (canonical_uuid (dget origin ''botAppId'')) (\<lambda>b. Inr (Some b)) else Inr None) (\<lambda>bot_app.
          if py_lower subject \<noteq> py_lower actor then raise ''WORK_CONNECTOR_TEAMS_ACTOR_MISMATCH'' 403
          else
            let row = \<lparr>to_org = org, to_ws = ws, to_task = tid, to_actor = py_lower actor, to_issuer = issuer,
                  to_subject = py_lower subject, to_tenant = py_lower tenant, to_connector = connector,
                  to_thread = thread, to_message = message,
                  to_kind = (if kind = JStr ''private'' then ''private'' else ''channel''), to_bot = bot_app,
                  to_created_at = now\<rparr>
            in (case find_by to_key k (w_origins db) of
                  Some old \<Rightarrow>
                    if old\<lparr>to_created_at := now\<rparr> \<noteq> row then conflict ''WORK_CONNECTOR_TASK_ORIGIN_CONFLICT'' else Inr db
                | None \<Rightarrow> bindE (insert_with to_clash row (w_origins db)) (\<lambda>os. Inr (db\<lparr>w_origins := os\<rparr>)))))))))))"

section \<open>Admission\<close>

definition new_task :: "string \<Rightarrow> string \<Rightarrow> string \<Rightarrow> string \<Rightarrow> string \<Rightarrow> int \<Rightarrow> task_row" where
  "new_task org ws tid session prompt now =
    \<lparr>tk_org = org, tk_ws = ws, tk_id = tid, tk_session = session, tk_prompt = prompt, tk_status = ''queued'',
     tk_created_at = now, tk_started_at = None, tk_ended_at = None, tk_output = [], tk_reasoning = [],
     tk_error = None, tk_duration = 0, tk_sequence = 0, tk_title = None, tk_description = None,
     tk_metadata = ''{}'', tk_digest = [], tk_creator = [], tk_cont_of = None, tk_cont_mode = None,
     tk_class = ''foreground''\<rparr>"

definition created_event :: json_object where
  "created_event = [(''type'', JStr ''task.created'')]"

text \<open>The fields every creation digest covers.\<close>

definition creation_fields ::
  "string \<Rightarrow> string \<Rightarrow> string option \<Rightarrow> string option \<Rightarrow> json_object \<Rightarrow> json_object" where
  "creation_fields session prompt title description metadata =
    [(''sessionId'', JStr session), (''prompt'', JStr prompt), (''title'', jopt title),
     (''description'', jopt description), (''metadata'', JDict metadata)]"

definition record_owner_if :: "bool \<Rightarrow> int \<Rightarrow> task_key \<Rightarrow> string \<Rightarrow> wdb \<Rightarrow> wdb res" where
  "record_owner_if private_scope now k actor db =
    (if private_scope then record_private_task_owner now k actor db else Inr db)"

text \<open>The body fields shared by the two admissions: id, session, prompt, and then title, description, metadata.\<close>

definition task_head :: "string \<Rightarrow> json_object \<Rightarrow> (string \<times> string \<times> string) res" where
  "task_head fresh_id body =
    bindE (work_identifier_of (if jtruthy (dget body ''id'') then dget body ''id'' else JStr fresh_id)) (\<lambda>tid.
    bindE (work_identifier_of (dget body ''sessionId'')) (\<lambda>session.
    bindE (bounded_text (dget body ''prompt'') 100000 False) (\<lambda>prompt.
      Inr (tid, session, prompt))))"

definition task_body :: "json_object \<Rightarrow> (string option \<times> string option \<times> json_object) res" where
  "task_body body =
    bindE (optional_text (dget body ''title'') 512) (\<lambda>title.
    bindE (optional_text (dget body ''description'') 20000) (\<lambda>description.
    bindE (work_json_object (dget_or body ''metadata'' (JDict []))) (\<lambda>metadata.
    bindE (task_notification_descriptor metadata) (\<lambda>_.
      Inr (title, description, metadata)))))"

definition execution_class_of :: "json_object \<Rightarrow> string res" where
  "execution_class_of body = (case dget_or body ''executionClass'' (JStr ''foreground'') of
     JStr s \<Rightarrow> if s \<in> {''foreground'', ''background''} then Inr s else invalid ''WORK_TASK_INVALID_EXECUTION_CLASS''
   | v \<Rightarrow> if hashable v then invalid ''WORK_TASK_INVALID_EXECUTION_CLASS'' else Inl TypeError)"

definition creator_of :: "string option \<Rightarrow> string res" where
  "creator_of actor = (case actor of None \<Rightarrow> Inr [] | Some a \<Rightarrow> if a = [] then Inr [] else work_identifier a)"

definition create_task ::
  "string \<Rightarrow> int \<Rightarrow> int \<Rightarrow> string option \<Rightarrow> string \<Rightarrow> json_object \<Rightarrow> string option \<Rightarrow> bool \<Rightarrow> wdb
   \<Rightarrow> (json_object \<times> bool) res \<times> wdb" where
  "create_task fresh_id now t2 org ws body actor private_scope db = commit db (
    bindE (work_scope org ws) (\<lambda>(org, ws).
    bindE (task_head fresh_id body) (\<lambda>(tid, session, prompt).
    bindE (execution_class_of body) (\<lambda>cls.
    bindE (task_body body) (\<lambda>(title, description, metadata).
    bindE (creator_of actor) (\<lambda>creator.
    bindE (validate_task_execution_metadata cls metadata creator ws) (\<lambda>_.
    let base_fields = creation_fields session prompt title description metadata; k = (org, ws, tid) in
    bindE (work_digest (JDict (base_fields @ [(''executionClass'', JStr cls), (''createdByActorId'', JStr creator)]))) (\<lambda>digest.
    bindE (work_digest (JDict (base_fields @ [(''createdByActorId'', JStr creator)]))) (\<lambda>prior_digest.
    bindE (work_digest (JDict base_fields)) (\<lambda>legacy_digest.
      case find_task db k of
        Some row \<Rightarrow>
          if tk_digest row \<noteq> digest \<and> \<not> (cls = ''foreground'' \<and> tk_class row \<in> {[], ''foreground''} \<and>
               tk_digest row \<in> {prior_digest, legacy_digest})
          then conflict ''WORK_TASK_ID_CONFLICT''
          else bindE (record_owner_if private_scope t2 k creator db) (\<lambda>db'.
               bindE (task_view db' row) (\<lambda>v. Inr ((v, True), db')))
      | None \<Rightarrow>
          bindE (work_json_text (JDict metadata)) (\<lambda>mtext.
          bindE (insert_by tk_key ((new_task org ws tid session prompt now)\<lparr>tk_title := title,
              tk_description := description, tk_metadata := mtext, tk_digest := digest, tk_creator := creator,
              tk_class := cls\<rparr>) (w_tasks db)) (\<lambda>ts.
          bindE (append_event k created_event None now (db\<lparr>w_tasks := ts\<rparr>)) (\<lambda>(_, db1).
          bindE (record_owner_if private_scope t2 k creator db1) (\<lambda>db2.
          bindE (require_task db2 k) (\<lambda>row.
          bindE (task_view db2 row) (\<lambda>v. Inr ((v, False), db2)))))))))))))))))"

text \<open>\<open>_create_task_in_transaction\<close>: admission inside the connector intake's transaction.\<close>

definition create_task_in_transaction ::
  "string \<Rightarrow> int \<Rightarrow> int \<Rightarrow> string \<Rightarrow> string \<Rightarrow> json_object \<Rightarrow> string option \<Rightarrow> bool \<Rightarrow> json_object option \<Rightarrow> wdb
   \<Rightarrow> ((json_object \<times> bool) \<times> wdb) res" where
  "create_task_in_transaction fresh_id now t2 org ws body actor private_scope origin db =
    bindE (task_head fresh_id body) (\<lambda>(tid, session, prompt).
    bindE (task_body body) (\<lambda>(title, description, metadata).
    bindE (creator_of actor) (\<lambda>creator.
      if origin \<noteq> None \<and> creator = [] then raise ''WORK_CONNECTOR_TEAMS_ACTOR_MISMATCH'' 403
      else
        let base_fields = creation_fields session prompt title description metadata; k = (org, ws, tid);
            record_origin = (\<lambda>db. case origin of None \<Rightarrow> Inr db
              | Some o' \<Rightarrow> record_teams_task_origin now k creator o' db) in
        bindE (work_digest (JDict (base_fields @ [(''createdByActorId'', JStr creator)]))) (\<lambda>digest.
        bindE (work_digest (JDict base_fields)) (\<lambda>legacy_digest.
          case find_task db k of
            Some row \<Rightarrow>
              if tk_digest row \<noteq> digest \<and> \<not> (tk_creator row = [] \<and> tk_digest row = legacy_digest)
              then conflict ''WORK_TASK_ID_CONFLICT''
              else bindE (record_owner_if private_scope t2 k creator db) (\<lambda>db1.
                   bindE (record_origin db1) (\<lambda>db2.
                   bindE (task_view db2 row) (\<lambda>v. Inr ((v, True), db2))))
          | None \<Rightarrow>
              bindE (work_json_text (JDict metadata)) (\<lambda>mtext.
              bindE (insert_by tk_key ((new_task org ws tid session prompt now)\<lparr>tk_title := title,
                  tk_description := description, tk_metadata := mtext, tk_digest := digest,
                  tk_creator := creator\<rparr>) (w_tasks db)) (\<lambda>ts.
              bindE (append_event k created_event None now (db\<lparr>w_tasks := ts\<rparr>)) (\<lambda>(_, db1).
              bindE (record_owner_if private_scope t2 k creator db1) (\<lambda>db2.
              bindE (record_origin db2) (\<lambda>db3.
              bindE (require_task db3 k) (\<lambda>row.
              bindE (task_view db3 row) (\<lambda>v. Inr ((v, False), db3)))))))))))))"

section \<open>Continuations\<close>

text \<open>The checks \<open>create_task_continuation\<close> and \<open>verify_task_continuation_owner\<close> share.\<close>

definition continuation_source :: "wdb \<Rightarrow> task_key \<Rightarrow> string \<Rightarrow> bool \<Rightarrow> task_row res" where
  "continuation_source db k actor private_scope =
    bindE (require_task db k) (\<lambda>source.
    bindE (require_teams_task_actor db k (Some (py_lower actor)) private_scope) (\<lambda>_.
      if tk_creator source \<noteq> actor then not_found ''WORK_TASK_NOT_FOUND''
      else if tk_status source \<noteq> ''awaiting_user_authorization''
        then conflict ''WORK_TASK_NOT_AWAITING_AUTHORIZATION''
      else Inr source))"

definition continuation_event :: "string \<Rightarrow> string \<Rightarrow> json_object" where
  "continuation_event field tid =
    [(''type'', JStr ''task.continuation_started''), (field, JStr tid), (''mode'', JStr ''read_only'')]"

definition create_task_continuation ::
  "int \<Rightarrow> int \<Rightarrow> string option \<Rightarrow> string \<Rightarrow> string \<Rightarrow> string \<Rightarrow> json \<Rightarrow> json \<Rightarrow> bool \<Rightarrow> wdb \<Rightarrow> (json_object \<times> bool) res \<times> wdb" where
  "create_task_continuation now t2 org ws source_id actor prompt key private_scope db = commit db (
    bindE (work_scope org ws) (\<lambda>(org, ws).
    bindE (work_identifier source_id) (\<lambda>source_id.
    bindE (work_identifier actor) (\<lambda>actor.
    bindE (bounded_text prompt 20000 False) (\<lambda>prompt.
    bindE (bounded_text key 200 False) (\<lambda>key.
    bindE (work_digest (JDict [(''sourceTaskId'', JStr source_id), (''actorId'', JStr actor),
        (''idempotencyKey'', JStr key)])) (\<lambda>id_digest.
    bindE (continuation_source db (org, ws, source_id) actor private_scope) (\<lambda>source.
    let tid = ''continuation-'' @ id_digest; k = (org, ws, tid) in
    bindE (work_digest (JDict [(''sessionId'', JStr (tk_session source)), (''prompt'', JStr prompt),
        (''sourceTaskId'', JStr source_id), (''continuationMode'', JStr ''read_only''), (''actorId'', JStr actor),
        (''idempotencyKey'', JStr key)])) (\<lambda>digest.
      case find_task db k of
        Some row \<Rightarrow>
          if tk_digest row \<noteq> digest then conflict ''WORK_TASK_ID_CONFLICT''
          else bindE (task_view db row) (\<lambda>v. Inr ((v, True), db))
      | None \<Rightarrow>
          bindE (insert_by tk_key ((new_task org ws tid (tk_session source) prompt now)\<lparr>tk_digest := digest,
              tk_creator := actor, tk_cont_of := Some source_id, tk_cont_mode := Some ''read_only'',
              tk_class := (if tk_class source = [] then ''foreground'' else tk_class source)\<rparr>) (w_tasks db)) (\<lambda>ts.
          bindE (record_private_task_owner t2 k actor (db\<lparr>w_tasks := ts\<rparr>)) (\<lambda>db1.
          bindE (append_event k (created_event @ [(''continuationOfTaskId'', JStr source_id),
              (''continuationMode'', JStr ''read_only'')]) None now db1) (\<lambda>(_, db2).
          bindE (append_event k (continuation_event ''sourceTaskId'' source_id) None now db2) (\<lambda>(_, db3).
          bindE (append_event (org, ws, source_id) (continuation_event ''continuationTaskId'' tid) None now db3) (\<lambda>(_, db4).
          bindE (require_task db4 k) (\<lambda>row.
          bindE (task_view db4 row) (\<lambda>v. Inr ((v, False), db4)))))))))))))))))"

definition verify_task_continuation_owner ::
  "string option \<Rightarrow> string \<Rightarrow> string \<Rightarrow> string \<Rightarrow> bool \<Rightarrow> wdb \<Rightarrow> unit res" where
  "verify_task_continuation_owner org ws source_id actor private_scope db =
    bindE (work_scope org ws) (\<lambda>(org, ws).
    bindE (work_identifier source_id) (\<lambda>source_id.
    bindE (work_identifier actor) (\<lambda>actor.
    bindE (continuation_source db (org, ws, source_id) actor private_scope) (\<lambda>_. Inr ()))))"

section \<open>The executor: claim and patch\<close>

definition claim_task ::
  "int \<Rightarrow> string option \<Rightarrow> string \<Rightarrow> string \<Rightarrow> string option \<Rightarrow> bool \<Rightarrow> wdb \<Rightarrow> (bool \<times> json_object) res \<times> wdb" where
  "claim_task now org ws tid actor private_scope db = commit db (
    bindE (work_scope org ws) (\<lambda>(org, ws).
    bindE (work_identifier tid) (\<lambda>tid.
    bindE (actor_of actor) (\<lambda>actor.
    let k = (org, ws, tid) in
    bindE (require_task db k) (\<lambda>task.
    bindE (require_teams_task_actor db k actor private_scope) (\<lambda>_.
      if tk_status task \<noteq> ''queued'' then bindE (task_view db task) (\<lambda>v. Inr ((False, v), db))
      else
        let db1 = db\<lparr>w_tasks := edit_by tk_key k (\<lambda>r. r\<lparr>tk_status := ''running'',
              tk_started_at := (case tk_started_at r of None \<Rightarrow> Some now | Some t \<Rightarrow> Some t)\<rparr>) (w_tasks db)\<rparr> in
        bindE (append_event k (status_event ''queued'' ''running'') None now db1) (\<lambda>(_, db2).
        bindE (require_task db2 k) (\<lambda>row.
        bindE (task_view db2 row) (\<lambda>v. Inr ((True, v), db2))))))))))"

definition patch_fields :: "string list" where
  "patch_fields = [''prompt'', ''title'', ''description'', ''status'', ''output'', ''reasoning'', ''error'', ''metadata'']"

text \<open>
  The transition guard of \<open>patch_task\<close>: moves that belong to the claim and gate routes are refused, and every
  other move must be an edge of \<open>_TASK_TRANSITIONS\<close>.
\<close>

definition patch_status :: "string \<Rightarrow> json \<Rightarrow> string res" where
  "patch_status old v =
    (if v = JStr old then Inr old
     else if old = ''queued'' \<and> v = JStr ''running'' then conflict ''WORK_TASK_CLAIM_REQUIRED''
     else if v = JStr ''waiting_approval'' \<or> (old = ''waiting_approval'' \<and> v = JStr ''running'')
       then conflict ''WORK_TASK_APPROVAL_REQUIRED''
     else if v = JStr ''waiting_input'' \<or> (old = ''waiting_input'' \<and> v = JStr ''running'')
       then conflict ''WORK_INPUT_REQUEST_REQUIRED''
     else (case task_transitions old of
         None \<Rightarrow> Inl KeyError
       | Some targets \<Rightarrow>
           (case v of
              JStr new \<Rightarrow> if new \<in> targets then Inr new else conflict ''WORK_TASK_INVALID_TRANSITION''
            | _ \<Rightarrow> if hashable v then conflict ''WORK_TASK_INVALID_TRANSITION'' else Inl TypeError)))"

text \<open>One text column of the patch: absent, cleared or replaced.\<close>

definition patch_text :: "json_object \<Rightarrow> string \<Rightarrow> nat \<Rightarrow> (json option) res" where
  "patch_text patch field maximum =
    (if \<not> dhas patch field then Inr None
     else if dget patch field \<noteq> JNull
       then bindE (bounded_text (dget patch field) maximum (field \<in> {''output'', ''reasoning''})) (\<lambda>s. Inr (Some (JStr s)))
     else if field = ''prompt'' then invalid ''WORK_TASK_INVALID_PATCH''
     else if field \<in> {''output'', ''reasoning''} then Inr (Some (JStr []))
     else Inr (Some JNull))"

definition text_or :: "json option \<Rightarrow> string \<Rightarrow> string" where
  "text_or v old = (case v of Some (JStr s) \<Rightarrow> s | _ \<Rightarrow> old)"

definition opt_or :: "json option \<Rightarrow> string option \<Rightarrow> string option" where
  "opt_or v old = (case v of None \<Rightarrow> old | Some (JStr s) \<Rightarrow> Some s | Some _ \<Rightarrow> None)"

definition patch_times :: "int \<Rightarrow> string \<Rightarrow> task_row \<Rightarrow> task_row" where
  "patch_times now new r =
    (let started = (if new = ''running'' \<and> tk_started_at r = None then Some now else tk_started_at r) in
     if new \<in> terminal_task_states \<and> tk_ended_at r = None
     then r\<lparr>tk_started_at := started, tk_ended_at := Some now,
            tk_duration := (case started of None \<Rightarrow> tk_duration r | Some s \<Rightarrow> max 0 (now - s))\<rparr>
     else r\<lparr>tk_started_at := started\<rparr>)"

definition patch_row :: "json_object \<Rightarrow> int \<Rightarrow> string \<Rightarrow> task_row \<Rightarrow> task_row res" where
  "patch_row patch now new row =
    bindE (patch_text patch ''prompt'' 100000) (\<lambda>prompt.
    bindE (patch_text patch ''title'' 512) (\<lambda>title.
    bindE (patch_text patch ''description'' 20000) (\<lambda>description.
    bindE (patch_text patch ''output'' 2000000) (\<lambda>output.
    bindE (patch_text patch ''reasoning'' 2000000) (\<lambda>reasoning.
    bindE (patch_text patch ''error'' 200000) (\<lambda>err.
    bindE (if dhas patch ''metadata'' then
             bindE (work_json_object (dget patch ''metadata'')) (\<lambda>m.
             bindE (task_notification_descriptor m) (\<lambda>_. work_json_text (JDict m)))
           else Inr (tk_metadata row)) (\<lambda>metadata.
      Inr ((patch_times now new row)\<lparr>tk_status := new, tk_prompt := text_or prompt (tk_prompt row),
        tk_title := opt_or title (tk_title row), tk_description := opt_or description (tk_description row),
        tk_output := text_or output (tk_output row), tk_reasoning := text_or reasoning (tk_reasoning row),
        tk_error := opt_or err (tk_error row), tk_metadata := metadata\<rparr>))))))))"

definition patch_task ::
  "string \<Rightarrow> int \<Rightarrow> string option \<Rightarrow> string \<Rightarrow> string \<Rightarrow> json_object \<Rightarrow> string option \<Rightarrow> bool \<Rightarrow> private_scope option \<Rightarrow> wdb
   \<Rightarrow> json_object res \<times> wdb" where
  "patch_task nid now org ws tid patch actor private_scope ps db = commit db (
    bindE (work_scope org ws) (\<lambda>(org, ws).
    bindE (work_identifier tid) (\<lambda>tid.
    bindE (actor_of actor) (\<lambda>actor.
      if patch = [] \<or> \<not> (set (map fst patch) \<subseteq> set patch_fields) then invalid ''WORK_TASK_INVALID_PATCH''
      else
        let k = (org, ws, tid) in
        bindE (require_task db k) (\<lambda>row.
        bindE (require_teams_task_actor db k actor private_scope) (\<lambda>_.
        let old = tk_status row in
        bindE (patch_status old (dget_or patch ''status'' (JStr old))) (\<lambda>new.
        bindE (patch_row patch now new row) (\<lambda>row'.
        let db1 = db\<lparr>w_tasks := edit_by tk_key k (\<lambda>_. row') (w_tasks db)\<rparr> in
        bindE (if new \<noteq> old then
                 bindE (append_event k (status_event old new) None now db1) (\<lambda>(_, db2).
                   if new \<in> terminal_task_states then
                     bindE (require_task db2 k) (\<lambda>terminal.
                       queue_task_result_notification nid org ws terminal now ps db2)
                   else Inr db2)
               else Inr db1) (\<lambda>db3.
        bindE (require_task db3 k) (\<lambda>final.
        bindE (task_view db3 final) (\<lambda>v. Inr (v, db3))))))))))))"

section \<open>Reading and logging\<close>

definition get_task :: "string option \<Rightarrow> string \<Rightarrow> string \<Rightarrow> string option \<Rightarrow> bool \<Rightarrow> wdb \<Rightarrow> json_object res" where
  "get_task org ws tid actor private_scope db =
    bindE (work_scope org ws) (\<lambda>(org, ws).
    bindE (work_identifier tid) (\<lambda>tid.
    bindE (case actor of None \<Rightarrow> Inr None | Some a \<Rightarrow> bindE (work_identifier a) (\<lambda>a. Inr (Some a))) (\<lambda>actor.
    bindE (require_task db (org, ws, tid)) (\<lambda>row.
    bindE (require_teams_task_actor db (org, ws, tid) actor private_scope) (\<lambda>_.
      task_view db row)))))"

definition append_task_event ::
  "int \<Rightarrow> string option \<Rightarrow> string \<Rightarrow> string \<Rightarrow> json \<Rightarrow> string option \<Rightarrow> string option \<Rightarrow> bool \<Rightarrow> wdb
   \<Rightarrow> (int \<times> json_object \<times> bool \<times> json_object \<times> int) res \<times> wdb" where
  "append_task_event now org ws tid event msg actor private_scope db = commit db (
    bindE (work_scope org ws) (\<lambda>(org, ws).
    bindE (work_identifier tid) (\<lambda>tid.
    bindE (actor_of actor) (\<lambda>actor.
    bindE (work_json_object event) (\<lambda>event.
      if (case dget event ''type'' of JStr s \<Rightarrow> py_strip s = [] \<or> length s > 256 | _ \<Rightarrow> True)
      then invalid ''WORK_TASK_INVALID_EVENT''
      else
        bindE (case msg of None \<Rightarrow> Inr None | Some m \<Rightarrow> bindE (work_identifier m) (\<lambda>m. Inr (Some m))) (\<lambda>msg.
        bindE (work_digest (JDict event)) (\<lambda>digest.
        let k = (org, ws, tid) in
        bindE (require_task db k) (\<lambda>_.
        bindE (require_teams_task_actor db k actor private_scope) (\<lambda>_.
          case (if msg = None then None
                else List.find (\<lambda>e. te_scope e = k \<and> te_message e = msg) (w_events db)) of
            Some prior \<Rightarrow>
              if te_digest prior \<noteq> digest then conflict ''WORK_TASK_EVENT_ID_CONFLICT''
              else bindE (stored_object (te_json prior)) (\<lambda>e.
                   bindE (require_task db k) (\<lambda>row.
                   bindE (task_view db row) (\<lambda>v. Inr ((te_seq prior, e, True, v, te_created_at prior), db))))
          | None \<Rightarrow>
              bindE (append_event k event msg now db) (\<lambda>(seq, db').
              bindE (require_task db' k) (\<lambda>row.
              bindE (task_view db' row) (\<lambda>v. Inr ((seq, event, False, v, now), db')))))))))))))"

definition event_envelope :: "task_event_row \<Rightarrow> json_object res" where
  "event_envelope e =
    bindE (stored_object (te_json e)) (\<lambda>d.
      Inr ([(''seq'', JInt (te_seq e)), (''event'', JDict d), (''createdAt'', JInt (te_created_at e))] @
        (case te_message e of None \<Rightarrow> [] | Some m \<Rightarrow> if m = [] then [] else [(''messageId'', JStr m)])))"

definition get_task_events ::
  "string option \<Rightarrow> string \<Rightarrow> string \<Rightarrow> int \<Rightarrow> int \<Rightarrow> string option \<Rightarrow> bool \<Rightarrow> wdb \<Rightarrow> (json_object list \<times> int) res" where
  "get_task_events org ws tid after limit actor private_scope db =
    bindE (work_scope org ws) (\<lambda>(org, ws).
    bindE (work_identifier tid) (\<lambda>tid.
    bindE (actor_of actor) (\<lambda>actor.
      if after < 0 \<or> \<not> (1 \<le> limit \<and> limit \<le> 10000) then invalid ''WORK_TASK_INVALID_CURSOR''
      else
        bindE (require_task db (org, ws, tid)) (\<lambda>task.
        bindE (require_teams_task_actor db (org, ws, tid) actor private_scope) (\<lambda>_.
        bindE (mapE event_envelope (take (nat limit) (order_by te_seq (filter (\<lambda>e.
            te_scope e = (org, ws, tid) \<and> te_seq e > after) (w_events db))))) (\<lambda>events.
          Inr (events, tk_sequence task + 1)))))))"

section \<open>Native sessions\<close>

definition backend_view :: "string \<Rightarrow> string \<Rightarrow> string \<Rightarrow> json_object" where
  "backend_view backend session native =
    [(''backend'', JStr backend), (''sessionId'', JStr session), (''nativeSessionId'', JStr native)]"

definition actor_text :: "string option \<Rightarrow> string" where
  "actor_text a = (case a of None \<Rightarrow> [] | Some s \<Rightarrow> s)"

text \<open>The task a native session is reached through must be running and visible.\<close>

definition running_for_backend ::
  "wdb \<Rightarrow> task_key \<Rightarrow> string option \<Rightarrow> bool \<Rightarrow> (task_row \<times> bool) res" where
  "running_for_backend db k actor private_scope =
    bindE (require_task db k) (\<lambda>task.
    bindE (require_teams_task_actor db k actor private_scope) (\<lambda>teams.
      if tk_status task \<noteq> ''running'' then conflict ''WORK_BACKEND_SESSION_TASK_NOT_RUNNING''
      else Inr (task, teams)))"

definition foreign_task :: "wdb \<Rightarrow> string \<Rightarrow> string \<Rightarrow> string \<Rightarrow> string \<Rightarrow> bool" where
  "foreign_task db org ws session actor = list_ex (\<lambda>t. tk_org t = org \<and> tk_ws t = ws \<and> tk_session t = session \<and>
     sql_lower (tk_creator t) \<noteq> actor) (w_tasks db)"

definition foreign_route :: "wdb \<Rightarrow> string \<Rightarrow> string \<Rightarrow> string \<Rightarrow> string \<Rightarrow> bool" where
  "foreign_route db org ws session actor = list_ex (\<lambda>r. at_org r = org \<and> at_ws r = ws \<and>
     at_session r = Some session \<and> at_subject r \<noteq> actor) (w_actor_threads db)"

definition get_backend_session ::
  "string option \<Rightarrow> string \<Rightarrow> string \<Rightarrow> string \<Rightarrow> string option \<Rightarrow> bool \<Rightarrow> wdb \<Rightarrow> json_object option res" where
  "get_backend_session org ws tid backend actor private_scope db =
    bindE (work_scope org ws) (\<lambda>(org, ws).
    bindE (work_identifier tid) (\<lambda>tid.
    bindE (work_identifier backend) (\<lambda>backend.
    bindE (actor_of actor) (\<lambda>actor.
      if backend \<notin> set native_session_backends then invalid ''WORK_BACKEND_SESSION_INVALID''
      else
        bindE (running_for_backend db (org, ws, tid) actor private_scope) (\<lambda>(task, teams).
        let session = tk_session task; a = actor_text actor;
            shared = find_by bs_key (org, ws, [], session, backend) (w_backend db) in
        bindE (if teams \<or> private_scope then
                 (case find_by bs_key (org, ws, a, session, backend) (w_actor_backend db) of
                    Some r \<Rightarrow> Inr (Some r)
                  | None \<Rightarrow>
                      Inr (if private_scope \<and> \<not> teams \<and> \<not> foreign_task db org ws session a
                              \<and> \<not> foreign_route db org ws session a then shared else None))
               else bindE (require_no_foreign_teams_session db org ws session actor) (\<lambda>_. Inr shared)) (\<lambda>row.
          Inr (map_option (\<lambda>r. backend_view (bs_backend r) session (bs_native r)) row)))))))"

definition bind_backend_session ::
  "int \<Rightarrow> string option \<Rightarrow> string \<Rightarrow> string \<Rightarrow> string \<Rightarrow> string \<Rightarrow> string option \<Rightarrow> bool \<Rightarrow> wdb \<Rightarrow> json_object res \<times> wdb" where
  "bind_backend_session now org ws tid backend native actor private_scope db = commit db (
    bindE (work_scope org ws) (\<lambda>(org, ws).
    bindE (work_identifier tid) (\<lambda>tid.
    bindE (work_identifier backend) (\<lambda>backend.
    bindE (work_identifier native) (\<lambda>native.
    bindE (actor_of actor) (\<lambda>actor.
      if backend \<notin> set native_session_backends then invalid ''WORK_BACKEND_SESSION_INVALID''
      else
        bindE (running_for_backend db (org, ws, tid) actor private_scope) (\<lambda>(task, teams).
        let session = tk_session task; own = (teams \<or> private_scope);
            row = \<lparr>bs_org = org, bs_ws = ws, bs_actor = (if own then actor_text actor else []), bs_session = session,
                   bs_backend = backend, bs_native = native, bs_created_at = now\<rparr>;
            table = (if own then w_actor_backend db else w_backend db) in
        bindE (if own then Inr () else require_no_foreign_teams_session db org ws session actor) (\<lambda>_.
          case find_by bs_key (bs_key row) table of
            Some r \<Rightarrow>
              if bs_native r \<noteq> native then conflict ''WORK_BACKEND_SESSION_CONFLICT''
              else Inr (backend_view backend session native, db)
          | None \<Rightarrow>
              bindE (insert_by bs_key row table) (\<lambda>t.
                Inr (backend_view backend session native,
                     if own then db\<lparr>w_actor_backend := t\<rparr> else db\<lparr>w_backend := t\<rparr>))))))))))"

end
