(* ===== verification/Work_Gate.thy ===== *)
theory Work_Gate
  imports Work_Task
begin

text \<open>
  The two human gates of a task: approvals and input requests. Opening a gate parks its task in
  \<open>waiting_approval\<close> or \<open>waiting_input\<close>; resolving it once moves the task on. A generated gate id is an
  argument, as is the clock reading.
\<close>

section \<open>Approvals\<close>

text \<open>The primary key, the unique message and the index \<open>work_approvals_one_pending\<close>.\<close>

definition ap_clash :: "approval_row \<Rightarrow> approval_row \<Rightarrow> bool" where
  "ap_clash r r' \<longleftrightarrow> ap_org r = ap_org r' \<and> ap_ws r = ap_ws r' \<and>
     (ap_id r = ap_id r' \<or> (ap_create_message r \<noteq> None \<and> ap_create_message r = ap_create_message r') \<or>
      (ap_task r = ap_task r' \<and> ap_status r = ''pending'' \<and> ap_status r' = ''pending''))"

definition pending_approval :: "wdb \<Rightarrow> task_key \<Rightarrow> bool" where
  "pending_approval db k = list_ex (\<lambda>a. (ap_org a, ap_ws a, ap_task a) = k \<and> ap_status a = ''pending'') (w_approvals db)"

definition set_status :: "task_key \<Rightarrow> string \<Rightarrow> wdb \<Rightarrow> wdb" where
  "set_status k status db = db\<lparr>w_tasks := edit_by tk_key k (\<lambda>r. r\<lparr>tk_status := status\<rparr>) (w_tasks db)\<rparr>"

definition approval_event :: "string \<Rightarrow> string \<Rightarrow> json_object" where
  "approval_event what aid = [(''type'', JStr (''approval.'' @ what)), (''approvalId'', JStr aid)]"

definition message_of :: "json_object \<Rightarrow> string option res" where
  "message_of body = (case dget body ''messageId'' of JNull \<Rightarrow> Inr None
     | v \<Rightarrow> bindE (work_identifier_of v) (\<lambda>m. Inr (Some m)))"

definition open_approval ::
  "string \<Rightarrow> int \<Rightarrow> task_key \<Rightarrow> string \<Rightarrow> string \<Rightarrow> json_object \<Rightarrow> string option \<Rightarrow> string \<Rightarrow> task_row \<Rightarrow> wdb
   \<Rightarrow> ((json_object \<times> json_object \<times> bool) \<times> wdb) res" where
  "open_approval aid now k kind summary details msg digest task db = (case k of (org, ws, tid) \<Rightarrow>
    if pending_approval db k then conflict ''WORK_APPROVAL_ALREADY_PENDING''
    else if tk_status task \<notin> {''queued'', ''running''} then conflict ''WORK_APPROVAL_TASK_STATE_INVALID''
    else
      bindE (work_json_text (JDict details)) (\<lambda>text.
      let row = \<lparr>ap_org = org, ap_ws = ws, ap_id = aid, ap_task = tid, ap_kind = kind, ap_summary = summary,
            ap_details = text, ap_status = ''pending'', ap_created_at = now, ap_resolved_at = None,
            ap_resolved_by = None, ap_message = None, ap_create_message = msg, ap_create_digest = digest,
            ap_resolution_digest = None\<rparr> in
      bindE (insert_with ap_clash row (w_approvals db)) (\<lambda>as.
      bindE (append_event k (status_event (tk_status task) ''waiting_approval'') None now
        (set_status k ''waiting_approval'' (db\<lparr>w_approvals := as\<rparr>))) (\<lambda>(_, db1).
      bindE (append_event k (approval_event ''created'' aid @ [(''kind'', JStr kind)]) None now db1) (\<lambda>(_, db2).
      bindE (approval_view row) (\<lambda>v.
      bindE (require_task db2 k) (\<lambda>t.
      bindE (task_view db2 t) (\<lambda>tv. Inr ((v, tv, False), db2)))))))))"

definition create_approval ::
  "string \<Rightarrow> int \<Rightarrow> string option \<Rightarrow> string \<Rightarrow> string \<Rightarrow> json_object \<Rightarrow> string \<Rightarrow> bool \<Rightarrow> wdb
   \<Rightarrow> (json_object \<times> json_object \<times> bool) res \<times> wdb" where
  "create_approval aid now org ws tid body actor private_scope db = commit db (
    bindE (work_scope org ws) (\<lambda>(org, ws).
    bindE (work_identifier tid) (\<lambda>tid.
    bindE (bounded_text (dget body ''kind'') 128 False) (\<lambda>kind.
    bindE (bounded_text (dget body ''summary'') 2000 False) (\<lambda>summary.
    bindE (work_json_object (dget_or body ''details'' (JDict []))) (\<lambda>details.
    bindE (message_of body) (\<lambda>msg.
    bindE (work_digest (JDict [(''taskId'', JStr tid), (''kind'', JStr kind), (''summary'', JStr summary),
        (''details'', JDict details)])) (\<lambda>digest.
    bindE (work_identifier actor) (\<lambda>actor.
    let k = (org, ws, tid) in
    bindE (require_task db k) (\<lambda>task.
    bindE (require_teams_task_actor db k (Some (py_lower actor)) private_scope) (\<lambda>_.
      case (if msg = None then None else List.find (\<lambda>a. ap_org a = org \<and> ap_ws a = ws \<and> ap_create_message a = msg)
              (w_approvals db)) of
        Some prior \<Rightarrow>
          if ap_create_digest prior \<noteq> digest then conflict ''WORK_APPROVAL_ID_CONFLICT''
          else bindE (approval_view prior) (\<lambda>v. bindE (task_view db task) (\<lambda>tv. Inr ((v, tv, True), db)))
      | None \<Rightarrow> open_approval aid now k kind summary details msg digest task db)))))))))))"

definition get_approval :: "string option \<Rightarrow> string \<Rightarrow> string \<Rightarrow> string option \<Rightarrow> bool \<Rightarrow> wdb \<Rightarrow> json_object res" where
  "get_approval org ws aid actor private_scope db =
    bindE (work_scope org ws) (\<lambda>(org, ws).
    bindE (require_approval db org ws aid) (\<lambda>row.
    bindE (actor_of actor) (\<lambda>actor.
    bindE (require_teams_task_actor db (org, ws, ap_task row) actor private_scope) (\<lambda>_.
      approval_view row))))"

text \<open>The visibility clause of the two gate listings, for the task a gate belongs to.\<close>

definition gate_visible :: "wdb \<Rightarrow> string \<Rightarrow> bool \<Rightarrow> task_key \<Rightarrow> bool" where
  "gate_visible db actor private_scope k =
    (case find_by to_key k (w_origins db) of
       Some o' \<Rightarrow> sql_lower (to_actor o') = actor
     | None \<Rightarrow>
         (case find_by po_key k (w_owners db) of None \<Rightarrow> True | Some p \<Rightarrow> sql_lower (po_actor p) = actor) \<and>
         (\<not> private_scope \<or> (case find_task db k of None \<Rightarrow> False | Some t \<Rightarrow> sql_lower (tk_creator t) = actor)))"

definition list_approvals ::
  "string option \<Rightarrow> string \<Rightarrow> string option \<Rightarrow> int \<Rightarrow> string option \<Rightarrow> bool \<Rightarrow> wdb \<Rightarrow> json_object list res" where
  "list_approvals org ws status limit actor private_scope db =
    bindE (work_scope org ws) (\<lambda>(org, ws).
      if \<not> (1 \<le> limit \<and> limit \<le> 500) then invalid ''WORK_APPROVAL_INVALID_PAGE''
      else if status \<notin> {None, Some ''pending'', Some ''approved'', Some ''rejected''}
        then invalid ''WORK_APPROVAL_INVALID_STATUS''
      else
        bindE (actor_of actor) (\<lambda>actor.
          mapE approval_view (take (nat limit) (order_by (\<lambda>a. - ap_created_at a) (filter (\<lambda>a.
            ap_org a = org \<and> ap_ws a = ws \<and> matches status (Some (ap_status a)) \<and>
            gate_visible db (actor_text actor) private_scope (org, ws, ap_task a)) (w_approvals db))))))"

text \<open>SQL's \<open>COALESCE(column, ?)\<close>.\<close>

definition coalesce :: "'a option \<Rightarrow> 'a option \<Rightarrow> 'a option" where
  "coalesce a b = (case a of None \<Rightarrow> b | Some _ \<Rightarrow> a)"

text \<open>
  The update of the task on a decision. \<open>duration_ms\<close> is \<open>NOT NULL\<close>, so its \<open>COALESCE\<close> sees a value in every row.
\<close>

definition decide_task :: "int \<Rightarrow> string \<Rightarrow> task_row \<Rightarrow> task_row" where
  "decide_task now new r =
    (let ended = (if new \<in> terminal_task_states then Some now else None);
         duration = (case (ended, tk_started_at r) of (Some _, Some s) \<Rightarrow> if s = 0 then None else Some (max 0 (now - s))
                     | _ \<Rightarrow> None)
     in r\<lparr>tk_status := new,
          tk_started_at := coalesce (tk_started_at r) (if new = ''running'' then Some now else None),
          tk_ended_at := coalesce (tk_ended_at r) ended,
          tk_duration := (case coalesce (Some (tk_duration r)) duration of None \<Rightarrow> 0 | Some d \<Rightarrow> d)\<rparr>)"

definition decide_approval :: "int \<Rightarrow> string \<Rightarrow> string option \<Rightarrow> string \<Rightarrow> string \<Rightarrow> approval_row \<Rightarrow> approval_row" where
  "decide_approval now decision msg actor digest a =
    (if ap_status a = ''pending''
     then a\<lparr>ap_status := decision, ap_resolved_at := Some now, ap_resolved_by := Some actor, ap_message := msg,
            ap_resolution_digest := Some digest\<rparr>
     else a)"

definition resolve_approval ::
  "string \<Rightarrow> int \<Rightarrow> string option \<Rightarrow> string \<Rightarrow> string \<Rightarrow> string \<Rightarrow> string option \<Rightarrow> string \<Rightarrow> bool \<Rightarrow> private_scope option \<Rightarrow> wdb
   \<Rightarrow> (json_object \<times> json_object \<times> bool) res \<times> wdb" where
  "resolve_approval nid now org ws aid decision msg actor private_scope ps db = commit db (
    bindE (work_scope org ws) (\<lambda>(org, ws).
    bindE (work_identifier aid) (\<lambda>aid.
      if decision \<notin> {''approved'', ''rejected''} then invalid ''WORK_APPROVAL_INVALID_DECISION''
      else
        bindE (case msg of None \<Rightarrow> Inr None | Some m \<Rightarrow> bindE (work_identifier m) (\<lambda>m. Inr (Some m))) (\<lambda>msg.
        bindE (work_identifier actor) (\<lambda>actor.
        bindE (work_digest (JDict [(''decision'', JStr decision)])) (\<lambda>digest.
        bindE (require_approval db org ws aid) (\<lambda>approval.
        let k = (org, ws, ap_task approval) in
        bindE (require_task db k) (\<lambda>task.
        bindE (require_teams_task_actor db k (Some (py_lower actor)) private_scope) (\<lambda>_.
          if ap_status approval \<noteq> ''pending'' then
            (if opt_text (ap_resolution_digest approval) = digest \<and>
                (case msg of None \<Rightarrow> False | Some m \<Rightarrow> opt_text (ap_message approval) = m)
             then bindE (approval_view approval) (\<lambda>v. bindE (task_view db task) (\<lambda>tv. Inr ((v, tv, True), db)))
             else conflict ''WORK_APPROVAL_ALREADY_RESOLVED'')
          else if tk_status task \<noteq> ''waiting_approval'' then conflict ''WORK_APPROVAL_TASK_STATE_INVALID''
          else
            let new = (if decision = ''approved'' then ''running'' else ''aborted'');
                db1 = db\<lparr>w_approvals := edit_by ap_key (org, ws, aid) (decide_approval now decision msg actor digest)
                           (w_approvals db),
                         w_tasks := edit_by tk_key k (decide_task now new) (w_tasks db)\<rparr> in
            bindE (append_event k (approval_event decision aid) None now db1) (\<lambda>(_, db2).
            bindE (append_event k (status_event ''waiting_approval'' new) None now db2) (\<lambda>(_, db3).
            bindE (require_approval db3 org ws aid) (\<lambda>approval'.
            bindE (require_task db3 k) (\<lambda>task'.
            bindE (if new \<in> terminal_task_states then queue_task_result_notification nid org ws task' now ps db3
                   else Inr db3) (\<lambda>db4.
            bindE (approval_view approval') (\<lambda>v.
            bindE (task_view db4 task') (\<lambda>tv. Inr ((v, tv, False), db4)))))))))))))))))"

section \<open>Input requests\<close>

definition in_clash :: "input_row \<Rightarrow> input_row \<Rightarrow> bool" where
  "in_clash r r' \<longleftrightarrow> in_org r = in_org r' \<and> in_ws r = in_ws r' \<and>
     (in_id r = in_id r' \<or> (in_create_message r \<noteq> None \<and> in_create_message r = in_create_message r') \<or>
      (in_task r = in_task r' \<and> in_status r = ''pending'' \<and> in_status r' = ''pending''))"

definition pending_input :: "wdb \<Rightarrow> task_key \<Rightarrow> bool" where
  "pending_input db k = list_ex (\<lambda>a. (in_org a, in_ws a, in_task a) = k \<and> in_status a = ''pending'') (w_inputs db)"

definition move_status :: "task_key \<Rightarrow> string \<Rightarrow> string \<Rightarrow> wdb \<Rightarrow> wdb" where
  "move_status k from to db = db\<lparr>w_tasks := edit_by tk_key k
     (\<lambda>r. if tk_status r = from then r\<lparr>tk_status := to\<rparr> else r) (w_tasks db)\<rparr>"

definition input_event :: "string \<Rightarrow> string \<Rightarrow> json_object" where
  "input_event what iid = [(''type'', JStr (''input.'' @ what)), (''inputId'', JStr iid)]"

definition open_input ::
  "string \<Rightarrow> int \<Rightarrow> task_key \<Rightarrow> string \<Rightarrow> json_object \<Rightarrow> string option \<Rightarrow> string \<Rightarrow> task_row \<Rightarrow> wdb
   \<Rightarrow> ((json_object \<times> json_object \<times> bool) \<times> wdb) res" where
  "open_input iid now k summary details msg digest task db = (case k of (org, ws, tid) \<Rightarrow>
    if tk_status task \<noteq> ''running'' then conflict ''WORK_TASK_NOT_ACTIVE''
    else if pending_input db k then conflict ''WORK_INPUT_ALREADY_PENDING''
    else
      bindE (work_json_text (JDict details)) (\<lambda>text.
      let row = \<lparr>in_org = org, in_ws = ws, in_id = iid, in_task = tid, in_summary = summary, in_details = text,
            in_status = ''pending'', in_created_at = now, in_answered_at = None, in_answered_by = None,
            in_answer = None, in_create_message = msg, in_answer_message = None, in_create_digest = digest,
            in_answer_digest = None\<rparr> in
      bindE (insert_with in_clash row (w_inputs db)) (\<lambda>is.
      bindE (append_event k (input_event ''requested'' iid @ [(''summary'', JStr summary)]) None now
        (move_status k ''running'' ''waiting_input'' (db\<lparr>w_inputs := is\<rparr>))) (\<lambda>(_, db1).
      bindE (append_event k (status_event ''running'' ''waiting_input'') None now db1) (\<lambda>(_, db2).
      bindE (input_view row) (\<lambda>v.
      bindE (require_task db2 k) (\<lambda>t.
      bindE (task_view db2 t) (\<lambda>tv. Inr ((v, tv, False), db2)))))))))"

definition create_input_request ::
  "string \<Rightarrow> int \<Rightarrow> string option \<Rightarrow> string \<Rightarrow> string \<Rightarrow> json_object \<Rightarrow> string option \<Rightarrow> bool \<Rightarrow> wdb
   \<Rightarrow> (json_object \<times> json_object \<times> bool) res \<times> wdb" where
  "create_input_request iid now org ws tid body actor private_scope db = commit db (
    bindE (work_scope org ws) (\<lambda>(org, ws).
    bindE (work_identifier tid) (\<lambda>tid.
    bindE (bounded_text (dget body ''summary'') 2000 False) (\<lambda>summary.
    bindE (human_input_object (dget_or body ''details'' (JDict [])) False) (\<lambda>details.
    bindE (message_of body) (\<lambda>msg.
    bindE (work_digest (JDict [(''taskId'', JStr tid), (''summary'', JStr summary),
        (''details'', JDict details)])) (\<lambda>digest.
    bindE (actor_of actor) (\<lambda>actor.
    let k = (org, ws, tid) in
    bindE (require_task db k) (\<lambda>task.
    bindE (require_teams_task_actor db k actor private_scope) (\<lambda>_.
      case (if msg = None then None else List.find (\<lambda>a. in_org a = org \<and> in_ws a = ws \<and> in_create_message a = msg)
              (w_inputs db)) of
        Some prior \<Rightarrow>
          if in_create_digest prior \<noteq> digest then conflict ''WORK_INPUT_ID_CONFLICT''
          else bindE (input_view prior) (\<lambda>v. bindE (task_view db task) (\<lambda>tv. Inr ((v, tv, True), db)))
      | None \<Rightarrow> open_input iid now k summary details msg digest task db))))))))))"

definition get_input_request ::
  "string option \<Rightarrow> string \<Rightarrow> string \<Rightarrow> string option \<Rightarrow> bool \<Rightarrow> wdb \<Rightarrow> json_object res" where
  "get_input_request org ws iid actor private_scope db =
    bindE (work_scope org ws) (\<lambda>(org, ws).
    bindE (require_input db org ws iid) (\<lambda>row.
    bindE (actor_of actor) (\<lambda>actor.
    bindE (require_teams_task_actor db (org, ws, in_task row) actor private_scope) (\<lambda>_.
      input_view row))))"

definition list_input_requests ::
  "string option \<Rightarrow> string \<Rightarrow> string option \<Rightarrow> int \<Rightarrow> string option \<Rightarrow> bool \<Rightarrow> wdb \<Rightarrow> json_object list res" where
  "list_input_requests org ws status limit actor private_scope db =
    bindE (work_scope org ws) (\<lambda>(org, ws).
      if status \<notin> {None, Some ''pending'', Some ''answered''} then invalid ''WORK_INPUT_INVALID_STATUS''
      else if \<not> (1 \<le> limit \<and> limit \<le> 500) then invalid ''WORK_INPUT_INVALID_PAGE''
      else
        bindE (actor_of actor) (\<lambda>actor.
          mapE input_view (take (nat limit) (order_by2 (\<lambda>a. - in_created_at a) in_id (filter (\<lambda>a.
            in_org a = org \<and> in_ws a = ws \<and> matches status (Some (in_status a)) \<and>
            gate_visible db (actor_text actor) private_scope (org, ws, in_task a)) (w_inputs db))))))"

definition answer_input :: "int \<Rightarrow> string \<Rightarrow> string \<Rightarrow> string \<Rightarrow> string \<Rightarrow> input_row \<Rightarrow> input_row" where
  "answer_input now actor text msg digest r =
    (if in_status r = ''pending''
     then r\<lparr>in_status := ''answered'', in_answered_at := Some now, in_answered_by := Some actor,
            in_answer := Some text, in_answer_message := Some msg, in_answer_digest := Some digest\<rparr>
     else r)"

definition resolve_input_request ::
  "int \<Rightarrow> string option \<Rightarrow> string \<Rightarrow> string \<Rightarrow> json \<Rightarrow> string \<Rightarrow> string \<Rightarrow> bool \<Rightarrow> wdb
   \<Rightarrow> (json_object \<times> json_object \<times> bool) res \<times> wdb" where
  "resolve_input_request now org ws iid answer msg actor private_scope db = commit db (
    bindE (work_scope org ws) (\<lambda>(org, ws).
    bindE (work_identifier iid) (\<lambda>iid.
    bindE (work_identifier msg) (\<lambda>msg.
    bindE (work_identifier actor) (\<lambda>actor.
    bindE (human_input_object answer True) (\<lambda>answer.
    bindE (work_digest (JDict [(''answer'', JDict answer)])) (\<lambda>digest.
    bindE (require_input db org ws iid) (\<lambda>row.
    let k = (org, ws, in_task row) in
    bindE (require_task db k) (\<lambda>task.
    bindE (require_teams_task_actor db k (Some (py_lower actor)) private_scope) (\<lambda>_.
      if in_status row = ''answered'' then
        (if opt_text (in_answer_digest row) = digest \<and> opt_text (in_answer_message row) = msg
         then bindE (input_view row) (\<lambda>v. bindE (task_view db task) (\<lambda>tv. Inr ((v, tv, True), db)))
         else conflict ''WORK_INPUT_ALREADY_ANSWERED'')
      else if tk_status task \<noteq> ''waiting_input'' then conflict ''WORK_INPUT_TASK_STATE_INVALID''
      else
        bindE (work_json_text (JDict answer)) (\<lambda>text.
        let db1 = move_status k ''waiting_input'' ''running''
              (db\<lparr>w_inputs := edit_by in_key (org, ws, iid) (answer_input now actor text msg digest) (w_inputs db)\<rparr>) in
        bindE (append_event k (input_event ''answered'' iid) None now db1) (\<lambda>(_, db2).
        bindE (append_event k (status_event ''waiting_input'' ''running'') None now db2) (\<lambda>(_, db3).
        bindE (require_input db3 org ws iid) (\<lambda>row'.
        bindE (input_view row') (\<lambda>v.
        bindE (require_task db3 k) (\<lambda>task'.
        bindE (task_view db3 task') (\<lambda>tv. Inr ((v, tv, False), db3))))))))))))))))))"

end
