(* ===== verification/Work_Operation.thy ===== *)
theory Work_Operation
  imports Work_Task
begin

text \<open>
  Operation receipts: the intent to perform an external effect is recorded before it happens, and the receipt
  moves only forward (started, uncertain, verified). A provider target or a branch lock with an unresolved
  receipt admits no second one. A generated operation id and the clock reading are arguments.
\<close>

section \<open>Producers and locks\<close>

definition trusted_operation_producer :: "string option \<Rightarrow> string option res" where
  "trusted_operation_producer p = (case p of
     None \<Rightarrow> Inr None
   | Some s \<Rightarrow> bindE (bounded_text (JStr s) 64 False) (\<lambda>s.
       if s \<in> set trusted_operation_producers then Inr (Some s)
       else invalid ''WORK_OPERATION_TRUSTED_PRODUCER_INVALID''))"

definition trusted_operation_type_allowed :: "string \<Rightarrow> string \<Rightarrow> bool" where
  "trusted_operation_type_allowed producer otype =
    (if producer = ''exchange-connector-dispatch'' then starts_with ''tool.provider.v1:'' otype
     else if producer = ''conversation-research-runtime'' then starts_with ''conversation.'' otype
     else if producer = ''notification-outbox''
       then starts_with ''conversation.bilibili.subscription.notification.'' otype
     else False)"

definition finalizer_only :: "string option \<Rightarrow> bool" where
  "finalizer_only p \<longleftrightarrow> p \<in> {Some ''conversation-research-runtime'', Some ''notification-outbox''}"

definition branch_actions :: "string list" where
  "branch_actions = [''github.branch.create'', ''github.branch.delete'', ''github.file.commit'',
     ''github.pull_request.draft.create'', ''github.actions.rerun_failed'']"

definition is_branch_lock :: "string \<Rightarrow> bool" where
  "is_branch_lock s \<longleftrightarrow> starts_with ''connector-branch:'' s \<and> length s = 17 + 64 \<and> list_all is_lower_hex (drop 17 s)"

definition is_provider_target :: "string option \<Rightarrow> bool" where
  "is_provider_target t \<longleftrightarrow> (case t of None \<Rightarrow> False | Some s \<Rightarrow> starts_with ''connector-target:'' s)"

definition scope_lock_ok :: "string \<Rightarrow> string \<Rightarrow> string option \<Rightarrow> bool" where
  "scope_lock_ok lock otype target \<longleftrightarrow> is_branch_lock lock \<and> starts_with ''tool.provider.v1:'' otype \<and>
     last (split_on (CHR '':'') otype) \<in> set branch_actions \<and> is_provider_target target"

section \<open>Views\<close>

definition operation_view_with_task_output :: "wdb \<Rightarrow> operation_row \<Rightarrow> json_object res" where
  "operation_view_with_task_output db r =
    bindE (operation_view r) (\<lambda>view.
      case (op_producer r, op_task r) of
        (Some _, Some t) \<Rightarrow>
          bindE (require_task db (op_org r, op_ws r, t)) (\<lambda>task.
            Inr (if tk_status task = ''completed''
                 then dset view ''taskOutputSha256'' (JStr (sha256_hex (tk_output task))) else view))
      | _ \<Rightarrow> Inr view)"

section \<open>Recording an intent\<close>

definition op_key_of :: "operation_row \<Rightarrow> task_key" where
  "op_key_of r = (op_org r, op_ws r, op_key r)"

definition op_clash :: "operation_row \<Rightarrow> operation_row \<Rightarrow> bool" where
  "op_clash r r' \<longleftrightarrow> op_ident r = op_ident r' \<or> op_key_of r = op_key_of r'"

definition unresolved :: "operation_row \<Rightarrow> bool" where
  "unresolved r \<longleftrightarrow> op_status r \<in> {''started'', ''uncertain''}"

definition operation_digest ::
  "string \<Rightarrow> string option \<Rightarrow> string option \<Rightarrow> json_object \<Rightarrow> string option \<Rightarrow> string option \<Rightarrow> string res" where
  "operation_digest otype task target request lock producer = work_digest (JDict (
    [(''operationType'', JStr otype), (''taskId'', jopt task), (''target'', jopt target), (''request'', JDict request)] @
    (case lock of None \<Rightarrow> [] | Some l \<Rightarrow> [(''scopeLock'', JStr l)]) @
    (case producer of None \<Rightarrow> [] | Some p \<Rightarrow> [(''trustedProducer'', JStr p)])))"

text \<open>The task an intent is bound to must be visible and in the right state.\<close>

definition operation_task_ok ::
  "wdb \<Rightarrow> string \<Rightarrow> string \<Rightarrow> string option \<Rightarrow> string option \<Rightarrow> bool \<Rightarrow> string option \<Rightarrow> unit res" where
  "operation_task_ok db org ws task actor private_scope producer = (case task of
     None \<Rightarrow> Inr ()
   | Some t \<Rightarrow>
       bindE (require_task db (org, ws, t)) (\<lambda>row.
       bindE (require_teams_task_actor db (org, ws, t) actor private_scope) (\<lambda>_.
         if finalizer_only producer then
           (if tk_status row \<noteq> ''completed'' then conflict ''WORK_OPERATION_TRUSTED_TASK_NOT_COMPLETED'' else Inr ())
         else if tk_status row \<noteq> ''running'' then conflict ''WORK_OPERATION_TASK_NOT_RUNNING''
         else Inr ())))"

definition record_operation ::
  "string \<Rightarrow> int \<Rightarrow> string \<Rightarrow> string \<Rightarrow> string \<Rightarrow> string \<Rightarrow> string option \<Rightarrow> string option \<Rightarrow> string option \<Rightarrow> string option
   \<Rightarrow> json_object \<Rightarrow> string \<Rightarrow> wdb \<Rightarrow> ((json_object \<times> bool) \<times> wdb) res" where
  "record_operation oid now org ws key otype task target lock producer request digest db =
    (let held = (\<lambda>r. op_org r = org \<and> op_ws r = ws \<and> unresolved r) in
     if starts_with ''tool.provider.v1:'' otype \<and> is_provider_target target \<and>
        list_ex (\<lambda>r. held r \<and> op_target r = target) (w_operations db)
     then conflict ''WORK_OPERATION_TARGET_UNRESOLVED''
     else if lock \<noteq> None \<and> list_ex (\<lambda>r. held r \<and> op_scope_lock r = lock) (w_operations db)
     then conflict ''WORK_OPERATION_SCOPE_LOCKED''
     else
       bindE (work_json_text (JDict request)) (\<lambda>text.
       let row = \<lparr>op_org = org, op_ws = ws, op_id = oid, op_key = key, op_type = otype, op_task = task,
             op_target = target, op_scope_lock = lock, op_producer = producer, op_request = text,
             op_status = ''started'', op_evidence = ''{}'', op_digest = digest, op_created_at = now,
             op_updated_at = now\<rparr> in
       bindE (insert_with op_clash row (w_operations db)) (\<lambda>ops.
       bindE (operation_view row) (\<lambda>v. Inr ((v, False), db\<lparr>w_operations := ops\<rparr>)))))"

definition create_operation ::
  "string \<Rightarrow> int \<Rightarrow> string option \<Rightarrow> string \<Rightarrow> json_object \<Rightarrow> string option \<Rightarrow> bool \<Rightarrow> string option \<Rightarrow> wdb
   \<Rightarrow> (json_object \<times> bool) res \<times> wdb" where
  "create_operation oid now org ws body actor private_scope trusted db = commit db (
    bindE (work_scope org ws) (\<lambda>(org, ws).
    bindE (work_identifier_of (dget body ''idempotencyKey'')) (\<lambda>key.
    bindE (bounded_text (dget body ''operationType'') 128 False) (\<lambda>otype.
    bindE (optional_text (dget body ''taskId'') 512) (\<lambda>task.
    bindE (optional_text (dget body ''target'') 2000) (\<lambda>target.
    bindE (optional_text (dget body ''scopeLock'') 100) (\<lambda>lock.
    bindE (actor_of actor) (\<lambda>actor.
    bindE (trusted_operation_producer trusted) (\<lambda>producer.
      if producer \<noteq> None \<and> (\<not> private_scope \<or> task = None)
        then raise ''WORK_OPERATION_TRUSTED_PRODUCER_REQUIRED'' 403
      else if finalizer_only producer then raise ''WORK_OPERATION_TRUSTED_FINALIZER_REQUIRED'' 403
      else if (case producer of None \<Rightarrow> False | Some p \<Rightarrow> \<not> trusted_operation_type_allowed p otype)
        then raise ''WORK_OPERATION_TRUSTED_PRODUCER_MISMATCH'' 403
      else
        bindE (work_json_object (dget_or body ''request'' (JDict []))) (\<lambda>request.
          if (case lock of None \<Rightarrow> False | Some l \<Rightarrow> \<not> scope_lock_ok l otype target)
            then invalid ''WORK_OPERATION_SCOPE_LOCK_INVALID''
          else
            bindE (operation_digest otype task target request lock producer) (\<lambda>digest.
            bindE (operation_task_ok db org ws task actor private_scope producer) (\<lambda>_.
              case find_by op_key_of (org, ws, key) (w_operations db) of
                Some prior \<Rightarrow>
                  if op_digest prior \<noteq> digest then conflict ''WORK_OPERATION_KEY_CONFLICT''
                  else bindE (operation_view_with_task_output db prior) (\<lambda>v. Inr ((v, True), db))
              | None \<Rightarrow>
                  record_operation oid now org ws key otype task target lock producer request digest db))))))))))))"

section \<open>Moving a receipt forward\<close>

definition operation_transitions :: "string \<Rightarrow> string set option" where
  "operation_transitions status = map_of
    [(''started'', set [''uncertain'', ''verified'']), (''uncertain'', set [''verified'']), (''verified'', set [])] status"

definition producer_ok :: "wdb \<Rightarrow> operation_row \<Rightarrow> string option \<Rightarrow> bool \<Rightarrow> unit res" where
  "producer_ok db r producer private_scope = (case op_producer r of
     None \<Rightarrow> if producer \<noteq> None then conflict ''WORK_OPERATION_TRUSTED_PRODUCER_IMMUTABLE'' else Inr ()
   | Some stored \<Rightarrow>
       if producer \<noteq> Some stored \<or> \<not> private_scope then raise ''WORK_OPERATION_TRUSTED_PRODUCER_REQUIRED'' 403
       else if finalizer_only producer then raise ''WORK_OPERATION_TRUSTED_FINALIZER_REQUIRED'' 403
       else (case op_task r of
           None \<Rightarrow> conflict ''WORK_OPERATION_TRUSTED_TASK_REQUIRED''
         | Some t \<Rightarrow>
             bindE (require_task db (op_org r, op_ws r, t)) (\<lambda>task.
               if producer = Some ''exchange-connector-dispatch'' \<and> tk_status task \<noteq> ''running''
                 then conflict ''WORK_OPERATION_TASK_NOT_RUNNING''
               else if finalizer_only producer \<and> tk_status task \<noteq> ''completed''
                 then conflict ''WORK_OPERATION_TRUSTED_TASK_NOT_COMPLETED''
               else Inr ())))"

definition update_operation ::
  "int \<Rightarrow> string option \<Rightarrow> string \<Rightarrow> string \<Rightarrow> string \<Rightarrow> json \<Rightarrow> string option \<Rightarrow> bool \<Rightarrow> string option \<Rightarrow> wdb
   \<Rightarrow> (json_object \<times> bool) res \<times> wdb" where
  "update_operation now org ws oid status evidence actor private_scope trusted db = commit db (
    bindE (work_scope org ws) (\<lambda>(org, ws).
    bindE (work_identifier oid) (\<lambda>oid.
    bindE (actor_of actor) (\<lambda>actor.
    bindE (trusted_operation_producer trusted) (\<lambda>producer.
    bindE (work_json_object evidence) (\<lambda>evidence.
      case find_by op_ident (org, ws, oid) (w_operations db) of
        None \<Rightarrow> not_found ''WORK_OPERATION_NOT_FOUND''
      | Some row \<Rightarrow>
          bindE (case op_task row of None \<Rightarrow> Inr True
                 | Some t \<Rightarrow> require_teams_task_actor db (org, ws, t) actor private_scope) (\<lambda>_.
          bindE (producer_ok db row producer private_scope) (\<lambda>_.
            if op_status row = status then
              bindE (stored_object (op_evidence row)) (\<lambda>old.
                if py_eq (JDict old) (JDict evidence)
                then bindE (operation_view row) (\<lambda>v. Inr ((v, True), db))
                else conflict ''WORK_OPERATION_ALREADY_RECORDED'')
            else (case operation_transitions (op_status row) of
                None \<Rightarrow> Inl KeyError
              | Some targets \<Rightarrow>
                  if status \<notin> targets then conflict ''WORK_OPERATION_INVALID_TRANSITION''
                  else
                    bindE (work_json_text (JDict evidence)) (\<lambda>text.
                    let row' = row\<lparr>op_status := status, op_evidence := text, op_updated_at := now\<rparr> in
                    bindE (operation_view row') (\<lambda>v.
                      Inr ((v, False), db\<lparr>w_operations := edit_by op_ident (org, ws, oid) (\<lambda>_. row')
                        (w_operations db)\<rparr>))))))))))))"

section \<open>Reading receipts\<close>

definition get_operation :: "string option \<Rightarrow> string \<Rightarrow> string \<Rightarrow> string option \<Rightarrow> bool \<Rightarrow> wdb \<Rightarrow> json_object res" where
  "get_operation org ws oid actor private_scope db =
    bindE (work_scope org ws) (\<lambda>(org, ws).
    bindE (work_identifier oid) (\<lambda>oid.
      case find_by op_ident (org, ws, oid) (w_operations db) of
        None \<Rightarrow> not_found ''WORK_OPERATION_NOT_FOUND''
      | Some row \<Rightarrow>
          bindE (case op_task row of None \<Rightarrow> Inr True
                 | Some t \<Rightarrow> bindE (actor_of actor) (\<lambda>actor.
                     require_teams_task_actor db (org, ws, t) actor private_scope)) (\<lambda>_.
            if op_producer row \<noteq> None \<and> \<not> private_scope then not_found ''WORK_OPERATION_NOT_FOUND''
            else operation_view_with_task_output db row)))"

definition get_operation_by_idempotency_key ::
  "string option \<Rightarrow> string \<Rightarrow> string \<Rightarrow> string option \<Rightarrow> bool \<Rightarrow> wdb \<Rightarrow> json_object res" where
  "get_operation_by_idempotency_key org ws key actor private_scope db =
    bindE (work_scope org ws) (\<lambda>(org, ws).
    bindE (work_identifier key) (\<lambda>key.
    bindE (actor_of actor) (\<lambda>actor.
      case find_by op_key_of (org, ws, key) (w_operations db) of
        None \<Rightarrow> not_found ''WORK_OPERATION_NOT_FOUND''
      | Some row \<Rightarrow>
          if op_producer row \<noteq> None \<and> \<not> private_scope then not_found ''WORK_OPERATION_NOT_FOUND''
          else
            bindE (case op_task row of None \<Rightarrow> Inr True
                   | Some t \<Rightarrow> require_teams_task_actor db (org, ws, t) actor private_scope) (\<lambda>_.
              operation_view_with_task_output db row))))"

end
