(* ===== verification/Work_Inv.thy ===== *)
theory Work_Inv
  imports Work_Gate Work_Operation Systems
begin

text \<open>
  The elementary changes the Work store makes to its tables, the invariant each of them keeps and the order in
  which each moves forward. \<open>wchange\<close> is what one SQL statement, or one inseparable group of statements, does;
  every operation of the store is a sequence of such changes (theory \<open>Work_Steps\<close>).
\<close>

section \<open>The order on rows\<close>

text \<open>One edge of \<open>_TASK_TRANSITIONS\<close>.\<close>

definition task_edge :: "string \<Rightarrow> string \<Rightarrow> bool" where
  "task_edge s s' \<longleftrightarrow> (case task_transitions s of None \<Rightarrow> False | Some targets \<Rightarrow> s' \<in> targets)"

definition same_task :: "task_row \<Rightarrow> task_row \<Rightarrow> bool" where
  "same_task r r' \<longleftrightarrow> tk_key r' = tk_key r \<and> tk_session r' = tk_session r \<and> tk_created_at r' = tk_created_at r \<and>
     tk_digest r' = tk_digest r \<and> tk_creator r' = tk_creator r \<and> tk_cont_of r' = tk_cont_of r \<and>
     tk_cont_mode r' = tk_cont_mode r \<and> tk_class r' = tk_class r"

definition task_le :: "task_row \<Rightarrow> task_row \<Rightarrow> bool" where
  "task_le r r' \<longleftrightarrow> same_task r r' \<and> tk_sequence r \<le> tk_sequence r' \<and> task_edge\<^sup>*\<^sup>* (tk_status r) (tk_status r')"

definition ap_gate :: "approval_row \<Rightarrow> task_key" where
  "ap_gate a = (ap_org a, ap_ws a, ap_task a)"

definition ap_pend :: "approval_row \<Rightarrow> bool" where
  "ap_pend a \<longleftrightarrow> ap_status a = ''pending''"

definition in_gate :: "input_row \<Rightarrow> task_key" where
  "in_gate a = (in_org a, in_ws a, in_task a)"

definition in_pend :: "input_row \<Rightarrow> bool" where
  "in_pend a \<longleftrightarrow> in_status a = ''pending''"

text \<open>A gate is written once: while it is pending only its resolution may be filled in.\<close>

definition approval_le :: "approval_row \<Rightarrow> approval_row \<Rightarrow> bool" where
  "approval_le a a' \<longleftrightarrow> a' = a \<or> (ap_pend a \<and>
     (\<exists>s now by msg d. s \<in> {''approved'', ''rejected''} \<and> a' = a\<lparr>ap_status := s, ap_resolved_at := Some now, ap_resolved_by := Some by,
        ap_message := msg, ap_resolution_digest := Some d\<rparr>))"

definition input_le :: "input_row \<Rightarrow> input_row \<Rightarrow> bool" where
  "input_le a a' \<longleftrightarrow> a' = a \<or> (in_pend a \<and>
     (\<exists>now by text msg d. a' = a\<lparr>in_status := ''answered'', in_answered_at := Some now, in_answered_by := Some by,
        in_answer := Some text, in_answer_message := Some msg, in_answer_digest := Some d\<rparr>))"

definition op_edge :: "string \<Rightarrow> string \<Rightarrow> bool" where
  "op_edge s s' \<longleftrightarrow> (case operation_transitions s of None \<Rightarrow> False | Some targets \<Rightarrow> s' \<in> targets)"

text \<open>A receipt keeps its intent; evidence changes only together with a forward move.\<close>

definition op_le :: "operation_row \<Rightarrow> operation_row \<Rightarrow> bool" where
  "op_le r r' \<longleftrightarrow> r' = r \<or>
     (\<exists>s e t. op_edge\<^sup>+\<^sup>+ (op_status r) s \<and> r' = r\<lparr>op_status := s, op_evidence := e, op_updated_at := t\<rparr>)"

definition note_edges :: "(string \<times> string) list" where
  "note_edges = [(''queued'', ''queued''), (''queued'', ''leased''), (''leased'', ''started''), (''leased'', ''queued''),
     (''started'', ''uncertain''), (''started'', ''delivered''), (''started'', ''failed''), (''started'', ''queued'')]"

definition note_done :: "note_row \<Rightarrow> bool" where
  "note_done n \<longleftrightarrow> nt_status n \<in> {''delivered'', ''failed'', ''uncertain''}"

text \<open>What never changes about a notification: everything but its delivery columns.\<close>

definition note_fixed :: "note_row \<Rightarrow> note_row" where
  "note_fixed n = n\<lparr>nt_status := [], nt_available_at := 0, nt_updated_at := 0, nt_worker := None,
     nt_token_hash := None, nt_lease := None, nt_started_at := None, nt_result := []\<rparr>"

definition same_note :: "note_row \<Rightarrow> note_row \<Rightarrow> bool" where
  "same_note n n' \<longleftrightarrow> note_fixed n' = note_fixed n"

definition note_move :: "note_row \<Rightarrow> note_row \<Rightarrow> bool" where
  "note_move n n' \<longleftrightarrow> n' = n \<or> (same_note n n' \<and> (nt_status n, nt_status n') \<in> set note_edges)"

definition note_le :: "note_row \<Rightarrow> note_row \<Rightarrow> bool" where
  "note_le n n' \<longleftrightarrow> same_note n n' \<and> (note_done n \<longrightarrow> n' = n)"

definition wgrows :: "wdb \<Rightarrow> wdb \<Rightarrow> bool" where
  "wgrows db db' \<longleftrightarrow>
     table_ext task_le (w_tasks db) (w_tasks db') \<and> table_ext (=) (w_events db) (w_events db') \<and>
     table_ext (=) (w_owners db) (w_owners db') \<and> table_ext (=) (w_origins db) (w_origins db') \<and>
     table_ext approval_le (w_approvals db) (w_approvals db') \<and> table_ext input_le (w_inputs db) (w_inputs db') \<and>
     table_ext op_le (w_operations db) (w_operations db') \<and> table_ext note_le (w_notes db) (w_notes db') \<and>
     table_ext (=) (w_backend db) (w_backend db') \<and> table_ext (=) (w_actor_backend db) (w_actor_backend db')"

section \<open>The order is an order\<close>

lemma task_le_refl: "task_le r r"
  by (simp add: task_le_def same_task_def)

lemma task_le_trans: "task_le a b \<Longrightarrow> task_le b c \<Longrightarrow> task_le a c"
  by (auto simp: task_le_def same_task_def)

lemma approval_le_refl: "approval_le a a"
  by (simp add: approval_le_def)

lemma approval_le_done: "approval_le a a' \<Longrightarrow> \<not> ap_pend a \<Longrightarrow> a' = a"
  by (auto simp: approval_le_def)

lemma approval_le_moved:
  assumes "approval_le a a'" and "a' \<noteq> a"
  shows "ap_pend a \<and> \<not> ap_pend a'"
proof -
  from assms obtain s now by' msg d where "ap_pend a" and s: "s \<in> {''approved'', ''rejected''}"
    and a': "a' = a\<lparr>ap_status := s, ap_resolved_at := Some now, ap_resolved_by := Some by', ap_message := msg,
      ap_resolution_digest := Some d\<rparr>" unfolding approval_le_def by blast
  from a' have "ap_status a' = s" by simp
  with s \<open>ap_pend a\<close> show ?thesis by (auto simp: ap_pend_def)
qed

lemma approval_le_trans: "approval_le a b \<Longrightarrow> approval_le b c \<Longrightarrow> approval_le a c"
  by (metis approval_le_moved approval_le_done)

lemma input_le_refl: "input_le a a"
  by (simp add: input_le_def)

lemma input_le_done: "input_le a a' \<Longrightarrow> \<not> in_pend a \<Longrightarrow> a' = a"
  by (auto simp: input_le_def)

lemma input_le_moved:
  assumes "input_le a a'" and "a' \<noteq> a"
  shows "in_pend a \<and> \<not> in_pend a'"
proof -
  from assms obtain now by' ans msg d where "in_pend a"
    and a': "a' = a\<lparr>in_status := ''answered'', in_answered_at := Some now, in_answered_by := Some by',
      in_answer := Some ans, in_answer_message := Some msg, in_answer_digest := Some d\<rparr>"
    unfolding input_le_def by blast
  from a' have "in_status a' = ''answered''" by simp
  with \<open>in_pend a\<close> show ?thesis by (simp add: in_pend_def)
qed

lemma input_le_trans: "input_le a b \<Longrightarrow> input_le b c \<Longrightarrow> input_le a c"
  by (metis input_le_moved input_le_done)

lemma op_le_refl: "op_le r r"
  by (simp add: op_le_def)

lemma op_leI: "op_edge\<^sup>+\<^sup>+ (op_status r) s \<Longrightarrow> op_le r (r\<lparr>op_status := s, op_evidence := e, op_updated_at := t\<rparr>)"
  unfolding op_le_def by blast

lemma op_le_trans:
  assumes "op_le a b" and "op_le b c"
  shows "op_le a c"
proof (cases "b = a \<or> c = b")
  case True
  with assms show ?thesis by auto
next
  case False
  with assms obtain s e t where s: "op_edge\<^sup>+\<^sup>+ (op_status a) s"
    and b: "b = a\<lparr>op_status := s, op_evidence := e, op_updated_at := t\<rparr>" unfolding op_le_def by blast
  from assms False obtain s' e' t' where s': "op_edge\<^sup>+\<^sup>+ (op_status b) s'"
    and c: "c = b\<lparr>op_status := s', op_evidence := e', op_updated_at := t'\<rparr>" unfolding op_le_def by blast
  from b have "op_status b = s" by simp
  with s s' have "op_edge\<^sup>+\<^sup>+ (op_status a) s'" by simp
  then have "op_le a (a\<lparr>op_status := s', op_evidence := e', op_updated_at := t'\<rparr>)" by (rule op_leI)
  also have "a\<lparr>op_status := s', op_evidence := e', op_updated_at := t'\<rparr> = c" unfolding c b by simp
  finally show ?thesis .
qed

lemma same_note_refl: "same_note n n"
  by (simp add: same_note_def)

lemma same_note_trans: "same_note a b \<Longrightarrow> same_note b c \<Longrightarrow> same_note a c"
  by (simp add: same_note_def)

lemma note_le_refl: "note_le n n"
  by (simp add: note_le_def same_note_refl)

lemma note_le_trans: "note_le a b \<Longrightarrow> note_le b c \<Longrightarrow> note_le a c"
  unfolding note_le_def by (metis same_note_trans)

lemma note_move_le: "note_move n n' \<Longrightarrow> note_le n n'"
  by (auto simp: note_move_def note_le_def same_note_refl note_done_def note_edges_def)

lemmas row_refls = task_le_refl approval_le_refl input_le_refl op_le_refl note_le_refl

lemma wgrows_refl: "wgrows db db"
  by (simp add: wgrows_def table_ext_refl row_refls)

lemma eq_transp: "transp (=)"
  by (rule transpI) (rule trans)

lemma wgrows_trans:
  assumes "wgrows a b" and "wgrows b c"
  shows "wgrows a c"
proof -
  have "transp task_le" "transp approval_le" "transp input_le" "transp op_le" "transp note_le"
    by (auto intro!: transpI intro: task_le_trans approval_le_trans input_le_trans op_le_trans note_le_trans)
  with assms eq_transp show ?thesis unfolding wgrows_def by (meson table_ext_trans)
qed

section \<open>The invariant\<close>

text \<open>The log of a task: its events in insertion order.\<close>

definition log_of :: "task_event_row list \<Rightarrow> task_key \<Rightarrow> task_event_row list" where
  "log_of es k = filter (\<lambda>e. te_scope e = k) es"

definition tasks_ok :: "task_row list \<Rightarrow> task_event_row list \<Rightarrow> bool" where
  "tasks_ok ts es \<longleftrightarrow> keyed tk_key ts \<and> te_scope ` set es \<subseteq> tk_key ` set ts \<and>
     (\<forall>t \<in> set ts. task_transitions (tk_status t) \<noteq> None \<and> 0 \<le> tk_sequence t \<and>
        map te_seq (log_of es (tk_key t)) = [1..tk_sequence t])"

text \<open>
  One kind of gate: its rows have unique ids and belong to tasks, a task has at most one pending gate of the kind,
  a task that waits has one, and a task with a pending gate waits or has ended without an answer.
\<close>

definition waits :: "string \<Rightarrow> task_key set \<Rightarrow> task_row \<Rightarrow> bool" where
  "waits waiting ks t \<longleftrightarrow> (tk_status t = waiting \<longrightarrow> tk_key t \<in> ks) \<and>
     (tk_key t \<in> ks \<longrightarrow> tk_status t \<in> {waiting, ''failed'', ''aborted''})"

definition gate_ok :: "('g \<Rightarrow> task_key) \<Rightarrow> ('g \<Rightarrow> task_key) \<Rightarrow> ('g \<Rightarrow> bool) \<Rightarrow> string \<Rightarrow> task_row list \<Rightarrow> 'g list \<Rightarrow> bool" where
  "gate_ok gkey gate pend waiting ts gs \<longleftrightarrow> keyed gkey gs \<and> keyed gate (filter pend gs) \<and>
     gate ` set gs \<subseteq> tk_key ` set ts \<and> (\<forall>t \<in> set ts. waits waiting (gate ` set (filter pend gs)) t)"

definition approvals_ok :: "task_row list \<Rightarrow> approval_row list \<Rightarrow> bool" where
  "approvals_ok ts as \<longleftrightarrow> gate_ok ap_key ap_gate ap_pend ''waiting_approval'' ts as \<and>
     (\<forall>a \<in> set as. ap_status a \<in> {''pending'', ''approved'', ''rejected''})"

definition inputs_ok :: "task_row list \<Rightarrow> input_row list \<Rightarrow> bool" where
  "inputs_ok ts is \<longleftrightarrow> gate_ok in_key in_gate in_pend ''waiting_input'' ts is \<and>
     (\<forall>a \<in> set is. in_status a \<in> {''pending'', ''answered''})"

text \<open>Receipts: unique ids and keys, and one unresolved receipt per provider target and per branch lock.\<close>

definition provider_intent :: "operation_row \<Rightarrow> bool" where
  "provider_intent r \<longleftrightarrow> unresolved r \<and> starts_with ''tool.provider.v1:'' (op_type r) \<and> is_provider_target (op_target r)"

definition lock_intent :: "operation_row \<Rightarrow> bool" where
  "lock_intent r \<longleftrightarrow> unresolved r \<and> op_scope_lock r \<noteq> None"

definition op_target_key :: "operation_row \<Rightarrow> string \<times> string \<times> string option" where
  "op_target_key r = (op_org r, op_ws r, op_target r)"

definition op_lock_key :: "operation_row \<Rightarrow> string \<times> string \<times> string option" where
  "op_lock_key r = (op_org r, op_ws r, op_scope_lock r)"

definition operations_ok :: "operation_row list \<Rightarrow> bool" where
  "operations_ok ops \<longleftrightarrow> keyed op_ident ops \<and> keyed op_key_of ops \<and>
     keyed op_target_key (filter provider_intent ops) \<and> keyed op_lock_key (filter lock_intent ops) \<and>
     (\<forall>r \<in> set ops. operation_transitions (op_status r) \<noteq> None)"

definition note_states :: "string list" where
  "note_states = [''queued'', ''leased'', ''started'', ''delivered'', ''failed'', ''uncertain'']"

text \<open>A leased or started row carries the hash of its lease token and an expiry; a queued row carries neither.\<close>

definition note_ok :: "note_row \<Rightarrow> bool" where
  "note_ok n \<longleftrightarrow> nt_status n \<in> set note_states \<and>
     (nt_status n \<in> {''leased'', ''started''} \<longrightarrow> nt_token_hash n \<noteq> None \<and> nt_lease n \<noteq> None) \<and>
     (nt_status n = ''queued'' \<longrightarrow> nt_token_hash n = None \<and> nt_lease n = None)"

definition notes_ok :: "note_row list \<Rightarrow> bool" where
  "notes_ok ns \<longleftrightarrow> keyed nt_key ns \<and> keyed nt_dedup_key ns \<and> (\<forall>n \<in> set ns. note_ok n)"

definition provenance_ok :: "wdb \<Rightarrow> bool" where
  "provenance_ok db \<longleftrightarrow> keyed po_key (w_owners db) \<and> keyed to_key (w_origins db) \<and>
     po_key ` set (w_owners db) \<subseteq> tk_key ` set (w_tasks db) \<and> to_key ` set (w_origins db) \<subseteq> tk_key ` set (w_tasks db) \<and>
     keyed bs_key (w_backend db) \<and> keyed bs_key (w_actor_backend db)"

definition winv :: "wdb \<Rightarrow> bool" where
  "winv db \<longleftrightarrow> tasks_ok (w_tasks db) (w_events db) \<and> approvals_ok (w_tasks db) (w_approvals db) \<and>
     inputs_ok (w_tasks db) (w_inputs db) \<and> operations_ok (w_operations db) \<and> notes_ok (w_notes db) \<and> provenance_ok db"

definition empty_wdb :: wdb where
  "empty_wdb = \<lparr>w_tasks = [], w_events = [], w_owners = [], w_origins = [], w_approvals = [], w_inputs = [],
     w_operations = [], w_notes = [], w_backend = [], w_actor_backend = [], w_connector_events = [],
     w_actor_threads = [], w_installations = []\<rparr>"

lemma winv_empty: "winv empty_wdb"
  by (simp add: winv_def empty_wdb_def tasks_ok_def approvals_ok_def inputs_ok_def gate_ok_def operations_ok_def
    notes_ok_def provenance_ok_def keyed_def)

section \<open>Elementary changes\<close>

text \<open>An edit of one task that touches no gate: the status stays, or it moves along an edge to a state that waits
  for nobody, and a waiting task can only end.\<close>

definition free_move :: "string \<Rightarrow> string \<Rightarrow> bool" where
  "free_move s s' \<longleftrightarrow> s' = s \<or> (task_edge s s' \<and> s' \<notin> {''waiting_approval'', ''waiting_input''} \<and>
     (s \<in> {''waiting_approval'', ''waiting_input''} \<longrightarrow> s' \<in> {''failed'', ''aborted''}))"

definition task_edit :: "(string \<Rightarrow> string \<Rightarrow> bool) \<Rightarrow> task_row \<Rightarrow> task_row \<Rightarrow> bool" where
  "task_edit move r r' \<longleftrightarrow> same_task r r' \<and> tk_sequence r' = tk_sequence r \<and> move (tk_status r) (tk_status r')"

inductive wchange :: "wdb \<Rightarrow> wdb \<Rightarrow> bool" where
  new_task: "find_task db (tk_key r) = None \<Longrightarrow> tk_status r = ''queued'' \<Longrightarrow> tk_sequence r = 0 \<Longrightarrow>
    wchange db (db\<lparr>w_tasks := w_tasks db @ [r]\<rparr>)"
| new_event: "append_event k event msg now db = Inr (seq, db') \<Longrightarrow> wchange db db'"
| edit_task: "find_task db k = Some r \<Longrightarrow> task_edit free_move r r' \<Longrightarrow>
    wchange db (db\<lparr>w_tasks := edit_by tk_key k (\<lambda>_. r') (w_tasks db)\<rparr>)"
| new_owner: "find_by po_key (po_key p) (w_owners db) = None \<Longrightarrow> find_task db (po_key p) \<noteq> None \<Longrightarrow>
    wchange db (db\<lparr>w_owners := w_owners db @ [p]\<rparr>)"
| new_origin: "find_by to_key (to_key p) (w_origins db) = None \<Longrightarrow> find_task db (to_key p) \<noteq> None \<Longrightarrow>
    wchange db (db\<lparr>w_origins := w_origins db @ [p]\<rparr>)"
| new_backend: "find_by bs_key (bs_key b) (w_backend db) = None \<Longrightarrow>
    wchange db (db\<lparr>w_backend := w_backend db @ [b]\<rparr>)"
| new_actor_backend: "find_by bs_key (bs_key b) (w_actor_backend db) = None \<Longrightarrow>
    wchange db (db\<lparr>w_actor_backend := w_actor_backend db @ [b]\<rparr>)"
| open_ap: "find_task db (ap_gate a) = Some r \<Longrightarrow> tk_status r \<in> {''queued'', ''running''} \<Longrightarrow> ap_pend a \<Longrightarrow>
    \<forall>a' \<in> set (w_approvals db). \<not> ap_clash a a' \<Longrightarrow>
    wchange db (set_status (ap_gate a) ''waiting_approval'' (db\<lparr>w_approvals := w_approvals db @ [a]\<rparr>))"
| close_ap: "find_by ap_key aid (w_approvals db) = Some a \<Longrightarrow> ap_pend a \<Longrightarrow> approval_le a a' \<Longrightarrow> a' \<noteq> a \<Longrightarrow>
    find_task db (ap_gate a) = Some r \<Longrightarrow> tk_status r = ''waiting_approval'' \<Longrightarrow>
    task_edit (\<lambda>_ s. s \<in> {''running'', ''aborted''}) r r' \<Longrightarrow>
    wchange db (db\<lparr>w_approvals := edit_by ap_key aid (\<lambda>_. a') (w_approvals db),
      w_tasks := edit_by tk_key (ap_gate a) (\<lambda>_. r') (w_tasks db)\<rparr>)"
| open_in: "find_task db (in_gate a) = Some r \<Longrightarrow> tk_status r = ''running'' \<Longrightarrow> in_pend a \<Longrightarrow>
    \<forall>a' \<in> set (w_inputs db). \<not> in_clash a a' \<Longrightarrow>
    wchange db (set_status (in_gate a) ''waiting_input'' (db\<lparr>w_inputs := w_inputs db @ [a]\<rparr>))"
| close_in: "find_by in_key iid (w_inputs db) = Some a \<Longrightarrow> in_pend a \<Longrightarrow> input_le a a' \<Longrightarrow> a' \<noteq> a \<Longrightarrow>
    find_task db (in_gate a) = Some r \<Longrightarrow> tk_status r = ''waiting_input'' \<Longrightarrow>
    wchange db (set_status (in_gate a) ''running'' (db\<lparr>w_inputs := edit_by in_key iid (\<lambda>_. a') (w_inputs db)\<rparr>))"
| new_op: "\<forall>r' \<in> set (w_operations db). \<not> op_clash r r' \<Longrightarrow> op_status r = ''started'' \<Longrightarrow>
    (provider_intent r \<longrightarrow> op_target_key r \<notin> op_target_key ` set (filter unresolved (w_operations db))) \<Longrightarrow>
    (lock_intent r \<longrightarrow> op_lock_key r \<notin> op_lock_key ` set (filter unresolved (w_operations db))) \<Longrightarrow>
    wchange db (db\<lparr>w_operations := w_operations db @ [r]\<rparr>)"
| edit_op: "find_by op_ident oid (w_operations db) = Some r \<Longrightarrow> op_edge (op_status r) s \<Longrightarrow>
    wchange db (db\<lparr>w_operations := edit_by op_ident oid
      (\<lambda>_. r\<lparr>op_status := s, op_evidence := e, op_updated_at := t\<rparr>) (w_operations db)\<rparr>)"
| new_note: "\<forall>n' \<in> set (w_notes db). \<not> nt_clash n n' \<Longrightarrow> note_ok n \<Longrightarrow>
    wchange db (db\<lparr>w_notes := w_notes db @ [n]\<rparr>)"
| move_notes: "list_all2 note_move (w_notes db) ns \<Longrightarrow> \<forall>n \<in> set ns. note_ok n \<Longrightarrow> wchange db (db\<lparr>w_notes := ns\<rparr>)"
| outside: "wchange db (db\<lparr>w_connector_events := ces, w_actor_threads := ats, w_installations := pis\<rparr>)"

section \<open>Tasks and their logs\<close>

lemma edit_by_const:
  "keyed key t \<Longrightarrow> find_by key k t = Some r \<Longrightarrow> edit_by key k f t = edit_by key k (\<lambda>_. f r) t"
  unfolding edit_by_def by (rule map_cong) (auto dest!: find_by_SomeD dest: keyed_eq)

lemma map_key_edit_const: "key r' = k \<Longrightarrow> map key (edit_by key k (\<lambda>_. r') t) = map key t"
  by (auto simp: edit_by_def)

lemma image_key_edit:
  assumes "find_by key k t = Some r" and "key r' = key r"
  shows "key ` set (edit_by key k (\<lambda>_. r') t) = key ` set t"
proof -
  have "map key (edit_by key k (\<lambda>_. r') t) = map key t"
    using assms by (intro map_key_edit_const) (auto dest: find_by_key)
  then show ?thesis by (metis list.set_map)
qed

lemma keyed_edit_const: "keyed key t \<Longrightarrow> key r' = k \<Longrightarrow> keyed key (edit_by key k (\<lambda>_. r') t)"
  by (simp add: keyed_def map_key_edit_const)

lemma find_edit_const: "key r' = k \<Longrightarrow> find_by key k' (edit_by key k (\<lambda>_. r') t) =
    (if k' = k then map_option (\<lambda>_. r') (find_by key k t) else find_by key k' t)"
  by (induction t) (auto simp: find_by_Cons edit_by_def)

lemma log_of_snoc [simp]: "log_of (es @ [e]) k = log_of es k @ (if te_scope e = k then [e] else [])"
  by (simp add: log_of_def)

lemma tasks_ok_new:
  assumes ok: "tasks_ok ts es" and fresh: "find_by tk_key (tk_key r) ts = None" and "tk_status r = ''queued''"
    and "tk_sequence r = 0"
  shows "tasks_ok (ts @ [r]) es"
proof -
  from ok fresh have "tk_key r \<notin> te_scope ` set es" by (auto simp: tasks_ok_def find_by_None_iff)
  then have "log_of es (tk_key r) = []" unfolding log_of_def filter_empty_conv by (metis imageI)
  with assms show ?thesis by (auto simp: tasks_ok_def keyed_snoc task_transitions_def)
qed

lemma tasks_ok_edit:
  assumes "tasks_ok ts es" and "find_by tk_key k ts = Some r" and "tk_key r' = tk_key r"
    and "tk_sequence r' = tk_sequence r" and "task_transitions (tk_status r') \<noteq> None"
  shows "tasks_ok (edit_by tk_key k (\<lambda>_. r') ts) es"
proof -
  from assms(2) have r: "r \<in> set ts" "tk_key r = k" by (auto dest: find_by_SomeD)
  show ?thesis unfolding tasks_ok_def
  proof (intro conjI ballI)
    show "keyed tk_key (edit_by tk_key k (\<lambda>_. r') ts)" using assms r by (simp add: keyed_edit_const tasks_ok_def)
    show "te_scope ` set es \<subseteq> tk_key ` set (edit_by tk_key k (\<lambda>_. r') ts)"
      using assms(1) by (simp add: image_key_edit [OF assms(2,3)] tasks_ok_def)
    fix t assume "t \<in> set (edit_by tk_key k (\<lambda>_. r') ts)"
    then have "t \<in> set ts \<or> t = r'" by (auto simp: in_edit_by)
    then show "task_transitions (tk_status t) \<noteq> None" "0 \<le> tk_sequence t"
      "map te_seq (log_of es (tk_key t)) = [1..tk_sequence t]"
      using assms r by (auto simp: tasks_ok_def)
  qed
qed

text \<open>What one append does to the two tables.\<close>

lemma append_event_Inr:
  assumes "append_event k event msg now db = Inr (seq, db')"
  obtains task e where "find_task db k = Some task" and "te_scope e = k" and "te_seq e = tk_sequence task + 1"
    and "te_message e = msg" and "te_created_at e = now" and "json_text (JDict event) = Some (te_json e)"
    and "te_digest e = sha256_hex (te_json e)"
    and "seq = tk_sequence task + 1" and "\<forall>e' \<in> set (w_events db). \<not> te_clash e e'"
    and "db' = db\<lparr>w_events := w_events db @ [e],
      w_tasks := edit_by tk_key k (\<lambda>r. r\<lparr>tk_sequence := tk_sequence task + 1\<rparr>) (w_tasks db)\<rparr>"
proof -
  obtain org ws tid where k: "k = (org, ws, tid)" by (cases k)
  from assms obtain task d t where 1: "find_task db k = Some task" and 2: "work_json_object (JDict event) = Inr d"
    and 3: "json_text (JDict d) = Some t"
    and ins: "insert_with te_clash \<lparr>te_org = org, te_ws = ws, te_task = tid, te_seq = tk_sequence task + 1, te_json = t,
        te_digest = sha256_hex t, te_created_at = now, te_message = msg\<rparr> (w_events db) = Inr (w_events db')"
    and 4: "seq = tk_sequence task + 1"
    and 5: "db' = db\<lparr>w_events := w_events db',
      w_tasks := edit_by tk_key k (\<lambda>r. r\<lparr>tk_sequence := tk_sequence task + 1\<rparr>) (w_tasks db)\<rparr>"
    unfolding append_event_def k by (auto simp: resE require_task_def work_digest_def split: option.splits)
  from 2 have "d = event" by (auto dest: work_json_object_Inr)
  with 3 have 3: "json_text (JDict event) = Some t" by simp
  from ins have fresh: "\<forall>e' \<in> set (w_events db). \<not> te_clash \<lparr>te_org = org, te_ws = ws, te_task = tid,
      te_seq = tk_sequence task + 1, te_json = t, te_digest = sha256_hex t, te_created_at = now, te_message = msg\<rparr> e'"
    and es: "w_events db' = w_events db @ [\<lparr>te_org = org, te_ws = ws, te_task = tid, te_seq = tk_sequence task + 1,
      te_json = t, te_digest = sha256_hex t, te_created_at = now, te_message = msg\<rparr>]"
    by (auto simp: resE)
  show thesis by (rule that [OF 1 _ _ _ _ _ _ 4 fresh]) (use 3 5 es k in \<open>simp_all add: te_scope_def\<close>)
qed

lemma tasks_ok_event:
  assumes ok: "tasks_ok ts es" and f: "find_by tk_key k ts = Some task" and e: "te_scope e = k"
    and seq: "te_seq e = tk_sequence task + 1"
  shows "tasks_ok (edit_by tk_key k (\<lambda>r. r\<lparr>tk_sequence := tk_sequence task + 1\<rparr>) ts) (es @ [e])"
proof -
  let ?r = "task\<lparr>tk_sequence := tk_sequence task + 1\<rparr>"
  from f have r: "task \<in> set ts" "tk_key task = k" by (auto dest: find_by_SomeD)
  then have key: "tk_key ?r = k" by (simp add: tk_key_def)
  from ok have edit: "edit_by tk_key k (\<lambda>r. r\<lparr>tk_sequence := tk_sequence task + 1\<rparr>) ts = edit_by tk_key k (\<lambda>_. ?r) ts"
    by (intro edit_by_const [OF _ f]) (simp add: tasks_ok_def)
  from ok r have log: "map te_seq (log_of es k) = [1..tk_sequence task]" "0 \<le> tk_sequence task"
    by (auto simp: tasks_ok_def)
  then have snoc: "[1..tk_sequence task + 1] = [1..tk_sequence task] @ [tk_sequence task + 1]"
    using upto_rec2 [of 1 "tk_sequence task + 1"] by simp
  show ?thesis unfolding edit tasks_ok_def
  proof (intro conjI ballI)
    show "keyed tk_key (edit_by tk_key k (\<lambda>_. ?r) ts)" using ok key by (simp add: keyed_edit_const tasks_ok_def)
    have "tk_key ` set (edit_by tk_key k (\<lambda>_. ?r) ts) = tk_key ` set ts"
      by (rule image_key_edit [OF f]) (simp add: key r)
    with ok r e show "te_scope ` set (es @ [e]) \<subseteq> tk_key ` set (edit_by tk_key k (\<lambda>_. ?r) ts)"
      by (auto simp: tasks_ok_def)
    fix t assume "t \<in> set (edit_by tk_key k (\<lambda>_. ?r) ts)"
    then consider "t = ?r" | "t \<in> set ts" and "tk_key t \<noteq> k" by (auto simp: in_edit_by)
    then show "task_transitions (tk_status t) \<noteq> None" and "0 \<le> tk_sequence t"
      and "map te_seq (log_of (es @ [e]) (tk_key t)) = [1..tk_sequence t]"
      using ok r e seq key log snoc by (cases; auto simp: tasks_ok_def)+
  qed
qed

section \<open>Gates\<close>

text \<open>
  What every kind of gate promises its task, proved once: \<open>gkey\<close> is the primary key of a gate row, \<open>gate\<close> the task
  it holds up, \<open>pend\<close> that it is open and \<open>waiting\<close> the state its task is parked in.
\<close>

locale human_gate =
  fixes gkey :: "'g \<Rightarrow> task_key" and gate :: "'g \<Rightarrow> task_key" and pend :: "'g \<Rightarrow> bool" and waiting :: string
  assumes not_ended: "waiting \<notin> {''failed'', ''aborted'', ''queued'', ''running''}"
begin

lemma waiting_of: "gate_ok gkey gate pend waiting ts gs \<Longrightarrow> t \<in> set ts \<Longrightarrow> waits waiting (gate ` set (filter pend gs)) t"
  by (simp add: gate_ok_def)

lemma no_pending:
  "gate_ok gkey gate pend waiting ts gs \<Longrightarrow> t \<in> set ts \<Longrightarrow> tk_status t \<in> {''queued'', ''running''} \<Longrightarrow>
   tk_key t \<notin> gate ` set (filter pend gs)"
  using not_ended by (fastforce dest: waiting_of simp: waits_def)

lemma new_task:
  assumes ok: "gate_ok gkey gate pend waiting ts gs" and fresh: "find_by tk_key (tk_key r) ts = None"
    and st: "tk_status r \<noteq> waiting"
  shows "gate_ok gkey gate pend waiting (ts @ [r]) gs"
proof -
  from fresh ok have "tk_key r \<notin> gate ` set gs" by (auto simp: gate_ok_def find_by_None_iff)
  with st have "waits waiting (gate ` set (filter pend gs)) r" by (auto simp: waits_def)
  with ok show ?thesis by (auto simp: gate_ok_def)
qed

lemma edit_task:
  assumes ok: "gate_ok gkey gate pend waiting ts gs" and f: "find_by tk_key k ts = Some r" and key: "tk_key r' = tk_key r"
    and move: "tk_status r' = tk_status r \<or> (tk_status r' \<noteq> waiting \<and> tk_status r \<notin> {''failed'', ''aborted''} \<and>
      (tk_status r = waiting \<longrightarrow> tk_status r' \<in> {''failed'', ''aborted''}))"
  shows "gate_ok gkey gate pend waiting (edit_by tk_key k (\<lambda>_. r') ts) gs"
proof -
  from f have "r \<in> set ts" by (auto dest: find_by_SomeD)
  from waiting_of [OF ok this] move have r': "waits waiting (gate ` set (filter pend gs)) r'"
    unfolding waits_def key by (elim disjE, simp, blast)
  have "\<forall>t \<in> set (edit_by tk_key k (\<lambda>_. r') ts). t = r' \<or> t \<in> set ts" by (auto simp: in_edit_by)
  with r' waiting_of [OF ok] have "\<forall>t \<in> set (edit_by tk_key k (\<lambda>_. r') ts). waits waiting (gate ` set (filter pend gs)) t"
    by metis
  with ok show ?thesis unfolding gate_ok_def image_key_edit [OF f key] by blast
qed

text \<open>Opening and closing change the pending tasks by one, and that task moves with it.\<close>

lemma waits_other: "waits waiting ks t \<Longrightarrow> tk_key t \<noteq> k \<Longrightarrow> waits waiting (insert k ks) t \<and> waits waiting (ks - {k}) t"
  by (auto simp: waits_def)

lemma open_gate:
  assumes ok: "gate_ok gkey gate pend waiting ts gs" and f: "find_by tk_key (gate g) ts = Some r"
    and free: "tk_status r \<in> {''queued'', ''running''}" and g: "pend g" "gkey g \<notin> gkey ` set gs"
    and r': "tk_key r' = tk_key r" "tk_status r' = waiting"
  shows "gate_ok gkey gate pend waiting (edit_by tk_key (gate g) (\<lambda>_. r') ts) (gs @ [g])"
proof -
  let ?ts = "edit_by tk_key (gate g) (\<lambda>_. r') ts"
  from f have r: "r \<in> set ts" "tk_key r = gate g" by (auto dest: find_by_SomeD)
  from no_pending [OF ok r(1) free] r have none: "gate g \<notin> gate ` set (filter pend gs)" by simp
  have pending: "gate ` set (filter pend (gs @ [g])) = insert (gate g) (gate ` set (filter pend gs))" using g by simp
  have "keyed gkey (gs @ [g])" "keyed gate (filter pend (gs @ [g]))"
    using ok none g unfolding gate_ok_def keyed_def by auto
  moreover have "gate ` set (gs @ [g]) \<subseteq> tk_key ` set ?ts"
    using ok imageI [OF r(1), of tk_key] r(2) unfolding image_key_edit [OF f r'(1)] by (simp add: gate_ok_def)
  moreover have "waits waiting (insert (gate g) (gate ` set (filter pend gs))) t" if "t \<in> set ?ts" for t
  proof -
    from that have "t = r' \<or> (t \<in> set ts \<and> tk_key t \<noteq> gate g)" by (auto simp: in_edit_by)
    then show ?thesis
    proof
      assume "t = r'"
      then show ?thesis using r r' by (simp add: waits_def)
    next
      assume "t \<in> set ts \<and> tk_key t \<noteq> gate g"
      then show ?thesis using waiting_of [OF ok] waits_other by blast
    qed
  qed
  ultimately show ?thesis unfolding gate_ok_def pending by blast
qed

lemma pending_close:
  assumes ok: "gate_ok gkey gate pend waiting ts gs" and fg: "find_by gkey i gs = Some g"
    and g: "pend g" "\<not> pend g'" "gkey g' = gkey g" "gate g' = gate g"
  shows "gate ` set (filter pend (edit_by gkey i (\<lambda>_. g') gs)) = gate ` set (filter pend gs) - {gate g}"
    and "keyed gate (filter pend (edit_by gkey i (\<lambda>_. g') gs))"
    and "gate ` set (edit_by gkey i (\<lambda>_. g') gs) = gate ` set gs"
    and "keyed gkey (edit_by gkey i (\<lambda>_. g') gs)"
proof -
  from fg have gin: "g \<in> set gs" "gkey g = i" by (auto dest: find_by_SomeD)
  have kg: "keyed gkey gs" and kp: "keyed gate (filter pend gs)" using ok by (auto simp: gate_ok_def)
  have same: "\<forall>h \<in> set gs. (gkey h = i) = (h = g)"
  proof
    fix h assume h: "h \<in> set gs"
    have "gkey h = gkey g \<Longrightarrow> h = g" by (rule keyed_eq [OF kg h gin(1)])
    then show "(gkey h = i) = (h = g)" unfolding gin(2) [symmetric] by blast
  qed
  have rest: "filter pend (edit_by gkey i (\<lambda>_. g') gs) = filter (\<lambda>h. gkey h \<noteq> i) (filter pend gs)"
    using g(2) by (induction gs) (auto simp: edit_by_def)
  have "set (filter (\<lambda>h. gkey h \<noteq> i) (filter pend gs)) = set (filter pend gs) - {g}"
    using same by auto
  moreover have "gate ` (set (filter pend gs) - {g}) = gate ` set (filter pend gs) - gate ` {g}"
    using kp gin g unfolding keyed_def distinct_map by (intro inj_on_image_set_diff [of gate "set (filter pend gs)"]) auto
  ultimately show "gate ` set (filter pend (edit_by gkey i (\<lambda>_. g') gs)) = gate ` set (filter pend gs) - {gate g}"
    unfolding rest by simp
  show "keyed gate (filter pend (edit_by gkey i (\<lambda>_. g') gs))"
    using kp unfolding rest keyed_def by (rule distinct_map_filter)
  have "map gate (edit_by gkey i (\<lambda>_. g') gs) = map gate gs" using same g by (auto simp: edit_by_def)
  then show "gate ` set (edit_by gkey i (\<lambda>_. g') gs) = gate ` set gs" by (metis list.set_map)
  show "keyed gkey (edit_by gkey i (\<lambda>_. g') gs)" using kg g gin by (simp add: keyed_edit_const)
qed

lemma close_gate:
  assumes ok: "gate_ok gkey gate pend waiting ts gs" and fg: "find_by gkey i gs = Some g"
    and g: "pend g" "\<not> pend g'" "gkey g' = gkey g" "gate g' = gate g"
    and f: "find_by tk_key (gate g) ts = Some r" and r': "tk_key r' = tk_key r" "tk_status r' \<noteq> waiting"
  shows "gate_ok gkey gate pend waiting (edit_by tk_key (gate g) (\<lambda>_. r') ts) (edit_by gkey i (\<lambda>_. g') gs)"
proof -
  let ?ts = "edit_by tk_key (gate g) (\<lambda>_. r') ts"
  from f have r: "tk_key r = gate g" by (auto dest: find_by_SomeD)
  have "waits waiting (gate ` set (filter pend gs) - {gate g}) t" if "t \<in> set ?ts" for t
  proof -
    from that have "t = r' \<or> (t \<in> set ts \<and> tk_key t \<noteq> gate g)" by (auto simp: in_edit_by)
    then show ?thesis
    proof
      assume "t = r'"
      then show ?thesis using r r' by (simp add: waits_def)
    next
      assume "t \<in> set ts \<and> tk_key t \<noteq> gate g"
      then show ?thesis using waiting_of [OF ok] waits_other by blast
    qed
  qed
  moreover have "gate ` set gs \<subseteq> tk_key ` set ?ts" using ok unfolding image_key_edit [OF f r'(1)] gate_ok_def by blast
  ultimately show ?thesis using pending_close [OF ok fg g] unfolding gate_ok_def by simp
qed

end

interpretation approval_gate: human_gate ap_key ap_gate ap_pend "''waiting_approval''"
  by unfold_locales simp

interpretation input_gate: human_gate in_key in_gate in_pend "''waiting_input''"
  by unfold_locales simp

section \<open>Receipts and notifications\<close>

lemma keyed_filter_edit:
  assumes "keyed f (filter P t)" and "\<And>r. r \<in> set t \<Longrightarrow> key r = k \<Longrightarrow> P (g r) \<Longrightarrow> P r \<and> f (g r) = f r"
  shows "keyed f (filter P (edit_by key k g t))"
  using assms
proof (induction t)
  case Nil
  then show ?case by (simp add: edit_by_def)
next
  case (Cons r t)
  have sub: "f ` set (filter P (edit_by key k g t)) \<subseteq> f ` set (filter P t)"
    using Cons.prems(2) by (force simp: edit_by_def)
  have "keyed f (filter P (edit_by key k g t))" using Cons by (auto simp: keyed_def split: if_splits)
  with sub Cons.prems show ?case by (auto simp: keyed_def edit_by_def split: if_splits)
qed

lemma op_edge_unresolved: "op_edge s s' \<Longrightarrow> s \<in> {''started'', ''uncertain''} \<and> operation_transitions s' \<noteq> None"
  by (auto simp: op_edge_def operation_transitions_def split: if_splits)

lemma operations_ok_new:
  assumes ok: "operations_ok ops" and fresh: "\<forall>r' \<in> set ops. \<not> op_clash r r'" and st: "op_status r = ''started''"
    and tgt: "provider_intent r \<longrightarrow> op_target_key r \<notin> op_target_key ` set (filter unresolved ops)"
    and lck: "lock_intent r \<longrightarrow> op_lock_key r \<notin> op_lock_key ` set (filter unresolved ops)"
  shows "operations_ok (ops @ [r])"
proof -
  have "op_ident r \<notin> op_ident ` set ops" and "op_key_of r \<notin> op_key_of ` set ops"
    using fresh by (auto simp: op_clash_def image_iff)
  moreover have "op_target_key ` set (filter provider_intent ops) \<subseteq> op_target_key ` set (filter unresolved ops)"
    and "op_lock_key ` set (filter lock_intent ops) \<subseteq> op_lock_key ` set (filter unresolved ops)"
    by (auto simp: provider_intent_def lock_intent_def)
  moreover have "operation_transitions (op_status r) \<noteq> None" by (simp add: st operation_transitions_def)
  ultimately show ?thesis using ok tgt lck unfolding operations_ok_def keyed_def by auto
qed

lemma operations_ok_edit:
  assumes ok: "operations_ok ops" and f: "find_by op_ident i ops = Some r" and e: "op_edge (op_status r) s"
  shows "operations_ok (edit_by op_ident i (\<lambda>_. r\<lparr>op_status := s, op_evidence := ev, op_updated_at := t\<rparr>) ops)"
proof -
  let ?r = "r\<lparr>op_status := s, op_evidence := ev, op_updated_at := t\<rparr>"
  let ?ops = "edit_by op_ident i (\<lambda>_. ?r) ops"
  from f have r: "r \<in> set ops" "op_ident r = i" by (auto dest: find_by_SomeD)
  have only: "q = r" if "q \<in> set ops" "op_ident q = i" for q
    using keyed_eq [of op_ident ops q r] ok that r by (simp add: operations_ok_def)
  have un: "unresolved r" using op_edge_unresolved [OF e] by (simp add: unresolved_def)
  have "keyed op_key_of ?ops"
    using ok keyed_filter_edit [of op_key_of "\<lambda>_. True" ops op_ident i "\<lambda>_. ?r"] only
    by (auto simp: operations_ok_def op_key_of_def)
  moreover have "keyed op_ident ?ops" using ok r by (intro keyed_edit_const) (simp_all add: operations_ok_def op_ident_def)
  moreover have "keyed op_target_key (filter provider_intent ?ops)"
    using ok un only by (intro keyed_filter_edit) (auto simp: operations_ok_def provider_intent_def op_target_key_def)
  moreover have "keyed op_lock_key (filter lock_intent ?ops)"
    using ok un only by (intro keyed_filter_edit) (auto simp: operations_ok_def lock_intent_def op_lock_key_def)
  moreover have "\<forall>q \<in> set ?ops. operation_transitions (op_status q) \<noteq> None"
    using ok op_edge_unresolved [OF e] by (auto simp: operations_ok_def in_edit_by)
  ultimately show ?thesis by (simp add: operations_ok_def)
qed

lemma note_fixed_keys: "note_fixed n' = note_fixed n \<Longrightarrow> nt_key n' = nt_key n \<and> nt_dedup_key n' = nt_dedup_key n"
  by (cases n, cases n') (simp add: note_fixed_def nt_key_def nt_dedup_key_def)

lemma note_move_key: "note_move n n' \<Longrightarrow> nt_key n' = nt_key n" "note_move n n' \<Longrightarrow> nt_dedup_key n' = nt_dedup_key n"
  by (auto simp: note_move_def same_note_def dest: note_fixed_keys)

lemma notes_ok_new: "notes_ok ns \<Longrightarrow> \<forall>n' \<in> set ns. \<not> nt_clash n n' \<Longrightarrow> note_ok n \<Longrightarrow> notes_ok (ns @ [n])"
  by (auto simp: notes_ok_def nt_clash_def keyed_def image_iff)

lemma notes_ok_move: "notes_ok ns \<Longrightarrow> list_all2 note_move ns ns' \<Longrightarrow> \<forall>n \<in> set ns'. note_ok n \<Longrightarrow> notes_ok ns'"
  by (simp add: notes_ok_def keyed_all2 [OF _ note_move_key(1)] keyed_all2 [OF _ note_move_key(2)])

section \<open>Every change keeps the invariant\<close>

lemma task_edge_states: "task_edge s s' \<Longrightarrow> task_transitions s' \<noteq> None \<and> s \<notin> terminal_task_states"
  by (auto simp: task_edge_def task_transitions_def terminal_task_states_def split: if_splits)

lemma task_edge_open: "task_edge s s' \<Longrightarrow> s \<notin> {''failed'', ''aborted''}"
  by (drule task_edge_states) (simp add: terminal_task_states_def)

lemma free_move_gate:
  "free_move s s' \<Longrightarrow> w \<in> {''waiting_approval'', ''waiting_input''} \<Longrightarrow>
   s' = s \<or> (s' \<noteq> w \<and> s \<notin> {''failed'', ''aborted''} \<and> (s = w \<longrightarrow> s' \<in> {''failed'', ''aborted''}))"
  unfolding free_move_def using task_edge_open [of s s'] by blast

lemma task_edit_same: "task_edit m r r' \<Longrightarrow> tk_key r' = tk_key r \<and> tk_sequence r' = tk_sequence r \<and> m (tk_status r) (tk_status r')"
  by (simp add: task_edit_def same_task_def)

lemma tk_key_status [simp]: "tk_key (r\<lparr>tk_status := s\<rparr>) = tk_key r"
  by (simp add: tk_key_def)

lemma tk_key_sequence [simp]: "tk_key (r\<lparr>tk_sequence := s\<rparr>) = tk_key r"
  by (simp add: tk_key_def)

lemma provenance_tasks: "provenance_ok db \<Longrightarrow> tk_key ` set ts = tk_key ` set (w_tasks db) \<Longrightarrow> provenance_ok (db\<lparr>w_tasks := ts\<rparr>)"
  by (simp add: provenance_ok_def)

text \<open>Editing a task's row while its key, status and gates stay put or move freely.\<close>

lemma winv_edit_task:
  assumes inv: "winv db" and f: "find_task db k = Some r" and e: "task_edit free_move r r'"
  shows "winv (db\<lparr>w_tasks := edit_by tk_key k (\<lambda>_. r') (w_tasks db)\<rparr>)"
proof -
  note f' = f [unfolded find_task_def]
  from f' have r: "r \<in> set (w_tasks db)" by (auto dest: find_by_SomeD)
  from task_edit_same [OF e] have e': "tk_key r' = tk_key r" "tk_sequence r' = tk_sequence r" and
    m: "free_move (tk_status r) (tk_status r')" by auto
  have "task_transitions (tk_status r') \<noteq> None"
    using m inv r task_edge_states by (auto simp: free_move_def winv_def tasks_ok_def)
  with inv have "tasks_ok (edit_by tk_key k (\<lambda>_. r') (w_tasks db)) (w_events db)"
    by (intro tasks_ok_edit [OF _ f' e']) (simp_all add: winv_def)
  moreover have "approvals_ok (edit_by tk_key k (\<lambda>_. r') (w_tasks db)) (w_approvals db)"
    using inv approval_gate.edit_task [OF _ f' e'(1) free_move_gate [OF m]] by (simp add: winv_def approvals_ok_def)
  moreover have "inputs_ok (edit_by tk_key k (\<lambda>_. r') (w_tasks db)) (w_inputs db)"
    using inv input_gate.edit_task [OF _ f' e'(1) free_move_gate [OF m]] by (simp add: winv_def inputs_ok_def)
  moreover have "provenance_ok (db\<lparr>w_tasks := edit_by tk_key k (\<lambda>_. r') (w_tasks db)\<rparr>)"
    using inv by (intro provenance_tasks image_key_edit [OF f' e'(1)]) (simp add: winv_def)
  ultimately show ?thesis using inv by (simp add: winv_def)
qed

lemma winv_new_task:
  assumes inv: "winv db" and f: "find_task db (tk_key r) = None" and st: "tk_status r = ''queued''" and sq: "tk_sequence r = 0"
  shows "winv (db\<lparr>w_tasks := w_tasks db @ [r]\<rparr>)"
proof -
  note f' = f [unfolded find_task_def]
  have "tasks_ok (w_tasks db @ [r]) (w_events db)" using inv by (intro tasks_ok_new f' st sq) (simp add: winv_def)
  moreover have "approvals_ok (w_tasks db @ [r]) (w_approvals db)"
    using inv approval_gate.new_task [OF _ f'] st by (simp add: winv_def approvals_ok_def)
  moreover have "inputs_ok (w_tasks db @ [r]) (w_inputs db)"
    using inv input_gate.new_task [OF _ f'] st by (simp add: winv_def inputs_ok_def)
  moreover have "provenance_ok (db\<lparr>w_tasks := w_tasks db @ [r]\<rparr>)" using inv by (auto simp: winv_def provenance_ok_def)
  ultimately show ?thesis using inv by (simp add: winv_def)
qed

lemma winv_event:
  assumes inv: "winv db" and ev: "append_event k event msg now db = Inr (seq, db')"
  shows "winv db'"
proof -
  obtain task e where f: "find_task db k = Some task" and e: "te_scope e = k" "te_seq e = tk_sequence task + 1"
    and db': "db' = db\<lparr>w_events := w_events db @ [e],
      w_tasks := edit_by tk_key k (\<lambda>r. r\<lparr>tk_sequence := tk_sequence task + 1\<rparr>) (w_tasks db)\<rparr>"
    using append_event_Inr [OF ev] by blast
  let ?r = "task\<lparr>tk_sequence := tk_sequence task + 1\<rparr>"
  note f' = f [unfolded find_task_def]
  have edit: "edit_by tk_key k (\<lambda>r. r\<lparr>tk_sequence := tk_sequence task + 1\<rparr>) (w_tasks db) =
      edit_by tk_key k (\<lambda>_. ?r) (w_tasks db)"
    using inv by (intro edit_by_const [OF _ f']) (simp add: winv_def tasks_ok_def)
  have key: "tk_key ?r = tk_key task" by simp
  have "tasks_ok (w_tasks db') (w_events db')" using inv tasks_ok_event [OF _ f' e] by (simp add: winv_def db')
  moreover have "approvals_ok (w_tasks db') (w_approvals db')"
    using inv approval_gate.edit_task [OF _ f' key] by (simp add: winv_def approvals_ok_def db' edit)
  moreover have "inputs_ok (w_tasks db') (w_inputs db')"
    using inv input_gate.edit_task [OF _ f' key] by (simp add: winv_def inputs_ok_def db' edit)
  moreover have "provenance_ok db'"
    using inv image_key_edit [OF f' key] by (simp add: winv_def provenance_ok_def db' edit)
  ultimately show ?thesis using inv by (simp add: winv_def db')
qed

end
