(* ===== verification/Work_Change.thy ===== *)
theory Work_Change
  imports Work_Inv
begin

text \<open>
  Every elementary change of the Work store keeps its invariant and moves its tables forward; the theory ends
  with the interpretation of \<open>history\<close> on the elementary changes.
\<close>

section \<open>Opening and closing a gate\<close>

text \<open>A task that moves into or out of a waiting state leaves the other kind of gate alone.\<close>

lemma other_gate_edit:
  assumes "gate_ok gkey gate pend waiting ts gs" and "find_by tk_key k ts = Some r" and "tk_key r' = tk_key r"
    and "human_gate waiting" and "tk_status r \<noteq> waiting" and "tk_status r' \<noteq> waiting"
    and "tk_status r \<notin> {''failed'', ''aborted''}"
  shows "gate_ok gkey gate pend waiting (edit_by tk_key k (\<lambda>_. r') ts) gs"
  by (rule human_gate.edit_task [OF assms(4,1,2,3)]) (use assms in simp)

lemma edge_tasks_ok:
  assumes "tasks_ok ts es" and "find_by tk_key k ts = Some r" and "task_edit m r r'" and "task_transitions (tk_status r') \<noteq> None"
  shows "tasks_ok (edit_by tk_key k (\<lambda>_. r') ts) es"
  using assms task_edit_same [OF assms(3)] by (intro tasks_ok_edit) simp_all

lemma task_edit_status: "m (tk_status r) s \<Longrightarrow> task_edit m r (r\<lparr>tk_status := s\<rparr>)"
  by (simp add: task_edit_def same_task_def)

lemma set_status_const:
  assumes "winv db" and "find_task db k = Some r"
  shows "set_status k s db = db\<lparr>w_tasks := edit_by tk_key k (\<lambda>_. r\<lparr>tk_status := s\<rparr>) (w_tasks db)\<rparr>"
  using assms edit_by_const [of tk_key "w_tasks db" k r "\<lambda>r. r\<lparr>tk_status := s\<rparr>"]
  by (simp add: set_status_def find_task_def winv_def tasks_ok_def)

lemma winv_open_approval:
  assumes inv: "winv db" and f: "find_task db (ap_gate a) = Some r" and st: "tk_status r \<in> {''queued'', ''running''}"
    and a: "ap_pend a" "\<forall>a' \<in> set (w_approvals db). \<not> ap_clash a a'"
  shows "winv (set_status (ap_gate a) ''waiting_approval'' (db\<lparr>w_approvals := w_approvals db @ [a]\<rparr>))"
proof -
  let ?r = "r\<lparr>tk_status := ''waiting_approval''\<rparr>"
  let ?ts = "edit_by tk_key (ap_gate a) (\<lambda>_. ?r) (w_tasks db)"
  note f' = f [unfolded find_task_def]
  have key: "tk_key ?r = tk_key r" by simp
  have edit: "set_status (ap_gate a) ''waiting_approval'' (db\<lparr>w_approvals := w_approvals db @ [a]\<rparr>) =
      db\<lparr>w_approvals := w_approvals db @ [a], w_tasks := ?ts\<rparr>"
    using inv edit_by_const [OF _ f', of "\<lambda>r. r\<lparr>tk_status := ''waiting_approval''\<rparr>"]
    by (simp add: set_status_def winv_def tasks_ok_def)
  have "ap_key a \<notin> ap_key ` set (w_approvals db)" using a(2) by (auto simp: ap_clash_def ap_key_def)
  then have "approvals_ok ?ts (w_approvals db @ [a])"
    using inv approval_gate.open_gate [OF _ f' st a(1) _ key] a(1)
    by (simp add: winv_def approvals_ok_def ap_pend_def)
  moreover have "inputs_ok ?ts (w_inputs db)"
    using inv st other_gate_edit [OF _ f' key input_gate.human_gate_axioms, of in_key in_gate in_pend "w_inputs db"]
    by (auto simp: winv_def inputs_ok_def)
  moreover have "tasks_ok ?ts (w_events db)"
    using inv by (intro edge_tasks_ok [OF _ f' task_edit_status [of "\<lambda>_ _. True"]]) (simp_all add: winv_def task_transitions_def)
  moreover have "provenance_ok (db\<lparr>w_approvals := w_approvals db @ [a], w_tasks := ?ts\<rparr>)"
    using inv image_key_edit [OF f' key] by (simp add: winv_def provenance_ok_def)
  ultimately show ?thesis using inv unfolding edit by (simp add: winv_def)
qed

lemma approval_le_keys: "approval_le a a' \<Longrightarrow> ap_key a' = ap_key a \<and> ap_gate a' = ap_gate a \<and>
    (ap_status a' = ap_status a \<or> ap_status a' \<in> {''approved'', ''rejected''})"
  unfolding approval_le_def by (elim disjE exE conjE) (simp_all add: ap_key_def ap_gate_def)

lemma input_le_keys: "input_le a a' \<Longrightarrow> in_key a' = in_key a \<and> in_gate a' = in_gate a \<and>
    (in_status a' = in_status a \<or> in_status a' = ''answered'')"
  unfolding input_le_def by (elim disjE exE conjE) (simp_all add: in_key_def in_gate_def)

lemma winv_close_approval:
  assumes inv: "winv db" and fa: "find_by ap_key i (w_approvals db) = Some a" and a: "ap_pend a" "approval_le a a'" "a' \<noteq> a"
    and f: "find_task db (ap_gate a) = Some r" and st: "tk_status r = ''waiting_approval''"
    and e: "task_edit (\<lambda>_ s. s \<in> {''running'', ''aborted''}) r r'"
  shows "winv (db\<lparr>w_approvals := edit_by ap_key i (\<lambda>_. a') (w_approvals db),
    w_tasks := edit_by tk_key (ap_gate a) (\<lambda>_. r') (w_tasks db)\<rparr>)"
proof -
  let ?ts = "edit_by tk_key (ap_gate a) (\<lambda>_. r') (w_tasks db)"
  note f' = f [unfolded find_task_def]
  from task_edit_same [OF e] have key: "tk_key r' = tk_key r" and s: "tk_status r' \<in> {''running'', ''aborted''}" by auto
  have np: "\<not> ap_pend a'" using approval_le_moved a by blast
  have "gate_ok ap_key ap_gate ap_pend ''waiting_approval'' ?ts (edit_by ap_key i (\<lambda>_. a') (w_approvals db))"
    using inv s approval_le_keys [OF a(2)]
    by (intro approval_gate.close_gate [OF _ fa a(1) np _ _ f' key]) (auto simp: winv_def approvals_ok_def)
  moreover have "\<forall>x \<in> set (edit_by ap_key i (\<lambda>_. a') (w_approvals db)). ap_status x \<in> {''pending'', ''approved'', ''rejected''}"
    using inv approval_le_keys [OF a(2)] a(1) by (auto simp: in_edit_by winv_def approvals_ok_def ap_pend_def)
  moreover have "inputs_ok ?ts (w_inputs db)"
    using inv st s other_gate_edit [OF _ f' key input_gate.human_gate_axioms, of in_key in_gate in_pend "w_inputs db"]
    by (auto simp: winv_def inputs_ok_def)
  moreover have "tasks_ok ?ts (w_events db)"
    using inv s by (intro edge_tasks_ok [OF _ f' e]) (auto simp: winv_def task_transitions_def)
  moreover have "provenance_ok (db\<lparr>w_approvals := edit_by ap_key i (\<lambda>_. a') (w_approvals db), w_tasks := ?ts\<rparr>)"
    using inv image_key_edit [OF f' key] by (simp add: winv_def provenance_ok_def)
  ultimately show ?thesis using inv by (simp add: winv_def approvals_ok_def)
qed

lemma winv_open_input:
  assumes inv: "winv db" and f: "find_task db (in_gate a) = Some r" and st: "tk_status r = ''running''"
    and a: "in_pend a" "\<forall>a' \<in> set (w_inputs db). \<not> in_clash a a'"
  shows "winv (set_status (in_gate a) ''waiting_input'' (db\<lparr>w_inputs := w_inputs db @ [a]\<rparr>))"
proof -
  let ?r = "r\<lparr>tk_status := ''waiting_input''\<rparr>"
  let ?ts = "edit_by tk_key (in_gate a) (\<lambda>_. ?r) (w_tasks db)"
  note f' = f [unfolded find_task_def]
  have key: "tk_key ?r = tk_key r" by simp
  have edit: "set_status (in_gate a) ''waiting_input'' (db\<lparr>w_inputs := w_inputs db @ [a]\<rparr>) =
      db\<lparr>w_inputs := w_inputs db @ [a], w_tasks := ?ts\<rparr>"
    using inv edit_by_const [OF _ f', of "\<lambda>r. r\<lparr>tk_status := ''waiting_input''\<rparr>"]
    by (simp add: set_status_def winv_def tasks_ok_def)
  have "in_key a \<notin> in_key ` set (w_inputs db)" using a(2) by (auto simp: in_clash_def in_key_def)
  then have "inputs_ok ?ts (w_inputs db @ [a])"
    using inv input_gate.open_gate [OF _ f' _ a(1) _ key] a(1) st
    by (simp add: winv_def inputs_ok_def in_pend_def)
  moreover have "approvals_ok ?ts (w_approvals db)"
    using inv st other_gate_edit [OF _ f' key approval_gate.human_gate_axioms, of ap_key ap_gate ap_pend "w_approvals db"]
    by (auto simp: winv_def approvals_ok_def)
  moreover have "tasks_ok ?ts (w_events db)"
    using inv by (intro edge_tasks_ok [OF _ f' task_edit_status [of "\<lambda>_ _. True"]]) (simp_all add: winv_def task_transitions_def)
  moreover have "provenance_ok (db\<lparr>w_inputs := w_inputs db @ [a], w_tasks := ?ts\<rparr>)"
    using inv image_key_edit [OF f' key] by (simp add: winv_def provenance_ok_def)
  ultimately show ?thesis using inv unfolding edit by (simp add: winv_def)
qed

lemma winv_close_input:
  assumes inv: "winv db" and fa: "find_by in_key i (w_inputs db) = Some a" and a: "in_pend a" "input_le a a'" "a' \<noteq> a"
    and f: "find_task db (in_gate a) = Some r" and st: "tk_status r = ''waiting_input''"
  shows "winv (set_status (in_gate a) ''running'' (db\<lparr>w_inputs := edit_by in_key i (\<lambda>_. a') (w_inputs db)\<rparr>))"
proof -
  let ?r = "r\<lparr>tk_status := ''running''\<rparr>"
  let ?ts = "edit_by tk_key (in_gate a) (\<lambda>_. ?r) (w_tasks db)"
  note f' = f [unfolded find_task_def]
  have key: "tk_key ?r = tk_key r" and s: "tk_status ?r \<noteq> ''waiting_input''" by simp_all
  have edit: "set_status (in_gate a) ''running'' (db\<lparr>w_inputs := edit_by in_key i (\<lambda>_. a') (w_inputs db)\<rparr>) =
      db\<lparr>w_inputs := edit_by in_key i (\<lambda>_. a') (w_inputs db), w_tasks := ?ts\<rparr>"
    using inv edit_by_const [OF _ f', of "\<lambda>r. r\<lparr>tk_status := ''running''\<rparr>"]
    by (simp add: set_status_def winv_def tasks_ok_def)
  have np: "\<not> in_pend a'" using input_le_moved a by blast
  have "gate_ok in_key in_gate in_pend ''waiting_input'' ?ts (edit_by in_key i (\<lambda>_. a') (w_inputs db))"
    using inv input_le_keys [OF a(2)]
    by (intro input_gate.close_gate [OF _ fa a(1) np _ _ f' key s]) (auto simp: winv_def inputs_ok_def)
  moreover have "\<forall>x \<in> set (edit_by in_key i (\<lambda>_. a') (w_inputs db)). in_status x \<in> {''pending'', ''answered''}"
    using inv input_le_keys [OF a(2)] a(1) by (auto simp: in_edit_by winv_def inputs_ok_def in_pend_def)
  moreover have "approvals_ok ?ts (w_approvals db)"
    using inv st other_gate_edit [OF _ f' key approval_gate.human_gate_axioms, of ap_key ap_gate ap_pend "w_approvals db"]
    by (auto simp: winv_def approvals_ok_def)
  moreover have "tasks_ok ?ts (w_events db)"
    using inv by (intro edge_tasks_ok [OF _ f' task_edit_status [of "\<lambda>_ _. True"]]) (simp_all add: winv_def task_transitions_def)
  moreover have "provenance_ok (db\<lparr>w_inputs := edit_by in_key i (\<lambda>_. a') (w_inputs db), w_tasks := ?ts\<rparr>)"
    using inv image_key_edit [OF f' key] by (simp add: winv_def provenance_ok_def)
  ultimately show ?thesis using inv unfolding edit by (simp add: winv_def inputs_ok_def)
qed

section \<open>All changes\<close>

lemma find_in_image: "find_by key k t \<noteq> None \<Longrightarrow> k \<in> key ` set t"
  by (auto simp: find_by_None_iff)

lemma wchange_inv:
  assumes "wchange db db'" and inv: "winv db"
  shows "winv db'"
  using assms(1)
proof cases
  case (new_owner p)
  with inv find_in_image [of tk_key "po_key p" "w_tasks db"] show ?thesis
    by (simp add: winv_def provenance_ok_def find_task_def keyed_snoc)
next
  case (new_origin p)
  with inv find_in_image [of tk_key "to_key p" "w_tasks db"] show ?thesis
    by (simp add: winv_def provenance_ok_def find_task_def keyed_snoc)
next
  case (new_backend b)
  with inv show ?thesis by (simp add: winv_def provenance_ok_def keyed_snoc)
next
  case (new_actor_backend b)
  with inv show ?thesis by (simp add: winv_def provenance_ok_def keyed_snoc)
next
  case (new_op r)
  have "operations_ok (w_operations db @ [r])"
    using inv by (intro operations_ok_new new_op(2-5)) (simp add: winv_def)
  with inv show ?thesis unfolding new_op(1) by (simp add: winv_def provenance_ok_def)
next
  case (edit_op oid r s e t)
  from inv have "operations_ok (w_operations db)" by (simp add: winv_def)
  from operations_ok_edit [OF this edit_op(2,3)] inv show ?thesis
    unfolding edit_op(1) by (simp add: winv_def provenance_ok_def)
next
  case (new_note n)
  from inv have "notes_ok (w_notes db)" by (simp add: winv_def)
  from notes_ok_new [OF this new_note(2,3)] inv show ?thesis unfolding new_note(1) by (simp add: winv_def provenance_ok_def)
next
  case (move_notes ns)
  from inv have "notes_ok (w_notes db)" by (simp add: winv_def)
  from notes_ok_move [OF this move_notes(2,3)] inv show ?thesis
    unfolding move_notes(1) by (simp add: winv_def provenance_ok_def)
next
  case (outside ces ats pis)
  with inv show ?thesis by (simp add: winv_def provenance_ok_def)
qed (use inv in \<open>auto intro: winv_new_task winv_event winv_edit_task winv_open_approval winv_close_approval
  winv_open_input winv_close_input\<close>)

section \<open>Every change moves forward\<close>

lemma ext_edit_const:
  assumes "keyed key t" and "find_by key k t = Some r" and "R r r'" and "\<And>r. R r r"
  shows "table_ext R t (edit_by key k (\<lambda>_. r') t)"
proof (rule table_ext_all2, rule all2_edit)
  fix q assume "q \<in> set t" and "key q = k"
  with assms(1,2) have "q = r" by (auto dest!: find_by_SomeD dest: keyed_eq)
  with assms(3) show "R q r'" by simp
qed (rule assms(4))

lemma task_edit_le: "task_edit m r r' \<Longrightarrow> task_edge\<^sup>*\<^sup>* (tk_status r) (tk_status r') \<Longrightarrow> task_le r r'"
  by (simp add: task_edit_def task_le_def)

lemma free_move_path: "free_move s s' \<Longrightarrow> task_edge\<^sup>*\<^sup>* s s'"
  unfolding free_move_def by (elim disjE conjE, simp) (rule r_into_rtranclp)

text \<open>The edges the gates use.\<close>

lemma gate_edges:
  "task_edge ''queued'' ''waiting_approval''" "task_edge ''running'' ''waiting_approval''"
  "task_edge ''waiting_approval'' ''running''" "task_edge ''waiting_approval'' ''aborted''"
  "task_edge ''running'' ''waiting_input''" "task_edge ''waiting_input'' ''running''"
  by (simp_all add: task_edge_def task_transitions_def)

lemma grows_tasks:
  assumes inv: "winv db" and f: "find_task db k = Some r" and le: "task_le r r'"
  shows "table_ext task_le (w_tasks db) (edit_by tk_key k (\<lambda>_. r') (w_tasks db))"
  using inv by (intro ext_edit_const [where r = r] task_le_refl le f [unfolded find_task_def])
    (simp add: winv_def tasks_ok_def)

lemma grows_status:
  assumes inv: "winv db" and f: "find_task db k = Some r" and e: "task_edge (tk_status r) s"
  shows "table_ext task_le (w_tasks db) (edit_by tk_key k (\<lambda>r. r\<lparr>tk_status := s\<rparr>) (w_tasks db))"
proof -
  have "task_le r (r\<lparr>tk_status := s\<rparr>)" using e by (simp add: task_le_def same_task_def r_into_rtranclp)
  from grows_tasks [OF inv f this] show ?thesis
    using inv edit_by_const [OF _ f [unfolded find_task_def], of "\<lambda>r. r\<lparr>tk_status := s\<rparr>"] by (simp add: winv_def tasks_ok_def)
qed

lemmas ext_refls = table_ext_refl [of task_le, OF task_le_refl] table_ext_refl [of approval_le, OF approval_le_refl]
  table_ext_refl [of input_le, OF input_le_refl] table_ext_refl [of op_le, OF op_le_refl]
  table_ext_refl [of note_le, OF note_le_refl] table_ext_refl [of "(=)", OF refl]

lemmas ext_snocs = table_ext_append [of task_le, OF task_le_refl] table_ext_append [of approval_le, OF approval_le_refl]
  table_ext_append [of input_le, OF input_le_refl] table_ext_append [of op_le, OF op_le_refl]
  table_ext_append [of note_le, OF note_le_refl] table_ext_append [of "(=)", OF refl]

lemmas wgrows_simps = wgrows_def set_status_def ext_refls ext_snocs

lemma wgrows_event:
  assumes inv: "winv db" and ev: "append_event k event msg now db = Inr (seq, db')"
  shows "wgrows db db'"
proof -
  obtain task e where f: "find_task db k = Some task" and
    db': "db' = db\<lparr>w_events := w_events db @ [e],
      w_tasks := edit_by tk_key k (\<lambda>r. r\<lparr>tk_sequence := tk_sequence task + 1\<rparr>) (w_tasks db)\<rparr>"
    using append_event_Inr [OF ev] by blast
  have "task_le task (task\<lparr>tk_sequence := tk_sequence task + 1\<rparr>)" by (simp add: task_le_def same_task_def)
  from grows_tasks [OF inv f this] have "table_ext task_le (w_tasks db) (w_tasks db')"
    using inv edit_by_const [OF _ f [unfolded find_task_def], of "\<lambda>r. r\<lparr>tk_sequence := tk_sequence task + 1\<rparr>"]
    by (simp add: winv_def tasks_ok_def db')
  then show ?thesis by (simp add: db' wgrows_simps)
qed

lemma wchange_grows:
  assumes "wchange db db'" and inv: "winv db"
  shows "wgrows db db'"
  using assms(1)
proof cases
  case (new_event k event msg now seq)
  show ?thesis by (rule wgrows_event [OF inv new_event])
next
  case (edit_task k r r')
  have "task_le r r'" using task_edit_le [OF edit_task(3)] task_edit_same [OF edit_task(3)] free_move_path by blast
  from grows_tasks [OF inv edit_task(2) this] show ?thesis unfolding edit_task(1) by (simp add: wgrows_simps)
next
  case (open_ap a r)
  have "task_edge (tk_status r) ''waiting_approval''" using open_ap(3) gate_edges by auto
  from grows_status [OF inv open_ap(2) this] show ?thesis unfolding open_ap(1) by (simp add: wgrows_simps)
next
  case (close_ap aid a a' r r')
  from task_edit_same [OF close_ap(8)] have "task_edge (tk_status r) (tk_status r')"
    unfolding close_ap(7) using gate_edges by auto
  then have "task_le r r'" by (intro task_edit_le [OF close_ap(8)]) (rule r_into_rtranclp)
  from grows_tasks [OF inv close_ap(6) this]
  have "table_ext task_le (w_tasks db) (edit_by tk_key (ap_gate a) (\<lambda>_. r') (w_tasks db))" .
  moreover have "table_ext approval_le (w_approvals db) (edit_by ap_key aid (\<lambda>_. a') (w_approvals db))"
    using inv by (intro ext_edit_const [where R = approval_le, OF _ close_ap(2,4)] approval_le_refl) (simp add: winv_def approvals_ok_def gate_ok_def)
  ultimately show ?thesis unfolding close_ap(1) by (simp add: wgrows_simps)
next
  case (open_in a r)
  have "task_edge (tk_status r) ''waiting_input''" unfolding open_in(3) by (rule gate_edges)
  from grows_status [OF inv open_in(2) this] show ?thesis unfolding open_in(1) by (simp add: wgrows_simps)
next
  case (close_in iid a a' r)
  have "task_edge (tk_status r) ''running''" unfolding close_in(7) by (rule gate_edges)
  from grows_status [OF inv close_in(6) this]
  have "table_ext task_le (w_tasks db) (edit_by tk_key (in_gate a) (\<lambda>r. r\<lparr>tk_status := ''running''\<rparr>) (w_tasks db))" .
  moreover have "table_ext input_le (w_inputs db) (edit_by in_key iid (\<lambda>_. a') (w_inputs db))"
    using inv by (intro ext_edit_const [where R = input_le, OF _ close_in(2,4)] input_le_refl) (simp add: winv_def inputs_ok_def gate_ok_def)
  ultimately show ?thesis unfolding close_in(1) by (simp add: wgrows_simps)
next
  case (edit_op oid r s t e)
  have "table_ext op_le (w_operations db) (edit_by op_ident oid (\<lambda>_. r\<lparr>op_status := s, op_evidence := e, op_updated_at := t\<rparr>) (w_operations db))"
    using inv by (intro ext_edit_const [OF _ edit_op(2)] op_le_refl op_leI tranclp.r_into_trancl edit_op(3))
      (simp add: winv_def operations_ok_def)
  then show ?thesis unfolding edit_op(1) by (simp add: wgrows_simps)
next
  case (move_notes ns)
  have "table_ext note_le (w_notes db) ns"
    using move_notes(2) by (intro table_ext_all2) (auto elim: list_all2_mono note_move_le)
  then show ?thesis unfolding move_notes(1) by (simp add: wgrows_simps)
qed (simp_all add: wgrows_simps)

interpretation change: history wchange winv wgrows
  by unfold_locales (fact wchange_inv wchange_grows wgrows_refl wgrows_trans)+

text \<open>Sequences of changes, one by one.\<close>

lemmas changes_refl = rtranclp.rtrancl_refl [of wchange]

lemma changes_then: "wchange\<^sup>*\<^sup>* a b \<Longrightarrow> wchange b c \<Longrightarrow> wchange\<^sup>*\<^sup>* a c"
  by (rule rtranclp.rtrancl_into_rtrancl)

lemma changes_one: "wchange a b \<Longrightarrow> wchange\<^sup>*\<^sup>* a b"
  by (rule r_into_rtranclp)

end
