(* ===== verification/Work_Steps.thy ===== *)
theory Work_Steps
  imports Work_Change
begin

text \<open>
  Every operation of the Work store is a sequence of elementary changes. \<open>wstep\<close> is one call, committed or rolled
  back; the theory ends with the interpretation of \<open>history\<close> on it.
\<close>

section \<open>Provenance and events\<close>

lemma event_changes: "append_event k event msg now db = Inr (seq, db') \<Longrightarrow> wchange db db'"
  by (rule new_event)

lemma event_task: "append_event k event msg now db = Inr (seq, db') \<Longrightarrow> find_task db k' \<noteq> None \<Longrightarrow> find_task db' k' \<noteq> None"
  by (erule append_event_Inr) (simp add: find_task_def table_simps)

lemma hold_changes: "append_hold k reason status now db = Inr db' \<Longrightarrow> wchange db db'"
  by (auto simp: append_hold_def resE split: prod.splits intro: new_event)

lemma owner_changes:
  assumes "record_private_task_owner now k actor db = Inr db'" and "find_task db k \<noteq> None"
  shows "wchange\<^sup>*\<^sup>* db db' \<and> w_tasks db' = w_tasks db"
proof -
  obtain org ws tid where k: "k = (org, ws, tid)" by (cases k)
  from assms show ?thesis unfolding record_private_task_owner_def k
    by (auto simp: resE po_key_def split: option.splits if_splits intro: changes_one [OF new_owner])
qed

lemma owner_if_changes:
  "record_owner_if b now k actor db = Inr db' \<Longrightarrow> find_task db k \<noteq> None \<Longrightarrow> wchange\<^sup>*\<^sup>* db db' \<and> w_tasks db' = w_tasks db"
  by (auto simp: record_owner_if_def owner_changes split: if_splits)

lemma new_origin_clash: "\<forall>p' \<in> set (w_origins db). \<not> to_clash p p' \<Longrightarrow> find_task db (to_key p) \<noteq> None \<Longrightarrow>
    wchange\<^sup>*\<^sup>* db (db\<lparr>w_origins := w_origins db @ [p]\<rparr>)"
  by (rule changes_one, rule new_origin) (auto simp: find_by_None_iff to_clash_def)

lemma origin_changes:
  assumes "record_teams_task_origin now k actor origin db = Inr db'" and "find_task db k \<noteq> None"
  shows "wchange\<^sup>*\<^sup>* db db' \<and> w_tasks db' = w_tasks db"
proof -
  obtain org ws tid where k: "k = (org, ws, tid)" by (cases k)
  from assms show ?thesis unfolding record_teams_task_origin_def k
    by (auto simp: resE to_key_def Let_def split: option.splits if_splits intro: new_origin_clash)
qed

section \<open>The outbox\<close>

lemma enqueue_changes:
  assumes "enqueue_notification nid org ws dedup ntype payload conn recip task avail now owner po db = Inr (v, db')"
  shows "wchange\<^sup>*\<^sup>* db db' \<and> w_tasks db' = w_tasks db"
  using assms unfolding enqueue_notification_def
  by (auto simp: resE Let_def note_ok_def note_states_def split: option.splits if_splits intro: changes_one [OF new_note])

lemma all2_map_same: "(\<And>n. n \<in> set ns \<Longrightarrow> R n (f n)) \<Longrightarrow> list_all2 R ns (map f ns)"
  by (induction ns) auto

lemma notes_map_change:
  assumes "winv db" and "\<And>n. n \<in> set (w_notes db) \<Longrightarrow> note_ok n \<Longrightarrow> note_move n (f n) \<and> note_ok (f n)"
  shows "wchange db (db\<lparr>w_notes := map f (w_notes db)\<rparr>)"
  using assms by (intro move_notes all2_map_same) (auto simp: winv_def notes_ok_def)

lemma queue_private_changes:
  assumes inv: "winv db" and q: "queue_private_result nid org ws task now ps o' actor db = Inr db'"
  shows "wchange\<^sup>*\<^sup>* db db'"
proof -
  from q obtain v dup db1 where e: "wchange\<^sup>*\<^sup>* db db1" and
    "db' = db1 \<or> (\<exists>t. db' = db1\<lparr>w_notes := map (\<lambda>n. if nt_key n = (org, ws, nid) \<and> nt_status n = ''queued''
       then n\<lparr>nt_result := t, nt_updated_at := now\<rparr> else n) (w_notes db1)\<rparr>)"
    unfolding queue_private_result_def
    by (auto simp: resE Let_def split: option.splits if_splits prod.splits dest!: enqueue_changes)
  moreover have "wchange db1 (db1\<lparr>w_notes := map (\<lambda>n. if nt_key n = (org, ws, nid) \<and> nt_status n = ''queued''
       then n\<lparr>nt_result := t, nt_updated_at := now\<rparr> else n) (w_notes db1)\<rparr>)" for t
    using change.inv_steps [OF e inv]
    by (rule notes_map_change) (auto simp: note_move_def same_note_def note_fixed_def note_edges_def note_ok_def note_states_def)
  ultimately show ?thesis by (auto intro: changes_then)
qed

lemma queue_result_changes:
  assumes "winv db" and "queue_task_result_notification nid org ws task now ps db = Inr db'"
  shows "wchange\<^sup>*\<^sup>* db db'"
  using assms unfolding queue_task_result_notification_def
  by (auto simp: resE Let_def split: option.splits if_splits prod.splits
    intro: changes_one [OF hold_changes] queue_private_changes dest!: enqueue_changes)

lemma note_move_iff: "note_move n n' \<longleftrightarrow> n' = n \<or> (note_fixed n' = note_fixed n \<and> (nt_status n, nt_status n') \<in> set note_edges)"
  by (simp add: note_move_def same_note_def)

lemma expire_ok: "note_ok n \<Longrightarrow> lease_expired now n \<Longrightarrow> note_move n (expire_note now n) \<and> note_ok (expire_note now n)"
  by (auto simp: expire_note_def lease_expired_def note_move_iff note_fixed_def note_edges_def note_ok_def note_states_def)

lemma lease_ok: "nt_status n = ''queued'' \<Longrightarrow> note_move n (lease_note w t e now n) \<and> note_ok (lease_note w t e now n)"
  by (simp add: lease_note_def note_move_iff note_fixed_def note_edges_def note_ok_def note_states_def)

lemma hold_ok: "note_ok n \<Longrightarrow> note_move n (hold_note t now n) \<and> note_ok (hold_note t now n)"
  by (cases "nt_status n = ''queued''")
    (simp_all add: hold_note_def note_move_iff note_fixed_def note_edges_def note_ok_def note_states_def)

lemma note_stays: "note_move n n"
  by (simp add: note_move_def)

lemma sweep_change: "winv db \<Longrightarrow> wchange db (db\<lparr>w_notes := sweep visible org ws now (w_notes db)\<rparr>)"
  unfolding sweep_def by (rule notes_map_change) (simp_all add: expire_ok note_stays)

lemma edit_note_change:
  assumes "winv db" and "\<And>n. n \<in> set (w_notes db) \<Longrightarrow> nt_key n = k \<Longrightarrow> note_ok n \<Longrightarrow> note_move n (f n) \<and> note_ok (f n)"
  shows "wchange db (db\<lparr>w_notes := edit_by nt_key k f (w_notes db)\<rparr>)"
  unfolding edit_by_def using assms by (intro notes_map_change) (auto simp: note_stays)

lemma lease_rows_changes:
  assumes "winv db" and "lease_rows token_of worker expires now i rows (w_notes db) = Inr (ls, ns')"
    and "distinct (map nt_key rows)" and "\<forall>r \<in> set rows. find_by nt_key (nt_key r) (w_notes db) = Some r \<and> nt_status r = ''queued''"
  shows "wchange\<^sup>*\<^sup>* db (db\<lparr>w_notes := ns'\<rparr>)"
  using assms
proof (induction rows arbitrary: db i ls)
  case Nil
  then show ?case by auto
next
  case (Cons r rows)
  let ?db = "db\<lparr>w_notes := edit_by nt_key (nt_key r) (lease_note worker (token_of i) expires now) (w_notes db)\<rparr>"
  have kn: "keyed nt_key (w_notes db)" using Cons.prems(1) by (simp add: winv_def notes_ok_def)
  have rin: "r \<in> set (w_notes db)" and rq: "nt_status r = ''queued''"
    using Cons.prems(4) find_by_SomeD [of nt_key "nt_key r" "w_notes db" r] by auto
  have step: "wchange db ?db"
  proof (rule edit_note_change [OF Cons.prems(1)])
    fix n assume "n \<in> set (w_notes db)" and "nt_key n = nt_key r"
    then have "n = r" by (rule keyed_eq [OF kn _ rin])
    with rq show "note_move n (lease_note worker (token_of i) expires now n) \<and> note_ok (lease_note worker (token_of i) expires now n)"
      by (simp add: lease_ok)
  qed
  obtain ls' where rest: "lease_rows token_of worker expires now (Suc i) rows (w_notes ?db) = Inr (ls', ns')"
    using Cons.prems(2) by (auto simp: resE Let_def split: option.splits)
  have key: "nt_key (lease_note w t e now' n) = nt_key n" for w t e now' n by (simp add: lease_note_def nt_key_def)
  have "\<forall>q \<in> set rows. find_by nt_key (nt_key q) (w_notes ?db) = Some q \<and> nt_status q = ''queued''"
  proof
    fix q assume q: "q \<in> set rows"
    with Cons.prems(3) have "nt_key q \<noteq> nt_key r" by (metis distinct.simps(2) image_eqI list.set_map list.simps(9))
    then have "find_by nt_key (nt_key q) (w_notes ?db) = find_by nt_key (nt_key q) (w_notes db)"
      by (simp add: find_by_edit key)
    with q Cons.prems(4) show "find_by nt_key (nt_key q) (w_notes ?db) = Some q \<and> nt_status q = ''queued''"
      by (metis list.set_intros(2))
  qed
  from Cons.IH [OF wchange_inv [OF step Cons.prems(1)] rest _ this] Cons.prems(3) step
  show ?case by (auto intro: converse_rtranclp_into_rtranclp)
qed

lemma keyed_sort [simp]: "keyed key (sort_key f t) = keyed key t"
  by (simp add: keyed_def distinct_map)

lemma keyed_page: "keyed key t \<Longrightarrow> distinct (map key (take m (order_by2 f g (filter P t))))"
proof -
  assume "keyed key t"
  then have "keyed key (order_by2 f g (filter P t))" by (simp add: order_by2_def) (simp add: keyed_def distinct_map_filter)
  then show ?thesis by (simp add: keyed_def take_map [symmetric])
qed

lemma set_page: "set (take m (order_by2 f g (filter P t))) \<subseteq> {r \<in> set t. P r}"
  by (rule subset_trans [OF set_take_subset]) (simp add: order_by2_def)

lemma claim_changes:
  assumes inv: "winv db" and c: "claim_notifications token_of now org ws worker limit secs ntype conn recip actor p db = (r, db')"
  shows "wchange\<^sup>*\<^sup>* db db'"
proof (cases r)
  case (Inl e)
  with c show ?thesis by (simp add: claim_notifications_def resE)
next
  case (Inr v)
  with c obtain vis o' w' wk P ns ls where ns: "ns = sweep vis o' w' now (w_notes db)" and
    l: "lease_rows token_of wk (now + secs * 1000) now 0
        (take (nat limit) (order_by2 nt_available_at nt_created_at (filter P ns))) ns = Inr (ls, w_notes db')" and
    P: "\<And>n. P n \<Longrightarrow> nt_status n = ''queued''" and db': "db' = db\<lparr>w_notes := w_notes db'\<rparr>"
    unfolding claim_notifications_def by (auto simp: resE Let_def split: if_splits prod.splits)
  let ?db = "db\<lparr>w_notes := ns\<rparr>"
  have s: "wchange db ?db" unfolding ns by (rule sweep_change [OF inv])
  then have inv': "winv ?db" by (rule wchange_inv [OF _ inv])
  then have kn: "keyed nt_key ns" by (simp add: winv_def notes_ok_def)
  have "wchange\<^sup>*\<^sup>* ?db (?db\<lparr>w_notes := w_notes db'\<rparr>)"
    by (rule lease_rows_changes [OF inv'])
      (use l kn P set_page [of "nat limit" nt_available_at nt_created_at P ns] in \<open>auto simp: keyed_page intro: find_by_keyed\<close>)
  with s have "wchange\<^sup>*\<^sup>* db (db\<lparr>w_notes := w_notes db'\<rparr>)" by (simp add: converse_rtranclp_into_rtranclp)
  then show ?thesis by (subst db')
qed

lemma lease_private_changes:
  assumes "winv db" and "lease_private db0 org ws ps token_of worker expires now limit i rows (w_notes db) = Inr (ls, ns')"
  shows "wchange\<^sup>*\<^sup>* db (db\<lparr>w_notes := ns'\<rparr>)"
  using assms
proof (induction rows arbitrary: db i ls)
  case Nil
  then show ?case by auto
next
  case (Cons r rows)
  have hold: "wchange db (db\<lparr>w_notes := edit_by nt_key (nt_key r) (hold_note t now) (w_notes db)\<rparr>)" for t
    by (rule edit_note_change [OF Cons.prems(1)]) (rule hold_ok)
  have lease: "wchange db (db\<lparr>w_notes := edit_by nt_key (nt_key r) (lease_queued worker (token_of i) expires now) (w_notes db)\<rparr>)"
    by (rule edit_note_change [OF Cons.prems(1)]) (simp add: lease_queued_def lease_ok note_stays)
  note ih = Cons.IH [OF wchange_inv [OF hold Cons.prems(1)]] Cons.IH [OF wchange_inv [OF lease Cons.prems(1)]]
  show ?case
  proof (cases "private_route db0 org ws ps r")
    case (Inl e)
    with Cons.prems(2) obtain t where
      "lease_private db0 org ws ps token_of worker expires now limit i rows
        (edit_by nt_key (nt_key r) (hold_note t now) (w_notes db)) = Inr (ls, ns')"
      by (auto simp: resE split: error.splits if_splits)
    with ih(1) hold [of t] show ?thesis by (auto intro: converse_rtranclp_into_rtranclp)
  next
    case (Inr route)
    with Cons.prems(2) consider
        "ns' = edit_by nt_key (nt_key r) (lease_queued worker (token_of i) expires now) (w_notes db)"
      | ls' where "lease_private db0 org ws ps token_of worker expires now limit (Suc i) rows
          (edit_by nt_key (nt_key r) (lease_queued worker (token_of i) expires now) (w_notes db)) = Inr (ls', ns')"
      by (auto simp: resE Let_def split: option.splits if_splits)
    then show ?thesis using ih(2) lease by cases (auto intro: converse_rtranclp_into_rtranclp)
  qed
qed

lemma claim_private_changes:
  assumes inv: "winv db" and c: "claim_private_notifications token_of now org ws worker limit secs ps ntype db = (r, db')"
  shows "wchange\<^sup>*\<^sup>* db db'"
proof (cases r)
  case (Inl e)
  with c show ?thesis by (simp add: claim_private_notifications_def resE)
next
  case (Inr v)
  with c obtain vis o' w' wk rows ns ls where ns: "ns = sweep vis o' w' now (w_notes db)" and
    l: "lease_private db o' w' ps token_of wk (now + secs * 1000) now (nat limit) 0 rows ns = Inr (ls, w_notes db')" and
    db': "db' = db\<lparr>w_notes := w_notes db'\<rparr>"
    unfolding claim_private_notifications_def by (auto simp: resE Let_def split: if_splits prod.splits)
  let ?db = "db\<lparr>w_notes := ns\<rparr>"
  have s: "wchange db ?db" unfolding ns by (rule sweep_change [OF inv])
  have "wchange\<^sup>*\<^sup>* ?db (?db\<lparr>w_notes := w_notes db'\<rparr>)"
    by (rule lease_private_changes [OF wchange_inv [OF s inv]]) (use l in simp)
  with s have "wchange\<^sup>*\<^sup>* db (db\<lparr>w_notes := w_notes db'\<rparr>)" by (simp add: converse_rtranclp_into_rtranclp)
  then show ?thesis by (subst db')
qed

definition outcomes :: "string list" where
  "outcomes = [''started'', ''delivered'', ''failed'', ''uncertain'', ''retry'']"

text \<open>What a delivery call can do to a row.\<close>

lemma deliver_cases:
  assumes "deliver now target result retry n = Inr n'"
  obtains (same) "n' = n"
  | (start) "target = ''started''" "nt_status n = ''leased''" "lease_live now n"
      "n' = n\<lparr>nt_status := ''started'', nt_started_at := Some now, nt_updated_at := now\<rparr>"
  | (retry) body where "target = ''retry''" "nt_status n = ''started''" "lease_live now n"
      "n' = n\<lparr>nt_status := ''queued'', nt_available_at := now + (case retry of None \<Rightarrow> 0 | Some s \<Rightarrow> s) * 1000,
         nt_result := body, nt_updated_at := now, nt_worker := None, nt_token_hash := None, nt_lease := None\<rparr>"
  | (finish) body where "target \<notin> {''started'', ''retry''}" "nt_status n = ''started''" "lease_live now n"
      "n' = n\<lparr>nt_status := target, nt_result := body, nt_updated_at := now, nt_worker := None, nt_lease := None\<rparr>"
proof -
  from assms obtain old where old: "stored_object (nt_result n) = Inr old" unfolding deliver_def bindE_eq_Inr by blast
  note d = assms [unfolded deliver_def old bindE_simps Let_def]
  consider (a) "target = ''started'' \<and> nt_status n = ''started'' \<or> nt_status n = target \<and> py_eq (JDict old) (JDict result)"
    | (b) "target = ''started''" "\<not> (target = ''started'' \<and> nt_status n = ''started'' \<or> nt_status n = target \<and> py_eq (JDict old) (JDict result))"
    | (c) "target \<noteq> ''started''" "\<not> (nt_status n = target \<and> py_eq (JDict old) (JDict result))" by blast
  then show thesis
  proof cases
    case a
    with d have "n' = n" by (auto split: if_splits)
    then show ?thesis by (rule same)
  next
    case b
    with d show ?thesis by (intro start) (auto split: if_splits)
  next
    case c
    with d have st: "nt_status n = ''started''" "lease_live now n" by (auto split: if_splits)
    show ?thesis
    proof (cases "target = ''retry''")
      case True
      with d c st obtain i where "dget_or old ''retryCount'' (JInt 0) = JInt i" by (auto split: json.splits)
      with d c st True obtain body where "n' = n\<lparr>nt_status := ''queued'',
         nt_available_at := now + (case retry of None \<Rightarrow> 0 | Some s \<Rightarrow> s) * 1000, nt_result := body, nt_updated_at := now,
         nt_worker := None, nt_token_hash := None, nt_lease := None\<rparr>"
        by (auto simp: bindE_eq_Inr split: if_splits)
      then show ?thesis by (rule retry [OF True st])
    next
      case False
      with d c st obtain body where "n' = n\<lparr>nt_status := target, nt_result := body, nt_updated_at := now,
          nt_worker := None, nt_lease := None\<rparr>" by (auto simp: bindE_eq_Inr split: if_splits)
      with False c st show ?thesis by (intro finish) auto
    qed
  qed
qed

lemma deliver_ok:
  assumes "deliver now target result retry n = Inr n'" and ok: "note_ok n" and target: "target \<in> set outcomes"
  shows "note_move n n' \<and> note_ok n'"
  using assms(1)
proof (cases rule: deliver_cases)
  case same
  with ok show ?thesis by (simp add: note_stays)
next
  case start
  with ok show ?thesis by (simp add: note_move_iff note_fixed_def note_edges_def note_ok_def note_states_def)
next
  case (retry body)
  with ok show ?thesis by (simp add: note_move_iff note_fixed_def note_edges_def note_ok_def note_states_def)
next
  case (finish body)
  with target have "target \<in> {''delivered'', ''failed'', ''uncertain''}" by (auto simp: outcomes_def)
  with finish show ?thesis by (auto simp: note_move_iff note_fixed_def note_edges_def note_ok_def note_states_def)
qed

lemma transition_changes:
  assumes inv: "winv db" and target: "target \<in> set outcomes"
    and t: "notification_transition now org ws nid token target result retry ps ap po actor p db = (r, db')"
  shows "wchange\<^sup>*\<^sup>* db db'"
proof (cases r)
  case (Inl e)
  with t show ?thesis by (simp add: notification_transition_def resE)
next
  case (Inr v)
  with t obtain k n n' res where f: "find_by nt_key k (w_notes db) = Some n" and d: "deliver now target res retry n = Inr n'"
    and db': "db' = db\<lparr>w_notes := edit_by nt_key k (\<lambda>_. n') (w_notes db)\<rparr>"
    unfolding notification_transition_def by (auto simp: resE split: if_splits option.splits)
  have "wchange db db'" unfolding db'
  proof (rule edit_note_change [OF inv])
    fix q assume "q \<in> set (w_notes db)" and "nt_key q = k" and ok: "note_ok q"
    then have "q = n" using f inv by (auto dest!: find_by_SomeD dest: keyed_eq simp: winv_def notes_ok_def)
    with deliver_ok [OF d _ target] ok show "note_move q n' \<and> note_ok n'" by simp
  qed
  then show ?thesis by (rule changes_one)
qed

lemma start_changes:
  "winv db \<Longrightarrow> start_notification now org ws nid token ps ap po actor p db = (r, db') \<Longrightarrow> wchange\<^sup>*\<^sup>* db db'"
  unfolding start_notification_def by (erule transition_changes) (simp_all add: outcomes_def)

lemma finish_changes:
  "winv db \<Longrightarrow> finish_notification now org ws nid token outcome result retry ps ap po actor p db = (r, db') \<Longrightarrow>
   wchange\<^sup>*\<^sup>* db db'"
  unfolding finish_notification_def
  by (auto split: if_splits intro: transition_changes simp: outcomes_def)

lemma create_notification_changes:
  "create_notification nid t0 now org ws body actor p db = (r, db') \<Longrightarrow> wchange\<^sup>*\<^sup>* db db'"
  by (cases r) (auto simp: create_notification_def resE Let_def split: option.splits if_splits prod.splits dest!: enqueue_changes)

section \<open>Tasks\<close>

lemma new_task_fields [simp]:
  "tk_status (new_task org ws tid session prompt now) = ''queued''" "tk_sequence (new_task org ws tid session prompt now) = 0"
  "tk_org (new_task org ws tid session prompt now) = org" "tk_ws (new_task org ws tid session prompt now) = ws"
  "tk_id (new_task org ws tid session prompt now) = tid"
  by (simp_all add: new_task_def)

text \<open>Inserting a task and appending its first event.\<close>

lemma insert_task_change:
  assumes "insert_by tk_key r (w_tasks db) = Inr ts" and "tk_status r = ''queued''" and "tk_sequence r = 0"
  shows "wchange db (db\<lparr>w_tasks := ts\<rparr>)" and "find_task (db\<lparr>w_tasks := ts\<rparr>) (tk_key r) = Some r"
  using assms new_task [of db r] by (auto simp: resE find_task_def find_by_snoc)

lemma admit_changes:
  assumes "insert_by tk_key r (w_tasks db) = Inr ts" and "tk_status r = ''queued''" and "tk_sequence r = 0"
    and "append_event k event msg now (db\<lparr>w_tasks := ts\<rparr>) = Inr (seq, db1)"
  shows "wchange\<^sup>*\<^sup>* db db1 \<and> find_task db1 (tk_key r) \<noteq> None"
proof -
  note i = insert_task_change [OF assms(1-3)]
  from i(1) event_changes [OF assms(4)] have "wchange\<^sup>*\<^sup>* db db1" by (auto intro: changes_then)
  with i(2) event_task [OF assms(4)] show ?thesis by auto
qed

lemma tk_key_new_task: "tk_key r = (tk_org r, tk_ws r, tk_id r)"
  by (simp add: tk_key_def)

section \<open>Reading off the changes of a transaction\<close>

text \<open>
  \<open>runs db m\<close>: if the body \<open>m\<close> of a transaction succeeds, it has taken \<open>db\<close> to its result by elementary changes.
  The rules walk down a body and collect what each statement returned.
\<close>

named_theorems runsI \<open>rules that walk down the body of a transaction\<close>

definition runs :: "wdb \<Rightarrow> ('a \<times> wdb) res \<Rightarrow> bool" where
  "runs db m \<longleftrightarrow> (\<forall>v db'. m = Inr (v, db') \<longrightarrow> wchange\<^sup>*\<^sup>* db db')"

lemma runs_commit: "runs db m \<Longrightarrow> commit db m = (r, db') \<Longrightarrow> wchange\<^sup>*\<^sup>* db db'"
  by (cases r) (auto simp: runs_def resE)

lemma runs_raise [runsI]: "runs db (Inl e)"
  by (simp add: runs_def)

lemma runs_return [runsI]: "wchange\<^sup>*\<^sup>* db db' \<Longrightarrow> runs db (Inr (v, db'))"
  by (simp add: runs_def)

lemma runs_bind [runsI]: "(\<And>x. m = Inr x \<Longrightarrow> runs db (f x)) \<Longrightarrow> runs db (bindE m f)"
  by (auto simp: runs_def resE)

lemma runs_if [runsI]: "(b \<Longrightarrow> runs db m) \<Longrightarrow> (\<not> b \<Longrightarrow> runs db m') \<Longrightarrow> runs db (if b then m else m')"
  by simp

lemma runs_prod [runsI]: "(\<And>a b. x = (a, b) \<Longrightarrow> runs db (f a b)) \<Longrightarrow> runs db (case x of (a, b) \<Rightarrow> f a b)"
  by (cases x) simp

lemma runs_option [runsI]:
  "(x = None \<Longrightarrow> runs db m) \<Longrightarrow> (\<And>y. x = Some y \<Longrightarrow> runs db (f y)) \<Longrightarrow>
   runs db (case x of None \<Rightarrow> m | Some y \<Rightarrow> f y)"
  by (cases x) simp_all

lemma owner_run: "record_owner_if p t2 k creator db = Inr db' \<Longrightarrow> find_task db k = Some row \<Longrightarrow> wchange\<^sup>*\<^sup>* db db'"
  using owner_if_changes by blast

text \<open>Admission: the new row, its first event, and the owner row when the caller is private.\<close>

lemma admit_run:
  assumes "insert_by tk_key r (w_tasks db) = Inr ts" and "append_event k event msg now (db\<lparr>w_tasks := ts\<rparr>) = Inr (seq, db1)"
    and "record_owner_if p t2 k creator db1 = Inr db2"
    and "tk_status r = ''queued''" and "tk_sequence r = 0" and "tk_key r = k"
  shows "wchange\<^sup>*\<^sup>* db db2" and "find_task db2 k \<noteq> None"
proof -
  from admit_changes [OF assms(1,4,5,2)] assms(6) have a: "wchange\<^sup>*\<^sup>* db db1" "find_task db1 k \<noteq> None" by auto
  from owner_if_changes [OF assms(3) a(2)] a show "wchange\<^sup>*\<^sup>* db db2" and "find_task db2 k \<noteq> None"
    by (auto simp: find_task_def)
qed

lemma create_task_changes: "create_task fresh now t2 org ws body actor p db = (r, db') \<Longrightarrow> wchange\<^sup>*\<^sup>* db db'"
  unfolding create_task_def
proof (erule runs_commit [rotated], unfold Let_def, intro runsI)
qed (simp_all, (fastforce intro: admit_run owner_run simp: tk_key_def)+)

lemma owner_run_task:
  "record_owner_if p t2 k creator db = Inr db' \<Longrightarrow> find_task db k = Some row \<Longrightarrow> find_task db' k \<noteq> None"
  using owner_if_changes [of p t2 k creator db db'] by (auto simp: find_task_def)

lemma origin_run:
  assumes "(case origin of None \<Rightarrow> Inr db1 | Some o' \<Rightarrow> record_teams_task_origin now k creator o' db1) = Inr db2"
    and "wchange\<^sup>*\<^sup>* db db1" and "find_task db1 k \<noteq> None"
  shows "wchange\<^sup>*\<^sup>* db db2"
proof (cases origin)
  case (Some o')
  with assms(1) have "record_teams_task_origin now k creator o' db1 = Inr db2" by simp
  from origin_changes [OF this assms(3)] assms(2) show ?thesis by (auto intro: rtranclp_trans)
qed (use assms in simp)

lemma owner_origin_run:
  assumes "(case origin of None \<Rightarrow> Inr db1 | Some o' \<Rightarrow> record_teams_task_origin now k creator o' db1) = Inr db2"
    and "record_owner_if p t2 k creator db = Inr db1" and "find_task db k = Some row"
  shows "wchange\<^sup>*\<^sup>* db db2"
  by (rule origin_run [OF assms(1) owner_run [OF assms(2,3)] owner_run_task [OF assms(2,3)]])

lemma admit_origin_run:
  assumes "(case origin of None \<Rightarrow> Inr db2 | Some o' \<Rightarrow> record_teams_task_origin now k creator o' db2) = Inr db3"
    and "insert_by tk_key r (w_tasks db) = Inr ts" and "append_event k event msg now (db\<lparr>w_tasks := ts\<rparr>) = Inr (seq, db1)"
    and "record_owner_if p t2 k creator db1 = Inr db2"
    and "tk_status r = ''queued''" and "tk_sequence r = 0" and "tk_key r = k"
  shows "wchange\<^sup>*\<^sup>* db db3"
  by (rule origin_run [OF assms(1) admit_run(1) [OF assms(2-7)] admit_run(2) [OF assms(2-7)]])

lemma create_in_transaction_runs: "runs db (create_task_in_transaction fresh now t2 org ws body actor p origin db)"
  unfolding create_task_in_transaction_def Let_def
proof (intro runsI, goal_cases)
qed (simp_all, (fastforce elim: admit_origin_run owner_origin_run simp: tk_key_def)+)

lemma event_run: "append_event k event msg now db1 = Inr (seq, db2) \<Longrightarrow> wchange\<^sup>*\<^sup>* db db1 \<Longrightarrow> wchange\<^sup>*\<^sup>* db db2"
  by (blast intro: changes_then event_changes)

lemma insert_owner_run:
  assumes "insert_by tk_key r (w_tasks db) = Inr ts" and "record_private_task_owner t2 k actor (db\<lparr>w_tasks := ts\<rparr>) = Inr db1"
    and "tk_status r = ''queued''" and "tk_sequence r = 0" and "tk_key r = k"
  shows "wchange\<^sup>*\<^sup>* db db1"
  using insert_task_change [OF assms(1,3,4)] owner_changes [OF assms(2)] assms(5)
  by (auto intro: converse_rtranclp_into_rtranclp)

lemma continuation_changes:
  "create_task_continuation now t2 org ws sid actor prompt key p db = (r, db') \<Longrightarrow> wchange\<^sup>*\<^sup>* db db'"
  unfolding create_task_continuation_def
proof (erule runs_commit [rotated], unfold Let_def, intro runsI)
qed (simp_all, (elim event_run, fastforce intro: insert_owner_run simp: tk_key_def)+)

lemma edit_run:
  assumes inv: "winv db" and f: "find_task db k = Some r" and "task_edit free_move r (f r)"
  shows "wchange\<^sup>*\<^sup>* db (db\<lparr>w_tasks := edit_by tk_key k f (w_tasks db)\<rparr>)"
proof -
  have "edit_by tk_key k f (w_tasks db) = edit_by tk_key k (\<lambda>_. f r) (w_tasks db)"
    using inv by (intro edit_by_const [OF _ f [unfolded find_task_def]]) (simp add: winv_def tasks_ok_def)
  with edit_task [OF f assms(3)] show ?thesis by (simp add: changes_one)
qed

lemma require_task_Inr [resE]: "require_task db k = Inr r \<longleftrightarrow> find_task db k = Some r"
  by (auto simp: require_task_def split: option.splits)

lemma claim_task_changes:
  assumes "winv db" and "claim_task now org ws tid actor p db = (r, db')"
  shows "wchange\<^sup>*\<^sup>* db db'"
  using assms(2) [unfolded claim_task_def]
proof (rule runs_commit [rotated], unfold Let_def, intro runsI)
qed (simp_all, (elim event_run, rule edit_run [OF assms(1)], simp add: resE,
  simp add: task_edit_def same_task_def tk_key_def free_move_def task_edge_def task_transitions_def)+)

lemma patch_status_move:
  assumes "patch_status old v = Inr new"
  shows "free_move old new"
proof (cases "new = old")
  case False
  with assms have "task_edge old new" and "new \<notin> {''waiting_approval'', ''waiting_input''}"
    and "old \<in> {''waiting_approval'', ''waiting_input''} \<longrightarrow> new \<noteq> ''running''"
    by (auto simp: patch_status_def task_edge_def split: if_splits option.splits json.splits)
  then show ?thesis by (auto simp: free_move_def task_edge_def task_transitions_def)
qed (simp add: free_move_def)

lemma patch_row_edit:
  "patch_row patch now new row = Inr row' \<Longrightarrow> same_task row row' \<and> tk_sequence row' = tk_sequence row \<and> tk_status row' = new"
  by (auto simp: patch_row_def bindE_eq_Inr patch_times_def Let_def same_task_def tk_key_def)

lemma queue_run:
  assumes "winv db" and "queue_task_result_notification nid org ws task now ps db1 = Inr db2" and "wchange\<^sup>*\<^sup>* db db1"
  shows "wchange\<^sup>*\<^sup>* db db2"
  using queue_result_changes [OF change.inv_steps [OF assms(3,1)] assms(2)] assms(3) by simp

lemma patch_tail_run:
  assumes inv: "winv db" and f: "require_task db k = Inr row" and st: "patch_status (tk_status row) v = Inr new"
    and pr: "patch_row patch now new row = Inr row'"
    and tail: "(if new \<noteq> tk_status row then
        bindE (append_event k ev None now (db\<lparr>w_tasks := edit_by tk_key k (\<lambda>_. row') (w_tasks db)\<rparr>)) (\<lambda>(_, db2).
          if new \<in> terminal_task_states then
            bindE (require_task db2 k) (\<lambda>terminal. queue_task_result_notification nid org ws terminal now ps db2)
          else Inr db2)
      else Inr (db\<lparr>w_tasks := edit_by tk_key k (\<lambda>_. row') (w_tasks db)\<rparr>)) = Inr db3"
  shows "wchange\<^sup>*\<^sup>* db db3"
proof -
  let ?db1 = "db\<lparr>w_tasks := edit_by tk_key k (\<lambda>_. row') (w_tasks db)\<rparr>"
  have "task_edit free_move row row'" using patch_row_edit [OF pr] patch_status_move [OF st] by (simp add: task_edit_def)
  then have one: "wchange\<^sup>*\<^sup>* db ?db1" using f by (intro edit_run [OF inv]) (simp_all add: resE)
  show ?thesis
  proof (cases "new = tk_status row")
    case True
    with tail one show ?thesis by simp
  next
    case False
    with tail obtain seq db2 where a: "append_event k ev None now ?db1 = Inr (seq, db2)" and
      q: "(if new \<in> terminal_task_states then
            bindE (require_task db2 k) (\<lambda>terminal. queue_task_result_notification nid org ws terminal now ps db2)
          else Inr db2) = Inr db3" by (auto simp: bindE_eq_Inr)
    from event_run [OF a one] q show ?thesis by (auto simp: bindE_eq_Inr split: if_splits intro: queue_run [OF inv])
  qed
qed

lemma patch_task_changes:
  assumes inv: "winv db" and "patch_task nid now org ws tid patch actor p ps db = (r, db')"
  shows "wchange\<^sup>*\<^sup>* db db'"
proof (rule runs_commit [OF _ assms(2) [unfolded patch_task_def]], unfold Let_def, intro runsI)
qed (simp_all, (rule patch_tail_run [OF inv], assumption+)+)

lemma append_task_event_changes:
  "append_task_event now org ws tid event msg actor p db = (r, db') \<Longrightarrow> wchange\<^sup>*\<^sup>* db db'"
  unfolding append_task_event_def
proof (erule runs_commit [rotated], unfold Let_def, intro runsI)
qed (simp_all, (erule event_run, simp)+)

lemma bind_backend_changes:
  "bind_backend_session now org ws tid backend native actor p db = (r, db') \<Longrightarrow> wchange\<^sup>*\<^sup>* db db'"
  unfolding bind_backend_session_def
proof (erule runs_commit [rotated], unfold Let_def, intro runsI)
qed (simp_all add: resE split: if_splits, (blast intro: changes_one new_backend new_actor_backend)+)

section \<open>Gates\<close>

lemma open_approval_step:
  assumes "insert_with ap_clash a (w_approvals db) = Inr as" and "find_task db (ap_gate a) = Some task"
    and "ap_status a = ''pending''" and "tk_status task = ''queued'' \<or> tk_status task = ''running''"
  shows "wchange\<^sup>*\<^sup>* db (set_status (ap_gate a) ''waiting_approval'' (db\<lparr>w_approvals := as\<rparr>))"
  using assms open_ap [of db a task] by (simp add: resE ap_pend_def changes_one)

lemma open_approval_runs:
  assumes "require_task db k = Inr task"
  shows "runs db (open_approval aid now k kind summary details msg digest task db)"
proof -
  obtain org ws tid where k: "k = (org, ws, tid)" by (cases k)
  from assms have f: "find_task db (org, ws, tid) = Some task" by (simp add: resE k)
  show ?thesis unfolding open_approval_def Let_def k prod.case
  proof (intro runsI)
  qed (simp_all, (elim event_run, drule open_approval_step, simp_all add: ap_gate_def f))
qed

lemma create_approval_changes:
  "create_approval aid now org ws tid body actor p db = (r, db') \<Longrightarrow> wchange\<^sup>*\<^sup>* db db'"
  unfolding create_approval_def
proof (erule runs_commit [rotated], unfold Let_def, intro runsI open_approval_runs)
qed simp_all

lemma decide_approval_le:
  assumes "ap_pend a" and "decision \<in> {''approved'', ''rejected''}"
  shows "approval_le a (decide_approval now decision msg actor digest a) \<and> decide_approval now decision msg actor digest a \<noteq> a"
proof
  have "decide_approval now decision msg actor digest a = a\<lparr>ap_status := decision, ap_resolved_at := Some now,
      ap_resolved_by := Some actor, ap_message := msg, ap_resolution_digest := Some digest\<rparr>"
    using assms(1) by (simp add: decide_approval_def ap_pend_def)
  with assms show "approval_le a (decide_approval now decision msg actor digest a)" unfolding approval_le_def by blast
  have "ap_status (decide_approval now decision msg actor digest a) \<noteq> ap_status a"
    using assms by (auto simp: decide_approval_def ap_pend_def)
  then show "decide_approval now decision msg actor digest a \<noteq> a" by auto
qed

lemma decide_task_edit: "new \<in> {''running'', ''aborted''} \<Longrightarrow> task_edit (\<lambda>_ s. s \<in> {''running'', ''aborted''}) r (decide_task now new r)"
  by (simp add: decide_task_def Let_def task_edit_def same_task_def tk_key_def)

lemma require_approval_Inr [resE]:
  "require_approval db org ws aid = Inr a \<longleftrightarrow> work_identifier aid = Inr aid \<and> find_by ap_key (org, ws, aid) (w_approvals db) = Some a"
  by (auto simp: require_approval_def resE split: option.splits)

lemma require_input_Inr [resE]:
  "require_input db org ws iid = Inr a \<longleftrightarrow> work_identifier iid = Inr iid \<and> find_by in_key (org, ws, iid) (w_inputs db) = Some a"
  by (auto simp: require_input_def resE split: option.splits)

lemma close_approval_run:
  assumes inv: "winv db" and fa: "find_by ap_key (org, ws, aid) (w_approvals db) = Some a" and p: "ap_status a = ''pending''"
    and f: "find_task db (org, ws, ap_task a) = Some r" and st: "tk_status r = ''waiting_approval''"
    and d: "decision \<in> {''approved'', ''rejected''}" and new: "new \<in> {''running'', ''aborted''}"
  shows "wchange\<^sup>*\<^sup>* db (db\<lparr>w_approvals := edit_by ap_key (org, ws, aid) (decide_approval now decision msg actor digest) (w_approvals db),
      w_tasks := edit_by tk_key (org, ws, ap_task a) (decide_task now new) (w_tasks db)\<rparr>)"
proof -
  have g: "ap_gate a = (org, ws, ap_task a)" using find_by_key [OF fa] by (simp add: ap_gate_def ap_key_def)
  have pend: "ap_pend a" using p by (simp add: ap_pend_def)
  have "edit_by ap_key (org, ws, aid) (decide_approval now decision msg actor digest) (w_approvals db) =
      edit_by ap_key (org, ws, aid) (\<lambda>_. decide_approval now decision msg actor digest a) (w_approvals db)"
    using inv by (intro edit_by_const [OF _ fa]) (simp add: winv_def approvals_ok_def gate_ok_def)
  moreover have "edit_by tk_key (org, ws, ap_task a) (decide_task now new) (w_tasks db) =
      edit_by tk_key (org, ws, ap_task a) (\<lambda>_. decide_task now new r) (w_tasks db)"
    using inv by (intro edit_by_const [OF _ f [unfolded find_task_def]]) (simp add: winv_def tasks_ok_def)
  ultimately show ?thesis
    using close_ap [OF fa pend, of "decide_approval now decision msg actor digest a" r "decide_task now new r"]
      decide_approval_le [OF pend d] decide_task_edit [OF new] f st g by (simp add: changes_one)
qed

lemma resolve_approval_changes:
  assumes inv: "winv db" and "resolve_approval nid now org ws aid decision msg actor p ps db = (r, db')"
  shows "wchange\<^sup>*\<^sup>* db db'"
proof (rule runs_commit [OF _ assms(2) [unfolded resolve_approval_def]], unfold Let_def, intro runsI)
qed (simp_all add: resE terminal_task_states_def split: if_splits,
  ((erule queue_run [OF inv])?, elim event_run, (rule close_approval_run [OF inv]; simp))+)

lemma move_status_eq:
  assumes "winv db" and "find_task db k = Some r" and "tk_status r = from"
  shows "move_status k from to (db\<lparr>w_inputs := is\<rparr>) = set_status k to (db\<lparr>w_inputs := is\<rparr>)"
proof -
  have "\<And>q. q \<in> set (w_tasks db) \<Longrightarrow> tk_key q = k \<Longrightarrow> q = r"
    using assms by (auto simp: find_task_def winv_def tasks_ok_def dest!: find_by_SomeD dest: keyed_eq)
  then have "edit_by tk_key k (\<lambda>r. if tk_status r = from then r\<lparr>tk_status := to\<rparr> else r) (w_tasks db) =
      edit_by tk_key k (\<lambda>r. r\<lparr>tk_status := to\<rparr>) (w_tasks db)"
    unfolding edit_by_def using assms(3) by (intro map_cong refl) auto
  then show ?thesis by (simp add: move_status_def set_status_def)
qed

lemma open_input_step:
  assumes "insert_with in_clash a (w_inputs db) = Inr is" and "winv db" and "find_task db (in_gate a) = Some task"
    and "in_status a = ''pending''" and "tk_status task = ''running''"
  shows "wchange\<^sup>*\<^sup>* db (move_status (in_gate a) ''running'' ''waiting_input'' (db\<lparr>w_inputs := is\<rparr>))"
  using assms open_in [of db a task] by (simp add: resE in_pend_def changes_one move_status_eq [OF assms(2,3,5)])

lemma open_input_runs:
  assumes inv: "winv db" and "require_task db k = Inr task"
  shows "runs db (open_input iid now k summary details msg digest task db)"
proof -
  obtain org ws tid where k: "k = (org, ws, tid)" by (cases k)
  from assms have f: "find_task db (org, ws, tid) = Some task" by (simp add: resE k)
  show ?thesis unfolding open_input_def Let_def k prod.case
  proof (intro runsI)
  qed (simp_all, (elim event_run, drule open_input_step [OF _ inv], simp_all add: in_gate_def f))
qed

lemma create_input_changes:
  assumes inv: "winv db" and "create_input_request iid now org ws tid body actor p db = (r, db')"
  shows "wchange\<^sup>*\<^sup>* db db'"
proof (rule runs_commit [OF _ assms(2) [unfolded create_input_request_def]], unfold Let_def, intro runsI open_input_runs [OF inv])
qed simp_all

lemma answer_input_le:
  assumes "in_pend a"
  shows "input_le a (answer_input now actor body msg digest a) \<and> answer_input now actor body msg digest a \<noteq> a"
proof
  have "answer_input now actor body msg digest a = a\<lparr>in_status := ''answered'', in_answered_at := Some now,
      in_answered_by := Some actor, in_answer := Some body, in_answer_message := Some msg, in_answer_digest := Some digest\<rparr>"
    using assms by (simp add: answer_input_def in_pend_def)
  with assms show "input_le a (answer_input now actor body msg digest a)" unfolding input_le_def by blast
  have "in_status (answer_input now actor body msg digest a) \<noteq> in_status a"
    using assms by (simp add: answer_input_def in_pend_def)
  then show "answer_input now actor body msg digest a \<noteq> a" by auto
qed

lemma close_input_run:
  assumes inv: "winv db" and fa: "find_by in_key (org, ws, iid) (w_inputs db) = Some a" and p: "in_status a \<noteq> ''answered''"
    and f: "find_task db (org, ws, in_task a) = Some r" and st: "tk_status r = ''waiting_input''"
  shows "wchange\<^sup>*\<^sup>* db (move_status (org, ws, in_task a) ''waiting_input'' ''running''
    (db\<lparr>w_inputs := edit_by in_key (org, ws, iid) (answer_input now actor body msg digest) (w_inputs db)\<rparr>))"
proof -
  have g: "in_gate a = (org, ws, in_task a)" using find_by_key [OF fa] by (simp add: in_gate_def in_key_def)
  have pend: "in_pend a" using p inv find_by_SomeD [OF fa] by (auto simp: in_pend_def winv_def inputs_ok_def)
  have e: "edit_by in_key (org, ws, iid) (answer_input now actor body msg digest) (w_inputs db) =
      edit_by in_key (org, ws, iid) (\<lambda>_. answer_input now actor body msg digest a) (w_inputs db)"
    using inv by (intro edit_by_const [OF _ fa]) (simp add: winv_def inputs_ok_def gate_ok_def)
  have "wchange db (set_status (in_gate a) ''running''
      (db\<lparr>w_inputs := edit_by in_key (org, ws, iid) (\<lambda>_. answer_input now actor body msg digest a) (w_inputs db)\<rparr>))"
    by (rule close_in [OF fa pend _ _ _ st]) (use answer_input_le [OF pend] f g in simp_all)
  then show ?thesis unfolding move_status_eq [OF inv f st] e g by (rule changes_one)
qed

lemma resolve_input_changes:
  assumes inv: "winv db" and "resolve_input_request now org ws iid answer msg actor p db = (r, db')"
  shows "wchange\<^sup>*\<^sup>* db db'"
proof (rule runs_commit [OF _ assms(2) [unfolded resolve_input_request_def]], unfold Let_def, intro runsI)
qed (simp_all add: resE split: if_splits, (elim event_run, rule close_input_run [OF inv]; simp)+)

section \<open>Operation receipts\<close>

lemma new_op_step:
  assumes "insert_with op_clash r (w_operations db) = Inr ops" and "op_status r = ''started''"
    and "starts_with ''tool.provider.v1:'' (op_type r) \<longrightarrow> is_provider_target (op_target r) \<longrightarrow>
      (\<forall>q \<in> set (w_operations db). op_org q = op_org r \<longrightarrow> op_ws q = op_ws r \<longrightarrow> unresolved q \<longrightarrow> op_target q \<noteq> op_target r)"
    and "op_scope_lock r \<noteq> None \<longrightarrow>
      (\<forall>q \<in> set (w_operations db). op_org q = op_org r \<longrightarrow> op_ws q = op_ws r \<longrightarrow> unresolved q \<longrightarrow> op_scope_lock q \<noteq> op_scope_lock r)"
  shows "wchange\<^sup>*\<^sup>* db (db\<lparr>w_operations := ops\<rparr>)"
proof -
  have "provider_intent r \<longrightarrow> op_target_key r \<notin> op_target_key ` set (filter unresolved (w_operations db))"
    using assms(3) by (auto simp: provider_intent_def op_target_key_def)
  moreover have "lock_intent r \<longrightarrow> op_lock_key r \<notin> op_lock_key ` set (filter unresolved (w_operations db))"
    using assms(4) by (auto simp: lock_intent_def op_lock_key_def)
  ultimately show ?thesis using new_op [of db r] assms(1,2) by (simp add: resE changes_one)
qed

lemma record_operation_runs: "runs db (record_operation oid now org ws key otype task target lock producer request digest db)"
  unfolding record_operation_def Let_def
proof (intro runsI)
qed (simp_all, erule new_op_step, simp_all add: list_ex_iff, auto)

lemma create_operation_changes:
  assumes "create_operation oid now org ws body actor p trusted db = (r, db')"
  shows "wchange\<^sup>*\<^sup>* db db'"
proof (rule runs_commit [OF _ assms [unfolded create_operation_def]], intro runsI record_operation_runs)
qed simp_all

lemma update_operation_changes:
  assumes "update_operation now org ws oid status evidence actor p trusted db = (r, db')"
  shows "wchange\<^sup>*\<^sup>* db db'"
proof (rule runs_commit [OF _ assms [unfolded update_operation_def]], unfold Let_def, intro runsI)
qed (simp_all, (fastforce simp: op_edge_def intro: changes_one edit_op)+)

section \<open>Calls\<close>

text \<open>
  One call of the store, committed or rolled back. \<open>wt_admit\<close> is admission inside the connector intake's
  transaction; \<open>wt_outside\<close> is whatever the connector intake and the installation routes write to their own tables.
\<close>

inductive wstep :: "wdb \<Rightarrow> wdb \<Rightarrow> bool" where
  wt_create: "create_task fresh now t2 org ws body actor p db = (r, db') \<Longrightarrow> wstep db db'"
| wt_admit: "commit db (create_task_in_transaction fresh now t2 org ws body actor p origin db) = (r, db') \<Longrightarrow> wstep db db'"
| wt_continue: "create_task_continuation now t2 org ws sid actor' prompt key p db = (r, db') \<Longrightarrow> wstep db db'"
| wt_claim: "claim_task now org ws tid actor p db = (r', db') \<Longrightarrow> wstep db db'"
| wt_patch: "patch_task nid now org ws tid patch actor p ps db = (r'', db') \<Longrightarrow> wstep db db'"
| wt_event: "append_task_event now org ws tid event msg actor p db = (re, db') \<Longrightarrow> wstep db db'"
| wt_bind: "bind_backend_session now org ws tid backend native actor p db = (r'', db') \<Longrightarrow> wstep db db'"
| wt_ask_approval: "create_approval aid now org ws tid body actor' p db = (rg, db') \<Longrightarrow> wstep db db'"
| wt_decide: "resolve_approval nid now org ws aid decision msg actor' p ps db = (rg, db') \<Longrightarrow> wstep db db'"
| wt_ask_input: "create_input_request iid now org ws tid body actor p db = (rg, db') \<Longrightarrow> wstep db db'"
| wt_answer: "resolve_input_request now org ws iid answer msg' actor' p db = (rg, db') \<Longrightarrow> wstep db db'"
| wt_intend: "create_operation oid now org ws body actor p trusted db = (r, db') \<Longrightarrow> wstep db db'"
| wt_record: "update_operation now org ws oid status evidence actor p trusted db = (r, db') \<Longrightarrow> wstep db db'"
| wt_notify: "create_notification nid t0 now org ws body actor p db = (r, db') \<Longrightarrow> wstep db db'"
| wt_lease: "claim_notifications token_of now org ws worker limit secs ntype conn recip actor p db = (rl, db') \<Longrightarrow> wstep db db'"
| wt_lease_private: "claim_private_notifications token_of now org ws worker limit secs scope ntype' db = (rp, db') \<Longrightarrow> wstep db db'"
| wt_start: "start_notification now org ws nid token ps ap po actor p db = (r'', db') \<Longrightarrow> wstep db db'"
| wt_finish: "finish_notification now org ws nid token outcome result retry ps ap po actor p db = (r'', db') \<Longrightarrow> wstep db db'"
| wt_outside: "wstep db (db\<lparr>w_connector_events := ces, w_actor_threads := ats, w_installations := pis\<rparr>)"

lemma wstep_changes: "wstep db db' \<Longrightarrow> winv db \<Longrightarrow> wchange\<^sup>*\<^sup>* db db'"
proof (induction rule: wstep.induct)
  case (wt_admit db fresh now t2 org ws body actor p origin r db')
  show ?case by (rule runs_commit [OF create_in_transaction_runs wt_admit(1)])
next
  case (wt_outside db ces ats pis)
  show ?case by (rule changes_one [OF outside])
qed (blast intro: create_task_changes continuation_changes claim_task_changes patch_task_changes
  append_task_event_changes bind_backend_changes create_approval_changes resolve_approval_changes
  create_input_changes resolve_input_changes create_operation_changes update_operation_changes
  create_notification_changes claim_changes claim_private_changes start_changes finish_changes)+

interpretation work: history wstep winv wgrows
proof
  fix s s' assume "wstep s s'" and "winv s"
  then have c: "wchange\<^sup>*\<^sup>* s s'" by (rule wstep_changes)
  show "winv s'" by (rule change.inv_steps [OF c \<open>winv s\<close>])
  show "wgrows s s'" by (rule change.grows_steps [OF c \<open>winv s\<close>])
qed (fact wgrows_refl wgrows_trans)+

end
