(* ===== verification/Work_Demo.thy ===== *)
theory Work_Demo
  imports Work_Steps
begin

text \<open>
  A concrete run of the Work store: a task is created, claimed, parked behind an approval and rejected; beside
  it an operation receipt and a notification that is leased, started and delivered. The witnesses of the
  properties apply them to this run.
\<close>

section \<open>Values every operation meets\<close>

definition demo_body :: json_object where
  "demo_body = [(''id'', JStr ''t''), (''sessionId'', JStr ''s''), (''prompt'', JStr ''p'')]"

lemma demo_idents:
  "work_identifier ''org'' = Inr ''org''" "work_identifier ''w'' = Inr ''w''" "work_identifier ''t'' = Inr ''t''"
  "work_identifier ''s'' = Inr ''s''" "work_identifier ''alice'' = Inr ''alice''" "work_identifier ''bob'' = Inr ''bob''"
  "work_identifier ''a'' = Inr ''a''" "work_identifier ''k'' = Inr ''k''" "work_identifier ''n'' = Inr ''n''"
  "work_identifier ''o'' = Inr ''o''"
  by (simp_all add: work_identifier_def py_strip_def py_space_def is_ctrl_def)

lemma demo_scope: "work_scope (Some ''org'') ''w'' = Inr (''org'', ''w'')"
  by (simp add: work_scope_def demo_idents)

lemma demo_lower: "py_lower ''alice'' = ''alice''" "py_lower ''bob'' = ''bob''"
  by (simp_all add: py_lower_def py_lower_char_def)

lemma demo_actor: "actor_of (Some ''alice'') = Inr (Some ''alice'')" "actor_of None = Inr None"
  by (simp_all add: actor_of_def demo_idents demo_lower)

lemma empty_object: "work_json_text (JDict []) = Inr ''{}''" "stored_object ''{}'' = Inr []" "work_json_object (JDict []) = Inr []"
proof -
  show t: "work_json_text (JDict []) = Inr ''{}''" by (simp add: work_json_text_def json_text_def)
  show "stored_object ''{}'' = Inr []" using stored_object_text [OF t] by simp
  from t show "work_json_object (JDict []) = Inr []" by (simp add: work_json_object_def utf8_def utf8_char_def MAX_JSON_BYTES_def)
qed

lemma digest_ok: "jok v \<Longrightarrow> work_digest v = Inr (sha256_hex (render (canon v)))"
  by (simp add: work_digest_def work_json_text_def json_text_def)

lemma text_ok: "jok v \<Longrightarrow> work_json_text v = Inr (render (canon v))"
  by (simp add: work_json_text_def json_text_def)

section \<open>A task\<close>

definition demo_digest_of :: string where
  "demo_digest_of = sha256_hex (render (canon (JDict (creation_fields ''s'' ''p'' None None [] @
     [(''executionClass'', JStr ''foreground''), (''createdByActorId'', JStr ''alice'')]))))"

definition demo_event_row :: "int \<Rightarrow> json_object \<Rightarrow> int \<Rightarrow> task_event_row" where
  "demo_event_row i e now = \<lparr>te_org = ''org'', te_ws = ''w'', te_task = ''t'', te_seq = i,
     te_json = render (canon (JDict e)), te_digest = sha256_hex (render (canon (JDict e))),
     te_created_at = now, te_message = None\<rparr>"

definition demo_task :: task_row where
  "demo_task = (new_task ''org'' ''w'' ''t'' ''s'' ''p'' 1000)\<lparr>tk_digest := demo_digest_of, tk_creator := ''alice'',
     tk_sequence := 1\<rparr>"

definition demo_w1 :: wdb where
  "demo_w1 = empty_wdb\<lparr>w_tasks := [demo_task], w_events := [demo_event_row 1 created_event 1000]\<rparr>"

lemma small_event:
  "e \<in> {created_event, status_event ''queued'' ''running'', status_event ''running'' ''waiting_approval'',
     approval_event ''created'' ''a'' @ [(''kind'', JStr ''k'')], approval_event ''rejected'' ''a'',
     status_event ''waiting_approval'' ''aborted''} \<Longrightarrow> work_json_object (JDict e) = Inr e"
  by (elim insertE emptyE) (simp_all add: work_json_object_def created_event_def status_event_def approval_event_def
    work_json_text_def json_text_def utf8_def utf8_char_def MAX_JSON_BYTES_def quote_def esc_char_def)

lemma event_texts:
  assumes "work_json_object (JDict e) = Inr e"
  shows "work_json_text (JDict e) = Inr (render (canon (JDict e)))"
    and "work_digest (JDict e) = Inr (sha256_hex (render (canon (JDict e))))"
proof -
  from assms have "jok (JDict e)" by (auto dest: work_json_object_Inr)
  then show "work_json_text (JDict e) = Inr (render (canon (JDict e)))"
    "work_digest (JDict e) = Inr (sha256_hex (render (canon (JDict e))))" by (simp_all add: text_ok digest_ok)
qed

lemma demo_append_event:
  assumes "work_json_object (JDict e) = Inr e" and "w_tasks db = [task]" and "tk_key task = (''org'', ''w'', ''t'')"
    and "\<forall>e' \<in> set (w_events db). te_seq e' \<le> tk_sequence task \<and> te_message e' = None"
  shows "append_event (''org'', ''w'', ''t'') e None now db = Inr (tk_sequence task + 1,
    db\<lparr>w_events := w_events db @ [demo_event_row (tk_sequence task + 1) e now],
       w_tasks := [task\<lparr>tk_sequence := tk_sequence task + 1\<rparr>]\<rparr>)"
proof -
  have "\<not> list_ex (te_clash (demo_event_row (tk_sequence task + 1) e now)) (w_events db)"
    using assms(4) by (auto simp: list_ex_iff te_clash_def demo_event_row_def)
  then show ?thesis
    using assms by (simp add: append_event_def require_task_def find_task_def find_by_Cons event_texts insert_with_def
        demo_event_row_def edit_by_def)
qed

lemma demo_head: "task_head ''f'' demo_body = Inr (''t'', ''s'', ''p'')"
  by (simp add: task_head_def demo_body_def dget_def jtruthy_def work_identifier_of_def demo_idents bounded_text_def
    py_strip_def py_space_def)

lemma demo_rest: "task_body demo_body = Inr (None, None, [])" "execution_class_of demo_body = Inr ''foreground''"
  by (simp_all add: task_body_def demo_body_def dget_def dget_or_def dhas_def optional_text_def empty_object
    task_notification_descriptor_def execution_class_of_def)

lemma demo_meta_ok: "validate_task_execution_metadata ''foreground'' [] ''alice'' ''w'' = Inr ()"
  by (simp add: validate_task_execution_metadata_def dget_def dhas_def)

lemma demo_create_task:
  "\<exists>v. create_task ''f'' 1000 1000 (Some ''org'') ''w'' demo_body (Some ''alice'') False empty_wdb = (Inr (v, False), demo_w1)"
  by (auto simp: create_task_def demo_scope demo_head demo_rest creator_of_def demo_idents demo_meta_ok digest_ok
      empty_object creation_fields_def demo_digest_of_def find_task_def insert_by_def demo_task_def empty_wdb_def
      record_owner_if_def require_task_def demo_w1_def find_by_Cons tk_key_def task_view_def new_task_def Let_def
      demo_append_event small_event)

definition demo_running :: task_row where
  "demo_running = demo_task\<lparr>tk_status := ''running'', tk_started_at := Some 2000, tk_sequence := 2\<rparr>"

definition demo_w2 :: wdb where
  "demo_w2 = demo_w1\<lparr>w_tasks := [demo_running],
     w_events := w_events demo_w1 @ [demo_event_row 2 (status_event ''queued'' ''running'') 2000]\<rparr>"

lemmas demo_rows = demo_running_def demo_task_def new_task_def empty_wdb_def demo_w1_def demo_w2_def
lemmas demo_reads = find_task_def require_task_def find_by_Cons tk_key_def task_view_def Let_def

lemma demo_chat: "chat_origin ''{}'' = JNull"
  using empty_object(2) by (simp add: chat_origin_def stored_object_Inr dget_def)

lemma demo_access:
  assumes "w_tasks db = [task]" and "tk_key task = (''org'', ''w'', ''t'')" and "tk_metadata task = ''{}''"
    and "w_owners db = []" and "w_origins db = []" and "w_connector_events db = []"
  shows "require_teams_task_actor db (''org'', ''w'', ''t'') actor False = Inr False"
  using assms by (simp add: require_teams_task_actor_def find_task_def find_by_Cons is_chat_task_def demo_chat
    teams_events_of_def)

lemma demo_claim_task:
  "\<exists>v. claim_task 2000 (Some ''org'') ''w'' ''t'' (Some ''alice'') False demo_w1 = (Inr (True, v), demo_w2)"
  by (auto simp: claim_task_def demo_scope demo_idents demo_actor demo_rows demo_reads demo_access edit_by_def
      demo_append_event small_event demo_event_row_def empty_object)

section \<open>A rejected approval\<close>

definition demo_ask :: json_object where
  "demo_ask = [(''kind'', JStr ''k''), (''summary'', JStr ''s'')]"

definition demo_approval :: approval_row where
  "demo_approval = \<lparr>ap_org = ''org'', ap_ws = ''w'', ap_id = ''a'', ap_task = ''t'', ap_kind = ''k'', ap_summary = ''s'',
     ap_details = ''{}'', ap_status = ''pending'', ap_created_at = 3000, ap_resolved_at = None, ap_resolved_by = None,
     ap_message = None, ap_create_message = None,
     ap_create_digest = sha256_hex (render (canon (JDict [(''taskId'', JStr ''t''), (''kind'', JStr ''k''),
       (''summary'', JStr ''s''), (''details'', JDict [])]))), ap_resolution_digest = None\<rparr>"

definition demo_waiting :: task_row where
  "demo_waiting = demo_running\<lparr>tk_status := ''waiting_approval'', tk_sequence := 4\<rparr>"

definition demo_w3 :: wdb where
  "demo_w3 = demo_w2\<lparr>w_tasks := [demo_waiting], w_approvals := [demo_approval],
     w_events := w_events demo_w2 @ [demo_event_row 3 (status_event ''running'' ''waiting_approval'') 3000,
       demo_event_row 4 (approval_event ''created'' ''a'' @ [(''kind'', JStr ''k'')]) 3000]\<rparr>"

lemma demo_ask_args:
  "bounded_text (dget demo_ask ''kind'') 128 False = Inr ''k''" "bounded_text (dget demo_ask ''summary'') 2000 False = Inr ''s''"
  "work_json_object (dget_or demo_ask ''details'' (JDict [])) = Inr []" "message_of demo_ask = Inr None"
  by (simp_all add: demo_ask_def dget_def dget_or_def dhas_def bounded_text_def py_strip_def py_space_def empty_object
    message_of_def)

lemma demo_create_approval:
  "\<exists>v. create_approval ''a'' 3000 (Some ''org'') ''w'' ''t'' demo_ask ''alice'' False demo_w2 = (Inr v, demo_w3)"
  by (auto simp: create_approval_def demo_scope demo_idents demo_ask_args digest_ok demo_lower demo_rows demo_w3_def
      demo_waiting_def demo_reads demo_access open_approval_def pending_approval_def empty_object insert_with_def
      set_status_def edit_by_def demo_append_event small_event demo_event_row_def approval_view_def demo_approval_def)

definition demo_aborted :: task_row where
  "demo_aborted = demo_waiting\<lparr>tk_status := ''aborted'', tk_ended_at := Some 9000, tk_sequence := 6\<rparr>"

definition demo_rejected :: approval_row where
  "demo_rejected = decide_approval 9000 ''rejected'' None ''alice''
     (sha256_hex (render (canon (JDict [(''decision'', JStr ''rejected'')])))) demo_approval"

definition demo_w4 :: wdb where
  "demo_w4 = demo_w3\<lparr>w_tasks := [demo_aborted], w_approvals := [demo_rejected],
     w_events := w_events demo_w3 @ [demo_event_row 5 (approval_event ''rejected'' ''a'') 9000,
       demo_event_row 6 (status_event ''waiting_approval'' ''aborted'') 9000]\<rparr>"

lemma demo_resolve_approval:
  "\<exists>v. resolve_approval ''n'' 9000 (Some ''org'') ''w'' ''a'' ''rejected'' None ''alice'' False None demo_w3 = (Inr v, demo_w4)"
  by (auto simp: resolve_approval_def demo_scope demo_idents digest_ok demo_lower demo_rows demo_w3_def demo_w4_def
      demo_waiting_def demo_aborted_def demo_reads demo_access require_approval_def ap_key_def demo_approval_def
      decide_approval_def decide_task_def demo_rejected_def terminal_task_states_def coalesce_def
      edit_by_def demo_append_event small_event demo_event_row_def approval_view_def empty_object
      queue_task_result_notification_def task_notification_descriptor_def dget_def dhas_def)

lemma demo_run:
  "wstep\<^sup>*\<^sup>* empty_wdb demo_w1" "wstep demo_w1 demo_w2" "wstep demo_w2 demo_w3" "wstep demo_w3 demo_w4"
  "wstep\<^sup>*\<^sup>* empty_wdb demo_w2" "wstep\<^sup>*\<^sup>* empty_wdb demo_w3" "wstep\<^sup>*\<^sup>* empty_wdb demo_w4"
proof -
  show 1: "wstep\<^sup>*\<^sup>* empty_wdb demo_w1" using demo_create_task by (auto intro: r_into_rtranclp [of wstep] wt_create)
  show 2: "wstep demo_w1 demo_w2" using demo_claim_task by (auto intro: wt_claim)
  show 3: "wstep demo_w2 demo_w3" using demo_create_approval by (auto intro: wt_ask_approval)
  show 4: "wstep demo_w3 demo_w4" using demo_resolve_approval by (auto intro: wt_decide)
  from 1 2 show 5: "wstep\<^sup>*\<^sup>* empty_wdb demo_w2" by simp
  with 3 show 6: "wstep\<^sup>*\<^sup>* empty_wdb demo_w3" by simp
  with 4 show "wstep\<^sup>*\<^sup>* empty_wdb demo_w4" by simp
qed

lemma demo_find:
  "find_task demo_w1 (''org'', ''w'', ''t'') = Some demo_task" "find_task demo_w2 (''org'', ''w'', ''t'') = Some demo_running"
  "find_task demo_w3 (''org'', ''w'', ''t'') = Some demo_waiting" "find_task demo_w4 (''org'', ''w'', ''t'') = Some demo_aborted"
  "find_by ap_key (''org'', ''w'', ''a'') (w_approvals demo_w3) = Some demo_approval"
  "find_by ap_key (''org'', ''w'', ''a'') (w_approvals demo_w4) = Some demo_rejected"
  by (simp_all add: demo_reads demo_rows demo_w3_def demo_w4_def demo_waiting_def demo_aborted_def ap_key_def
    demo_approval_def demo_rejected_def decide_approval_def)

section \<open>A receipt\<close>

definition demo_intent :: json_object where
  "demo_intent = [(''idempotencyKey'', JStr ''k''), (''operationType'', JStr ''tool.provider.v1:x''),
     (''target'', JStr ''connector-target:1'')]"

definition demo_op :: operation_row where
  "demo_op = \<lparr>op_org = ''org'', op_ws = ''w'', op_id = ''o'', op_key = ''k'', op_type = ''tool.provider.v1:x'',
     op_task = None, op_target = Some ''connector-target:1'', op_scope_lock = None, op_producer = None,
     op_request = ''{}'', op_status = ''started'', op_evidence = ''{}'',
     op_digest = sha256_hex (render (canon (JDict [(''operationType'', JStr ''tool.provider.v1:x''), (''taskId'', JNull),
       (''target'', JStr ''connector-target:1''), (''request'', JDict [])]))),
     op_created_at = 1000, op_updated_at = 1000\<rparr>"

definition demo_o1 :: wdb where
  "demo_o1 = empty_wdb\<lparr>w_operations := [demo_op]\<rparr>"

definition demo_o2 :: wdb where
  "demo_o2 = empty_wdb\<lparr>w_operations := [demo_op\<lparr>op_status := ''verified'', op_updated_at := 2000\<rparr>]\<rparr>"

lemma demo_create_operation:
  "\<exists>v. create_operation ''o'' 1000 (Some ''org'') ''w'' demo_intent None False None empty_wdb = (Inr v, demo_o1)"
  by (auto simp: create_operation_def demo_scope demo_intent_def dget_def dget_or_def dhas_def work_identifier_of_def
    demo_idents bounded_text_def optional_text_def py_strip_def py_space_def demo_actor trusted_operation_producer_def
    finalizer_only_def empty_object operation_digest_def digest_ok operation_task_ok_def empty_wdb_def record_operation_def
    insert_with_def operation_view_def demo_o1_def demo_op_def Let_def)

lemma demo_update_operation:
  "\<exists>v. update_operation 2000 (Some ''org'') ''w'' ''o'' ''verified'' (JDict []) None False None demo_o1 = (Inr v, demo_o2)"
  by (auto simp: update_operation_def demo_scope demo_idents demo_actor trusted_operation_producer_def empty_object
    demo_o1_def demo_o2_def find_by_Cons op_ident_def demo_op_def producer_ok_def operation_transitions_def
    operation_view_def edit_by_def Let_def)

lemma demo_op_run: "wstep\<^sup>*\<^sup>* empty_wdb demo_o1" "wstep demo_o1 demo_o2"
  using demo_create_operation demo_update_operation
  by (auto intro: r_into_rtranclp [of wstep] wt_intend wt_record)

section \<open>A delivered notification\<close>

definition demo_notice :: json_object where
  "demo_notice = [(''deduplicationKey'', JStr ''k''), (''type'', JStr ''m''), (''payload'', JDict []), (''availableAt'', JInt 1000)]"

definition demo_note :: note_row where
  "demo_note = \<lparr>nt_org = ''org'', nt_ws = ''w'', nt_id = ''n'', nt_dedup = ''k'', nt_type = ''m'', nt_payload = ''{}'',
     nt_connector = None, nt_recipient = None, nt_status = ''queued'', nt_task = None, nt_available_at = 1000,
     nt_created_at = 1000, nt_updated_at = 1000, nt_worker = None, nt_token_hash = None, nt_lease = None,
     nt_started_at = None, nt_result = ''{}'',
     nt_digest = sha256_hex (render (canon (JDict [(''type'', JStr ''m''), (''payload'', JDict []), (''connectorId'', JNull),
       (''recipient'', JNull), (''taskId'', JNull)]))),
     nt_owner = None, nt_private_task = None, nt_private_tenant = None, nt_private_aad = None, nt_private_bot = None\<rparr>"

definition demo_n :: "note_row \<Rightarrow> wdb" where
  "demo_n n = empty_wdb\<lparr>w_notes := [n]\<rparr>"

definition demo_leased :: note_row where
  "demo_leased = lease_note ''x'' ''tok'' 62000 2000 demo_note"

definition demo_started :: note_row where
  "demo_started = demo_leased\<lparr>nt_status := ''started'', nt_started_at := Some 3000, nt_updated_at := 3000\<rparr>"

definition demo_delivered :: note_row where
  "demo_delivered = demo_started\<lparr>nt_status := ''delivered'', nt_updated_at := 4000, nt_worker := None, nt_lease := None\<rparr>"

lemmas demo_note_rows = demo_note_def demo_n_def demo_leased_def demo_started_def demo_delivered_def lease_note_def
  empty_wdb_def find_by_Cons nt_key_def notification_view_def empty_object Let_def edit_by_def

lemma demo_create_notification:
  "\<exists>v. create_notification ''n'' 1000 1000 (Some ''org'') ''w'' demo_notice None False empty_wdb = (Inr v, demo_n demo_note)"
  by (auto simp: create_notification_def demo_scope demo_notice_def dget_def dget_or_def dhas_def work_identifier_of_def
    demo_idents bounded_text_def optional_text_def py_strip_def py_space_def demo_actor demo_note_rows
    HEALTH_TYPE_def nonnegative_integer_def notification_request_digest_def digest_ok enqueue_notification_def
    private_fields_of_def no_private_def insert_with_def)

lemma demo_claim_notification:
  "\<exists>v. claim_notifications (\<lambda>_. ''tok'') 2000 (Some ''org'') ''w'' (JStr ''x'') 1 60 JNull JNull JNull None False (demo_n demo_note) =
     (Inr v, demo_n demo_leased)"
  by (auto simp: claim_notifications_def demo_scope bounded_text_def optional_text_def py_strip_def py_space_def demo_actor
    demo_note_rows sweep_def lease_expired_def matches_def claim_visible_def order_by2_def order_by_def)

lemma demo_start_notification:
  "\<exists>v. start_notification 3000 (Some ''org'') ''w'' ''n'' ''tok'' None False False None False (demo_n demo_leased) =
     (Inr v, demo_n demo_started)"
  by (auto simp: start_notification_def notification_transition_def demo_scope demo_idents demo_note_rows
    transition_access_def opt_text_def deliver_def lease_live_def)

lemma demo_finish_notification:
  "\<exists>v. finish_notification 4000 (Some ''org'') ''w'' ''n'' ''tok'' ''delivered'' (JDict []) None None False False None False
     (demo_n demo_started) = (Inr v, demo_n demo_delivered)"
  by (auto simp: finish_notification_def notification_transition_def demo_scope demo_idents demo_note_rows
    transition_access_def opt_text_def deliver_def lease_live_def)

lemma demo_note_run:
  "wstep\<^sup>*\<^sup>* empty_wdb (demo_n demo_note)" "wstep (demo_n demo_note) (demo_n demo_leased)"
  "wstep (demo_n demo_leased) (demo_n demo_started)" "wstep (demo_n demo_started) (demo_n demo_delivered)"
  "wstep\<^sup>*\<^sup>* empty_wdb (demo_n demo_leased)" "wstep\<^sup>*\<^sup>* empty_wdb (demo_n demo_started)"
  "wstep\<^sup>*\<^sup>* empty_wdb (demo_n demo_delivered)"
proof -
  show 1: "wstep\<^sup>*\<^sup>* empty_wdb (demo_n demo_note)"
    using demo_create_notification by (auto intro: r_into_rtranclp [of wstep] wt_notify)
  show 2: "wstep (demo_n demo_note) (demo_n demo_leased)" using demo_claim_notification by (auto intro: wt_lease)
  show 3: "wstep (demo_n demo_leased) (demo_n demo_started)" using demo_start_notification by (auto intro: wt_start)
  show 4: "wstep (demo_n demo_started) (demo_n demo_delivered)" using demo_finish_notification by (auto intro: wt_finish)
  from 1 2 show 5: "wstep\<^sup>*\<^sup>* empty_wdb (demo_n demo_leased)" by simp
  with 3 show 6: "wstep\<^sup>*\<^sup>* empty_wdb (demo_n demo_started)" by simp
  with 4 show "wstep\<^sup>*\<^sup>* empty_wdb (demo_n demo_delivered)" by simp
qed

section \<open>A privately owned task\<close>

definition demo_owner :: owner_row where
  "demo_owner = \<lparr>po_org = ''org'', po_ws = ''w'', po_task = ''t'', po_actor = ''alice'', po_created_at = 1000\<rparr>"

definition demo_own :: "wdb \<Rightarrow> wdb" where
  "demo_own db = db\<lparr>w_owners := [demo_owner]\<rparr>"

lemma demo_own_create:
  "\<exists>v. create_task ''f'' 1000 1000 (Some ''org'') ''w'' demo_body (Some ''alice'') True empty_wdb = (Inr v, demo_own demo_w1)"
  by (auto simp: create_task_def demo_scope demo_head demo_rest creator_of_def demo_idents demo_meta_ok digest_ok
      empty_object creation_fields_def demo_digest_of_def find_task_def insert_by_def demo_task_def empty_wdb_def
      record_owner_if_def require_task_def demo_w1_def find_by_Cons tk_key_def task_view_def new_task_def Let_def
      demo_append_event small_event record_private_task_owner_def demo_lower demo_own_def demo_owner_def)

lemma demo_own_access:
  assumes "w_tasks db = [task]" and "tk_key task = (''org'', ''w'', ''t'')" and "tk_metadata task = ''{}''"
    and "tk_creator task = ''alice''" and "w_owners db = [demo_owner]" and "w_origins db = []" and "w_connector_events db = []"
  shows "require_teams_task_actor db (''org'', ''w'', ''t'') (Some ''alice'') True = Inr True"
  using assms by (simp add: require_teams_task_actor_def find_task_def find_by_Cons is_chat_task_def demo_chat
    teams_events_of_def demo_owner_def same_actor_def po_key_def)

lemma demo_own_claim:
  "\<exists>v. claim_task 2000 (Some ''org'') ''w'' ''t'' (Some ''alice'') True (demo_own demo_w1) = (Inr (True, v), demo_own demo_w2)"
  by (auto simp: claim_task_def demo_scope demo_idents demo_actor demo_rows demo_reads demo_own_access edit_by_def
      demo_append_event small_event demo_event_row_def empty_object demo_own_def)

lemma demo_own_run: "wstep\<^sup>*\<^sup>* empty_wdb (demo_own demo_w1)" "wstep\<^sup>*\<^sup>* empty_wdb (demo_own demo_w2)"
proof -
  show 1: "wstep\<^sup>*\<^sup>* empty_wdb (demo_own demo_w1)"
    using demo_own_create by (auto intro: r_into_rtranclp [of wstep] wt_create)
  have "wstep (demo_own demo_w1) (demo_own demo_w2)" using demo_own_claim by (auto intro: wt_claim)
  with 1 show "wstep\<^sup>*\<^sup>* empty_wdb (demo_own demo_w2)" by simp
qed

section \<open>An answered input request\<close>

definition demo_question :: json_object where
  "demo_question = [(''summary'', JStr ''s'')]"

definition demo_answer :: json_object where
  "demo_answer = [(''text'', JStr ''y'')]"

definition demo_input :: input_row where
  "demo_input = \<lparr>in_org = ''org'', in_ws = ''w'', in_id = ''a'', in_task = ''t'', in_summary = ''s'', in_details = ''{}'',
     in_status = ''pending'', in_created_at = 3000, in_answered_at = None, in_answered_by = None, in_answer = None,
     in_create_message = None, in_answer_message = None,
     in_create_digest = sha256_hex (render (canon (JDict [(''taskId'', JStr ''t''), (''summary'', JStr ''s''),
       (''details'', JDict [])]))), in_answer_digest = None\<rparr>"

definition demo_answered :: input_row where
  "demo_answered = answer_input 4000 ''alice'' (render (canon (JDict demo_answer))) ''k''
     (sha256_hex (render (canon (JDict [(''answer'', JDict demo_answer)])))) demo_input"

definition demo_i1 :: wdb where
  "demo_i1 = demo_w2\<lparr>w_tasks := [demo_running\<lparr>tk_status := ''waiting_input'', tk_sequence := 4\<rparr>], w_inputs := [demo_input],
     w_events := w_events demo_w2 @ [demo_event_row 3 (input_event ''requested'' ''a'' @ [(''summary'', JStr ''s'')]) 3000,
       demo_event_row 4 (status_event ''running'' ''waiting_input'') 3000]\<rparr>"

definition demo_i2 :: wdb where
  "demo_i2 = demo_i1\<lparr>w_tasks := [demo_running\<lparr>tk_sequence := 6\<rparr>], w_inputs := [demo_answered],
     w_events := w_events demo_i1 @ [demo_event_row 5 (input_event ''answered'' ''a'') 4000,
       demo_event_row 6 (status_event ''waiting_input'' ''running'') 4000]\<rparr>"

lemma small_input:
  "e \<in> {input_event ''requested'' ''a'' @ [(''summary'', JStr ''s'')], input_event ''answered'' ''a'',
     status_event ''running'' ''waiting_input'', status_event ''waiting_input'' ''running'', demo_answer} \<Longrightarrow>
   work_json_object (JDict e) = Inr e"
  by (elim insertE emptyE) (simp_all add: work_json_object_def status_event_def input_event_def demo_answer_def
    work_json_text_def json_text_def utf8_def utf8_char_def MAX_JSON_BYTES_def quote_def esc_char_def)

lemma demo_human: "human_input_object (JDict demo_answer) True = Inr demo_answer" "human_input_object (JDict []) False = Inr []"
proof -
  have "\<not> is_sensitive ''text''"
    by (simp add: is_sensitive_def py_lower_def py_lower_char_def py_alnum_def blocked_keys_def sensitive_suffixes_def
      ends_with_def starts_with_def)
  then show "human_input_object (JDict demo_answer) True = Inr demo_answer"
    by (simp add: human_input_object_def small_input) (simp add: demo_answer_def check_answer_text_def)
  show "human_input_object (JDict []) False = Inr []" by (simp add: human_input_object_def empty_object)
qed

lemma demo_ask_input:
  "\<exists>v. create_input_request ''a'' 3000 (Some ''org'') ''w'' ''t'' demo_question (Some ''alice'') False demo_w2 = (Inr v, demo_i1)"
  by (auto simp: create_input_request_def demo_scope demo_idents demo_question_def bounded_text_def py_strip_def py_space_def
      dget_def dget_or_def dhas_def message_of_def demo_human digest_ok demo_lower demo_actor demo_rows demo_i1_def
      demo_reads demo_access open_input_def pending_input_def empty_object insert_with_def
      move_status_def edit_by_def demo_append_event small_input demo_event_row_def input_view_def demo_input_def)

lemma demo_answer_input:
  "\<exists>v. resolve_input_request 4000 (Some ''org'') ''w'' ''a'' (JDict demo_answer) ''k'' ''alice'' False demo_i1 = (Inr v, demo_i2)"
proof -
  have wf: "jok (JDict demo_answer)" "jwf (JDict demo_answer)" by (simp_all add: demo_answer_def)
  obtain d where d: "stored_object (render (canon (JDict demo_answer))) = Inr d"
    using stored_object_text [OF text_ok [OF wf(1)] wf(2)] by blast
  have digest: "work_digest (JDict [(''answer'', JDict demo_answer)]) =
      Inr (sha256_hex (render (canon (JDict [(''answer'', JDict demo_answer)]))))"
    by (rule digest_ok) (use wf(1) in simp)
  show ?thesis using d
    by (auto simp: resolve_input_request_def demo_scope demo_idents demo_human digest text_ok [OF wf(1)] demo_lower
      demo_rows demo_i1_def demo_i2_def demo_reads demo_access require_input_def in_key_def demo_input_def
      answer_input_def demo_answered_def move_status_def edit_by_def demo_append_event small_input demo_event_row_def
      input_view_def empty_object)
qed

lemma demo_input_run: "wstep\<^sup>*\<^sup>* empty_wdb demo_i1" "wstep\<^sup>*\<^sup>* empty_wdb demo_i2"
proof -
  have "wstep demo_w2 demo_i1" using demo_ask_input by (auto intro: wt_ask_input)
  with demo_run(5) show 1: "wstep\<^sup>*\<^sup>* empty_wdb demo_i1" by simp
  have "wstep demo_i1 demo_i2" using demo_answer_input by (auto intro: wt_answer)
  with 1 show "wstep\<^sup>*\<^sup>* empty_wdb demo_i2" by simp
qed

end
