(* ===== verification/Work_Props.thy ===== *)
theory Work_Props
  imports Work_Demo
begin

text \<open>
  The properties of the Work store over every run of its operations: the invariant, the history of a task and
  its log, the single winner of a claim, the human gates, receipts, and the delivery of notifications.
\<close>

section \<open>What a run keeps\<close>

lemma run_inv: "wstep\<^sup>*\<^sup>* empty_wdb db \<Longrightarrow> winv db"
  by (rule work.inv_steps [OF _ winv_empty])

lemma run_grows: "wstep\<^sup>*\<^sup>* empty_wdb db \<Longrightarrow> wstep\<^sup>*\<^sup>* db db' \<Longrightarrow> wgrows db db'"
  by (rule work.grows_steps [OF _ run_inv])

lemma grows_task:
  assumes "wgrows db db'" and "find_task db k = Some r"
  shows "\<exists>r'. find_task db' k = Some r' \<and> task_le r r'"
proof -
  from assms(1) have "table_ext task_le (w_tasks db) (w_tasks db')" by (simp add: wgrows_def)
  from table_ext_find [OF this _ assms(2) [unfolded find_task_def]] show ?thesis
    by (auto simp: find_task_def task_le_def same_task_def)
qed

lemma grows_log: "wgrows db db' \<Longrightarrow> \<exists>es. log_of (w_events db') k = log_of (w_events db) k @ es"
  by (auto simp: wgrows_def table_ext_def list_all2_eq [symmetric] log_of_def)

lemma terminal_stays:
  assumes "task_edge\<^sup>*\<^sup>* s s'" and "s \<in> terminal_task_states"
  shows "s' = s"
  using assms by (induction rule: converse_rtranclp_induct)
    (auto simp: task_edge_def task_transitions_def terminal_task_states_def)

lemma started_stays:
  assumes "task_edge\<^sup>*\<^sup>* s s'" and "s \<noteq> ''queued''"
  shows "s' \<noteq> ''queued''"
  using assms by (induction rule: rtranclp_induct)
    (auto simp: task_edge_def task_transitions_def split: if_splits)

section \<open>Tasks\<close>

text \<open>
  C17. Every database the store's operations can reach from an empty one, in any order and with any arguments,
  satisfies the invariant: unique keys in every table, a contiguous event log per task, gates that match their
  tasks, one unresolved receipt per provider target and branch lock, leases that carry a token hash and an
  expiry, and owners, origins and sessions that belong to tasks.
\<close>

theorem work_wellformed:
  assumes "wstep\<^sup>*\<^sup>* empty_wdb db"
  shows "winv db"
  using assms by (rule run_inv)

theorem work_wellformed_witness: "winv demo_w4 \<and> length (w_events demo_w4) = 6"
  using work_wellformed [OF demo_run(7)] by (simp add: demo_w4_def demo_w3_def demo_w2_def demo_w1_def)

text \<open>
  C18. Along any run a task keeps its identity (key, session, creation digest, creator, continuation and class);
  its status moves only along the edges of the transition table, so a terminal task never moves again; and its
  log only grows at the end.
\<close>

theorem task_history:
  assumes "wstep\<^sup>*\<^sup>* empty_wdb db" and "wstep\<^sup>*\<^sup>* db db'" and "find_task db k = Some r"
  shows "\<exists>r' es. find_task db' k = Some r' \<and> same_task r r' \<and> task_edge\<^sup>*\<^sup>* (tk_status r) (tk_status r') \<and>
    (tk_status r \<in> terminal_task_states \<longrightarrow> tk_status r' = tk_status r) \<and>
    log_of (w_events db') k = log_of (w_events db) k @ es"
proof -
  have g: "wgrows db db'" by (rule run_grows [OF assms(1,2)])
  from grows_task [OF g assms(3)] obtain r' where "find_task db' k = Some r'" and "task_le r r'" by blast
  moreover obtain es where "log_of (w_events db') k = log_of (w_events db) k @ es" using grows_log [OF g] by blast
  ultimately show ?thesis using terminal_stays by (auto simp: task_le_def)
qed

theorem task_history_witness:
  "tk_status demo_aborted = ''aborted'' \<and> same_task demo_task demo_aborted \<and> task_edge\<^sup>*\<^sup>* ''queued'' ''aborted''"
proof -
  have "wstep\<^sup>*\<^sup>* demo_w1 demo_w4"
    using demo_run(2-4) by (meson converse_rtranclp_into_rtranclp rtranclp.rtrancl_refl)
  from task_history [OF demo_run(1) this demo_find(1)] show ?thesis
    by (auto simp: demo_find demo_aborted_def demo_rows)
qed

subsection \<open>Reading the log\<close>

lemma sorted_log:
  assumes "winv db" and "find_task db k = Some r"
  shows "map te_seq (log_of (w_events db) k) = [1..tk_sequence r]" and "0 \<le> tk_sequence r"
proof -
  from assms(2) have "r \<in> set (w_tasks db)" "tk_key r = k" by (auto simp: find_task_def dest: find_by_SomeD)
  with assms(1) show "map te_seq (log_of (w_events db) k) = [1..tk_sequence r]" "0 \<le> tk_sequence r"
    by (auto simp: winv_def tasks_ok_def)
qed

lemma filter_upto_after: "0 \<le> after \<Longrightarrow> filter (\<lambda>i. after < i) [1..n] = [after + 1..n :: int]"
proof (induction "nat n" arbitrary: n)
  case 0
  then show ?case by simp
next
  case (Suc m)
  then have n: "1 \<le> n" "m = nat (n - 1)" by auto
  then have IH: "filter (\<lambda>i. after < i) [1..n - 1] = [after + 1..n - 1]" using Suc by blast
  have snoc: "[1..n] = [1..n - 1] @ [n]" using n upto_rec2 [of 1 n] by simp
  show ?case using IH upto_rec2 [of "after + 1" n] by (auto simp: snoc)
qed

lemma take_upto_int: "0 \<le> m \<Longrightarrow> take (nat m) [i..j] = [i..min (i + m - 1) (j :: int)]"
proof (induction "nat m" arbitrary: m i)
  case 0
  then show ?case by simp
next
  case (Suc x)
  then have m: "1 \<le> m" "x = nat (m - 1)" "0 \<le> m - 1" by auto
  from Suc(1) [OF m(2,3)] have IH: "take (nat (m - 1)) [i + 1..j] = [i + 1..min (i + m - 1) j]"
    by (simp add: algebra_simps)
  show ?case
  proof (cases "i \<le> j")
    case True
    have "nat m = Suc (nat (m - 1))" using m by simp
    with True IH m upto_rec1 [of i "min (i + m - 1) j"] show ?thesis by (simp add: upto_rec1 [of i j])
  qed simp
qed

lemma page_of_log:
  assumes "map te_seq log = [1..n]" and "0 \<le> after" and "0 \<le> limit"
  shows "map te_seq (take (nat limit) (order_by te_seq (filter (\<lambda>e. after < te_seq e) log))) =
    [after + 1..min (after + limit) n]"
proof -
  have seqs: "map te_seq (filter (\<lambda>e. after < te_seq e) log) = [after + 1..n]"
    using assms(1) filter_upto_after [OF assms(2), of n] by (metis (mono_tags, lifting) comp_def filter_cong filter_map)
  then have "order_by te_seq (filter (\<lambda>e. after < te_seq e) log) = filter (\<lambda>e. after < te_seq e) log"
    by (simp add: order_by_def sorted_sort_id sort_key_id_if_sorted)
  with seqs take_upto_int [OF assms(3), of "after + 1" n] show ?thesis by (simp add: take_map [symmetric] algebra_simps)
qed

definition org_text :: "string option \<Rightarrow> string" where
  "org_text org = (case org of None \<Rightarrow> [] | Some s \<Rightarrow> s)"

lemma work_scope_key: "work_scope org ws = Inr (o', w) \<Longrightarrow> o' = org_text org \<and> w = ws"
  by (auto simp: work_scope_Inr org_text_def split: option.splits)

lemma mapE_map: "mapE f xs = Inr ys \<Longrightarrow> (\<And>x y. f x = Inr y \<Longrightarrow> h y = g x) \<Longrightarrow> map h ys = map g xs"
  by (induction xs arbitrary: ys) (auto simp: resE)

lemma envelope_seq: "event_envelope e = Inr v \<Longrightarrow> dget v ''seq'' = JInt (te_seq e)"
  by (auto simp: event_envelope_def resE dget_def)

lemma get_task_events_Inr:
  assumes "get_task_events org ws tid after limit actor p db = Inr (events, nxt)"
  obtains r where "find_task db (org_text org, ws, tid) = Some r" and "0 \<le> after" and "1 \<le> limit"
    and "nxt = tk_sequence r + 1"
    and "mapE event_envelope (take (nat limit) (order_by te_seq (filter (\<lambda>e. after < te_seq e)
      (log_of (w_events db) (org_text org, ws, tid))))) = Inr events"
proof -
  have flt: "filter (\<lambda>e. te_scope e = k \<and> after < te_seq e) es = filter (\<lambda>e. after < te_seq e) (log_of es k)" for es k
    by (induction es) (auto simp: log_of_def)
  from assms that show thesis
    by (auto simp: get_task_events_def resE flt dest!: work_scope_key split: if_splits)
qed

text \<open>
  A page of a task's log holds exactly the events after the cursor, consecutively and in order, as many as
  the limit allows, and the returned sequence is one past the end of the log: a reader that follows the cursor
  misses nothing and sees nothing twice.
\<close>

theorem task_log_read:
  assumes "wstep\<^sup>*\<^sup>* empty_wdb db" and "get_task_events org ws tid after limit actor p db = Inr (events, nxt)"
  shows "map (\<lambda>e. dget e ''seq'') events = map JInt [after + 1..min (after + limit) (nxt - 1)]"
proof -
  from assms(2) obtain r where r: "find_task db (org_text org, ws, tid) = Some r" and b: "0 \<le> after" "1 \<le> limit"
    and nxt: "nxt = tk_sequence r + 1"
    and page: "mapE event_envelope (take (nat limit) (order_by te_seq (filter (\<lambda>e. after < te_seq e)
      (log_of (w_events db) (org_text org, ws, tid))))) = Inr events" by (rule get_task_events_Inr)
  from mapE_map [OF page envelope_seq]
  have "map (\<lambda>e. dget e ''seq'') events = map JInt (map te_seq (take (nat limit) (order_by te_seq
      (filter (\<lambda>e. after < te_seq e) (log_of (w_events db) (org_text org, ws, tid))))))" by (simp add: comp_def)
  also have "\<dots> = map JInt [after + 1..min (after + limit) (tk_sequence r)]"
    using page_of_log [OF sorted_log(1) [OF run_inv [OF assms(1)] r]] b by simp
  finally show ?thesis by (simp add: nxt)
qed

lemma demo_read_log:
  "\<exists>es. get_task_events (Some ''org'') ''w'' ''t'' 0 10 (Some ''alice'') False demo_w1 = Inr (es, 2)"
proof -
  have "jwf (JDict created_event)" by (simp add: created_event_def)
  from stored_object_text [OF event_texts(1) [OF small_event] this]
  have "\<exists>d. stored_object (render (canon (JDict created_event))) = Inr d" by blast
  then show ?thesis
    by (auto simp: get_task_events_def demo_scope demo_idents demo_actor demo_reads demo_rows demo_access
        event_envelope_def te_scope_def demo_event_row_def order_by_def)
qed

theorem task_log_read_witness: "\<exists>es. get_task_events (Some ''org'') ''w'' ''t'' 0 10 (Some ''alice'') False demo_w1 = Inr (es, 2) \<and>
    map (\<lambda>e. dget e ''seq'') es = [JInt 1]"
proof -
  obtain es where es: "get_task_events (Some ''org'') ''w'' ''t'' 0 10 (Some ''alice'') False demo_w1 = Inr (es, 2)"
    using demo_read_log by blast
  from task_log_read [OF demo_run(1) es] es show ?thesis by (auto simp: upto.simps)
qed

subsection \<open>The claim\<close>

lemma claim_Inr:
  assumes "claim_task now org ws tid actor p db = (Inr (won, v), db')"
  obtains r where "find_task db (org_text org, ws, tid) = Some r" and "won \<longleftrightarrow> tk_status r = ''queued''"
    and "won \<Longrightarrow> \<exists>r'. find_task db' (org_text org, ws, tid) = Some r' \<and> tk_status r' = ''running''"
    and "\<not> won \<Longrightarrow> db' = db"
proof (cases won)
  case False
  with assms that show thesis
    by (auto simp: claim_task_def resE Let_def dest!: work_scope_key split: if_splits)
next
  case True
  let ?k = "(org_text org, ws, tid)"
  from assms True obtain r seq where r: "find_task db ?k = Some r" "tk_status r = ''queued''"
    and app: "append_event ?k (status_event ''queued'' ''running'') None now
      (db\<lparr>w_tasks := edit_by tk_key ?k (\<lambda>r. r\<lparr>tk_status := ''running'',
          tk_started_at := (case tk_started_at r of None \<Rightarrow> Some now | Some t \<Rightarrow> Some t)\<rparr>) (w_tasks db)\<rparr>) = Inr (seq, db')"
    by (auto simp: claim_task_def resE Let_def dest!: work_scope_key split: if_splits)
  have "\<exists>r'. find_task db' ?k = Some r' \<and> tk_status r' = ''running''"
    using r(1) by (rule_tac append_event_Inr [OF app]) (auto simp: find_task_def find_by_edit tk_key_def)
  with r True show thesis by (intro that) auto
qed

lemma claim_fails: "claim_task now org ws tid actor p db = (Inl e, db') \<Longrightarrow> db' = db"
  by (simp add: claim_task_def resE)

text \<open>
  C20. A task has a single winning claim: once a claim won, no claim of that task wins in any later state, by any
  actor, and none of them changes the database.
\<close>

theorem claim_single_winner:
  assumes "wstep\<^sup>*\<^sup>* empty_wdb db" and "claim_task now org ws tid actor p db = (Inr (True, v), db1)"
    and "wstep\<^sup>*\<^sup>* db1 db2" and "claim_task now' org ws tid actor' p' db2 = (res, db3)"
  shows "db3 = db2 \<and> (\<forall>v. res \<noteq> Inr (True, v))"
proof -
  let ?k = "(org_text org, ws, tid)"
  obtain r1 where r1: "find_task db1 ?k = Some r1" "tk_status r1 = ''running''" by (rule claim_Inr [OF assms(2)]) auto
  have "wstep\<^sup>*\<^sup>* empty_wdb db1" using assms(1) wt_claim [OF assms(2)] by simp
  from grows_task [OF run_grows [OF this assms(3)] r1(1)] obtain r2 where r2: "find_task db2 ?k = Some r2"
    and le: "task_le r1 r2" by blast
  from le r1(2) have "tk_status r2 \<noteq> ''queued''" using started_stays by (auto simp: task_le_def)
  with r2 assms(4) show ?thesis by (cases res) (auto dest: claim_fails elim!: claim_Inr)
qed

theorem claim_single_winner_witness:
  "\<exists>v. claim_task 2000 (Some ''org'') ''w'' ''t'' (Some ''alice'') False demo_w1 = (Inr (True, v), demo_w2) \<and>
    (\<forall>v'. fst (claim_task 5000 (Some ''org'') ''w'' ''t'' (Some ''bob'') False demo_w4) \<noteq> Inr (True, v'))"
proof -
  obtain v where v: "claim_task 2000 (Some ''org'') ''w'' ''t'' (Some ''alice'') False demo_w1 = (Inr (True, v), demo_w2)"
    using demo_claim_task by blast
  have "wstep\<^sup>*\<^sup>* demo_w2 demo_w4" using demo_run(3,4) by (meson converse_rtranclp_into_rtranclp rtranclp.rtrancl_refl)
  from claim_single_winner [OF demo_run(1) v this] v show ?thesis by (metis prod.collapse)
qed

section \<open>Human gates\<close>

lemma gate_unique:
  assumes "gate_ok gkey gate pend waiting ts gs" and "t \<in> set ts" and "tk_status t = waiting"
  shows "\<exists>!g. g \<in> set gs \<and> pend g \<and> gate g = tk_key t"
proof -
  from assms have "tk_key t \<in> gate ` set (filter pend gs)" by (auto simp: gate_ok_def waits_def)
  moreover from assms(1) have "inj_on gate (set (filter pend gs))" by (auto simp: gate_ok_def keyed_def distinct_map)
  ultimately show ?thesis by (auto simp: inj_on_def)
qed

lemma gate_waits:
  assumes "gate_ok gkey gate pend waiting ts gs" and "t \<in> set ts" and "g \<in> set gs" and "pend g" and "gate g = tk_key t"
  shows "tk_status t \<in> {waiting, ''failed'', ''aborted''}"
proof -
  have "tk_key t \<in> gate ` set (filter pend gs)" using assms(3-5) by force
  with assms(1,2) show ?thesis by (auto simp: gate_ok_def waits_def)
qed

text \<open>
  C21. A task that waits for a human waits for exactly one: a task in \<open>waiting_approval\<close> has exactly one pending
  approval and a task in \<open>waiting_input\<close> exactly one pending input request. Conversely a pending gate belongs to a
  task that waits for it or was ended without an answer.
\<close>

theorem waiting_has_one_gate:
  assumes "wstep\<^sup>*\<^sup>* empty_wdb db" and "t \<in> set (w_tasks db)"
  shows "(tk_status t = ''waiting_approval'' \<longrightarrow>
           (\<exists>!a. a \<in> set (w_approvals db) \<and> ap_status a = ''pending'' \<and> ap_gate a = tk_key t)) \<and>
         (tk_status t = ''waiting_input'' \<longrightarrow>
           (\<exists>!a. a \<in> set (w_inputs db) \<and> in_status a = ''pending'' \<and> in_gate a = tk_key t)) \<and>
         (\<forall>a \<in> set (w_approvals db). ap_status a = ''pending'' \<and> ap_gate a = tk_key t \<longrightarrow>
           tk_status t \<in> {''waiting_approval'', ''failed'', ''aborted''}) \<and>
         (\<forall>a \<in> set (w_inputs db). in_status a = ''pending'' \<and> in_gate a = tk_key t \<longrightarrow>
           tk_status t \<in> {''waiting_input'', ''failed'', ''aborted''})"
proof -
  from run_inv [OF assms(1)] have a: "gate_ok ap_key ap_gate ap_pend ''waiting_approval'' (w_tasks db) (w_approvals db)"
    and i: "gate_ok in_key in_gate in_pend ''waiting_input'' (w_tasks db) (w_inputs db)"
    by (simp_all add: winv_def approvals_ok_def inputs_ok_def)
  show ?thesis
    using gate_unique [OF a assms(2)] gate_waits [OF a assms(2)] gate_unique [OF i assms(2)] gate_waits [OF i assms(2)]
    unfolding ap_pend_def in_pend_def by blast
qed

theorem waiting_has_one_gate_witness:
  "\<exists>!a. a \<in> set (w_approvals demo_w3) \<and> ap_status a = ''pending'' \<and> ap_gate a = tk_key demo_waiting"
proof -
  have "demo_waiting \<in> set (w_tasks demo_w3)" "tk_status demo_waiting = ''waiting_approval''"
    by (simp_all add: demo_w3_def demo_waiting_def)
  with waiting_has_one_gate [OF demo_run(6) this(1)] show ?thesis by blast
qed

lemma grows_approval:
  assumes "wgrows db db'" and "find_by ap_key aid (w_approvals db) = Some a"
  shows "\<exists>a'. find_by ap_key aid (w_approvals db') = Some a' \<and> approval_le a a'"
proof -
  from assms(1) have "table_ext approval_le (w_approvals db) (w_approvals db')" by (simp add: wgrows_def)
  from table_ext_find [OF this _ assms(2)] show ?thesis by (metis approval_le_keys)
qed

lemma grows_input:
  assumes "wgrows db db'" and "find_by in_key iid (w_inputs db) = Some a"
  shows "\<exists>a'. find_by in_key iid (w_inputs db') = Some a' \<and> input_le a a'"
proof -
  from assms(1) have "table_ext input_le (w_inputs db) (w_inputs db')" by (simp add: wgrows_def)
  from table_ext_find [OF this _ assms(2)] show ?thesis by (metis input_le_keys)
qed

lemma approval_final:
  assumes "wstep\<^sup>*\<^sup>* empty_wdb db" and "wstep\<^sup>*\<^sup>* db db1"
    and "find_by ap_key (org_text org, ws, aid) (w_approvals db) = Some a" and "ap_status a \<noteq> ''pending''"
  shows "find_by ap_key (org_text org, ws, aid) (w_approvals db1) = Some a \<and>
    snd (resolve_approval nid now org ws aid decision msg actor p ps db1) = db1"
proof -
  from grows_approval [OF run_grows [OF assms(1,2)] assms(3)] assms(4)
  have a: "find_by ap_key (org_text org, ws, aid) (w_approvals db1) = Some a"
    by (auto simp: ap_pend_def dest: approval_le_done)
  obtain res db2 where r: "resolve_approval nid now org ws aid decision msg actor p ps db1 = (res, db2)" by fastforce
  then have "db2 = db1"
    using a assms(4)
    by (cases res) (auto simp: resolve_approval_def resE Let_def dest!: work_scope_key split: if_splits option.splits)
  with a r show ?thesis by simp
qed

lemma input_final:
  assumes "wstep\<^sup>*\<^sup>* empty_wdb db" and "wstep\<^sup>*\<^sup>* db db1"
    and "find_by in_key (org_text org, ws, iid) (w_inputs db) = Some a" and "in_status a = ''answered''"
  shows "find_by in_key (org_text org, ws, iid) (w_inputs db1) = Some a \<and>
    snd (resolve_input_request now org ws iid answer msg actor p db1) = db1"
proof -
  from grows_input [OF run_grows [OF assms(1,2)] assms(3)] assms(4)
  have a: "find_by in_key (org_text org, ws, iid) (w_inputs db1) = Some a"
    by (auto simp: in_pend_def dest: input_le_done)
  obtain res db2 where r: "resolve_input_request now org ws iid answer msg actor p db1 = (res, db2)" by fastforce
  then have "db2 = db1"
    using a assms(4)
    by (cases res) (auto simp: resolve_input_request_def resE Let_def dest!: work_scope_key split: if_splits option.splits)
  with a r show ?thesis by simp
qed

text \<open>
  C22. What a human decided is final: once an approval is approved or rejected, or an input request answered, its
  row is the same in every later state, and no call that resolves it again, with the same or another decision or
  answer, changes the database.
\<close>

theorem human_decision_final:
  assumes "wstep\<^sup>*\<^sup>* empty_wdb db" and "wstep\<^sup>*\<^sup>* db db1"
  shows "(\<forall>org ws aid a nid now decision msg actor p ps.
      find_by ap_key (org_text org, ws, aid) (w_approvals db) = Some a \<and> ap_status a \<noteq> ''pending'' \<longrightarrow>
      find_by ap_key (org_text org, ws, aid) (w_approvals db1) = Some a \<and>
      snd (resolve_approval nid now org ws aid decision msg actor p ps db1) = db1) \<and>
    (\<forall>org ws iid a now answer msg actor p.
      find_by in_key (org_text org, ws, iid) (w_inputs db) = Some a \<and> in_status a = ''answered'' \<longrightarrow>
      find_by in_key (org_text org, ws, iid) (w_inputs db1) = Some a \<and>
      snd (resolve_input_request now org ws iid answer msg actor p db1) = db1)"
  using approval_final [OF assms] input_final [OF assms] by blast

theorem human_decision_final_witness:
  "snd (resolve_approval ''n'' 9500 (Some ''org'') ''w'' ''a'' ''approved'' None ''alice'' False None demo_w4) = demo_w4 \<and>
   snd (resolve_input_request 5000 (Some ''org'') ''w'' ''a'' (JDict []) ''k'' ''bob'' False demo_i2) = demo_i2"
proof -
  have a: "find_by ap_key (org_text (Some ''org''), ''w'', ''a'') (w_approvals demo_w4) = Some demo_rejected"
    "ap_status demo_rejected \<noteq> ''pending''"
    by (simp_all add: org_text_def demo_find demo_rejected_def decide_approval_def demo_approval_def)
  have i: "find_by in_key (org_text (Some ''org''), ''w'', ''a'') (w_inputs demo_i2) = Some demo_answered"
    "in_status demo_answered = ''answered''"
    by (simp_all add: org_text_def demo_i2_def demo_answered_def answer_input_def demo_input_def find_by_Cons in_key_def)
  note final = human_decision_final [OF _ rtranclp.rtrancl_refl]
  show ?thesis
    by (rule conjI [OF final [OF demo_run(7), THEN conjunct1, rule_format, OF conjI [OF a], THEN conjunct2]
          final [OF demo_input_run(2), THEN conjunct2, rule_format, OF conjI [OF i], THEN conjunct2]])
qed

subsection \<open>What a decision does to its task\<close>

lemma append_keeps:
  assumes "append_event k event msg now db = Inr (seq, db')"
  shows "find_task db' k' = map_option (\<lambda>r. if k' = k then r\<lparr>tk_sequence := seq\<rparr> else r) (find_task db k')"
    and "w_approvals db' = w_approvals db" and "w_notes db' = w_notes db" and "w_owners db' = w_owners db"
  by (rule append_event_Inr [OF assms], simp add: find_task_def find_by_edit tk_key_def option.map_ident)+

lemma enqueue_notes:
  "enqueue_notification nid org ws dedup ntype payload connector recipient task available now owner po db = Inr (x, db') \<Longrightarrow>
   \<exists>ns. db' = db\<lparr>w_notes := ns\<rparr>"
  by (auto simp: enqueue_notification_def resE Let_def split: option.splits if_splits intro: exI [of _ "w_notes db"])

text \<open>A private result is one notice to its owner, possibly annotated with the reason it is held back.\<close>

definition annotate :: "task_key \<Rightarrow> string \<Rightarrow> int \<Rightarrow> note_row \<Rightarrow> note_row" where
  "annotate k text now n = (if nt_key n = k \<and> nt_status n = ''queued'' then n\<lparr>nt_result := text, nt_updated_at := now\<rparr> else n)"

lemma queue_private_Inr:
  assumes "queue_private_result nid org ws task now ps o' actor db = Inr db'"
  shows "\<exists>dedup payload route v dup db1. enqueue_notification nid org ws dedup ''teams.message'' payload (Some ''teams-v1'')
      (Some ''teams:owner-private'') (Some (tk_id task)) now now (Some actor) (Some route) db = Inr ((v, dup), db1) \<and>
    (db' = db1 \<or> (\<not> dup \<and> (\<exists>t. db' = db1\<lparr>w_notes := map (annotate (org, ws, nid) t now) (w_notes db1)\<rparr>)))"
proof -
  from assms obtain v dup db1 dedup payload route where
    e: "enqueue_notification nid org ws dedup ''teams.message'' payload (Some ''teams-v1'')
      (Some ''teams:owner-private'') (Some (tk_id task)) now now (Some actor) (Some route) db = Inr ((v, dup), db1)"
    and c: "(case hold_code db1 org ws ps o' actor of None \<Rightarrow> Inr db1
       | Some code \<Rightarrow> if dup then Inr db1
           else bindE (work_json_text (JDict [(''deliveryHoldCode'', JStr code)])) (\<lambda>text.
             Inr (db1\<lparr>w_notes := map (annotate (org, ws, nid) text now) (w_notes db1)\<rparr>))) = Inr db'"
    unfolding queue_private_result_def Let_def annotate_def
    by (simp only: bindE_eq_Inr split_paired_Ex prod.case) blast
  from c have "db' = db1 \<or> (\<not> dup \<and> (\<exists>t. db' = db1\<lparr>w_notes := map (annotate (org, ws, nid) t now) (w_notes db1)\<rparr>))"
    by (auto simp: resE split: option.splits if_splits)
  with e show ?thesis by blast
qed

lemma queue_private_notes: "queue_private_result nid org ws task now ps o' actor db = Inr db' \<Longrightarrow> \<exists>ns. db' = db\<lparr>w_notes := ns\<rparr>"
  by (auto dest!: queue_private_Inr enqueue_notes)

lemma queue_owned:
  assumes "queue_task_result_notification nid org ws task now ps db = Inr db'"
    and "find_by po_key (org, ws, tk_id task) (w_owners db) = Some p"
  shows "db' = db \<or> (\<exists>reason. append_hold (org, ws, tk_id task) reason (tk_status task) now db = Inr db') \<or>
    (\<exists>o'. queue_private_result nid org ws task now ps o' (py_lower (po_actor p)) db = Inr db')"
  using assms unfolding queue_task_result_notification_def
  by (cases "find_by to_key (org, ws, tk_id task) (w_origins db)") (auto simp: Let_def resE split: if_splits)

lemma queue_shared:
  assumes "queue_task_result_notification nid org ws task now ps db = Inr db'"
    and "find_by po_key (org, ws, tk_id task) (w_owners db) = None"
  shows "db' = db \<or> (\<exists>dedup ntype payload conn recip x. enqueue_notification nid org ws dedup ntype payload conn recip
    (Some (tk_id task)) now now None None db = Inr (x, db'))"
  using assms unfolding queue_task_result_notification_def
  by (fastforce simp: Let_def resE split: option.split_asm)

lemma queue_keeps:
  assumes "queue_task_result_notification nid org ws task now ps db = Inr db'" and "find_task db k = Some r"
  shows "\<exists>seq. find_task db' k = Some (r\<lparr>tk_sequence := seq\<rparr>)"
proof -
  have "(\<exists>k' reason st. append_hold k' reason st now db = Inr db') \<or> (\<exists>ns. db' = db\<lparr>w_notes := ns\<rparr>)"
    using queue_owned [OF assms(1)] queue_shared [OF assms(1)]
    by (cases "find_by po_key (org, ws, tk_id task) (w_owners db)")
      (auto dest!: enqueue_notes queue_private_notes intro: exI [of _ "w_notes db"])
  then consider seq k' e msg where "append_event k' e msg now db = Inr (seq, db')"
    | ns where "db' = db\<lparr>w_notes := ns\<rparr>" by (auto simp: append_hold_def resE)
  then show ?thesis
  proof cases
    case 1
    from append_keeps(1) [OF this, of k] assms(2)
    have "find_task db' k = Some (r\<lparr>tk_sequence := (if k = k' then seq else tk_sequence r)\<rparr>)" by simp
    then show ?thesis by blast
  next
    case 2
    with assms(2) have "find_task db' k = Some (r\<lparr>tk_sequence := tk_sequence r\<rparr>)" by (simp add: find_task_def)
    then show ?thesis by blast
  qed
qed

text \<open>The decision itself, and what it writes.\<close>

lemma resolve_Inr:
  assumes run: "resolve_approval nid now org ws aid decision msg actor p ps db = (Inr v, db')"
    and ap: "find_by ap_key (org_text org, ws, aid) (w_approvals db) = Some a" and "ap_status a = ''pending''"
  shows "\<exists>r seq. find_task db (org_text org, ws, ap_task a) = Some r \<and> tk_status r = ''waiting_approval'' \<and>
    find_task db' (org_text org, ws, ap_task a) = Some ((decide_task now
      (if decision = ''approved'' then ''running'' else ''aborted'') r)\<lparr>tk_sequence := seq\<rparr>)"
proof -
  let ?k = "(org_text org, ws, ap_task a)" and ?new = "if decision = ''approved'' then ''running'' else ''aborted''"
  let ?db1 = "\<lambda>msg actor digest. db\<lparr>w_approvals := edit_by ap_key (org_text org, ws, aid) (decide_approval now decision msg actor digest)
      (w_approvals db), w_tasks := edit_by tk_key ?k (decide_task now ?new) (w_tasks db)\<rparr>"
  from run ap assms(3) obtain r digest msg' db2 db3 seq1 seq2
    where r: "find_task db ?k = Some r" "tk_status r = ''waiting_approval''"
    and 2: "append_event ?k (approval_event decision aid) None now (?db1 msg' actor digest) = Inr (seq1, db2)"
    and 3: "append_event ?k (status_event ''waiting_approval'' ?new) None now db2 = Inr (seq2, db3)"
    and 4: "db' = db3 \<or> (\<exists>task'. queue_task_result_notification nid (org_text org) ws task' now ps db3 = Inr db')"
    unfolding resolve_approval_def Let_def
    by (auto simp: resE dest!: work_scope_key split: if_splits; blast)
  have 1: "find_task (?db1 msg' actor digest) ?k = map_option (decide_task now ?new) (find_task db ?k)"
    by (simp add: find_task_def find_by_edit tk_key_def decide_task_def Let_def)
  from 1 2 3 r(1) have db3: "find_task db3 ?k = Some ((decide_task now ?new r)\<lparr>tk_sequence := seq2\<rparr>)"
    by (simp add: append_keeps)
  have "\<exists>seq. find_task db' ?k = Some ((decide_task now ?new r)\<lparr>tk_sequence := seq\<rparr>)"
    using 4
  proof
    assume "\<exists>task'. queue_task_result_notification nid (org_text org) ws task' now ps db3 = Inr db'"
    then obtain seq where "find_task db' ?k = Some ((decide_task now ?new r)\<lparr>tk_sequence := seq2\<rparr>\<lparr>tk_sequence := seq\<rparr>)"
      using queue_keeps [OF _ db3] by blast
    then show ?thesis by (intro exI [of _ seq]) simp
  qed (use db3 in blast)
  with r show ?thesis by blast
qed

text \<open>
  A rejection ends its task but never records how long it ran: the duration column keeps the value it had,
  whatever the clock says, because the \<open>COALESCE\<close> of the update prefers the stored default to the computed value.
\<close>

theorem rejection_keeps_duration:
  assumes "resolve_approval nid now org ws aid ''rejected'' msg actor p ps db = (Inr v, db')"
    and "find_by ap_key (org_text org, ws, aid) (w_approvals db) = Some a" and "ap_status a = ''pending''"
  shows "\<exists>r r'. find_task db (org_text org, ws, ap_task a) = Some r \<and> find_task db' (org_text org, ws, ap_task a) = Some r' \<and>
    tk_status r' = ''aborted'' \<and> tk_ended_at r' = coalesce (tk_ended_at r) (Some now) \<and> tk_duration r' = tk_duration r"
  using resolve_Inr [OF assms]
  by (fastforce simp: decide_task_def terminal_task_states_def Let_def coalesce_def)

theorem rejection_keeps_duration_witness:
  "find_task demo_w4 (''org'', ''w'', ''t'') = Some demo_aborted \<and> tk_started_at demo_aborted = Some 2000 \<and>
   tk_ended_at demo_aborted = Some 9000 \<and> tk_duration demo_aborted = 0"
proof -
  obtain v where v: "resolve_approval ''n'' 9000 (Some ''org'') ''w'' ''a'' ''rejected'' None ''alice'' False None demo_w3 =
    (Inr v, demo_w4)" using demo_resolve_approval by blast
  have a: "find_by ap_key (org_text (Some ''org''), ''w'', ''a'') (w_approvals demo_w3) = Some demo_approval"
    "ap_status demo_approval = ''pending''" "ap_task demo_approval = ''t''"
    by (simp_all add: org_text_def demo_find demo_approval_def)
  from rejection_keeps_duration [OF v a(1,2)] show ?thesis
    by (auto simp: org_text_def a demo_find coalesce_def) (simp_all add: demo_waiting_def demo_rows demo_aborted_def)
qed

section \<open>Operation receipts\<close>

text \<open>
  C25. At no time do two unresolved provider receipts of one workspace name the same provider target, and no two
  unresolved receipts hold the same branch lock: an effect whose outcome is unknown is never repeated beside it.
\<close>

theorem unresolved_exclusive:
  assumes "wstep\<^sup>*\<^sup>* empty_wdb db" and "r \<in> set (w_operations db)" and "s \<in> set (w_operations db)"
    and "unresolved r" and "unresolved s" and "op_org r = op_org s" and "op_ws r = op_ws s"
    and "(starts_with ''tool.provider.v1:'' (op_type r) \<and> starts_with ''tool.provider.v1:'' (op_type s) \<and>
          is_provider_target (op_target r) \<and> op_target r = op_target s) \<or>
         (op_scope_lock r \<noteq> None \<and> op_scope_lock r = op_scope_lock s)"
  shows "r = s"
proof -
  from run_inv [OF assms(1)] have ok: "operations_ok (w_operations db)" by (simp add: winv_def)
  from assms(8) show ?thesis
  proof
    assume t: "starts_with ''tool.provider.v1:'' (op_type r) \<and> starts_with ''tool.provider.v1:'' (op_type s) \<and>
          is_provider_target (op_target r) \<and> op_target r = op_target s"
    have "r \<in> set (filter provider_intent (w_operations db))" "s \<in> set (filter provider_intent (w_operations db))"
      "op_target_key r = op_target_key s"
      using t assms(2-7) by (auto simp: provider_intent_def op_target_key_def)
    then show "r = s" using ok unfolding operations_ok_def by (meson keyed_eq)
  next
    assume l: "op_scope_lock r \<noteq> None \<and> op_scope_lock r = op_scope_lock s"
    have "r \<in> set (filter lock_intent (w_operations db))" "s \<in> set (filter lock_intent (w_operations db))"
      "op_lock_key r = op_lock_key s"
      using l assms(2-7) by (cases "op_scope_lock s"; simp add: lock_intent_def op_lock_key_def)+
    then show "r = s" using ok unfolding operations_ok_def by (meson keyed_eq)
  qed
qed

theorem unresolved_exclusive_witness: "unresolved demo_op \<and> w_operations demo_o1 ! 0 = demo_op"
proof -
  have m: "demo_op \<in> set (w_operations demo_o1)" "w_operations demo_o1 ! 0 \<in> set (w_operations demo_o1)" "unresolved demo_op"
    "unresolved (w_operations demo_o1 ! 0)" by (simp_all add: demo_o1_def unresolved_def demo_op_def)
  have p: "op_org (w_operations demo_o1 ! 0) = op_org demo_op" "op_ws (w_operations demo_o1 ! 0) = op_ws demo_op"
    "starts_with ''tool.provider.v1:'' (op_type (w_operations demo_o1 ! 0)) \<and> starts_with ''tool.provider.v1:'' (op_type demo_op) \<and>
      is_provider_target (op_target (w_operations demo_o1 ! 0)) \<and> op_target (w_operations demo_o1 ! 0) = op_target demo_op"
    by (simp_all add: demo_o1_def demo_op_def is_provider_target_def starts_with_def)
  from unresolved_exclusive [OF demo_op_run(1) m(2,1,4,3) p(1,2) disjI1 [OF p(3)]] m(3) show ?thesis by blast
qed

lemma op_path: "op_edge\<^sup>+\<^sup>+ s s' \<Longrightarrow> s \<noteq> ''verified'' \<and> s' \<in> {''uncertain'', ''verified''}"
  by (induction rule: tranclp_induct) (auto simp: op_edge_def operation_transitions_def split: if_splits)

lemma grows_op:
  assumes "wgrows db db'" and "find_by op_ident oid (w_operations db) = Some r"
  shows "\<exists>r'. find_by op_ident oid (w_operations db') = Some r' \<and> op_le r r'"
proof -
  from assms(1) have "table_ext op_le (w_operations db) (w_operations db')" by (simp add: wgrows_def)
  moreover have "op_le r r' \<Longrightarrow> op_ident r' = op_ident r" for r r' by (auto simp: op_le_def op_ident_def)
  ultimately show ?thesis using table_ext_find [OF _ _ assms(2)] by metis
qed

text \<open>
  C26. A receipt keeps its intent for ever: along any run its key, type, task, target, lock, producer, request and
  digest stay as recorded, its status only moves forward along started, uncertain, verified, its evidence changes only
  together with such a move, and a verified receipt never changes again.
\<close>

theorem receipt_history:
  assumes "wstep\<^sup>*\<^sup>* empty_wdb db" and "wstep\<^sup>*\<^sup>* db db'" and "find_by op_ident oid (w_operations db) = Some r"
  shows "\<exists>r'. find_by op_ident oid (w_operations db') = Some r' \<and>
    r'\<lparr>op_status := op_status r, op_evidence := op_evidence r, op_updated_at := op_updated_at r\<rparr> = r \<and>
    op_edge\<^sup>*\<^sup>* (op_status r) (op_status r') \<and> (op_status r' = op_status r \<longrightarrow> r' = r) \<and> (op_status r = ''verified'' \<longrightarrow> r' = r)"
proof -
  from grows_op [OF run_grows [OF assms(1,2)] assms(3)] obtain r' where r': "find_by op_ident oid (w_operations db') = Some r'"
    and le: "op_le r r'" by blast
  have acyclic: "\<not> op_edge\<^sup>+\<^sup>+ s s" for s
  proof
    assume "op_edge\<^sup>+\<^sup>+ s s"
    then obtain s1 where "op_edge s s1" "op_edge\<^sup>*\<^sup>* s1 s" by (meson tranclpD)
    with op_path [OF \<open>op_edge\<^sup>+\<^sup>+ s s\<close>] have "s1 = ''verified''" "s \<noteq> s1"
      by (auto simp: op_edge_def operation_transitions_def split: if_splits)
    with \<open>op_edge\<^sup>*\<^sup>* s1 s\<close> show False using op_path by (metis rtranclpD)
  qed
  from le show ?thesis
  proof (cases "r' = r")
    case False
    with le obtain s e t where e: "op_edge\<^sup>+\<^sup>+ (op_status r) s"
      and eq: "r' = r\<lparr>op_status := s, op_evidence := e, op_updated_at := t\<rparr>" unfolding op_le_def by blast
    from e acyclic op_path [OF e] have "s \<noteq> op_status r" "op_status r \<noteq> ''verified''" by auto
    with e r' show ?thesis unfolding eq by (auto simp: tranclp_into_rtranclp)
  qed (use r' in auto)
qed

theorem receipt_history_witness:
  "op_edge\<^sup>*\<^sup>* ''started'' ''verified'' \<and> find_by op_ident (''org'', ''w'', ''o'') (w_operations demo_o2) \<noteq> Some demo_op"
proof -
  have f: "find_by op_ident (''org'', ''w'', ''o'') (w_operations demo_o1) = Some demo_op"
    "find_by op_ident (''org'', ''w'', ''o'') (w_operations demo_o2) = Some (demo_op\<lparr>op_status := ''verified'', op_updated_at := 2000\<rparr>)"
    by (simp_all add: demo_o1_def demo_o2_def find_by_Cons op_ident_def demo_op_def)
  have "op_status demo_op = ''started''" by (simp add: demo_op_def)
  with receipt_history [OF demo_op_run(1) r_into_rtranclp [of wstep, OF demo_op_run(2)] f(1)] f(2) show ?thesis
    by (auto simp: demo_op_def)
qed

end
