(* ===== verification/Work_Delivery.thy ===== *)
theory Work_Delivery
  imports Work_Props
begin

text \<open>
  The properties of the notification outbox and of the boundary around private tasks: finished deliveries are
  final, only the holder of a live lease moves one, a claim leases the oldest rows and at most the limit, private
  results go only to their owner, and a private task does not exist for anyone else.
\<close>

section \<open>Delivery\<close>

lemma grows_note:
  assumes "wgrows db db'" and "find_by nt_key nid (w_notes db) = Some n"
  shows "\<exists>n'. find_by nt_key nid (w_notes db') = Some n' \<and> note_le n n'"
proof -
  from assms(1) have "table_ext note_le (w_notes db) (w_notes db')" by (simp add: wgrows_def)
  moreover have "nt_key n' = nt_key n" if "note_le n n'" for n n'
  proof -
    have "nt_key (note_fixed m) = nt_key m" for m by (simp add: note_fixed_def nt_key_def)
    with that show ?thesis unfolding note_le_def same_note_def by metis
  qed
  ultimately show ?thesis using table_ext_find [OF _ _ assms(2)] by metis
qed

text \<open>
  C27. What a notification says never changes, only its delivery columns do; and once it is delivered, failed or
  uncertain its row never changes again, so it is not delivered a second time.
\<close>

theorem finished_delivery_final:
  assumes "wstep\<^sup>*\<^sup>* empty_wdb db" and "wstep\<^sup>*\<^sup>* db db'" and "find_by nt_key nid (w_notes db) = Some n"
  shows "\<exists>n'. find_by nt_key nid (w_notes db') = Some n' \<and> note_fixed n' = note_fixed n \<and>
    (nt_status n \<in> {''delivered'', ''failed'', ''uncertain''} \<longrightarrow> n' = n)"
  using grows_note [OF run_grows [OF assms(1,2)] assms(3)] by (auto simp: note_le_def same_note_def note_done_def)

lemma demo_done: "find_by nt_key (''org'', ''w'', ''n'') (w_notes (demo_n demo_delivered)) = Some demo_delivered"
  "nt_status demo_delivered = ''delivered''"
  by (simp_all add: demo_note_rows)

theorem finished_delivery_final_witness:
  "find_by nt_key (''org'', ''w'', ''n'') (w_notes (snd (claim_notifications (\<lambda>_. ''tok2'') 99000 (Some ''org'') ''w'' (JStr ''x'')
     1 60 JNull JNull JNull None False (demo_n demo_delivered)))) = Some demo_delivered"
proof -
  have "wstep (demo_n demo_delivered) (snd (claim_notifications (\<lambda>_. ''tok2'') 99000 (Some ''org'') ''w'' (JStr ''x'')
     1 60 JNull JNull JNull None False (demo_n demo_delivered)))" by (rule wt_lease [OF prod.collapse [symmetric]])
  from finished_delivery_final [OF demo_note_run(7) r_into_rtranclp [of wstep, OF this] demo_done(1)] show ?thesis
    by (auto simp: demo_done(2))
qed

text \<open>
  C28. Delivery is fenced by the lease: a start or finish call that changes anything holds the token whose hash the
  row stores, acts before the lease expires and on a row in the right state (leased for a start, started for a
  finish), and changes that row only.
\<close>

theorem delivery_fenced:
  assumes "winv db" and "notification_transition now org ws nid token target result retry ps ap po actor p db = (res, db')"
    and "db' \<noteq> db"
  shows "\<exists>n n'. find_by nt_key (org_text org, ws, nid) (w_notes db) = Some n \<and> opt_text (nt_token_hash n) = sha256_hex token \<and>
    lease_live now n \<and> nt_status n = (if target = ''started'' then ''leased'' else ''started'') \<and> same_note n n' \<and>
    db' = db\<lparr>w_notes := edit_by nt_key (org_text org, ws, nid) (\<lambda>_. n') (w_notes db)\<rparr>"
proof (cases res)
  case (Inl e)
  with assms(2,3) show ?thesis by (simp add: notification_transition_def resE)
next
  case (Inr v)
  let ?k = "(org_text org, ws, nid)"
  from assms(2) Inr obtain n n' body where n: "find_by nt_key ?k (w_notes db) = Some n"
    and tok: "opt_text (nt_token_hash n) = sha256_hex token" and d: "deliver now target body retry n = Inr n'"
    and db': "db' = db\<lparr>w_notes := edit_by nt_key ?k (\<lambda>_. n') (w_notes db)\<rparr>"
    unfolding notification_transition_def by (auto simp: resE dest!: work_scope_key split: if_splits option.splits)
  have "n' \<noteq> n"
  proof
    assume "n' = n"
    have "keyed nt_key (w_notes db)" using assms(1) by (simp add: winv_def notes_ok_def)
    then have "edit_by nt_key ?k (\<lambda>_. n) (w_notes db) = edit_by nt_key ?k (\<lambda>r. r) (w_notes db)"
      using edit_by_const [OF _ n, of "\<lambda>r. r"] by simp
    also have "\<dots> = w_notes db" by (simp add: edit_by_def)
    finally show False using assms(3) db' \<open>n' = n\<close> by simp
  qed
  from d have "lease_live now n \<and> nt_status n = (if target = ''started'' then ''leased'' else ''started'') \<and> same_note n n'"
    by (cases rule: deliver_cases) (use \<open>n' \<noteq> n\<close> in \<open>auto simp: same_note_def note_fixed_def\<close>)
  with n tok db' show ?thesis by blast
qed

theorem delivery_fenced_witness:
  "lease_live 3000 demo_leased \<and> opt_text (nt_token_hash demo_leased) = sha256_hex ''tok''"
proof -
  obtain v where v: "notification_transition 3000 (Some ''org'') ''w'' ''n'' ''tok'' ''started'' (JDict []) None None False False
      None False (demo_n demo_leased) = (Inr v, demo_n demo_started)"
    using demo_start_notification by (auto simp: start_notification_def)
  have ne: "demo_n demo_started \<noteq> demo_n demo_leased" by (simp add: demo_note_rows)
  have "find_by nt_key (org_text (Some ''org''), ''w'', ''n'') (w_notes (demo_n demo_leased)) = Some demo_leased"
    by (simp add: org_text_def demo_note_rows)
  with delivery_fenced [OF run_inv [OF demo_note_run(5)] v ne] show ?thesis by auto
qed

section \<open>Leasing the oldest rows\<close>

definition not_later :: "note_row \<Rightarrow> note_row \<Rightarrow> bool" where
  "not_later n m \<longleftrightarrow> nt_available_at n < nt_available_at m \<or>
     nt_available_at n = nt_available_at m \<and> nt_created_at n \<le> nt_created_at m"

lemma lex_sorted:
  fixes f :: "'r \<Rightarrow> 'o::linorder" and g :: "'r \<Rightarrow> 'p::linorder"
  assumes "sorted (map f xs)" and "\<And>k. sorted (map g (filter (\<lambda>x. f x = k) xs))"
  shows "sorted_wrt (\<lambda>x y. f x < f y \<or> f x = f y \<and> g x \<le> g y) xs"
  using assms
proof (induction xs)
  case (Cons x xs)
  have tl: "sorted (map g (filter (\<lambda>x. f x = k) xs))" for k using Cons.prems(2) [of k] by (auto split: if_splits)
  have "f x < f y \<or> f x = f y \<and> g x \<le> g y" if "y \<in> set xs" for y
    using that Cons.prems(1) Cons.prems(2) [of "f x"] by (cases "f x = f y") force+
  with Cons.IH [OF _ tl] Cons.prems(1) show ?case by simp
qed simp

lemma order_by2_sorted: "sorted_wrt (\<lambda>x y. f x < f y \<or> f x = f y \<and> g x \<le> g y) (order_by2 f g t)"
  unfolding order_by2_def by (rule lex_sorted) (simp_all add: sort_key_stable sorted_filter)

lemma page_not_later:
  fixes pool :: "note_row list"
  defines "all \<equiv> order_by2 nt_available_at nt_created_at pool"
  shows "\<forall>n \<in> set (take m all). \<forall>q \<in> set pool - set (take m all). not_later n q"
proof (intro ballI)
  fix n q assume n: "n \<in> set (take m all)" and q: "q \<in> set pool - set (take m all)"
  have "set all = set pool" by (simp add: all_def order_by2_def)
  with q have "q \<in> set (drop m all)" by (metis Diff_iff Un_iff append_take_drop_id set_append)
  moreover have "sorted_wrt not_later (take m all @ drop m all)"
    using order_by2_sorted [of nt_available_at nt_created_at pool] by (simp add: all_def not_later_def [abs_def])
  ultimately show "not_later n q" using n unfolding sorted_wrt_append by blast
qed

lemma lease_rows_exact:
  assumes "lease_rows token_of worker expires now i rows ns = Inr (ls, ns')" and "distinct (map nt_key rows)"
    and "\<forall>r \<in> set rows. find_by nt_key (nt_key r) ns = Some r"
  shows "map (\<lambda>(v, t, e). (dget v ''id'', t, e)) ls = map (\<lambda>j. (JStr (nt_id (rows ! j)), token_of (i + j), expires)) [0..<length rows] \<and>
    (\<forall>j < length rows. find_by nt_key (nt_key (rows ! j)) ns' = Some (lease_note worker (token_of (i + j)) expires now (rows ! j))) \<and>
    (\<forall>k. k \<notin> nt_key ` set rows \<longrightarrow> find_by nt_key k ns' = find_by nt_key k ns)"
  using assms
proof (induction rows arbitrary: i ns ls)
  case (Cons r rows)
  let ?ns = "edit_by nt_key (nt_key r) (lease_note worker (token_of i) expires now) ns"
  have key: "nt_key (lease_note w t e now' n) = nt_key n" "nt_id (lease_note w t e now' n) = nt_id n" for w t e now' n
    by (simp_all add: lease_note_def nt_key_def)
  have find: "find_by nt_key k ?ns = (if k = nt_key r then Some (lease_note worker (token_of i) expires now r) else find_by nt_key k ns)" for k
    using Cons.prems(3) by (auto simp: find_by_edit key)
  have new: "nt_key r \<notin> nt_key ` set rows" and d: "distinct (map nt_key rows)" using Cons.prems(2) by auto
  from Cons.prems(1) obtain v ls' where v: "notification_view (lease_note worker (token_of i) expires now r) = Inr v"
    and rest: "lease_rows token_of worker expires now (Suc i) rows ?ns = Inr (ls', ns')" and ls: "ls = (v, token_of i, expires) # ls'"
    by (auto simp: resE Let_def find split: option.splits)
  have "\<forall>q \<in> set rows. find_by nt_key (nt_key q) ?ns = Some q" using new Cons.prems(3) by (auto simp: find image_iff)
  note IH = Cons.IH [OF rest d this]
  have id: "dget v ''id'' = JStr (nt_id r)" using v by (auto simp: notification_view_def resE dget_def key)
  have 1: "map (\<lambda>(v, t, e). (dget v ''id'', t, e)) ls = map (\<lambda>j. (JStr (nt_id ((r # rows) ! j)), token_of (i + j), expires)) [0..<length (r # rows)]"
    using IH by (simp add: ls id upt_conv_Cons map_Suc_upt [symmetric] comp_def del: upt_Suc)
  have 2: "\<forall>j < length (r # rows). find_by nt_key (nt_key ((r # rows) ! j)) ns' = Some (lease_note worker (token_of (i + j)) expires now ((r # rows) ! j))"
  proof -
    have "find_by nt_key (nt_key r) ns' = find_by nt_key (nt_key r) ?ns" using IH new by blast
    then have "find_by nt_key (nt_key r) ns' = Some (lease_note worker (token_of i) expires now r)" by (simp add: find)
    with IH show ?thesis by (auto simp: less_Suc_eq_0_disj)
  qed
  have 3: "\<forall>k. k \<notin> nt_key ` set (r # rows) \<longrightarrow> find_by nt_key k ns' = find_by nt_key k ns" using IH find by auto
  from 1 2 3 show ?case by blast
qed simp

text \<open>What a claim may lease: the queued, due, visible rows of its filters, after expired leases went back.\<close>

definition claim_pool ::
  "wdb \<Rightarrow> int \<Rightarrow> string \<Rightarrow> string \<Rightarrow> string option \<Rightarrow> string option \<Rightarrow> string option \<Rightarrow> string \<Rightarrow> bool \<Rightarrow> note_row list" where
  "claim_pool db now org ws ntype conn recip actor p = filter (\<lambda>n. nt_org n = org \<and> nt_ws n = ws \<and>
     nt_status n = ''queued'' \<and> nt_available_at n \<le> now \<and> matches ntype (Some (nt_type n)) \<and>
     matches conn (nt_connector n) \<and> matches recip (nt_recipient n) \<and> claim_visible db actor p n)
     (sweep (claim_visible db actor p) org ws now (w_notes db))"

lemma claim_notifications_Inr:
  assumes "claim_notifications token_of now org ws worker limit secs ntype conn recip actor p db = (Inr leases, db')"
  obtains ty cn rc ac wk ns where "optional_text ntype 128 = Inr ty" and "optional_text conn 512 = Inr cn"
    and "optional_text recip 2000 = Inr rc" and "actor_of actor = Inr ac" and "1 \<le> limit" and "limit \<le> 100"
    and "lease_rows token_of wk (now + secs * 1000) now 0 (take (nat limit) (order_by2 nt_available_at nt_created_at
        (claim_pool db now (org_text org) ws ty cn rc (actor_text ac) p)))
      (sweep (claim_visible db (actor_text ac) p) (org_text org) ws now (w_notes db)) = Inr (leases, ns)"
    and "db' = db\<lparr>w_notes := ns\<rparr>"
  using assms unfolding claim_notifications_def claim_pool_def actor_text_def
  by (auto simp: resE Let_def dest!: work_scope_key split: if_splits prod.splits)

text \<open>
  C29. A claim leases exactly the oldest eligible notifications: as many as the limit and the eligible rows allow and
  never more than 100, none of them later than an eligible row it leaves; each gets its own token and the requested
  expiry, and every other row stays as the sweep of expired leases left it.
\<close>

theorem claim_leases_oldest:
  assumes "wstep\<^sup>*\<^sup>* empty_wdb db"
    and "claim_notifications token_of now org ws worker limit secs ntype conn recip actor p db = (Inr leases, db')"
  shows "\<exists>ty cn rc ac chosen pool. optional_text ntype 128 = Inr ty \<and> optional_text conn 512 = Inr cn \<and>
    optional_text recip 2000 = Inr rc \<and> actor_of actor = Inr ac \<and>
    pool = claim_pool db now (org_text org) ws ty cn rc (actor_text ac) p \<and>
    set chosen \<subseteq> set pool \<and> distinct (map nt_key chosen) \<and> length chosen = min (nat limit) (length pool) \<and>
    length leases = length chosen \<and> length leases \<le> 100 \<and>
    (\<forall>n \<in> set chosen. \<forall>m \<in> set pool - set chosen. not_later n m) \<and>
    (\<forall>i < length chosen. \<exists>wk. find_by nt_key (nt_key (chosen ! i)) (w_notes db') =
       Some (lease_note wk (token_of i) (now + secs * 1000) now (chosen ! i))) \<and>
    (\<forall>k. k \<notin> nt_key ` set chosen \<longrightarrow> find_by nt_key k (w_notes db') =
       find_by nt_key k (sweep (claim_visible db (actor_text ac) p) (org_text org) ws now (w_notes db)))"
proof -
  from assms(2) obtain ty cn rc ac wk ns where args: "optional_text ntype 128 = Inr ty" "optional_text conn 512 = Inr cn"
    "optional_text recip 2000 = Inr rc" "actor_of actor = Inr ac" and lim: "1 \<le> limit" "limit \<le> 100"
    and l: "lease_rows token_of wk (now + secs * 1000) now 0 (take (nat limit) (order_by2 nt_available_at nt_created_at
        (claim_pool db now (org_text org) ws ty cn rc (actor_text ac) p)))
      (sweep (claim_visible db (actor_text ac) p) (org_text org) ws now (w_notes db)) = Inr (leases, ns)"
    and db': "db' = db\<lparr>w_notes := ns\<rparr>" by (rule claim_notifications_Inr)
  let ?pool = "claim_pool db now (org_text org) ws ty cn rc (actor_text ac) p"
  let ?swept = "sweep (claim_visible db (actor_text ac) p) (org_text org) ws now (w_notes db)"
  let ?all = "order_by2 nt_available_at nt_created_at ?pool"
  let ?chosen = "take (nat limit) ?all"
  have "winv (db\<lparr>w_notes := ?swept\<rparr>)" using wchange_inv [OF sweep_change] run_inv [OF assms(1)] by blast
  then have keyed: "keyed nt_key ?swept" by (simp add: winv_def notes_ok_def)
  have d: "distinct (map nt_key ?chosen)" unfolding claim_pool_def by (rule keyed_page [OF keyed])
  have all: "set ?all = set ?pool" "length ?all = length ?pool" by (simp_all add: order_by2_def)
  have "set ?pool \<subseteq> set ?swept" by (auto simp: claim_pool_def)
  then have f: "\<forall>r \<in> set ?chosen. find_by nt_key (nt_key r) ?swept = Some r"
    using all(1) by (auto intro!: find_by_keyed [OF keyed] dest: in_set_takeD)
  note exact = lease_rows_exact [OF l d f]
  have len: "length leases = length ?chosen" using arg_cong [OF conjunct1 [OF exact], of length] by simp
  have later: "\<forall>n \<in> set ?chosen. \<forall>m \<in> set ?pool - set ?chosen. not_later n m" by (rule page_not_later)
  have sub: "set ?chosen \<subseteq> set ?pool" using set_take_subset [of "nat limit" ?all] all(1) by simp
  have size: "length ?chosen = min (nat limit) (length ?pool)" using all(2) by simp
  then have cap: "length leases \<le> 100" using len lim by simp
  have leased: "\<forall>i < length ?chosen. \<exists>wk. find_by nt_key (nt_key (?chosen ! i)) (w_notes db') =
      Some (lease_note wk (token_of i) (now + secs * 1000) now (?chosen ! i))"
    using conjunct1 [OF conjunct2 [OF exact]] unfolding db' by auto
  have rest: "\<forall>k. k \<notin> nt_key ` set ?chosen \<longrightarrow> find_by nt_key k (w_notes db') = find_by nt_key k ?swept"
    using conjunct2 [OF conjunct2 [OF exact]] unfolding db' by simp
  show ?thesis
    by (intro exI conjI, rule args(1), rule args(2), rule args(3), rule args(4), rule refl, rule sub, rule d, rule size,
      rule len, rule cap, rule later, rule leased, rule rest)
qed

theorem claim_leases_oldest_witness:
  "\<exists>leases. claim_notifications (\<lambda>_. ''tok'') 2000 (Some ''org'') ''w'' (JStr ''x'') 1 60 JNull JNull JNull None False
     (demo_n demo_note) = (Inr leases, demo_n demo_leased) \<and> length leases = 1"
proof -
  obtain v where v: "claim_notifications (\<lambda>_. ''tok'') 2000 (Some ''org'') ''w'' (JStr ''x'') 1 60 JNull JNull JNull None False
     (demo_n demo_note) = (Inr v, demo_n demo_leased)" using demo_claim_notification by blast
  have "length (claim_pool (demo_n demo_note) 2000 ''org'' ''w'' None None None [] False) = 1"
    by (simp add: claim_pool_def sweep_def demo_note_rows lease_expired_def matches_def claim_visible_def)
  with claim_leases_oldest [OF demo_note_run(1) v] v show ?thesis
    by (auto simp: optional_text_def demo_actor org_text_def actor_text_def)
qed

section \<open>Private results\<close>

definition owner_private :: "string \<Rightarrow> note_row \<Rightarrow> bool" where
  "owner_private actor n \<longleftrightarrow> nt_owner n = Some actor \<and> nt_type n = ''teams.message'' \<and>
     nt_connector n = Some ''teams-v1'' \<and> nt_recipient n = Some ''teams:owner-private''"

lemma private_fields_owner:
  "private_fields_of ntype payload conn recip task (Some ow) (Some po) = Inr pf \<Longrightarrow> pf_owner pf = Some (py_lower ow)"
  by (auto simp: private_fields_of_def resE Let_def split: if_splits)

lemma enqueue_private:
  assumes "enqueue_notification nid org ws dedup ''teams.message'' payload (Some ''teams-v1'') (Some ''teams:owner-private'')
    task available now (Some actor) (Some po) db = Inr ((v, dup), db')"
  shows "(dup \<and> db' = db) \<or> (\<not> dup \<and> (\<exists>n. w_notes db' = w_notes db @ [n] \<and> nt_key n = (org, ws, nid) \<and>
    owner_private (py_lower actor) n \<and> (\<forall>m \<in> set (w_notes db). nt_key m \<noteq> (org, ws, nid))))"
  using assms unfolding enqueue_notification_def
  by (auto simp: resE Let_def owner_private_def nt_clash_def nt_key_def dest!: private_fields_owner split: option.splits if_splits)

lemma annotate_private: "owner_private a n \<Longrightarrow> owner_private a (annotate k t now n)"
  by (simp add: owner_private_def annotate_def)

lemma queue_private_only_owner:
  assumes "queue_private_result nid org ws task now ps o' actor db = Inr db'" and "n \<in> set (w_notes db') - set (w_notes db)"
  shows "owner_private (py_lower actor) n"
proof -
  from queue_private_Inr [OF assms(1)] obtain dedup payload route v dup db1 where
    e: "enqueue_notification nid org ws dedup ''teams.message'' payload (Some ''teams-v1'')
      (Some ''teams:owner-private'') (Some (tk_id task)) now now (Some actor) (Some route) db = Inr ((v, dup), db1)"
    and db': "db' = db1 \<or> (\<not> dup \<and> (\<exists>t. db' = db1\<lparr>w_notes := map (annotate (org, ws, nid) t now) (w_notes db1)\<rparr>))" by blast
  from enqueue_private [OF e] show ?thesis
  proof (elim disjE conjE exE)
    assume "dup" "db1 = db"
    with db' assms(2) show ?thesis by auto
  next
    fix m assume m: "w_notes db1 = w_notes db @ [m]" "nt_key m = (org, ws, nid)" "owner_private (py_lower actor) m"
      and fresh: "\<forall>q \<in> set (w_notes db). nt_key q \<noteq> (org, ws, nid)"
    then have "map (annotate (org, ws, nid) t now) (w_notes db) = w_notes db" for t
      by (intro map_idI) (auto simp: annotate_def)
    with db' m assms(2) show ?thesis by (auto simp: annotate_private)
  qed
qed

lemma queue_owned_only_owner:
  assumes "queue_task_result_notification nid org ws task now ps db = Inr db'"
    and "find_by po_key (org, ws, tk_id task) (w_owners db) = Some owner" and "n \<in> set (w_notes db') - set (w_notes db)"
  shows "owner_private (py_lower (po_actor owner)) n"
  using queue_owned [OF assms(1,2)] assms(3)
  by (auto simp: append_hold_def resE append_keeps dest!: queue_private_only_owner)

lemma patch_Inr:
  assumes "patch_task nid now org ws tid patch actor p ps db = (Inr v, db')"
  shows "\<exists>db1. w_notes db1 = w_notes db \<and> w_owners db1 = w_owners db \<and> (db' = db1 \<or>
    (\<exists>terminal. tk_id terminal = tid \<and> queue_task_result_notification nid (org_text org) ws terminal now ps db1 = Inr db'))"
proof -
  let ?k = "(org_text org, ws, tid)"
  from assms obtain row' old new where t: "(if new \<noteq> old then
        bindE (append_event ?k (status_event old new) None now (db\<lparr>w_tasks := edit_by tk_key ?k (\<lambda>_. row') (w_tasks db)\<rparr>)) (\<lambda>(_, db2).
          if new \<in> terminal_task_states then
            bindE (require_task db2 ?k) (\<lambda>terminal. queue_task_result_notification nid (org_text org) ws terminal now ps db2)
          else Inr db2)
      else Inr (db\<lparr>w_tasks := edit_by tk_key ?k (\<lambda>_. row') (w_tasks db)\<rparr>)) = Inr db'"
    unfolding patch_task_def Let_def by (simp only: commit_Inr bindE_eq_Inr if_Inl_eq_Inr split_paired_Ex prod.case)
      (auto dest!: work_scope_key simp: work_identifier_Inr)
  show ?thesis
  proof (cases "new = old")
    case True
    with t show ?thesis by (intro exI [of _ db']) auto
  next
    case False
    with t obtain seq db2 where a: "append_event ?k (status_event old new) None now
        (db\<lparr>w_tasks := edit_by tk_key ?k (\<lambda>_. row') (w_tasks db)\<rparr>) = Inr (seq, db2)"
      and q: "(if new \<in> terminal_task_states then
            bindE (require_task db2 ?k) (\<lambda>terminal. queue_task_result_notification nid (org_text org) ws terminal now ps db2)
          else Inr db2) = Inr db'" by (auto simp: bindE_eq_Inr)
    from q have "db' = db2 \<or> (\<exists>terminal. tk_id terminal = tid \<and>
        queue_task_result_notification nid (org_text org) ws terminal now ps db2 = Inr db')"
      by (auto simp: resE find_task_def tk_key_def split: if_splits dest: find_by_SomeD)
    with append_keeps(3,4) [OF a] show ?thesis by (intro exI [of _ db2]) simp
  qed
qed

text \<open>
  C30. The result of a privately owned task reaches nobody but its owner: whatever a patch writes to the outbox, every
  new or changed notification is an owner-private one that names the owner, never a shared one.
\<close>

theorem private_result_only_to_owner:
  assumes "patch_task nid now org ws tid patch actor p ps db = (res, db')"
    and "find_by po_key (org_text org, ws, tid) (w_owners db) = Some owner"
    and "n \<in> set (w_notes db') - set (w_notes db)"
  shows "owner_private (py_lower (po_actor owner)) n"
proof (cases res)
  case (Inl e)
  with assms(1,3) show ?thesis by (simp add: patch_task_def resE)
next
  case (Inr v)
  from patch_Inr [OF assms(1) [unfolded Inr]] obtain db1 where db1: "w_notes db1 = w_notes db" "w_owners db1 = w_owners db"
    and q: "db' = db1 \<or> (\<exists>terminal. tk_id terminal = tid \<and>
      queue_task_result_notification nid (org_text org) ws terminal now ps db1 = Inr db')" by blast
  from q show ?thesis
  proof (elim disjE exE conjE)
    fix terminal assume "tk_id terminal = tid"
      and "queue_task_result_notification nid (org_text org) ws terminal now ps db1 = Inr db'"
    then show ?thesis using queue_owned_only_owner [of nid "org_text org" ws terminal now ps db1 db' owner n] assms(2,3) db1 by simp
  qed (use assms(3) db1 in simp)
qed

text \<open>A failed task of a Teams user, whose result is held for its owner.\<close>

definition demo_uuid :: string where
  "demo_uuid = ''00000000-0000-0000-0000-00000000000a''"

definition demo_teams :: wdb where
  "demo_teams = empty_wdb\<lparr>w_tasks := [demo_running\<lparr>tk_creator := demo_uuid\<rparr>],
     w_owners := [demo_owner\<lparr>po_actor := demo_uuid\<rparr>],
     w_origins := [\<lparr>to_org = ''org'', to_ws = ''w'', to_task = ''t'', to_actor = demo_uuid, to_issuer = ''i'',
       to_subject = demo_uuid, to_tenant = demo_uuid, to_connector = ''teams-v1'', to_thread = ''x'', to_message = ''m'',
       to_kind = ''channel'', to_bot = None, to_created_at = 1000\<rparr>]\<rparr>"

lemma demo_uuid_ok: "canonical_uuid (JStr demo_uuid) = Inr demo_uuid" "py_lower demo_uuid = demo_uuid"
  "work_identifier demo_uuid = Inr demo_uuid"
proof -
  show l: "py_lower demo_uuid = demo_uuid" by (simp add: demo_uuid_def py_lower_def py_lower_char_def)
  have "is_uuid_text demo_uuid" by code_simp
  with l show "canonical_uuid (JStr demo_uuid) = Inr demo_uuid" by (simp add: canonical_uuid_def)
  show "work_identifier demo_uuid = Inr demo_uuid"
    by (simp add: demo_uuid_def work_identifier_def py_strip_def py_space_def is_ctrl_def)
qed

definition demo_fail :: json_object where
  "demo_fail = [(''status'', JStr ''failed'')]"

lemma demo_teams_access: "require_teams_task_actor demo_teams (''org'', ''w'', ''t'') (Some demo_uuid) True = Inr True"
  by (simp add: require_teams_task_actor_def demo_teams_def find_task_def find_by_Cons demo_rows tk_key_def is_chat_task_def
    demo_chat same_actor_def demo_owner_def po_key_def to_key_def demo_uuid_ok)

lemma demo_teams_fields:
  "private_fields_of ''teams.message'' payload (Some ''teams-v1'') (Some ''teams:owner-private'') (Some ''t'') (Some demo_uuid)
     (Some [(''taskId'', JStr ''t''), (''tenantId'', JStr demo_uuid), (''actorAadObjectId'', JStr demo_uuid)]) =
   Inr \<lparr>pf_owner = Some demo_uuid, pf_task = Some ''t'', pf_tenant = Some demo_uuid, pf_aad = Some demo_uuid, pf_bot = None\<rparr>"
  by (simp add: private_fields_of_def private_task_notice_def private_health_notice_def keys_are_def dget_def demo_uuid_ok
    work_identifier_of_def demo_idents Let_def)

lemma demo_teams_enqueue:
  assumes "w_notes db = []"
  shows "\<exists>v n. enqueue_notification ''n'' ''org'' ''w'' dedup ''teams.message''
      [(''text'', JStr a), (''taskId'', JStr ''t''), (''status'', JStr b)] (Some ''teams-v1'') (Some ''teams:owner-private'')
      (Some ''t'') 9000 9000 (Some demo_uuid)
      (Some [(''taskId'', JStr ''t''), (''tenantId'', JStr demo_uuid), (''actorAadObjectId'', JStr demo_uuid)]) db =
    Inr ((v, False), db\<lparr>w_notes := [n]\<rparr>)"
proof -
  let ?p = "JDict [(''text'', JStr a), (''taskId'', JStr ''t''), (''status'', JStr b)]"
  have p: "jok ?p" "jwf ?p" by simp_all
  obtain d where d: "stored_object (render (canon ?p)) = Inr d" using stored_object_text [OF text_ok [OF p(1)] p(2)] by blast
  show ?thesis
    using d by (simp add: enqueue_notification_def notification_request_digest_def digest_ok demo_teams_fields
      private_fields_json_def assms text_ok [OF p(1)] insert_with_def notification_view_def empty_object Let_def
      del: render.simps canon.simps) blast
qed

definition demo_failed :: task_row where
  "demo_failed = demo_running\<lparr>tk_creator := demo_uuid, tk_status := ''failed'', tk_ended_at := Some 9000, tk_duration := 7000\<rparr>"

lemma demo_fail_row:
  "patch_row demo_fail 9000 ''failed'' (demo_running\<lparr>tk_creator := demo_uuid\<rparr>) = Inr demo_failed"
  "patch_status ''running'' (JStr ''failed'') = Inr ''failed''"
  by (simp_all add: patch_row_def patch_text_def demo_fail_def dhas_def patch_times_def terminal_task_states_def Let_def
    text_or_def opt_or_def demo_rows demo_failed_def patch_status_def task_transitions_def)

lemma demo_fail_event: "work_json_object (JDict (status_event ''running'' ''failed'')) = Inr (status_event ''running'' ''failed'')"
  by (simp add: work_json_object_def status_event_def work_json_text_def json_text_def utf8_def utf8_char_def
    MAX_JSON_BYTES_def quote_def esc_char_def)

definition demo_teams2 :: wdb where
  "demo_teams2 = demo_teams\<lparr>w_tasks := [demo_failed\<lparr>tk_sequence := 3\<rparr>],
     w_events := [demo_event_row 3 (status_event ''running'' ''failed'') 9000]\<rparr>"

lemma demo_teams_queue:
  "\<exists>n. queue_task_result_notification ''n'' ''org'' ''w'' (demo_failed\<lparr>tk_sequence := 3\<rparr>) 9000 None demo_teams2 =
     Inr (demo_teams2\<lparr>w_notes := [n]\<rparr>)"
proof -
  let ?t = "demo_failed\<lparr>tk_sequence := 3\<rparr>"
  have empty: "w_notes demo_teams2 = []" by (simp add: demo_teams2_def demo_teams_def empty_wdb_def)
  have t: "tk_metadata ?t = ''{}''" "tk_id ?t = ''t''" "tk_creator ?t = demo_uuid" "tk_status ?t = ''failed''"
    by (simp_all add: demo_failed_def demo_rows)
  obtain v n where e: "enqueue_notification ''n'' ''org'' ''w'' (''task-result-private:'' @ ''t'' @ '':'' @ ''failed'') ''teams.message''
      [(''text'', JStr (task_result_text ?t)), (''taskId'', JStr ''t''), (''status'', JStr ''failed'')] (Some ''teams-v1'')
      (Some ''teams:owner-private'') (Some ''t'') 9000 9000 (Some demo_uuid)
      (Some [(''taskId'', JStr ''t''), (''tenantId'', JStr demo_uuid), (''actorAadObjectId'', JStr demo_uuid)]) demo_teams2 =
    Inr ((v, False), demo_teams2\<lparr>w_notes := [n]\<rparr>)"
    using demo_teams_enqueue [OF empty] by blast
  let ?o = "hd (w_origins demo_teams)"
  have o: "to_tenant ?o = demo_uuid" "to_subject ?o = demo_uuid" "to_actor ?o = demo_uuid" "to_connector ?o = ''teams-v1''"
    "find_by to_key (''org'', ''w'', ''t'') (w_origins demo_teams2) = Some ?o"
    "find_by po_key (''org'', ''w'', ''t'') (w_owners demo_teams2) = Some (demo_owner\<lparr>po_actor := demo_uuid\<rparr>)"
    by (simp_all add: demo_teams2_def demo_teams_def find_by_Cons to_key_def demo_owner_def po_key_def)
  have h: "hold_code db org ws None o' a = Some ''WORK_TEAMS_PRIVATE_POLICY_NOT_CONFIGURED''" for db org ws o' a
    by (simp add: hold_code_def policy_allows_def)
  obtain n' where "queue_private_result ''n'' ''org'' ''w'' ?t 9000 None ?o demo_uuid demo_teams2 = Inr (demo_teams2\<lparr>w_notes := [n']\<rparr>)"
    unfolding queue_private_result_def Let_def t o policy_allows_def
    using e by (auto simp: h text_ok simp del: append_Cons append_Nil)
  then show ?thesis by (auto simp: queue_task_result_notification_def t o empty_object demo_uuid_ok Let_def)
qed

lemma demo_teams_patch:
  "\<exists>v n. patch_task ''n'' 9000 (Some ''org'') ''w'' ''t'' demo_fail (Some demo_uuid) True None demo_teams =
     (Inr v, demo_teams2\<lparr>w_notes := [n]\<rparr>)"
proof -
  obtain n where n: "queue_task_result_notification ''n'' ''org'' ''w'' (demo_failed\<lparr>tk_sequence := 3\<rparr>) 9000 None demo_teams2 =
     Inr (demo_teams2\<lparr>w_notes := [n]\<rparr>)" using demo_teams_queue by blast
  have f: "find_task demo_teams (''org'', ''w'', ''t'') = Some (demo_running\<lparr>tk_creator := demo_uuid\<rparr>)"
    "find_task demo_teams2 (''org'', ''w'', ''t'') = Some (demo_failed\<lparr>tk_sequence := 3\<rparr>)"
    "find_task (demo_teams2\<lparr>w_notes := [n]\<rparr>) (''org'', ''w'', ''t'') = Some (demo_failed\<lparr>tk_sequence := 3\<rparr>)"
    by (simp_all add: demo_teams_def demo_teams2_def find_task_def find_by_Cons demo_failed_def demo_rows tk_key_def)
  have a: "append_event (''org'', ''w'', ''t'') (status_event ''running'' ''failed'') None 9000
      (demo_teams\<lparr>w_tasks := edit_by tk_key (''org'', ''w'', ''t'') (\<lambda>_. demo_failed) (w_tasks demo_teams)\<rparr>) = Inr (3, demo_teams2)"
    by (subst demo_append_event [where task = demo_failed, OF demo_fail_event])
      (simp_all add: demo_teams_def demo_teams2_def demo_failed_def demo_rows tk_key_def edit_by_def)
  have st: "tk_status (demo_running\<lparr>tk_creator := demo_uuid\<rparr>) = ''running''" by (simp add: demo_running_def)
  have g: "dget_or demo_fail ''status'' (JStr ''running'') = JStr ''failed''" "fst ` set demo_fail \<subseteq> set patch_fields" "demo_fail \<noteq> []"
    by (simp_all add: demo_fail_def dget_or_def dhas_def dget_def patch_fields_def)
  obtain v where v: "task_view (demo_teams2\<lparr>w_notes := [n]\<rparr>) (demo_failed\<lparr>tk_sequence := 3\<rparr>) = Inr v"
    by (auto simp: task_view_def empty_object demo_failed_def demo_rows Let_def)
  show ?thesis
    using v by (simp add: patch_task_def demo_scope demo_idents actor_of_def demo_uuid_ok demo_teams_access require_task_def f g st
      demo_fail_row a n terminal_task_states_def Let_def) blast
qed

theorem private_result_only_to_owner_witness:
  "\<exists>v n. patch_task ''n'' 9000 (Some ''org'') ''w'' ''t'' demo_fail (Some demo_uuid) True None demo_teams =
     (Inr v, demo_teams2\<lparr>w_notes := [n]\<rparr>) \<and> owner_private demo_uuid n"
proof -
  obtain v n where run: "patch_task ''n'' 9000 (Some ''org'') ''w'' ''t'' demo_fail (Some demo_uuid) True None demo_teams =
     (Inr v, demo_teams2\<lparr>w_notes := [n]\<rparr>)" using demo_teams_patch by blast
  have o: "find_by po_key (org_text (Some ''org''), ''w'', ''t'') (w_owners demo_teams) = Some (demo_owner\<lparr>po_actor := demo_uuid\<rparr>)"
    by (simp add: org_text_def demo_teams_def find_by_Cons demo_owner_def po_key_def)
  have "n \<in> set (w_notes (demo_teams2\<lparr>w_notes := [n]\<rparr>)) - set (w_notes demo_teams)" by (simp add: demo_teams_def empty_wdb_def)
  from private_result_only_to_owner [OF run o this] run show ?thesis by (auto simp: demo_uuid_ok)
qed

end
