(* ===== verification/Work_Guard.thy ===== *)
theory Work_Guard
  imports Work_Props
begin

text \<open>
  The properties of the Work store's guards: a private task is hidden from every other actor, provenance never
  changes, admission is idempotent, what a human submits is filtered at every depth, and a result message has a
  bounded length.
\<close>

section \<open>Private tasks\<close>

lemma same_actor_lower [simp]: "same_actor a (Some (py_lower b)) = same_actor a (Some b)"
  by (simp add: same_actor_def)



lemma actor_of_Some [resE]: "actor_of (Some s) = Inr a \<longleftrightarrow> a = Some (py_lower s) \<and> work_identifier s = Inr s"
  by (auto simp: actor_of_def resE)




text \<open>
  C32. Provenance is written once: along any run the private owner of a task, its Teams origin and every native session
  binding stay exactly as they were first recorded.
\<close>

theorem provenance_immutable:
  assumes "wstep\<^sup>*\<^sup>* empty_wdb db" and "wstep\<^sup>*\<^sup>* db db'"
  shows "(find_by po_key k (w_owners db) = Some owner \<longrightarrow> find_by po_key k (w_owners db') = Some owner) \<and>
    (find_by to_key k (w_origins db) = Some origin \<longrightarrow> find_by to_key k (w_origins db') = Some origin) \<and>
    (find_by bs_key b (w_backend db) = Some shared \<longrightarrow> find_by bs_key b (w_backend db') = Some shared) \<and>
    (find_by bs_key b (w_actor_backend db) = Some own \<longrightarrow> find_by bs_key b (w_actor_backend db') = Some own)"
proof -
  have keep: "find_by key i t' = Some r" if "table_ext (=) t t'" and "find_by key i t = Some r" for key i t t' r
    using table_ext_find [OF that(1) _ that(2)] by metis
  from run_grows [OF assms] have "table_ext (=) (w_owners db) (w_owners db')" "table_ext (=) (w_origins db) (w_origins db')"
    "table_ext (=) (w_backend db) (w_backend db')" "table_ext (=) (w_actor_backend db) (w_actor_backend db')"
    by (simp_all add: wgrows_def)
  then show ?thesis by (intro conjI impI) (rule keep; assumption)+
qed

theorem provenance_immutable_witness: "find_by po_key (''org'', ''w'', ''t'') (w_owners (demo_own demo_w2)) = Some demo_owner"
proof -
  have "wstep (demo_own demo_w1) (demo_own demo_w2)" using demo_own_claim by (auto intro: wt_claim)
  moreover have "find_by po_key (''org'', ''w'', ''t'') (w_owners (demo_own demo_w1)) = Some demo_owner"
    by (simp add: demo_own_def find_by_Cons demo_owner_def po_key_def)
  ultimately show ?thesis using provenance_immutable [OF demo_own_run(1) r_into_rtranclp [of wstep]] by blast
qed

section \<open>The length of a result message\<close>

lemma length_suffix_of: "length (suffix_of n s) = min n (length s)"
  by (simp add: suffix_of_def)

lemma failed_bounded: "length (failed_result_text e out) \<le> RESULT_MAX"
proof -
  have c: "RESULT_MAX = 20000" "length truncation_mark = 38" "length result_separator = 2"
    by (simp_all add: RESULT_MAX_def truncation_mark_def result_separator_def)
  show ?thesis
    unfolding failed_result_text_def Let_def by (simp add: c length_suffix_of)
qed

text \<open>
  The text of a task result is at most 20000 characters long, for every status, output and error.
\<close>

theorem result_text_bounded: "length (task_result_text task) \<le> 20000"
  using failed_bounded [unfolded RESULT_MAX_def]
  by (simp add: task_result_text_def RESULT_MAX_def Let_def)

section \<open>What a human may submit\<close>

text \<open>The values inside a JSON value, with the depth they stand at.\<close>

inductive json_at :: "json \<Rightarrow> nat \<Rightarrow> json \<Rightarrow> bool" where
  here: "json_at v 0 v"
| element: "x \<in> set l \<Longrightarrow> json_at x n w \<Longrightarrow> json_at (JList l) (Suc n) w"
| field: "(k, x) \<in> set d \<Longrightarrow> json_at x n w \<Longrightarrow> json_at (JDict d) (Suc n) w"

inductive_simps json_at_parts:
  "json_at JNull n w" "json_at (JBool b) n w" "json_at (JInt i) n w" "json_at (JFloat f) n w" "json_at (JStr s) n w"
  "json_at (JList l) n w" "json_at (JDict d) n w"

definition fields_ok :: "bool \<Rightarrow> json \<Rightarrow> bool" where
  "fields_ok is_answer w \<longleftrightarrow> (case w of
     JDict d \<Rightarrow> (\<forall>(k, c) \<in> set d. \<not> is_sensitive k \<and>
       (is_answer \<and> k = ''text'' \<longrightarrow> (case c of JStr s \<Rightarrow> length s \<le> 4000 | _ \<Rightarrow> False)))
   | _ \<Rightarrow> True)"

definition human_ok :: "bool \<Rightarrow> nat \<Rightarrow> json \<Rightarrow> bool" where
  "human_ok is_answer depth v \<longleftrightarrow> (\<forall>n w. json_at v n w \<longrightarrow> depth + n \<le> 16 \<and> fields_ok is_answer w)"

lemma human_okD: "human_ok is_answer depth v \<Longrightarrow> json_at v n w \<Longrightarrow> depth + n \<le> 16 \<and> fields_ok is_answer w"
  by (simp add: human_ok_def)

lemma human_ok_here: "human_ok is_answer depth v \<Longrightarrow> depth \<le> 16 \<and> fields_ok is_answer v"
  by (drule human_okD [OF _ here]) simp

lemma human_ok_list:
  "human_ok is_answer depth (JList l) \<longleftrightarrow> depth \<le> 16 \<and> (\<forall>x \<in> set l. human_ok is_answer (Suc depth) x)"
proof (intro iffI conjI ballI)
  assume ok: "human_ok is_answer depth (JList l)"
  then show "depth \<le> 16" by (simp add: human_ok_here)
  fix x assume "x \<in> set l"
  then show "human_ok is_answer (Suc depth) x"
    unfolding human_ok_def using human_okD [OF ok element] by fastforce
next
  assume "depth \<le> 16 \<and> (\<forall>x \<in> set l. human_ok is_answer (Suc depth) x)"
  then show "human_ok is_answer depth (JList l)"
    unfolding human_ok_def [of _ depth] json_at_parts by (auto simp: fields_ok_def dest!: human_okD)
qed

lemma human_ok_dict:
  "human_ok is_answer depth (JDict d) \<longleftrightarrow>
   depth \<le> 16 \<and> fields_ok is_answer (JDict d) \<and> (\<forall>(k, x) \<in> set d. human_ok is_answer (Suc depth) x)"
proof (intro iffI conjI ballI)
  assume ok: "human_ok is_answer depth (JDict d)"
  then show "depth \<le> 16" "fields_ok is_answer (JDict d)" by (simp_all add: human_ok_here)
  fix kx assume "kx \<in> set d"
  then show "case kx of (k, x) \<Rightarrow> human_ok is_answer (Suc depth) x"
    unfolding human_ok_def using human_okD [OF ok field] by fastforce
next
  assume "depth \<le> 16 \<and> fields_ok is_answer (JDict d) \<and> (\<forall>(k, x) \<in> set d. human_ok is_answer (Suc depth) x)"
  then show "human_ok is_answer depth (JDict d)"
    unfolding human_ok_def [of _ depth] json_at_parts by (auto dest!: human_okD bspec)
qed

lemma human_ok_scalar:
  "human_ok is_answer depth JNull \<longleftrightarrow> depth \<le> 16" "human_ok is_answer depth (JBool b) \<longleftrightarrow> depth \<le> 16"
  "human_ok is_answer depth (JInt i) \<longleftrightarrow> depth \<le> 16" "human_ok is_answer depth (JFloat f) \<longleftrightarrow> depth \<le> 16"
  "human_ok is_answer depth (JStr s) \<longleftrightarrow> depth \<le> 16"
  by (simp_all add: human_ok_def json_at_parts fields_ok_def)

lemmas human_ok_parts = human_ok_list human_ok_dict human_ok_scalar

lemma validate_human_iff:
  "validate_human is_answer depth v = Inr () \<longleftrightarrow> human_ok is_answer depth v"
  "validate_human_list is_answer depth l = Inr () \<longleftrightarrow> (\<forall>x \<in> set l. human_ok is_answer depth x)"
  "validate_human_items is_answer depth d = Inr () \<longleftrightarrow>
     fields_ok is_answer (JDict d) \<and> (\<forall>(k, x) \<in> set d. human_ok is_answer depth x)"
proof (induction is_answer depth v and is_answer depth l and is_answer depth d
    rule: validate_human_validate_human_list_validate_human_items.induct)
  case (11 is_answer depth k v kvs)
  have "check_answer_text is_answer k v = Inr () \<longleftrightarrow>
      (is_answer \<and> k = ''text'' \<longrightarrow> (case v of JStr s \<Rightarrow> length s \<le> 4000 | _ \<Rightarrow> False))"
    by (auto simp: check_answer_text_def split: json.splits)
  with 11 show ?case by (auto simp: resE fields_ok_def)
qed (auto simp: human_ok_parts resE fields_ok_def)

text \<open>
  C34. The recursive filter on human input is the declarative rule: a body is accepted exactly when it is a JSON object
  that encodes within the size limit, nothing in it is nested deeper than 16 levels, no object at any depth has a field
  whose normalized name is that of a credential, and in an answer every \<open>text\<close> field is a string of at most 4000 characters.
\<close>

theorem human_input_filter:
  "human_input_object v is_answer = Inr d \<longleftrightarrow> work_json_object v = Inr d \<and>
    (\<forall>n w. json_at (JDict d) n w \<longrightarrow> n \<le> 16 \<and> fields_ok is_answer w)"
  by (auto simp: human_input_object_def resE validate_human_iff human_ok_def simp del: validate_human.simps)

theorem human_input_filter_witness:
  "human_input_object (JDict demo_answer) True = Inr demo_answer \<and> fields_ok True (JDict demo_answer)"
  using human_input_filter [of "JDict demo_answer" True demo_answer] demo_human(1) here [of "JDict demo_answer"] by blast

section \<open>Admission is idempotent\<close>

text \<open>The part of \<open>create_task\<close> that looks at the arguments only.\<close>

definition admission ::
  "string \<Rightarrow> string option \<Rightarrow> string \<Rightarrow> json_object \<Rightarrow> string option \<Rightarrow> task_key \<Rightarrow> string \<Rightarrow> string \<Rightarrow> bool" where
  "admission fresh org ws body actor k creator digest \<longleftrightarrow>
    (\<exists>o' w tid session prompt cls title description metadata. k = (o', w, tid) \<and> work_scope org ws = Inr (o', w) \<and>
      task_head fresh body = Inr (tid, session, prompt) \<and> execution_class_of body = Inr cls \<and>
      task_body body = Inr (title, description, metadata) \<and> creator_of actor = Inr creator \<and>
      work_digest (JDict (creation_fields session prompt title description metadata @
        [(''executionClass'', JStr cls), (''createdByActorId'', JStr creator)])) = Inr digest)"

lemma admission_fresh:
  assumes "admission fresh org ws body actor k creator digest" and "jtruthy (dget body ''id'')"
    and "admission fresh' org ws body actor k' creator' digest'"
  shows "k' = k \<and> creator' = creator \<and> digest' = digest"
proof -
  have "task_head fresh' body = task_head fresh body" using assms(2) by (simp add: task_head_def)
  with assms(1,3) show ?thesis by (auto simp: admission_def)
qed

lemma owner_recorded:
  assumes "record_owner_if p t k creator db = Inr db'"
  shows "w_tasks db' = w_tasks db \<and> (p \<longrightarrow> (\<exists>o'. find_by po_key k (w_owners db') = Some o' \<and> po_actor o' = py_lower creator))"
  using assms
  by (cases k) (auto simp: record_owner_if_def record_private_task_owner_def resE insert_by_def find_by_append find_by_Cons po_key_def
    split: if_splits option.splits)

lemma create_task_new:
  assumes "create_task fresh now t2 org ws body actor p db = (Inr (v, False), db1)"
  obtains k creator digest r where "admission fresh org ws body actor k creator digest"
    and "find_task db1 k = Some r" and "tk_digest r = digest"
    and "p \<longrightarrow> (\<exists>o'. find_by po_key k (w_owners db1) = Some o' \<and> po_actor o' = py_lower creator)"
proof -
  from assms obtain o' w tid session prompt cls title description metadata creator digest mtext ts seq db' where
    s: "work_scope org ws = Inr (o', w)" and h: "task_head fresh body = Inr (tid, session, prompt)"
    and c: "execution_class_of body = Inr cls" and b: "task_body body = Inr (title, description, metadata)"
    and cr: "creator_of actor = Inr creator"
    and d: "work_digest (JDict (creation_fields session prompt title description metadata @
        [(''executionClass'', JStr cls), (''createdByActorId'', JStr creator)])) = Inr digest"
    and new: "insert_by tk_key ((new_task o' w tid session prompt now)\<lparr>tk_title := title,
              tk_description := description, tk_metadata := mtext, tk_digest := digest, tk_creator := creator,
              tk_class := cls\<rparr>) (w_tasks db) = Inr ts"
    and ev: "append_event (o', w, tid) created_event None now (db\<lparr>w_tasks := ts\<rparr>) = Inr (seq, db')"
    and own: "record_owner_if p t2 (o', w, tid) creator db' = Inr db1"
    unfolding create_task_def Let_def
    by (auto simp: resE split: option.splits if_splits)
  let ?k = "(o', w, tid)" and ?r = "(new_task o' w tid session prompt now)\<lparr>tk_title := title,
              tk_description := description, tk_metadata := mtext, tk_digest := digest, tk_creator := creator, tk_class := cls\<rparr>"
  have "tk_key ?r = ?k" "tk_digest ?r = digest" by (simp_all add: tk_key_def new_task_def)
  with new have "\<exists>r. find_task (db\<lparr>w_tasks := ts\<rparr>) ?k = Some r \<and> tk_digest r = digest"
    unfolding insert_by_eq_Inr by (auto simp: find_task_def find_by_append find_by_Cons)
  then have "\<exists>r. find_task db' ?k = Some r \<and> tk_digest r = digest" using append_keeps(1) [OF ev, of ?k] by auto
  then have "\<exists>r. find_task db1 ?k = Some r \<and> tk_digest r = digest" using owner_recorded [OF own] by (simp add: find_task_def)
  moreover have "admission fresh org ws body actor ?k creator digest"
    unfolding admission_def using s h c b cr d by blast
  ultimately show thesis using owner_recorded [OF own] that by blast
qed

lemma create_task_known:
  assumes "create_task fresh now t2 org ws body actor p db = (res, db')" and "find_task db k = Some r"
    and "\<And>k' creator digest. admission fresh org ws body actor k' creator digest \<Longrightarrow> k' = k \<and> tk_digest r = digest \<and>
      (p \<longrightarrow> (\<exists>o'. find_by po_key k (w_owners db) = Some o' \<and> po_actor o' = py_lower creator))"
  shows "db' = db \<and> (\<forall>v. res \<noteq> Inr (v, False))"
proof (cases res)
  case (Inl e)
  with assms(1) show ?thesis by (simp add: create_task_def resE)
next
  case (Inr x)
  from assms(1) Inr obtain o' w tid session prompt cls title description metadata creator digest prior legacy where
    s: "work_scope org ws = Inr (o', w)" and h: "task_head fresh body = Inr (tid, session, prompt)"
    and c: "execution_class_of body = Inr cls" and b: "task_body body = Inr (title, description, metadata)"
    and cr: "creator_of actor = Inr creator"
    and d: "work_digest (JDict (creation_fields session prompt title description metadata @
        [(''executionClass'', JStr cls), (''createdByActorId'', JStr creator)])) = Inr digest"
    unfolding create_task_def Let_def by (simp only: commit_Inr bindE_eq_Inr split_paired_Ex prod.case) blast
  then have "admission fresh org ws body actor (o', w, tid) creator digest" unfolding admission_def by blast
  with assms(3) have k: "(o', w, tid) = k" and r: "tk_digest r = digest"
    and o: "p \<Longrightarrow> \<exists>o'. find_by po_key k (w_owners db) = Some o' \<and> po_actor o' = py_lower creator" by blast+
  have same: "record_owner_if p t2 k creator db = Inr db1 \<Longrightarrow> db1 = db" for db1
    using o k by (cases p) (auto simp: record_owner_if_def record_private_task_owner_def resE)
  from assms(1) Inr s h c b cr d assms(2) r k show ?thesis
    unfolding create_task_def Let_def by (auto simp: resE dest!: same [unfolded k [symmetric]])
qed

text \<open>
  Creating a task is idempotent: after a body with an id was accepted, sending it again in any later state creates
  nothing and changes nothing, whatever happened to the task in between; the call reports a duplicate or an error, never
  a second creation.
\<close>

theorem create_task_idempotent:
  assumes "wstep\<^sup>*\<^sup>* empty_wdb db" and "create_task fresh now t2 org ws body actor p db = (Inr (v, False), db1)"
    and "wstep\<^sup>*\<^sup>* db1 db2" and "jtruthy (dget body ''id'')"
    and "create_task fresh' now' t2' org ws body actor p db2 = (res, db3)"
  shows "db3 = db2 \<and> (\<forall>v. res \<noteq> Inr (v, False))"
proof -
  obtain k creator digest r where adm: "admission fresh org ws body actor k creator digest"
    and r: "find_task db1 k = Some r" "tk_digest r = digest"
    and o: "p \<longrightarrow> (\<exists>o'. find_by po_key k (w_owners db1) = Some o' \<and> po_actor o' = py_lower creator)"
    by (rule create_task_new [OF assms(2)])
  have reach: "wstep\<^sup>*\<^sup>* empty_wdb db1" using assms(1) wt_create [OF assms(2)] by simp
  note g = run_grows [OF reach assms(3)]
  from grows_task [OF g r(1)] r(2) obtain r2 where r2: "find_task db2 k = Some r2" "tk_digest r2 = digest"
    by (auto simp: task_le_def same_task_def)
  have ext: "table_ext (=) (w_owners db1) (w_owners db2)" using g by (simp add: wgrows_def)
  have "find_by po_key k (w_owners db2) = Some q" if "find_by po_key k (w_owners db1) = Some q" for q
    by (rule table_ext_find [OF ext _ that]) auto
  with o have o2: "p \<longrightarrow> (\<exists>o'. find_by po_key k (w_owners db2) = Some o' \<and> po_actor o' = py_lower creator)" by blast
  show ?thesis
  proof (rule create_task_known [OF assms(5) r2(1)])
    fix k' creator' digest' assume "admission fresh' org ws body actor k' creator' digest'"
    from admission_fresh [OF adm assms(4) this] r2(2) o2
    show "k' = k \<and> tk_digest r2 = digest' \<and>
      (p \<longrightarrow> (\<exists>o'. find_by po_key k (w_owners db2) = Some o' \<and> po_actor o' = py_lower creator'))" by simp
  qed
qed

theorem create_task_idempotent_witness:
  "snd (create_task ''f2'' 5000 5000 (Some ''org'') ''w'' demo_body (Some ''alice'') False demo_w4) = demo_w4"
proof -
  obtain v where v: "create_task ''f'' 1000 1000 (Some ''org'') ''w'' demo_body (Some ''alice'') False empty_wdb = (Inr (v, False), demo_w1)"
    using demo_create_task by blast
  have later: "wstep\<^sup>*\<^sup>* demo_w1 demo_w4"
    using demo_run(2-4) by (meson converse_rtranclp_into_rtranclp rtranclp.rtrancl_refl)
  have id: "jtruthy (dget demo_body ''id'')" by (simp add: demo_body_def dget_def jtruthy_def)
  from create_task_idempotent [OF rtranclp.rtrancl_refl v later id prod.collapse [symmetric]] show ?thesis by blast
qed

end
