(* ===== verification/Memory_Store.thy ===== *)
theory Memory_Store
  imports Work_Base
begin

text \<open>
  Memory facts and source inventories of the Work store (\<open>work/store.py\<close>, \<open>upsert_memory_fact\<close> to
  \<open>list_source_facts\<close>). An inventory of a source arrives page by page; its facts are staged and replace
  the source's snapshot only when the final page is accepted. The tables are disjoint from those of the
  task components, so they form a state of their own. Clock readings and generated fact ids are arguments;
  where one call reads the clock several times it has one argument per reading.
\<close>

section \<open>Tables\<close>

type_synonym source_key = "string \<times> string \<times> string"

text \<open>
  \<open>m_facts\<close> is \<open>work_memory_facts\<close>, whose rows have no actor (\<open>mf_actor\<close> is empty there), and \<open>m_private\<close> is
  \<open>work_private_memory_facts\<close>.
\<close>

record fact_row =
  mf_org :: string
  mf_ws :: string
  mf_actor :: string
  mf_id :: string
  mf_ns :: string
  mf_key :: string
  mf_value :: string
  mf_source :: "string option"
  mf_observed :: int
  mf_fresh :: "int option"
  mf_updated :: int

record source_row =
  so_org :: string
  so_ws :: string
  so_id :: string
  so_status :: string
  so_complete_at :: "int option"
  so_updated :: int

record run_row =
  sr_org :: string
  sr_ws :: string
  sr_source :: string
  sr_inventory :: string
  sr_status :: string
  sr_expected :: string
  sr_pages :: int
  sr_items :: int
  sr_started :: int
  sr_completed :: "int option"

record page_row =
  pg_org :: string
  pg_ws :: string
  pg_source :: string
  pg_inventory :: string
  pg_token :: string
  pg_next :: "string option"
  pg_complete :: bool
  pg_successful :: bool
  pg_digest :: string
  pg_accepted :: int

record staging_row =
  st_org :: string
  st_ws :: string
  st_source :: string
  st_inventory :: string
  st_key :: string
  st_value :: string
  st_observed :: int

record source_fact_row =
  sf_org :: string
  sf_ws :: string
  sf_source :: string
  sf_key :: string
  sf_value :: string
  sf_observed :: int
  sf_inventory :: string
  sf_missing :: "int option"

record mdb =
  m_facts :: "fact_row list"
  m_private :: "fact_row list"
  m_sources :: "source_row list"
  m_runs :: "run_row list"
  m_pages :: "page_row list"
  m_staging :: "staging_row list"
  m_source_facts :: "source_fact_row list"

definition empty_mdb :: mdb where
  "empty_mdb = \<lparr>m_facts = [], m_private = [], m_sources = [], m_runs = [], m_pages = [], m_staging = [],
     m_source_facts = []\<rparr>"

definition mf_slot :: "fact_row \<Rightarrow> string \<times> string \<times> string \<times> string \<times> string" where
  "mf_slot r = (mf_org r, mf_ws r, mf_actor r, mf_ns r, mf_key r)"

definition mf_ident :: "fact_row \<Rightarrow> string \<times> string \<times> string \<times> string" where
  "mf_ident r = (mf_org r, mf_ws r, mf_actor r, mf_id r)"

definition so_key :: "source_row \<Rightarrow> source_key" where
  "so_key r = (so_org r, so_ws r, so_id r)"

definition sr_src :: "run_row \<Rightarrow> source_key" where
  "sr_src r = (sr_org r, sr_ws r, sr_source r)"

definition run_key :: "run_row \<Rightarrow> source_key \<times> string" where
  "run_key r = (sr_src r, sr_inventory r)"

definition pg_run :: "page_row \<Rightarrow> source_key \<times> string" where
  "pg_run r = ((pg_org r, pg_ws r, pg_source r), pg_inventory r)"

definition page_key :: "page_row \<Rightarrow> (source_key \<times> string) \<times> string" where
  "page_key r = (pg_run r, pg_token r)"

definition st_run :: "staging_row \<Rightarrow> source_key \<times> string" where
  "st_run r = ((st_org r, st_ws r, st_source r), st_inventory r)"

definition stage_key :: "staging_row \<Rightarrow> (source_key \<times> string) \<times> string" where
  "stage_key r = (st_run r, st_key r)"

definition sf_src :: "source_fact_row \<Rightarrow> source_key" where
  "sf_src r = (sf_org r, sf_ws r, sf_source r)"

definition sf_ident :: "source_fact_row \<Rightarrow> source_key \<times> string" where
  "sf_ident r = (sf_src r, sf_key r)"

section \<open>Views\<close>

record fact_view =
  fv_id :: string
  fv_ns :: string
  fv_key :: string
  fv_value :: json_object
  fv_source :: "string option"
  fv_observed :: int
  fv_fresh :: "int option"
  fv_missing :: bool
  fv_stale :: bool

definition DAY_MS :: int where
  "DAY_MS = 86400000"

text \<open>A source is stale without a complete snapshot, a day after it, or when its last inventory did not succeed.\<close>

definition source_stale :: "int \<Rightarrow> string \<Rightarrow> int option \<Rightarrow> bool" where
  "source_stale now status complete_at = (case complete_at of
     None \<Rightarrow> True
   | Some t \<Rightarrow> now - t > DAY_MS \<or> status \<in> set [''failed'', ''incomplete'', ''stale''])"

definition memory_view :: "int \<Rightarrow> mdb \<Rightarrow> fact_row \<Rightarrow> fact_view res" where
  "memory_view now db r =
    (let k = (case mf_source r of None \<Rightarrow> None | Some s \<Rightarrow> if s = [] then None else Some (mf_org r, mf_ws r, s));
         stale = (case k of
           None \<Rightarrow> False
         | Some k \<Rightarrow> (case find_by so_key k (m_sources db) of
             None \<Rightarrow> True
           | Some s \<Rightarrow> source_stale now (so_status s) (so_complete_at s)));
         missing = (case k of
           None \<Rightarrow> False
         | Some k \<Rightarrow> (case find_by sf_ident (k, mf_key r) (m_source_facts db) of
             None \<Rightarrow> False | Some f \<Rightarrow> sf_missing f \<noteq> None)) in
     bindE (stored_object (mf_value r)) (\<lambda>value.
       Inr \<lparr>fv_id = mf_id r, fv_ns = mf_ns r, fv_key = mf_key r, fv_value = value, fv_source = mf_source r,
         fv_observed = mf_observed r, fv_fresh = mf_fresh r, fv_missing = missing,
         fv_stale = stale \<or> (case mf_fresh r of None \<Rightarrow> False | Some t \<Rightarrow> t < now)\<rparr>))"

record source_fact_view =
  sv_source :: string
  sv_key :: string
  sv_value :: json_object
  sv_observed :: int
  sv_inventory :: string
  sv_missing :: bool
  sv_missing_at :: "int option"

definition source_fact_view_of :: "source_fact_row \<Rightarrow> source_fact_view res" where
  "source_fact_view_of r = bindE (stored_object (sf_value r)) (\<lambda>value.
     Inr \<lparr>sv_source = sf_source r, sv_key = sf_key r, sv_value = value, sv_observed = sf_observed r,
       sv_inventory = sf_inventory r, sv_missing = (sf_missing r \<noteq> None), sv_missing_at = sf_missing r\<rparr>)"

record receipt =
  rc_source :: string
  rc_inventory :: string
  rc_pages :: int
  rc_complete :: bool
  rc_successful :: bool
  rc_items :: int
  rc_complete_at :: "int option"
  rc_duplicate :: bool

text \<open>\<open>int(None)\<close> and a subscript of a missing row are \<open>TypeError\<close>s.\<close>

definition source_receipt :: "source_key \<Rightarrow> string \<Rightarrow> bool \<Rightarrow> mdb \<Rightarrow> receipt res" where
  "source_receipt k inventory duplicate db = (case find_by run_key (k, inventory) (m_runs db) of
     None \<Rightarrow> Inl TypeError
   | Some run \<Rightarrow>
       if sr_status run = ''completed'' \<and> sr_completed run = None then Inl TypeError
       else Inr \<lparr>rc_source = snd (snd k), rc_inventory = inventory, rc_pages = sr_pages run,
         rc_complete = (sr_status run = ''completed''), rc_successful = (sr_status run \<noteq> ''failed''),
         rc_items = sr_items run,
         rc_complete_at = (if sr_status run = ''completed'' then sr_completed run else None),
         rc_duplicate = duplicate\<rparr>)"

definition require_source :: "mdb \<Rightarrow> source_key \<Rightarrow> source_row res" where
  "require_source db k = (case find_by so_key k (m_sources db) of
     None \<Rightarrow> not_found ''WORK_SOURCE_NOT_FOUND'' | Some r \<Rightarrow> Inr r)"

section \<open>Memory facts\<close>

text \<open>
  \<open>INSERT ... ON CONFLICT(scope, namespace, fact_key) DO UPDATE\<close>: a row in the same slot keeps its id and takes
  the new values; otherwise a row with the same id is an \<open>IntegrityError\<close>.
\<close>

definition put_fact :: "fact_row \<Rightarrow> fact_row list \<Rightarrow> fact_row list res" where
  "put_fact r t = (case find_by mf_slot (mf_slot r) t of
     Some prior \<Rightarrow> Inr (edit_by mf_slot (mf_slot r) (\<lambda>p. p\<lparr>mf_value := mf_value r, mf_source := mf_source r,
       mf_observed := mf_observed r, mf_fresh := mf_fresh r, mf_updated := mf_updated r\<rparr>) t)
   | None \<Rightarrow> insert_by mf_ident r t)"

definition memory_actor :: "string option \<Rightarrow> bool \<Rightarrow> string option res" where
  "memory_actor actor private_scope = bindE (actor_of actor) (\<lambda>a.
     if private_scope \<and> a = None then invalid ''WORK_MEMORY_ACTOR_REQUIRED'' else Inr a)"

text \<open>The row a request asks for; \<open>t0\<close> is the reading for a missing \<open>observedAt\<close>, \<open>now\<close> the one of the update.\<close>

definition memory_fact_row ::
  "string \<Rightarrow> int \<Rightarrow> int \<Rightarrow> string option \<Rightarrow> string \<Rightarrow> json_object \<Rightarrow> string option \<Rightarrow> bool \<Rightarrow> fact_row res" where
  "memory_fact_row fid t0 now org ws body actor private_scope =
    bindE (work_scope org ws) (\<lambda>(org, ws).
    bindE (bounded_text (dget body ''namespace'') 128 False) (\<lambda>ns.
    bindE (bounded_text (dget body ''key'') 512 False) (\<lambda>key.
    bindE (work_json_object (dget body ''value'')) (\<lambda>value.
    bindE (optional_text (dget body ''sourceId'') 512) (\<lambda>src.
    bindE (case dget body ''observedAt'' of JNull \<Rightarrow> Inr t0 | v \<Rightarrow> nonnegative_integer v) (\<lambda>observed.
    bindE (case dget body ''freshUntil'' of JNull \<Rightarrow> Inr None
             | v \<Rightarrow> bindE (nonnegative_integer v) (\<lambda>t. Inr (Some t))) (\<lambda>fresh.
    bindE (memory_actor actor private_scope) (\<lambda>actor.
    bindE (work_json_text (JDict value)) (\<lambda>text.
      Inr \<lparr>mf_org = org, mf_ws = ws, mf_actor = (if private_scope then case_option [] (\<lambda>a. a) actor else []),
        mf_id = fid, mf_ns = ns, mf_key = key, mf_value = text, mf_source = src, mf_observed = observed,
        mf_fresh = fresh, mf_updated = now\<rparr>)))))))))"

text \<open>The upsert into the table of the scope and the view of the row it left there, at the reading \<open>t1\<close>.\<close>

definition store_fact :: "int \<Rightarrow> bool \<Rightarrow> fact_row \<Rightarrow> mdb \<Rightarrow> (fact_view \<times> mdb) res" where
  "store_fact t1 private_scope row db =
    bindE (put_fact row (if private_scope then m_private db else m_facts db)) (\<lambda>tbl.
    let db = (if private_scope then db\<lparr>m_private := tbl\<rparr> else db\<lparr>m_facts := tbl\<rparr>) in
    (case find_by mf_slot (mf_slot row) tbl of
       None \<Rightarrow> Inl TypeError
     | Some r \<Rightarrow> bindE (memory_view t1 db r) (\<lambda>v. Inr (v, db))))"

definition upsert_memory_fact ::
  "string \<Rightarrow> int \<Rightarrow> int \<Rightarrow> int \<Rightarrow> string option \<Rightarrow> string \<Rightarrow> json_object \<Rightarrow> string option \<Rightarrow> bool \<Rightarrow> mdb
   \<Rightarrow> fact_view res \<times> mdb" where
  "upsert_memory_fact fid t0 now t1 org ws body actor private_scope db = commit db (
    bindE (memory_fact_row fid t0 now org ws body actor private_scope) (\<lambda>row. store_fact t1 private_scope row db))"

text \<open>The two reads and the merge of \<open>list_memory_facts\<close>; \<open>clk i\<close> is the reading for the view of row \<open>i\<close>.\<close>

definition memory_rows :: "string \<Rightarrow> string \<Rightarrow> string option \<Rightarrow> bool \<Rightarrow> int \<Rightarrow> mdb \<Rightarrow> fact_row list" where
  "memory_rows org ws actor private_scope limit db =
    (let shared = take (nat limit) (order_by2 mf_ns mf_key (filter (\<lambda>r. mf_org r = org \<and> mf_ws r = ws) (m_facts db)));
         private = (if private_scope then take (nat limit) (order_by2 mf_ns mf_key
             (filter (\<lambda>r. mf_org r = org \<and> mf_ws r = ws \<and> Some (mf_actor r) = actor) (m_private db))) else []) in
     take (nat limit) (order_by2 mf_ns mf_key (shared @ private)))"

definition list_memory_facts ::
  "(nat \<Rightarrow> int) \<Rightarrow> string option \<Rightarrow> string \<Rightarrow> bool \<Rightarrow> int \<Rightarrow> string option \<Rightarrow> bool \<Rightarrow> mdb \<Rightarrow> fact_view list res" where
  "list_memory_facts clk org ws include_stale limit actor private_scope db =
    bindE (work_scope org ws) (\<lambda>(org, ws).
      if \<not> (1 \<le> limit \<and> limit \<le> 1000) then invalid ''WORK_MEMORY_INVALID_PAGE''
      else
        bindE (memory_actor actor private_scope) (\<lambda>actor.
        bindE (mapE (\<lambda>(i, r). memory_view (clk i) db r)
                 (List.enumerate 0 (memory_rows org ws actor private_scope limit db))) (\<lambda>values.
          Inr (if include_stale then values
               else filter (\<lambda>v. \<not> fv_stale v \<and> \<not> fv_missing v) values))))"

text \<open>
  \<open>str.casefold\<close> on code points below 256: the sharp s becomes two letters; every other character folds
  like \<open>str.lower\<close>, but for the micro sign, whose image no other character of the range shares, so that keeping
  it does not change any comparison of folded texts.
\<close>

definition py_casefold :: "string \<Rightarrow> string" where
  "py_casefold s = concat (map (\<lambda>c. if c = CHR 0xDF then ''ss'' else [py_lower_char c]) s)"

definition text_in :: "string \<Rightarrow> string \<Rightarrow> bool" where
  "text_in p s = list_ex (\<lambda>i. starts_with p (drop i s)) [0..<Suc (length s)]"

definition source_view :: "int \<Rightarrow> mdb \<Rightarrow> source_fact_row \<Rightarrow> fact_view option res" where
  "source_view now db f = (case find_by so_key (sf_src f) (m_sources db) of
     None \<Rightarrow> Inr None
   | Some s \<Rightarrow> bindE (stored_object (sf_value f)) (\<lambda>value.
       Inr (Some \<lparr>fv_id = ''source:'' @ sf_source f @ '':'' @ sf_key f, fv_ns = ''source:'' @ sf_source f,
         fv_key = sf_key f, fv_value = value, fv_source = Some (sf_source f), fv_observed = sf_observed f,
         fv_fresh = None, fv_missing = (sf_missing f \<noteq> None),
         fv_stale = source_stale now (so_status s) (so_complete_at s)\<rparr>)))"

definition match_score :: "string \<Rightarrow> fact_view \<Rightarrow> int" where
  "match_score query v = (if query = py_casefold (fv_key v) then 3
     else if text_in query (py_casefold (fv_key v)) then 2 else 1)"

definition memory_match :: "string \<Rightarrow> bool \<Rightarrow> fact_view \<Rightarrow> bool res" where
  "memory_match query include_stale v = bindE (work_json_text (JDict (fv_value v))) (\<lambda>text.
     Inr (text_in query (py_casefold (fv_ns v @ '' '' @ fv_key v @ '' '' @ text)) \<and>
          (include_stale \<or> \<not> (fv_stale v \<or> fv_missing v))))"

text \<open>
  The join of facts and sources has no \<open>ORDER BY\<close>: \<open>scan\<close> is the order in which the database delivers its rows,
  cut at 5000. The final sort is stable.
\<close>

definition query_memory ::
  "(source_fact_row list \<Rightarrow> source_fact_row list) \<Rightarrow> (nat \<Rightarrow> int) \<Rightarrow> int \<Rightarrow> string option \<Rightarrow> string \<Rightarrow> json \<Rightarrow> int \<Rightarrow> bool
   \<Rightarrow> string option \<Rightarrow> bool \<Rightarrow> mdb \<Rightarrow> fact_view list res" where
  "query_memory scan clk now org ws query limit include_stale actor private_scope db =
    bindE (bounded_text query 2000 False) (\<lambda>query.
    let query = py_casefold query in
      if \<not> (1 \<le> limit \<and> limit \<le> 100) then invalid ''WORK_MEMORY_INVALID_PAGE''
      else
        bindE (list_memory_facts clk org ws True 1000 actor private_scope db) (\<lambda>facts.
        bindE (work_scope org ws) (\<lambda>(org, ws).
        let rows = (if private_scope then []
          else take 5000 (filter (\<lambda>f. find_by so_key (sf_src f) (m_sources db) \<noteq> None)
                 (scan (filter (\<lambda>f. sf_org f = org \<and> sf_ws f = ws) (m_source_facts db))))) in
        bindE (mapE (source_view now db) rows) (\<lambda>more.
        let facts = facts @ List.map_filter id more in
        bindE (mapE (\<lambda>v. bindE (memory_match query include_stale v) (\<lambda>b. Inr (b, v))) facts) (\<lambda>found.
        let hits = map snd (filter fst found) in
        Inr (take (nat limit) (sort_key (\<lambda>v. - match_score query v)
          (sort_key (\<lambda>v. - fv_observed v) (sort_key fv_key hits)))))))))"

section \<open>Inventories\<close>

record page =
  p_token :: "string option"
  p_next :: "string option"
  p_complete :: bool
  p_successful :: bool
  p_items :: "(string \<times> json_object \<times> int) list"

definition page_token_of :: "json \<Rightarrow> string option res" where
  "page_token_of v = (case v of JNull \<Rightarrow> Inr None | _ \<Rightarrow> bindE (bounded_text v 2000 False) (\<lambda>t. Inr (Some t)))"

text \<open>\<open>item.get("observedAt", _unix_ms())\<close> reads the clock once per item, whether the item has the field or not.\<close>

definition source_item :: "int \<Rightarrow> json \<Rightarrow> (string \<times> json_object \<times> int) res" where
  "source_item t item = (case item of
     JDict d \<Rightarrow>
       bindE (bounded_text (dget d ''key'') 512 False) (\<lambda>key.
       bindE (work_json_object (dget d ''value'')) (\<lambda>value.
       bindE (nonnegative_integer (dget_or d ''observedAt'' (JInt t))) (\<lambda>observed.
       Inr (key, value, observed))))
   | _ \<Rightarrow> invalid ''WORK_SOURCE_INVALID_PAGE'')"

definition source_page :: "(nat \<Rightarrow> int) \<Rightarrow> json_object \<Rightarrow> page res" where
  "source_page clk body =
    bindE (page_token_of (dget body ''pageToken'')) (\<lambda>token.
    bindE (page_token_of (dget body ''nextPageToken'')) (\<lambda>next.
      case (dget body ''complete'', dget body ''successful'') of
        (JBool complete, JBool successful) \<Rightarrow>
          (case dget body ''items'' of
             JList items \<Rightarrow>
               bindE (mapE (\<lambda>(i, item). source_item (clk i) item) (List.enumerate 0 items)) (\<lambda>normalized.
                 if complete \<and> (\<not> successful \<or> next \<noteq> None) then invalid ''WORK_SOURCE_INVALID_COMPLETION''
                 else if next = None \<and> successful \<and> \<not> complete then invalid ''WORK_SOURCE_INVALID_COMPLETION''
                 else Inr \<lparr>p_token = token, p_next = next, p_complete = complete, p_successful = successful,
                        p_items = normalized\<rparr>)
           | _ \<Rightarrow> invalid ''WORK_SOURCE_INVALID_PAGE'')
      | _ \<Rightarrow> invalid ''WORK_SOURCE_INVALID_PAGE''))"

definition page_token_text :: "page \<Rightarrow> string" where
  "page_token_text p = case_option [] (\<lambda>t. t) (p_token p)"

definition page_json :: "page \<Rightarrow> json" where
  "page_json p = JDict [(''pageToken'', jopt (p_token p)), (''nextPageToken'', jopt (p_next p)),
     (''complete'', JBool (p_complete p)), (''successful'', JBool (p_successful p)),
     (''items'', JList (map (\<lambda>(key, value, observed). JDict [(''key'', JStr key), (''value'', JDict value),
        (''observedAt'', JInt observed)]) (p_items p)))]"

definition ensure_source :: "int \<Rightarrow> source_key \<Rightarrow> mdb \<Rightarrow> mdb res" where
  "ensure_source now k db = (case find_by so_key k (m_sources db) of
     Some _ \<Rightarrow> Inr db
   | None \<Rightarrow> bindE (insert_by so_key \<lparr>so_org = fst k, so_ws = fst (snd k), so_id = snd (snd k), so_status = ''unknown'',
         so_complete_at = None, so_updated = now\<rparr> (m_sources db)) (\<lambda>t. Inr (db\<lparr>m_sources := t\<rparr>)))"

definition new_run :: "int \<Rightarrow> source_key \<Rightarrow> string \<Rightarrow> run_row" where
  "new_run now k inventory = \<lparr>sr_org = fst k, sr_ws = fst (snd k), sr_source = snd (snd k), sr_inventory = inventory,
     sr_status = ''in_progress'', sr_expected = [], sr_pages = 0, sr_items = 0, sr_started = now, sr_completed = None\<rparr>"

definition active_run :: "source_key \<Rightarrow> run_row \<Rightarrow> bool" where
  "active_run k r \<longleftrightarrow> sr_src r = k \<and> sr_status r = ''in_progress''"

definition ensure_run :: "int \<Rightarrow> source_key \<Rightarrow> string \<Rightarrow> page \<Rightarrow> mdb \<Rightarrow> (run_row \<times> mdb) res" where
  "ensure_run now k inventory p db = (case find_by run_key (k, inventory) (m_runs db) of
     Some run \<Rightarrow> Inr (run, db)
   | None \<Rightarrow>
       if p_token p \<noteq> None then conflict ''WORK_SOURCE_PAGE_GAP''
       else if list_ex (active_run k) (m_runs db) then conflict ''WORK_SOURCE_INVENTORY_ACTIVE''
       else bindE (insert_by run_key (new_run now k inventory) (m_runs db)) (\<lambda>t.
         Inr (new_run now k inventory, db\<lparr>m_runs := t\<rparr>)))"

definition page_of :: "int \<Rightarrow> source_key \<Rightarrow> string \<Rightarrow> page \<Rightarrow> string \<Rightarrow> page_row" where
  "page_of now k inventory p digest = \<lparr>pg_org = fst k, pg_ws = fst (snd k), pg_source = snd (snd k),
     pg_inventory = inventory, pg_token = page_token_text p, pg_next = p_next p, pg_complete = p_complete p,
     pg_successful = p_successful p, pg_digest = digest, pg_accepted = now\<rparr>"

definition new_stage :: "source_key \<Rightarrow> string \<Rightarrow> string \<Rightarrow> string \<Rightarrow> int \<Rightarrow> staging_row" where
  "new_stage k inventory key text observed = \<lparr>st_org = fst k, st_ws = fst (snd k), st_source = snd (snd k),
     st_inventory = inventory, st_key = key, st_value = text, st_observed = observed\<rparr>"

text \<open>One item of an accepted page: a repeated key must repeat its value; \<open>INSERT OR IGNORE\<close> keeps the first.\<close>

definition stage_item ::
  "source_key \<Rightarrow> string \<Rightarrow> staging_row list \<Rightarrow> string \<times> json_object \<times> int \<Rightarrow> staging_row list res" where
  "stage_item k inventory t item = (case item of (key, value, observed) \<Rightarrow>
     (case find_by stage_key ((k, inventory), key) t of
        Some prior \<Rightarrow> bindE (stored_object (st_value prior)) (\<lambda>old.
          if \<not> py_eq (JDict old) (JDict value) then conflict ''WORK_SOURCE_DUPLICATE_FACT''
          else bindE (work_json_text (JDict value)) (\<lambda>_. Inr t))
      | None \<Rightarrow> bindE (work_json_text (JDict value)) (\<lambda>text.
          Inr (t @ [new_stage k inventory key text observed]))))"

definition promoted :: "source_key \<Rightarrow> string \<Rightarrow> staging_row \<Rightarrow> source_fact_row" where
  "promoted k inventory s = \<lparr>sf_org = fst k, sf_ws = fst (snd k), sf_source = snd (snd k), sf_key = st_key s,
     sf_value = st_value s, sf_observed = st_observed s, sf_inventory = inventory, sf_missing = None\<rparr>"

text \<open>One staged fact of a completed inventory: \<open>INSERT ... ON CONFLICT DO UPDATE\<close>.\<close>

definition promote_fact ::
  "source_key \<Rightarrow> string \<Rightarrow> source_fact_row list \<Rightarrow> staging_row \<Rightarrow> source_fact_row list" where
  "promote_fact k inventory t s = (case find_by sf_ident (k, st_key s) t of
     Some _ \<Rightarrow> edit_by sf_ident (k, st_key s) (\<lambda>f. f\<lparr>sf_value := st_value s, sf_observed := st_observed s,
       sf_inventory := inventory, sf_missing := None\<rparr>) t
   | None \<Rightarrow> t @ [promoted k inventory s])"

definition mark_missing :: "int \<Rightarrow> source_key \<Rightarrow> string \<Rightarrow> source_fact_row list \<Rightarrow> source_fact_row list" where
  "mark_missing now k inventory t = map (\<lambda>f.
     if sf_src f = k \<and> sf_inventory f \<noteq> inventory \<and> sf_missing f = None then f\<lparr>sf_missing := Some now\<rparr> else f) t"

definition fail_run :: "int \<Rightarrow> source_key \<Rightarrow> string \<Rightarrow> page \<Rightarrow> mdb \<Rightarrow> mdb" where
  "fail_run now k inventory p db = db\<lparr>
     m_runs := edit_by run_key (k, inventory) (\<lambda>r. r\<lparr>sr_status := ''failed'', sr_pages := sr_pages r + 1,
       sr_items := sr_items r + int (length (p_items p)), sr_completed := Some now\<rparr>) (m_runs db),
     m_sources := edit_by so_key k (\<lambda>s. s\<lparr>so_status := ''failed'', so_updated := now\<rparr>) (m_sources db)\<rparr>"

definition advance_run :: "source_key \<Rightarrow> string \<Rightarrow> page \<Rightarrow> mdb \<Rightarrow> mdb" where
  "advance_run k inventory p db = db\<lparr>
     m_runs := edit_by run_key (k, inventory) (\<lambda>r. r\<lparr>sr_expected := case_option [] (\<lambda>t. t) (p_next p),
       sr_pages := sr_pages r + 1, sr_items := sr_items r + int (length (p_items p))\<rparr>) (m_runs db)\<rparr>"

definition finish_run :: "int \<Rightarrow> source_key \<Rightarrow> string \<Rightarrow> mdb \<Rightarrow> mdb" where
  "finish_run now k inventory db = db\<lparr>
     m_source_facts := mark_missing now k inventory
       (foldl (promote_fact k inventory) (m_source_facts db) (filter (\<lambda>s. st_run s = (k, inventory)) (m_staging db))),
     m_runs := edit_by run_key (k, inventory) (\<lambda>r. r\<lparr>sr_status := ''completed'', sr_completed := Some now\<rparr>) (m_runs db),
     m_staging := filter (\<lambda>s. st_run s \<noteq> (k, inventory)) (m_staging db),
     m_sources := edit_by so_key k (\<lambda>s. s\<lparr>so_status := ''fresh'', so_complete_at := Some now, so_updated := now\<rparr>)
       (m_sources db)\<rparr>"

definition accept_page :: "int \<Rightarrow> source_key \<Rightarrow> string \<Rightarrow> page \<Rightarrow> string \<Rightarrow> mdb \<Rightarrow> mdb res" where
  "accept_page now k inventory p digest db =
    bindE (insert_by page_key (page_of now k inventory p digest) (m_pages db)) (\<lambda>pages.
    let db = db\<lparr>m_pages := pages\<rparr> in
      if \<not> p_successful p then Inr (fail_run now k inventory p db)
      else
        bindE (foldE (stage_item k inventory) (m_staging db) (p_items p)) (\<lambda>staging.
        let db = advance_run k inventory p (db\<lparr>m_staging := staging\<rparr>) in
          if p_complete p then Inr (finish_run now k inventory db)
          else Inr (db\<lparr>m_sources := edit_by so_key k (\<lambda>s. s\<lparr>so_status := ''incomplete'', so_updated := now\<rparr>)
                 (m_sources db)\<rparr>)))"

definition submit_page :: "int \<Rightarrow> source_key \<Rightarrow> string \<Rightarrow> page \<Rightarrow> string \<Rightarrow> mdb \<Rightarrow> (receipt \<times> mdb) res" where
  "submit_page now k inventory p digest db =
    bindE (ensure_source now k db) (\<lambda>db.
    bindE (ensure_run now k inventory p db) (\<lambda>(run, db).
      case find_by page_key ((k, inventory), page_token_text p) (m_pages db) of
        Some prior \<Rightarrow>
          if pg_digest prior \<noteq> digest then conflict ''WORK_SOURCE_PAGE_CONFLICT''
          else bindE (source_receipt k inventory True db) (\<lambda>v. Inr (v, db))
      | None \<Rightarrow>
          if sr_status run \<noteq> ''in_progress'' then conflict ''WORK_SOURCE_INVENTORY_CLOSED''
          else if page_token_text p \<noteq> sr_expected run then conflict ''WORK_SOURCE_PAGE_GAP''
          else
            bindE (accept_page now k inventory p digest db) (\<lambda>db.
            bindE (source_receipt k inventory False db) (\<lambda>v. Inr (v, db)))))"

definition ingest_source_page ::
  "(nat \<Rightarrow> int) \<Rightarrow> int \<Rightarrow> string option \<Rightarrow> string \<Rightarrow> string \<Rightarrow> json_object \<Rightarrow> mdb \<Rightarrow> receipt res \<times> mdb" where
  "ingest_source_page clk now org ws source body db = commit db (
    bindE (work_scope org ws) (\<lambda>(org, ws).
    bindE (work_identifier source) (\<lambda>source.
    bindE (work_identifier_of (dget body ''inventoryId'')) (\<lambda>inventory.
    bindE (source_page clk body) (\<lambda>p.
    bindE (work_digest (page_json p)) (\<lambda>digest.
      submit_page now (org, ws, source) inventory p digest db))))))"

section \<open>Readers\<close>

record source_info =
  si_id :: string
  si_status :: string
  si_complete_at :: "int option"
  si_updated :: int
  si_facts :: int

definition source_info_of :: "int \<Rightarrow> mdb \<Rightarrow> source_row \<Rightarrow> source_info" where
  "source_info_of now db s = \<lparr>si_id = so_id s,
     si_status = (case so_complete_at s of
        Some t \<Rightarrow> if now - t > DAY_MS \<and> so_status s = ''fresh'' then ''stale'' else so_status s
      | None \<Rightarrow> so_status s),
     si_complete_at = so_complete_at s, si_updated = so_updated s,
     si_facts = int (length (filter (\<lambda>f. sf_src f = so_key s \<and> sf_missing f = None) (m_source_facts db)))\<rparr>"

definition list_sources :: "int \<Rightarrow> string option \<Rightarrow> string \<Rightarrow> mdb \<Rightarrow> source_info list res" where
  "list_sources now org ws db = bindE (work_scope org ws) (\<lambda>(org, ws).
     Inr (map (source_info_of now db) (order_by so_id (filter (\<lambda>s. so_org s = org \<and> so_ws s = ws) (m_sources db)))))"

definition list_source_facts ::
  "string option \<Rightarrow> string \<Rightarrow> string \<Rightarrow> bool \<Rightarrow> int \<Rightarrow> bool \<Rightarrow> mdb \<Rightarrow> source_fact_view list res" where
  "list_source_facts org ws source include_missing limit private_scope db =
    bindE (work_scope org ws) (\<lambda>(org, ws).
    bindE (work_identifier source) (\<lambda>source.
      if \<not> (1 \<le> limit \<and> limit \<le> 5000) then invalid ''WORK_SOURCE_INVALID_PAGE''
      else if private_scope then Inr []
      else
        bindE (require_source db (org, ws, source)) (\<lambda>_.
          mapE source_fact_view_of (take (nat limit) (order_by sf_key (filter (\<lambda>f. sf_src f = (org, ws, source) \<and>
            (include_missing \<or> sf_missing f = None)) (m_source_facts db)))))))"

end
