(* ===== verification/Memory_Inv.thy ===== *)
theory Memory_Inv
  imports Memory_Store Systems
begin

text \<open>
  The invariant of memory facts and source inventories: unique keys, one open inventory per source, pages that
  form an unbroken chain from the first token, staged facts of unfinished inventories only, and a snapshot whose
  present facts all come from one completed inventory. Every operation keeps it; \<open>mstep\<close> is one call.
\<close>

section \<open>Chains of pages\<close>

text \<open>Each page continues where the previous one pointed to; the first one has the empty token.\<close>

fun linked :: "string option \<Rightarrow> page_row list \<Rightarrow> bool" where
  "linked tok [] = True"
| "linked tok (p # ps) = (tok = Some (pg_token p) \<and> linked (pg_next p) ps)"

definition chain_end :: "page_row list \<Rightarrow> string option" where
  "chain_end ps = (if ps = [] then Some [] else pg_next (last ps))"

lemma linked_snoc:
  "linked tok (ps @ [p]) \<longleftrightarrow> linked tok ps \<and> (if ps = [] then tok else pg_next (last ps)) = Some (pg_token p)"
  by (induction ps arbitrary: tok) auto

lemma chain_snoc: "linked (Some []) (ps @ [p]) \<longleftrightarrow> linked (Some []) ps \<and> chain_end ps = Some (pg_token p)"
  by (auto simp: linked_snoc chain_end_def)

lemma chain_end_snoc [simp]: "chain_end (ps @ [p]) = pg_next p"
  by (simp add: chain_end_def)

definition middle_page :: "page_row \<Rightarrow> bool" where
  "middle_page p \<longleftrightarrow> pg_successful p \<and> \<not> pg_complete p"

definition run_ok :: "run_row \<Rightarrow> page_row list \<Rightarrow> bool" where
  "run_ok r ps \<longleftrightarrow> linked (Some []) ps \<and> list_all middle_page (butlast ps) \<and> sr_pages r = int (length ps) \<and>
     (sr_status r = ''in_progress'' \<and> sr_completed r = None \<and> list_all middle_page ps \<and> chain_end ps = Some (sr_expected r) \<or>
      sr_status r = ''completed'' \<and> sr_completed r \<noteq> None \<and> ps \<noteq> [] \<and> pg_complete (last ps) \<and> pg_successful (last ps) \<or>
      sr_status r = ''failed'' \<and> sr_completed r \<noteq> None \<and> ps \<noteq> [] \<and> \<not> pg_successful (last ps))"

lemma run_ok_new: "run_ok (new_run now k inventory) []"
  by (simp add: run_ok_def new_run_def chain_end_def)

lemma run_ok_snoc:
  assumes "run_ok r ps" and "sr_status r = ''in_progress''" and "pg_token p = sr_expected r" and "sr_pages r' = sr_pages r + 1"
    and "sr_status r' = ''failed'' \<and> sr_completed r' \<noteq> None \<and> \<not> pg_successful p \<or>
      sr_status r' = ''completed'' \<and> sr_completed r' \<noteq> None \<and> pg_complete p \<and> pg_successful p \<or>
      sr_status r' = ''in_progress'' \<and> sr_completed r' = None \<and> middle_page p \<and> pg_next p = Some (sr_expected r')"
  shows "run_ok r' (ps @ [p])"
  using assms unfolding run_ok_def by (auto simp: chain_snoc)

section \<open>The invariant\<close>

definition pages_of :: "mdb \<Rightarrow> source_key \<times> string \<Rightarrow> page_row list" where
  "pages_of db rk = filter (\<lambda>p. pg_run p = rk) (m_pages db)"

definition run_at :: "mdb \<Rightarrow> source_key \<times> string \<Rightarrow> run_row option" where
  "run_at db rk = find_by run_key rk (m_runs db)"

definition source_at :: "mdb \<Rightarrow> source_key \<Rightarrow> source_row option" where
  "source_at db k = find_by so_key k (m_sources db)"

definition keys_ok :: "mdb \<Rightarrow> bool" where
  "keys_ok db \<longleftrightarrow> keyed mf_slot (m_facts db) \<and> keyed mf_ident (m_facts db) \<and> keyed mf_slot (m_private db) \<and>
     keyed mf_ident (m_private db) \<and> keyed so_key (m_sources db) \<and> keyed run_key (m_runs db) \<and>
     keyed page_key (m_pages db) \<and> keyed stage_key (m_staging db) \<and> keyed sf_ident (m_source_facts db)"

definition runs_ok :: "mdb \<Rightarrow> bool" where
  "runs_ok db \<longleftrightarrow> (\<forall>rk r. run_at db rk = Some r \<longrightarrow> source_at db (fst rk) \<noteq> None \<and> run_ok r (pages_of db rk))"

definition one_active :: "mdb \<Rightarrow> bool" where
  "one_active db \<longleftrightarrow> (\<forall>k i j r s. run_at db (k, i) = Some r \<longrightarrow> run_at db (k, j) = Some s \<longrightarrow>
     sr_status r = ''in_progress'' \<longrightarrow> sr_status s = ''in_progress'' \<longrightarrow> i = j)"

definition pages_ok :: "mdb \<Rightarrow> bool" where
  "pages_ok db \<longleftrightarrow> (\<forall>p \<in> set (m_pages db). run_at db (pg_run p) \<noteq> None)"

definition staging_ok :: "mdb \<Rightarrow> bool" where
  "staging_ok db \<longleftrightarrow> (\<forall>s \<in> set (m_staging db). \<exists>r. run_at db (st_run s) = Some r \<and> sr_status r \<noteq> ''completed'')"

definition completed_at :: "mdb \<Rightarrow> source_key \<times> string \<Rightarrow> int \<Rightarrow> bool" where
  "completed_at db rk t \<longleftrightarrow> (\<exists>r. run_at db rk = Some r \<and> sr_status r = ''completed'' \<and> sr_completed r = Some t)"

text \<open>
  The snapshot of a source: nothing before the first complete inventory; afterwards every present fact comes
  from one inventory, which completed at the source's \<open>last_complete_at\<close>.
\<close>

definition snapshot_ok :: "mdb \<Rightarrow> bool" where
  "snapshot_ok db \<longleftrightarrow> (\<forall>f \<in> set (m_source_facts db). \<exists>s t i. source_at db (sf_src f) = Some s \<and>
     so_complete_at s = Some t \<and> completed_at db (sf_src f, i) t \<and>
     (\<forall>g \<in> set (m_source_facts db). sf_src g = sf_src f \<longrightarrow> sf_missing g = None \<longrightarrow> sf_inventory g = i))"

definition minv :: "mdb \<Rightarrow> bool" where
  "minv db \<longleftrightarrow> keys_ok db \<and> runs_ok db \<and> one_active db \<and> pages_ok db \<and> staging_ok db \<and> snapshot_ok db"

lemmas minv_defs = minv_def keys_ok_def runs_ok_def one_active_def pages_ok_def staging_ok_def snapshot_ok_def

lemma minv_empty: "minv empty_mdb"
  by (simp add: minv_defs empty_mdb_def keyed_def run_at_def)

lemma run_invD: "minv db \<Longrightarrow> run_at db rk = Some r \<Longrightarrow> source_at db (fst rk) \<noteq> None \<and> run_ok r (pages_of db rk)"
  unfolding minv_def runs_ok_def by blast

text \<open>A change that leaves the facts alone and forgets no completion keeps the snapshots.\<close>

lemma snapshot_mono:
  assumes "snapshot_ok db" and facts: "m_source_facts db' = m_source_facts db"
    and src: "\<And>k s t. source_at db k = Some s \<Longrightarrow> so_complete_at s = Some t \<Longrightarrow>
      \<exists>s'. source_at db' k = Some s' \<and> so_complete_at s' = Some t"
    and compl: "\<And>rk t. completed_at db rk t \<Longrightarrow> completed_at db' rk t"
  shows "snapshot_ok db'"
  unfolding snapshot_ok_def facts
proof
  fix f assume f: "f \<in> set (m_source_facts db)"
  with assms(1) obtain s t i where s: "source_at db (sf_src f) = Some s" "so_complete_at s = Some t"
    and c: "completed_at db (sf_src f, i) t"
    and g: "\<forall>g \<in> set (m_source_facts db). sf_src g = sf_src f \<longrightarrow> sf_missing g = None \<longrightarrow> sf_inventory g = i"
    unfolding snapshot_ok_def by blast
  from src [OF s] obtain s' where "source_at db' (sf_src f) = Some s'" "so_complete_at s' = Some t" by blast
  with compl [OF c] g show "\<exists>s t i. source_at db' (sf_src f) = Some s \<and> so_complete_at s = Some t \<and>
      completed_at db' (sf_src f, i) t \<and>
      (\<forall>g \<in> set (m_source_facts db). sf_src g = sf_src f \<longrightarrow> sf_missing g = None \<longrightarrow> sf_inventory g = i)"
    by blast
qed

section \<open>Opening a source and a run\<close>

named_theorems mkeys \<open>the key columns, which no update touches\<close>

lemma key_updates [mkeys]:
  "so_key (so_status_update g_so_status s) = so_key s" "so_key (so_complete_at_update g_so_complete_at s) = so_key s"
  "so_key (so_updated_update g_so_updated s) = so_key s" "run_key (sr_status_update g_sr_status r) = run_key r"
  "run_key (sr_expected_update g_sr_expected r) = run_key r" "run_key (sr_pages_update g_sr_pages r) = run_key r"
  "run_key (sr_items_update g_sr_items r) = run_key r" "run_key (sr_completed_update g_sr_completed r) = run_key r"
  "sf_ident (sf_value_update g_sf_value f) = sf_ident f" "sf_ident (sf_observed_update g_sf_observed f) = sf_ident f"
  "sf_ident (sf_inventory_update g_sf_inventory f) = sf_ident f"
  "sf_ident (sf_missing_update g_sf_missing f) = sf_ident f" "sf_src (sf_value_update g_sf_value f) = sf_src f"
  "sf_src (sf_observed_update g_sf_observed f) = sf_src f" "sf_src (sf_inventory_update g_sf_inventory f) = sf_src f"
  "sf_src (sf_missing_update g_sf_missing f) = sf_src f" "mf_slot (mf_value_update g_mf_value y) = mf_slot y"
  "mf_slot (mf_source_update g_mf_source y) = mf_slot y" "mf_slot (mf_observed_update g_mf_observed y) = mf_slot y"
  "mf_slot (mf_fresh_update g_mf_fresh y) = mf_slot y" "mf_slot (mf_updated_update g_mf_updated y) = mf_slot y"
  "mf_ident (mf_value_update g_mf_value y) = mf_ident y" "mf_ident (mf_source_update g_mf_source y) = mf_ident y"
  "mf_ident (mf_observed_update g_mf_observed y) = mf_ident y" "mf_ident (mf_fresh_update g_mf_fresh y) = mf_ident y"
  "mf_ident (mf_updated_update g_mf_updated y) = mf_ident y"
  by (simp_all add: so_key_def run_key_def sr_src_def sf_ident_def sf_src_def mf_slot_def mf_ident_def)

lemma opened_row_keys [mkeys]:
  "run_key (new_run now k inventory) = (k, inventory)"
  "pg_run (page_of now k inventory p d) = (k, inventory)"
  "page_key (page_of now k inventory p d) = ((k, inventory), page_token_text p)"
  "st_run (new_stage k inventory key txt obs) = (k, inventory)"
  "stage_key (new_stage k inventory key txt obs) = ((k, inventory), key)"
  by (simp_all add: run_key_def sr_src_def new_run_def pg_run_def page_of_def page_key_def st_run_def stage_key_def
    new_stage_def)

lemma new_stage_columns [simp]:
  "st_value (new_stage k inventory key txt obs) = txt" "st_observed (new_stage k inventory key txt obs) = obs"
  by (simp_all add: new_stage_def)

lemma ensure_source_Inr:
  "ensure_source now k db = Inr db' \<longleftrightarrow> (case source_at db k of Some _ \<Rightarrow> db' = db
     | None \<Rightarrow> db' = db\<lparr>m_sources := m_sources db @ [\<lparr>so_org = fst k, so_ws = fst (snd k), so_id = snd (snd k),
         so_status = ''unknown'', so_complete_at = None, so_updated = now\<rparr>]\<rparr>)"
  by (auto simp: ensure_source_def source_at_def resE so_key_def split: option.splits)

lemma source_at_ensured:
  assumes "ensure_source now k db = Inr db'"
  shows "source_at db' k \<noteq> None" and "source_at db k' = Some s \<Longrightarrow> source_at db' k' = Some s"
  using assms by (auto simp: ensure_source_Inr source_at_def find_by_append find_by_Cons so_key_def split: option.splits)

lemma ensure_source_minv:
  assumes "ensure_source now k db = Inr db'" and "minv db"
  shows "minv db'"
proof (cases "source_at db k")
  case (Some s)
  with assms show ?thesis by (simp add: ensure_source_Inr)
next
  case None
  then obtain n where db': "db' = db\<lparr>m_sources := m_sources db @ [n]\<rparr>" and n: "so_key n = k"
    using assms(1) by (simp add: ensure_source_Inr so_key_def)
  have keep: "source_at db k' = Some s \<Longrightarrow> source_at db' k' = Some s" for k' s
    by (rule source_at_ensured(2) [OF assms(1)])
  have same: "run_at db' = run_at db" "pages_of db' = pages_of db" "completed_at db' = completed_at db"
    "m_source_facts db' = m_source_facts db"
    by (auto simp: db' run_at_def pages_of_def completed_at_def fun_eq_iff)
  have "keyed so_key (m_sources db')"
    using assms(2) None by (auto simp: db' n source_at_def minv_def keys_ok_def intro!: keyed_snoc)
  with assms(2) have "keys_ok db'" by (simp add: minv_def keys_ok_def db')
  moreover have "runs_ok db'" using assms(2) keep by (fastforce simp: minv_def runs_ok_def same)
  moreover have "one_active db'" "pages_ok db'" "staging_ok db'"
    using assms(2) unfolding minv_def one_active_def pages_ok_def staging_ok_def same by (simp_all add: db')
  moreover have "snapshot_ok db'"
    by (rule snapshot_mono [of db]) (use assms(2) keep in \<open>auto simp: minv_def same\<close>)
  ultimately show ?thesis by (simp add: minv_def)
qed

lemma ensure_run_Inr:
  "ensure_run now k inventory p db = Inr (run, db') \<longleftrightarrow> (case run_at db (k, inventory) of
     Some r \<Rightarrow> run = r \<and> db' = db
   | None \<Rightarrow> p_token p = None \<and> (\<forall>r \<in> set (m_runs db). \<not> active_run k r) \<and> run = new_run now k inventory \<and>
       db' = db\<lparr>m_runs := m_runs db @ [new_run now k inventory]\<rparr>)"
  by (auto simp: ensure_run_def run_at_def resE mkeys list_ex_iff split: option.splits)

lemma run_at_ensured:
  assumes "ensure_run now k inventory p db = Inr (run, db')"
  shows "run_at db' = (run_at db)((k, inventory) \<mapsto> run)"
  using assms by (auto simp: ensure_run_Inr run_at_def fun_eq_iff find_by_append find_by_Cons mkeys split: option.splits)

lemma no_pages: "pages_ok db \<Longrightarrow> run_at db rk = None \<Longrightarrow> pages_of db rk = []"
  by (auto simp: pages_ok_def pages_of_def filter_empty_conv)

lemma ensure_run_minv:
  assumes e: "ensure_run now k inventory p db = Inr (run, db')" and inv: "minv db" and src: "source_at db k \<noteq> None"
  shows "minv db'"
proof (cases "run_at db (k, inventory)")
  case (Some r)
  with e inv show ?thesis by (simp add: ensure_run_Inr)
next
  case None
  with e have db': "db' = db\<lparr>m_runs := m_runs db @ [new_run now k inventory]\<rparr>"
    and quiet: "\<forall>r \<in> set (m_runs db). \<not> active_run k r" and run: "run = new_run now k inventory"
    by (simp_all add: ensure_run_Inr)
  note at = run_at_ensured [OF e]
  have frame: "source_at db' = source_at db" "pages_of db' = pages_of db" "m_pages db' = m_pages db"
    "m_staging db' = m_staging db" "m_source_facts db' = m_source_facts db"
    by (simp_all add: db' source_at_def pages_of_def fun_eq_iff)
  have other: "run_at db rk = Some r \<Longrightarrow> run_at db' rk = Some r" for rk r
    using None by (auto simp: at)
  have "keys_ok db'"
    using inv None by (auto simp: db' minv_def keys_ok_def run_at_def mkeys intro!: keyed_snoc)
  moreover have "runs_ok db'"
    using inv src None no_pages [of db "(k, inventory)"] run
    by (auto simp: minv_def runs_ok_def frame at run_ok_new split: if_splits)
  moreover have "sr_status r \<noteq> ''in_progress''" if "run_at db (k, j) = Some r" for j r
    using that quiet by (auto simp: run_at_def active_run_def run_key_def dest!: find_by_SomeD)
  then have "one_active db'"
    using inv by (auto simp: minv_def one_active_def at split: if_splits)
  moreover have "pages_ok db'" "staging_ok db'"
    using inv other unfolding minv_def pages_ok_def staging_ok_def frame by fastforce+
  moreover have "snapshot_ok db'"
    by (rule snapshot_mono [of db]) (use inv other in \<open>auto simp: minv_def frame completed_at_def\<close>)
  ultimately show ?thesis by (simp add: minv_def)
qed

section \<open>Staged and shown facts\<close>

text \<open>
  What the tables stand for: the facts staged for an inventory and the facts a source shows, each a map from fact
  keys to the stored text and the time of observation. A repeated item does not replace the first.
\<close>

type_synonym facts = "string \<Rightarrow> (string \<times> int) option"

definition staged :: "mdb \<Rightarrow> source_key \<times> string \<Rightarrow> facts" where
  "staged db rk key = map_option (\<lambda>s. (st_value s, st_observed s)) (find_by stage_key (rk, key) (m_staging db))"

definition shown :: "mdb \<Rightarrow> source_key \<Rightarrow> facts" where
  "shown db k key = (case find_by sf_ident (k, key) (m_source_facts db) of
     None \<Rightarrow> None | Some f \<Rightarrow> if sf_missing f = None then Some (sf_value f, sf_observed f) else None)"

fun add_item :: "facts \<Rightarrow> string \<times> json_object \<times> int \<Rightarrow> facts" where
  "add_item m (key, value, observed) =
    (if m key = None then m(key \<mapsto> (render (canon (JDict value)), observed)) else m)"

lemma stage_item_Inr:
  assumes "stage_item k inventory t (key, value, observed) = Inr t'"
  shows "find_by stage_key ((k, inventory), key) t \<noteq> None \<and> t' = t \<or>
    find_by stage_key ((k, inventory), key) t = None \<and>
    t' = t @ [new_stage k inventory key (render (canon (JDict value))) observed]"
  using assms by (auto simp: stage_item_def resE json_text_Some_iff split: option.splits if_splits)

lemma stage_items:
  assumes "foldE (stage_item k inventory) t items = Inr t'" and "keyed stage_key t"
  shows "keyed stage_key t'" and "\<forall>s \<in> set t'. s \<in> set t \<or> st_run s = (k, inventory)"
    and "staged (db\<lparr>m_staging := t'\<rparr>) (k, inventory) = foldl add_item (staged (db\<lparr>m_staging := t\<rparr>) (k, inventory)) items"
    and "rk \<noteq> (k, inventory) \<Longrightarrow> staged (db\<lparr>m_staging := t'\<rparr>) rk = staged (db\<lparr>m_staging := t\<rparr>) rk"
proof (atomize (full), use assms in \<open>induction items arbitrary: t\<close>)
  case Nil
  then show ?case by simp
next
  case (Cons item items)
  obtain key val observed where item: "item = (key, val, observed)" by (cases item)
  from Cons.prems(1) obtain u where u: "stage_item k inventory t (key, val, observed) = Inr u"
    and rest: "foldE (stage_item k inventory) u items = Inr t'" by (auto simp: resE item)
  have step: "keyed stage_key u \<and> (\<forall>s \<in> set u. s \<in> set t \<or> st_run s = (k, inventory)) \<and>
      staged (db\<lparr>m_staging := u\<rparr>) (k, inventory) = add_item (staged (db\<lparr>m_staging := t\<rparr>) (k, inventory)) item \<and>
      (rk \<noteq> (k, inventory) \<longrightarrow> staged (db\<lparr>m_staging := u\<rparr>) rk = staged (db\<lparr>m_staging := t\<rparr>) rk)"
    using stage_item_Inr [OF u] Cons.prems(2)
    by (auto simp: item staged_def fun_eq_iff mkeys find_by_append find_by_Cons intro!: keyed_snoc split: option.splits)
  then have "keyed stage_key u" by blast
  from Cons.IH [OF rest this] step show ?case by auto
qed

lemma sf_ident_promoted [mkeys]: "sf_ident (promoted k inventory s) = (k, st_key s)" "sf_src (promoted k inventory s) = k"
  by (simp_all add: sf_ident_def sf_src_def promoted_def)

lemma promote_over:
  "sf_ident f = (k, st_key s) \<Longrightarrow>
   f\<lparr>sf_value := st_value s, sf_observed := st_observed s, sf_inventory := inventory, sf_missing := None\<rparr> =
   promoted k inventory s"
  by (cases f) (auto simp: sf_ident_def sf_src_def promoted_def)

lemma promote_find:
  "find_by sf_ident fk (promote_fact k inventory t s) =
    (if fk = (k, st_key s) then Some (promoted k inventory s) else find_by sf_ident fk t)"
proof (cases "find_by sf_ident (k, st_key s) t")
  case None
  then show ?thesis
    by (auto simp: promote_fact_def find_by_append find_by_Cons mkeys split: option.splits)
next
  case (Some f)
  then show ?thesis using promote_over [of f k s inventory] find_by_key [OF Some]
    by (simp add: promote_fact_def find_by_edit mkeys)
qed

lemma promote_keyed: "keyed sf_ident t \<Longrightarrow> keyed sf_ident (promote_fact k inventory t s)"
  by (auto simp: promote_fact_def keyed_edit mkeys intro!: keyed_snoc split: option.splits)

lemma promote_all:
  assumes "distinct (map st_key ss)"
  shows "find_by sf_ident fk (foldl (promote_fact k inventory) t ss) =
    (case find_by (\<lambda>s. (k, st_key s)) fk ss of Some s \<Rightarrow> Some (promoted k inventory s) | None \<Rightarrow> find_by sf_ident fk t)"
    and "keyed sf_ident t \<Longrightarrow> keyed sf_ident (foldl (promote_fact k inventory) t ss)"
  using assms
proof (induction ss arbitrary: t)
  case Nil
  { case 1 then show ?case by simp next case 2 then show ?case by simp }
next
  case (Cons s ss)
  { case 1
    then have "fk = (k, st_key s) \<Longrightarrow> find_by (\<lambda>s. (k, st_key s)) fk ss = None" by (auto simp: find_by_None_iff)
    with 1 Cons.IH(1) show ?case by (auto simp: find_by_Cons promote_find split: option.splits)
  next
    case 2
    with Cons.IH(2) show ?case by (simp add: promote_keyed)
  }
qed

section \<open>Accepting a page\<close>

text \<open>What every accepted page does to runs, pages and sources, whatever becomes of its facts.\<close>

definition moves :: "mdb \<Rightarrow> mdb \<Rightarrow> source_key \<times> string \<Rightarrow> run_row \<Rightarrow> page_row \<Rightarrow> bool" where
  "moves db db' rk run' pg \<longleftrightarrow> run_at db' = (run_at db)(rk \<mapsto> run') \<and> m_pages db' = m_pages db @ [pg] \<and> pg_run pg = rk \<and>
     (\<forall>k. source_at db k \<noteq> None \<longrightarrow> source_at db' k \<noteq> None) \<and> run_ok run' (pages_of db rk @ [pg])"

lemma moves_keeps:
  assumes m: "moves db db' rk run' pg" and inv: "minv db" and at: "run_at db rk = Some run"
    and active: "sr_status run = ''in_progress''"
  shows "runs_ok db'" and "one_active db'" and "pages_ok db'"
proof -
  have pages: "pages_of db' rk' = (if rk' = rk then pages_of db rk @ [pg] else pages_of db rk')" for rk'
    using m by (auto simp: moves_def pages_of_def)
  have src: "source_at db (fst rk) \<noteq> None" using run_invD [OF inv at] by blast
  have keep: "source_at db k \<noteq> None \<Longrightarrow> source_at db' k \<noteq> None" for k using m unfolding moves_def by blast
  have at': "run_at db' = (run_at db)(rk \<mapsto> run')" and ok: "run_ok run' (pages_of db rk @ [pg])"
    using m unfolding moves_def by blast+
  show "runs_ok db'"
    unfolding runs_ok_def
  proof (intro allI impI)
    fix rk' r assume r: "run_at db' rk' = Some r"
    show "source_at db' (fst rk') \<noteq> None \<and> run_ok r (pages_of db' rk')"
    proof (cases "rk' = rk")
      case True
      with r ok keep [OF src] show ?thesis by (simp add: at' pages)
    next
      case False
      with r have "run_at db rk' = Some r" by (simp add: at')
      with False keep run_invD [OF inv this] show ?thesis by (simp add: pages)
    qed
  qed
  show "one_active db'"
    using inv m at active unfolding minv_def one_active_def moves_def by (cases rk) (auto split: if_splits)
  show "pages_ok db'" using inv m unfolding minv_def pages_ok_def moves_def by auto
qed

lemma moves_completed: "moves db db' rk run' pg \<Longrightarrow> run_at db rk = Some run \<Longrightarrow> sr_status run = ''in_progress'' \<Longrightarrow>
    completed_at db rk' t \<Longrightarrow> completed_at db' rk' t"
  by (auto simp: moves_def completed_at_def)

lemma moves_staging:
  assumes m: "moves db db' rk run' pg" and "staging_ok db"
    and "\<forall>s \<in> set (m_staging db'). s \<in> set (m_staging db) \<or> st_run s = rk"
    and "sr_status run' = ''completed'' \<Longrightarrow> \<forall>s \<in> set (m_staging db'). st_run s \<noteq> rk"
  shows "staging_ok db'"
  using assms unfolding staging_ok_def moves_def by (auto split: if_splits)

lemma run_at_edit:
  assumes "m_runs db' = edit_by run_key rk g (m_runs db)" and "\<And>r. run_key (g r) = run_key r"
    and "run_at db rk = Some run"
  shows "run_at db' = (run_at db)(rk \<mapsto> g run)"
  using assms by (auto simp: run_at_def fun_eq_iff find_by_edit)

lemma source_at_edit:
  assumes "m_sources db' = edit_by so_key k g (m_sources db)" and "\<And>s. so_key (g s) = so_key s"
  shows "source_at db' k' = (if k' = k then map_option g (source_at db k') else source_at db k')"
  using assms by (auto simp: source_at_def find_by_edit)

lemma keys_ok_split:
  "keys_ok db' \<longleftrightarrow> (keyed mf_slot (m_facts db') \<and> keyed mf_ident (m_facts db') \<and> keyed mf_slot (m_private db') \<and>
     keyed mf_ident (m_private db')) \<and> keyed so_key (m_sources db') \<and> keyed run_key (m_runs db') \<and>
     keyed page_key (m_pages db') \<and> keyed stage_key (m_staging db') \<and> keyed sf_ident (m_source_facts db')"
  by (simp add: keys_ok_def)

text \<open>The state in which a page is accepted: its run is open and waits for exactly this token.\<close>

definition awaits :: "mdb \<Rightarrow> source_key \<Rightarrow> string \<Rightarrow> page \<Rightarrow> run_row \<Rightarrow> bool" where
  "awaits db k inventory p run \<longleftrightarrow> run_at db (k, inventory) = Some run \<and> sr_status run = ''in_progress'' \<and>
     page_token_text p = sr_expected run \<and> find_by page_key ((k, inventory), page_token_text p) (m_pages db) = None"

text \<open>The three outcomes as one change of the tables.\<close>

lemma accept_page_Inr:
  assumes "accept_page now k inventory p digest db = Inr db'"
  obtains (failed) "\<not> p_successful p" and "db' = fail_run now k inventory p (db\<lparr>m_pages := m_pages db @ [page_of now k inventory p digest]\<rparr>)"
  | (partial) staging where "p_successful p" and "\<not> p_complete p"
      and "foldE (stage_item k inventory) (m_staging db) (p_items p) = Inr staging"
      and "db' = (advance_run k inventory p (db\<lparr>m_pages := m_pages db @ [page_of now k inventory p digest], m_staging := staging\<rparr>))
        \<lparr>m_sources := edit_by so_key k (\<lambda>s. s\<lparr>so_status := ''incomplete'', so_updated := now\<rparr>) (m_sources db)\<rparr>"
  | (complete) staging where "p_successful p" and "p_complete p"
      and "foldE (stage_item k inventory) (m_staging db) (p_items p) = Inr staging"
      and "db' = finish_run now k inventory (advance_run k inventory p
         (db\<lparr>m_pages := m_pages db @ [page_of now k inventory p digest], m_staging := staging\<rparr>))"
proof (cases "p_successful p")
  case False
  with assms have "db' = fail_run now k inventory p (db\<lparr>m_pages := m_pages db @ [page_of now k inventory p digest]\<rparr>)"
    by (auto simp: accept_page_def insert_by_eq_Inr bindE_eq_Inr)
  with False show thesis by (rule failed)
next
  case ok: True
  with assms obtain staging where st: "foldE (stage_item k inventory) (m_staging db) (p_items p) = Inr staging"
    and db': "db' = (let db = advance_run k inventory p (db\<lparr>m_pages := m_pages db @ [page_of now k inventory p digest],
        m_staging := staging\<rparr>) in if p_complete p then finish_run now k inventory db
      else db\<lparr>m_sources := edit_by so_key k (\<lambda>s. s\<lparr>so_status := ''incomplete'', so_updated := now\<rparr>) (m_sources db)\<rparr>)"
    by (auto simp: accept_page_def insert_by_eq_Inr bindE_eq_Inr Let_def split: if_splits)
  show thesis
  proof (cases "p_complete p")
    case False
    with st db' ok show thesis by (intro partial) (simp_all add: advance_run_def)
  next
    case True
    with st db' ok show thesis by (intro complete) (simp_all add: Let_def)
  qed
qed

lemma page_row_facts [simp]:
  "pg_token (page_of now k inventory p d) = page_token_text p" "pg_next (page_of now k inventory p d) = p_next p"
  "pg_successful (page_of now k inventory p d) = p_successful p" "pg_complete (page_of now k inventory p d) = p_complete p"
  "pg_digest (page_of now k inventory p d) = d"
  by (simp_all add: page_of_def)

lemma fail_minv:
  assumes inv: "minv db" and aw: "awaits db k inventory p run" and bad: "\<not> p_successful p"
    and db': "db' = fail_run now k inventory p (db\<lparr>m_pages := m_pages db @ [page_of now k inventory p digest]\<rparr>)"
  shows "minv db'"
proof -
  let ?run' = "run\<lparr>sr_status := ''failed'', sr_pages := sr_pages run + 1,
    sr_items := sr_items run + int (length (p_items p)), sr_completed := Some now\<rparr>"
  from aw have at: "run_at db (k, inventory) = Some run" and active: "sr_status run = ''in_progress''"
    and tok: "page_token_text p = sr_expected run"
    and new: "find_by page_key ((k, inventory), page_token_text p) (m_pages db) = None" by (auto simp: awaits_def)
  have ok: "run_ok run (pages_of db (k, inventory))" using run_invD [OF inv at] by blast
  have ok': "run_ok ?run' (pages_of db (k, inventory) @ [page_of now k inventory p digest])"
    by (rule run_ok_snoc [OF ok active]) (use tok bad in simp_all)
  have runs: "run_at db' = (run_at db)((k, inventory) \<mapsto> ?run')"
    by (rule run_at_edit [OF _ _ at]) (simp_all add: db' fail_run_def mkeys)
  have srcs: "source_at db' k' = (if k' = k then map_option (\<lambda>s. s\<lparr>so_status := ''failed'', so_updated := now\<rparr>) (source_at db k')
      else source_at db k')" for k'
    by (rule source_at_edit) (simp_all add: db' fail_run_def mkeys)
  have m: "moves db db' (k, inventory) ?run' (page_of now k inventory p digest)"
    using ok' by (simp add: moves_def runs srcs) (simp add: db' fail_run_def mkeys)
  have "keys_ok db'"
    using inv new unfolding minv_def keys_ok_split by (simp add: db' fail_run_def keyed_edit mkeys keyed_snoc)
  moreover have "staging_ok db'"
    by (rule moves_staging [OF m]) (use inv in \<open>simp_all add: minv_def db' fail_run_def\<close>)
  moreover have "m_source_facts db' = m_source_facts db" by (simp add: db' fail_run_def)
  then have "snapshot_ok db'"
    by (rule snapshot_mono [of db, rotated]) (use inv moves_completed [OF m at active] in \<open>auto simp: minv_def srcs\<close>)
  ultimately show ?thesis using moves_keeps [OF m inv at active] by (simp add: minv_def)
qed

lemma partial_minv:
  assumes inv: "minv db" and aw: "awaits db k inventory p run" and good: "p_successful p" "\<not> p_complete p" "p_next p \<noteq> None"
    and st: "foldE (stage_item k inventory) (m_staging db) (p_items p) = Inr staging"
    and db': "db' = (advance_run k inventory p (db\<lparr>m_pages := m_pages db @ [page_of now k inventory p digest], m_staging := staging\<rparr>))
        \<lparr>m_sources := edit_by so_key k (\<lambda>s. s\<lparr>so_status := ''incomplete'', so_updated := now\<rparr>) (m_sources db)\<rparr>"
  shows "minv db'"
proof -
  let ?run' = "run\<lparr>sr_expected := case_option [] (\<lambda>t. t) (p_next p), sr_pages := sr_pages run + 1,
    sr_items := sr_items run + int (length (p_items p))\<rparr>"
  from aw have at: "run_at db (k, inventory) = Some run" and active: "sr_status run = ''in_progress''"
    and tok: "page_token_text p = sr_expected run"
    and new: "find_by page_key ((k, inventory), page_token_text p) (m_pages db) = None" by (auto simp: awaits_def)
  have ok: "run_ok run (pages_of db (k, inventory))" using run_invD [OF inv at] by blast
  then have open_run: "sr_completed run = None" using active by (auto simp: run_ok_def)
  have ok': "run_ok ?run' (pages_of db (k, inventory) @ [page_of now k inventory p digest])"
    by (rule run_ok_snoc [OF ok active]) (use tok good open_run active in \<open>auto simp: middle_page_def\<close>)
  have runs: "run_at db' = (run_at db)((k, inventory) \<mapsto> ?run')"
    by (rule run_at_edit [OF _ _ at]) (simp_all add: db' advance_run_def mkeys)
  have srcs: "source_at db' k' = (if k' = k then map_option (\<lambda>s. s\<lparr>so_status := ''incomplete'', so_updated := now\<rparr>) (source_at db k')
      else source_at db k')" for k'
    by (rule source_at_edit) (simp_all add: db' advance_run_def mkeys)
  have m: "moves db db' (k, inventory) ?run' (page_of now k inventory p digest)"
    using ok' by (simp add: moves_def runs srcs) (simp add: db' advance_run_def mkeys)
  have keyed: "keyed stage_key (m_staging db)" using inv by (simp add: minv_def keys_ok_def)
  have "keys_ok db'"
    using inv new stage_items(1) [OF st keyed] unfolding minv_def keys_ok_split
    by (simp add: db' advance_run_def keyed_edit mkeys keyed_snoc)
  moreover have "staging_ok db'"
    by (rule moves_staging [OF m])
      (use inv stage_items(2) [OF st keyed] active in \<open>simp_all add: minv_def db' advance_run_def\<close>)
  moreover have "m_source_facts db' = m_source_facts db" by (simp add: db' advance_run_def)
  then have "snapshot_ok db'"
    by (rule snapshot_mono [of db, rotated]) (use inv moves_completed [OF m at active] in \<open>auto simp: minv_def srcs\<close>)
  ultimately show ?thesis using moves_keeps [OF m inv at active] by (simp add: minv_def)
qed

text \<open>The facts of a finished inventory: the staged ones are present, the other facts of the source are missing.\<close>

lemma mark_missing_find:
  "find_by sf_ident fk (mark_missing now k inventory t) = map_option (\<lambda>f.
     if sf_src f = k \<and> sf_inventory f \<noteq> inventory \<and> sf_missing f = None then f\<lparr>sf_missing := Some now\<rparr> else f)
     (find_by sf_ident fk t)"
  by (induction t) (auto simp: mark_missing_def find_by_Cons mkeys)

lemma mark_missing_keyed: "keyed sf_ident (mark_missing now k inventory t) = keyed sf_ident t"
proof -
  have "map sf_ident (mark_missing now k inventory t) = map sf_ident t"
    by (induction t) (auto simp: mark_missing_def mkeys)
  then show ?thesis by (simp add: keyed_def)
qed

lemma run_stage_distinct:
  assumes "keyed stage_key t"
  shows "distinct (map st_key (filter (\<lambda>s. st_run s = rk) t))"
  using assms by (induction t) (auto simp: keyed_def stage_key_def image_iff)

lemma find_run_stage:
  "find_by (\<lambda>s. (k, st_key s)) (k', key) (filter (\<lambda>s. st_run s = (k, inventory)) t) =
    (if k' = k then find_by stage_key ((k, inventory), key) t else None)"
proof (induction t)
  case (Cons s t)
  then show ?case by (cases "st_run s = (k, inventory)") (auto simp: find_by_Cons stage_key_def [of s])
qed simp

text \<open>The row of a fact after its source's inventory finished.\<close>

lemma finished_fact:
  assumes "keyed stage_key (m_staging db)"
  shows "find_by sf_ident (k', key) (m_source_facts (finish_run now k inventory db)) =
    (case (if k' = k then find_by stage_key ((k, inventory), key) (m_staging db) else None) of
       Some s \<Rightarrow> Some (promoted k inventory s)
     | None \<Rightarrow> map_option (\<lambda>f. if k' = k \<and> sf_inventory f \<noteq> inventory \<and> sf_missing f = None
         then f\<lparr>sf_missing := Some now\<rparr> else f) (find_by sf_ident (k', key) (m_source_facts db)))"
proof -
  have "sf_inventory (promoted k inventory s) = inventory" for s by (simp add: promoted_def)
  moreover have "sf_src f = k'" if "find_by sf_ident (k', key) t = Some f" for f t
    using find_by_key [OF that] by (simp add: sf_ident_def)
  ultimately show ?thesis
    by (cases "find_by sf_ident (k', key) (m_source_facts db)")
      (auto simp: finish_run_def mark_missing_find promote_all(1) [OF run_stage_distinct [OF assms]] find_run_stage
        split: option.splits)
qed

lemma missing_same [simp]: "f\<lparr>sf_missing := c\<rparr> = f \<longleftrightarrow> sf_missing f = c"
  by (cases f) auto

lemma sf_inventory_promoted [simp]: "sf_inventory (promoted k inventory s) = inventory"
  by (simp add: promoted_def)

lemma promoted_inventory: "promoted k inventory s = f \<Longrightarrow> sf_inventory f = inventory"
  by auto

lemma finished_snapshot:
  assumes keyed: "keyed stage_key (m_staging db)" "keyed sf_ident (m_source_facts db)"
    and old: "snapshot_ok db0" "m_source_facts db = m_source_facts db0"
    and src: "source_at (finish_run now k inventory db) k = Some s" "so_complete_at s = Some now"
    and other: "\<And>k'. k' \<noteq> k \<Longrightarrow> source_at (finish_run now k inventory db) k' = source_at db0 k'"
    and compl: "completed_at (finish_run now k inventory db) (k, inventory) now"
      "\<And>rk t. completed_at db0 rk t \<Longrightarrow> completed_at (finish_run now k inventory db) rk t"
  shows "snapshot_ok (finish_run now k inventory db)"
proof -
  let ?db' = "finish_run now k inventory db"
  have keyed': "keyed sf_ident (m_source_facts ?db')"
    using keyed by (simp add: finish_run_def mark_missing_keyed promote_all(2) run_stage_distinct)
  have at: "find_by sf_ident (sf_src f, sf_key f) (m_source_facts ?db') = Some f" if "f \<in> set (m_source_facts ?db')" for f
    using find_by_keyed [OF keyed' that] by (simp add: sf_ident_def)
  have mine: "sf_inventory f = inventory" if "f \<in> set (m_source_facts ?db')" "sf_src f = k" "sf_missing f = None" for f
    using at [OF that(1)] that(2,3) by (auto simp: finished_fact [OF keyed(1)] split: option.splits if_splits dest: promoted_inventory)
  have theirs: "f \<in> set (m_source_facts db)" if "f \<in> set (m_source_facts ?db')" "sf_src f \<noteq> k" for f
    using at [OF that(1)] that(2) by (auto simp: finished_fact [OF keyed(1)] dest: find_by_SomeD)
  show ?thesis
    unfolding snapshot_ok_def
  proof
    fix f assume f: "f \<in> set (m_source_facts ?db')"
    show "\<exists>s t i. source_at ?db' (sf_src f) = Some s \<and> so_complete_at s = Some t \<and> completed_at ?db' (sf_src f, i) t \<and>
      (\<forall>g \<in> set (m_source_facts ?db'). sf_src g = sf_src f \<longrightarrow> sf_missing g = None \<longrightarrow> sf_inventory g = i)"
    proof (cases "sf_src f = k")
      case True
      with src compl(1) mine show ?thesis by blast
    next
      case False
      with theirs [OF f] old obtain s t i where "source_at db0 (sf_src f) = Some s" "so_complete_at s = Some t"
        "completed_at db0 (sf_src f, i) t"
        "\<forall>g \<in> set (m_source_facts db). sf_src g = sf_src f \<longrightarrow> sf_missing g = None \<longrightarrow> sf_inventory g = i"
        unfolding snapshot_ok_def by fastforce
      with False other theirs compl(2) show ?thesis by metis
    qed
  qed
qed

lemma finish_minv:
  assumes inv: "minv db" and aw: "awaits db k inventory p run" and good: "p_successful p" "p_complete p"
    and st: "foldE (stage_item k inventory) (m_staging db) (p_items p) = Inr staging"
    and db1: "db1 = advance_run k inventory p (db\<lparr>m_pages := m_pages db @ [page_of now k inventory p digest], m_staging := staging\<rparr>)"
  shows "minv (finish_run now k inventory db1)" (is "minv ?db'")
proof -
  let ?run' = "run\<lparr>sr_expected := case_option [] (\<lambda>t. t) (p_next p), sr_pages := sr_pages run + 1,
    sr_items := sr_items run + int (length (p_items p)), sr_status := ''completed'', sr_completed := Some now\<rparr>"
  from aw have at: "run_at db (k, inventory) = Some run" and active: "sr_status run = ''in_progress''"
    and tok: "page_token_text p = sr_expected run"
    and new: "find_by page_key ((k, inventory), page_token_text p) (m_pages db) = None" by (auto simp: awaits_def)
  have ok: "run_ok run (pages_of db (k, inventory))" and src: "source_at db k \<noteq> None"
    using run_invD [OF inv at] by simp_all
  have ok': "run_ok ?run' (pages_of db (k, inventory) @ [page_of now k inventory p digest])"
    by (rule run_ok_snoc [OF ok active]) (use tok good in simp_all)
  have runs: "run_at ?db' = (run_at db)((k, inventory) \<mapsto> ?run')"
    by (rule run_at_edit [OF _ _ at, where g = "\<lambda>r. r\<lparr>sr_expected := case_option [] (\<lambda>t. t) (p_next p),
       sr_pages := sr_pages r + 1, sr_items := sr_items r + int (length (p_items p)), sr_status := ''completed'',
       sr_completed := Some now\<rparr>", THEN trans])
      (simp_all add: db1 finish_run_def advance_run_def edit_by_edit_by mkeys)
  have srcs: "source_at ?db' k' = (if k' = k then map_option (\<lambda>s. s\<lparr>so_status := ''fresh'', so_complete_at := Some now,
      so_updated := now\<rparr>) (source_at db k') else source_at db k')" for k'
    by (rule source_at_edit) (simp_all add: db1 finish_run_def advance_run_def mkeys)
  have m: "moves db ?db' (k, inventory) ?run' (page_of now k inventory p digest)"
    using ok' by (simp add: moves_def runs srcs) (simp add: db1 finish_run_def advance_run_def mkeys)
  have keyed: "keyed stage_key (m_staging db)" "keyed sf_ident (m_source_facts db)"
    using inv by (simp_all add: minv_def keys_ok_def)
  have keyed1: "keyed stage_key (m_staging db1)" "m_source_facts db1 = m_source_facts db"
    using stage_items(1) [OF st keyed(1)] by (simp_all add: db1 advance_run_def)
  have "keyed stage_key (m_staging ?db')"
    using keyed1(1) by (auto simp: finish_run_def keyed_def distinct_map_filter)
  then have "keys_ok ?db'"
    using inv new keyed1 unfolding minv_def keys_ok_split
    by (simp add: finish_run_def mark_missing_keyed promote_all(2) run_stage_distinct)
      (simp add: db1 advance_run_def keyed_edit mkeys keyed_snoc)
  moreover have "staging_ok ?db'"
    by (rule moves_staging [OF m])
      (use inv stage_items(2) [OF st keyed(1)] in \<open>auto simp: minv_def db1 finish_run_def advance_run_def\<close>)
  moreover obtain s where "source_at ?db' k = Some s" "so_complete_at s = Some now"
    using src srcs [of k] by auto
  then have "snapshot_ok ?db'"
    by (rule finished_snapshot [where ?db0.0 = db, rotated 4])
      (use inv keyed keyed1 srcs moves_completed [OF m at active] in \<open>auto simp: minv_def completed_at_def runs\<close>)
  ultimately show ?thesis using moves_keeps [OF m inv at active] by (simp add: minv_def)
qed

section \<open>One call\<close>

text \<open>A page as \<open>source_page\<close> lets it through: a successful page ends the inventory exactly when it has no successor.\<close>

definition page_ok :: "page \<Rightarrow> bool" where
  "page_ok p \<longleftrightarrow> (p_complete p \<longrightarrow> p_successful p \<and> p_next p = None) \<and>
     (p_successful p \<longrightarrow> p_complete p \<longleftrightarrow> p_next p = None)"

lemma source_page_Inr:
  assumes "source_page clk body = Inr p"
  obtains items where "page_token_of (dget body ''pageToken'') = Inr (p_token p)"
    and "page_token_of (dget body ''nextPageToken'') = Inr (p_next p)"
    and "dget body ''complete'' = JBool (p_complete p)" and "dget body ''successful'' = JBool (p_successful p)"
    and "dget body ''items'' = JList items"
    and "mapE (\<lambda>(i, item). source_item (clk i) item) (List.enumerate 0 items) = Inr (p_items p)" and "page_ok p"
proof -
  obtain c where c: "dget body ''complete'' = JBool c"
    using assms by (cases "dget body ''complete''") (auto simp: source_page_def resE)
  obtain s where s: "dget body ''successful'' = JBool s"
    using assms c by (cases "dget body ''successful''") (auto simp: source_page_def resE)
  obtain items where items: "dget body ''items'' = JList items"
    using assms c s by (cases "dget body ''items''") (auto simp: source_page_def resE)
  show thesis
    using assms c s items by (intro that [of items]) (auto simp: source_page_def resE page_ok_def)
qed

lemma source_page_ok: "source_page clk body = Inr p \<Longrightarrow> page_ok p"
  by (erule source_page_Inr)

text \<open>
  A submitted page that is not refused either repeats an accepted page or is accepted in a well-formed state
  (\<open>db1\<close>, after the source and the run were opened) in which its run waits for it.
\<close>

lemma submit_page_Inr:
  assumes "submit_page now k inventory p digest db = Inr (v, db')" and inv: "minv db"
  obtains (replay) pg where "find_by page_key ((k, inventory), page_token_text p) (m_pages db) = Some pg" and "pg_digest pg = digest"
      and "db' = db" and "source_receipt k inventory True db = Inr v"
  | (accepted) db0 db1 run where "ensure_source now k db = Inr db0" and "ensure_run now k inventory p db0 = Inr (run, db1)"
      and "minv db1" and "awaits db1 k inventory p run" and "accept_page now k inventory p digest db1 = Inr db'"
      and "source_receipt k inventory False db' = Inr v"
proof -
  from assms(1) obtain db0 run db1 where e0: "ensure_source now k db = Inr db0"
    and e1: "ensure_run now k inventory p db0 = Inr (run, db1)"
    and rest: "(case find_by page_key ((k, inventory), page_token_text p) (m_pages db1) of
        Some prior \<Rightarrow> if pg_digest prior \<noteq> digest then conflict ''WORK_SOURCE_PAGE_CONFLICT''
          else bindE (source_receipt k inventory True db1) (\<lambda>v. Inr (v, db1))
      | None \<Rightarrow> if sr_status run \<noteq> ''in_progress'' then conflict ''WORK_SOURCE_INVENTORY_CLOSED''
          else if page_token_text p \<noteq> sr_expected run then conflict ''WORK_SOURCE_PAGE_GAP''
          else bindE (accept_page now k inventory p digest db1) (\<lambda>db.
            bindE (source_receipt k inventory False db) (\<lambda>v. Inr (v, db)))) = Inr (v, db')"
    unfolding submit_page_def bindE_eq_Inr split_paired_Ex prod.case by blast
  have inv1: "minv db1"
    by (rule ensure_run_minv [OF e1 ensure_source_minv [OF e0 inv] source_at_ensured(1) [OF e0]])
  show thesis
  proof (cases "find_by page_key ((k, inventory), page_token_text p) (m_pages db1)")
    case None
    with rest obtain "sr_status run = ''in_progress''" "page_token_text p = sr_expected run"
      and acc: "accept_page now k inventory p digest db1 = Inr db'" "source_receipt k inventory False db' = Inr v"
      by (auto simp: resE split: if_splits)
    with None run_at_ensured [OF e1] have "awaits db1 k inventory p run" by (simp add: awaits_def)
    from accepted [OF e0 e1 inv1 this acc] show thesis .
  next
    case (Some pg)
    have pages: "m_pages db0 = m_pages db" "m_pages db1 = m_pages db"
      using e0 e1 by (auto simp: ensure_source_Inr ensure_run_Inr split: option.splits)
    with Some have "pg \<in> set (m_pages db)" and key: "pg_run pg = (k, inventory)"
      by (auto simp: page_key_def dest!: find_by_SomeD)
    with inv have "run_at db (k, inventory) \<noteq> None" by (auto simp: minv_def pages_ok_def)
    then obtain r where r: "run_at db (k, inventory) = Some r" by blast
    with run_invD [OF inv r] e0 have "db0 = db" by (auto simp: ensure_source_Inr)
    with r e1 have "db1 = db" by (simp add: ensure_run_Inr)
    with Some rest have "pg_digest pg = digest" "db' = db" "source_receipt k inventory True db = Inr v"
      by (auto simp: resE split: if_splits)
    with Some show thesis unfolding pages by (intro replay)
  qed
qed

lemma accept_page_minv:
  assumes "accept_page now k inventory p digest db = Inr db'" and "minv db" and "awaits db k inventory p run" and "page_ok p"
  shows "minv db'"
  using assms(1)
proof (cases rule: accept_page_Inr)
  case failed
  with assms(2,3) show ?thesis by (blast intro: fail_minv)
next
  case (partial staging)
  with assms(4) have "p_next p \<noteq> None" by (simp add: page_ok_def)
  with partial assms(2,3) show ?thesis by (blast intro: partial_minv)
next
  case (complete staging)
  with assms(2,3) show ?thesis by (blast intro: finish_minv)
qed

lemma submit_page_minv:
  assumes "submit_page now k inventory p digest db = Inr (v, db')" and "minv db" and "page_ok p"
  shows "minv db'"
  using assms(1,2)
proof (cases rule: submit_page_Inr)
  case replay
  with assms(2) show ?thesis by simp
next
  case (accepted db0 db1 run)
  with assms(3) show ?thesis by (blast intro: accept_page_minv)
qed

lemma ingest_Inr:
  assumes "ingest_source_page clk now org ws source body db = (Inr v, db')"
  obtains o' inventory p digest where "work_scope org ws = Inr (o', ws)" and "dget body ''inventoryId'' = JStr inventory"
    and "source_page clk body = Inr p" and "work_digest (page_json p) = Inr digest"
    and "submit_page now (o', ws, source) inventory p digest db = Inr (v, db')"
  using assms by (auto simp: ingest_source_page_def resE work_scope_Inr split_paired_Ex; blast)

lemma ingest_minv: "minv db \<Longrightarrow> minv (snd (ingest_source_page clk now org ws source body db))"
proof (cases "ingest_source_page clk now org ws source body db")
  case (Pair r db')
  assume inv: "minv db"
  show ?thesis
  proof (cases r)
    case (Inl e)
    with Pair inv show ?thesis by (auto simp: ingest_source_page_def commit_Inl)
  next
    case (Inr v)
    with Pair have "ingest_source_page clk now org ws source body db = (Inr v, db')" by simp
    with inv Pair show ?thesis by (auto elim!: ingest_Inr dest: submit_page_minv source_page_ok)
  qed
qed

lemma put_fact_keyed:
  assumes "put_fact r t = Inr t'" and "keyed mf_slot t" and "keyed mf_ident t"
  shows "keyed mf_slot t' \<and> keyed mf_ident t'"
proof (cases "find_by mf_slot (mf_slot r) t")
  case None
  with assms show ?thesis by (auto simp: put_fact_def resE intro: keyed_snoc)
next
  case (Some prior)
  let ?f = "\<lambda>p. p\<lparr>mf_value := mf_value r, mf_source := mf_source r, mf_observed := mf_observed r, mf_fresh := mf_fresh r,
    mf_updated := mf_updated r\<rparr>"
  have "map mf_ident (edit_by mf_slot (mf_slot r) ?f t) = map mf_ident t"
    by (induction t) (simp_all add: edit_by_def mkeys)
  moreover from Some assms(1) have "t' = edit_by mf_slot (mf_slot r) ?f t" by (simp add: put_fact_def)
  ultimately show ?thesis using assms(2,3) by (simp add: keyed_edit mkeys) (simp add: keyed_def)
qed

text \<open>An upsert changes one of the two memory tables and nothing else.\<close>

lemma store_fact_Inr:
  assumes "store_fact t1 private_scope row db = Inr (v, db')"
  obtains tbl r where "put_fact row (if private_scope then m_private db else m_facts db) = Inr tbl"
    and "db' = (if private_scope then db\<lparr>m_private := tbl\<rparr> else db\<lparr>m_facts := tbl\<rparr>)"
    and "find_by mf_slot (mf_slot row) tbl = Some r" and "memory_view t1 db' r = Inr v"
  using assms by (auto simp: store_fact_def bindE_eq_Inr Let_def split: option.splits)

lemma upsert_minv: "minv db \<Longrightarrow> minv (snd (upsert_memory_fact fid t0 now t1 org ws body actor private_scope db))"
proof (cases "upsert_memory_fact fid t0 now t1 org ws body actor private_scope db")
  case (Pair r db')
  assume inv: "minv db"
  show ?thesis
  proof (cases r)
    case (Inl e)
    with Pair inv show ?thesis by (auto simp: upsert_memory_fact_def commit_Inl)
  next
    case (Inr v)
    with Pair obtain row where "store_fact t1 private_scope row db = Inr (v, db')"
      by (auto simp: upsert_memory_fact_def commit_Inr bindE_eq_Inr)
    then obtain tbl r where put: "put_fact row (if private_scope then m_private db else m_facts db) = Inr tbl"
      and db': "db' = (if private_scope then db\<lparr>m_private := tbl\<rparr> else db\<lparr>m_facts := tbl\<rparr>)" by (rule store_fact_Inr)
    have frame: "run_at db' = run_at db" "source_at db' = source_at db" "pages_of db' = pages_of db"
      "m_pages db' = m_pages db" "m_staging db' = m_staging db" "m_source_facts db' = m_source_facts db"
      by (simp_all add: db' fun_eq_iff run_at_def source_at_def pages_of_def)
    have "keyed mf_slot tbl \<and> keyed mf_ident tbl"
      by (rule put_fact_keyed [OF put]) (use inv in \<open>auto simp: minv_def keys_ok_def\<close>)
    then have "keys_ok db'" using inv by (simp add: minv_def keys_ok_def db')
    with inv have "minv db'"
      unfolding minv_def runs_ok_def one_active_def pages_ok_def staging_ok_def snapshot_ok_def completed_at_def frame by simp
    with Pair show ?thesis by simp
  qed
qed

inductive mstep :: "mdb \<Rightarrow> mdb \<Rightarrow> bool" where
  mt_upsert: "mstep db (snd (upsert_memory_fact fid t0 now t1 org ws body actor private_scope db))"
| mt_ingest: "mstep db (snd (ingest_source_page clk now org ws source body db))"

inductive_cases mstepE: "mstep db db'"

lemma mstep_minv: "mstep db db' \<Longrightarrow> minv db \<Longrightarrow> minv db'"
  by (erule mstepE) (simp_all add: upsert_minv ingest_minv)

end
