(* ===== verification/Memory_Refine.thy ===== *)
theory Memory_Refine
  imports Memory_Inv
begin

text \<open>
  What an inventory does to the facts a source shows. \<open>inventory\<close> is the contract: a source shows a map of facts;
  an open inventory collects a second map page by page and replaces the first by it when its final page
  arrives; a failed inventory is dropped. \<open>locale history\<close> is interpreted on the calls of the component.
\<close>

section \<open>Pages and the two maps\<close>

lemma present_inventory:
  assumes "minv db" and "find_by sf_ident (k, key) (m_source_facts db) = Some f" and "sf_missing f = None"
    and "run_at db (k, inventory) = Some run" and "sr_status run = ''in_progress''"
  shows "sf_inventory f \<noteq> inventory"
proof -
  from assms(2) have f: "f \<in> set (m_source_facts db)" and "sf_src f = k" by (auto simp: sf_ident_def dest!: find_by_SomeD)
  with assms(1,3) obtain t where "completed_at db (k, sf_inventory f) t"
    unfolding minv_def snapshot_ok_def by metis
  with assms(4,5) show ?thesis by (auto simp: completed_at_def)
qed

lemma accept_shown:
  assumes acc: "accept_page now k inventory p digest db = Inr db'" and inv: "minv db" and aw: "awaits db k inventory p run"
  shows "shown db' k' = (if k' = k \<and> p_successful p \<and> p_complete p then foldl add_item (staged db (k, inventory)) (p_items p)
     else shown db k')"
  using acc
proof (cases rule: accept_page_Inr)
  case failed
  then show ?thesis by (simp add: shown_def fun_eq_iff fail_run_def)
next
  case (partial staging)
  then show ?thesis by (simp add: shown_def fun_eq_iff advance_run_def)
next
  case (complete staging)
  let ?db1 = "advance_run k inventory p (db\<lparr>m_pages := m_pages db @ [page_of now k inventory p digest], m_staging := staging\<rparr>)"
  have keyed: "keyed stage_key (m_staging db)" using inv by (simp add: minv_def keys_ok_def)
  have st: "m_staging ?db1 = staging" "m_source_facts ?db1 = m_source_facts db" by (simp_all add: advance_run_def)
  have keyed1: "keyed stage_key (m_staging ?db1)" using stage_items(1) [OF complete(3) keyed] by (simp add: st)
  have staged1: "foldl add_item (staged db (k, inventory)) (p_items p) key =
      map_option (\<lambda>s. (st_value s, st_observed s)) (find_by stage_key ((k, inventory), key) staging)" for key
    using stage_items(3) [OF complete(3) keyed, of db, THEN fun_cong, of key] by (simp add: staged_def)
  from aw have "run_at db (k, inventory) = Some run" "sr_status run = ''in_progress''" by (auto simp: awaits_def)
  note gone = present_inventory [OF inv _ _ this]
  show ?thesis
    using complete(1,2) gone
    by (auto simp: fun_eq_iff complete(4) shown_def finished_fact [OF keyed1] st staged1 promoted_def split: option.splits)
qed

lemma accept_staged:
  assumes acc: "accept_page now k inventory p digest db = Inr db'" and inv: "minv db"
  shows "staged db' rk = (if rk = (k, inventory) \<and> p_successful p
     then (if p_complete p then Map.empty else foldl add_item (staged db rk) (p_items p)) else staged db rk)"
proof -
  have keyed: "keyed stage_key (m_staging db)" using inv by (simp add: minv_def keys_ok_def)
  show ?thesis
    using acc
  proof (cases rule: accept_page_Inr)
    case failed
    then show ?thesis by (simp add: staged_def fun_eq_iff fail_run_def)
  next
    case (partial staging)
    have "staged db' rk = staged (db\<lparr>m_staging := staging\<rparr>) rk" by (simp add: partial(4) staged_def fun_eq_iff advance_run_def)
    with stage_items(3) [OF partial(3) keyed, of db] stage_items(4) [OF partial(3) keyed, of rk db] partial(1,2) show ?thesis by (cases "rk = (k, inventory)") simp_all
  next
    case (complete staging)
    have drop: "find_by stage_key (rk, key) (filter (\<lambda>s. st_run s \<noteq> (k, inventory)) t) =
        (if rk = (k, inventory) then None else find_by stage_key (rk, key) t)" for key t
      by (induction t) (auto simp: find_by_Cons, auto simp: stage_key_def)
    have "staged db' rk = (if rk = (k, inventory) then Map.empty else staged (db\<lparr>m_staging := staging\<rparr>) rk)"
      by (simp add: complete(4) staged_def fun_eq_iff finish_run_def advance_run_def drop)
    with stage_items(4) [OF complete(3) keyed, of rk db] complete(1,2) show ?thesis by simp
  qed
qed

lemma ensured_maps:
  assumes "ensure_source now k db = Inr db0" and "ensure_run now k inventory p db0 = Inr (run, db1)"
  shows "shown db1 = shown db" and "staged db1 = staged db" and "run_at db1 = (run_at db)((k, inventory) \<mapsto> run)"
proof -
  have tables: "m_source_facts db1 = m_source_facts db" "m_staging db1 = m_staging db" "m_runs db0 = m_runs db"
    using assms by (auto simp: ensure_source_Inr ensure_run_Inr split: option.splits)
  then show "shown db1 = shown db" "staged db1 = staged db" by (simp_all add: shown_def staged_def fun_eq_iff)
  from tables have "run_at db0 = run_at db" by (simp add: run_at_def fun_eq_iff)
  with run_at_ensured [OF assms(2)] show "run_at db1 = (run_at db)((k, inventory) \<mapsto> run)" by simp
qed

section \<open>Runs, pages and sources after an accepted page\<close>

definition outcome :: "page \<Rightarrow> string" where
  "outcome p = (if \<not> p_successful p then ''failed'' else if p_complete p then ''completed'' else ''in_progress'')"

lemma accept_tables:
  assumes acc: "accept_page now k inventory p digest db = Inr db'" and at: "run_at db (k, inventory) = Some run"
    and open_run: "sr_status run = ''in_progress''"
  shows "m_pages db' = m_pages db @ [page_of now k inventory p digest] \<and>
      (\<exists>run'. run_at db' = (run_at db)((k, inventory) \<mapsto> run') \<and> sr_status run' = outcome p \<and>
      sr_pages run' = sr_pages run + 1 \<and> sr_items run' = sr_items run + int (length (p_items p)) \<and>
      (p_successful p \<longrightarrow> sr_expected run' = case_option [] (\<lambda>t. t) (p_next p)) \<and>
      (outcome p \<noteq> ''in_progress'' \<longrightarrow> sr_completed run' = Some now)) \<and>
      (\<forall>s. source_at db k = Some s \<longrightarrow> (\<exists>s'. source_at db' k = Some s' \<and>
      so_status s' = (if \<not> p_successful p then ''failed'' else if p_complete p then ''fresh'' else ''incomplete'') \<and>
      so_complete_at s' = (if p_successful p \<and> p_complete p then Some now else so_complete_at s)))"
  using acc
proof (cases rule: accept_page_Inr)
  case failed
  have "run_at db' = (run_at db)((k, inventory) \<mapsto> run\<lparr>sr_status := ''failed'', sr_pages := sr_pages run + 1,
      sr_items := sr_items run + int (length (p_items p)), sr_completed := Some now\<rparr>)"
    by (rule run_at_edit [OF _ _ at]) (simp_all add: failed(2) fail_run_def mkeys)
  then show ?thesis using failed(1)
    by (auto simp: outcome_def) (simp_all add: failed(2) fail_run_def source_at_def find_by_edit mkeys)
next
  case (partial staging)
  have "run_at db' = (run_at db)((k, inventory) \<mapsto> run\<lparr>sr_expected := case_option [] (\<lambda>t. t) (p_next p),
      sr_pages := sr_pages run + 1, sr_items := sr_items run + int (length (p_items p))\<rparr>)"
    by (rule run_at_edit [OF _ _ at]) (simp_all add: partial(4) advance_run_def mkeys)
  then show ?thesis using partial(1,2) open_run
    by (auto simp: outcome_def) (simp_all add: partial(4) advance_run_def source_at_def find_by_edit mkeys)
next
  case (complete staging)
  have "run_at db' = (run_at db)((k, inventory) \<mapsto> (\<lambda>r. r\<lparr>sr_expected := case_option [] (\<lambda>t. t) (p_next p),
      sr_pages := sr_pages r + 1, sr_items := sr_items r + int (length (p_items p)), sr_status := ''completed'',
      sr_completed := Some now\<rparr>) run)"
    by (rule run_at_edit [OF _ _ at]) (simp_all add: complete(4) advance_run_def finish_run_def edit_by_edit_by mkeys)
  then show ?thesis using complete(1,2)
    by (auto simp: outcome_def) (simp_all add: complete(4) advance_run_def finish_run_def source_at_def find_by_edit mkeys)
qed

section \<open>The contract\<close>

text \<open>
  The abstract state of one source: the facts it shows and the open inventory with the facts collected so far.
\<close>

type_synonym source_state = "facts \<times> (string \<times> facts) option"

definition source_state :: "mdb \<Rightarrow> source_key \<Rightarrow> source_state" where
  "source_state db k = (shown db k, map_option (\<lambda>r. (sr_inventory r, staged db (k, sr_inventory r)))
     (List.find (active_run k) (m_runs db)))"

fun collected :: "string \<Rightarrow> (string \<times> facts) option \<Rightarrow> facts option" where
  "collected inventory None = Some Map.empty"
| "collected inventory (Some (i, m)) = (if i = inventory then Some m else None)"

inductive inventory_step :: "source_state \<Rightarrow> source_state \<Rightarrow> bool" where
  is_stay: "inventory_step s s"
| is_collect: "collected i c = Some m \<Longrightarrow> inventory_step (f, c) (f, Some (i, foldl add_item m items))"
| is_replace: "collected i c = Some m \<Longrightarrow> inventory_step (f, c) (foldl add_item m items, None)"
| is_drop: "collected i c = Some m \<Longrightarrow> inventory_step (f, c) (f, None)"

lemma active_at:
  assumes "minv db"
  shows "List.find (active_run k) (m_runs db) = Some r \<longleftrightarrow>
    run_at db (k, sr_inventory r) = Some r \<and> sr_status r = ''in_progress''"
proof -
  have keyed: "keyed run_key (m_runs db)" using assms by (simp add: minv_def keys_ok_def)
  have in_at: "run_at db (k, sr_inventory r) = Some r \<and> sr_status r = ''in_progress''"
    if "r \<in> set (m_runs db)" "active_run k r" for r
    using find_by_keyed [OF keyed that(1)] that(2) by (auto simp: run_at_def active_run_def run_key_def)
  show ?thesis
  proof
    assume "List.find (active_run k) (m_runs db) = Some r"
    then show "run_at db (k, sr_inventory r) = Some r \<and> sr_status r = ''in_progress''"
      by (intro in_at) (auto simp: find_Some_iff)
  next
    assume r: "run_at db (k, sr_inventory r) = Some r \<and> sr_status r = ''in_progress''"
    then have "r \<in> set (m_runs db)" "active_run k r"
      by (auto simp: run_at_def active_run_def run_key_def dest!: find_by_SomeD)
    then have "List.find (active_run k) (m_runs db) \<noteq> None" by (auto simp: find_None_iff)
    then obtain r' where r': "List.find (active_run k) (m_runs db) = Some r'" by blast
    then have "run_at db (k, sr_inventory r') = Some r' \<and> sr_status r' = ''in_progress''"
      by (intro in_at) (auto simp: find_Some_iff)
    with r assms have "sr_inventory r' = sr_inventory r" unfolding minv_def one_active_def by blast
    with r r' \<open>run_at db (k, sr_inventory r') = Some r' \<and> _\<close> show "List.find (active_run k) (m_runs db) = Some r" by simp
  qed
qed

lemma source_state_open:
  assumes "minv db" and "run_at db (k, i) = Some r" and "sr_status r = ''in_progress''"
  shows "source_state db k = (shown db k, Some (i, staged db (k, i)))"
proof -
  from assms(2) have "sr_inventory r = i" by (auto simp: run_at_def run_key_def dest!: find_by_key)
  with assms active_at [of db k r] show ?thesis by (simp add: source_state_def)
qed

lemma source_state_closed:
  assumes "minv db" and "\<And>i r. run_at db (k, i) = Some r \<Longrightarrow> sr_status r \<noteq> ''in_progress''"
  shows "source_state db k = (shown db k, None)"
proof -
  have "List.find (active_run k) (m_runs db) = None"
    using active_at [OF assms(1)] assms(2) by (metis not_None_eq)
  then show ?thesis by (simp add: source_state_def)
qed

section \<open>Every call follows the contract\<close>

lemma staged_none:
  assumes "minv db" and "run_at db rk = None"
  shows "staged db rk = Map.empty"
proof (rule ext)
  fix key
  show "staged db rk key = None"
  proof (rule ccontr)
    assume "staged db rk key \<noteq> None"
    then obtain s where "find_by stage_key (rk, key) (m_staging db) = Some s" by (auto simp: staged_def)
    then have "s \<in> set (m_staging db)" "st_run s = rk" by (auto simp: stage_key_def dest!: find_by_SomeD)
    with assms show False by (auto simp: minv_def staging_ok_def)
  qed
qed

text \<open>What the inventory had collected before the page, and that no other inventory of the source was open.\<close>

lemma collected_before:
  assumes "minv db" and "ensure_source now k db = Inr db0" and "ensure_run now k i p db0 = Inr (run, db1)"
    and "sr_status run = ''in_progress''"
  shows "collected i (snd (source_state db k)) = Some (staged db1 (k, i))"
proof (cases "run_at db (k, i)")
  case (Some r)
  then have "run_at db1 (k, i) = Some r"
  proof -
    have "m_runs db0 = m_runs db" using assms(2) by (auto simp: ensure_source_Inr split: option.splits)
    then have "run_at db0 (k, i) = Some r" using Some by (simp add: run_at_def)
    with assms(3) show ?thesis by (simp add: ensure_run_Inr)
  qed
  with assms(4) ensured_maps(3) [OF assms(2,3)] have "sr_status r = ''in_progress''" by simp
  from source_state_open [OF assms(1) Some this] ensured_maps(2) [OF assms(2,3)] show ?thesis by simp
next
  case None
  have runs: "m_runs db0 = m_runs db" using assms(2) by (auto simp: ensure_source_Inr split: option.splits)
  then have "run_at db0 (k, i) = None" using None by (simp add: run_at_def)
  with assms(3) runs have quiet: "\<forall>r \<in> set (m_runs db). \<not> active_run k r" by (simp add: ensure_run_Inr)
  have "source_state db k = (shown db k, None)"
    by (rule source_state_closed [OF assms(1)])
      (use quiet in \<open>auto simp: run_at_def active_run_def run_key_def dest!: find_by_SomeD\<close>)
  with staged_none [OF assms(1) None] ensured_maps(2) [OF assms(2,3)] show ?thesis by simp
qed

text \<open>The state of every source after an accepted page.\<close>

lemma accepted_state:
  assumes e: "ensure_source now k db = Inr db0" "ensure_run now k i p db0 = Inr (run, db1)" and inv: "minv db" "minv db1" "minv db'"
    and aw: "awaits db1 k i p run" and acc: "accept_page now k i p digest db1 = Inr db'"
  shows "\<exists>m. collected i (snd (source_state db k)) = Some m \<and> source_state db' k =
      (if \<not> p_successful p then (shown db k, None)
       else if p_complete p then (foldl add_item m (p_items p), None)
       else (shown db k, Some (i, foldl add_item m (p_items p))))"
    and "k' \<noteq> k \<Longrightarrow> source_state db' k' = source_state db k'"
proof -
  from aw have active: "sr_status run = ''in_progress''" and at1: "run_at db1 (k, i) = Some run" by (auto simp: awaits_def)
  note maps = ensured_maps [OF e]
  note coll = collected_before [OF inv(1) e active]
  note sh = accept_shown [OF acc inv(2) aw] and stg = accept_staged [OF acc inv(2)]
  obtain run' where at': "run_at db' = (run_at db1)((k, i) \<mapsto> run')" and st': "sr_status run' = outcome p"
    using accept_tables [OF acc at1 active] by blast
  have others: "sr_status r \<noteq> ''in_progress''" if "run_at db1 (k, j) = Some r" "j \<noteq> i" for j r
    using inv(2) at1 active that unfolding minv_def one_active_def by blast
  show "source_state db' k' = source_state db k'" if "k' \<noteq> k"
  proof -
    have runs: "run_at db' (k', j) = run_at db (k', j)" for j using that by (simp add: at' maps(3))
    have "List.find (active_run k') (m_runs db') = List.find (active_run k') (m_runs db)"
      using active_at [OF inv(3), of k'] active_at [OF inv(1), of k'] by (metis not_None_eq runs)
    with that show ?thesis by (simp add: source_state_def sh stg maps(1,2))
  qed
  show "\<exists>m. collected i (snd (source_state db k)) = Some m \<and> source_state db' k =
      (if \<not> p_successful p then (shown db k, None)
       else if p_complete p then (foldl add_item m (p_items p), None)
       else (shown db k, Some (i, foldl add_item m (p_items p))))"
  proof (cases "outcome p = ''in_progress''")
    case True
    then have p: "p_successful p" "\<not> p_complete p" by (auto simp: outcome_def split: if_splits)
    have "source_state db' k = (shown db k, Some (i, foldl add_item (staged db1 (k, i)) (p_items p)))"
      using source_state_open [OF inv(3), of k i run'] True p by (simp add: at' st' sh stg maps(1))
    with coll p show ?thesis by simp
  next
    case False
    have "source_state db' k = (shown db' k, None)"
      by (rule source_state_closed [OF inv(3)]) (use False others in \<open>auto simp: at' st' split: if_splits\<close>)
    with coll False show ?thesis by (auto simp: sh maps(1) outcome_def split: if_splits)
  qed
qed

lemma submit_exact:
  assumes sub: "submit_page now k i p digest db = Inr (v, db')" and inv: "minv db" and ok: "page_ok p"
  shows "if rc_duplicate v then db' = db else
    (\<exists>m. collected i (snd (source_state db k)) = Some m \<and> source_state db' k =
      (if \<not> p_successful p then (shown db k, None)
       else if p_complete p then (foldl add_item m (p_items p), None)
       else (shown db k, Some (i, foldl add_item m (p_items p)))))"
    and "k' \<noteq> k \<Longrightarrow> source_state db' k' = source_state db k'"
proof -
  have dup: "source_receipt k i d db2 = Inr v \<Longrightarrow> rc_duplicate v = d" for d db2
    by (auto simp: source_receipt_def split: option.splits if_splits)
  have inv': "minv db'" by (rule submit_page_minv [OF sub inv ok])
  have "(if rc_duplicate v then db' = db else
    (\<exists>m. collected i (snd (source_state db k)) = Some m \<and> source_state db' k =
      (if \<not> p_successful p then (shown db k, None)
       else if p_complete p then (foldl add_item m (p_items p), None)
       else (shown db k, Some (i, foldl add_item m (p_items p)))))) \<and>
    (k' \<noteq> k \<longrightarrow> source_state db' k' = source_state db k')"
    using sub inv
  proof (cases rule: submit_page_Inr)
    case replay
    with dup show ?thesis by simp
  next
    case (accepted db0 db1 run)
    note st = accepted_state [OF accepted(1,2) inv accepted(3) inv' accepted(4,5)]
    from dup [OF accepted(6)] st(1) st(2) [of k'] show ?thesis by simp
  qed
  then show "if rc_duplicate v then db' = db else
    (\<exists>m. collected i (snd (source_state db k)) = Some m \<and> source_state db' k =
      (if \<not> p_successful p then (shown db k, None)
       else if p_complete p then (foldl add_item m (p_items p), None)
       else (shown db k, Some (i, foldl add_item m (p_items p)))))" and
    "k' \<noteq> k \<Longrightarrow> source_state db' k' = source_state db k'" by simp_all
qed

lemma submit_refines:
  assumes sub: "submit_page now k i p digest db = Inr (v, db')" and inv: "minv db" and ok: "page_ok p"
  shows "inventory_step (source_state db k) (source_state db' k)"
proof -
  obtain c where c: "source_state db k = (shown db k, c)" by (simp add: source_state_def)
  from submit_exact(1) [OF sub inv ok] show ?thesis
    by (auto simp: c is_stay split: if_splits intro: is_replace is_drop is_collect)
qed

lemma upsert_source_state:
  "source_state (snd (upsert_memory_fact fid t0 now t1 org ws body actor private_scope db)) = source_state db"
proof -
  have "m_source_facts db' = m_source_facts db \<and> m_staging db' = m_staging db \<and> m_runs db' = m_runs db"
    if "store_fact t1 private_scope row db = Inr (v, db')" for row v db'
    using that by (rule store_fact_Inr) auto
  then show ?thesis
    by (auto simp: upsert_memory_fact_def commit_def source_state_def shown_def [abs_def] staged_def [abs_def] fun_eq_iff
        resE split: sum.splits prod.splits)
qed

section \<open>Over time\<close>

text \<open>Accepted pages stay, a closed run never changes, no fact and no source is deleted, and a memory fact keeps its id.\<close>

definition keeps_ids :: "fact_row list \<Rightarrow> fact_row list \<Rightarrow> bool" where
  "keeps_ids t t' \<longleftrightarrow> (\<forall>slot r. find_by mf_slot slot t = Some r \<longrightarrow>
     (\<exists>r'. find_by mf_slot slot t' = Some r' \<and> mf_id r' = mf_id r))"

definition mgrows :: "mdb \<Rightarrow> mdb \<Rightarrow> bool" where
  "mgrows db db' \<longleftrightarrow> (\<exists>ps. m_pages db' = m_pages db @ ps) \<and>
     (\<forall>rk r. run_at db rk = Some r \<longrightarrow> (\<exists>r'. run_at db' rk = Some r' \<and> (sr_status r \<noteq> ''in_progress'' \<longrightarrow> r' = r))) \<and>
     (\<forall>fk. find_by sf_ident fk (m_source_facts db) \<noteq> None \<longrightarrow> find_by sf_ident fk (m_source_facts db') \<noteq> None) \<and>
     (\<forall>k. source_at db k \<noteq> None \<longrightarrow> source_at db' k \<noteq> None) \<and>
     keeps_ids (m_facts db) (m_facts db') \<and> keeps_ids (m_private db) (m_private db')"

lemma keeps_ids_refl: "keeps_ids t t"
  by (simp add: keeps_ids_def)

lemma keeps_ids_trans: "keeps_ids t u \<Longrightarrow> keeps_ids u v \<Longrightarrow> keeps_ids t v"
  unfolding keeps_ids_def by metis

lemma mgrows_refl: "mgrows db db"
  by (auto simp: mgrows_def keeps_ids_refl)

lemma mgrows_trans:
  assumes "mgrows a b" and "mgrows b c"
  shows "mgrows a c"
proof -
  have "\<exists>r'. run_at c rk = Some r' \<and> (sr_status r \<noteq> ''in_progress'' \<longrightarrow> r' = r)" if r: "run_at a rk = Some r" for rk r
  proof -
    from assms(1) r obtain r1 where r1: "run_at b rk = Some r1" "sr_status r \<noteq> ''in_progress'' \<longrightarrow> r1 = r"
      unfolding mgrows_def by blast
    from assms(2) r1(1) obtain r2 where "run_at c rk = Some r2" "sr_status r1 \<noteq> ''in_progress'' \<longrightarrow> r2 = r1"
      unfolding mgrows_def by blast
    with r1 show ?thesis by auto
  qed
  moreover have "\<exists>ps. m_pages c = m_pages a @ ps" using assms by (auto simp: mgrows_def)
  moreover have "keeps_ids (m_facts a) (m_facts c)" "keeps_ids (m_private a) (m_private c)"
    using assms unfolding mgrows_def by (blast intro: keeps_ids_trans)+
  ultimately show ?thesis using assms unfolding mgrows_def by blast
qed

lemma put_fact_keeps: "put_fact r t = Inr t' \<Longrightarrow> keeps_ids t t'"
  by (auto simp: put_fact_def keeps_ids_def resE find_by_edit mkeys find_by_append split: option.splits)

lemma accept_grows:
  assumes acc: "accept_page now k i p digest db = Inr db'" and inv: "minv db" and aw: "awaits db k i p run"
  shows "mgrows db db'"
proof -
  from aw have at: "run_at db (k, i) = Some run" and active: "sr_status run = ''in_progress''" by (auto simp: awaits_def)
  note tabs = accept_tables [OF acc at active]
  have keyed: "keyed stage_key (m_staging db)" using inv by (simp add: minv_def keys_ok_def)
  have facts: "find_by sf_ident fk (m_source_facts db) \<noteq> None \<Longrightarrow> find_by sf_ident fk (m_source_facts db') \<noteq> None" for fk
    using acc
  proof (cases rule: accept_page_Inr)
    case (complete staging)
    assume "find_by sf_ident fk (m_source_facts db) \<noteq> None"
    moreover have "keyed stage_key (m_staging (advance_run k i p (db\<lparr>m_pages := m_pages db @ [page_of now k i p digest], m_staging := staging\<rparr>)))"
      using stage_items(1) [OF complete(3) keyed] by (simp add: advance_run_def)
    ultimately show ?thesis unfolding complete(4)
      by (cases fk) (auto simp: finished_fact advance_run_def split: option.splits)
  qed (auto simp: fail_run_def advance_run_def)
  have mem: "m_facts db' = m_facts db" "m_private db' = m_private db"
    using acc by (cases rule: accept_page_Inr; simp add: fail_run_def advance_run_def finish_run_def)+
  have src: "source_at db k' \<noteq> None \<Longrightarrow> source_at db' k' \<noteq> None" for k'
    using acc by (cases rule: accept_page_Inr)
      (auto simp: fail_run_def advance_run_def finish_run_def source_at_def find_by_edit mkeys split: if_splits)
  obtain run' where at': "run_at db' = (run_at db)((k, i) \<mapsto> run')" using tabs by blast
  have "\<exists>r'. run_at db' rk = Some r' \<and> (sr_status r \<noteq> ''in_progress'' \<longrightarrow> r' = r)" if "run_at db rk = Some r" for rk r
    using that at active by (cases "rk = (k, i)") (simp_all add: at')
  moreover have "\<exists>ps. m_pages db' = m_pages db @ ps" using tabs by blast
  ultimately show ?thesis unfolding mgrows_def mem using facts src by (blast intro: keeps_ids_refl)
qed

lemma ensured_grows:
  assumes "ensure_source now k db = Inr db0" and "ensure_run now k i p db0 = Inr (run, db1)"
  shows "mgrows db db1"
proof -
  have tables: "m_pages db1 = m_pages db" "m_source_facts db1 = m_source_facts db" "m_facts db1 = m_facts db"
    "m_private db1 = m_private db" "m_sources db1 = m_sources db0"
    using assms by (auto simp: ensure_source_Inr ensure_run_Inr split: option.splits)
  have "m_runs db0 = m_runs db" using assms(1) by (auto simp: ensure_source_Inr split: option.splits)
  then have runs: "run_at db rk = Some r \<Longrightarrow> run_at db1 rk = Some r" for rk r
    using assms(2) by (auto simp: ensure_run_Inr run_at_def find_by_append split: option.splits)
  have "source_at db k' \<noteq> None \<Longrightarrow> source_at db1 k' \<noteq> None" for k'
    using source_at_ensured(2) [OF assms(1), of k'] by (auto simp: source_at_def tables)
  with runs show ?thesis unfolding mgrows_def tables by (blast intro: keeps_ids_refl)
qed

lemma submit_grows:
  assumes "submit_page now k i p digest db = Inr (v, db')" and "minv db"
  shows "mgrows db db'"
  using assms
proof (cases rule: submit_page_Inr)
  case replay
  then show ?thesis by (simp add: mgrows_refl)
next
  case (accepted db0 db1 run)
  from ensured_grows [OF accepted(1,2)] accept_grows [OF accepted(5,3,4)] show ?thesis by (rule mgrows_trans)
qed

lemma mstep_grows: "mstep db db' \<Longrightarrow> minv db \<Longrightarrow> mgrows db db'"
proof (erule mstepE)
  fix fid t0 now t1 org ws body actor private_scope
  assume db': "db' = snd (upsert_memory_fact fid t0 now t1 org ws body actor private_scope db)"
  show "mgrows db db'"
  proof (cases "\<exists>row v. store_fact t1 private_scope row db = Inr (v, db')")
    case True
    then obtain row v where "store_fact t1 private_scope row db = Inr (v, db')" by blast
    then obtain tbl where put: "put_fact row (if private_scope then m_private db else m_facts db) = Inr tbl"
      and db1: "db' = (if private_scope then db\<lparr>m_private := tbl\<rparr> else db\<lparr>m_facts := tbl\<rparr>)" by (rule store_fact_Inr)
    from put_fact_keeps [OF put] show ?thesis
      by (cases private_scope) (simp_all add: db1 mgrows_def run_at_def source_at_def keeps_ids_refl)
  next
    case False
    then have "db' = db"
      by (auto simp: db' upsert_memory_fact_def commit_def resE split: sum.splits prod.splits)
    then show ?thesis by (simp add: mgrows_refl)
  qed
next
  fix clk now org ws source body
  assume inv: "minv db" and db': "db' = snd (ingest_source_page clk now org ws source body db)"
  show "mgrows db db'"
  proof (cases "fst (ingest_source_page clk now org ws source body db)")
    case (Inl e)
    then have "db' = db" by (auto simp: db' ingest_source_page_def commit_def split: sum.splits prod.splits)
    then show ?thesis by (simp add: mgrows_refl)
  next
    case (Inr v)
    then have "ingest_source_page clk now org ws source body db = (Inr v, db')" by (simp add: db' prod_eq_iff)
    then show ?thesis by (rule ingest_Inr) (blast intro: submit_grows inv)
  qed
qed

interpretation mh: history mstep minv mgrows
  by unfold_locales (blast intro: mstep_minv mstep_grows mgrows_refl mgrows_trans)+

end
