(* ===== verification/Memory_Live.thy ===== *)
theory Memory_Live
  imports Memory_Refine
begin

text \<open>
  Inventories that make progress: a chain of well-formed pages is accepted page by page and ends with exactly its
  facts shown. And inventories that cannot: once the token an open inventory waits for belongs to a page it has
  already accepted, no request can ever change the source again.
\<close>

section \<open>Stored values compare equal to what was stored\<close>

lemma sort_key_map_fst: "sort_key fst (map (\<lambda>(k, v). (k, h v)) ps) = map (\<lambda>(k, v). (k, h v)) (sort_key fst ps)"
proof (induction ps)
  case (Cons p ps)
  have "insort_key fst (a, h b) (map (\<lambda>(k, v). (k, h v)) qs) = map (\<lambda>(k, v). (k, h v)) (insort_key fst (a, b) qs)" for a b qs
    by (induction qs) auto
  with Cons show ?case by (cases p) simp
qed simp

lemma canon_idem:
  "canon (canon v) = canon v"
  "canon_list (canon_list xs) = canon_list xs"
  "canon_items (canon_items ps) = canon_items ps"
proof (induction v and xs and ps rule: canon_canon_list_canon_items.induct)
  case (2 kvs)
  have "canon_items (sort_key fst ps) = sort_key fst (canon_items ps)" for ps
    by (simp add: canon_items_map sort_key_map_fst)
  with 2 show ?case by (simp add: sort_key_id_if_sorted)
qed simp_all

lemma py_eq_c_refl:
  "jok v \<Longrightarrow> py_eq_c v v"
  "jok_list xs \<Longrightarrow> py_eq_list xs xs"
  "jok_items ps \<Longrightarrow> py_eq_items ps ps"
  by (induction v and xs and ps rule: canon_canon_list_canon_items.induct) (auto split: pyfloat.splits)

lemma stored_py_eq:
  assumes "jwf (JDict d)" and "jok (JDict d)"
  shows "\<exists>old. stored_object (render (canon (JDict d))) = Inr old \<and> py_eq (JDict old) (JDict d)"
proof -
  have "stored_object (render (canon (JDict d))) = Inr (sort_key fst (canon_items d))"
    by (rule stored_object_text) (use assms in \<open>simp_all add: work_json_text_def json_text_def\<close>)
  moreover have "py_eq (canon (JDict d)) (JDict d)"
    using py_eq_c_refl(1) [OF canon_ok(1) [OF assms(2)]] by (simp only: py_eq_def canon_idem(1))
  ultimately show ?thesis by simp
qed

section \<open>Requests\<close>

text \<open>The request body of a page, and the pages that pass the validators.\<close>

definition page_body :: "string \<Rightarrow> page \<Rightarrow> json_object" where
  "page_body inventory p = [(''inventoryId'', JStr inventory), (''pageToken'', jopt (p_token p)),
     (''nextPageToken'', jopt (p_next p)), (''complete'', JBool (p_complete p)), (''successful'', JBool (p_successful p)),
     (''items'', JList (map (\<lambda>(key, value, observed). JDict [(''key'', JStr key), (''value'', JDict value),
        (''observedAt'', JInt observed)]) (p_items p)))]"

definition token_ok :: "string option \<Rightarrow> bool" where
  "token_ok t = (case t of None \<Rightarrow> True | Some s \<Rightarrow> bounded_text (JStr s) 2000 False = Inr s)"

definition item_ok :: "string \<times> json_object \<times> int \<Rightarrow> bool" where
  "item_ok item = (case item of (key, value, observed) \<Rightarrow> bounded_text (JStr key) 512 False = Inr key \<and>
     work_json_object (JDict value) = Inr value \<and> jwf (JDict value) \<and> nonnegative_integer (JInt observed) = Inr observed)"

definition page_valid :: "page \<Rightarrow> bool" where
  "page_valid p \<longleftrightarrow> token_ok (p_token p) \<and> token_ok (p_next p) \<and> list_all item_ok (p_items p) \<and> page_ok p"

lemma jopt_token: "token_ok t \<Longrightarrow> page_token_of (jopt t) = Inr t"
  by (cases t) (simp_all add: token_ok_def page_token_of_def)

lemma enumerate_mapE:
  assumes "\<And>i x. x \<in> set xs \<Longrightarrow> f (i, g x) = Inr x"
  shows "mapE f (List.enumerate n (map g xs)) = Inr xs"
  using assms by (induction xs arbitrary: n) simp_all

lemma source_page_body:
  assumes "page_valid p"
  shows "source_page clk (page_body inventory p) = Inr p"
proof -
  have "mapE (\<lambda>(i, item). source_item (clk i) item) (List.enumerate 0 (map (\<lambda>(key, value, observed).
      JDict [(''key'', JStr key), (''value'', JDict value), (''observedAt'', JInt observed)]) (p_items p))) = Inr (p_items p)"
    using assms by (intro enumerate_mapE)
      (auto simp: page_valid_def list_all_iff item_ok_def source_item_def dget_def dget_or_def dhas_def)
  then show ?thesis
    using assms by (simp add: source_page_def page_body_def dget_def page_valid_def jopt_token)
      (auto simp: page_ok_def)
qed

lemma item_okD:
  assumes "item_ok (key, v, observed)"
  shows "jok (JDict v) \<and> jwf (JDict v) \<and> int_ok observed"
proof -
  from assms have v: "work_json_object (JDict v) = Inr v" "jwf (JDict v)" "0 \<le> observed" "observed < 2 ^ 53"
    by (auto simp: item_ok_def nonnegative_integer_def split: if_splits)
  from work_json_object_Inr [OF v(1)] v(2) small_int_ok [OF v(3,4)] show ?thesis by blast
qed

lemma page_digest_ok:
  assumes "page_valid p"
  shows "\<exists>d. work_digest (page_json p) = Inr d"
proof -
  have "jok_list (map (\<lambda>(key, value, observed). JDict [(''key'', JStr key), (''value'', JDict value),
      (''observedAt'', JInt observed)]) (p_items p))"
    using assms by (auto simp: jok_list_all list_all_iff page_valid_def dest!: item_okD bspec)
  moreover have "jok (jopt t)" for t by (cases t) simp_all
  ultimately have "jok (page_json p)" by (simp add: page_json_def)
  then show ?thesis by (simp add: work_digest_def work_json_text_def json_text_def)
qed

section \<open>Progress\<close>

text \<open>Items that repeat a key repeat its value, and they agree with what is staged already.\<close>

definition consistent :: "(string \<times> json_object \<times> int) list \<Rightarrow> bool" where
  "consistent items \<longleftrightarrow> (\<forall>key v t v' t'. (key, v, t) \<in> set items \<longrightarrow> (key, v', t') \<in> set items \<longrightarrow> v = v')"

definition agrees :: "facts \<Rightarrow> (string \<times> json_object \<times> int) list \<Rightarrow> bool" where
  "agrees m items \<longleftrightarrow> (\<forall>key v t x. (key, v, t) \<in> set items \<longrightarrow> m key = Some x \<longrightarrow> fst x = render (canon (JDict v)))"

lemma consistent_mono: "consistent ys \<Longrightarrow> set xs \<subseteq> set ys \<Longrightarrow> consistent xs"
  unfolding consistent_def by blast

lemma agrees_mono: "agrees m ys \<Longrightarrow> set xs \<subseteq> set ys \<Longrightarrow> agrees m xs"
  unfolding agrees_def by blast

lemma agrees_add:
  assumes "consistent (item # items)" and "agrees m (item # items)"
  shows "agrees (add_item m item) items"
  unfolding agrees_def
proof (intro allI impI)
  fix key v t x
  assume it: "(key, v, t) \<in> set items" and x: "add_item m item key = Some x"
  obtain key0 v0 t0 where item: "item = (key0, v0, t0)" by (cases item)
  show "fst x = render (canon (JDict v))"
  proof (cases "key = key0 \<and> m key0 = None")
    case True
    with assms(1) it item have "v0 = v" unfolding consistent_def by (metis list.set_intros)
    with True x show ?thesis by (auto simp: item)
  next
    case False
    with x have "m key = Some x" by (auto simp: item split: if_splits)
    with assms(2) it show ?thesis unfolding agrees_def by (meson list.set_intros(2))
  qed
qed

lemma agrees_fold: "consistent (xs @ ys) \<Longrightarrow> agrees m (xs @ ys) \<Longrightarrow> agrees (foldl add_item m xs) ys"
proof (induction xs arbitrary: m)
  case (Cons x xs)
  have "consistent (xs @ ys)" by (rule consistent_mono [OF Cons.prems(1)]) auto
  with Cons.IH agrees_add [of x "xs @ ys" m] Cons.prems show ?case by simp
qed simp

lemma stage_progress:
  assumes "list_all item_ok items" and "consistent items" and "agrees (staged (db\<lparr>m_staging := t\<rparr>) (k, i)) items"
    and "keyed stage_key t"
  shows "\<exists>t'. foldE (stage_item k i) t items = Inr t'"
  using assms
proof (induction items arbitrary: t)
  case (Cons item items)
  obtain key v observed where item: "item = (key, v, observed)" by (cases item)
  from Cons.prems(1) have ok: "jok (JDict v)" "jwf (JDict v)" using item_okD by (auto simp: item)
  have "\<exists>u. stage_item k i t (key, v, observed) = Inr u"
  proof (cases "find_by stage_key ((k, i), key) t")
    case None
    with ok show ?thesis by (simp add: stage_item_def work_json_text_def json_text_def)
  next
    case (Some prior)
    with Cons.prems(3) have "st_value prior = render (canon (JDict v))"
      by (auto simp: agrees_def staged_def item)
    with stored_py_eq [OF ok(2,1)] Some ok(1) show ?thesis
      by (auto simp: stage_item_def work_json_text_def json_text_def)
  qed
  then obtain u where u: "stage_item k i t (key, v, observed) = Inr u" by blast
  then have one: "foldE (stage_item k i) t [item] = Inr u" by (simp add: item)
  have "staged (db\<lparr>m_staging := u\<rparr>) (k, i) = add_item (staged (db\<lparr>m_staging := t\<rparr>) (k, i)) item"
    using stage_items(3) [OF one Cons.prems(4), of db] by simp
  moreover have "consistent items" by (rule consistent_mono [OF Cons.prems(2)]) auto
  ultimately have "\<exists>t'. foldE (stage_item k i) u items = Inr t'"
    using Cons.IH [of u] Cons.prems(1) agrees_add [OF Cons.prems(2,3)] stage_items(1) [OF one Cons.prems(4)] by simp
  with u show ?case by (auto simp: item)
qed simp

definition token_text :: "string option \<Rightarrow> string" where
  "token_text t = case_option [] (\<lambda>t. t) t"

lemma page_token_text: "page_token_text p = token_text (p_token p)"
  by (simp add: page_token_text_def token_text_def)

text \<open>The inventory can take a page with this token: it is open and waits for it, or it can still be opened.\<close>

definition ready :: "mdb \<Rightarrow> source_key \<Rightarrow> string \<Rightarrow> string option \<Rightarrow> bool" where
  "ready db k i tok \<longleftrightarrow> minv db \<and> find_by page_key ((k, i), token_text tok) (m_pages db) = None \<and>
     (case run_at db (k, i) of
        None \<Rightarrow> tok = None \<and> (\<forall>j r. run_at db (k, j) = Some r \<longrightarrow> sr_status r \<noteq> ''in_progress'')
      | Some run \<Rightarrow> sr_status run = ''in_progress'' \<and> sr_expected run = token_text tok)"

lemma ready_opens:
  assumes r: "ready db k i (p_token p)"
  shows "\<exists>db0 db1 run. ensure_source now k db = Inr db0 \<and> ensure_run now k i p db0 = Inr (run, db1) \<and> minv db1 \<and>
    awaits db1 k i p run \<and> m_pages db1 = m_pages db"
proof -
  have inv: "minv db" and page: "find_by page_key ((k, i), page_token_text p) (m_pages db) = None"
    using r by (simp_all add: ready_def page_token_text)
  obtain db0 where e0: "ensure_source now k db = Inr db0" by (cases "source_at db k") (auto simp: ensure_source_Inr)
  have tabs: "m_runs db0 = m_runs db" "m_pages db0 = m_pages db" "run_at db0 = run_at db"
    using e0 by (auto simp: ensure_source_Inr run_at_def fun_eq_iff split: option.splits)
  have quiet: "\<not> active_run k x" if "run_at db (k, i) = None" "x \<in> set (m_runs db)" for x
  proof -
    have "run_at db (run_key x) = Some x"
      using find_by_keyed [of run_key "m_runs db" x] inv that(2) by (simp add: run_at_def minv_def keys_ok_def)
    with r that(1) show ?thesis by (auto simp: ready_def active_run_def run_key_def)
  qed
  obtain run db1 where e1: "ensure_run now k i p db0 = Inr (run, db1)" and run: "sr_status run = ''in_progress''"
    "page_token_text p = sr_expected run" and pages: "m_pages db1 = m_pages db"
  proof (cases "run_at db (k, i)")
    case None
    with r quiet have "ensure_run now k i p db0 = Inr (new_run now k i, db0\<lparr>m_runs := m_runs db0 @ [new_run now k i]\<rparr>)"
      by (simp add: ensure_run_Inr tabs ready_def)
    moreover have "sr_status (new_run now k i) = ''in_progress''" "page_token_text p = sr_expected (new_run now k i)"
      using r None by (simp_all add: ready_def new_run_def page_token_text token_text_def)
    ultimately show thesis by (rule that) (simp add: tabs)
  next
    case (Some r0)
    with r show thesis by (intro that [of r0 db0]) (simp_all add: ensure_run_Inr tabs ready_def page_token_text)
  qed
  have "minv db1"
    by (rule ensure_run_minv [OF e1 ensure_source_minv [OF e0 inv] source_at_ensured(1) [OF e0]])
  moreover have "awaits db1 k i p run" using run page run_at_ensured [OF e1] by (simp add: awaits_def pages)
  ultimately show ?thesis using e0 e1 pages by blast
qed

text \<open>One page: it is accepted, and what it leaves behind.\<close>

lemma submit_progress:
  assumes r: "ready db k i (p_token p)" and valid: "page_valid p" and good: "p_successful p"
    and cons: "consistent (p_items p)" and agree: "agrees (staged db (k, i)) (p_items p)"
  shows "\<exists>v db' run' s. submit_page now k i p digest db = Inr (v, db') \<and> minv db' \<and>
    shown db' k = (if p_complete p then foldl add_item (staged db (k, i)) (p_items p) else shown db k) \<and>
    (\<not> p_complete p \<longrightarrow> staged db' (k, i) = foldl add_item (staged db (k, i)) (p_items p)) \<and>
    m_pages db' = m_pages db @ [page_of now k i p digest] \<and>
    run_at db' (k, i) = Some run' \<and> sr_status run' = outcome p \<and> sr_expected run' = token_text (p_next p) \<and>
    (\<forall>j r. run_at db' (k, j) = Some r \<longrightarrow> sr_status r = ''in_progress'' \<longrightarrow> j = i) \<and>
    source_at db' k = Some s \<and> (p_complete p \<longrightarrow> so_status s = ''fresh'' \<and> so_complete_at s = Some now)"
proof -
  from ready_opens [OF r] obtain db0 db1 run where e0: "ensure_source now k db = Inr db0"
    and e1: "ensure_run now k i p db0 = Inr (run, db1)" and inv1: "minv db1" and aw: "awaits db1 k i p run"
    and pages1: "m_pages db1 = m_pages db" by blast
  from aw have at1: "run_at db1 (k, i) = Some run" and act: "sr_status run = ''in_progress''"
    and tok: "page_token_text p = sr_expected run"
    and nopage: "find_by page_key ((k, i), page_token_text p) (m_pages db1) = None" by (auto simp: awaits_def)
  note maps = ensured_maps [OF e0 e1]
  have ok: "page_ok p" and items: "list_all item_ok (p_items p)" using valid by (simp_all add: page_valid_def)
  have "agrees (staged (db1\<lparr>m_staging := m_staging db1\<rparr>) (k, i)) (p_items p)" using agree by (simp add: maps(2))
  from stage_progress [OF items cons this] inv1 obtain stg where
    st: "foldE (stage_item k i) (m_staging db1) (p_items p) = Inr stg" by (auto simp: minv_def keys_ok_def)
  have "\<exists>db'. accept_page now k i p digest db1 = Inr db'"
    using st nopage good by (cases "p_complete p") (simp_all add: accept_page_def insert_by_fresh mkeys Let_def)
  then obtain db' where acc: "accept_page now k i p digest db1 = Inr db'" by blast
  note tabs = accept_tables [OF acc at1 act]
  from tabs obtain run' where at': "run_at db' = (run_at db1)((k, i) \<mapsto> run')" and run': "sr_status run' = outcome p"
    "sr_expected run' = token_text (p_next p)" "outcome p \<noteq> ''in_progress'' \<longrightarrow> sr_completed run' = Some now"
    using good by (auto simp: token_text_def)
  have "source_at db1 k \<noteq> None" using run_invD [OF inv1 at1] by simp
  then obtain s where s: "source_at db' k = Some s" "p_complete p \<longrightarrow> so_status s = ''fresh'' \<and> so_complete_at s = Some now"
    using tabs good by fastforce
  have "\<not> (sr_status run' = ''completed'' \<and> sr_completed run' = None)" using run'(1,3) by auto
  moreover have "find_by run_key (k, i) (m_runs db') = Some run'" using fun_cong [OF at', of "(k, i)"] by (simp add: run_at_def)
  ultimately obtain v where v: "source_receipt k i False db' = Inr v" by (simp add: source_receipt_def)
  have sub: "submit_page now k i p digest db = Inr (v, db')"
    by (simp add: submit_page_def e0 e1 nopage act tok [symmetric] acc v)
  have inv: "minv db" using r by (simp add: ready_def)
  have inv': "minv db'" by (rule submit_page_minv [OF sub inv ok])
  have only: "j = i" if "run_at db' (k, j) = Some r" "sr_status r = ''in_progress''" for j r
  proof (rule ccontr)
    assume "j \<noteq> i"
    with that(1) have "run_at db1 (k, j) = Some r" by (simp add: at')
    with inv1 at1 act that(2) \<open>j \<noteq> i\<close> show False unfolding minv_def one_active_def by blast
  qed
  have sh: "shown db' k = (if p_complete p then foldl add_item (staged db (k, i)) (p_items p) else shown db k)"
    using good by (simp add: accept_shown [OF acc inv1 aw] maps(1,2))
  have stg': "\<not> p_complete p \<longrightarrow> staged db' (k, i) = foldl add_item (staged db (k, i)) (p_items p)"
    using good by (simp add: accept_staged [OF acc inv1] maps(2))
  have pg: "m_pages db' = m_pages db @ [page_of now k i p digest]" using tabs pages1 by simp
  have "run_at db' (k, i) = Some run'" by (simp add: at')
  with sub inv' sh stg' pg run'(1,2) only s show ?thesis by blast
qed

fun chained :: "string option \<Rightarrow> page list \<Rightarrow> bool" where
  "chained tok [] = False"
| "chained tok (p # ps) = (p_token p = tok \<and> p_successful p \<and> p_complete p = (ps = []) \<and> (ps \<noteq> [] \<longrightarrow> chained (p_next p) ps))"

text \<open>Submitting the pages of an inventory one after the other; the readings of the clock are arbitrary.\<close>

fun ingest_all ::
  "string option \<Rightarrow> string \<Rightarrow> string \<Rightarrow> string \<Rightarrow> ((nat \<Rightarrow> int) \<times> int \<times> page) list \<Rightarrow> mdb \<Rightarrow> mdb res" where
  "ingest_all org ws source i [] db = Inr db"
| "ingest_all org ws source i ((clk, now, p) # rest) db =
    (case ingest_source_page clk now org ws source (page_body i p) db of
       (Inl e, _) \<Rightarrow> Inl e | (Inr v, db') \<Rightarrow> ingest_all org ws source i rest db')"

lemma ingest_body:
  assumes "work_scope org ws = Inr (o', ws)" and "work_identifier source = Inr source" and "work_identifier i = Inr i"
    and "page_valid p"
  obtains digest where "\<And>db. ingest_source_page clk now org ws source (page_body i p) db =
    commit db (submit_page now (o', ws, source) i p digest db)"
proof -
  from page_digest_ok [OF assms(4)] obtain digest where "work_digest (page_json p) = Inr digest" by blast
  with assms that show thesis
    by (simp add: ingest_source_page_def source_page_body) (simp add: page_body_def dget_def work_identifier_of_def)
qed

lemma token_text_inj: "token_ok s \<Longrightarrow> token_ok t \<Longrightarrow> token_text s = token_text t \<Longrightarrow> s = t"
  by (auto simp: token_text_def token_ok_def bounded_text_def py_strip_def split: option.splits if_splits)

lemma chain_progress:
  assumes "ready db k i tok" and "chained tok (map (\<lambda>(clk, now, p). p) ps)" and "\<forall>(clk, now, p) \<in> set ps. page_valid p"
    and "distinct (map (\<lambda>(clk, now, p). p_token p) ps)"
    and "\<forall>(clk, now, p) \<in> set ps. find_by page_key ((k, i), page_token_text p) (m_pages db) = None"
    and "consistent (concat (map (\<lambda>(clk, now, p). p_items p) ps))"
    and "agrees (staged db (k, i)) (concat (map (\<lambda>(clk, now, p). p_items p) ps))"
    and k: "k = (o', ws, source)" and ids: "work_scope org ws = Inr (o', ws)" "work_identifier source = Inr source" "work_identifier i = Inr i"
  shows "\<exists>db' s. ingest_all org ws source i ps db = Inr db' \<and> minv db' \<and>
    source_state db' k = (foldl add_item (staged db (k, i)) (concat (map (\<lambda>(clk, now, p). p_items p) ps)), None) \<and>
    source_at db' k = Some s \<and> so_status s = ''fresh''"
  using assms(1-7)
proof (induction ps arbitrary: db tok)
  case (Cons c ps)
  obtain clk now p where c: "c = (clk, now, p)" by (cases c)
  let ?items = "concat (map (\<lambda>(clk, now, p). p_items p) ps)"
  from Cons.prems have tok: "p_token p = tok" and good: "p_successful p" and last: "p_complete p = (ps = [])"
    and valid: "page_valid p" by (auto simp: c)
  have cons: "consistent (p_items p @ ?items)" and agr: "agrees (staged db (k, i)) (p_items p @ ?items)"
    using Cons.prems by (simp_all add: c)
  have cons_p: "consistent (p_items p)" by (rule consistent_mono [OF cons]) auto
  have agr_p: "agrees (staged db (k, i)) (p_items p)" by (rule agrees_mono [OF agr]) auto
  obtain digest where body: "\<And>db. ingest_source_page clk now org ws source (page_body i p) db =
      commit db (submit_page now k i p digest db)"
    using ingest_body [OF ids valid] k by blast
  have "ready db k i (p_token p)" using Cons.prems(1) tok by simp
  from submit_progress [OF this valid good cons_p agr_p, of now digest]
  obtain v db' run' s where sub: "submit_page now k i p digest db = Inr (v, db')" and inv': "minv db'"
    and shown: "shown db' k = (if p_complete p then foldl add_item (staged db (k, i)) (p_items p) else shown db k)"
    and staged: "\<not> p_complete p \<Longrightarrow> staged db' (k, i) = foldl add_item (staged db (k, i)) (p_items p)"
    and pages: "m_pages db' = m_pages db @ [page_of now k i p digest]"
    and run': "run_at db' (k, i) = Some run'" "sr_status run' = outcome p" "sr_expected run' = token_text (p_next p)"
    and only: "\<And>j r. run_at db' (k, j) = Some r \<Longrightarrow> sr_status r = ''in_progress'' \<Longrightarrow> j = i"
    and s: "source_at db' k = Some s" "p_complete p \<Longrightarrow> so_status s = ''fresh'' \<and> so_complete_at s = Some now"
    by blast
  have all: "ingest_all org ws source i (c # ps) db = ingest_all org ws source i ps db'"
    by (simp add: c body sub)
  show ?case
  proof (cases "ps = []")
    case True
    with last good have "sr_status run' \<noteq> ''in_progress''" by (simp add: run' outcome_def)
    then have "source_state db' k = (shown db' k, None)"
      using only run'(1) by (intro source_state_closed [OF inv']) (metis option.inject)
    with True last shown s inv' show ?thesis unfolding all by (simp add: c)
  next
    case False
    then obtain clk2 now2 q qs where ps: "ps = (clk2, now2, q) # qs" by (metis list.exhaust prod_cases3)
    have open_run: "\<not> p_complete p" "sr_status run' = ''in_progress''" using False last good by (simp_all add: run' outcome_def)
    have chain: "chained (p_next p) (map (\<lambda>(clk, now, p). p) ps)" using Cons.prems(2) False by (simp add: c)
    have fresh: "\<forall>(clk, now, x) \<in> set ps. find_by page_key ((k, i), page_token_text x) (m_pages db') = None"
    proof clarify
      fix clk' now' x assume x: "(clk', now', x) \<in> set ps"
      with Cons.prems(3,4) valid have "p_token x \<noteq> p_token p" "token_ok (p_token x)" "token_ok (p_token p)"
        by (auto simp: c page_valid_def rev_image_eqI)
      then have "page_token_text x \<noteq> page_token_text p" using token_text_inj by (auto simp: page_token_text)
      with Cons.prems(5) x show "find_by page_key ((k, i), page_token_text x) (m_pages db') = None"
        by (auto simp: pages find_by_append find_by_Cons mkeys c)
    qed
    have "p_token q = p_next p" using chain by (simp add: ps)
    then have ready': "ready db' k i (p_next p)"
      using inv' run' open_run fresh by (simp add: ready_def ps page_token_text)
    have "consistent ?items" by (rule consistent_mono [OF cons]) auto
    moreover have "agrees (staged db' (k, i)) ?items" using agrees_fold [OF cons agr] staged [OF open_run(1)] by simp
    ultimately have "\<exists>db'' s. ingest_all org ws source i ps db' = Inr db'' \<and> minv db'' \<and>
        source_state db'' k = (foldl add_item (staged db' (k, i)) ?items, None) \<and>
        source_at db'' k = Some s \<and> so_status s = ''fresh''"
      using Cons.prems(3,4) fresh by (intro Cons.IH [OF ready' chain]) (auto simp: c)
    then show ?thesis unfolding all using staged [OF open_run(1)] by (simp add: c)
  qed
qed simp

section \<open>Inventories that cannot continue\<close>

text \<open>
  Nothing forbids a page whose \<open>nextPageToken\<close> is the token of a page already accepted. The inventory then waits
  for a page whose token is taken: a request with that token is a replay or a conflict, one with another token is a
  gap, and no second inventory of the source may start.
\<close>

definition wedged :: "mdb \<Rightarrow> source_key \<Rightarrow> bool" where
  "wedged db k \<longleftrightarrow> (\<exists>i run. run_at db (k, i) = Some run \<and> sr_status run = ''in_progress'' \<and>
     find_by page_key ((k, i), sr_expected run) (m_pages db) \<noteq> None)"

lemma wedged_submit:
  assumes inv: "minv db" and w: "wedged db k" and sub: "submit_page now k j p digest db = Inr (v, db')"
  shows "db' = db"
  using sub inv
proof (cases rule: submit_page_Inr)
  case (accepted db0 db1 run1)
  from w obtain i run where at: "run_at db (k, i) = Some run" and act: "sr_status run = ''in_progress''"
    and taken: "find_by page_key ((k, i), sr_expected run) (m_pages db) \<noteq> None" by (auto simp: wedged_def)
  from accepted(4) have aw: "run_at db1 (k, j) = Some run1" "sr_status run1 = ''in_progress''"
    "page_token_text p = sr_expected run1" "find_by page_key ((k, j), page_token_text p) (m_pages db1) = None"
    by (auto simp: awaits_def)
  have pages: "m_pages db1 = m_pages db" and runs: "m_runs db0 = m_runs db"
    using accepted(1,2) by (auto simp: ensure_source_Inr ensure_run_Inr split: option.splits)
  have "run_at db0 (k, i) = Some run" using at runs by (simp add: run_at_def)
  then have "run_at db1 (k, i) = Some run"
    using accepted(2) by (auto simp: ensure_run_Inr run_at_def find_by_append split: option.splits)
  with aw(1,2) act accepted(3) have "j = i" unfolding minv_def one_active_def by blast
  with \<open>run_at db1 (k, i) = Some run\<close> aw(1) have "run1 = run" by simp
  with \<open>j = i\<close> aw(3,4) taken pages show ?thesis by simp
qed simp

lemma wedged_ingest:
  assumes inv: "minv db" and scope: "work_scope org ws = Inr (o', ws)" and w: "wedged db (o', ws, source)"
  shows "snd (ingest_source_page clk now org ws source body db) = db"
proof (cases "ingest_source_page clk now org ws source body db")
  case (Pair r db1)
  show ?thesis
  proof (cases r)
    case (Inl e)
    with Pair show ?thesis by (auto simp: ingest_source_page_def commit_Inl)
  next
    case (Inr v)
    with Pair have "ingest_source_page clk now org ws source body db = (Inr v, db1)" by simp
    then obtain o'' j q d where "work_scope org ws = Inr (o'', ws)" "submit_page now (o'', ws, source) j q d db = Inr (v, db1)"
      by (rule ingest_Inr)
    with scope wedged_submit [OF inv w] Pair show ?thesis by auto
  qed
qed

text \<open>How it comes to that: an accepted page that announces a token already used.\<close>

lemma loop_wedges:
  assumes sub: "submit_page now k i p digest db = Inr (v, db')" and inv: "minv db" and "\<not> rc_duplicate v"
    and p: "p_next p = Some t" "p_successful p" "\<not> p_complete p" and taken: "find_by page_key ((k, i), t) (m_pages db') \<noteq> None"
  shows "wedged db' k"
proof -
  obtain run' where "run_at db' (k, i) = Some run'" "sr_status run' = ''in_progress''" "sr_expected run' = t"
    using sub inv
  proof (cases rule: submit_page_Inr)
    case replay
    then show thesis using assms(3) by (auto simp: source_receipt_def split: option.splits if_splits)
  next
    case (accepted db0 db1 run)
    then have "run_at db1 (k, i) = Some run" "sr_status run = ''in_progress''" by (auto simp: awaits_def)
    from accept_tables [OF accepted(5) this] p that show thesis by (auto simp: outcome_def)
  qed
  with taken show ?thesis unfolding wedged_def by blast
qed

lemma wedged_other:
  assumes "wedged db k" and "k' \<noteq> k" and sub: "submit_page now k' j p digest db = Inr (v, db')" and inv: "minv db"
  shows "wedged db' k"
proof -
  from assms(1) obtain i run where at: "run_at db (k, i) = Some run" and act: "sr_status run = ''in_progress''"
    and taken: "find_by page_key ((k, i), sr_expected run) (m_pages db) \<noteq> None" by (auto simp: wedged_def)
  have pg: "find_by page_key ((k, i), sr_expected run) (m_pages db') \<noteq> None"
    using submit_grows [OF sub inv] taken by (auto simp: mgrows_def find_by_append)
  have "run_at db' (k, i) = Some run"
    using sub inv
  proof (cases rule: submit_page_Inr)
    case replay
    with at show ?thesis by simp
  next
    case (accepted db0 db1 run1)
    then have "run_at db1 (k', j) = Some run1" "sr_status run1 = ''in_progress''" by (auto simp: awaits_def)
    from accept_tables [OF accepted(5) this] assms(2) ensured_maps(3) [OF accepted(1,2)] at show ?thesis by auto
  qed
  with act pg show ?thesis unfolding wedged_def by blast
qed

text \<open>From then on nothing the source shows, stages or counts ever changes.\<close>

lemma wedged_step:
  assumes step: "mstep db db'" and inv: "minv db" and w: "wedged db k"
  shows "wedged db' k \<and> source_state db' k = source_state db k"
  using step
proof cases
  case (mt_upsert fid t0 now t1 org ws body actor private_scope)
  have "m_runs db' = m_runs db \<and> m_pages db' = m_pages db"
    unfolding mt_upsert upsert_memory_fact_def commit_def
    by (auto simp: resE store_fact_def Let_def split: sum.splits prod.splits option.splits if_splits)
  with w have "wedged db' k" by (simp add: wedged_def run_at_def)
  then show ?thesis by (simp add: mt_upsert upsert_source_state)
next
  case (mt_ingest clk now org ws source body)
  show ?thesis
  proof (cases "fst (ingest_source_page clk now org ws source body db)")
    case (Inl e)
    then have "db' = db" by (auto simp: mt_ingest ingest_source_page_def commit_def split: sum.splits prod.splits)
    with w show ?thesis by simp
  next
    case (Inr v)
    then have "ingest_source_page clk now org ws source body db = (Inr v, db')" by (simp add: mt_ingest prod_eq_iff)
    then obtain o' i p digest where sub: "submit_page now (o', ws, source) i p digest db = Inr (v, db')"
      and page: "source_page clk body = Inr p" by (rule ingest_Inr)
    show ?thesis
    proof (cases "(o', ws, source) = k")
      case True
      with wedged_submit [OF inv w] sub have "db' = db" by blast
      with w show ?thesis by simp
    next
      case False
      with wedged_other [OF w False sub inv] submit_exact(2) [OF sub inv source_page_ok [OF page], of k]
      show ?thesis by simp
    qed
  qed
qed

lemma wedged_forever: "mstep\<^sup>*\<^sup>* db db' \<Longrightarrow> minv db \<Longrightarrow> wedged db k \<Longrightarrow> wedged db' k \<and> source_state db' k = source_state db k"
proof (induction rule: rtranclp_induct)
  case (step y z)
  then have "minv y" using mh.inv_steps by blast
  with step wedged_step [of y z k] show ?case by simp
qed simp

end
