(* ===== verification/Memory_Props.thy ===== *)
theory Memory_Props
  imports Memory_Live
begin

text \<open>
  The properties of memory facts and source inventories: the snapshot invariant, the contract of inventories,
  their progress, the inventory that can never continue, and what an upsert does to whom. The demo is an inventory
  of two pages.
\<close>

section \<open>A concrete inventory\<close>

definition demo_item :: "string \<Rightarrow> string \<times> json_object \<times> int" where
  "demo_item key = (key, [], 7)"

definition demo_first :: page where
  "demo_first = \<lparr>p_token = None, p_next = Some ''t'', p_complete = False, p_successful = True, p_items = [demo_item ''a'']\<rparr>"

definition demo_last :: page where
  "demo_last = \<lparr>p_token = Some ''t'', p_next = None, p_complete = True, p_successful = True,
     p_items = [demo_item ''b'', demo_item ''a'']\<rparr>"

definition demo_pages :: "((nat \<Rightarrow> int) \<times> int \<times> page) list" where
  "demo_pages = [((\<lambda>_. 0), 100, demo_first), ((\<lambda>_. 0), 200, demo_last)]"

text \<open>A page that points back to itself.\<close>

definition demo_loop :: page where
  "demo_loop = \<lparr>p_token = Some ''t'', p_next = Some ''t'', p_complete = False, p_successful = True, p_items = [demo_item ''b'']\<rparr>"

lemma demo_ids: "work_identifier ''w'' = Inr ''w''" "work_identifier ''src'' = Inr ''src''" "work_identifier ''i'' = Inr ''i''"
  "work_identifier ''ann'' = Inr ''ann''" "work_identifier ''bob'' = Inr ''bob''" "work_scope None ''w'' = Inr ([], ''w'')"
  by (simp_all add: work_scope_def work_identifier_def py_strip_def py_space_def is_ctrl_def)

lemma demo_item_ok: "item_ok (demo_item ''a'')" "item_ok (demo_item ''b'')"
  by (simp_all add: item_ok_def demo_item_def bounded_text_def py_strip_def py_space_def work_json_object_def work_json_text_def
    json_text_def utf8_def utf8_char_def MAX_JSON_BYTES_def nonnegative_integer_def)

lemma demo_token: "token_ok None" "token_ok (Some ''t'')"
  by (simp_all add: token_ok_def bounded_text_def py_strip_def py_space_def)

lemma demo_valid: "\<forall>(clk, now, p) \<in> set demo_pages. page_valid p" "page_valid demo_first" "page_valid demo_loop"
  by (simp_all add: demo_pages_def demo_first_def demo_last_def demo_loop_def page_valid_def page_ok_def demo_token demo_item_ok)

lemma demo_items: "concat (map (\<lambda>(clk, now, p). p_items p) demo_pages) = [demo_item ''a'', demo_item ''b'', demo_item ''a'']"
  by (simp add: demo_pages_def demo_first_def demo_last_def)

lemma demo_ready: "ready empty_mdb k i None"
  using minv_empty by (simp add: ready_def run_at_def empty_mdb_def)

lemma empty_staged: "staged empty_mdb rk = Map.empty"
  by (simp add: staged_def empty_mdb_def fun_eq_iff)

lemma ingest_all_steps: "ingest_all org ws source i ps db = Inr db' \<Longrightarrow> mstep\<^sup>*\<^sup>* db db'"
proof (induction ps arbitrary: db)
  case (Cons c ps)
  obtain clk now p where c: "c = (clk, now, p)" by (cases c)
  from Cons.prems obtain v db1 where 1: "ingest_source_page clk now org ws source (page_body i p) db = (Inr v, db1)"
    and rest: "ingest_all org ws source i ps db1 = Inr db'" by (auto simp: c split: prod.splits sum.splits)
  have "mstep db db1" using mt_ingest [of db clk now org ws source "page_body i p"] by (simp add: 1)
  from converse_rtranclp_into_rtranclp [OF this Cons.IH [OF rest]] show ?case .
qed simp

section \<open>Properties\<close>

text \<open>
  C38. The snapshot of a source is one inventory. In every reachable state a source has at most one open
  inventory; the accepted pages of each inventory form an unbroken chain from the first token, of which only the
  last may be final; and if the source shows any fact, then all facts it shows come from one completed inventory,
  the one that completed at the source's \<open>last_complete_at\<close>.
\<close>

theorem snapshot_of_one_inventory:
  assumes "mstep\<^sup>*\<^sup>* empty_mdb db"
  shows "(\<forall>k i j r s. run_at db (k, i) = Some r \<longrightarrow> run_at db (k, j) = Some s \<longrightarrow> sr_status r = ''in_progress'' \<longrightarrow>
       sr_status s = ''in_progress'' \<longrightarrow> i = j) \<and>
    (\<forall>rk r. run_at db rk = Some r \<longrightarrow> linked (Some []) (pages_of db rk) \<and> list_all middle_page (butlast (pages_of db rk)) \<and>
       sr_pages r = int (length (pages_of db rk))) \<and>
    (\<forall>k key x. shown db k key = Some x \<longrightarrow> (\<exists>s t i. source_at db k = Some s \<and> so_complete_at s = Some t \<and>
       completed_at db (k, i) t \<and> (\<forall>f \<in> set (m_source_facts db). sf_src f = k \<longrightarrow> sf_missing f = None \<longrightarrow> sf_inventory f = i)))"
proof -
  have inv: "minv db" by (rule mh.inv_steps [OF assms minv_empty])
  have "linked (Some []) (pages_of db rk) \<and> list_all middle_page (butlast (pages_of db rk)) \<and>
       sr_pages r = int (length (pages_of db rk))" if "run_at db rk = Some r" for rk r
    using run_invD [OF inv that] by (simp add: run_ok_def)
  moreover have "\<exists>s t i. source_at db k = Some s \<and> so_complete_at s = Some t \<and> completed_at db (k, i) t \<and>
      (\<forall>f \<in> set (m_source_facts db). sf_src f = k \<longrightarrow> sf_missing f = None \<longrightarrow> sf_inventory f = i)"
    if x: "shown db k key = Some x" for k key x
  proof -
    from x obtain f where f: "f \<in> set (m_source_facts db)" "sf_src f = k"
      by (auto simp: shown_def sf_ident_def split: option.splits if_splits dest!: find_by_SomeD)
    with inv show ?thesis unfolding minv_def snapshot_ok_def by blast
  qed
  ultimately show ?thesis using inv unfolding minv_def one_active_def by blast
qed

lemma demo_complete:
  "\<exists>db s. ingest_all None ''w'' ''src'' ''i'' demo_pages empty_mdb = Inr db \<and> minv db \<and>
    source_state db ([], ''w'', ''src'') = (Map.empty(''a'' \<mapsto> (''{}'', 7), ''b'' \<mapsto> (''{}'', 7)), None) \<and>
    source_at db ([], ''w'', ''src'') = Some s \<and> so_status s = ''fresh''"
proof -
  have "\<exists>db s. ingest_all None ''w'' ''src'' ''i'' demo_pages empty_mdb = Inr db \<and> minv db \<and>
    source_state db ([], ''w'', ''src'') = (foldl add_item (staged empty_mdb (([], ''w'', ''src''), ''i''))
      (concat (map (\<lambda>(clk, now, p). p_items p) demo_pages)), None) \<and>
    source_at db ([], ''w'', ''src'') = Some s \<and> so_status s = ''fresh''"
    by (rule chain_progress [OF demo_ready _ demo_valid(1) _ _ _ _ refl demo_ids(6,2,3)])
      (simp_all add: demo_items empty_staged agrees_def consistent_def demo_item_def, simp_all add: demo_pages_def demo_first_def demo_last_def empty_mdb_def)
  then show ?thesis by (simp add: demo_items empty_staged demo_item_def)
qed

theorem snapshot_of_one_inventory_witness:
  "\<exists>db s t i. shown db ([], ''w'', ''src'') ''b'' = Some (''{}'', 7) \<and> source_at db ([], ''w'', ''src'') = Some s \<and>
    so_complete_at s = Some t \<and> completed_at db (([], ''w'', ''src''), i) t"
proof -
  from demo_complete obtain db where run: "ingest_all None ''w'' ''src'' ''i'' demo_pages empty_mdb = Inr db"
    and st: "source_state db ([], ''w'', ''src'') = (Map.empty(''a'' \<mapsto> (''{}'', 7), ''b'' \<mapsto> (''{}'', 7)), None)" by blast
  from st have "shown db ([], ''w'', ''src'') ''b'' = Some (''{}'', 7)" by (simp add: source_state_def)
  with snapshot_of_one_inventory [OF ingest_all_steps [OF run]] show ?thesis by blast
qed

text \<open>
  C39. A page follows the contract of inventories. In every reachable state a request is a step of the abstract
  source it names (\<open>inventory_step\<close>) and leaves every other source as it was; a refused request changes
  nothing. In particular a repeated page changes nothing, a failed or unfinished inventory leaves the facts the
  source shows as they were, and the final page replaces them by exactly what its inventory collected.
\<close>

theorem inventory_contract:
  assumes "mstep\<^sup>*\<^sup>* empty_mdb db" and "ingest_source_page clk now org ws source body db = (res, db')"
    and "work_scope org ws = Inr (o', ws)"
  shows "inventory_step (source_state db (o', ws, source)) (source_state db' (o', ws, source)) \<and>
    (\<forall>k. k \<noteq> (o', ws, source) \<longrightarrow> source_state db' k = source_state db k) \<and>
    (case res of Inl e \<Rightarrow> db' = db
     | Inr v \<Rightarrow> (\<exists>p. source_page clk body = Inr p \<and>
         (if rc_duplicate v then db' = db
          else if \<not> p_complete p then shown db' (o', ws, source) = shown db (o', ws, source)
          else (\<exists>i m. dget body ''inventoryId'' = JStr i \<and> collected i (snd (source_state db (o', ws, source))) = Some m \<and>
            source_state db' (o', ws, source) = (foldl add_item m (p_items p), None)))))"
proof (cases res)
  case (Inl e)
  with assms(2) have "db' = db" by (auto simp: ingest_source_page_def commit_Inl)
  with Inl show ?thesis by (simp add: is_stay)
next
  case (Inr v)
  have inv: "minv db" by (rule mh.inv_steps [OF assms(1) minv_empty])
  from assms(2) Inr have "ingest_source_page clk now org ws source body db = (Inr v, db')" by simp
  then obtain i p digest where i: "dget body ''inventoryId'' = JStr i" and p: "source_page clk body = Inr p"
    and sub: "submit_page now (o', ws, source) i p digest db = Inr (v, db')"
    by (rule ingest_Inr) (use assms(3) in auto)
  have ok: "page_ok p" by (rule source_page_ok [OF p])
  have "p_complete p \<Longrightarrow> p_successful p" using ok by (simp add: page_ok_def)
  moreover have "shown x k = fst (source_state x k)" for x k by (simp add: source_state_def)
  ultimately show ?thesis
    using submit_refines [OF sub inv ok] submit_exact [OF sub inv ok] Inr i p by (auto split: if_splits)
qed

theorem inventory_contract_witness:
  "\<exists>db v db'. ingest_source_page (\<lambda>_. 0) 200 None ''w'' ''src'' (page_body ''i'' demo_last) db = (Inr v, db') \<and>
    inventory_step (source_state db ([], ''w'', ''src'')) (source_state db' ([], ''w'', ''src''))"
proof -
  from demo_complete obtain db where "ingest_all None ''w'' ''src'' ''i'' demo_pages empty_mdb = Inr db" by blast
  then obtain v1 db1 v2 where
    1: "ingest_source_page (\<lambda>_. 0) 100 None ''w'' ''src'' (page_body ''i'' demo_first) empty_mdb = (Inr v1, db1)"
    and 2: "ingest_source_page (\<lambda>_. 0) 200 None ''w'' ''src'' (page_body ''i'' demo_last) db1 = (Inr v2, db)"
    by (auto simp: demo_pages_def split: prod.splits sum.splits)
  have "mstep empty_mdb db1"
    using mt_ingest [of empty_mdb "\<lambda>_. 0" 100 None "''w''" "''src''" "page_body ''i'' demo_first"] by (simp add: 1)
  from inventory_contract [OF r_into_rtranclp [of mstep, OF this] 2 demo_ids(6)] 2 show ?thesis by blast
qed

text \<open>
  C40. A proper inventory always completes. Take any reachable state in which the source has no open inventory and
  the inventory id is new, and any chain of valid pages (each continues the token the previous one announced, the
  tokens differ, the last page is final, a repeated key repeats its value). Then every request is accepted,
  whatever the clock says, and afterwards the source is fresh, has no open inventory and shows exactly the facts of
  the pages, the first occurrence of each key.
\<close>

theorem inventory_completes:
  assumes "mstep\<^sup>*\<^sup>* empty_mdb db" and "work_scope org ws = Inr (o', ws)" and "work_identifier source = Inr source"
    and "work_identifier i = Inr i" and "run_at db ((o', ws, source), i) = None"
    and "snd (source_state db (o', ws, source)) = None"
    and "chained None (map (\<lambda>(clk, now, p). p) ps)" and "\<forall>(clk, now, p) \<in> set ps. page_valid p"
    and "distinct (map (\<lambda>(clk, now, p). p_token p) ps)" and "consistent (concat (map (\<lambda>(clk, now, p). p_items p) ps))"
  shows "\<exists>db' s. ingest_all org ws source i ps db = Inr db' \<and> source_at db' (o', ws, source) = Some s \<and> so_status s = ''fresh'' \<and>
    source_state db' (o', ws, source) = (foldl add_item Map.empty (concat (map (\<lambda>(clk, now, p). p_items p) ps)), None)"
proof -
  let ?k = "(o', ws, source)"
  have inv: "minv db" by (rule mh.inv_steps [OF assms(1) minv_empty])
  have no_page: "find_by page_key ((?k, i), tok) (m_pages db) = None" for tok
    using no_pages [of db "(?k, i)"] inv assms(5)
    by (auto simp: minv_def find_by_None_iff pages_of_def filter_empty_conv page_key_def)
  have closed: "sr_status r \<noteq> ''in_progress''" if "run_at db (?k, j) = Some r" for j r
    using source_state_open [OF inv that] assms(6) by auto
  have "ready db ?k i None" using inv no_page closed assms(5) by (simp add: ready_def)
  moreover have "staged db (?k, i) = Map.empty" by (rule staged_none [OF inv assms(5)])
  moreover have "agrees Map.empty items" for items by (simp add: agrees_def)
  ultimately show ?thesis
    using chain_progress [OF _ assms(7,8,9) _ assms(10) _ refl assms(2,3,4), of db] no_page by (auto split: prod.splits)
qed

theorem inventory_completes_witness:
  "\<exists>db'. ingest_all None ''w'' ''src'' ''i'' demo_pages empty_mdb = Inr db' \<and>
    source_state db' ([], ''w'', ''src'') = (Map.empty(''a'' \<mapsto> (''{}'', 7), ''b'' \<mapsto> (''{}'', 7)), None)"
proof -
  have "run_at empty_mdb (([], ''w'', ''src''), ''i'') = None" "snd (source_state empty_mdb ([], ''w'', ''src'')) = None"
    by (simp_all add: run_at_def source_state_def empty_mdb_def)
  moreover have "chained None (map (\<lambda>(clk, now, p). p) demo_pages)" "distinct (map (\<lambda>(clk, now, p). p_token p) demo_pages)"
    "consistent (concat (map (\<lambda>(clk, now, p). p_items p) demo_pages))"
    by (simp_all add: demo_pages_def demo_first_def demo_last_def consistent_def demo_item_def)
  ultimately have "\<exists>db' s. ingest_all None ''w'' ''src'' ''i'' demo_pages empty_mdb = Inr db' \<and>
      source_at db' ([], ''w'', ''src'') = Some s \<and> so_status s = ''fresh'' \<and>
      source_state db' ([], ''w'', ''src'') = (foldl add_item Map.empty (concat (map (\<lambda>(clk, now, p). p_items p) demo_pages)), None)"
    by (intro inventory_completes [OF rtranclp.rtrancl_refl demo_ids(6,2,3)] demo_valid(1))
  then show ?thesis unfolding demo_items by (simp add: demo_item_def) blast
qed

text \<open>
  C23. An inventory whose pages loop blocks its source for good. When an accepted page announces as its successor a
  token under which the inventory has already accepted a page (this very page included), the inventory stays open
  and waits for a page it can never take: whatever requests follow, the source keeps the facts it shows, never
  becomes fresh again and never opens another inventory. No check of the code forbids such a page, and no
  operation abandons an inventory.
\<close>

theorem looping_inventory_blocks:
  assumes "mstep\<^sup>*\<^sup>* empty_mdb db" and "work_scope org ws = Inr (o', ws)"
    and "ingest_source_page clk now org ws source body db = (Inr v, db1)" and "\<not> rc_duplicate v"
    and "dget body ''inventoryId'' = JStr i" and "dget body ''nextPageToken'' = JStr t" and "dget body ''successful'' = JBool True"
    and "find_by page_key (((o', ws, source), i), t) (m_pages db1) \<noteq> None" and "mstep\<^sup>*\<^sup>* db1 db2"
  shows "source_state db2 (o', ws, source) = source_state db1 (o', ws, source) \<and>
    (\<exists>m. snd (source_state db2 (o', ws, source)) = Some (i, m)) \<and>
    (\<forall>clk' now' body'. snd (ingest_source_page clk' now' org ws source body' db2) = db2)"
proof -
  let ?k = "(o', ws, source)"
  have inv: "minv db" by (rule mh.inv_steps [OF assms(1) minv_empty])
  from assms(3) obtain p digest where page: "source_page clk body = Inr p"
    and sub: "submit_page now ?k i p digest db = Inr (v, db1)"
    by (rule ingest_Inr) (use assms(2,5) in auto)
  have ok: "page_ok p" by (rule source_page_ok [OF page])
  have p: "p_next p = Some t" "p_successful p"
    using page by (rule source_page_Inr, use assms(6,7) in \<open>auto simp: page_token_of_def resE bounded_text_def split: if_splits\<close>)+
  with ok have open_page: "\<not> p_complete p" by (simp add: page_ok_def)
  have inv1: "minv db1" by (rule submit_page_minv [OF sub inv ok])
  obtain m where st: "source_state db1 ?k = (shown db ?k, Some (i, m))"
    using submit_exact(1) [OF sub inv ok] assms(4) p open_page by auto
  have w: "wedged db1 ?k" by (rule loop_wedges [OF sub inv assms(4) p open_page assms(8)])
  have w2: "wedged db2 ?k \<and> source_state db2 ?k = source_state db1 ?k" by (rule wedged_forever [OF assms(9) inv1 w])
  have inv2: "minv db2" by (rule mh.inv_steps [OF assms(9) inv1])
  have "snd (ingest_source_page clk' now' org ws source body' db2) = db2" for clk' now' body'
    by (rule wedged_ingest [OF inv2 assms(2)]) (use w2 in blast)
  with w2 st show ?thesis by simp
qed

text \<open>The demo: the second page announces its own token.\<close>

lemma demo_wedge:
  "\<exists>db1 v2 db2. mstep\<^sup>*\<^sup>* empty_mdb db1 \<and>
    ingest_source_page (\<lambda>_. 0) 200 None ''w'' ''src'' (page_body ''i'' demo_loop) db1 = (Inr v2, db2) \<and> \<not> rc_duplicate v2 \<and>
    find_by page_key ((([], ''w'', ''src''), ''i''), ''t'') (m_pages db2) \<noteq> None"
proof -
  let ?k = "([], ''w'', ''src'')"
  have p: "p_token demo_first = None" "p_next demo_first = Some ''t''" "\<not> p_complete demo_first" "p_successful demo_first"
    "p_items demo_first = [demo_item ''a'']" by (simp_all add: demo_first_def)
  obtain d where d: "\<And>db. ingest_source_page (\<lambda>_. 0) 100 None ''w'' ''src'' (page_body ''i'' demo_first) db =
      commit db (submit_page 100 ?k ''i'' demo_first d db)" using ingest_body [OF demo_ids(6,2,3) demo_valid(2)] by blast
  have c: "consistent [demo_item ''a'']" "agrees (staged empty_mdb (?k, ''i'')) [demo_item ''a'']"
    by (simp_all add: consistent_def demo_item_def empty_staged agrees_def)
  from submit_progress [of empty_mdb ?k "''i''" demo_first 100 d] demo_ready p demo_valid(2) c
  obtain v1 db1 run1 where s1: "submit_page 100 ?k ''i'' demo_first d empty_mdb = Inr (v1, db1)" and inv1: "minv db1"
    and stg: "staged db1 (?k, ''i'') = foldl add_item (staged empty_mdb (?k, ''i'')) [demo_item ''a'']"
    and pg: "m_pages db1 = [page_of 100 ?k ''i'' demo_first d]" and run1: "run_at db1 (?k, ''i'') = Some run1"
      "sr_status run1 = outcome demo_first" "sr_expected run1 = token_text (p_next demo_first)"
    by (auto simp: empty_mdb_def)
  have step: "mstep empty_mdb db1"
    using mt_ingest [of empty_mdb "\<lambda>_. 0" 100 None "''w''" "''src''" "page_body ''i'' demo_first"] by (simp add: d s1)
  have ready: "ready db1 ?k ''i'' (p_token demo_loop)"
    using inv1 run1 p by (simp add: ready_def pg find_by_Cons mkeys outcome_def demo_loop_def page_token_text token_text_def)
  have c2: "consistent (p_items demo_loop)" "agrees (staged db1 (?k, ''i'')) (p_items demo_loop)"
    by (simp_all add: consistent_def demo_item_def stg empty_staged agrees_def demo_loop_def)
  obtain d2 where d2: "\<And>db. ingest_source_page (\<lambda>_. 0) 200 None ''w'' ''src'' (page_body ''i'' demo_loop) db =
      commit db (submit_page 200 ?k ''i'' demo_loop d2 db)" using ingest_body [OF demo_ids(6,2,3) demo_valid(3)] by blast
  from submit_progress [OF ready demo_valid(3) _ c2, of 200 d2] obtain v2 db2 where
    s2: "submit_page 200 ?k ''i'' demo_loop d2 db1 = Inr (v2, db2)"
    and pg2: "m_pages db2 = m_pages db1 @ [page_of 200 ?k ''i'' demo_loop d2]" by (auto simp: demo_loop_def)
  have "rc_duplicate v2 \<Longrightarrow> db2 = db1" using submit_exact(1) [OF s2 inv1] demo_valid(3) by (simp add: page_valid_def)
  with pg2 have "\<not> rc_duplicate v2" by auto
  moreover have "find_by page_key ((?k, ''i''), ''t'') (m_pages db2) \<noteq> None"
    by (simp add: pg2 find_by_append find_by_Cons mkeys demo_loop_def page_token_text token_text_def split: option.split)
  ultimately show ?thesis using step d2 s2 by (metis commit_simps(2) r_into_rtranclp)
qed

theorem looping_inventory_blocks_witness:
  "\<exists>db m. snd (source_state db ([], ''w'', ''src'')) = Some (''i'', m) \<and>
    snd (ingest_source_page (\<lambda>_. 9) 900 None ''w'' ''src'' [] db) = db"
proof -
  from demo_wedge obtain db1 v2 db2 where run: "mstep\<^sup>*\<^sup>* empty_mdb db1"
    and ing: "ingest_source_page (\<lambda>_. 0) 200 None ''w'' ''src'' (page_body ''i'' demo_loop) db1 = (Inr v2, db2)"
    and new: "\<not> rc_duplicate v2" and pg: "find_by page_key ((([], ''w'', ''src''), ''i''), ''t'') (m_pages db2) \<noteq> None" by blast
  have "dget (page_body ''i'' demo_loop) ''inventoryId'' = JStr ''i''" "dget (page_body ''i'' demo_loop) ''nextPageToken'' = JStr ''t''"
    "dget (page_body ''i'' demo_loop) ''successful'' = JBool True" by (simp_all add: page_body_def dget_def demo_loop_def)
  from looping_inventory_blocks [OF run demo_ids(6) ing new this pg rtranclp.rtrancl_refl] show ?thesis by blast
qed

section \<open>Memory facts\<close>

lemma memory_fact_row_Inr:
  assumes "memory_fact_row fid t0 now org ws body actor private_scope = Inr row" and "work_scope org ws = Inr (o', ws)"
    and "memory_actor actor private_scope = Inr a"
  shows "mf_org row = o'" "mf_ws row = ws" "mf_actor row = (if private_scope then case_option [] (\<lambda>a. a) a else [])"
    "mf_id row = fid" "JStr (mf_ns row) = dget body ''namespace''" "JStr (mf_key row) = dget body ''key''"
    "\<exists>d. dget body ''value'' = JDict d \<and> work_json_text (JDict d) = Inr (mf_value row)"
proof -
  from assms obtain ns key d tx src obs fresh where ns: "bounded_text (dget body ''namespace'') 128 False = Inr ns"
    and key: "bounded_text (dget body ''key'') 512 False = Inr key" and d: "work_json_object (dget body ''value'') = Inr d"
    and tx: "work_json_text (JDict d) = Inr tx"
    and row: "row = \<lparr>mf_org = o', mf_ws = ws, mf_actor = (if private_scope then case_option [] (\<lambda>a. a) a else []),
        mf_id = fid, mf_ns = ns, mf_key = key, mf_value = tx, mf_source = src, mf_observed = obs,
        mf_fresh = fresh, mf_updated = now\<rparr>"
    unfolding memory_fact_row_def by (auto simp only: bindE_eq_Inr prod.case sum.inject bindE_simps)
  have "JStr ns = dget body ''namespace''" "JStr key = dget body ''key''"
    using ns key by (auto simp: bounded_text_def split: json.splits if_splits)
  with row work_json_object_Inr [OF d] tx
  show "mf_org row = o'" "mf_ws row = ws" "mf_actor row = (if private_scope then case_option [] (\<lambda>a. a) a else [])"
    "mf_id row = fid" "JStr (mf_ns row) = dget body ''namespace''" "JStr (mf_key row) = dget body ''key''"
    "\<exists>d. dget body ''value'' = JDict d \<and> work_json_text (JDict d) = Inr (mf_value row)" by auto
qed

text \<open>The slot of an upsert holds the new columns under the id it had, and no other slot changes.\<close>

lemma fact_row_eq:
  "mf_slot p = mf_slot r \<Longrightarrow> p\<lparr>mf_value := mf_value r, mf_source := mf_source r, mf_observed := mf_observed r,
     mf_fresh := mf_fresh r, mf_updated := mf_updated r\<rparr> = r\<lparr>mf_id := mf_id p\<rparr>"
  by (cases p; cases r) (simp add: mf_slot_def)

lemma put_fact_find:
  assumes "put_fact r t = Inr t'"
  shows "find_by mf_slot (mf_slot r) t' =
      Some (r\<lparr>mf_id := case find_by mf_slot (mf_slot r) t of None \<Rightarrow> mf_id r | Some p \<Rightarrow> mf_id p\<rparr>)"
    and "slot \<noteq> mf_slot r \<Longrightarrow> find_by mf_slot slot t' = find_by mf_slot slot t"
proof -
  have "find_by mf_slot (mf_slot r) t' =
      Some (r\<lparr>mf_id := case find_by mf_slot (mf_slot r) t of None \<Rightarrow> mf_id r | Some p \<Rightarrow> mf_id p\<rparr>) \<and>
      (slot \<noteq> mf_slot r \<longrightarrow> find_by mf_slot slot t' = find_by mf_slot slot t)"
  proof (cases "find_by mf_slot (mf_slot r) t")
    case None
    with assms show ?thesis by (auto simp: put_fact_def resE find_by_append find_by_Cons split: option.splits)
  next
    case (Some p)
    with assms have "t' = edit_by mf_slot (mf_slot r) (\<lambda>p. p\<lparr>mf_value := mf_value r, mf_source := mf_source r,
        mf_observed := mf_observed r, mf_fresh := mf_fresh r, mf_updated := mf_updated r\<rparr>) t" by (simp add: put_fact_def)
    with Some fact_row_eq [OF find_by_key [OF Some]] show ?thesis by (simp add: find_by_edit mkeys)
  qed
  then show "find_by mf_slot (mf_slot r) t' =
      Some (r\<lparr>mf_id := case find_by mf_slot (mf_slot r) t of None \<Rightarrow> mf_id r | Some p \<Rightarrow> mf_id p\<rparr>)"
    and "slot \<noteq> mf_slot r \<Longrightarrow> find_by mf_slot slot t' = find_by mf_slot slot t" by simp_all
qed

text \<open>A stored fact is listed to the caller it is for, when the page is large enough for all.\<close>

lemma stored_fact_listed:
  assumes "list_memory_facts clk org ws True limit actor private_scope db = Inr vs"
    and "work_scope org ws = Inr (o', ws)" and "memory_actor actor private_scope = Inr a"
    and "r \<in> set (if private_scope then m_private db else m_facts db)" and "mf_org r = o'" and "mf_ws r = ws"
    and "private_scope \<Longrightarrow> a = Some (mf_actor r)" and "int (length (m_facts db) + length (m_private db)) \<le> limit"
  shows "\<exists>w \<in> set vs. \<exists>t. memory_view t db r = Inr w"
proof -
  let ?f = "\<lambda>r. mf_org r = o' \<and> mf_ws r = ws" and ?p = "\<lambda>r. mf_org r = o' \<and> mf_ws r = ws \<and> Some (mf_actor r) = a"
  let ?rows = "memory_rows o' ws a private_scope limit db"
  have size: "length (filter ?f (m_facts db)) + length (filter ?p (m_private db)) \<le> nat limit"
    using assms(8) length_filter_le [of ?f "m_facts db"] length_filter_le [of ?p "m_private db"] by linarith
  then have "set ?rows = set (filter ?f (m_facts db)) \<union> (if private_scope then set (filter ?p (m_private db)) else {})"
    by (auto simp: memory_rows_def Let_def order_by2_def)
  with assms(4-7) have "r \<in> set ?rows" by (auto split: if_split_asm)
  then obtain i where i: "i < length ?rows" "?rows ! i = r" by (auto simp: in_set_conv_nth)
  from assms(1-3) have "mapE (\<lambda>(i, r). memory_view (clk i) db r) (List.enumerate 0 ?rows) = Inr vs"
    by (auto simp: list_memory_facts_def resE split: if_split_asm)
  then have "length vs = length ?rows" "memory_view (clk i) db r = Inr (vs ! i)"
    using i by (auto simp: mapE_Inr_iff list_all2_conv_all_nth nth_enumerate_eq)
  with i(1) show ?thesis by (intro bexI [of _ "vs ! i"]) auto
qed

lemma put_fact_filter:
  assumes "put_fact r t = Inr t'" and "\<And>x. mf_slot x = mf_slot r \<Longrightarrow> \<not> P x"
  shows "filter P t' = filter P t"
proof (cases "find_by mf_slot (mf_slot r) t")
  case None
  with assms show ?thesis by (auto simp: put_fact_def resE)
next
  case (Some p)
  let ?f = "\<lambda>p. p\<lparr>mf_value := mf_value r, mf_source := mf_source r, mf_observed := mf_observed r, mf_fresh := mf_fresh r,
    mf_updated := mf_updated r\<rparr>"
  have "filter P (edit_by mf_slot (mf_slot r) ?f t) = filter P t"
  proof (rule filter_edit_by_other)
    show "mf_slot x \<noteq> mf_slot r" if "P x" for x using that assms(2) by blast
    show False if "mf_slot x = mf_slot r" "P (?f x)" for x using that assms(2) [of "?f x"] by (simp add: mkeys)
  qed
  with assms(1) Some show ?thesis by (simp add: put_fact_def)
qed

lemma memory_view_frame: "memory_view now (db\<lparr>m_private := t\<rparr>) = memory_view now db"
  by (simp add: memory_view_def fun_eq_iff Let_def cong: option.case_cong)

lemma query_frame:
  assumes "m_sources db' = m_sources db" and "m_source_facts db' = m_source_facts db"
    and "list_memory_facts clk org ws True 1000 actor private_scope db' = list_memory_facts clk org ws True 1000 actor private_scope db"
  shows "query_memory scan clk t org ws query limit stale actor private_scope db' =
    query_memory scan clk t org ws query limit stale actor private_scope db"
proof -
  have view: "source_view t db' = source_view t db" by (simp add: source_view_def fun_eq_iff assms(1))
  show ?thesis unfolding query_memory_def assms view by (rule refl)
qed

lemma private_frame:
  assumes put: "put_fact row (m_private db) = Inr t" and "mf_org row = o'" "mf_ws row = ws" "mf_actor row = a"
    and other: "\<not> (private_scope \<and> memory_actor actor private_scope = Inr (Some a) \<and> work_scope org ws' = Inr (o', ws))"
  shows "list_memory_facts clk org ws' stale limit actor private_scope (db\<lparr>m_private := t\<rparr>) =
    list_memory_facts clk org ws' stale limit actor private_scope db"
proof -
  have rows: "memory_rows o'' ws'' actor' private_scope limit (db\<lparr>m_private := t\<rparr>) = memory_rows o'' ws'' actor' private_scope limit db"
    if no: "\<not> (private_scope \<and> actor' = Some a \<and> o'' = o' \<and> ws'' = ws)" for o'' ws'' actor'
  proof -
    have "filter (\<lambda>r. mf_org r = o'' \<and> mf_ws r = ws'' \<and> Some (mf_actor r) = actor') t =
        filter (\<lambda>r. mf_org r = o'' \<and> mf_ws r = ws'' \<and> Some (mf_actor r) = actor') (m_private db)" if private_scope
      by (rule put_fact_filter [OF put]) (use assms(2-4) that no in \<open>auto simp: mf_slot_def\<close>)
    then show ?thesis by (simp add: memory_rows_def)
  qed
  show ?thesis
  proof (cases "work_scope org ws'")
    case (Inr s)
    obtain o'' ws'' where s: "s = (o'', ws'')" by (cases s)
    show ?thesis
    proof (cases "memory_actor actor private_scope")
      case a: (Inr actor')
      have "memory_rows o'' ws'' actor' private_scope limit (db\<lparr>m_private := t\<rparr>) = memory_rows o'' ws'' actor' private_scope limit db"
        by (rule rows) (use other Inr s a in auto)
      with Inr s a show ?thesis by (simp add: list_memory_facts_def memory_view_frame)
    qed (simp add: list_memory_facts_def Inr s)
  qed (simp add: list_memory_facts_def)
qed

text \<open>
  C14. A memory fact is stored as given, in one slot, and a private one is visible to its actor alone. After a successful
  upsert the slot of the request holds exactly the row it asks for, under the id of the fact that was there before if
  there was one; the answer is the view of that stored row, with the namespace, key and value of the request (the
  value as its canonical JSON), and a listing by the same caller that has room for every fact shows it. Every
  other fact and every other table is as it was. If the scope is private, every listing and every query by another
  actor, in another scope or without the private scope returns what it returned before.
\<close>

theorem memory_fact_upsert:
  assumes "mstep\<^sup>*\<^sup>* empty_mdb db" and "work_scope org ws = Inr (o', ws)" and "memory_actor actor private_scope = Inr a"
    and "upsert_memory_fact fid t0 now t1 org ws body actor private_scope db = (Inr v, db')" and "jwf (dget body ''value'')"
  shows "\<exists>d slot. dget body ''value'' = JDict d \<and> fv_value v = sort_key fst (canon_items d) \<and>
    dget body ''namespace'' = JStr (fv_ns v) \<and> dget body ''key'' = JStr (fv_key v) \<and>
    slot = (o', ws, if private_scope then case_option [] (\<lambda>a. a) a else [], fv_ns v, fv_key v) \<and>
    fv_id v = (case find_by mf_slot slot (if private_scope then m_private db else m_facts db) of None \<Rightarrow> fid | Some r \<Rightarrow> mf_id r) \<and>
    (\<exists>r. memory_fact_row fid t0 now org ws body actor private_scope = Inr (r\<lparr>mf_id := fid\<rparr>) \<and> mf_id r = fv_id v \<and>
       find_by mf_slot slot (if private_scope then m_private db' else m_facts db') = Some r \<and>
       stored_object (mf_value r) = Inr (fv_value v) \<and> memory_view t1 db' r = Inr v) \<and>
    (\<forall>clk limit vs. list_memory_facts clk org ws True limit actor private_scope db' = Inr vs \<longrightarrow>
       int (length (m_facts db') + length (m_private db')) \<le> limit \<longrightarrow>
       (\<exists>w \<in> set vs. fv_id w = fv_id v \<and> fv_ns w = fv_ns v \<and> fv_key w = fv_key v \<and> fv_value w = fv_value v)) \<and>
    (\<forall>s. s \<noteq> slot \<longrightarrow> find_by mf_slot s (if private_scope then m_private db' else m_facts db') =
       find_by mf_slot s (if private_scope then m_private db else m_facts db)) \<and>
    (if private_scope then db' = db\<lparr>m_private := m_private db'\<rparr> else db' = db\<lparr>m_facts := m_facts db'\<rparr>) \<and>
    (private_scope \<longrightarrow> (\<forall>scan clk t org2 ws2 query limit stale actor2 scope2.
       \<not> (scope2 \<and> memory_actor actor2 scope2 = Inr a \<and> work_scope org2 ws2 = Inr (o', ws)) \<longrightarrow>
       list_memory_facts clk org2 ws2 stale limit actor2 scope2 db' = list_memory_facts clk org2 ws2 stale limit actor2 scope2 db \<and>
       query_memory scan clk t org2 ws2 query limit stale actor2 scope2 db' =
         query_memory scan clk t org2 ws2 query limit stale actor2 scope2 db))"
proof -
  let ?tbl = "if private_scope then m_private db else m_facts db"
  let ?tbl' = "if private_scope then m_private db' else m_facts db'"
  let ?a = "if private_scope then case_option [] (\<lambda>a. a) a else []"
  from assms(4) obtain row where mk: "memory_fact_row fid t0 now org ws body actor private_scope = Inr row"
    and st: "store_fact t1 private_scope row db = Inr (v, db')"
    by (auto simp: upsert_memory_fact_def commit_Inr bindE_eq_Inr)
  note cols = memory_fact_row_Inr [OF mk assms(2,3)]
  from cols(7) obtain d where d: "dget body ''value'' = JDict d" "work_json_text (JDict d) = Inr (mf_value row)" by blast
  from st obtain t r where put: "put_fact row ?tbl = Inr t"
    and db': "db' = (if private_scope then db\<lparr>m_private := t\<rparr> else db\<lparr>m_facts := t\<rparr>)"
    and r: "find_by mf_slot (mf_slot row) t = Some r" and v: "memory_view t1 db' r = Inr v" by (rule store_fact_Inr)
  from put_fact_find(1) [OF put] r have r': "r = row\<lparr>mf_id := mf_id r\<rparr>" "mf_slot r = mf_slot row" "mf_value r = mf_value row"
    "mf_id r = (case find_by mf_slot (mf_slot row) ?tbl of None \<Rightarrow> mf_id row | Some p \<Rightarrow> mf_id p)"
    by (auto simp: mf_slot_def)
  have val: "stored_object (mf_value row) = Inr (sort_key fst (canon_items d))"
    by (rule stored_object_text [OF d(2)]) (use assms(5) d(1) in simp)
  from v r' val have view: "fv_value v = sort_key fst (canon_items d)" "fv_ns v = mf_ns row" "fv_key v = mf_key row" "fv_id v = mf_id r"
    by (auto simp: memory_view_def Let_def mf_slot_def)
  have slot: "mf_slot row = (o', ws, ?a, fv_ns v, fv_key v)" using cols(1-3) view(2,3) by (simp add: mf_slot_def)
  have ids: "fv_id v = (case find_by mf_slot (o', ws, ?a, fv_ns v, fv_key v) ?tbl of None \<Rightarrow> fid | Some r \<Rightarrow> mf_id r)"
    using r'(4) view(4) cols(4) by (simp add: slot cong: option.case_cong)
  have t: "?tbl' = t" by (simp add: db')
  have "row = r\<lparr>mf_id := fid\<rparr>" by (subst r'(1)) (simp add: cols(4) [symmetric])
  with mk have row: "memory_fact_row fid t0 now org ws body actor private_scope = Inr (r\<lparr>mf_id := fid\<rparr>)" by simp
  have "find_by mf_slot (o', ws, ?a, fv_ns v, fv_key v) ?tbl' = Some r" using r unfolding t slot [symmetric] .
  moreover have "stored_object (mf_value r) = Inr (fv_value v)" unfolding r'(3) view(1) by (rule val)
  ultimately have stored: "\<exists>r. memory_fact_row fid t0 now org ws body actor private_scope = Inr (r\<lparr>mf_id := fid\<rparr>) \<and>
      mf_id r = fv_id v \<and> find_by mf_slot (o', ws, ?a, fv_ns v, fv_key v) ?tbl' = Some r \<and>
      stored_object (mf_value r) = Inr (fv_value v) \<and> memory_view t1 db' r = Inr v"
    using row view(4) v by (intro exI [of _ r] conjI) simp_all
  have listed: "\<exists>w \<in> set vs. fv_id w = fv_id v \<and> fv_ns w = fv_ns v \<and> fv_key w = fv_key v \<and> fv_value w = fv_value v"
    if "list_memory_facts clk org ws True limit actor private_scope db' = Inr vs"
      "int (length (m_facts db') + length (m_private db')) \<le> limit" for clk limit vs
  proof -
    note here = that
    from find_by_SomeD [OF r] t have "r \<in> set ?tbl'" by simp
    moreover have "private_scope \<Longrightarrow> a = Some (mf_actor r)"
      using assms(3) r'(2) cols(3) by (cases a) (auto simp: memory_actor_def resE mf_slot_def)
    ultimately obtain w x where "w \<in> set vs" "memory_view x db' r = Inr w"
      using stored_fact_listed [OF here(1) assms(2,3) _ _ _ _ here(2), of r] r'(2) cols(1,2) by (auto simp: mf_slot_def)
    with v show ?thesis by (auto simp: memory_view_def Let_def resE intro!: bexI [of _ w])
  qed
  have frame: "find_by mf_slot s (if private_scope then m_private db' else m_facts db') = find_by mf_slot s ?tbl"
    if "s \<noteq> (o', ws, ?a, fv_ns v, fv_key v)" for s
    using put_fact_find(2) [OF put, of s] that by (simp add: slot db')
  have hidden: "list_memory_facts clk org2 ws2 stale limit actor2 scope2 db' = list_memory_facts clk org2 ws2 stale limit actor2 scope2 db"
    if "private_scope" "\<not> (scope2 \<and> memory_actor actor2 scope2 = Inr a \<and> work_scope org2 ws2 = Inr (o', ws))"
    for clk org2 ws2 stale limit actor2 scope2
  proof -
    from that(1) assms(3) obtain x where x: "a = Some x" by (cases a) (auto simp: memory_actor_def resE)
    show ?thesis
      using private_frame [of row db t o' ws x scope2 actor2 org2 ws2] put cols(1-3) that by (simp add: db' x)
  qed
  have hidden_query: "query_memory scan clk u org2 ws2 query limit stale actor2 scope2 db' =
      query_memory scan clk u org2 ws2 query limit stale actor2 scope2 db"
    if "private_scope" "\<not> (scope2 \<and> memory_actor actor2 scope2 = Inr a \<and> work_scope org2 ws2 = Inr (o', ws))"
    for scan clk u org2 ws2 query limit stale actor2 scope2
    by (rule query_frame [OF _ _ hidden [OF that]]) (simp_all add: db' that(1))
  have "if private_scope then db' = db\<lparr>m_private := m_private db'\<rparr> else db' = db\<lparr>m_facts := m_facts db'\<rparr>" by (simp add: db')
  with d(1) view(1-3) cols(5,6) ids stored listed frame hidden hidden_query show ?thesis
    by (intro exI [of _ d] exI [of _ "(o', ws, ?a, fv_ns v, fv_key v)"]) auto
qed

definition demo_fact :: json_object where
  "demo_fact = [(''namespace'', JStr ''n''), (''key'', JStr ''k''), (''value'', JDict [])]"

lemma demo_upsert:
  "\<exists>v db'. upsert_memory_fact ''f'' 1 2 3 None ''w'' demo_fact (Some ''ann'') True empty_mdb = (Inr v, db')"
proof -
  have "work_json_object (JDict []) = Inr []" "stored_object ''{}'' = Inr []"
    using stored_object_text [of "[]" "''{}''"]
    by (simp_all add: work_json_object_def work_json_text_def json_text_def utf8_def utf8_char_def MAX_JSON_BYTES_def)
  then show ?thesis
    by (simp add: upsert_memory_fact_def memory_fact_row_def demo_ids demo_fact_def dget_def bounded_text_def py_strip_def
        py_space_def optional_text_def memory_actor_def actor_of_def work_json_text_def json_text_def store_fact_def put_fact_def
        empty_mdb_def insert_by_def find_by_Cons memory_view_def)
qed

theorem memory_fact_upsert_witness:
  "\<exists>v db'. upsert_memory_fact ''f'' 1 2 3 None ''w'' demo_fact (Some ''ann'') True empty_mdb = (Inr v, db') \<and> fv_id v = ''f'' \<and>
    fv_value v = [] \<and> list_memory_facts (\<lambda>_. 9) None ''w'' True 10 (Some ''bob'') True db' =
      list_memory_facts (\<lambda>_. 9) None ''w'' True 10 (Some ''bob'') True empty_mdb"
proof -
  from demo_upsert obtain v db' where
    up: "upsert_memory_fact ''f'' 1 2 3 None ''w'' demo_fact (Some ''ann'') True empty_mdb = (Inr v, db')" by blast
  have ann: "memory_actor (Some ''ann'') True = Inr (Some ''ann'')" and bob: "memory_actor (Some ''bob'') True = Inr (Some ''bob'')"
    by (simp_all add: memory_actor_def actor_of_def demo_ids py_lower_def py_lower_char_def)
  have "jwf (dget demo_fact ''value'')" "dget demo_fact ''value'' = JDict []" by (simp_all add: demo_fact_def dget_def)
  with memory_fact_upsert [OF rtranclp.rtrancl_refl demo_ids(6) ann up] bob up show ?thesis
    by (auto simp: empty_mdb_def)
qed

end
