(* ===== verification/Health_Time.thy ===== *)
theory Health_Time
  imports Work_Base
begin

text \<open>
  The parts of Python's standard library that the credential-health code of \<open>work/store.py\<close> relies on, and the two
  timestamp functions built on them: reading an RFC 3339 time (\<open>datetime.fromisoformat\<close> of Python 3.12), converting
  it to milliseconds through a double (\<open>timestamp() * 1_000\<close>), and reading a UUID (\<open>uuid.UUID\<close>). A double is the
  exact fraction it denotes; every value that occurs is far inside the normal range, so rounding to 53 bits is all that
  the format adds.
\<close>

section \<open>Doubles\<close>

text \<open>\<open>int.bit_length\<close> of a number that is not negative.\<close>

function bit_length :: "int \<Rightarrow> int" where
  "bit_length n = (if n \<le> 0 then 0 else 1 + bit_length (n div 2))"
  by pat_completeness auto

termination
  by (relation "measure nat") auto

declare bit_length.simps [simp del]

text \<open>The integer nearest to \<open>n / d\<close>, the even one of two.\<close>

definition round_half_even :: "int \<Rightarrow> int \<Rightarrow> int" where
  "round_half_even n d = (let q = n div d; r = n mod d in
     if 2 * r < d \<or> (2 * r = d \<and> even q) then q else q + 1)"

text \<open>
  The double nearest to \<open>n / d\<close>, as a fraction: with the exponent \<open>e\<close> such that \<open>\<bar>n / d\<bar> / 2 ^ e\<close> lies between
  \<open>2 ^ 52\<close> and \<open>2 ^ 53\<close>, the mantissa is the nearest integer.
\<close>

definition exponent :: "int \<Rightarrow> int \<Rightarrow> int" where
  "exponent n d = (let e = bit_length \<bar>n\<bar> - bit_length d - 53 in
     if \<bar>n\<bar> * 2 ^ nat (- e) \<ge> 2 ^ 53 * (d * 2 ^ nat e) then e + 1 else e)"

definition float_div :: "int \<Rightarrow> int \<Rightarrow> int \<times> int" where
  "float_div n d = (let e = exponent n d in
     (round_half_even (n * 2 ^ nat (- e)) (d * 2 ^ nat e) * 2 ^ nat e, 2 ^ nat (- e)))"

definition float_mult :: "int \<times> int \<Rightarrow> int \<Rightarrow> int \<times> int" where
  "float_mult x k = float_div (fst x * k) (snd x)"

text \<open>\<open>int(x)\<close> drops the fraction.\<close>

definition float_trunc :: "int \<times> int \<Rightarrow> int" where
  "float_trunc x = sgn (fst x) * (\<bar>fst x\<bar> div snd x)"

section \<open>Dates\<close>

definition leap_year :: "int \<Rightarrow> bool" where
  "leap_year y \<longleftrightarrow> y mod 4 = 0 \<and> (y mod 100 \<noteq> 0 \<or> y mod 400 = 0)"

definition days_in_month :: "int \<Rightarrow> int \<Rightarrow> int" where
  "days_in_month y m = (if m = 2 \<and> leap_year y then 29
     else [31, 28, 31, 30, 31, 30, 31, 31, 30, 31, 30, 31] ! nat (m - 1))"

definition days_before_month :: "int \<Rightarrow> int \<Rightarrow> int" where
  "days_before_month y m = sum_list (map (days_in_month y) [1..m - 1])"

text \<open>\<open>date.toordinal\<close>; 1970-01-01 is day 719163.\<close>

definition date_ordinal :: "int \<Rightarrow> int \<Rightarrow> int \<Rightarrow> int" where
  "date_ordinal y m d = (let p = y - 1 in 365 * p + p div 4 - p div 100 + p div 400 + days_before_month y m + d)"

definition valid_time :: "int \<Rightarrow> int \<Rightarrow> int \<Rightarrow> int \<Rightarrow> int \<Rightarrow> int \<Rightarrow> bool" where
  "valid_time y m d hh mm ss \<longleftrightarrow> 1 \<le> y \<and> y \<le> 9999 \<and> 1 \<le> m \<and> m \<le> 12 \<and> 1 \<le> d \<and> d \<le> days_in_month y m \<and>
     0 \<le> hh \<and> hh \<le> 23 \<and> 0 \<le> mm \<and> mm \<le> 59 \<and> 0 \<le> ss \<and> ss \<le> 59"

definition epoch_micros :: "int \<Rightarrow> int \<Rightarrow> int \<Rightarrow> int \<Rightarrow> int \<Rightarrow> int \<Rightarrow> int \<Rightarrow> int" where
  "epoch_micros y m d hh mm ss us =
    ((date_ordinal y m d - 719163) * 86400 + hh * 3600 + mm * 60 + ss) * 1000000 + us"

text \<open>
  \<open>\d{4}-\d{2}-\d{2}T\d{2}:\d{2}:\d{2}(?:\.\d+)?Z\<close> with \<open>re.fullmatch\<close>: nineteen characters, an optional fraction,
  and the letter \<open>Z\<close>.
\<close>

definition time_punct :: "nat \<Rightarrow> char option" where
  "time_punct i = map_of [(4, CHR ''-''), (7, CHR ''-''), (10, CHR ''T''), (13, CHR '':''), (16, CHR '':'')] i"

definition is_utc_time :: "string \<Rightarrow> bool" where
  "is_utc_time s \<longleftrightarrow> 20 \<le> length s \<and> last s = CHR ''Z'' \<and>
     list_all (\<lambda>(i, c). case time_punct i of Some p \<Rightarrow> c = p | None \<Rightarrow> is_digit c) (zip [0..<19] s) \<and>
     (let frac = butlast (drop 19 s) in
      frac = [] \<or> (hd frac = CHR ''.'' \<and> tl frac \<noteq> [] \<and> list_all is_digit (tl frac)))"

text \<open>A fraction is cut after six digits and padded to six.\<close>

definition frac_micros :: "string \<Rightarrow> int" where
  "frac_micros ds = digits_value (take 6 (ds @ ''000000''))"

text \<open>
  \<open>datetime.fromisoformat(value.replace("Z", "+00:00"))\<close> on a text of that form: the microseconds since the epoch, or
  \<open>None\<close> where it raises \<open>ValueError\<close>.
\<close>

definition field_at :: "string \<Rightarrow> nat \<Rightarrow> nat \<Rightarrow> int" where
  "field_at s i n = digits_value (take n (drop i s))"

definition from_isoformat :: "string \<Rightarrow> int option" where
  "from_isoformat s =
    (let y = field_at s 0 4; m = field_at s 5 2; d = field_at s 8 2;
         hh = field_at s 11 2; mm = field_at s 14 2; ss = field_at s 17 2 in
     if is_utc_time s \<and> valid_time y m d hh mm ss
     then Some (epoch_micros y m d hh mm ss (frac_micros (tl (butlast (drop 19 s))))) else None)"

definition micros_to_ms :: "int \<Rightarrow> int" where
  "micros_to_ms us = float_trunc (float_mult (float_div us 1000000) 1000)"

definition credential_timestamp_ms :: "string \<Rightarrow> int res" where
  "credential_timestamp_ms s = (case from_isoformat s of None \<Rightarrow> Inl ValueError | Some us \<Rightarrow> Inr (micros_to_ms us))"

abbreviation bad_health :: "'a res" where
  "bad_health \<equiv> invalid ''WORK_CREDENTIAL_HEALTH_INVALID''"

definition credential_utc_timestamp :: "json \<Rightarrow> string option res" where
  "credential_utc_timestamp v =
    (if v = JNull then Inr None
     else bindE (bounded_text v 64 False) (\<lambda>s.
       if \<not> is_utc_time s then bad_health
       else if from_isoformat s = None then bad_health else Inr (Some s)))"

section \<open>UUIDs\<close>

text \<open>\<open>str.replace(old, '')\<close>.\<close>

function remove_all :: "string \<Rightarrow> string \<Rightarrow> string" where
  "remove_all old s = (if s = [] then []
     else if old \<noteq> [] \<and> starts_with old s then remove_all old (drop (length old) s)
     else hd s # remove_all old (tl s))"
  by pat_completeness auto

termination
  by (relation "measure (\<lambda>(_, s). length s)") (auto simp: Suc_diff_Suc)

declare remove_all.simps [simp del]

definition strip_braces :: "string \<Rightarrow> string" where
  "strip_braces s = (let brace = (\<lambda>c. c = CHR ''{'' \<or> c = CHR ''}'') in rev (dropWhile brace (rev (dropWhile brace s))))"

text \<open>The digits of \<open>int(s, 16)\<close>: single underscores may stand between them.\<close>

fun hex_digits :: "int \<Rightarrow> string \<Rightarrow> int option" where
  "hex_digits a [] = Some a"
| "hex_digits a (c # s) =
    (if c = CHR ''_'' then (case s of [] \<Rightarrow> None | c' # s' \<Rightarrow>
       (case hex_val c' of None \<Rightarrow> None | Some v \<Rightarrow> hex_digits (a * 16 + v) s'))
     else (case hex_val c of None \<Rightarrow> None | Some v \<Rightarrow> hex_digits (a * 16 + v) s))"

definition int16 :: "string \<Rightarrow> int option" where
  "int16 s =
    (let t = py_strip s;
         neg = starts_with ''-'' t;
         u = (if neg \<or> starts_with ''+'' t then tl t else t);
         radix = starts_with ''0x'' u \<or> starts_with ''0X'' u;
         v = (if radix then drop 2 u else u);
         w = (if radix \<and> starts_with ''_'' v then tl v else v) in
     if w = [] \<or> hd w = CHR ''_'' then None
     else map_option (\<lambda>n. if neg then - n else n) (hex_digits 0 w))"

definition hex_char :: "int \<Rightarrow> char" where
  "hex_char v = ''0123456789abcdef'' ! nat v"

fun hex_text :: "nat \<Rightarrow> int \<Rightarrow> string" where
  "hex_text 0 n = []"
| "hex_text (Suc k) n = hex_text k (n div 16) @ [hex_char (n mod 16)]"

definition uuid_text :: "int \<Rightarrow> string" where
  "uuid_text n = (let h = hex_text 32 n in
     take 8 h @ ''-'' @ take 4 (drop 8 h) @ ''-'' @ take 4 (drop 12 h) @ ''-'' @ take 4 (drop 16 h) @ ''-'' @ drop 20 h)"

text \<open>\<open>str(UUID(s))\<close>, or \<open>None\<close> where the constructor raises \<open>ValueError\<close>.\<close>

definition uuid_of :: "string \<Rightarrow> string option" where
  "uuid_of s =
    (let h = filter (\<lambda>c. c \<noteq> CHR ''-'') (strip_braces (remove_all ''uuid:'' (remove_all ''urn:'' s))) in
     if length h \<noteq> 32 then None
     else case int16 h of None \<Rightarrow> None | Some n \<Rightarrow> if 0 \<le> n \<and> n < 2 ^ 128 then Some (uuid_text n) else None)"

end
