(* ===== verification/Health_Store.thy ===== *)
theory Health_Store
  imports Work_Outbox Health_Time
begin

text \<open>
  Credential health of \<open>work/store.py\<close>: the strict reading of an Exchange authorization snapshot
  (\<open>_credential_health_snapshot\<close>), the decision whether it calls for action (\<open>_credential_health_decision\<close>), its
  fingerprint and notice, and \<open>process_credential_health_snapshots\<close>, which keeps one incident per connection and
  enqueues a notice when one opens, once per cooldown while it lasts, and when it ends. The state is the Work store's
  tables with the checkpoint table. Fresh ids are arguments: \<open>nid i\<close> is the notification id and \<open>inc i\<close> the incident
  id that snapshot \<open>i\<close> of the request draws when it needs one.
\<close>

section \<open>Snapshots\<close>

record capability =
  cp_id :: string
  cp_state :: string
  cp_verified :: "string option"
  cp_expires :: "string option"
  cp_reason :: "string option"

record graph_owner =
  go_actor :: string
  go_tenant :: string
  go_bot :: string

record health_snapshot =
  sn_connection :: string
  sn_provider :: string
  sn_login :: string
  sn_auth :: string
  sn_checked :: "string option"
  sn_expires :: "string option"
  sn_generation :: int
  sn_caps :: "capability list"
  sn_reason :: "string option"
  sn_owner :: "graph_owner option"

definition is_alnum :: "char \<Rightarrow> bool" where
  "is_alnum c \<longleftrightarrow> is_digit c \<or> (let n = (of_char c :: int) in (65 \<le> n \<and> n \<le> 90) \<or> (97 \<le> n \<and> n \<le> 122))"

text \<open>\<open>[A-Za-z0-9][A-Za-z0-9<extra>]{0,n}\<close> with \<open>fullmatch\<close>.\<close>

definition symbolic :: "string \<Rightarrow> nat \<Rightarrow> string \<Rightarrow> bool" where
  "symbolic extra n s = (case s of [] \<Rightarrow> False
     | c # t \<Rightarrow> is_alnum c \<and> length t \<le> n \<and> list_all (\<lambda>c. is_alnum c \<or> c \<in> set extra) t)"

definition credential_reason_code :: "json \<Rightarrow> string option res" where
  "credential_reason_code v = bindE (optional_text v 160) (\<lambda>r.
     case r of None \<Rightarrow> Inr None | Some s \<Rightarrow> if symbolic ''._:-'' 159 s then Inr (Some s) else bad_health)"

definition providers :: "string list" where
  "providers = [''hf'', ''runpod'', ''azure'', ''gcp'', ''microsoft_graph'']"

definition login_states :: "string list" where
  "login_states = [''PRESENT'', ''MISSING'', ''UNKNOWN'', ''UNAVAILABLE'']"

definition auth_states :: "string list" where
  "auth_states = [''VALID'', ''REAUTHORIZATION_REQUIRED'', ''PERMISSION_DENIED'', ''UNKNOWN'', ''UNAVAILABLE'']"

definition allowed_text :: "json \<Rightarrow> nat \<Rightarrow> string list \<Rightarrow> string res" where
  "allowed_text v maximum allowed = bindE (bounded_text v maximum False) (\<lambda>s. if s \<in> set allowed then Inr s else bad_health)"

definition health_owner :: "string \<Rightarrow> json \<Rightarrow> graph_owner option res" where
  "health_owner provider v =
    (if (provider = ''microsoft_graph'') = (v = JNull) then bad_health
     else if v = JNull then Inr None
     else case v of
       JDict d \<Rightarrow>
         if \<not> keys_are d [''actorAadObjectId'', ''tenantId'', ''botAppId''] then bad_health
         else
           bindE (canonical_uuid (dget d ''actorAadObjectId'')) (\<lambda>actor.
           bindE (canonical_uuid (dget d ''tenantId'')) (\<lambda>tenant.
           bindE (canonical_uuid (dget d ''botAppId'')) (\<lambda>bot_app.
             Inr (Some \<lparr>go_actor = actor, go_tenant = tenant, go_bot = bot_app\<rparr>))))
     | _ \<Rightarrow> bad_health)"

definition health_capability :: "json \<Rightarrow> string list \<Rightarrow> capability res" where
  "health_capability v ids = (case v of
     JDict d \<Rightarrow>
       if \<not> keys_are d [''capabilityId'', ''state'', ''lastVerifiedAt'', ''expiresAt'', ''reasonCode''] then bad_health
       else
         bindE (work_identifier_of (dget d ''capabilityId'')) (\<lambda>cid.
           if \<not> symbolic ''._:/-'' 255 cid then bad_health
           else if cid \<in> set ids then bad_health
           else
             bindE (allowed_text (dget d ''state'') 64 auth_states) (\<lambda>state.
             bindE (credential_utc_timestamp (dget d ''lastVerifiedAt'')) (\<lambda>verified.
             bindE (credential_utc_timestamp (dget d ''expiresAt'')) (\<lambda>expires.
             bindE (credential_reason_code (dget d ''reasonCode'')) (\<lambda>reason.
               Inr \<lparr>cp_id = cid, cp_state = state, cp_verified = verified, cp_expires = expires, cp_reason = reason\<rparr>)))))
   | _ \<Rightarrow> bad_health)"

fun health_capabilities :: "json list \<Rightarrow> string list \<Rightarrow> capability list res" where
  "health_capabilities [] ids = Inr []"
| "health_capabilities (v # vs) ids =
    bindE (health_capability v ids) (\<lambda>c.
    bindE (health_capabilities vs (cp_id c # ids)) (\<lambda>cs. Inr (c # cs)))"

definition snapshot_keys :: "string list" where
  "snapshot_keys = [''connectionId'', ''provider'', ''loginState'', ''authorizationState'', ''checkedAt'', ''expiresAt'',
     ''generation'', ''capabilities'', ''reasonCode'']"

definition health_connection :: "json \<Rightarrow> string res" where
  "health_connection v = bindE (work_identifier_of v) (\<lambda>s.
     case uuid_of s of None \<Rightarrow> bad_health | Some u \<Rightarrow> Inr u)"

definition capability_list :: "json \<Rightarrow> capability list res" where
  "capability_list v = (case v of
     JList l \<Rightarrow> if length l > 100 then bad_health else health_capabilities l []
   | _ \<Rightarrow> bad_health)"

definition credential_health_snapshot :: "json \<Rightarrow> health_snapshot res" where
  "credential_health_snapshot v = (case v of
     JDict d \<Rightarrow>
       if \<not> (keys_are d snapshot_keys \<or> keys_are d (''privateOwner'' # snapshot_keys)) then bad_health
       else
         bindE (health_connection (dget d ''connectionId'')) (\<lambda>connection.
         bindE (allowed_text (dget d ''provider'') 32 providers) (\<lambda>provider.
         bindE (health_owner provider (dget d ''privateOwner'')) (\<lambda>owner.
         bindE (allowed_text (dget d ''loginState'') 32 login_states) (\<lambda>login.
         bindE (allowed_text (dget d ''authorizationState'') 64 auth_states) (\<lambda>auth.
         bindE (credential_utc_timestamp (dget d ''checkedAt'')) (\<lambda>checked.
         bindE (credential_utc_timestamp (dget d ''expiresAt'')) (\<lambda>expires.
         bindE (nonnegative_integer (dget d ''generation'')) (\<lambda>generation.
         bindE (capability_list (dget d ''capabilities'')) (\<lambda>caps.
         bindE (credential_reason_code (dget d ''reasonCode'')) (\<lambda>reason.
           Inr \<lparr>sn_connection = connection, sn_provider = provider, sn_login = login, sn_auth = auth, sn_checked = checked,
                sn_expires = expires, sn_generation = generation, sn_caps = sort_key cp_id caps, sn_reason = reason,
                sn_owner = owner\<rparr>))))))))))
   | _ \<Rightarrow> bad_health)"

section \<open>Decision, fingerprint and notice\<close>

definition unknown_states :: "string list" where
  "unknown_states = [''UNKNOWN'', ''UNAVAILABLE'']"

definition failing_states :: "string list" where
  "failing_states = [''REAUTHORIZATION_REQUIRED'', ''PERMISSION_DENIED'']"

definition sn_states :: "health_snapshot \<Rightarrow> string list" where
  "sn_states s = sn_auth s # map cp_state (sn_caps s)"

text \<open>The decision on the states alone, and with the age of the check.\<close>

definition state_decision :: "health_snapshot \<Rightarrow> string" where
  "state_decision s =
    (if sn_login s \<in> set unknown_states \<or> list_ex (\<lambda>x. x \<in> set unknown_states) (sn_states s) then ''unknown''
     else if list_ex (\<lambda>x. x \<in> set failing_states) (sn_states s) then ''action_required''
     else if sn_login s = ''PRESENT'' \<and> sn_auth s = ''VALID'' \<and> list_all (\<lambda>c. cp_state c = ''VALID'') (sn_caps s)
       then ''healthy''
     else ''unknown'')"

definition stale_check :: "int \<Rightarrow> int \<Rightarrow> bool" where
  "stale_check now checked \<longleftrightarrow> checked > now + 5 * 60 * 1000 \<or> now - checked > 30 * 60 * 1000"

definition credential_health_decision :: "health_snapshot \<Rightarrow> int \<Rightarrow> string res" where
  "credential_health_decision s now = (case sn_checked s of
     None \<Rightarrow> Inr ''unknown''
   | Some t \<Rightarrow> bindE (credential_timestamp_ms t) (\<lambda>checked.
       if stale_check now checked then Inr ''unknown'' else Inr (state_decision s)))"

definition credential_health_fingerprint :: "health_snapshot \<Rightarrow> string res" where
  "credential_health_fingerprint s = work_digest (JDict
    [(''provider'', JStr (sn_provider s)), (''loginState'', JStr (sn_login s)), (''authorizationState'', JStr (sn_auth s)),
     (''expiresAt'', jopt (sn_expires s)), (''generation'', JInt (sn_generation s)),
     (''capabilities'', JList (map (\<lambda>c. JDict
        [(''capabilityId'', JStr (cp_id c)), (''state'', JStr (cp_state c)), (''expiresAt'', jopt (cp_expires c)),
         (''reasonCode'', jopt (cp_reason c))]) (sn_caps s))),
     (''reasonCode'', jopt (sn_reason s))])"

definition credential_health_notice :: "health_snapshot \<Rightarrow> string \<Rightarrow> string \<Rightarrow> json_object" where
  "credential_health_notice s event incident =
    [(''schemaVersion'', JInt 1), (''event'', JStr event), (''incidentId'', JStr incident),
     (''connectionId'', JStr (sn_connection s)), (''provider'', JStr (sn_provider s)),
     (''generation'', JInt (sn_generation s)), (''loginState'', JStr (sn_login s)),
     (''authorizationState'', JStr (sn_auth s)),
     (''capabilities'', JList (map (\<lambda>c. JDict [(''capabilityId'', JStr (cp_id c)), (''state'', JStr (cp_state c))]) (sn_caps s))),
     (''checkedAt'', jopt (sn_checked s)), (''expiresAt'', jopt (sn_expires s)), (''reasonCode'', jopt (sn_reason s))]"

section \<open>Checkpoints and incidents\<close>

record health_row =
  hl_org :: string
  hl_ws :: string
  hl_connection :: string
  hl_provider :: string
  hl_generation :: int
  hl_fingerprint :: string
  hl_decision :: string
  hl_checked :: "string option"
  hl_expires :: "string option"
  hl_reason :: "string option"
  hl_incident :: "string option"
  hl_started :: "int option"
  hl_notified :: "int option"
  hl_reminders :: int
  hl_updated :: int

record hdb =
  h_work :: wdb
  h_rows :: "health_row list"

definition hl_key :: "health_row \<Rightarrow> task_key" where
  "hl_key r = (hl_org r, hl_ws r, hl_connection r)"

definition COOLDOWN_MS :: int where
  "COOLDOWN_MS = 24 * 60 * 60 * 1000"

text \<open>The incident columns of a checkpoint; an empty text counts as no incident.\<close>

record incident =
  ic_id :: "string option"
  ic_started :: "int option"
  ic_notified :: "int option"
  ic_reminders :: int

definition no_incident :: incident where
  "no_incident = \<lparr>ic_id = None, ic_started = None, ic_notified = None, ic_reminders = 0\<rparr>"

definition truthy_text :: "string option \<Rightarrow> string option" where
  "truthy_text s = (if s = Some [] then None else s)"

definition row_incident :: "health_row \<Rightarrow> incident" where
  "row_incident r = \<lparr>ic_id = truthy_text (hl_incident r), ic_started = hl_started r, ic_notified = hl_notified r,
     ic_reminders = hl_reminders r\<rparr>"

definition incident_key :: "string \<Rightarrow> string \<Rightarrow> string \<Rightarrow> string" where
  "incident_key connection incident event = ''credential-health:'' @ connection @ '':'' @ incident @ '':'' @ event"

text \<open>A notice to enqueue: its event, its incident and the last part of its deduplication key.\<close>

type_synonym notice = "string \<times> string \<times> string"

definition next_incident :: "int \<Rightarrow> string \<Rightarrow> string \<Rightarrow> bool \<Rightarrow> incident \<Rightarrow> incident \<times> notice option" where
  "next_incident now fresh status changed i =
    (if status = ''action_required'' then
       (case ic_id i of
          None \<Rightarrow> (\<lparr>ic_id = Some fresh, ic_started = Some now, ic_notified = Some now, ic_reminders = 0\<rparr>,
            Some (''action_required'', fresh, ''opened''))
        | Some cur \<Rightarrow>
            if (case ic_notified i of None \<Rightarrow> True | Some t \<Rightarrow> now - t \<ge> COOLDOWN_MS)
            then (i\<lparr>ic_reminders := ic_reminders i + 1, ic_notified := Some now\<rparr>,
              Some (''reminder'', cur, ''reminder:'' @ show_int (ic_reminders i + 1)))
            else (i, None))
     else
       (case ic_id i of
          None \<Rightarrow> (i, None)
        | Some cur \<Rightarrow>
            if status = ''healthy'' \<and> changed then (no_incident, Some (''recovered'', cur, ''recovered'')) else (i, None)))"

definition outdated :: "health_snapshot \<Rightarrow> health_row option \<Rightarrow> bool res" where
  "outdated s prior = (case (prior, sn_checked s) of
     (None, _) \<Rightarrow> Inr False
   | (Some r, None) \<Rightarrow> Inr (truthy_text (hl_checked r) \<noteq> None)
   | (Some r, Some t) \<Rightarrow>
       (case truthy_text (hl_checked r) of
          None \<Rightarrow> Inr False
        | Some t' \<Rightarrow>
            bindE (credential_timestamp_ms t) (\<lambda>ms.
            bindE (credential_timestamp_ms t') (\<lambda>ms'. Inr (ms < ms')))))"

definition owner_json :: "graph_owner \<Rightarrow> json_object" where
  "owner_json g = [(''actorAadObjectId'', JStr (go_actor g)), (''tenantId'', JStr (go_tenant g)),
     (''botAppId'', JStr (go_bot g))]"

text \<open>The notice goes to the shared destination, or to the owner alone for Microsoft Graph.\<close>

definition enqueue_notice ::
  "string \<Rightarrow> int \<Rightarrow> string \<Rightarrow> string \<Rightarrow> health_snapshot \<Rightarrow> notice \<Rightarrow> wdb \<Rightarrow> (bool \<times> wdb) res" where
  "enqueue_notice nid now org ws s n db = (case n of (event, incident, suffix) \<Rightarrow>
     let graph = (sn_provider s = ''microsoft_graph'');
         owner = (if graph then sn_owner s else None) in
     bindE (enqueue_notification nid org ws (incident_key (sn_connection s) incident suffix) HEALTH_TYPE
         (credential_health_notice s event incident) (Some ''teams-v1'')
         (Some (if graph then ''teams:owner-private'' else ''teams:credential-health'')) None now now
         (map_option go_actor owner) (map_option owner_json owner) db)
       (\<lambda>((_, duplicate), db'). Inr (duplicate, db')))"

definition checkpoint :: "int \<Rightarrow> string \<Rightarrow> string \<Rightarrow> health_snapshot \<Rightarrow> string \<Rightarrow> string \<Rightarrow> incident \<Rightarrow> health_row" where
  "checkpoint now org ws s fingerprint status i = \<lparr>hl_org = org, hl_ws = ws, hl_connection = sn_connection s,
     hl_provider = sn_provider s, hl_generation = sn_generation s, hl_fingerprint = fingerprint, hl_decision = status,
     hl_checked = sn_checked s, hl_expires = sn_expires s, hl_reason = sn_reason s, hl_incident = ic_id i,
     hl_started = ic_started i, hl_notified = ic_notified i, hl_reminders = ic_reminders i, hl_updated = now\<rparr>"

text \<open>\<open>INSERT ... ON CONFLICT DO UPDATE\<close> of every column outside the key.\<close>

definition put_row :: "health_row \<Rightarrow> health_row list \<Rightarrow> health_row list" where
  "put_row r t = (if find_by hl_key (hl_key r) t = None then t @ [r] else edit_by hl_key (hl_key r) (\<lambda>_. r) t)"

section \<open>Processing\<close>

record tally =
  ty_processed :: int
  ty_stale :: int
  ty_queued :: int

definition checkpoint_snapshot ::
  "string \<Rightarrow> string \<Rightarrow> int \<Rightarrow> string \<Rightarrow> string \<Rightarrow> health_snapshot \<Rightarrow> health_row option \<Rightarrow> hdb \<Rightarrow> (int \<times> hdb) res" where
  "checkpoint_snapshot nid inc now org ws s prior db =
    bindE (credential_health_decision s now) (\<lambda>status.
    bindE (credential_health_fingerprint s) (\<lambda>fingerprint.
      let changed = (case prior of None \<Rightarrow> True | Some r \<Rightarrow> hl_fingerprint r \<noteq> fingerprint);
          i = (case prior of None \<Rightarrow> no_incident | Some r \<Rightarrow> row_incident r) in
      case next_incident now inc status changed i of (i', notice) \<Rightarrow>
        bindE (case notice of
            None \<Rightarrow> Inr (0, h_work db)
          | Some n \<Rightarrow> bindE (enqueue_notice nid now org ws s n (h_work db)) (\<lambda>(duplicate, w).
              Inr (if duplicate then 0 else 1, w))) (\<lambda>(queued, w).
          Inr (queued, \<lparr>h_work = w, h_rows = put_row (checkpoint now org ws s fingerprint status i') (h_rows db)\<rparr>))))"

definition process_snapshot ::
  "(nat \<Rightarrow> string) \<Rightarrow> (nat \<Rightarrow> string) \<Rightarrow> int \<Rightarrow> string \<Rightarrow> string \<Rightarrow> tally \<times> hdb \<Rightarrow> nat \<times> health_snapshot \<Rightarrow> (tally \<times> hdb) res" where
  "process_snapshot nid inc now org ws st x = (case (st, x) of ((t, db), (k, s)) \<Rightarrow>
     let prior = find_by hl_key (org, ws, sn_connection s) (h_rows db) in
     bindE (outdated s prior) (\<lambda>old.
       if old then Inr (t\<lparr>ty_stale := ty_stale t + 1\<rparr>, db)
       else bindE (checkpoint_snapshot (nid k) (inc k) now org ws s prior db) (\<lambda>(queued, db').
         Inr (t\<lparr>ty_processed := ty_processed t + 1, ty_queued := ty_queued t + queued\<rparr>, db'))))"

definition zero_tally :: tally where
  "zero_tally = \<lparr>ty_processed = 0, ty_stale = 0, ty_queued = 0\<rparr>"

definition normalize_snapshots :: "json \<Rightarrow> health_snapshot list res" where
  "normalize_snapshots v = (case v of
     JList l \<Rightarrow>
       if \<not> (1 \<le> length l \<and> length l \<le> 100) then bad_health
       else bindE (mapE credential_health_snapshot l) (\<lambda>ss.
         if \<not> distinct (map sn_connection ss) then bad_health else Inr ss)
   | _ \<Rightarrow> bad_health)"

definition process_credential_health_snapshots ::
  "(nat \<Rightarrow> string) \<Rightarrow> (nat \<Rightarrow> string) \<Rightarrow> int \<Rightarrow> string option \<Rightarrow> string \<Rightarrow> json \<Rightarrow> hdb \<Rightarrow> tally res \<times> hdb" where
  "process_credential_health_snapshots nid inc now org ws snapshots db = commit db (
    bindE (work_scope org ws) (\<lambda>(org, ws).
    bindE (normalize_snapshots snapshots) (\<lambda>ss.
      foldE (process_snapshot nid inc now org ws) (zero_tally, db) (zip [0..<length ss] ss))))"

end
