(* ===== verification/Health_Inv.thy ===== *)
theory Health_Inv
  imports Health_Store Work_Steps
begin

text \<open>
  What an accepted snapshot is (\<open>reading_ok\<close>), what one snapshot does to the incident of its connection and to the
  outbox, the invariant of the checkpoint table, and the system of the Work store and the credential monitor together
  (\<open>hstep\<close>): either of them may move at any time, and both share the outbox.
\<close>

section \<open>Accepted snapshots\<close>

definition time_ok :: "string option \<Rightarrow> bool" where
  "time_ok t = (case t of None \<Rightarrow> True | Some s \<Rightarrow> from_isoformat s \<noteq> None)"

definition capability_ok :: "capability \<Rightarrow> bool" where
  "capability_ok c \<longleftrightarrow> symbolic ''._:/-'' 255 (cp_id c) \<and> cp_state c \<in> set auth_states \<and> time_ok (cp_verified c) \<and>
     time_ok (cp_expires c)"

definition owner_ok :: "graph_owner \<Rightarrow> bool" where
  "owner_ok g \<longleftrightarrow> canonical_uuid (JStr (go_actor g)) = Inr (go_actor g) \<and>
     canonical_uuid (JStr (go_tenant g)) = Inr (go_tenant g) \<and> canonical_uuid (JStr (go_bot g)) = Inr (go_bot g)"

definition reading_ok :: "health_snapshot \<Rightarrow> bool" where
  "reading_ok s \<longleftrightarrow> uuid_shape is_lower_hex (sn_connection s) \<and> sn_provider s \<in> set providers \<and>
     sn_login s \<in> set login_states \<and> sn_auth s \<in> set auth_states \<and> time_ok (sn_checked s) \<and> time_ok (sn_expires s) \<and>
     0 \<le> sn_generation s \<and> sn_generation s < 2 ^ 53 \<and> length (sn_caps s) \<le> 100 \<and> list_all capability_ok (sn_caps s) \<and>
     sorted (map cp_id (sn_caps s)) \<and> distinct (map cp_id (sn_caps s)) \<and>
     (sn_owner s \<noteq> None \<longleftrightarrow> sn_provider s = ''microsoft_graph'') \<and> (\<forall>g. sn_owner s = Some g \<longrightarrow> owner_ok g)"

lemma length_hex_text [simp]: "length (hex_text k n) = k"
  by (induction k arbitrary: n) auto

lemma hex_char_lower: "0 \<le> v \<Longrightarrow> v < 16 \<Longrightarrow> is_lower_hex (hex_char v)"
  unfolding is_lower_hex_def hex_char_def by (rule nth_mem) simp

lemma hex_text_lower: "list_all is_lower_hex (hex_text k n)"
  by (induction k arbitrary: n) (simp_all add: hex_char_lower)

text \<open>Five groups of hexadecimal digits with hyphens between them.\<close>

lemma uuid_shape_groups:
  assumes "length a = 8" "length b = 4" "length c = 4" "length d = 4" "length e = 12" and "list_all ok (a @ b @ c @ d @ e)"
  shows "uuid_shape ok (a @ ''-'' @ b @ ''-'' @ c @ ''-'' @ d @ ''-'' @ e)"
proof -
  define P where "P = (\<lambda>(i :: nat, c). if i \<in> {8, 13, 18, 23} then c = CHR ''-'' else ok c)"
  have split: "[0..<36] = [0..<8] @ [8] @ [9..<13] @ [13] @ [14..<18] @ [18] @ [19..<23] @ [23] @ [24..<36]" by code_simp
  have part: "list_all P (zip [m..<n] x)" if "list_all ok x" "\<forall>i \<in> set [m..<n]. i \<notin> {8, 13, 18, 23}" for m n :: nat and x
    unfolding list_all_iff
  proof
    fix p assume "p \<in> set (zip [m..<n] x)"
    then have "(fst p, snd p) \<in> set (zip [m..<n] x)" by simp
    then have "fst p \<in> set [m..<n]" "snd p \<in> set x" by (blast dest: set_zip_leftD set_zip_rightD)+
    with that show "P p" by (auto simp: P_def list_all_iff split: prod.splits)
  qed
  have hyphen: "P (8, CHR ''-'')" "P (13, CHR ''-'')" "P (18, CHR ''-'')" "P (23, CHR ''-'')" by (simp_all add: P_def)
  have "list_all P (zip [0..<36] (a @ ''-'' @ b @ ''-'' @ c @ ''-'' @ d @ ''-'' @ e))"
    unfolding split using assms hyphen by (simp add: part del: upt_Suc upt_rec_numeral)
  then show ?thesis using assms by (simp add: uuid_shape_def P_def del: upt_Suc upt_rec_numeral)
qed

lemma uuid_text_shape: "uuid_shape is_lower_hex (uuid_text n)"
proof -
  let ?h = "hex_text 32 n"
  have "list_all is_lower_hex (take 8 ?h @ take 4 (drop 8 ?h) @ take 4 (drop 12 ?h) @ take 4 (drop 16 ?h) @ drop 20 ?h)"
    using hex_text_lower [of 32 n] by (auto simp: list_all_iff dest: in_set_takeD in_set_dropD)
  then show ?thesis
    unfolding uuid_text_def Let_def by (intro uuid_shape_groups) (simp_all del: hex_text.simps)
qed

lemma allowed_text_Inr [resE]: "allowed_text v m allowed = Inr s \<Longrightarrow> s \<in> set allowed"
  by (auto simp: allowed_text_def resE split: if_splits)

lemma utc_timestamp_ok: "credential_utc_timestamp v = Inr t \<Longrightarrow> time_ok t"
  by (auto simp: credential_utc_timestamp_def time_ok_def resE split: if_splits)

lemma hex_upper_lower: "c \<in> set ''0123456789abcdefABCDEF'' \<Longrightarrow> py_lower_char c \<in> set ''0123456789abcdefABCDEF''"
proof -
  have "list_all (\<lambda>c. py_lower_char c \<in> set ''0123456789abcdefABCDEF'') ''0123456789abcdefABCDEF''" by code_simp
  then show "c \<in> set ''0123456789abcdefABCDEF'' \<Longrightarrow> py_lower_char c \<in> set ''0123456789abcdefABCDEF''"
    unfolding list_all_iff by blast
qed

lemma uuid_shape_map:
  assumes "uuid_shape ok s" and ok: "\<And>c. ok c \<Longrightarrow> ok' (f c)" and dash: "f (CHR ''-'') = CHR ''-''"
  shows "uuid_shape ok' (map f s)"
  unfolding uuid_shape_def list_all_iff
proof (intro conjI ballI)
  show "length (map f s) = 36" using assms(1) by (simp add: uuid_shape_def)
  fix p assume "p \<in> set (zip [0..<36] (map f s))"
  then obtain i c where p: "p = (i, f c)" "(i, c) \<in> set (zip [0..<36] s)" by (auto simp: zip_map2 simp del: upt_Suc upt_rec_numeral)
  with assms(1) have "if i \<in> {8, 13, 18, 23} then c = CHR ''-'' else ok c" unfolding uuid_shape_def list_all_iff by fastforce
  then show "case p of (i, c) \<Rightarrow> if i \<in> {8, 13, 18, 23} then c = CHR ''-'' else ok' c"
    using ok dash unfolding p by (simp split: if_splits)
qed

lemma canonical_uuid_idem:
  assumes "canonical_uuid v = Inr u"
  shows "canonical_uuid (JStr u) = Inr u"
proof -
  from assms obtain s where s: "is_uuid_text s" "u = py_lower s"
    by (auto simp: canonical_uuid_def split: json.splits if_splits)
  have "uuid_shape (\<lambda>c. c \<in> set ''0123456789abcdefABCDEF'') (map py_lower_char s)"
    using s(1) unfolding is_uuid_text_def
    by (rule uuid_shape_map) (erule hex_upper_lower, simp add: py_lower_char_def)
  with s show ?thesis by (simp add: canonical_uuid_def is_uuid_text_def py_lower_def)
qed

lemma health_owner_ok:
  "health_owner provider v = Inr ow \<Longrightarrow> (ow \<noteq> None \<longleftrightarrow> provider = ''microsoft_graph'') \<and> (\<forall>g. ow = Some g \<longrightarrow> owner_ok g)"
  unfolding health_owner_def
  by (auto simp: resE owner_ok_def canonical_uuid_idem split: if_splits json.splits)

lemma health_capability_ok: "health_capability v ids = Inr c \<Longrightarrow> capability_ok c \<and> cp_id c \<notin> set ids"
  unfolding health_capability_def
  by (auto simp: resE capability_ok_def utc_timestamp_ok split: if_splits json.splits dest: allowed_text_Inr)

lemma health_capabilities_ok:
  "health_capabilities vs ids = Inr cs \<Longrightarrow> length cs = length vs \<and> list_all capability_ok cs \<and>
     distinct (map cp_id cs) \<and> cp_id ` set cs \<inter> set ids = {}"
  by (induction vs arbitrary: ids cs) (fastforce simp: resE dest: health_capability_ok)+

lemma capability_list_ok:
  "capability_list v = Inr cs \<Longrightarrow> length cs \<le> 100 \<and> list_all capability_ok cs \<and> distinct (map cp_id cs)"
  by (auto simp: capability_list_def split: json.splits if_splits dest: health_capabilities_ok)

lemma health_connection_shape: "health_connection v = Inr u \<Longrightarrow> uuid_shape is_lower_hex u"
  by (auto simp: health_connection_def uuid_of_def Let_def resE uuid_text_shape split: option.splits if_splits)

lemma snapshot_accepted: "credential_health_snapshot v = Inr s \<Longrightarrow> reading_ok s"
  unfolding credential_health_snapshot_def
  by (auto simp: resE reading_ok_def list_all_iff distinct_map nonnegative_integer_def utc_timestamp_ok
      split: json.splits if_splits
      dest!: health_connection_shape allowed_text_Inr health_owner_ok capability_list_ok)

section \<open>What a notice adds to the outbox\<close>

definition notice_key :: "string \<Rightarrow> string \<Rightarrow> string \<Rightarrow> notice \<Rightarrow> task_key" where
  "notice_key org ws connection n = (case n of (_, incident, suffix) \<Rightarrow> (org, ws, incident_key connection incident suffix))"

definition notice_note :: "string \<Rightarrow> string \<Rightarrow> health_snapshot \<Rightarrow> notice \<Rightarrow> note_row \<Rightarrow> bool" where
  "notice_note org ws s x n \<longleftrightarrow> nt_dedup_key n = notice_key org ws (sn_connection s) x \<and> nt_type n = HEALTH_TYPE \<and>
     nt_status n = ''queued'' \<and> nt_task n = None \<and> nt_connector n = Some ''teams-v1'' \<and>
     nt_recipient n = Some (if sn_provider s = ''microsoft_graph'' then ''teams:owner-private'' else ''teams:credential-health'') \<and>
     nt_owner n = map_option go_actor (sn_owner s) \<and>
     json_text (JDict (credential_health_notice s (fst x) (fst (snd x)))) = Some (nt_payload n)"

text \<open>Either the notice is there already, or one row is appended.\<close>

definition posts :: "string \<Rightarrow> string \<Rightarrow> health_snapshot \<Rightarrow> notice option \<Rightarrow> int \<Rightarrow> wdb \<Rightarrow> wdb \<Rightarrow> bool" where
  "posts org ws s n q w w' \<longleftrightarrow> (case n of
     None \<Rightarrow> q = 0 \<and> w' = w
   | Some x \<Rightarrow> (q = 0 \<and> w' = w \<and> notice_key org ws (sn_connection s) x \<in> nt_dedup_key ` set (w_notes w)) \<or>
       (q = 1 \<and> (\<exists>r. w' = w\<lparr>w_notes := w_notes w @ [r]\<rparr> \<and> notice_note org ws s x r)))"

lemma enqueue_effect:
  assumes "enqueue_notification nid org ws dedup ntype payload conn recip task avail now owner po db = Inr ((v, dup), db')"
  shows "(dup \<and> db' = db \<and> (org, ws, dedup) \<in> nt_dedup_key ` set (w_notes db)) \<or>
    (\<not> dup \<and> (\<exists>r pf. db' = db\<lparr>w_notes := w_notes db @ [r]\<rparr> \<and> nt_dedup_key r = (org, ws, dedup) \<and> nt_type r = ntype \<and>
      nt_status r = ''queued'' \<and> nt_task r = task \<and> nt_connector r = conn \<and> nt_recipient r = recip \<and>
      private_fields_of ntype payload conn recip task owner po = Inr pf \<and> nt_owner r = pf_owner pf \<and>
      json_text (JDict payload) = Some (nt_payload r)))"
proof -
  from assms obtain base pf digest where pf: "private_fields_of ntype payload conn recip task owner po = Inr pf"
    and rest: "(case find_by nt_dedup_key (org, ws, dedup) (w_notes db) of
        Some prior \<Rightarrow>
          if nt_digest prior \<noteq> digest then conflict ''WORK_NOTIFICATION_KEY_CONFLICT''
          else bindE (notification_view prior) (\<lambda>v. Inr ((v, True), db))
      | None \<Rightarrow>
          bindE (work_json_text (JDict payload)) (\<lambda>text.
            let row = \<lparr>nt_org = org, nt_ws = ws, nt_id = nid, nt_dedup = dedup, nt_type = ntype, nt_payload = text,
                  nt_connector = conn, nt_recipient = recip, nt_status = ''queued'', nt_task = task,
                  nt_available_at = avail, nt_created_at = now, nt_updated_at = now, nt_worker = None,
                  nt_token_hash = None, nt_lease = None, nt_started_at = None, nt_result = ''{}'', nt_digest = digest,
                  nt_owner = pf_owner pf, nt_private_task = pf_task pf, nt_private_tenant = pf_tenant pf,
                  nt_private_aad = pf_aad pf, nt_private_bot = pf_bot pf\<rparr>
            in bindE (insert_with nt_clash row (w_notes db)) (\<lambda>ns.
               bindE (notification_view row) (\<lambda>v. Inr ((v, False), db\<lparr>w_notes := ns\<rparr>))))) = Inr ((v, dup), db')"
    unfolding enqueue_notification_def by (auto simp: resE)
  show ?thesis
  proof (cases "find_by nt_dedup_key (org, ws, dedup) (w_notes db)")
    case None
    with rest pf show ?thesis
      by (auto simp: resE Let_def nt_dedup_key_def work_json_text_def split: option.splits)
  next
    case (Some prior)
    with rest have "dup" "db' = db" by (auto simp: resE split: if_splits)
    with find_by_SomeD [OF Some] show ?thesis by (force simp: image_iff)
  qed
qed

lemma graph_owner_column:
  assumes "reading_ok s" and "sn_provider s = ''microsoft_graph''"
    and "private_fields_of HEALTH_TYPE payload (Some ''teams-v1'') (Some ''teams:owner-private'') None
      (map_option go_actor (sn_owner s)) (map_option owner_json (sn_owner s)) = Inr pf"
  shows "pf_owner pf = map_option go_actor (sn_owner s)"
proof -
  from assms obtain g where g: "sn_owner s = Some g" "owner_ok g" by (auto simp: reading_ok_def)
  have "dget (owner_json g) ''actorAadObjectId'' = JStr (go_actor g)" by (simp add: owner_json_def dget_def)
  with assms(3) g show ?thesis
    unfolding private_fields_of_def by (auto simp: resE Let_def owner_ok_def split: if_splits)
qed

lemma enqueue_notice_posts:
  assumes "enqueue_notice nid now org ws s n db = Inr (dup, db')" and ok: "reading_ok s"
  shows "posts org ws s (Some n) (if dup then 0 else 1) db db'"
proof -
  obtain event incident suffix where n: "n = (event, incident, suffix)" by (cases n)
  let ?graph = "sn_provider s = ''microsoft_graph''"
  let ?owner = "if ?graph then sn_owner s else None"
  from assms(1) obtain v where e: "enqueue_notification nid org ws (incident_key (sn_connection s) incident suffix) HEALTH_TYPE
         (credential_health_notice s event incident) (Some ''teams-v1'')
         (Some (if ?graph then ''teams:owner-private'' else ''teams:credential-health'')) None now now
         (map_option go_actor ?owner) (map_option owner_json ?owner) db = Inr ((v, dup), db')"
    by (auto simp: enqueue_notice_def n Let_def resE split: prod.splits)
  have owner: "?owner = sn_owner s" using ok by (auto simp: reading_ok_def)
  have col: "pf_owner pf = map_option go_actor (sn_owner s)"
    if "private_fields_of HEALTH_TYPE payload (Some ''teams-v1'')
      (Some (if ?graph then ''teams:owner-private'' else ''teams:credential-health'')) None
      (map_option go_actor (sn_owner s)) (map_option owner_json (sn_owner s)) = Inr pf" for pf payload
  proof (cases ?graph)
    case True
    with that graph_owner_column [OF ok] show ?thesis by simp
  next
    case False
    with ok have "sn_owner s = None" by (auto simp: reading_ok_def)
    with that show ?thesis by (auto simp: private_fields_of_def no_private_def)
  qed
  from enqueue_effect [OF e] show ?thesis
    unfolding owner posts_def notice_note_def notice_key_def n by (auto dest!: col)
qed

section \<open>The incident of a connection\<close>

definition row_at :: "hdb \<Rightarrow> task_key \<Rightarrow> health_row option" where
  "row_at db k = find_by hl_key k (h_rows db)"

definition incident_of :: "health_row option \<Rightarrow> incident" where
  "incident_of r = (case r of None \<Rightarrow> no_incident | Some r \<Rightarrow> row_incident r)"

definition incident_at :: "hdb \<Rightarrow> task_key \<Rightarrow> incident" where
  "incident_at db k = incident_of (row_at db k)"

lemma find_put_row: "find_by hl_key k (put_row r t) = (if k = hl_key r then Some r else find_by hl_key k t)"
  by (auto simp: put_row_def find_by_snoc find_edit_const)

lemma set_put_row: "x \<in> set (put_row r t) \<Longrightarrow> x = r \<or> (x \<in> set t \<and> hl_key x \<noteq> hl_key r)"
  by (auto simp: put_row_def in_edit_by find_by_None_iff image_iff split: if_splits)

lemma keyed_put_row: "keyed hl_key t \<Longrightarrow> keyed hl_key (put_row r t)"
  by (auto simp: put_row_def keyed_snoc keyed_edit_const)

lemma checkpoint_key [simp]: "hl_key (checkpoint now org ws s fp status i) = (org, ws, sn_connection s)"
  by (simp add: checkpoint_def hl_key_def)

lemma checkpoint_incident: "ic_id i \<noteq> Some [] \<Longrightarrow> row_incident (checkpoint now org ws s fp status i) = i"
  by (simp add: row_incident_def checkpoint_def truthy_text_def)

lemma enqueue_notice_changes: "enqueue_notice nid now org ws s n db = Inr (dup, db') \<Longrightarrow> wchange\<^sup>*\<^sup>* db db'"
  by (cases n) (auto simp: enqueue_notice_def Let_def resE split: prod.splits dest!: enqueue_changes)

text \<open>What a snapshot that is not outdated does.\<close>

lemma checkpoint_runs:
  assumes "checkpoint_snapshot nid inc now org ws s prior db = Inr (q, db')"
  obtains status fp i' n where "credential_health_decision s now = Inr status" "credential_health_fingerprint s = Inr fp"
    "next_incident now inc status (case prior of None \<Rightarrow> True | Some r \<Rightarrow> hl_fingerprint r \<noteq> fp) (incident_of prior) = (i', n)"
    "(case n of None \<Rightarrow> Inr (0, h_work db)
          | Some n \<Rightarrow> bindE (enqueue_notice nid now org ws s n (h_work db)) (\<lambda>(duplicate, w).
              Inr (if duplicate then 0 else 1, w))) = Inr (q, h_work db')"
    "h_rows db' = put_row (checkpoint now org ws s fp status i') (h_rows db)"
proof -
  from assms obtain status fp where d: "credential_health_decision s now = Inr status" "credential_health_fingerprint s = Inr fp"
    by (auto simp: checkpoint_snapshot_def resE)
  obtain i' n where ni: "next_incident now inc status (case prior of None \<Rightarrow> True | Some r \<Rightarrow> hl_fingerprint r \<noteq> fp) (incident_of prior) = (i', n)"
    by (metis prod.exhaust)
  with assms d show thesis
    unfolding checkpoint_snapshot_def incident_of_def by (intro that [OF d ni]) (auto simp: resE Let_def incident_of_def)
qed

lemma checkpoint_effect:
  assumes "checkpoint_snapshot nid inc now org ws s prior db = Inr (q, db')" and "reading_ok s"
  obtains status fp i' n where "credential_health_decision s now = Inr status" "credential_health_fingerprint s = Inr fp"
    "next_incident now inc status (case prior of None \<Rightarrow> True | Some r \<Rightarrow> hl_fingerprint r \<noteq> fp) (incident_of prior) = (i', n)"
    "posts org ws s n q (h_work db) (h_work db')" "h_rows db' = put_row (checkpoint now org ws s fp status i') (h_rows db)"
  using assms(1)
proof (rule checkpoint_runs)
  fix status fp i' n
  assume run: "(case n of None \<Rightarrow> Inr (0, h_work db)
          | Some n \<Rightarrow> bindE (enqueue_notice nid now org ws s n (h_work db)) (\<lambda>(duplicate, w).
              Inr (if duplicate then 0 else 1, w))) = Inr (q, h_work db')"
  have "posts org ws s n q (h_work db) (h_work db')"
    using run by (cases n) (auto simp: posts_def resE dest!: enqueue_notice_posts [OF _ assms(2), unfolded posts_def])
  then show "credential_health_decision s now = Inr status \<Longrightarrow> credential_health_fingerprint s = Inr fp \<Longrightarrow>
    next_incident now inc status (case prior of None \<Rightarrow> True | Some r \<Rightarrow> hl_fingerprint r \<noteq> fp) (incident_of prior) = (i', n) \<Longrightarrow>
    h_rows db' = put_row (checkpoint now org ws s fp status i') (h_rows db) \<Longrightarrow> thesis"
    using that by blast
qed

lemma checkpoint_changes:
  assumes "checkpoint_snapshot nid inc now org ws s prior db = Inr (q, db')"
  shows "wchange\<^sup>*\<^sup>* (h_work db) (h_work db')"
  using assms
proof (rule checkpoint_runs)
  fix n
  assume "(case n of None \<Rightarrow> Inr (0, h_work db)
          | Some n \<Rightarrow> bindE (enqueue_notice nid now org ws s n (h_work db)) (\<lambda>(duplicate, w).
              Inr (if duplicate then 0 else 1, w))) = Inr (q, h_work db')"
  then show ?thesis by (cases n) (auto simp: resE dest: enqueue_notice_changes)
qed

section \<open>The invariant\<close>

text \<open>
  An open incident knows when it started and when its last notice went out, and every reminder took a cooldown;
  without an incident the columns are empty.
\<close>

definition incident_ok :: "incident \<Rightarrow> bool" where
  "incident_ok i = (case ic_id i of
     None \<Rightarrow> i = no_incident
   | Some cur \<Rightarrow> cur \<noteq> [] \<and> 0 \<le> ic_reminders i \<and>
       (\<exists>s l. ic_started i = Some s \<and> ic_notified i = Some l \<and> s + ic_reminders i * COOLDOWN_MS \<le> l))"

text \<open>Every notice of the incident so far is in the outbox.\<close>

definition noticed :: "wdb \<Rightarrow> task_key \<Rightarrow> incident \<Rightarrow> bool" where
  "noticed w k i = (case (k, ic_id i) of
     (_, None) \<Rightarrow> True
   | ((org, ws, connection), Some cur) \<Rightarrow>
       (org, ws, incident_key connection cur ''opened'') \<in> nt_dedup_key ` set (w_notes w) \<and>
       (\<forall>j. 1 \<le> j \<and> j \<le> ic_reminders i \<longrightarrow>
          (org, ws, incident_key connection cur (''reminder:'' @ show_int j)) \<in> nt_dedup_key ` set (w_notes w)))"

definition hrow_ok :: "wdb \<Rightarrow> health_row \<Rightarrow> bool" where
  "hrow_ok w r \<longleftrightarrow> incident_ok (row_incident r) \<and> noticed w (hl_key r) (row_incident r) \<and> time_ok (truthy_text (hl_checked r))"

definition hinv :: "hdb \<Rightarrow> bool" where
  "hinv db \<longleftrightarrow> winv (h_work db) \<and> keyed hl_key (h_rows db) \<and> (\<forall>r \<in> set (h_rows db). hrow_ok (h_work db) r)"

lemma no_incident_ok [simp]: "incident_ok no_incident" "noticed w k no_incident"
  by (simp_all add: incident_ok_def noticed_def no_incident_def split: prod.splits)

lemma hinv_at: "hinv db \<Longrightarrow> incident_ok (incident_at db k) \<and> noticed (h_work db) k (incident_at db k)"
  by (cases "row_at db k") (auto simp: incident_at_def incident_of_def row_at_def hinv_def hrow_ok_def dest!: find_by_SomeD)

lemma next_incident_ok:
  assumes "incident_ok i" and "fresh \<noteq> []" and "next_incident now fresh status changed i = (i', n)"
  shows "incident_ok i'"
proof (cases "ic_id i")
  case None
  with assms show ?thesis by (auto simp: next_incident_def incident_ok_def no_incident_def split: if_splits)
next
  case (Some cur)
  with assms(1) obtain s l where i: "cur \<noteq> []" "0 \<le> ic_reminders i" "ic_started i = Some s" "ic_notified i = Some l"
    "s + ic_reminders i * COOLDOWN_MS \<le> l" by (auto simp: incident_ok_def)
  with Some assms(3) consider "i' = i" | "i' = no_incident"
    | "i' = i\<lparr>ic_reminders := ic_reminders i + 1, ic_notified := Some now\<rparr>" "l + COOLDOWN_MS \<le> now"
    by (auto simp: next_incident_def split: if_splits)
  then show ?thesis
    using assms(1) i Some by cases (auto simp: incident_ok_def no_incident_def algebra_simps)
qed

lemma noticed_mono: "noticed w k i \<Longrightarrow> nt_dedup_key ` set (w_notes w) \<subseteq> nt_dedup_key ` set (w_notes w') \<Longrightarrow> noticed w' k i"
  unfolding noticed_def by (auto split: prod.splits option.splits)

lemma posts_keys: "posts org ws s n q w w' \<Longrightarrow> nt_dedup_key ` set (w_notes w) \<subseteq> nt_dedup_key ` set (w_notes w')"
  by (auto simp: posts_def split: option.splits)

lemma posts_notice: "posts org ws s (Some x) q w w' \<Longrightarrow> notice_key org ws (sn_connection s) x \<in> nt_dedup_key ` set (w_notes w')"
  unfolding posts_def by (auto simp: notice_note_def image_iff)

lemma next_incident_noticed:
  assumes "noticed w (org, ws, sn_connection s) i" and "next_incident now fresh status changed i = (i', n)"
    and "posts org ws s n q w w'"
  shows "noticed w' (org, ws, sn_connection s) i'"
proof -
  have old: "noticed w' (org, ws, sn_connection s) i" using assms(1) posts_keys [OF assms(3)] by (rule noticed_mono)
  show ?thesis
  proof (cases n)
    case None
    with assms(2) have "i' = i" by (auto simp: next_incident_def split: if_splits option.splits)
    with old show ?thesis by simp
  next
    case (Some x)
    from assms(3) have key: "notice_key org ws (sn_connection s) x \<in> nt_dedup_key ` set (w_notes w')"
      unfolding Some by (rule posts_notice)
    have step: "j \<le> m + 1 \<longleftrightarrow> j \<le> m \<or> j = m + 1" for j m :: int by auto
    from assms(2) old key Some show ?thesis
      by (auto simp: next_incident_def noticed_def notice_key_def no_incident_def step split: if_splits option.splits)
  qed
qed

lemma hinv_checkpoint:
  assumes inv: "hinv db" and ok: "reading_ok s" and inc: "inc \<noteq> []"
    and run: "checkpoint_snapshot nid inc now org ws s (row_at db (org, ws, sn_connection s)) db = Inr (q, db')"
  shows "hinv db'"
proof -
  let ?k = "(org, ws, sn_connection s)"
  let ?prior = "row_at db ?k"
  from run ok obtain status fp i' n where
    ni: "next_incident now inc status (case ?prior of None \<Rightarrow> True | Some r \<Rightarrow> hl_fingerprint r \<noteq> fp) (incident_of ?prior) = (i', n)"
    and p: "posts org ws s n q (h_work db) (h_work db')"
    and rows: "h_rows db' = put_row (checkpoint now org ws s fp status i') (h_rows db)"
    by (rule checkpoint_effect)
  have before: "incident_ok (incident_of ?prior)" "noticed (h_work db) ?k (incident_of ?prior)"
    using hinv_at [OF inv, of ?k] by (simp_all add: incident_at_def)
  have after: "incident_ok i'" "noticed (h_work db') ?k i'"
    using next_incident_ok [OF before(1) inc ni] next_incident_noticed [OF before(2) ni p] by blast+
  from after(1) have id: "ic_id i' \<noteq> Some []" by (auto simp: incident_ok_def)
  have "hrow_ok (h_work db') r" if "r \<in> set (h_rows db')" for r
  proof (cases "r = checkpoint now org ws s fp status i'")
    case True
    have "time_ok (truthy_text (hl_checked r))"
      using ok by (simp add: True checkpoint_def reading_ok_def truthy_text_def time_ok_def)
    with after True show ?thesis by (simp add: hrow_ok_def checkpoint_incident [OF id])
  next
    case False
    with that rows have "r \<in> set (h_rows db)" by (auto dest: set_put_row)
    with inv have "hrow_ok (h_work db) r" by (simp add: hinv_def)
    then show ?thesis by (auto simp: hrow_ok_def intro: noticed_mono [OF _ posts_keys [OF p]])
  qed
  moreover have "winv (h_work db')" using inv change.inv_steps [OF checkpoint_changes [OF run]] by (simp add: hinv_def)
  ultimately show ?thesis using inv by (simp add: hinv_def rows keyed_put_row)
qed

text \<open>One snapshot of a request: counted as outdated, or checkpointed.\<close>

lemma process_snapshot_cases:
  assumes "process_snapshot nid inc now org ws (t, db) (j, s) = Inr (t', db')"
  obtains "outdated s (row_at db (org, ws, sn_connection s)) = Inr True" "db' = db" "t' = t\<lparr>ty_stale := ty_stale t + 1\<rparr>"
  | q where "outdated s (row_at db (org, ws, sn_connection s)) = Inr False"
      "checkpoint_snapshot (nid j) (inc j) now org ws s (row_at db (org, ws, sn_connection s)) db = Inr (q, db')"
      "t' = t\<lparr>ty_processed := ty_processed t + 1, ty_queued := ty_queued t + q\<rparr>"
  using assms unfolding process_snapshot_def row_at_def by (auto simp: resE Let_def split: if_splits)

section \<open>The system\<close>

text \<open>A checkpoint is never removed.\<close>

definition keeps_rows :: "hdb \<Rightarrow> hdb \<Rightarrow> bool" where
  "keeps_rows db db' \<longleftrightarrow> (\<forall>k. row_at db k \<noteq> None \<longrightarrow> row_at db' k \<noteq> None)"

definition hgrows :: "hdb \<Rightarrow> hdb \<Rightarrow> bool" where
  "hgrows db db' \<longleftrightarrow> wgrows (h_work db) (h_work db') \<and> keeps_rows db db'"

lemma checkpoint_keeps: "checkpoint_snapshot nid inc now org ws s prior db = Inr (q, db') \<Longrightarrow> keeps_rows db db'"
  by (erule checkpoint_runs) (simp add: keeps_rows_def row_at_def find_put_row)

lemma process_snapshots_inv:
  assumes "foldE (process_snapshot nid inc now org ws) (t, db) xs = Inr (t', db')"
    and "hinv db" and "\<And>j. inc j \<noteq> []" and "\<forall>x \<in> set xs. reading_ok (snd x)"
  shows "hinv db' \<and> wchange\<^sup>*\<^sup>* (h_work db) (h_work db') \<and> keeps_rows db db'"
  using assms
proof (induction xs arbitrary: t db)
  case Nil
  then show ?case by (simp add: keeps_rows_def)
next
  case (Cons x xs)
  obtain j s where x: "x = (j, s)" by (cases x)
  from Cons.prems(1) obtain t1 db1 where one: "process_snapshot nid inc now org ws (t, db) (j, s) = Inr (t1, db1)"
    and rest: "foldE (process_snapshot nid inc now org ws) (t1, db1) xs = Inr (t', db')"
    by (auto simp: x resE)
  have "hinv db1 \<and> wchange\<^sup>*\<^sup>* (h_work db) (h_work db1) \<and> keeps_rows db db1"
    using one
  proof (cases rule: process_snapshot_cases)
    case 1
    with Cons.prems show ?thesis by (simp add: keeps_rows_def)
  next
    case (2 q)
    with Cons.prems hinv_checkpoint [OF Cons.prems(2) _ Cons.prems(3) 2(2)] show ?thesis
      by (auto simp: x dest: checkpoint_changes checkpoint_keeps)
  qed
  with Cons.IH [OF rest] Cons.prems show ?case by (auto simp: keeps_rows_def intro: rtranclp_trans)
qed

lemma accepted_all: "list_all2 (\<lambda>x y. credential_health_snapshot x = Inr y) vs ss \<Longrightarrow> list_all reading_ok ss"
  by (induction rule: list_all2_induct) (auto simp: snapshot_accepted)

lemma normalized_ok: "normalize_snapshots v = Inr ss \<Longrightarrow> list_all reading_ok ss \<and> distinct (map sn_connection ss) \<and>
    1 \<le> length ss \<and> length ss \<le> 100"
  by (auto simp: normalize_snapshots_def resE mapE_Inr_iff split: json.splits if_splits
      dest: list_all2_lengthD intro: accepted_all)

text \<open>
  A step of the whole system: a call of the monitor, whose fresh incident ids are texts, or any operation of the
  Work store on the shared tables.
\<close>

inductive hstep :: "hdb \<Rightarrow> hdb \<Rightarrow> bool" where
  monitor: "process_credential_health_snapshots nid inc now org ws v db = (r, db') \<Longrightarrow> (\<And>j. inc j \<noteq> []) \<Longrightarrow> hstep db db'"
| work: "wstep (h_work db) w \<Longrightarrow> hstep db (db\<lparr>h_work := w\<rparr>)"

lemma process_Inr:
  assumes "process_credential_health_snapshots nid inc now org ws v db = (Inr t, db')"
  obtains o' w ss where "work_scope org ws = Inr (o', w)" "normalize_snapshots v = Inr ss"
    "foldE (process_snapshot nid inc now o' w) (zero_tally, db) (zip [0..<length ss] ss) = Inr (t, db')"
  using assms by (auto simp: process_credential_health_snapshots_def resE)

lemma process_Inl: "process_credential_health_snapshots nid inc now org ws v db = (Inl e, db') \<Longrightarrow> db' = db"
  by (auto simp: process_credential_health_snapshots_def resE)

lemma zip_readings_ok: "list_all reading_ok ss \<Longrightarrow> \<forall>x \<in> set (zip js ss). reading_ok (snd x)"
  by (auto simp: list_all_iff dest: set_zip_rightD)

lemma note_le_images: "list_all2 note_le t u \<Longrightarrow> nt_dedup_key ` set t = nt_dedup_key ` set u"
  by (induction rule: list_all2_induct) (auto simp: note_le_def same_note_def dest: note_fixed_keys)

lemma wgrows_dedup:
  assumes "wgrows w w'"
  shows "nt_dedup_key ` set (w_notes w) \<subseteq> nt_dedup_key ` set (w_notes w')"
proof -
  from assms obtain u v where "w_notes w' = u @ v" "list_all2 note_le (w_notes w) u"
    by (auto simp: wgrows_def table_ext_def)
  moreover from this have "nt_dedup_key ` set (w_notes w) = nt_dedup_key ` set u"
    by (intro note_le_images)
  ultimately show ?thesis by auto
qed

lemma hstep_effect:
  assumes "hstep db db'" and "hinv db"
  shows "hinv db' \<and> hgrows db db'"
  using assms(1)
proof cases
  case (monitor nid inc now org ws v r)
  show ?thesis
  proof (cases r)
    case (Inl e)
    with monitor(1) process_Inl have "db' = db" by blast
    with assms show ?thesis by (simp add: hgrows_def keeps_rows_def wgrows_refl)
  next
    case (Inr t)
    with monitor(1) have run: "process_credential_health_snapshots nid inc now org ws v db = (Inr t, db')" by simp
    then obtain o' w ss where ss: "normalize_snapshots v = Inr ss"
      and fold: "foldE (process_snapshot nid inc now o' w) (zero_tally, db) (zip [0..<length ss] ss) = Inr (t, db')"
      by (rule process_Inr)
    from ss have "\<forall>x \<in> set (zip [0..<length ss] ss). reading_ok (snd x)"
      using normalized_ok zip_readings_ok by blast
    with fold assms(2) monitor(2) have "hinv db' \<and> wchange\<^sup>*\<^sup>* (h_work db) (h_work db') \<and> keeps_rows db db'"
      by (intro process_snapshots_inv) auto
    then show ?thesis using assms(2) by (auto simp: hinv_def hgrows_def intro: change.grows_steps)
  qed
next
  case (work w)
  from assms(2) have inv: "winv (h_work db)" by (simp add: hinv_def)
  have "winv w \<and> wgrows (h_work db) w"
    using change.inv_steps [OF wstep_changes [OF work(2) inv] inv] change.grows_steps [OF wstep_changes [OF work(2) inv] inv] by simp
  moreover from this have "nt_dedup_key ` set (w_notes (h_work db)) \<subseteq> nt_dedup_key ` set (w_notes w)"
    using wgrows_dedup by blast
  ultimately show ?thesis using assms(2) unfolding work(1)
    by (auto simp: hinv_def hrow_ok_def hgrows_def keeps_rows_def row_at_def intro: noticed_mono)
qed

lemma hgrows_trans: "hgrows a b \<Longrightarrow> hgrows b c \<Longrightarrow> hgrows a c"
  by (auto simp: hgrows_def keeps_rows_def intro: wgrows_trans)

lemma hgrows_refl: "hgrows a a"
  by (simp add: hgrows_def keeps_rows_def wgrows_refl)

interpretation hh: history hstep hinv hgrows
  by unfold_locales (use hstep_effect hgrows_refl hgrows_trans in blast)+

text \<open>The system before the first call.\<close>

definition empty_hdb :: hdb where
  "empty_hdb = \<lparr>h_work = empty_wdb, h_rows = []\<rparr>"

lemma hinv_empty: "hinv empty_hdb"
  by (simp add: empty_hdb_def hinv_def winv_empty keyed_def)

end
