(* ===== verification/Health_Refine.thy ===== *)
theory Health_Refine
  imports Health_Inv
begin

text \<open>
  The contract of the credential monitor: one incident machine per connection (\<open>incident_step\<close>), whose transitions
  are what the outbox receives. A request moves the machine of every connection it names at most once, leaves all
  others alone, and appends exactly the notices of the transitions.
\<close>

section \<open>The incident machine\<close>

text \<open>
  \<open>incident_step now status changed i n i'\<close>: judged \<open>status\<close> at time \<open>now\<close>, with a fingerprint that
  differs from the stored one or not, incident \<open>i\<close> becomes \<open>i'\<close> with notice \<open>n\<close>. An actionable state opens an
  incident or, a cooldown after the last notice, reminds; a healthy state with a new fingerprint closes it. Nothing
  happens in the remaining cases only: a recent notice, no incident to close, a state that is not known, or a healthy
  report that repeats the stored fingerprint.
\<close>

inductive incident_step :: "int \<Rightarrow> string \<Rightarrow> bool \<Rightarrow> incident \<Rightarrow> notice option \<Rightarrow> incident \<Rightarrow> bool" where
  opens: "ic_id i = None \<Longrightarrow> cur \<noteq> [] \<Longrightarrow> incident_step now ''action_required'' c i (Some (''action_required'', cur, ''opened''))
     \<lparr>ic_id = Some cur, ic_started = Some now, ic_notified = Some now, ic_reminders = 0\<rparr>"
| reminds: "ic_id i = Some cur \<Longrightarrow> ic_notified i = Some t \<Longrightarrow> t + COOLDOWN_MS \<le> now \<Longrightarrow>
     incident_step now ''action_required'' c i (Some (''reminder'', cur, ''reminder:'' @ show_int (ic_reminders i + 1)))
       (i\<lparr>ic_reminders := ic_reminders i + 1, ic_notified := Some now\<rparr>)"
| recent: "ic_id i = Some cur \<Longrightarrow> ic_notified i = Some t \<Longrightarrow> now < t + COOLDOWN_MS \<Longrightarrow> incident_step now ''action_required'' c i None i"
| recovers: "ic_id i = Some cur \<Longrightarrow> incident_step now ''healthy'' True i (Some (''recovered'', cur, ''recovered'')) no_incident"
| nothing_open: "ic_id i = None \<Longrightarrow> status \<noteq> ''action_required'' \<Longrightarrow> incident_step now status c i None i"
| not_known: "ic_id i = Some cur \<Longrightarrow> status \<noteq> ''action_required'' \<Longrightarrow> status \<noteq> ''healthy'' \<Longrightarrow> incident_step now status c i None i"
| repeated: "ic_id i = Some cur \<Longrightarrow> incident_step now ''healthy'' False i None i"

inductive_cases incident_stepE: "incident_step now status c i n i'"

lemma next_incident_step:
  assumes "incident_ok i" and "fresh \<noteq> []" and "next_incident now fresh status changed i = (i', n)"
  shows "incident_step now status changed i n i'"
proof (cases "ic_id i")
  case None
  with assms show ?thesis by (auto simp: next_incident_def split: if_splits intro: opens nothing_open)
next
  case (Some cur)
  with assms(1) obtain l where "ic_notified i = Some l" by (auto simp: incident_ok_def)
  with Some assms(3) show ?thesis
    using reminds [of i cur l now]
    by (cases changed)
      (auto simp: next_incident_def split: if_split_asm intro: not_known recovers repeated intro!: recent)
qed

text \<open>The machine is deterministic, but for the id that a new incident draws.\<close>

lemma incident_step_fun:
  assumes "incident_step now status c i n i'" and "incident_step now status c i m i''" and "ic_id i \<noteq> None"
  shows "n = m \<and> i' = i''"
  using assms by (auto elim!: incident_stepE)

text \<open>An accepted snapshot is always judged.\<close>

lemma decision_defined: "reading_ok s \<Longrightarrow> \<exists>status. credential_health_decision s now = Inr status"
  by (auto simp: reading_ok_def time_ok_def credential_health_decision_def credential_timestamp_ms_def split: option.splits)

section \<open>One request\<close>

text \<open>What a request did to the connection of one of its snapshots.\<close>

definition moved :: "int \<Rightarrow> string \<Rightarrow> string \<Rightarrow> hdb \<Rightarrow> hdb \<Rightarrow> health_snapshot \<Rightarrow> notice option \<Rightarrow> bool" where
  "moved now org ws db db' s n \<longleftrightarrow> (let k = (org, ws, sn_connection s) in
     (outdated s (row_at db k) = Inr True \<and> n = None \<and> row_at db' k = row_at db k) \<or>
     (outdated s (row_at db k) = Inr False \<and> (\<exists>status fp. credential_health_decision s now = Inr status \<and>
        credential_health_fingerprint s = Inr fp \<and>
        incident_step now status (case row_at db k of None \<Rightarrow> True | Some r \<Rightarrow> hl_fingerprint r \<noteq> fp)
          (incident_at db k) n (incident_at db' k) \<and>
        row_at db' k = Some (checkpoint now org ws s fp status (incident_at db' k)))))"

definition posted :: "string \<Rightarrow> string \<Rightarrow> health_snapshot \<Rightarrow> notice option \<Rightarrow> hdb \<Rightarrow> bool" where
  "posted org ws s n db = (case n of None \<Rightarrow> True
     | Some x \<Rightarrow> notice_key org ws (sn_connection s) x \<in> nt_dedup_key ` set (w_notes (h_work db)))"

lemma process_snapshot_moves:
  assumes "process_snapshot nid inc now org ws (t, db) (j, s) = Inr (t', db')" and inv: "hinv db" and ok: "reading_ok s"
    and inc: "inc j \<noteq> []"
  obtains n ns where "moved now org ws db db' s n" "posted org ws s n db'" "w_notes (h_work db') = w_notes (h_work db) @ ns"
    "ty_queued t' = ty_queued t + int (length ns)" "ty_processed t' + ty_stale t' = ty_processed t + ty_stale t + 1"
    "\<forall>r \<in> set ns. \<exists>x. n = Some x \<and> notice_note org ws s x r"
    "\<forall>k. k \<noteq> (org, ws, sn_connection s) \<longrightarrow> row_at db' k = row_at db k"
  using assms(1)
proof (cases rule: process_snapshot_cases)
  case 1
  then show thesis by (intro that [of None "[]"]) (simp_all add: moved_def posted_def)
next
  case (2 q)
  let ?k = "(org, ws, sn_connection s)"
  from 2(2) ok obtain status fp i' n where d: "credential_health_decision s now = Inr status"
      "credential_health_fingerprint s = Inr fp"
    and ni: "next_incident now (inc j) status (case row_at db ?k of None \<Rightarrow> True | Some r \<Rightarrow> hl_fingerprint r \<noteq> fp)
       (incident_of (row_at db ?k)) = (i', n)"
    and p: "posts org ws s n q (h_work db) (h_work db')"
    and rows: "h_rows db' = put_row (checkpoint now org ws s fp status i') (h_rows db)"
    by (rule checkpoint_effect)
  have iok: "incident_ok (incident_of (row_at db ?k))" using hinv_at [OF inv, of ?k] by (simp add: incident_at_def)
  from next_incident_ok [OF iok inc ni] have "ic_id i' \<noteq> Some []" by (auto simp: incident_ok_def)
  then have at: "incident_at db' ?k = i'" "row_at db' ?k = Some (checkpoint now org ws s fp status i')" and other: "\<forall>k. k \<noteq> ?k \<longrightarrow> row_at db' k = row_at db k"
    by (simp_all add: incident_at_def incident_of_def row_at_def rows find_put_row checkpoint_incident)
  have m: "moved now org ws db db' s n"
    using next_incident_step [OF iok inc ni] 2(1) d at by (auto simp: moved_def incident_at_def)
  have po: "posted org ws s n db'" using p posts_notice by (cases n) (auto simp: posted_def)
  from p obtain ns where ns: "w_notes (h_work db') = w_notes (h_work db) @ ns" "q = int (length ns)"
      "\<forall>r \<in> set ns. \<exists>x. n = Some x \<and> notice_note org ws s x r"
    by (cases n) (auto simp: posts_def)
  show thesis by (rule that [OF m po ns(1) _ _ ns(3) other]) (use 2(3) ns(2) in simp_all)
qed

text \<open>A later snapshot of another connection does not undo it.\<close>

lemma moved_frame:
  assumes "moved now org ws db db1 s n" and "row_at db' (org, ws, sn_connection s) = row_at db1 (org, ws, sn_connection s)"
  shows "moved now org ws db db' s n"
  using assms by (simp add: moved_def incident_at_def Let_def)

lemma moved_prefix:
  assumes "moved now org ws db1 db' s n" and "row_at db1 (org, ws, sn_connection s) = row_at db (org, ws, sn_connection s)"
  shows "moved now org ws db db' s n"
  using assms by (simp add: moved_def incident_at_def Let_def)

lemma posted_mono: "posted org ws s n db \<Longrightarrow> w_notes (h_work db') = w_notes (h_work db) @ ns \<Longrightarrow> posted org ws s n db'"
  by (auto simp: posted_def split: option.splits)

definition request_moves :: "int \<Rightarrow> string \<Rightarrow> string \<Rightarrow> health_snapshot list \<Rightarrow> hdb \<Rightarrow> hdb \<Rightarrow> note_row list \<Rightarrow> bool" where
  "request_moves now org ws ss db db' ns \<longleftrightarrow> w_notes (h_work db') = w_notes (h_work db) @ ns \<and>
     (\<forall>k. (\<forall>s \<in> set ss. k \<noteq> (org, ws, sn_connection s)) \<longrightarrow> row_at db' k = row_at db k) \<and>
     (\<forall>s \<in> set ss. \<exists>n. moved now org ws db db' s n \<and> posted org ws s n db') \<and>
     (\<forall>r \<in> set ns. \<exists>s \<in> set ss. \<exists>x. moved now org ws db db' s (Some x) \<and> notice_note org ws s x r)"

lemma request_moves_cons:
  assumes m: "moved now org ws db db1 s n" and po: "posted org ws s n db1" and w: "w_notes (h_work db1) = w_notes (h_work db) @ ns1"
    and new: "\<forall>r \<in> set ns1. \<exists>x. n = Some x \<and> notice_note org ws s x r"
    and other: "\<forall>k. k \<noteq> (org, ws, sn_connection s) \<longrightarrow> row_at db1 k = row_at db k"
    and rest: "request_moves now org ws ss db1 db' ns2" and fresh: "sn_connection s \<notin> sn_connection ` set ss"
  shows "request_moves now org ws (s # ss) db db' (ns1 @ ns2)"
proof -
  from rest have w2: "w_notes (h_work db') = w_notes (h_work db1) @ ns2"
    and frame: "\<And>k. (\<forall>s \<in> set ss. k \<noteq> (org, ws, sn_connection s)) \<Longrightarrow> row_at db' k = row_at db1 k"
    and moves: "\<forall>s \<in> set ss. \<exists>n. moved now org ws db1 db' s n \<and> posted org ws s n db'"
    and later: "\<forall>r \<in> set ns2. \<exists>s \<in> set ss. \<exists>x. moved now org ws db1 db' s (Some x) \<and> notice_note org ws s x r"
    unfolding request_moves_def by blast+
  have "row_at db' (org, ws, sn_connection s) = row_at db1 (org, ws, sn_connection s)"
    by (rule frame) (use fresh in auto)
  with m have here: "moved now org ws db db' s n" by (rule moved_frame)
  have lift: "moved now org ws db db' s' n'" if "s' \<in> set ss" "moved now org ws db1 db' s' n'" for s' n'
  proof -
    from that(1) fresh have "(org, ws, sn_connection s') \<noteq> (org, ws, sn_connection s)" by (metis imageI prod.inject)
    with other have "row_at db1 (org, ws, sn_connection s') = row_at db (org, ws, sn_connection s')" by blast
    with that(2) show ?thesis by (rule moved_prefix)
  qed
  have poh: "posted org ws s n db'" using po w2 by (rule posted_mono)
  have "\<forall>k. (\<forall>x \<in> set (s # ss). k \<noteq> (org, ws, sn_connection x)) \<longrightarrow> row_at db' k = row_at db k"
    using frame other by simp
  moreover have "\<forall>x \<in> set (s # ss). \<exists>n. moved now org ws db db' x n \<and> posted org ws x n db'"
    using here poh moves lift by fastforce
  moreover have "\<forall>r \<in> set (ns1 @ ns2). \<exists>x \<in> set (s # ss). \<exists>y. moved now org ws db db' x (Some y) \<and> notice_note org ws x y r"
    using here new later lift by fastforce
  ultimately show ?thesis using w w2 unfolding request_moves_def by simp
qed

lemma process_snapshots_move:
  assumes "foldE (process_snapshot nid inc now org ws) (t, db) (zip js ss) = Inr (t', db')" and "length js = length ss"
    and "hinv db" and "\<And>j. inc j \<noteq> []" and "list_all reading_ok ss" and "distinct (map sn_connection ss)"
  shows "\<exists>ns. request_moves now org ws ss db db' ns \<and> ty_queued t' = ty_queued t + int (length ns) \<and>
    ty_processed t' + ty_stale t' = ty_processed t + ty_stale t + int (length ss)"
  using assms
proof (induction ss arbitrary: js t db)
  case Nil
  then show ?case by (intro exI [of _ "[]"]) (simp add: request_moves_def)
next
  case (Cons s ss)
  then obtain j js' where js: "js = j # js'" "length js' = length ss" by (cases js) auto
  with Cons.prems(1) obtain t1 db1 where one: "process_snapshot nid inc now org ws (t, db) (j, s) = Inr (t1, db1)"
    and rest: "foldE (process_snapshot nid inc now org ws) (t1, db1) (zip js' ss) = Inr (t', db')"
    by (auto simp: resE)
  have ok: "reading_ok s" "list_all reading_ok ss" "distinct (map sn_connection ss)" "sn_connection s \<notin> sn_connection ` set ss"
    using Cons.prems by auto
  have "foldE (process_snapshot nid inc now org ws) (t, db) [(j, s)] = Inr (t1, db1)" using one by simp
  then have inv: "hinv db1" using process_snapshots_inv [OF _ Cons.prems(3,4)] ok(1) by fastforce
  from one Cons.prems(3) ok(1) Cons.prems(4) obtain n ns where
    m: "moved now org ws db db1 s n" "posted org ws s n db1" "w_notes (h_work db1) = w_notes (h_work db) @ ns"
      "\<forall>r \<in> set ns. \<exists>x. n = Some x \<and> notice_note org ws s x r"
      "\<forall>k. k \<noteq> (org, ws, sn_connection s) \<longrightarrow> row_at db1 k = row_at db k"
    and c: "ty_queued t1 = ty_queued t + int (length ns)" "ty_processed t1 + ty_stale t1 = ty_processed t + ty_stale t + 1"
    by (rule process_snapshot_moves)
  from Cons.IH [OF rest js(2) inv Cons.prems(4) ok(2,3)] obtain ns2 where
    r: "request_moves now org ws ss db1 db' ns2" "ty_queued t' = ty_queued t1 + int (length ns2)"
      "ty_processed t' + ty_stale t' = ty_processed t1 + ty_stale t1 + int (length ss)" by blast
  have "request_moves now org ws (s # ss) db db' (ns @ ns2)" by (rule request_moves_cons [OF m r(1) ok(4)])
  then show ?case using r c by (intro exI [of _ "ns @ ns2"]) simp
qed

end
