(* ===== verification/Health_Props.thy ===== *)
theory Health_Props
  imports Health_Refine Work_Demo
begin

text \<open>
  The properties of the credential monitor: what an accepted snapshot guarantees, the incident machine the store
  implements on every reachable state, the bound on reminders, and the recovery that a stale report can swallow.
  The witnesses run concrete requests.
\<close>

section \<open>Nothing computed from an accepted snapshot fails\<close>

lemma jok_jopt [simp]: "jok (jopt t)" and jwf_jopt [simp]: "jwf (jopt t)"
  by (cases t; simp)+

lemma notice_encodes:
  assumes "reading_ok s"
  shows "jok (JDict (credential_health_notice s event incident))" and "jwf (JDict (credential_health_notice s event incident))"
  using assms small_int_ok [of "sn_generation s"] small_int_ok [of 1]
  by (simp_all add: credential_health_notice_def jok_list_all jwf_list_all list_all_iff reading_ok_def)

lemma fingerprint_defined: "reading_ok s \<Longrightarrow> \<exists>fp. credential_health_fingerprint s = Inr fp"
  using small_int_ok [of "sn_generation s"] unfolding credential_health_fingerprint_def
  by (subst digest_ok) (simp_all add: jok_list_all list_all_iff reading_ok_def)

lemma decision_values:
  assumes "credential_health_decision s now = Inr status"
  shows "status \<in> {''unknown'', ''action_required'', ''healthy''}"
  using assms by (auto simp: credential_health_decision_def state_decision_def resE split: option.splits if_splits)

section \<open>A request that runs\<close>

definition demo_snapshot_of :: "string \<Rightarrow> string \<Rightarrow> json" where
  "demo_snapshot_of auth checked = JDict
    [(''connectionId'', JStr ''22222222-2222-4222-8222-222222222222''), (''provider'', JStr ''hf''),
     (''loginState'', JStr ''PRESENT''), (''authorizationState'', JStr auth), (''checkedAt'', JStr checked),
     (''expiresAt'', JNull), (''generation'', JInt 4),
     (''capabilities'', JList [JDict [(''capabilityId'', JStr ''model.read''), (''state'', JStr auth),
        (''lastVerifiedAt'', JNull), (''expiresAt'', JNull), (''reasonCode'', JNull)]]),
     (''reasonCode'', JNull)]"

definition demo_read :: "string \<Rightarrow> string \<Rightarrow> health_snapshot" where
  "demo_read auth checked = \<lparr>sn_connection = ''22222222-2222-4222-8222-222222222222'', sn_provider = ''hf'',
     sn_login = ''PRESENT'', sn_auth = auth, sn_checked = Some checked, sn_expires = None, sn_generation = 4,
     sn_caps = [\<lparr>cp_id = ''model.read'', cp_state = auth, cp_verified = None, cp_expires = None, cp_reason = None\<rparr>],
     sn_reason = None, sn_owner = None\<rparr>"

lemma demo_snapshots:
  "credential_health_snapshot (demo_snapshot_of ''REAUTHORIZATION_REQUIRED'' ''2027-01-15T08:00:00Z'') =
     Inr (demo_read ''REAUTHORIZATION_REQUIRED'' ''2027-01-15T08:00:00Z'')"
  "credential_health_snapshot (demo_snapshot_of ''VALID'' ''2027-01-15T08:01:00Z'') = Inr (demo_read ''VALID'' ''2027-01-15T08:01:00Z'')"
  "credential_health_snapshot (demo_snapshot_of ''VALID'' ''2027-01-15T08:41:00Z'') = Inr (demo_read ''VALID'' ''2027-01-15T08:41:00Z'')"
  by code_simp+

lemma demo_judged:
  "credential_health_decision (demo_read ''REAUTHORIZATION_REQUIRED'' ''2027-01-15T08:00:00Z'') 1800000000000 = Inr ''action_required''"
  "credential_health_decision (demo_read ''VALID'' ''2027-01-15T08:01:00Z'') 1800002400000 = Inr ''unknown''"
  "credential_health_decision (demo_read ''VALID'' ''2027-01-15T08:41:00Z'') 1800002460000 = Inr ''healthy''"
  by code_simp+

lemma normalize_single:
  "credential_health_snapshot v = Inr s \<Longrightarrow> normalize_snapshots (JList [v]) = Inr [s]"
  by (simp add: normalize_snapshots_def)

text \<open>A request with one snapshot.\<close>

lemma process_single:
  assumes "credential_health_snapshot v = Inr s" and "work_scope org ws = Inr (o', w)"
  shows "process_credential_health_snapshots nid inc now org ws (JList [v]) db =
    commit db (process_snapshot nid inc now o' w (zero_tally, db) (0, s))"
proof -
  have "foldE f st [x] = f st x" for f :: "tally \<times> hdb \<Rightarrow> nat \<times> health_snapshot \<Rightarrow> (tally \<times> hdb) res" and st x
    by (cases "f st x") simp_all
  then show ?thesis
    unfolding process_credential_health_snapshots_def normalize_single [OF assms(1)] assms(2) by simp
qed

text \<open>Without rows to collide with, a shared notice is enqueued.\<close>

lemma enqueue_notice_fresh:
  assumes ok: "reading_ok s" and "sn_provider s \<noteq> ''microsoft_graph''" and "w_notes db = []"
  shows "\<exists>db'. enqueue_notice nid now org ws s n db = Inr (False, db')"
proof -
  obtain event incident suffix where n: "n = (event, incident, suffix)" by (cases n)
  let ?p = "credential_health_notice s event incident"
  note p = notice_encodes [OF ok, of event incident]
  have "jok (JDict [(''type'', JStr HEALTH_TYPE), (''payload'', JDict ?p), (''connectorId'', jopt (Some ''teams-v1'')),
     (''recipient'', jopt (Some ''teams:credential-health'')), (''taskId'', jopt None)])" using p(1) by simp
  then have dig: "\<exists>d. notification_request_digest HEALTH_TYPE ?p (Some ''teams-v1'') (Some ''teams:credential-health'') None = Inr d"
    unfolding notification_request_digest_def by (subst digest_ok) simp_all
  obtain d where d: "stored_object (render (canon (JDict ?p))) = Inr d" using stored_object_text [OF text_ok [OF p(1)] p(2)] by blast
  from dig show ?thesis
    using assms(2,3) d
    by (auto simp: enqueue_notice_def n Let_def enqueue_notification_def private_fields_of_def text_ok [OF p(1)] insert_with_def
        notification_view_def empty_object simp del: render.simps canon.simps)
qed

lemma demo_opened:
  "\<exists>t db'. process_credential_health_snapshots (\<lambda>_. ''n'') (\<lambda>_. ''i'') 1800000000000 (Some ''org'') ''w''
     (JList [demo_snapshot_of ''REAUTHORIZATION_REQUIRED'' ''2027-01-15T08:00:00Z'']) empty_hdb = (Inr t, db') \<and>
     incident_at db' (''org'', ''w'', ''22222222-2222-4222-8222-222222222222'') =
       \<lparr>ic_id = Some ''i'', ic_started = Some 1800000000000, ic_notified = Some 1800000000000, ic_reminders = 0\<rparr> \<and>
     (\<exists>r. row_at db' (''org'', ''w'', ''22222222-2222-4222-8222-222222222222'') = Some r \<and> hl_checked r = Some ''2027-01-15T08:00:00Z'')"
proof -
  let ?s = "demo_read ''REAUTHORIZATION_REQUIRED'' ''2027-01-15T08:00:00Z''"
  have ok: "reading_ok ?s" by (rule snapshot_accepted [OF demo_snapshots(1)])
  obtain fp where fp: "credential_health_fingerprint ?s = Inr fp" using fingerprint_defined [OF ok] by blast
  obtain w where w: "enqueue_notice ''n'' 1800000000000 ''org'' ''w'' ?s (''action_required'', ''i'', ''opened'') empty_wdb = Inr (False, w)"
  proof -
    have "sn_provider ?s \<noteq> ''microsoft_graph''" "w_notes empty_wdb = []" by (simp_all add: demo_read_def empty_wdb_def)
    from enqueue_notice_fresh [OF ok this] that show thesis by blast
  qed
  have k: "sn_connection ?s = ''22222222-2222-4222-8222-222222222222''"
    "hl_checked (checkpoint now o' w ?s fp status i) = Some ''2027-01-15T08:00:00Z''" for now o' w fp status i
    by (simp_all add: demo_read_def checkpoint_def)
  show ?thesis
    using fp w by (simp add: k incident_at_def row_at_def incident_of_def find_put_row checkpoint_incident process_single [OF demo_snapshots(1) demo_scope] process_snapshot_def outdated_def empty_hdb_def
      checkpoint_snapshot_def demo_judged next_incident_def no_incident_def Let_def)
qed

section \<open>What the code accepts\<close>

text \<open>
  C11. An accepted snapshot is well typed, and nothing computed from it can fail. Its connection is a canonical lower-case
  UUID, every state belongs to the published alphabet, every time is a real UTC instant, the generation is a safe
  integer, the capabilities are at most 100, sorted and distinct, and an owner is present exactly for Microsoft Graph;
  the decision is one of three, and the fingerprint and the text of every notice exist.
\<close>

theorem accepted_snapshot_typed:
  assumes "credential_health_snapshot v = Inr s"
  shows "reading_ok s \<and>
    (\<exists>status \<in> {''unknown'', ''action_required'', ''healthy''}. credential_health_decision s now = Inr status) \<and>
    (\<exists>fp. credential_health_fingerprint s = Inr fp) \<and>
    (\<exists>t. json_text (JDict (credential_health_notice s event incident)) = Some t)"
proof -
  have ok: "reading_ok s" by (rule snapshot_accepted [OF assms])
  from decision_defined [OF ok, of now] obtain status where "credential_health_decision s now = Inr status" by blast
  with decision_values [OF this] fingerprint_defined [OF ok] notice_encodes(1) [OF ok] ok show ?thesis
    unfolding json_text_Some_iff by blast
qed

theorem accepted_snapshot_typed_witness:
  "reading_ok (demo_read ''VALID'' ''2027-01-15T08:01:00Z'') \<and>
   (\<exists>status \<in> {''unknown'', ''action_required'', ''healthy''}.
      credential_health_decision (demo_read ''VALID'' ''2027-01-15T08:01:00Z'') 0 = Inr status)"
  using accepted_snapshot_typed [OF demo_snapshots(2), of 0 "[]" "[]"] by blast

section \<open>The monitor implements the incident machine\<close>

text \<open>
  C19. The monitor implements one incident machine per connection. In every reachable state of the whole system (its own
  calls interleaved with those of the Work store), an accepted request moves the machine of every connection it names
  by the step that its decision and the change of its fingerprint prescribe (an open incident is closed exactly by a
  healthy report with a new fingerprint) and stores the report as the new checkpoint, or, when the report is older than
  the stored one, leaves the row as it is; it leaves every other connection alone; and the outbox grows by exactly the notices of the steps, addressed to the shared
  destination or, for Microsoft Graph, to the owner. The tally counts every snapshot and every new notice. A refused
  request changes nothing.
\<close>

theorem monitor_contract:
  assumes "hstep\<^sup>*\<^sup>* empty_hdb db" and "process_credential_health_snapshots nid inc now org ws v db = (r, db')"
    and "\<And>j. inc j \<noteq> []"
  shows "case r of
      Inl e \<Rightarrow> db' = db
    | Inr t \<Rightarrow> \<exists>o' w ss ns. work_scope org ws = Inr (o', w) \<and> normalize_snapshots v = Inr ss \<and>
        request_moves now o' w ss db db' ns \<and> ty_queued t = int (length ns) \<and>
        ty_processed t + ty_stale t = int (length ss)"
proof (cases r)
  case (Inl e)
  with assms(2) have "db' = db" by (intro process_Inl [of nid inc now org ws v db e]) simp
  with Inl show ?thesis by simp
next
  case (Inr t)
  have inv: "hinv db" by (rule hh.inv_steps [OF assms(1) hinv_empty])
  from assms(2) Inr have "process_credential_health_snapshots nid inc now org ws v db = (Inr t, db')" by simp
  then obtain o' w ss where s: "work_scope org ws = Inr (o', w)" "normalize_snapshots v = Inr ss"
    and f: "foldE (process_snapshot nid inc now o' w) (zero_tally, db) (zip [0..<length ss] ss) = Inr (t, db')"
    by (rule process_Inr)
  from process_snapshots_move [OF f _ inv assms(3)] normalized_ok [OF s(2)] obtain ns where
    "request_moves now o' w ss db db' ns" "ty_queued t = int (length ns)" "ty_processed t + ty_stale t = int (length ss)"
    by (auto simp: zero_tally_def)
  with s Inr show ?thesis by auto
qed

theorem monitor_contract_witness:
  "\<exists>t db' ns. process_credential_health_snapshots (\<lambda>_. ''n'') (\<lambda>_. ''i'') 1800000000000 (Some ''org'') ''w''
     (JList [demo_snapshot_of ''REAUTHORIZATION_REQUIRED'' ''2027-01-15T08:00:00Z'']) empty_hdb = (Inr t, db') \<and>
     request_moves 1800000000000 ''org'' ''w'' [demo_read ''REAUTHORIZATION_REQUIRED'' ''2027-01-15T08:00:00Z''] empty_hdb db' ns \<and>
     ty_queued t = int (length ns)"
proof -
  from demo_opened obtain t db' where run: "process_credential_health_snapshots (\<lambda>_. ''n'') (\<lambda>_. ''i'') 1800000000000 (Some ''org'') ''w''
     (JList [demo_snapshot_of ''REAUTHORIZATION_REQUIRED'' ''2027-01-15T08:00:00Z'']) empty_hdb = (Inr t, db')" by blast
  from monitor_contract [OF rtranclp.rtrancl_refl run] run show ?thesis
    by (auto simp: demo_scope normalize_single [OF demo_snapshots(1)])
qed

section \<open>Reminders are rare\<close>

text \<open>
  C33. Reminders are at least a day apart, and every notice that was due is in the outbox. In every reachable state of
  the whole system a connection without an incident has no incident data; an open incident has sent at most one
  reminder per 24 hours between its start and its last notice, and the outbox holds its opening notice and each
  of its numbered reminders.
\<close>

theorem reminders_bounded:
  assumes "hstep\<^sup>*\<^sup>* empty_hdb db"
  shows "case ic_id (incident_at db (org, ws, connection)) of
      None \<Rightarrow> incident_at db (org, ws, connection) = no_incident
    | Some cur \<Rightarrow> \<exists>s l. ic_started (incident_at db (org, ws, connection)) = Some s \<and>
        ic_notified (incident_at db (org, ws, connection)) = Some l \<and>
        0 \<le> ic_reminders (incident_at db (org, ws, connection)) \<and>
        ic_reminders (incident_at db (org, ws, connection)) \<le> (l - s) div (24 * 60 * 60 * 1000) \<and>
        (\<forall>suffix \<in> insert ''opened'' ((\<lambda>j. ''reminder:'' @ show_int j) ` {1..ic_reminders (incident_at db (org, ws, connection))}).
          \<exists>n \<in> set (w_notes (h_work db)). nt_org n = org \<and> nt_ws n = ws \<and> nt_dedup n = incident_key connection cur suffix)"
proof -
  let ?i = "incident_at db (org, ws, connection)"
  have ok: "incident_ok ?i" "noticed (h_work db) (org, ws, connection) ?i"
    using hinv_at [OF hh.inv_steps [OF assms hinv_empty]] by blast+
  show ?thesis
  proof (cases "ic_id ?i")
    case None
    with ok show ?thesis by (simp add: incident_ok_def)
  next
    case (Some cur)
    with ok(1) obtain s l where i: "0 \<le> ic_reminders ?i" "ic_started ?i = Some s" "ic_notified ?i = Some l"
      "s + ic_reminders ?i * COOLDOWN_MS \<le> l" by (auto simp: incident_ok_def)
    then have "ic_reminders ?i \<le> (l - s) div (24 * 60 * 60 * 1000)"
      by (simp add: COOLDOWN_MS_def zdiv_mono1 [of "ic_reminders ?i * 86400000" "l - s" 86400000, simplified])
    moreover have "\<exists>n \<in> set (w_notes (h_work db)). nt_org n = org \<and> nt_ws n = ws \<and> nt_dedup n = incident_key connection cur suffix"
      if "suffix \<in> insert ''opened'' ((\<lambda>j. ''reminder:'' @ show_int j) ` {1..ic_reminders ?i})" for suffix
    proof -
      have "(org, ws, incident_key connection cur suffix) \<in> nt_dedup_key ` set (w_notes (h_work db))"
        using ok(2) Some that by (auto simp: noticed_def)
      then show ?thesis by (force simp: nt_dedup_key_def)
    qed
    ultimately show ?thesis using Some i by auto
  qed
qed

theorem reminders_bounded_witness:
  "\<exists>db. hstep\<^sup>*\<^sup>* empty_hdb db \<and> ic_id (incident_at db (''org'', ''w'', ''22222222-2222-4222-8222-222222222222'')) = Some ''i'' \<and>
     (\<exists>n \<in> set (w_notes (h_work db)). nt_dedup n = incident_key ''22222222-2222-4222-8222-222222222222'' ''i'' ''opened'')"
proof -
  from demo_opened obtain t db' where run: "process_credential_health_snapshots (\<lambda>_. ''n'') (\<lambda>_. ''i'') 1800000000000 (Some ''org'') ''w''
     (JList [demo_snapshot_of ''REAUTHORIZATION_REQUIRED'' ''2027-01-15T08:00:00Z'']) empty_hdb = (Inr t, db')"
    and i: "incident_at db' (''org'', ''w'', ''22222222-2222-4222-8222-222222222222'') =
      \<lparr>ic_id = Some ''i'', ic_started = Some 1800000000000, ic_notified = Some 1800000000000, ic_reminders = 0\<rparr>" by blast
  have "hstep empty_hdb db'" by (rule monitor [OF run]) simp
  then have reach: "hstep\<^sup>*\<^sup>* empty_hdb db'" by (rule r_into_rtranclp)
  from reminders_bounded [OF reach, of "''org''" "''w''" "''22222222-2222-4222-8222-222222222222''"] reach i show ?thesis by auto
qed

section \<open>A recovery can be lost\<close>

text \<open>One report on a connection, judged healthy, with a given fingerprint.\<close>

definition healthy_report :: "task_key \<Rightarrow> string \<Rightarrow> hdb \<Rightarrow> hdb \<Rightarrow> bool" where
  "healthy_report k fp db db' \<longleftrightarrow> (\<exists>nid inc now org ws v s o' w t.
     process_credential_health_snapshots nid inc now org ws (JList [v]) db = (Inr t, db') \<and>
     credential_health_snapshot v = Inr s \<and> work_scope org ws = Inr (o', w) \<and> (o', w, sn_connection s) = k \<and>
     credential_health_fingerprint s = Inr fp \<and> credential_health_decision s now = Inr ''healthy'')"

text \<open>A report that is not actionable and shows no new fingerprint, or is not judged healthy, keeps the incident.\<close>

lemma silent_report:
  assumes run: "process_credential_health_snapshots nid inc now org ws (JList [v]) db = (Inr t, db')"
    and s: "credential_health_snapshot v = Inr s" and scope: "work_scope org ws = Inr (o', w)"
    and i: "ic_id (incident_at db (o', w, sn_connection s)) = Some cur"
    and d: "credential_health_decision s now = Inr status" "status \<noteq> ''action_required''"
    and fp: "credential_health_fingerprint s = Inr fp"
    and quiet: "status = ''healthy'' \<Longrightarrow> map_option hl_fingerprint (row_at db (o', w, sn_connection s)) = Some fp"
  shows "incident_at db' (o', w, sn_connection s) = incident_at db (o', w, sn_connection s) \<and> h_work db' = h_work db \<and>
    (ty_stale t = 0 \<or> status = ''healthy'' \<longrightarrow> map_option hl_fingerprint (row_at db' (o', w, sn_connection s)) = Some fp)"
proof -
  let ?k = "(o', w, sn_connection s)"
  from i obtain r where r: "row_at db ?k = Some r" by (cases "row_at db ?k") (auto simp: incident_at_def incident_of_def no_incident_def)
  with i have ri: "incident_at db ?k = row_incident r" "ic_id (row_incident r) = Some cur" "cur \<noteq> []"
    by (auto simp: incident_at_def incident_of_def row_incident_def truthy_text_def split: if_splits)
  from run have "process_snapshot nid inc now o' w (zero_tally, db) (0, s) = Inr (t, db')"
    unfolding process_single [OF s scope] by (simp add: commit_Inr)
  then show ?thesis
  proof (cases rule: process_snapshot_cases)
    case 1
    then show ?thesis using quiet by (auto simp: zero_tally_def)
  next
    case (2 q)
    have "next_incident now (inc 0) status (hl_fingerprint r \<noteq> fp) (row_incident r) = (row_incident r, None)"
      using ri d(2) quiet r by (auto simp: next_incident_def)
    with 2(2) d fp r have "h_work db' = h_work db" "h_rows db' = put_row (checkpoint now o' w s fp status (row_incident r)) (h_rows db)"
      by (auto simp: checkpoint_snapshot_def Let_def)
    then show ?thesis using ri
      by (simp add: row_at_def incident_at_def incident_of_def find_put_row checkpoint_incident) (simp add: checkpoint_def)
  qed
qed

lemma healthy_reports_silent:
  assumes "(healthy_report k fp)\<^sup>*\<^sup>* db db'" and "ic_id (incident_at db k) \<noteq> None"
    and "map_option hl_fingerprint (row_at db k) = Some fp"
  shows "incident_at db' k = incident_at db k \<and> h_work db' = h_work db \<and> map_option hl_fingerprint (row_at db' k) = Some fp"
  using assms
proof (induction rule: rtranclp_induct)
  case (step y z)
  from step.hyps(2) obtain nid inc now org ws v s o' w t where
    run: "process_credential_health_snapshots nid inc now org ws (JList [v]) y = (Inr t, z)"
    and p: "credential_health_snapshot v = Inr s" "work_scope org ws = Inr (o', w)" "k = (o', w, sn_connection s)"
      "credential_health_fingerprint s = Inr fp" "credential_health_decision s now = Inr ''healthy''"
    unfolding healthy_report_def by blast
  from step.IH step.prems obtain cur where "ic_id (incident_at y k) = Some cur" by auto
  from silent_report [OF run p(1,2) this [unfolded p(3)] p(5) _ p(4)] step.IH step.prems show ?case by (simp add: p(3))
qed simp

text \<open>
  C15. A report that arrives late swallows the recovery. Let a connection have an open incident and let a snapshot of it be
  processed that is not older than the stored one but is judged unknown (checked more than half an hour ago, say).
  Then reports that differ from it in the time of the check only, and are judged healthy, never close the
  incident and never enqueue a notice, however many arrive. The documentation promises a recovery notice for them.
\<close>

theorem lost_recovery:
  assumes "process_credential_health_snapshots nid inc now org ws (JList [v]) db = (Inr t, db1)"
    and "credential_health_snapshot v = Inr s" and "work_scope org ws = Inr (o', w)"
    and "ic_id (incident_at db (o', w, sn_connection s)) \<noteq> None"
    and "credential_health_decision s now = Inr ''unknown''" and "ty_stale t = 0"
    and "credential_health_fingerprint s = Inr fp" and "(healthy_report (o', w, sn_connection s) fp)\<^sup>*\<^sup>* db1 db2"
  shows "incident_at db2 (o', w, sn_connection s) = incident_at db (o', w, sn_connection s) \<and> h_work db2 = h_work db"
proof -
  from assms(4) obtain cur where "ic_id (incident_at db (o', w, sn_connection s)) = Some cur" by blast
  from silent_report [OF assms(1-3) this assms(5) _ assms(7)] assms(6)
  have "incident_at db1 (o', w, sn_connection s) = incident_at db (o', w, sn_connection s)" "h_work db1 = h_work db"
    "map_option hl_fingerprint (row_at db1 (o', w, sn_connection s)) = Some fp" by simp_all
  with healthy_reports_silent [OF assms(8)] assms(4) show ?thesis by simp
qed

text \<open>The run of the witness: a quiet report on a connection with a stored time.\<close>

lemma quiet_next:
  "status = ''unknown'' \<or> (status = ''healthy'' \<and> \<not> changed) \<Longrightarrow> next_incident now fresh status changed i = (i, None)"
  by (auto simp: next_incident_def split: option.splits)

lemma quiet_report_runs:
  assumes s: "credential_health_snapshot v = Inr s" and scope: "work_scope org ws = Inr (o', w)"
    and r: "row_at db (o', w, sn_connection s) = Some r" and c: "hl_checked r = Some c" "sn_checked s = Some c'" "c \<noteq> []"
    and ms: "credential_timestamp_ms c = Inr a" "credential_timestamp_ms c' = Inr b" "a \<le> b"
    and d: "credential_health_decision s now = Inr status"
    and fp: "credential_health_fingerprint s = Inr fp" and st: "status = ''unknown'' \<or> (status = ''healthy'' \<and> hl_fingerprint r = fp)"
  shows "\<exists>t. process_credential_health_snapshots nid inc now org ws (JList [v]) db =
      (Inr t, db\<lparr>h_rows := put_row (checkpoint now o' w s fp status (row_incident r)) (h_rows db)\<rparr>) \<and> ty_stale t = 0"
proof -
  have "next_incident now (inc 0) status (hl_fingerprint r \<noteq> fp) (row_incident r) = (row_incident r, None)"
    by (rule quiet_next) (use st in auto)
  moreover have "outdated s (Some r) = Inr False"
    using c ms by (simp add: outdated_def truthy_text_def)
  ultimately show ?thesis
    using r d fp by (simp add: process_single [OF s scope] process_snapshot_def row_at_def checkpoint_snapshot_def Let_def zero_tally_def)
qed

lemma demo_times:
  "credential_timestamp_ms ''2027-01-15T08:00:00Z'' = Inr 1800000000000"
  "credential_timestamp_ms ''2027-01-15T08:01:00Z'' = Inr 1800000060000"
  "credential_timestamp_ms ''2027-01-15T08:41:00Z'' = Inr 1800002460000"
  by code_simp+

lemma demo_same_fingerprint: "credential_health_fingerprint (demo_read a c) = credential_health_fingerprint (demo_read a c')"
  by (simp add: credential_health_fingerprint_def demo_read_def)

lemma demo_read_fields [simp]:
  "sn_connection (demo_read a c) = ''22222222-2222-4222-8222-222222222222''" "sn_checked (demo_read a c) = Some c"
  by (simp_all add: demo_read_def)

theorem lost_recovery_witness:
  "\<exists>db db1 db2. hstep\<^sup>*\<^sup>* empty_hdb db \<and> hstep db db1 \<and> hstep db1 db2 \<and>
     ic_id (incident_at db2 (''org'', ''w'', ''22222222-2222-4222-8222-222222222222'')) = Some ''i'' \<and> h_work db2 = h_work db \<and>
     (\<exists>fp. healthy_report (''org'', ''w'', ''22222222-2222-4222-8222-222222222222'') fp db1 db2)"
proof -
  let ?k = "(''org'', ''w'', ''22222222-2222-4222-8222-222222222222'')"
  let ?s1 = "demo_read ''VALID'' ''2027-01-15T08:01:00Z''" and ?s2 = "demo_read ''VALID'' ''2027-01-15T08:41:00Z''"
  from demo_opened obtain t db r where run: "process_credential_health_snapshots (\<lambda>_. ''n'') (\<lambda>_. ''i'') 1800000000000 (Some ''org'') ''w''
     (JList [demo_snapshot_of ''REAUTHORIZATION_REQUIRED'' ''2027-01-15T08:00:00Z'']) empty_hdb = (Inr t, db)"
    and i: "ic_id (incident_at db ?k) = Some ''i''"
    and r: "row_at db ?k = Some r" "hl_checked r = Some ''2027-01-15T08:00:00Z''" by auto
  obtain fp where fp: "credential_health_fingerprint ?s1 = Inr fp"
    using fingerprint_defined [OF snapshot_accepted [OF demo_snapshots(2)]] by blast
  have fp2: "credential_health_fingerprint ?s2 = Inr fp" using fp demo_same_fingerprint by metis
  let ?c1 = "checkpoint 1800002400000 ''org'' ''w'' ?s1 fp ''unknown'' (row_incident r)"
  let ?db1 = "db\<lparr>h_rows := put_row ?c1 (h_rows db)\<rparr>"
  have "\<exists>t. process_credential_health_snapshots (\<lambda>_. ''n'') (\<lambda>_. ''i'') 1800002400000 (Some ''org'') ''w''
      (JList [demo_snapshot_of ''VALID'' ''2027-01-15T08:01:00Z'']) db = (Inr t, ?db1) \<and> ty_stale t = 0"
    by (rule quiet_report_runs [OF demo_snapshots(2) demo_scope _ r(2) _ _ demo_times(1,2) _ demo_judged(2) fp]) (simp_all add: r(1))
  then obtain t1 where run1: "process_credential_health_snapshots (\<lambda>_. ''n'') (\<lambda>_. ''i'') 1800002400000 (Some ''org'') ''w''
      (JList [demo_snapshot_of ''VALID'' ''2027-01-15T08:01:00Z'']) db = (Inr t1, ?db1)" "ty_stale t1 = 0" by blast
  have r1: "row_at ?db1 ?k = Some ?c1" by (simp add: row_at_def find_put_row)
  let ?c2 = "checkpoint 1800002460000 ''org'' ''w'' ?s2 fp ''healthy'' (row_incident ?c1)"
  let ?db2 = "?db1\<lparr>h_rows := put_row ?c2 (h_rows ?db1)\<rparr>"
  have c1: "hl_checked ?c1 = Some ''2027-01-15T08:01:00Z''" "hl_fingerprint ?c1 = fp" by (simp_all add: checkpoint_def)
  have "\<exists>t. process_credential_health_snapshots (\<lambda>_. ''n'') (\<lambda>_. ''i'') 1800002460000 (Some ''org'') ''w''
      (JList [demo_snapshot_of ''VALID'' ''2027-01-15T08:41:00Z'']) ?db1 = (Inr t, ?db2) \<and> ty_stale t = 0"
    by (rule quiet_report_runs [OF demo_snapshots(3) demo_scope _ c1(1) _ _ demo_times(2,3) _ demo_judged(3) fp2])
      (simp_all add: r1 c1(2))
  then obtain t2 where run2: "process_credential_health_snapshots (\<lambda>_. ''n'') (\<lambda>_. ''i'') 1800002460000 (Some ''org'') ''w''
      (JList [demo_snapshot_of ''VALID'' ''2027-01-15T08:41:00Z'']) ?db1 = (Inr t2, ?db2)" by blast
  have rep: "healthy_report ?k fp ?db1 ?db2"
    unfolding healthy_report_def using run2 demo_snapshots(3) demo_scope fp2 demo_judged(3) demo_read_fields(1) by blast
  have "incident_at ?db2 ?k = incident_at db ?k \<and> h_work ?db2 = h_work db"
    using lost_recovery [OF run1(1) demo_snapshots(2) demo_scope _ demo_judged(2) run1(2) fp, of ?db2] i r_into_rtranclp [of "healthy_report ?k fp", OF rep]
    by simp
  moreover have "hstep empty_hdb db" "hstep db ?db1" "hstep ?db1 ?db2"
    by (rule monitor [OF run], simp, rule monitor [OF run1(1)], simp, rule monitor [OF run2], simp)
  ultimately show ?thesis using i rep r_into_rtranclp [of hstep] by metis
qed

end
