(* ===== verification/Work_List.thy ===== *)
theory Work_List
  imports Work_Operation
begin

text \<open>
  The two listings of the Work store that filter by actor in SQL: unresolved receipts
  (\<open>list_unresolved_operations\<close>) and the outbox (\<open>list_notifications\<close>). The lemmas say who sees the rows of a
  privately owned task; the last one shows that the second listing compares ids as they are written.
\<close>

section \<open>The visibility condition\<close>

text \<open>No private owner and no Teams origin of the task, or the actor's own.\<close>

definition provenance_agrees :: "wdb \<Rightarrow> task_key \<Rightarrow> string \<Rightarrow> bool" where
  "provenance_agrees db k actor \<longleftrightarrow>
     (case find_by po_key k (w_owners db) of None \<Rightarrow> True | Some p \<Rightarrow> sql_lower (po_actor p) = actor) \<and>
     (case find_by to_key k (w_origins db) of None \<Rightarrow> True | Some o' \<Rightarrow> sql_lower (to_actor o') = actor)"

definition created_by :: "wdb \<Rightarrow> task_key \<Rightarrow> string \<Rightarrow> bool" where
  "created_by db k actor = (case find_task db k of None \<Rightarrow> False | Some r \<Rightarrow> sql_lower (tk_creator r) = actor)"

section \<open>Unresolved receipts\<close>

definition operation_listed :: "wdb \<Rightarrow> string \<Rightarrow> bool \<Rightarrow> operation_row \<Rightarrow> bool" where
  "operation_listed db actor private_scope r \<longleftrightarrow>
     op_status r \<in> {''started'', ''uncertain''} \<and> (op_producer r = None \<or> private_scope) \<and>
     (case op_task r of
        None \<Rightarrow> \<not> private_scope
      | Some t \<Rightarrow> let k = (op_org r, op_ws r, t) in
          find_task db k \<noteq> None \<and>
          (if private_scope then created_by db k actor else provenance_agrees db k actor))"

definition unresolved_view :: "operation_row \<Rightarrow> json_object res" where
  "unresolved_view r = bindE (stored_object (op_evidence r)) (\<lambda>evidence.
     Inr [(''id'', JStr (op_id r)), (''operationType'', JStr (op_type r)), (''taskId'', jopt (op_task r)),
          (''target'', jopt (op_target r)), (''status'', JStr (op_status r)), (''trustedProducer'', jopt (op_producer r)),
          (''evidence'', JDict evidence), (''createdAt'', JInt (op_created_at r)), (''updatedAt'', JInt (op_updated_at r))])"

definition list_unresolved_operations ::
  "string option \<Rightarrow> string \<Rightarrow> json \<Rightarrow> json \<Rightarrow> int \<Rightarrow> string option \<Rightarrow> bool \<Rightarrow> wdb \<Rightarrow> json_object list res" where
  "list_unresolved_operations org ws target otype limit actor private_scope db =
    bindE (work_scope org ws) (\<lambda>(org, ws).
    bindE (optional_text target 2000) (\<lambda>target.
    bindE (optional_text otype 128) (\<lambda>otype.
      if \<not> (1 \<le> limit \<and> limit \<le> 500) then invalid ''WORK_OPERATION_INVALID_PAGE''
      else bindE (actor_of actor) (\<lambda>actor.
        mapE unresolved_view (take (nat limit) (order_by2 op_created_at op_id (filter (\<lambda>r.
          op_org r = org \<and> op_ws r = ws \<and> operation_listed db (case actor of None \<Rightarrow> [] | Some a \<Rightarrow> a) private_scope r \<and>
          (target = None \<or> op_target r = target) \<and> (otype = None \<or> Some (op_type r) = otype)) (w_operations db))))))))"

section \<open>The outbox\<close>

definition note_statuses :: "string option list" where
  "note_statuses = [None, Some ''queued'', Some ''leased'', Some ''started'', Some ''uncertain'', Some ''delivered'', Some ''failed'']"

definition note_listed :: "wdb \<Rightarrow> string \<Rightarrow> bool \<Rightarrow> note_row \<Rightarrow> bool" where
  "note_listed db actor private_scope n \<longleftrightarrow> nt_owner n = Some actor \<or>
     (nt_owner n = None \<and>
      (case nt_task n of
         None \<Rightarrow> \<not> private_scope
       | Some t \<Rightarrow> let k = (nt_org n, nt_ws n, t) in
           if private_scope then created_by db k actor else provenance_agrees db k actor))"

text \<open>Unlike the other operations on notifications this one does not lower-case the actor id.\<close>

definition list_notifications ::
  "string option \<Rightarrow> string \<Rightarrow> string option \<Rightarrow> int \<Rightarrow> string option \<Rightarrow> bool \<Rightarrow> wdb \<Rightarrow> json_object list res" where
  "list_notifications org ws status limit actor private_scope db =
    bindE (work_scope org ws) (\<lambda>(org, ws).
      if \<not> (1 \<le> limit \<and> limit \<le> 500) then invalid ''WORK_NOTIFICATION_INVALID_PAGE''
      else if status \<notin> set note_statuses then invalid ''WORK_NOTIFICATION_INVALID_STATUS''
      else bindE (case actor of None \<Rightarrow> Inr [] | Some a \<Rightarrow> work_identifier a) (\<lambda>actor.
        mapE notification_view (take (nat limit) (order_by (\<lambda>n. - nt_created_at n) (filter (\<lambda>n.
          nt_org n = org \<and> nt_ws n = ws \<and> (status = None \<or> Some (nt_status n) = status) \<and>
          note_listed db actor private_scope n) (w_notes db))))))"

section \<open>Who sees the rows of a private task\<close>

lemma sql_lower_idem [simp]: "sql_lower (sql_lower s) = sql_lower s"
  by (simp add: sql_lower_def sql_lower_char_def Let_def)

lemma provenance_lower: "provenance_agrees db k actor \<Longrightarrow> find_by po_key k (w_owners db) \<noteq> None \<Longrightarrow> sql_lower actor = actor"
  by (auto simp: provenance_agrees_def)

text \<open>A page is at most as long as asked for, and each of its items is the view of a row the condition admits.\<close>

lemma mapE_sound: "mapE f xs = Inr ys \<Longrightarrow> y \<in> set ys \<Longrightarrow> \<exists>x \<in> set xs. f x = Inr y"
  by (induction xs arbitrary: ys) (auto simp: resE)

theorem unresolved_listing:
  assumes "list_unresolved_operations org ws target otype limit actor private_scope db = Inr items"
  shows "int (length items) \<le> limit \<and> (\<forall>v \<in> set items. \<exists>r \<in> set (w_operations db). \<exists>ac. actor_of actor = Inr ac \<and>
    unresolved_view r = Inr v \<and> operation_listed db (case ac of None \<Rightarrow> [] | Some a \<Rightarrow> a) private_scope r)"
proof -
  from assms obtain o' w tv ov ac where l: "1 \<le> limit" and ac: "actor_of actor = Inr ac"
    and m: "mapE unresolved_view (take (nat limit) (order_by2 op_created_at op_id (filter (\<lambda>r.
          op_org r = o' \<and> op_ws r = w \<and> operation_listed db (case ac of None \<Rightarrow> [] | Some a \<Rightarrow> a) private_scope r \<and>
          (tv = None \<or> op_target r = tv) \<and> (ov = None \<or> Some (op_type r) = ov)) (w_operations db)))) = Inr items"
    unfolding list_unresolved_operations_def by (auto simp: resE split: if_splits)
  from mapE_length [OF m] l have "int (length items) \<le> limit" by simp
  moreover have "\<exists>r \<in> set (w_operations db). unresolved_view r = Inr v \<and>
      operation_listed db (case ac of None \<Rightarrow> [] | Some a \<Rightarrow> a) private_scope r" if "v \<in> set items" for v
    using mapE_sound [OF m that] by (auto simp: order_by2_def dest!: in_set_takeD)
  ultimately show ?thesis using ac by blast
qed

text \<open>
  The notices about a privately owned task are listed only for an actor id that is spelled in lower case already,
  while the owner of the task may be configured in any spelling: the other operations on notifications lower-case it first.
\<close>

theorem mixed_case_owner_sees_nothing:
  assumes "list_notifications org ws status limit (Some actor) False db = Inr items" and "sql_lower actor \<noteq> actor" and "v \<in> set items"
  shows "\<exists>n \<in> set (w_notes db). notification_view n = Inr v \<and>
    (nt_owner n = Some actor \<or> nt_task n = None \<or>
      (\<exists>t. nt_task n = Some t \<and> find_by po_key (nt_org n, nt_ws n, t) (w_owners db) = None))"
proof -
  from assms(1) obtain o' w where
    m: "mapE notification_view (take (nat limit) (order_by (\<lambda>n. - nt_created_at n) (filter (\<lambda>n.
          nt_org n = o' \<and> nt_ws n = w \<and> (status = None \<or> Some (nt_status n) = status) \<and>
          note_listed db actor False n) (w_notes db)))) = Inr items"
    unfolding list_notifications_def by (auto simp: resE split: if_splits)
  from mapE_sound [OF m assms(3)] obtain n where "n \<in> set (w_notes db)" "note_listed db actor False n" "notification_view n = Inr v"
    by (auto simp: order_by_def dest!: in_set_takeD)
  with assms(2) show ?thesis
    by (intro bexI [of _ n]) (auto simp: note_listed_def Let_def dest: provenance_lower split: option.splits)
qed

end
