(* ===== verification/Install_Store.thy ===== *)
theory Install_Store
  imports Work_Outbox Health_Time
begin

text \<open>
  Private Teams installations of \<open>work/store.py\<close>: \<open>apply_private_installation\<close> binds or revokes the private route of one
  owner from a verified activity. Activities carry their own time and may arrive late, twice or out of order; the
  row remembers the latest time it has seen, and a log of activities with bounded retention answers retries. The
  tables here have all columns of the schema; \<open>route_rows\<close> is the part the outbox reads.
\<close>

section \<open>Tables\<close>

record install_row = installation_row +
  ir_revision :: int
  ir_updated :: int
  ir_activity :: string
  ir_digest :: string
  ir_occurred :: "int option"

record install_event =
  ie_org :: string
  ie_ws :: string
  ie_tenant :: string
  ie_actor :: string
  ie_bot :: string
  ie_activity :: string
  ie_occurred :: int
  ie_action :: string
  ie_digest :: string
  ie_receipt :: string
  ie_created :: int

record idb =
  i_rows :: "install_row list"
  i_events :: "install_event list"

type_synonym install_key = "string \<times> string \<times> string \<times> string \<times> string"

definition ir_key :: "install_row \<Rightarrow> install_key" where
  "ir_key r = (pi_org r, pi_ws r, pi_tenant r, pi_actor r, pi_bot r)"

definition ie_install :: "install_event \<Rightarrow> install_key" where
  "ie_install e = (ie_org e, ie_ws e, ie_tenant e, ie_actor e, ie_bot e)"

definition ie_key :: "install_event \<Rightarrow> install_key \<times> string" where
  "ie_key e = (ie_install e, ie_activity e)"

definition route_rows :: "idb \<Rightarrow> installation_row list" where
  "route_rows db = map installation_row.truncate (i_rows db)"

definition RETENTION_MS :: int where
  "RETENTION_MS = 90 * 24 * 60 * 60 * 1000"

definition MAX_EVENTS :: nat where
  "MAX_EVENTS = 10000"

section \<open>A verified activity\<close>

record activity =
  av_tenant :: string
  av_actor :: string
  av_bot :: string
  av_conversation :: string
  av_id :: string
  av_occurred :: int
  av_service_url :: string
  av_action :: string

abbreviation bad_install :: "'a res" where
  "bad_install \<equiv> invalid ''WORK_TEAMS_PRIVATE_INSTALLATION_INVALID''"

text \<open>The pattern allows at most six digits after the point, so at most 27 characters.\<close>

definition private_installation_activity_timestamp_ms :: "json \<Rightarrow> int \<Rightarrow> int res" where
  "private_installation_activity_timestamp_ms v now =
    bindE (bounded_text v 64 False) (\<lambda>s.
      if \<not> (is_utc_time s \<and> length s \<le> 27) then bad_install
      else case from_isoformat s of
        None \<Rightarrow> bad_install
      | Some us \<Rightarrow> let ms = micros_to_ms us in
          if ms < 0 \<or> ms > now + 5 * 60 * 1000 then bad_install else Inr ms)"

definition trust_fields :: "string list" where
  "trust_fields = [''tenantId'', ''actorAadObjectId'', ''botAppId'', ''conversationId'', ''activityId'', ''activityOccurredAt'',
     ''serviceUrl'', ''installationAction'']"

definition verified_activity :: "int \<Rightarrow> string \<Rightarrow> json_object \<Rightarrow> activity res" where
  "verified_activity now action trust =
    (if action \<notin> {''add'', ''remove''} \<or> dget trust ''installationAction'' \<noteq> JStr action then bad_install
     else if \<not> keys_are trust trust_fields then bad_install
     else
       bindE (canonical_uuid (dget trust ''tenantId'')) (\<lambda>tenant.
       bindE (canonical_uuid (dget trust ''actorAadObjectId'')) (\<lambda>actor.
       bindE (canonical_uuid (dget trust ''botAppId'')) (\<lambda>bot_app.
       bindE (work_identifier_of (dget trust ''conversationId'')) (\<lambda>conversation.
       bindE (work_identifier_of (dget trust ''activityId'')) (\<lambda>aid.
       bindE (teams_service_url (dget trust ''serviceUrl'') tenant) (\<lambda>url.
       bindE (private_installation_activity_timestamp_ms (dget trust ''activityOccurredAt'') now) (\<lambda>occurred.
         Inr \<lparr>av_tenant = tenant, av_actor = actor, av_bot = bot_app, av_conversation = conversation, av_id = aid,
              av_occurred = occurred, av_service_url = url, av_action = action\<rparr>))))))))"

definition activity_digest :: "activity \<Rightarrow> string res" where
  "activity_digest a = work_digest (JDict
    [(''action'', JStr (av_action a)),
     (''trust'', JDict
        [(''tenantId'', JStr (av_tenant a)), (''actorAadObjectId'', JStr (av_actor a)), (''botAppId'', JStr (av_bot a)),
         (''conversationId'', JStr (av_conversation a)), (''activityId'', JStr (av_id a)),
         (''activityOccurredAt'', JInt (av_occurred a)), (''serviceUrl'', JStr (av_service_url a)),
         (''installationAction'', JStr (av_action a))])])"

definition av_install :: "string \<Rightarrow> string \<Rightarrow> activity \<Rightarrow> install_key" where
  "av_install org ws a = (org, ws, av_tenant a, av_actor a, av_bot a)"

section \<open>The log of activities\<close>

fun drop_first :: "nat \<Rightarrow> ('a \<Rightarrow> bool) \<Rightarrow> 'a list \<Rightarrow> 'a list" where
  "drop_first n P [] = []"
| "drop_first n P (x # xs) = (if n = 0 then x # xs
     else if P x then drop_first (n - 1) P xs else x # drop_first n P xs)"

text \<open>The two deletions after an insert: what is too old, and all but the newest rows of the workspace.\<close>

definition retain :: "string \<Rightarrow> string \<Rightarrow> int \<Rightarrow> install_event list \<Rightarrow> install_event list" where
  "retain org ws now es =
    (let scope = (\<lambda>e. ie_org e = org \<and> ie_ws e = ws);
         young = filter (\<lambda>e. \<not> (scope e \<and> ie_created e < now - RETENTION_MS)) es
     in drop_first (length (filter scope young) - MAX_EVENTS) scope young)"

definition event_of :: "int \<Rightarrow> string \<Rightarrow> string \<Rightarrow> activity \<Rightarrow> string \<Rightarrow> string \<Rightarrow> install_event" where
  "event_of now org ws a digest receipt = \<lparr>ie_org = org, ie_ws = ws, ie_tenant = av_tenant a, ie_actor = av_actor a,
     ie_bot = av_bot a, ie_activity = av_id a, ie_occurred = av_occurred a, ie_action = av_action a, ie_digest = digest,
     ie_receipt = receipt, ie_created = now\<rparr>"

definition persist_event :: "int \<Rightarrow> string \<Rightarrow> string \<Rightarrow> activity \<Rightarrow> string \<Rightarrow> json_object \<Rightarrow> idb \<Rightarrow> idb res" where
  "persist_event now org ws a digest receipt db =
    bindE (work_json_text (JDict receipt)) (\<lambda>text.
    bindE (insert_by ie_key (event_of now org ws a digest text) (i_events db)) (\<lambda>es.
      Inr (db\<lparr>i_events := retain org ws now es\<rparr>)))"

section \<open>Applying an activity\<close>

definition receipt_of :: "string \<Rightarrow> bool \<Rightarrow> bool \<Rightarrow> int \<Rightarrow> int \<Rightarrow> json_object" where
  "receipt_of action active applied revision updated = [(''action'', JStr action), (''active'', JBool active),
     (''applied'', JBool applied), (''revision'', JInt revision), (''updatedAt'', JInt updated)]"

text \<open>
  A row without a time was migrated: only a removal may start its history. Otherwise an older activity is ignored, and
  of two with the same time the removal wins.
\<close>

definition ignores :: "activity \<Rightarrow> install_row \<Rightarrow> bool" where
  "ignores a r = (case ir_occurred r of
     None \<Rightarrow> av_action a = ''add''
   | Some t \<Rightarrow> av_occurred a < t \<or> (av_occurred a = t \<and> (av_action a = ''add'' \<or> pi_active r = 0)))"

definition applied_row :: "int \<Rightarrow> string \<Rightarrow> string \<Rightarrow> activity \<Rightarrow> string \<Rightarrow> install_row option \<Rightarrow> install_row" where
  "applied_row now org ws a digest current =
    (let kept = (if av_action a = ''remove'' then current else None) in
     \<lparr>pi_org = org, pi_ws = ws, pi_tenant = av_tenant a, pi_actor = av_actor a, pi_bot = av_bot a,
      pi_conversation = (case kept of None \<Rightarrow> av_conversation a | Some r \<Rightarrow> pi_conversation r),
      pi_service_url = (case kept of None \<Rightarrow> av_service_url a | Some r \<Rightarrow> pi_service_url r),
      pi_active = (if av_action a = ''add'' then 1 else 0),
      ir_revision = (case current of None \<Rightarrow> 1 | Some r \<Rightarrow> ir_revision r + 1), ir_updated = now, ir_activity = av_id a,
      ir_digest = digest, ir_occurred = Some (av_occurred a)\<rparr>)"

definition put_install :: "install_row \<Rightarrow> install_row list \<Rightarrow> install_row list" where
  "put_install r t = (if find_by ir_key (ir_key r) t = None then t @ [r] else edit_by ir_key (ir_key r) (\<lambda>_. r) t)"

definition apply_activity :: "int \<Rightarrow> string \<Rightarrow> string \<Rightarrow> activity \<Rightarrow> string \<Rightarrow> idb \<Rightarrow> ((json_object \<times> bool) \<times> idb) res" where
  "apply_activity now org ws a digest db =
    (case find_by ie_key (av_install org ws a, av_id a) (i_events db) of
       Some e \<Rightarrow>
         if ie_digest e \<noteq> digest then conflict ''WORK_TEAMS_PRIVATE_INSTALLATION_EVENT_CONFLICT''
         else bindE (stored_object (ie_receipt e)) (\<lambda>receipt. Inr ((receipt, True), db))
     | None \<Rightarrow>
         let current = find_by ir_key (av_install org ws a) (i_rows db) in
         (case current of
            Some r \<Rightarrow>
              if ignores a r then
                let receipt = receipt_of (av_action a) (pi_active r \<noteq> 0) False (ir_revision r) (ir_updated r) in
                bindE (persist_event now org ws a digest receipt db) (\<lambda>db'. Inr ((receipt, False), db'))
              else if ir_revision r + 1 > 2 ^ 53 - 1
                then conflict ''WORK_TEAMS_PRIVATE_INSTALLATION_REVISION_EXHAUSTED''
              else
                let row = applied_row now org ws a digest current;
                    receipt = receipt_of (av_action a) (av_action a = ''add'') True (ir_revision row) now in
                bindE (persist_event now org ws a digest receipt (db\<lparr>i_rows := put_install row (i_rows db)\<rparr>))
                  (\<lambda>db'. Inr ((receipt, False), db'))
          | None \<Rightarrow>
              let row = applied_row now org ws a digest current;
                  receipt = receipt_of (av_action a) (av_action a = ''add'') True (ir_revision row) now in
              bindE (persist_event now org ws a digest receipt (db\<lparr>i_rows := put_install row (i_rows db)\<rparr>))
                (\<lambda>db'. Inr ((receipt, False), db'))))"

definition apply_private_installation ::
  "int \<Rightarrow> string option \<Rightarrow> string \<Rightarrow> string \<Rightarrow> json_object \<Rightarrow> idb \<Rightarrow> (json_object \<times> bool) res \<times> idb" where
  "apply_private_installation now org ws action trust db = commit db (
    bindE (work_scope org ws) (\<lambda>(org, ws).
    bindE (verified_activity now action trust) (\<lambda>a.
    bindE (activity_digest a) (\<lambda>digest. apply_activity now org ws a digest db))))"

end
