(* ===== verification/Registers.thy ===== *)
theory Registers
  imports Systems "HOL-Library.Product_Lexorder"
begin

text \<open>
  Stores whose keys behave as maximum registers: each accepted event of a key replaces the value of the key when it is
  larger, and calls that accept nothing leave all keys alone. \<open>locale max_registers\<close> is what such a store promises;
  inside it the value of a key after any run is the maximum of what it held and of the events accepted for it,
  so runs that accept the same events in any order and any number agree.
\<close>

text \<open>A run with the labels of the calls that accepted an event.\<close>

inductive run_of :: "('s \<Rightarrow> 'l option \<Rightarrow> 's \<Rightarrow> bool) \<Rightarrow> 's \<Rightarrow> 'l list \<Rightarrow> 's \<Rightarrow> bool" for step where
  run_nil: "run_of step s [] s"
| run_some: "run_of step s h s' \<Longrightarrow> step s' (Some l) s'' \<Longrightarrow> run_of step s (h @ [l]) s''"
| run_none: "run_of step s h s' \<Longrightarrow> step s' None s'' \<Longrightarrow> run_of step s h s''"

definition join_max :: "'e::linorder option \<Rightarrow> 'e \<Rightarrow> 'e" where
  "join_max x e = (case x of None \<Rightarrow> e | Some y \<Rightarrow> max y e)"

definition accepted_for :: "('k \<times> 'e) list \<Rightarrow> 'k \<Rightarrow> 'e set" where
  "accepted_for h k = {e. (k, e) \<in> set h}"

definition joined :: "'e::linorder option \<Rightarrow> 'e set \<Rightarrow> 'e option" where
  "joined x E = (if set_option x \<union> E = {} then None else Some (Max (set_option x \<union> E)))"

lemma finite_accepted [simp]: "finite (accepted_for h k)"
proof -
  have "accepted_for h k \<subseteq> snd ` set h" by (force simp: accepted_for_def)
  then show ?thesis by (rule finite_subset) simp
qed

lemma accepted_snoc: "accepted_for (h @ [(k', e)]) k = (if k = k' then insert e (accepted_for h k) else accepted_for h k)"
  by (auto simp: accepted_for_def)

lemma accepted_set: "set h = set h' \<Longrightarrow> accepted_for h = accepted_for h'"
  by (simp add: accepted_for_def fun_eq_iff)

lemma joined_empty [simp]: "joined x {} = x"
  by (cases x) (simp_all add: joined_def)

lemma joined_insert:
  assumes "finite E"
  shows "joined x (insert e E) = Some (join_max (joined x E) e)"
proof (cases "set_option x \<union> E = {}")
  case True
  then show ?thesis by (simp add: joined_def join_max_def)
next
  case False
  with assms have "Max (insert e (set_option x \<union> E)) = max e (Max (set_option x \<union> E))" by (intro Max_insert) auto
  with False show ?thesis unfolding joined_def join_max_def by (auto simp: max.commute)
qed

locale max_registers =
  fixes step :: "'s \<Rightarrow> ('k \<times> 'e::linorder) option \<Rightarrow> 's \<Rightarrow> bool"
    and inv :: "'s \<Rightarrow> bool"
    and reg :: "'s \<Rightarrow> 'k \<Rightarrow> 'e option"
  assumes keeps_inv: "step s l s' \<Longrightarrow> inv s \<Longrightarrow> inv s'"
    and nothing_accepted: "step s None s' \<Longrightarrow> inv s \<Longrightarrow> reg s' k = reg s k"
    and accepted_here: "step s (Some (k, e)) s' \<Longrightarrow> inv s \<Longrightarrow> reg s' k = Some (join_max (reg s k) e)"
    and accepted_elsewhere: "step s (Some (k', e)) s' \<Longrightarrow> inv s \<Longrightarrow> k \<noteq> k' \<Longrightarrow> reg s' k = reg s k"
begin

lemma labelled_inv: "run_of step s h s' \<Longrightarrow> inv s \<Longrightarrow> inv s'"
  by (induction rule: run_of.induct) (auto intro: keeps_inv)

lemma labelled_reg: "run_of step s h s' \<Longrightarrow> inv s \<Longrightarrow> reg s' k = joined (reg s k) (accepted_for h k)"
proof (induction rule: run_of.induct)
  case run_nil
  then show ?case by (simp add: accepted_for_def)
next
  case (run_some s h s' l s'')
  obtain k' e where l: "l = (k', e)" by (cases l)
  have "inv s'" using labelled_inv run_some by blast
  with run_some l show ?case
    by (cases "k = k'") (simp_all add: accepted_snoc joined_insert accepted_here accepted_elsewhere)
next
  case (run_none s h s' s'')
  then have "inv s'" using labelled_inv by blast
  with run_none nothing_accepted show ?case by simp
qed

text \<open>Convergence: the order and the number of arrivals do not matter.\<close>

lemma converge:
  assumes "run_of step s h1 s1" and "run_of step s h2 s2" and "set h1 = set h2" and "inv s"
  shows "reg s1 = reg s2"
  using labelled_reg [OF assms(1,4)] labelled_reg [OF assms(2,4)] accepted_set [OF assms(3)] by (simp add: fun_eq_iff)

end

end
