(* ===== verification/Install_Inv.thy ===== *)
theory Install_Inv
  imports Install_Store Registers Work_Inv
begin

text \<open>
  The invariant of private installations and their meaning: for each owner the row is a maximum register over the
  activities that were accepted, ordered by time and, at equal times, with removals last. The theory ends with the
  interpretation of \<open>max_registers\<close> on \<open>apply_private_installation\<close>.
\<close>

section \<open>The invariant\<close>

definition install_ok :: "install_row \<Rightarrow> bool" where
  "install_ok r \<longleftrightarrow> ir_occurred r \<noteq> None \<and> pi_active r \<in> {0, 1} \<and> 1 \<le> ir_revision r \<and> ir_revision r \<le> 2 ^ 53 - 1"

definition iinv :: "idb \<Rightarrow> bool" where
  "iinv db \<longleftrightarrow> keyed ir_key (i_rows db) \<and> keyed ie_key (i_events db) \<and> (\<forall>r \<in> set (i_rows db). install_ok r)"

definition empty_idb :: idb where
  "empty_idb = \<lparr>i_rows = [], i_events = []\<rparr>"

lemma iinv_empty: "iinv empty_idb"
  by (simp add: iinv_def empty_idb_def keyed_def)

definition install_at :: "idb \<Rightarrow> install_key \<Rightarrow> install_row option" where
  "install_at db k = find_by ir_key k (i_rows db)"

text \<open>The time of the last activity and whether the route is revoked.\<close>

definition status_at :: "idb \<Rightarrow> install_key \<Rightarrow> (int \<times> bool) option" where
  "status_at db k = (case install_at db k of None \<Rightarrow> None
     | Some r \<Rightarrow> map_option (\<lambda>t. (t, pi_active r = 0)) (ir_occurred r))"

definition activity_mark :: "activity \<Rightarrow> int \<times> bool" where
  "activity_mark a = (av_occurred a, av_action a = ''remove'')"

section \<open>The log\<close>

lemma set_drop_first: "set (drop_first n P xs) \<subseteq> set xs"
  by (induction n P xs rule: drop_first.induct) auto

lemma distinct_drop_first: "distinct (map f xs) \<Longrightarrow> distinct (map f (drop_first n P xs))"
  by (induction n P xs rule: drop_first.induct) (auto dest!: set_drop_first [THEN subsetD])

lemma count_drop_first: "length (filter P (drop_first n P xs)) = length (filter P xs) - n"
  by (induction n P xs rule: drop_first.induct) auto

lemma keyed_retain: "keyed ie_key es \<Longrightarrow> keyed ie_key (retain org ws now es)"
  unfolding keyed_def retain_def Let_def by (intro distinct_drop_first distinct_map_filter)

lemma retain_bounded: "length (filter (\<lambda>e. ie_org e = org \<and> ie_ws e = ws) (retain org ws now es)) \<le> MAX_EVENTS"
  by (simp add: retain_def Let_def count_drop_first)

lemma persist_event_Inr:
  assumes "persist_event now org ws a digest receipt db = Inr db'"
  shows "i_rows db' = i_rows db \<and> (keyed ie_key (i_events db) \<longrightarrow> keyed ie_key (i_events db'))"
  using assms by (auto simp: persist_event_def resE keyed_retain keyed_snoc)

section \<open>One activity\<close>

lemma find_put_install: "find_by ir_key k (put_install r t) = (if k = ir_key r then Some r else find_by ir_key k t)"
  by (auto simp: put_install_def find_by_snoc find_edit_const)

lemma set_put_install: "x \<in> set (put_install r t) \<Longrightarrow> x = r \<or> x \<in> set t"
  by (auto simp: put_install_def in_edit_by split: if_splits)

lemma keyed_put_install: "keyed ir_key t \<Longrightarrow> keyed ir_key (put_install r t)"
  by (auto simp: put_install_def keyed_snoc keyed_edit_const)

lemma applied_row_key [simp]: "ir_key (applied_row now org ws a digest current) = av_install org ws a"
  by (simp add: applied_row_def ir_key_def av_install_def Let_def)

text \<open>A new activity is recorded in the log; it changes at most its own row.\<close>

lemma apply_activity_cases:
  assumes "apply_activity now org ws a digest db = Inr ((receipt, dup), db')"
  obtains (replay) "dup" "db' = db"
  | (older) r where "\<not> dup" "install_at db (av_install org ws a) = Some r" "ignores a r" "i_rows db' = i_rows db"
      "keyed ie_key (i_events db) \<longrightarrow> keyed ie_key (i_events db')"
  | (new) current where "\<not> dup" "install_at db (av_install org ws a) = current"
      "case current of None \<Rightarrow> True | Some r \<Rightarrow> \<not> ignores a r \<and> ir_revision r + 1 \<le> 2 ^ 53 - 1"
      "i_rows db' = put_install (applied_row now org ws a digest current) (i_rows db)"
      "keyed ie_key (i_events db) \<longrightarrow> keyed ie_key (i_events db')"
proof (cases "find_by ie_key (av_install org ws a, av_id a) (i_events db)")
  case (Some e)
  with assms have "dup" "db' = db" by (auto simp: apply_activity_def resE split: if_splits)
  then show thesis by (rule replay)
next
  case fresh: None
  show thesis
  proof (cases "\<exists>r. install_at db (av_install org ws a) = Some r \<and> ignores a r")
    case True
    then obtain r where r: "install_at db (av_install org ws a) = Some r" "ignores a r" by blast
    with assms fresh have "\<not> dup" "i_rows db' = i_rows db" "keyed ie_key (i_events db) \<longrightarrow> keyed ie_key (i_events db')"
      by (auto simp: apply_activity_def install_at_def resE Let_def dest!: persist_event_Inr)
    with r show thesis by (intro older)
  next
    case False
    define row where "row = applied_row now org ws a digest (install_at db (av_install org ws a))"
    from assms fresh False obtain receipt' where
      p: "persist_event now org ws a digest receipt' (db\<lparr>i_rows := put_install row (i_rows db)\<rparr>) = Inr db'" and "\<not> dup"
      and "case install_at db (av_install org ws a) of None \<Rightarrow> True | Some r \<Rightarrow> \<not> ignores a r \<and> ir_revision r + 1 \<le> 2 ^ 53 - 1"
      unfolding apply_activity_def install_at_def row_def
      by (cases "find_by ir_key (av_install org ws a) (i_rows db)") (auto simp: resE Let_def split: if_splits)
    with persist_event_Inr [OF p] show thesis unfolding row_def by (intro new) auto
  qed
qed

lemma apply_activity_inv:
  assumes "apply_activity now org ws a digest db = Inr ((receipt, dup), db')" and "iinv db"
  shows "iinv db'"
  using assms(1)
proof (cases rule: apply_activity_cases)
  case replay
  with assms show ?thesis by simp
next
  case older
  with assms show ?thesis by (simp add: iinv_def)
next
  case (new current)
  have "install_ok (applied_row now org ws a digest current)"
  proof (cases current)
    case None
    then show ?thesis by (simp add: install_ok_def applied_row_def Let_def)
  next
    case (Some r)
    with new(2) have "r \<in> set (i_rows db)" by (auto simp: install_at_def dest: find_by_SomeD)
    with assms(2) new(3) Some show ?thesis by (auto simp: iinv_def install_ok_def applied_row_def Let_def)
  qed
  with new assms(2) show ?thesis by (auto simp: iinv_def keyed_put_install dest: set_put_install)
qed

text \<open>The row becomes the larger of its status and the activity.\<close>

lemma ignored_join:
  assumes "install_ok r" and "ignores a r" and "av_action a \<in> {''add'', ''remove''}"
  shows "join_max (map_option (\<lambda>t. (t, pi_active r = 0)) (ir_occurred r)) (activity_mark a) =
    the (map_option (\<lambda>t. (t, pi_active r = 0)) (ir_occurred r))"
  using assms by (auto simp: install_ok_def ignores_def join_max_def activity_mark_def max_def)

lemma applied_join:
  assumes "install_ok r" and "\<not> ignores a r" and "av_action a \<in> {''add'', ''remove''}"
  shows "join_max (map_option (\<lambda>t. (t, pi_active r = 0)) (ir_occurred r)) (activity_mark a) = activity_mark a"
  using assms by (auto simp: install_ok_def ignores_def join_max_def activity_mark_def max_def)

lemma apply_activity_status:
  assumes run: "apply_activity now org ws a digest db = Inr ((receipt, False), db')" and inv: "iinv db"
    and act: "av_action a \<in> {''add'', ''remove''}"
  shows "status_at db' k = (if k = av_install org ws a
    then Some (join_max (status_at db k) (activity_mark a)) else status_at db k)"
  using run
proof (cases rule: apply_activity_cases)
  case (older r)
  then have "install_ok r" using inv by (auto simp: iinv_def install_at_def dest: find_by_SomeD)
  with ignored_join [OF this older(3) act] older show ?thesis
    by (auto simp: status_at_def install_at_def install_ok_def)
next
  case (new current)
  have join: "join_max (status_at db (av_install org ws a)) (activity_mark a) = activity_mark a"
  proof (cases current)
    case None
    with new show ?thesis by (simp add: status_at_def join_max_def)
  next
    case (Some r)
    with new have "install_ok r" using inv by (auto simp: iinv_def install_at_def dest: find_by_SomeD)
    with applied_join [OF this _ act] new Some show ?thesis by (simp add: status_at_def)
  qed
  have "status_at db' k = (if k = av_install org ws a then Some (activity_mark a) else status_at db k)"
    using new(4) act by (auto simp: status_at_def install_at_def find_put_install) (auto simp: applied_row_def activity_mark_def Let_def)
  with join show ?thesis by simp
qed simp

section \<open>Calls\<close>

lemma verified_action: "verified_activity now action trust = Inr a \<Longrightarrow> av_action a = action \<and> action \<in> {''add'', ''remove''}"
  by (auto simp: verified_activity_def resE split: if_splits)

text \<open>
  A call: it accepts an activity for an installation, or it accepts nothing (a retry or a refusal).
\<close>

definition istep :: "idb \<Rightarrow> (install_key \<times> int \<times> bool) option \<Rightarrow> idb \<Rightarrow> bool" where
  "istep db l db' \<longleftrightarrow> (\<exists>now org ws action trust r. apply_private_installation now org ws action trust db = (r, db') \<and>
     (case l of
        None \<Rightarrow> \<forall>receipt. r \<noteq> Inr (receipt, False)
      | Some (k, e) \<Rightarrow> (\<exists>receipt o' w a. r = Inr (receipt, False) \<and> work_scope org ws = Inr (o', w) \<and>
          verified_activity now action trust = Inr a \<and> k = av_install o' w a \<and> e = activity_mark a)))"

lemma apply_Inr:
  assumes "apply_private_installation now org ws action trust db = (Inr v, db')"
  obtains o' w a digest where "work_scope org ws = Inr (o', w)" "verified_activity now action trust = Inr a"
    "activity_digest a = Inr digest" "apply_activity now o' w a digest db = Inr (v, db')"
  using assms by (auto simp: apply_private_installation_def resE)

lemma apply_Inl: "apply_private_installation now org ws action trust db = (Inl e, db') \<Longrightarrow> db' = db"
  by (auto simp: apply_private_installation_def resE)

lemma apply_inv:
  assumes "apply_private_installation now org ws action trust db = (r, db')" and "iinv db"
  shows "iinv db'"
proof (cases r)
  case (Inl e)
  with assms apply_Inl show ?thesis by blast
next
  case (Inr v)
  with assms(1) have "apply_private_installation now org ws action trust db = (Inr (fst v, snd v), db')" by simp
  then show ?thesis by (rule apply_Inr) (use apply_activity_inv assms(2) in blast)
qed

lemma apply_quiet:
  assumes "apply_private_installation now org ws action trust db = (r, db')" and "\<forall>receipt. r \<noteq> Inr (receipt, False)"
  shows "db' = db"
proof (cases r)
  case (Inl e)
  with assms apply_Inl show ?thesis by blast
next
  case (Inr v)
  with assms have run: "apply_private_installation now org ws action trust db = (Inr (fst v, True), db')" by (cases v) auto
  then show ?thesis by (rule apply_Inr) (erule apply_activity_cases; simp)
qed

lemma istep_some:
  assumes "istep db (Some (k, e)) db'" and "iinv db"
  shows "status_at db' k' = (if k' = k then Some (join_max (status_at db k') e) else status_at db k')"
proof -
  from assms(1) obtain now org ws action trust receipt o' w a where
    run: "apply_private_installation now org ws action trust db = (Inr (receipt, False), db')"
    and s: "work_scope org ws = Inr (o', w)" "verified_activity now action trust = Inr a"
    and ke: "k = av_install o' w a" "e = activity_mark a"
    by (auto simp: istep_def)
  from run s obtain digest where "apply_activity now o' w a digest db = Inr ((receipt, False), db')"
    by (auto elim!: apply_Inr)
  from apply_activity_status [OF this assms(2)] verified_action [OF s(2)] ke show ?thesis by simp
qed

interpretation inst: max_registers istep iinv status_at
proof unfold_locales
  fix s l s' assume "istep s l s'" "iinv s"
  then show "iinv s'" unfolding istep_def using apply_inv by blast
next
  fix s s' k assume "istep s None s'" "iinv s"
  then show "status_at s' k = status_at s k" unfolding istep_def using apply_quiet by fastforce
next
  fix s k e s' assume "istep s (Some (k, e)) s'" "iinv s"
  then show "status_at s' k = Some (join_max (status_at s k) e)" by (simp add: istep_some)
next
  fix s k' e s' k assume "istep s (Some (k', e)) s'" "iinv s" "k \<noteq> k'"
  then show "status_at s' k = status_at s k" by (simp add: istep_some)
qed

end
