(* ===== verification/Install_Props.thy ===== *)
theory Install_Props
  imports Install_Inv Health_Inv Work_Demo
begin

text \<open>
  The properties of private installations: whatever the order in which activities arrive, an owner's route is open
  exactly when the latest activity opened it, and a revoked route is closed for every delivery of the outbox.
\<close>

definition installed :: "idb \<Rightarrow> install_key \<Rightarrow> bool" where
  "installed db k \<longleftrightarrow> (\<exists>r. install_at db k = Some r \<and> pi_active r \<noteq> 0)"

lemma installed_status:
  assumes "iinv db"
  shows "installed db k \<longleftrightarrow> (\<exists>t. status_at db k = Some (t, False))"
proof (cases "install_at db k")
  case None
  then show ?thesis by (simp add: installed_def status_at_def)
next
  case (Some r)
  with assms have "ir_occurred r \<noteq> None" by (auto simp: iinv_def install_ok_def install_at_def dest: find_by_SomeD)
  with Some show ?thesis by (auto simp: installed_def status_at_def)
qed

lemma Max_open:
  fixes E :: "(int \<times> bool) set"
  assumes "finite E" and "E \<noteq> {}"
  shows "Max E = (t, False) \<longleftrightarrow> (t, False) \<in> E \<and> (\<forall>(t', removed) \<in> E. t' < t \<or> (t' = t \<and> \<not> removed))"
proof -
  have "Max E = (t, False) \<longleftrightarrow> (t, False) \<in> E \<and> (\<forall>x \<in> E. x \<le> (t, False))"
    using assms Max_eqI Max_in Max_ge by metis
  moreover have "x \<le> (t, False) \<longleftrightarrow> (case x of (t', removed) \<Rightarrow> t' < t \<or> (t' = t \<and> \<not> removed))" for x :: "int \<times> bool"
    by (cases x) (auto simp: less_eq_prod_def)
  ultimately show ?thesis by simp
qed

lemma run_status: "run_of istep empty_idb h db \<Longrightarrow> status_at db k = joined None (accepted_for h k)"
  using inst.labelled_reg [OF _ iinv_empty] by (simp add: status_at_def install_at_def empty_idb_def)

lemma run_installed:
  assumes "run_of istep empty_idb h db"
  shows "installed db k \<longleftrightarrow> (\<exists>t. (k, t, False) \<in> set h \<and>
    (\<forall>t' removed. (k, t', removed) \<in> set h \<longrightarrow> t' < t \<or> (t' = t \<and> \<not> removed)))"
proof -
  have "installed db k \<longleftrightarrow> (\<exists>t. joined None (accepted_for h k) = Some (t, False))"
    using installed_status [OF inst.labelled_inv [OF assms iinv_empty]] run_status [OF assms] by simp
  also have "\<dots> \<longleftrightarrow> (\<exists>t. (t, False) \<in> accepted_for h k \<and>
      (\<forall>(t', removed) \<in> accepted_for h k. t' < t \<or> (t' = t \<and> \<not> removed)))"
    by (cases "accepted_for h k = {}") (auto simp: joined_def Max_open)
  finally show ?thesis by (auto simp: accepted_for_def)
qed

section \<open>A run\<close>

definition demo_trust :: "string \<Rightarrow> string \<Rightarrow> json_object" where
  "demo_trust action aid =
    [(''tenantId'', JStr ''00000000-0000-0000-0000-00000000000a''),
     (''actorAadObjectId'', JStr ''00000000-0000-0000-0000-00000000000b''),
     (''botAppId'', JStr ''00000000-0000-0000-0000-00000000000c''), (''conversationId'', JStr ''c''), (''activityId'', JStr aid),
     (''activityOccurredAt'', JStr ''2027-01-15T08:00:00Z''), (''serviceUrl'', JStr []), (''installationAction'', JStr action)]"

definition demo_activity :: "string \<Rightarrow> string \<Rightarrow> activity" where
  "demo_activity action aid = \<lparr>av_tenant = ''00000000-0000-0000-0000-00000000000a'',
     av_actor = ''00000000-0000-0000-0000-00000000000b'', av_bot = ''00000000-0000-0000-0000-00000000000c'',
     av_conversation = ''c'', av_id = aid, av_occurred = 1800000000000, av_service_url = [], av_action = action\<rparr>"

definition demo_install :: install_key where
  "demo_install = (''org'', ''w'', ''00000000-0000-0000-0000-00000000000a'', ''00000000-0000-0000-0000-00000000000b'',
     ''00000000-0000-0000-0000-00000000000c'')"

lemma demo_verified:
  "verified_activity 1800000000000 ''add'' (demo_trust ''add'' ''a1'') = Inr (demo_activity ''add'' ''a1'')"
  "verified_activity 1800000000000 ''remove'' (demo_trust ''remove'' ''a2'') = Inr (demo_activity ''remove'' ''a2'')"
  by code_simp+

lemma demo_key: "av_install ''org'' ''w'' (demo_activity action aid) = demo_install"
  by (simp add: av_install_def demo_activity_def demo_install_def)

text \<open>With no entry in the log for it, an activity that fits the counters is accepted.\<close>

lemma activity_accepted:
  assumes v: "verified_activity now action trust = Inr a" and scope: "work_scope org ws = Inr (o', w)"
    and fresh: "find_by ie_key (av_install o' w a, av_id a) (i_events db) = None"
    and ints: "int_ok (av_occurred a)" "int_ok now"
      "\<And>r. install_at db (av_install o' w a) = Some r \<Longrightarrow> int_ok (ir_revision r) \<and> int_ok (ir_revision r + 1) \<and> int_ok (ir_updated r) \<and>
        ir_revision r + 1 \<le> 2 ^ 53 - 1"
  shows "\<exists>receipt db'. apply_private_installation now org ws action trust db = (Inr (receipt, False), db') \<and>
    istep db (Some (av_install o' w a, activity_mark a)) db'"
proof -
  have "\<exists>d. activity_digest a = Inr d"
    unfolding activity_digest_def using ints(1) by (subst digest_ok) simp_all
  then obtain d where d: "activity_digest a = Inr d" by blast
  have one: "int_ok 1" by (simp add: small_int_ok)
  have persist: "\<exists>db'. persist_event now o' w a d receipt db1 = Inr db'"
    if "i_events db1 = i_events db" "jok (JDict receipt)" for receipt db1
    using that fresh
    by (auto simp: persist_event_def text_ok [OF that(2)] insert_by_def find_by_None_iff event_of_def ie_key_def ie_install_def
        av_install_def simp del: render.simps canon.simps jok.simps)
  have "\<exists>receipt db'. apply_activity now o' w a d db = Inr ((receipt, False), db')"
  proof (cases "install_at db (av_install o' w a)")
    case None
    let ?row = "applied_row now o' w a d None"
    have "jok (JDict (receipt_of (av_action a) (av_action a = ''add'') True (ir_revision ?row) now))"
      using ints(2) one by (simp add: receipt_of_def applied_row_def)
    from persist [of "db\<lparr>i_rows := put_install ?row (i_rows db)\<rparr>", OF _ this] obtain db' where
      "persist_event now o' w a d (receipt_of (av_action a) (av_action a = ''add'') True (ir_revision ?row) now)
        (db\<lparr>i_rows := put_install ?row (i_rows db)\<rparr>) = Inr db'" by auto
    with None fresh show ?thesis by (simp add: apply_activity_def install_at_def Let_def)
  next
    case (Some r)
    note i = ints(3) [OF Some]
    show ?thesis
    proof (cases "ignores a r")
      case True
      have "jok (JDict (receipt_of (av_action a) (pi_active r \<noteq> 0) False (ir_revision r) (ir_updated r)))"
        using i by (simp add: receipt_of_def)
      from persist [of db, OF _ this] True Some fresh show ?thesis by (auto simp: apply_activity_def install_at_def Let_def)
    next
      case False
      let ?row = "applied_row now o' w a d (Some r)"
      have "jok (JDict (receipt_of (av_action a) (av_action a = ''add'') True (ir_revision ?row) now))"
        using i ints(2) by (simp add: receipt_of_def applied_row_def Let_def)
      from persist [of "db\<lparr>i_rows := put_install ?row (i_rows db)\<rparr>", OF _ this] obtain db' where
        "persist_event now o' w a d (receipt_of (av_action a) (av_action a = ''add'') True (ir_revision ?row) now)
          (db\<lparr>i_rows := put_install ?row (i_rows db)\<rparr>) = Inr db'" by auto
      with Some False fresh i show ?thesis by (simp add: apply_activity_def install_at_def Let_def)
    qed
  qed
  then obtain receipt db' where run: "apply_private_installation now org ws action trust db = (Inr (receipt, False), db')"
    using v scope d by (auto simp: apply_private_installation_def)
  moreover have "istep db (Some (av_install o' w a, activity_mark a)) db'"
    unfolding istep_def option.case prod.case using run v scope by blast
  ultimately show ?thesis by blast
qed

text \<open>An installation and its removal, reported with the same time.\<close>

lemma demo_marks: "activity_mark (demo_activity ''add'' aid) = (1800000000000, False)"
  "activity_mark (demo_activity ''remove'' aid) = (1800000000000, True)"
  by (simp_all add: activity_mark_def demo_activity_def)

lemma demo_activity_ints: "int_ok (av_occurred (demo_activity action aid))" "int_ok 1800000000000"
  by (simp_all add: demo_activity_def small_int_ok)

lemma demo_added:
  "\<exists>db. istep empty_idb (Some (demo_install, 1800000000000, False)) db"
proof -
  have "\<exists>receipt db'. apply_private_installation 1800000000000 (Some ''org'') ''w'' ''add'' (demo_trust ''add'' ''a1'') empty_idb =
      (Inr (receipt, False), db') \<and> istep empty_idb (Some (av_install ''org'' ''w'' (demo_activity ''add'' ''a1''),
        activity_mark (demo_activity ''add'' ''a1''))) db'"
    by (rule activity_accepted [OF demo_verified(1) demo_scope])
      (simp_all add: empty_idb_def install_at_def demo_activity_ints)
  then show ?thesis unfolding demo_key demo_marks by blast
qed

lemma demo_removed:
  "\<exists>db. istep empty_idb (Some (demo_install, 1800000000000, True)) db"
proof -
  have "\<exists>receipt db'. apply_private_installation 1800000000000 (Some ''org'') ''w'' ''remove'' (demo_trust ''remove'' ''a2'') empty_idb =
      (Inr (receipt, False), db') \<and> istep empty_idb (Some (av_install ''org'' ''w'' (demo_activity ''remove'' ''a2''),
        activity_mark (demo_activity ''remove'' ''a2''))) db'"
    by (rule activity_accepted [OF demo_verified(2) demo_scope])
      (simp_all add: empty_idb_def install_at_def demo_activity_ints)
  then show ?thesis unfolding demo_key demo_marks by blast
qed

lemma run_single: "istep empty_idb (Some l) db \<Longrightarrow> run_of istep empty_idb [l] db"
  using run_some [of istep empty_idb "[]" empty_idb l db] by (simp add: run_nil)

section \<open>Convergence\<close>

text \<open>
  C8. The order of arrival does not matter. After any run of the store in which the activities of a history \<open>h\<close> were
  accepted (retries and refusals may come in between), the route of an owner is open exactly when some installation in
  \<open>h\<close> is later than every other activity of the owner and not contested by a removal of the same time; and two runs
  that accepted the same activities, in whatever order and however often, agree on the status of every owner.
\<close>

theorem installation_converges:
  assumes "run_of istep empty_idb h db"
  shows "(installed db k \<longleftrightarrow> (\<exists>t. (k, t, False) \<in> set h \<and>
      (\<forall>t' removed. (k, t', removed) \<in> set h \<longrightarrow> t' < t \<or> (t' = t \<and> \<not> removed)))) \<and>
    (\<forall>h' db'. run_of istep empty_idb h' db' \<and> set h' = set h \<longrightarrow> status_at db' = status_at db)"
  using run_installed [OF assms] inst.converge [OF _ assms _ iinv_empty] by blast

theorem installation_converges_witness:
  "\<exists>db. run_of istep empty_idb [(demo_install, 1800000000000, False)] db \<and> installed db demo_install"
proof -
  from demo_added obtain db where "istep empty_idb (Some (demo_install, 1800000000000, False)) db" by blast
  then have run: "run_of istep empty_idb [(demo_install, 1800000000000, False)] db"
    by (rule run_single)
  from installation_converges [OF run, of demo_install] run show ?thesis by auto
qed

section \<open>Revocation\<close>

lemma route_row: "find_by pi_key k (route_rows db) = map_option installation_row.truncate (install_at db k)"
proof -
  have "find_by pi_key k (map installation_row.truncate rows) = map_option installation_row.truncate (find_by ir_key k rows)" for rows
    by (induction rows) (auto simp: find_by_Cons pi_key_def ir_key_def installation_row.truncate_def)
  then show ?thesis by (simp add: route_rows_def install_at_def)
qed

text \<open>The ids in an accepted key are canonical.\<close>

lemma accepted_canonical:
  assumes "run_of istep s h s'" and "((org, ws, tenant, actor, bot_app), e) \<in> set h"
  shows "canonical_uuid (JStr tenant) = Inr tenant \<and> canonical_uuid (JStr actor) = Inr actor \<and> canonical_uuid (JStr bot_app) = Inr bot_app"
  using assms
proof (induction rule: run_of.induct)
  case (run_some s h s' l s'')
  show ?case
  proof (cases "((org, ws, tenant, actor, bot_app), e) \<in> set h")
    case True
    with run_some show ?thesis by blast
  next
    case False
    with run_some.prems have "l = ((org, ws, tenant, actor, bot_app), e)" by auto
    with run_some.hyps(2) obtain now action trust o' w a where "verified_activity now action trust = Inr a"
      "(org, ws, tenant, actor, bot_app) = av_install o' w a" unfolding istep_def by auto
    then show ?thesis by (auto simp: verified_activity_def av_install_def resE canonical_uuid_idem split: if_splits)
  qed
qed simp_all

lemma canonical_lower: "canonical_uuid (JStr u) = Inr v \<Longrightarrow> v = py_lower u"
  by (auto simp: canonical_uuid_def split: if_splits)

lemma closed_route:
  assumes "w_installations w = route_rows db" and "\<not> installed db (org, ws, tenant, actor, bot_app)"
  shows "installation_route w org ws tenant actor bot_app = not_found ''WORK_TEAMS_PRIVATE_INSTALLATION_NOT_FOUND''"
  using assms by (auto simp: installation_route_def route_row installed_def installation_row.truncate_def split: option.splits)

text \<open>
  C10. A revoked installation delivers nothing. If a removal of an owner's installation was accepted and no later
  installation was, in whatever order they arrived, then the private route of that owner is not found in the tables the
  outbox reads: neither a private task result nor a private credential notice can be routed to the owner.
\<close>

theorem revoked_route_closed:
  assumes "run_of istep empty_idb h db" and "((org, ws, tenant, actor, bot_app), t, True) \<in> set h"
    and "\<forall>t'. ((org, ws, tenant, actor, bot_app), t', False) \<in> set h \<longrightarrow> t' \<le> t"
    and "w_installations w = route_rows db"
  shows "installation_route w org ws tenant actor bot_app = not_found ''WORK_TEAMS_PRIVATE_INSTALLATION_NOT_FOUND'' \<and>
    (\<forall>ps route. resolve_private_teams_installation_route w org ws actor tenant bot_app ps \<noteq> Inr route) \<and>
    (\<forall>ps task route. py_lower (ps_tenant ps) = tenant \<and> py_lower (ps_bot ps) = bot_app \<longrightarrow>
      resolve_private_teams_route w org ws task actor ps \<noteq> Inr route)"
proof -
  have "\<not> installed db (org, ws, tenant, actor, bot_app)"
    using run_installed [OF assms(1)] assms(2,3) by fastforce
  note closed = closed_route [OF assms(4) this]
  note can = accepted_canonical [OF assms(1,2)]
  have "resolve_private_teams_installation_route w org ws actor tenant bot_app ps \<noteq> Inr route" for ps route
    using can closed by (auto simp: resolve_private_teams_installation_route_def split: if_splits)
  moreover have "resolve_private_teams_route w org ws task actor ps \<noteq> Inr route"
    if "py_lower (ps_tenant ps) = tenant" "py_lower (ps_bot ps) = bot_app" for ps task route
    using closed that canonical_lower [of actor actor] can unfolding resolve_private_teams_route_def
    by (auto simp: resE Let_def split: option.splits if_splits)
  ultimately show ?thesis using closed by blast
qed

theorem revoked_route_closed_witness:
  "\<exists>db. run_of istep empty_idb [(demo_install, 1800000000000, True)] db \<and>
     installation_route (empty_wdb\<lparr>w_installations := route_rows db\<rparr>) ''org'' ''w'' ''00000000-0000-0000-0000-00000000000a''
       ''00000000-0000-0000-0000-00000000000b'' ''00000000-0000-0000-0000-00000000000c'' =
     not_found ''WORK_TEAMS_PRIVATE_INSTALLATION_NOT_FOUND'' \<and> route_rows db \<noteq> []"
proof -
  from demo_removed obtain db where "istep empty_idb (Some (demo_install, 1800000000000, True)) db" by blast
  then have run: "run_of istep empty_idb [(demo_install, 1800000000000, True)] db" by (rule run_single)
  have "status_at db demo_install \<noteq> None" using run_status [OF run] by (simp add: accepted_for_def joined_def)
  then have "route_rows db \<noteq> []" by (auto simp: status_at_def install_at_def route_rows_def)
  with revoked_route_closed [OF run, of "''org''" "''w''" "''00000000-0000-0000-0000-00000000000a''"
      "''00000000-0000-0000-0000-00000000000b''" "''00000000-0000-0000-0000-00000000000c''" 1800000000000
      "empty_wdb\<lparr>w_installations := route_rows db\<rparr>"] run show ?thesis
    by (auto simp: demo_install_def)
qed

end
