(* ===== verification/Uri.thy ===== *)
theory Uri
  imports Work_Meta
begin

text \<open>
  What \<open>_safe_resource_uri\<close> of \<open>work/store.py\<close> uses of Python's \<open>urllib.parse\<close> and \<open>ipaddress\<close> (Python 3.12): splitting
  a URI into scheme, authority, path, query and fragment, the host and port of an authority, and the check of a
  bracketed host. The function is called on text without white space and control characters only, so the clean-up
  \<open>urlsplit\<close> starts with does nothing; every failure has one error code, so \<open>safe_uri\<close> is a predicate.
\<close>

section \<open>Addresses\<close>

definition is_hex_digit :: "char \<Rightarrow> bool" where
  "is_hex_digit c \<longleftrightarrow> hex_val c \<noteq> None"

definition ipv4_octet :: "string \<Rightarrow> bool" where
  "ipv4_octet s \<longleftrightarrow> s \<noteq> [] \<and> list_all is_digit s \<and> length s \<le> 3 \<and> (s = ''0'' \<or> hd s \<noteq> CHR ''0'') \<and> digits_value s \<le> 255"

definition ipv4_text :: "string \<Rightarrow> bool" where
  "ipv4_text s \<longleftrightarrow> (let os = split_on (CHR ''.'') s in length os = 4 \<and> list_all ipv4_octet os)"

definition hextet :: "string \<Rightarrow> bool" where
  "hextet s \<longleftrightarrow> s \<noteq> [] \<and> length s \<le> 4 \<and> list_all is_hex_digit s"

text \<open>
  \<open>IPv6Address._ip_int_from_string\<close>: a trailing IPv4 address stands for two hextets; a single empty part between the
  first and the last stands for the zeros that are missing, and an empty end is allowed beside it only.
\<close>

definition ipv6_parts :: "string list \<Rightarrow> bool" where
  "ipv6_parts ps =
    (let n = length ps; gaps = filter (\<lambda>i. ps ! i = []) [1..<n - 1] in
     n \<le> 9 \<and>
     (case gaps of
        [] \<Rightarrow> n = 8 \<and> list_all hextet ps
      | [i] \<Rightarrow>
          let hi = (if hd ps = [] then i - 1 else i);
              lo = (if last ps = [] then n - i - 2 else n - i - 1) in
          (hd ps = [] \<longrightarrow> hi = 0) \<and> (last ps = [] \<longrightarrow> lo = 0) \<and> hi + lo < 8 \<and>
          list_all hextet (take hi ps) \<and> list_all hextet (drop (n - lo) ps)
      | _ \<Rightarrow> False))"

definition ipv6_text :: "string \<Rightarrow> bool" where
  "ipv6_text s =
    (let scoped = CHR ''%'' \<in> set s;
         addr = takeWhile (\<lambda>c. c \<noteq> CHR ''%'') s;
         scope = drop (length addr + 1) s;
         ps = split_on (CHR '':'') addr in
     \<not> CHR ''/'' \<in> set s \<and> (scoped \<longrightarrow> scope \<noteq> [] \<and> CHR ''%'' \<notin> set scope) \<and> addr \<noteq> [] \<and> 3 \<le> length ps \<and>
     (if CHR ''.'' \<in> set (last ps) then ipv4_text (last ps) \<and> ipv6_parts (butlast ps @ [''0'', ''0''])
      else ipv6_parts ps))"

definition bracketed_host :: "string \<Rightarrow> bool" where
  "bracketed_host h =
    (if starts_with ''v'' h then
       (let ds = takeWhile is_hex_digit (tl h); rest = drop (length ds) (tl h) in
        ds \<noteq> [] \<and> starts_with ''.'' rest \<and> tl rest \<noteq> [])
     else ipv6_text h)"

section \<open>Splitting\<close>

record split_uri =
  su_scheme :: string
  su_netloc :: string
  su_path :: string
  su_query :: string
  su_fragment :: string

definition is_letter :: "char \<Rightarrow> bool" where
  "is_letter c \<longleftrightarrow> (let n = (of_char c :: int) in (65 \<le> n \<and> n \<le> 90) \<or> (97 \<le> n \<and> n \<le> 122))"

definition scheme_char :: "char \<Rightarrow> bool" where
  "scheme_char c \<longleftrightarrow> is_letter c \<or> is_digit c \<or> c \<in> set ''+-.''"

text \<open>\<open>s.partition(c)\<close> without the separator.\<close>

definition cut_at :: "char \<Rightarrow> string \<Rightarrow> string \<times> string" where
  "cut_at c s = (let a = takeWhile (\<lambda>x. x \<noteq> c) s in (a, drop (length a + 1) s))"

definition netloc_ok :: "string \<Rightarrow> bool" where
  "netloc_ok n \<longleftrightarrow> (CHR ''['' \<in> set n \<longleftrightarrow> CHR '']'' \<in> set n) \<and>
     (CHR ''['' \<in> set n \<longrightarrow>
        (let info = rev (takeWhile (\<lambda>c. c \<noteq> CHR ''@'') (rev n));
             (lead, bracketed) = cut_at (CHR ''['') info in
         if CHR ''['' \<in> set info
         then lead = [] \<and> (case cut_at (CHR '']'') bracketed of (h, port) \<Rightarrow>
                (port = [] \<or> starts_with '':'' port) \<and> bracketed_host h)
         else bracketed_host (fst (cut_at (CHR '':'') info))))"

definition urlsplit :: "string \<Rightarrow> split_uri option" where
  "urlsplit url =
    (let pre = takeWhile (\<lambda>c. c \<noteq> CHR '':'') url;
         has_scheme = (CHR '':'' \<in> set url \<and> pre \<noteq> [] \<and> is_letter (hd pre) \<and> list_all scheme_char pre);
         scheme = (if has_scheme then py_lower pre else []);
         rest = (if has_scheme then drop (length pre + 1) url else url);
         authority = starts_with ''//'' rest;
         netloc = (if authority then takeWhile (\<lambda>c. c \<notin> set ''/?#'') (drop 2 rest) else []);
         rest1 = (if authority then drop (length netloc + 2) rest else rest);
         (rest2, fragment) = cut_at (CHR ''#'') rest1;
         (path, query) = cut_at (CHR ''?'') rest2 in
     if netloc_ok netloc
     then Some \<lparr>su_scheme = scheme, su_netloc = netloc, su_path = path, su_query = query, su_fragment = fragment\<rparr> else None)"

text \<open>The host and the port text of an authority without user information.\<close>

definition host_port :: "string \<Rightarrow> string \<times> string" where
  "host_port n =
    (if CHR ''['' \<in> set n then
       (let (h, port) = cut_at (CHR '']'') (snd (cut_at (CHR ''['') n)) in (h, snd (cut_at (CHR '':'') port)))
     else cut_at (CHR '':'') n)"

definition port_ok :: "string \<Rightarrow> bool" where
  "port_ok p \<longleftrightarrow> p = [] \<or> (list_all is_digit p \<and> digits_value p \<le> 65535)"

definition web_schemes :: "string list" where
  "web_schemes = [''http'', ''https'']"

definition unsafe_schemes :: "string list" where
  "unsafe_schemes = [''data'', ''file'', ''javascript'', ''vbscript'']"

definition safe_uri :: "string \<Rightarrow> bool" where
  "safe_uri uri = (case urlsplit uri of
     None \<Rightarrow> False
   | Some u \<Rightarrow>
       let s = su_scheme u; (host, port) = host_port (su_netloc u) in
       CHR ''@'' \<notin> set (su_netloc u) \<and> port_ok port \<and>
       s \<noteq> [] \<and> is_letter (hd s) \<and> length s \<le> 32 \<and> list_all scheme_char s \<and> s \<notin> set unsafe_schemes \<and>
       su_query u = [] \<and> su_fragment u = [] \<and>
       (if s \<in> set web_schemes then host \<noteq> [] else su_netloc u \<noteq> [] \<or> su_path u \<noteq> []))"

definition safe_resource_uri :: "json \<Rightarrow> string res" where
  "safe_resource_uri v = bindE (bounded_text v 2000 False) (\<lambda>uri.
     if list_ex (\<lambda>c. py_space c \<or> is_ctrl c) uri \<or> \<not> safe_uri uri
     then invalid ''WORK_AUTOMATION_REFERENCE_INVALID'' else Inr uri)"

end
