(* ===== verification/Resources.thy ===== *)
theory Resources
  imports Uri Health_Store
begin

text \<open>
  References to resources of other systems, as the experiment index and the automation events of \<open>work/store.py\<close>
  accept them: a typed resource URI with an optional version, an artifact named by its digest, and a commit.
  The accepted value is a normalised object; \<open>reference_ok\<close> says that it can always be stored and read back.
\<close>

section \<open>Shapes of objects\<close>

text \<open>\<open>set(value) - allowed\<close> is empty, and \<open>required.issubset(value)\<close>.\<close>

definition keys_within :: "json_object \<Rightarrow> string list \<Rightarrow> bool" where
  "keys_within d ks \<longleftrightarrow> list_all (\<lambda>(k, v). k \<in> set ks) d"

definition keys_include :: "json_object \<Rightarrow> string list \<Rightarrow> bool" where
  "keys_include d ks \<longleftrightarrow> list_all (dhas d) ks"

definition lower_hex :: "nat \<Rightarrow> string \<Rightarrow> bool" where
  "lower_hex n s \<longleftrightarrow> length s = n \<and> list_all is_lower_hex s"

definition safe_integer :: "json \<Rightarrow> bool" where
  "safe_integer v = (case v of JInt i \<Rightarrow> 0 \<le> i \<and> i \<le> 2 ^ 53 - 1 | _ \<Rightarrow> False)"

section \<open>The kinds of references\<close>

abbreviation bad_reference :: "'a res" where
  "bad_reference \<equiv> invalid ''WORK_AUTOMATION_REFERENCE_INVALID''"

abbreviation bad_artifact :: "'a res" where
  "bad_artifact \<equiv> invalid ''WORK_EXPERIMENT_INVALID_REFERENCE''"

definition validate_resource_version :: "json \<Rightarrow> json res" where
  "validate_resource_version v = (case v of
     JInt i \<Rightarrow> if 0 \<le> i \<and> i \<le> 2 ^ 53 - 1 then Inr v else bad_reference
   | JStr s \<Rightarrow> if py_strip s = [] \<or> length s > 512 then bad_reference else if list_ex is_ctrl s then bad_reference else Inr v
   | _ \<Rightarrow> bad_reference)"

definition automation_resource_reference :: "json \<Rightarrow> json_object res" where
  "automation_resource_reference v = (case v of
     JDict d \<Rightarrow>
       if \<not> keys_within d [''kind'', ''resourceUri'', ''resourceVersion''] \<or> \<not> keys_include d [''kind'', ''resourceUri'']
       then bad_reference
       else
         bindE (bounded_text (dget d ''kind'') 128 False) (\<lambda>kind.
         if \<not> symbolic ''._:-'' 127 kind then bad_reference
         else
           bindE (safe_resource_uri (dget d ''resourceUri'')) (\<lambda>uri.
           bindE (if dget d ''resourceVersion'' \<noteq> JNull then validate_resource_version (dget d ''resourceVersion'')
                  else Inr JNull) (\<lambda>version.
             Inr [(''kind'', JStr kind), (''resourceUri'', JStr uri), (''resourceVersion'', version)])))
   | _ \<Rightarrow> bad_reference)"

definition artifact_uri :: "string \<Rightarrow> string" where
  "artifact_uri hex = ''artifact://sha256/'' @ hex"

definition digest_text :: "string \<Rightarrow> string" where
  "digest_text hex = ''sha256:'' @ hex"

definition validate_artifact_reference :: "json \<Rightarrow> json_object res" where
  "validate_artifact_reference v = (case v of
     JDict d \<Rightarrow>
       if \<not> keys_include d [''uri'', ''digest'', ''size_bytes'', ''kind''] \<or>
          \<not> keys_within d [''uri'', ''digest'', ''size_bytes'', ''kind'', ''manifest_digest'']
       then bad_artifact
       else
         bindE (bounded_text (dget d ''uri'') 128 False) (\<lambda>uri.
         bindE (bounded_text (dget d ''digest'') 71 False) (\<lambda>digest.
         if \<not> (let hex = drop 18 uri in uri = artifact_uri hex \<and> lower_hex 64 hex) \<or>
            \<not> (let hex = drop 7 digest in digest = digest_text hex \<and> lower_hex 64 hex) \<or> drop 18 uri \<noteq> drop 7 digest
         then bad_artifact
         else if \<not> safe_integer (dget d ''size_bytes'') then bad_artifact
         else
           bindE (bounded_text (dget d ''kind'') 128 False) (\<lambda>kind.
           bindE (case dget d ''manifest_digest'' of
               JNull \<Rightarrow> Inr []
             | m \<Rightarrow> bindE (bounded_text m 71 False) (\<lambda>manifest.
                 if \<not> (let hex = drop 7 manifest in manifest = digest_text hex \<and> lower_hex 64 hex) then bad_artifact
                 else Inr [(''manifest_digest'', JStr manifest)])) (\<lambda>manifest.
             Inr ([(''uri'', JStr uri), (''digest'', JStr digest), (''size_bytes'', dget d ''size_bytes''),
               (''kind'', JStr kind)] @ manifest)))))
   | _ \<Rightarrow> bad_artifact)"

definition validate_commit_reference :: "json \<Rightarrow> json_object res" where
  "validate_commit_reference v = (case v of
     JDict d \<Rightarrow>
       if \<not> keys_are d [''repositoryUri'', ''sha''] then bad_artifact
       else
         bindE (safe_resource_uri (dget d ''repositoryUri'')) (\<lambda>uri.
         bindE (bounded_text (dget d ''sha'') 64 False) (\<lambda>sha.
           if \<not> (lower_hex 40 sha \<or> lower_hex 64 sha) then bad_artifact
           else Inr [(''repositoryUri'', JStr uri), (''sha'', JStr sha)]))
   | _ \<Rightarrow> bad_artifact)"

section \<open>References can be stored\<close>

definition reference_ok :: "json_object \<Rightarrow> bool" where
  "reference_ok d \<longleftrightarrow> jwf (JDict d) \<and> jok (JDict d)"

lemma version_ok: "validate_resource_version v = Inr w \<Longrightarrow> w = v \<and> jwf v \<and> jok v"
  by (auto simp: validate_resource_version_def small_int_ok split: json.splits if_splits)

lemma safe_integer_ok: "safe_integer v \<Longrightarrow> jwf v \<and> jok v"
  by (auto simp: safe_integer_def small_int_ok split: json.splits)

lemma resource_reference_ok: "automation_resource_reference v = Inr d \<Longrightarrow> reference_ok d"
  by (auto simp: automation_resource_reference_def reference_ok_def resE dest!: version_ok split: json.splits if_splits)

lemma artifact_reference_ok: "validate_artifact_reference v = Inr d \<Longrightarrow> reference_ok d"
  by (auto simp: validate_artifact_reference_def reference_ok_def resE dest!: safe_integer_ok split: json.splits if_splits)

lemma commit_reference_ok: "validate_commit_reference v = Inr d \<Longrightarrow> reference_ok d"
  by (auto simp: validate_commit_reference_def reference_ok_def resE split: json.splits if_splits)

end
