(* ===== verification/Exp_Store.thy ===== *)
theory Exp_Store
  imports Resources
begin

text \<open>
  The experiment index of \<open>work/store.py\<close>: per owner and experiment one row of references to other systems, replaced as
  a whole by \<open>put_experiment\<close> under an expected revision, and read by \<open>get_experiment\<close>.
\<close>

section \<open>Table\<close>

record experiment_row =
  xp_org :: string
  xp_ws :: string
  xp_actor :: string
  xp_id :: string
  xp_revision :: int
  xp_updated :: int
  xp_references :: string
  xp_digest :: string

type_synonym experiment_key = "string \<times> string \<times> string \<times> string"

definition xp_key :: "experiment_row \<Rightarrow> experiment_key" where
  "xp_key r = (xp_org r, xp_ws r, xp_actor r, xp_id r)"

section \<open>The request\<close>

abbreviation bad_experiment :: "'a res" where
  "bad_experiment \<equiv> invalid ''WORK_EXPERIMENT_INVALID''"

definition reference_fields :: "string list" where
  "reference_fields = [''datasetVersion'', ''trainingRun'', ''trainingAttempt'', ''checkpointArtifactRef'', ''evaluationRun'',
     ''modelVersion'', ''deployment'', ''commit'']"

definition experiment_reference :: "string \<Rightarrow> json \<Rightarrow> json res" where
  "experiment_reference field item =
    (if item = JNull then Inr JNull
     else bindE (if field = ''checkpointArtifactRef'' then validate_artifact_reference item
                 else if field = ''commit'' then validate_commit_reference item
                 else automation_resource_reference item) (\<lambda>d. Inr (JDict d)))"

definition validate_experiment_put :: "json_object \<Rightarrow> (json_object \<times> int) res" where
  "validate_experiment_put v =
    bindE (work_json_object (JDict v)) (\<lambda>body.
    if \<not> keys_within body (reference_fields @ [''expectedRevision'']) \<or> \<not> dhas body ''expectedRevision'' then bad_experiment
    else case dget body ''expectedRevision'' of
      JInt expected \<Rightarrow>
        if \<not> (0 \<le> expected \<and> expected \<le> 2 ^ 53 - 1) then bad_experiment
        else
          bindE (mapE (\<lambda>field. bindE (experiment_reference field (dget body field)) (\<lambda>r. Inr (field, r))) reference_fields) (\<lambda>normalized.
          bindE (work_json_text (JDict normalized)) (\<lambda>t.
            if int (length (utf8 t)) > 100000 then bad_experiment else Inr (normalized, expected)))
    | _ \<Rightarrow> bad_experiment)"

definition experiment_view :: "experiment_key \<Rightarrow> int \<Rightarrow> int \<Rightarrow> json_object \<Rightarrow> json_object" where
  "experiment_view k revision updated data = (case k of (org, ws, actor, xid) \<Rightarrow>
    dict_of ([(''experimentId'', JStr xid)] @ data @
      [(''actorId'', JStr actor), (''organizationId'', JStr org), (''workspaceId'', JStr ws), (''revision'', JInt revision),
       (''updatedAt'', JInt updated), (''visibility'', JStr ''owner'')]))"

definition experiment_key_of :: "string option \<Rightarrow> string \<Rightarrow> string \<Rightarrow> string \<Rightarrow> experiment_key res" where
  "experiment_key_of org ws actor xid =
    bindE (work_scope org ws) (\<lambda>(org, ws).
    bindE (work_identifier actor) (\<lambda>actor.
    bindE (canonical_uuid (JStr xid)) (\<lambda>xid. Inr (org, ws, actor, xid))))"

definition request_digest :: "json_object \<Rightarrow> int \<Rightarrow> string res" where
  "request_digest data expected = work_digest (JDict [(''data'', JDict data), (''expectedRevision'', JInt expected)])"

section \<open>Operations\<close>

text \<open>The outcome of a put: the view, whether the row is new, and whether nothing was written.\<close>

type_synonym put_outcome = "json_object \<times> bool \<times> bool"

definition new_experiment :: "int \<Rightarrow> experiment_key \<Rightarrow> json_object \<Rightarrow> string \<Rightarrow> experiment_row list \<Rightarrow> (put_outcome \<times> experiment_row list) res" where
  "new_experiment now k data digest db = (case k of (org, ws, actor, xid) \<Rightarrow>
    bindE (work_json_text (JDict data)) (\<lambda>t.
    bindE (insert_by xp_key \<lparr>xp_org = org, xp_ws = ws, xp_actor = actor, xp_id = xid, xp_revision = 1, xp_updated = now,
        xp_references = t, xp_digest = digest\<rparr> db) (\<lambda>db'.
      Inr ((experiment_view k 1 now data, True, False), db'))))"

definition replace_experiment ::
  "int \<Rightarrow> experiment_key \<Rightarrow> json_object \<Rightarrow> int \<Rightarrow> string \<Rightarrow> experiment_row \<Rightarrow> experiment_row list \<Rightarrow> (put_outcome \<times> experiment_row list) res" where
  "replace_experiment now k data expected digest row db =
    (if xp_digest row = digest then
       bindE (stored_object (xp_references row)) (\<lambda>current.
         Inr ((experiment_view k (xp_revision row) (xp_updated row) current, False, True), db))
     else if expected \<noteq> xp_revision row then conflict ''WORK_EXPERIMENT_STALE_REVISION''
     else
       bindE (stored_object (xp_references row)) (\<lambda>current.
       if py_eq (JDict current) (JDict data) then
         Inr ((experiment_view k (xp_revision row) (xp_updated row) current, False, True), db)
       else
         let revision = xp_revision row + 1 in
         if revision > 2 ^ 53 - 1 then conflict ''WORK_EXPERIMENT_REVISION_EXHAUSTED''
         else
           bindE (work_json_text (JDict data)) (\<lambda>t.
             Inr ((experiment_view k revision now data, False, False),
               edit_by xp_key k (\<lambda>r. r\<lparr>xp_revision := revision, xp_updated := now, xp_references := t, xp_digest := digest\<rparr>) db))))"

definition put_experiment ::
  "int \<Rightarrow> string option \<Rightarrow> string \<Rightarrow> string \<Rightarrow> string \<Rightarrow> json_object \<Rightarrow> experiment_row list \<Rightarrow> put_outcome res \<times> experiment_row list" where
  "put_experiment now org ws actor xid body db = commit db (
    bindE (experiment_key_of org ws actor xid) (\<lambda>k.
    bindE (validate_experiment_put body) (\<lambda>(data, expected).
    bindE (request_digest data expected) (\<lambda>digest.
      case find_by xp_key k db of
        None \<Rightarrow> if expected \<noteq> 0 then conflict ''WORK_EXPERIMENT_STALE_REVISION'' else new_experiment now k data digest db
      | Some row \<Rightarrow> replace_experiment now k data expected digest row db))))"

definition get_experiment :: "string option \<Rightarrow> string \<Rightarrow> string \<Rightarrow> string \<Rightarrow> experiment_row list \<Rightarrow> json_object res" where
  "get_experiment org ws actor xid db =
    bindE (experiment_key_of org ws actor xid) (\<lambda>k.
      case find_by xp_key k db of
        None \<Rightarrow> not_found ''WORK_EXPERIMENT_NOT_FOUND''
      | Some row \<Rightarrow> bindE (stored_object (xp_references row)) (\<lambda>data.
          Inr (experiment_view k (xp_revision row) (xp_updated row) data)))"

end
