(* ===== verification/Versioned.thy ===== *)
theory Versioned
  imports Registers
begin

text \<open>
  Stores whose keys are written under optimistic concurrency control: a write names the revision its author has seen
  and is accepted only if that is the revision of the key. \<open>locale versioned\<close> is what such a store promises; inside it
  the accepted writes of a key name the revisions one after the other, so no write is lost under another one.
\<close>

definition writes_of :: "('k \<times> 'w) list \<Rightarrow> 'k \<Rightarrow> 'w list" where
  "writes_of h k = map snd (filter (\<lambda>(k', w). k' = k) h)"

lemma writes_of_Nil [simp]: "writes_of [] k = []"
  by (simp add: writes_of_def)

lemma writes_of_snoc [simp]: "writes_of (h @ [(k', w)]) k = (if k' = k then writes_of h k @ [w] else writes_of h k)"
  by (simp add: writes_of_def)

text \<open>A label is the key, the revision the author has seen, and the content written. Revision 0 is an absent key.\<close>

locale versioned =
  fixes step :: "'s \<Rightarrow> ('k \<times> int \<times> 'v) option \<Rightarrow> 's \<Rightarrow> bool"
    and inv :: "'s \<Rightarrow> bool"
    and at :: "'s \<Rightarrow> 'k \<Rightarrow> (int \<times> 'v) option"
  assumes versioned_inv: "step s l s' \<Longrightarrow> inv s \<Longrightarrow> inv s'"
    and quiet: "step s None s' \<Longrightarrow> inv s \<Longrightarrow> at s' k = at s k"
    and write_here: "step s (Some (k, seen, v)) s' \<Longrightarrow> inv s \<Longrightarrow>
      seen = (case at s k of None \<Rightarrow> 0 | Some (n, w) \<Rightarrow> n) \<and> at s' k = Some (seen + 1, v)"
    and write_elsewhere: "step s (Some (k', w)) s' \<Longrightarrow> inv s \<Longrightarrow> k \<noteq> k' \<Longrightarrow> at s' k = at s k"
begin

lemma history_inv: "run_of step s h s' \<Longrightarrow> inv s \<Longrightarrow> inv s'"
  by (induction rule: run_of.induct) (auto intro: versioned_inv)

lemma history_writes:
  assumes "run_of step s h s'" and "inv s" and "at s k = None"
  shows "map fst (writes_of h k) = map int [0..<length (writes_of h k)] \<and>
    at s' k = (if writes_of h k = [] then None else Some (int (length (writes_of h k)), snd (last (writes_of h k))))"
  using assms
proof (induction rule: run_of.induct)
  case (run_some s h s' l s'')
  obtain k' seen v where l: "l = (k', seen, v)" by (cases l)
  have "inv s'" using run_some history_inv by blast
  show ?case
  proof (cases "k' = k")
    case True
    with write_here [of s' k seen v s''] run_some l \<open>inv s'\<close>
    have "seen = int (length (writes_of h k))" "at s'' k = Some (seen + 1, v)"
      by (auto split: if_splits)
    with run_some True l show ?thesis by simp
  next
    case False
    with write_elsewhere [of s' k' "(seen, v)" s'' k] run_some l \<open>inv s'\<close> show ?thesis by simp
  qed
next
  case (run_none s h s' s'')
  then have "inv s'" using history_inv by blast
  with run_none quiet show ?case by simp
qed simp_all

text \<open>Of two accepted writes of a key, one has seen the other.\<close>

lemma no_lost_update:
  assumes "run_of step s h s'" and "inv s" and "at s k = None"
    and "i < j" and "j < length (writes_of h k)"
  shows "fst (writes_of h k ! i) < fst (writes_of h k ! j)"
proof -
  have "map fst (writes_of h k) = map int [0..<length (writes_of h k)]" using history_writes [OF assms(1-3)] by blast
  then have "fst (writes_of h k ! n) = int n" if "n < length (writes_of h k)" for n
    using that by (metis add_0 diff_zero length_upt nth_map nth_upt)
  with assms(4,5) show ?thesis by simp
qed

end

end
