(* ===== verification/Exp_Props.thy ===== *)
theory Exp_Props
  imports Exp_Store Versioned
begin

text \<open>
  The experiment index is a family of versioned registers: the interpretation of \<open>versioned\<close> on \<open>put_experiment\<close>, and
  what it gives for the readers and for writers that race.
\<close>

section \<open>The invariant\<close>

definition experiment_ok :: "experiment_row \<Rightarrow> bool" where
  "experiment_ok r \<longleftrightarrow> 1 \<le> xp_revision r \<and> xp_revision r \<le> 2 ^ 53 - 1 \<and> (\<exists>d. stored_object (xp_references r) = Inr d)"

definition xinv :: "experiment_row list \<Rightarrow> bool" where
  "xinv db \<longleftrightarrow> keyed xp_key db \<and> (\<forall>r \<in> set db. experiment_ok r)"

lemma xinv_empty: "xinv []"
  by (simp add: xinv_def keyed_def)

text \<open>What a row holds.\<close>

definition held_by :: "experiment_row \<Rightarrow> int \<times> json" where
  "held_by r = (xp_revision r, case stored_object (xp_references r) of Inr d \<Rightarrow> JDict d | Inl e \<Rightarrow> JNull)"

definition experiment_at :: "experiment_row list \<Rightarrow> experiment_key \<Rightarrow> (int \<times> json) option" where
  "experiment_at db k = map_option held_by (find_by xp_key k db)"

section \<open>Accepted references can be stored\<close>

lemma experiment_reference_ok: "experiment_reference field item = Inr v \<Longrightarrow> jwf v \<and> jok v"
  by (auto simp: experiment_reference_def resE reference_ok_def split: if_splits
      dest!: resource_reference_ok artifact_reference_ok commit_reference_ok)

lemma put_data_ok:
  assumes "validate_experiment_put body = Inr (data, expected)"
  shows "jwf (JDict data) \<and> jok (JDict data)"
proof -
  from assms have
    "mapE (\<lambda>field. bindE (experiment_reference field (dget body field)) (\<lambda>r. Inr (field, r))) reference_fields = Inr data"
    by (cases "dget body ''expectedRevision''") (auto simp: validate_experiment_put_def resE dest!: work_json_object_Inr split: if_split_asm)
  then have all: "list_all2 (\<lambda>field y. \<exists>v. experiment_reference field (dget body field) = Inr v \<and> y = (field, v)) reference_fields data"
    by (auto simp: mapE_Inr_iff resE elim!: list_all2_mono)
  then have "map fst data = reference_fields"
    by (auto simp: list_all2_conv_all_nth intro!: nth_equalityI)
  moreover from all have "jwf v \<and> jok v" if "(field, v) \<in> set data" for field v
    using that experiment_reference_ok by (fastforce simp: list_all2_conv_all_nth in_set_conv_nth)
  ultimately show ?thesis
    by (auto simp: jwf_items_all jok_items_all list_all_iff reference_fields_def)
qed

lemma stored_data:
  assumes "validate_experiment_put body = Inr (data, expected)" and "work_json_text (JDict data) = Inr t"
  shows "stored_object t = Inr (sort_key fst (canon_items data))"
  using stored_object_text [OF assms(2)] put_data_ok [OF assms(1)] by blast

section \<open>One call\<close>

lemma put_Inl: "put_experiment now org ws actor xid body db = (Inl e, db') \<Longrightarrow> db' = db"
  by (auto simp: put_experiment_def resE)

text \<open>A put reports a retry and changes nothing, or it writes its own row.\<close>

lemma put_cases:
  assumes "put_experiment now org ws actor xid body db = (Inr (view, created, replay), db')"
  obtains (same) "replay" "db' = db"
  | (fresh) k data t digest where "\<not> replay" "experiment_key_of org ws actor xid = Inr k"
      "validate_experiment_put body = Inr (data, 0)" "find_by xp_key k db = None"
      "stored_object t = Inr (sort_key fst (canon_items data))"
      "insert_by xp_key \<lparr>xp_org = fst k, xp_ws = fst (snd k), xp_actor = fst (snd (snd k)), xp_id = snd (snd (snd k)),
         xp_revision = 1, xp_updated = now, xp_references = t, xp_digest = digest\<rparr> db = Inr db'"
  | (edit) k data t digest r where "\<not> replay" "experiment_key_of org ws actor xid = Inr k"
      "validate_experiment_put body = Inr (data, xp_revision r)" "find_by xp_key k db = Some r"
      "stored_object t = Inr (sort_key fst (canon_items data))" "xp_revision r + 1 \<le> 2 ^ 53 - 1"
      "db' = edit_by xp_key k (\<lambda>x. x\<lparr>xp_revision := xp_revision r + 1, xp_updated := now, xp_references := t, xp_digest := digest\<rparr>) db"
proof -
  from assms obtain k data expected digest where
    k: "experiment_key_of org ws actor xid = Inr k" and v: "validate_experiment_put body = Inr (data, expected)"
    and run: "(case find_by xp_key k db of
        None \<Rightarrow> if expected \<noteq> 0 then conflict ''WORK_EXPERIMENT_STALE_REVISION'' else new_experiment now k data digest db
      | Some row \<Rightarrow> replace_experiment now k data expected digest row db) = Inr ((view, created, replay), db')"
    by (auto simp: put_experiment_def resE)
  obtain a b c d where kk: "k = (a, b, c, d)" by (cases k)
  show thesis
  proof (cases "find_by xp_key k db")
    case None
    with run kk v show thesis
      by (auto simp: new_experiment_def resE split: if_splits
          intro!: fresh [OF _ k _ None, of data _ digest] stored_data [OF v])
  next
    case (Some r)
    show thesis
    proof (cases replay)
      case True
      with run Some have "db' = db" by (auto simp: replace_experiment_def resE Let_def split: if_split_asm)
      with True show thesis by (rule same)
    next
      case False
      with run Some obtain t where "work_json_text (JDict data) = Inr t" "expected = xp_revision r" "xp_revision r + 1 \<le> 2 ^ 53 - 1"
        "db' = edit_by xp_key k (\<lambda>x. x\<lparr>xp_revision := xp_revision r + 1, xp_updated := now, xp_references := t, xp_digest := digest\<rparr>) db"
        by (auto simp: replace_experiment_def resE Let_def split: if_split_asm)
      with False v stored_data [OF v] show thesis by (intro edit [OF _ k _ Some, of data]) simp_all
    qed
  qed
qed

lemma put_replay: "put_experiment now org ws actor xid body db = (Inr (view, created, True), db') \<Longrightarrow> db' = db"
  by (erule put_cases) simp_all

lemma put_inv:
  assumes "put_experiment now org ws actor xid body db = (r, db')" and "xinv db"
  shows "xinv db'"
proof (cases r)
  case (Inl e)
  with assms put_Inl show ?thesis by blast
next
  case (Inr v)
  with assms(1) have "put_experiment now org ws actor xid body db = (Inr (fst v, fst (snd v), snd (snd v)), db')" by simp
  then show ?thesis
  proof (cases rule: put_cases)
    case same
    with assms show ?thesis by simp
  next
    case (fresh k data t digest)
    with assms(2) show ?thesis by (auto simp: xinv_def experiment_ok_def resE keyed_snoc)
  next
    case (edit k data t digest r)
    with assms(2) have "experiment_ok r" by (auto simp: xinv_def dest: find_by_SomeD)
    moreover have "keyed xp_key db'" using assms(2) edit by (auto simp: xinv_def keyed_edit xp_key_def)
    ultimately show ?thesis using assms(2) edit by (auto simp: xinv_def experiment_ok_def in_edit_by)
  qed
qed

section \<open>Calls\<close>

text \<open>
  A call that writes, labelled with the key, the revision its author has seen and the references it writes; or a call
  that writes nothing.
\<close>

definition xstep :: "experiment_row list \<Rightarrow> (experiment_key \<times> int \<times> json) option \<Rightarrow> experiment_row list \<Rightarrow> bool" where
  "xstep db l db' \<longleftrightarrow> (\<exists>now org ws actor xid body r. put_experiment now org ws actor xid body db = (r, db') \<and>
     (case l of
        None \<Rightarrow> \<forall>view created. r \<noteq> Inr (view, created, False)
      | Some (k, seen, content) \<Rightarrow> (\<exists>view created data. r = Inr (view, created, False) \<and>
          experiment_key_of org ws actor xid = Inr k \<and> validate_experiment_put body = Inr (data, seen) \<and>
          content = canon (JDict data))))"

lemma put_quiet:
  assumes "put_experiment now org ws actor xid body db = (r, db')" and "\<forall>view created. r \<noteq> Inr (view, created, False)"
  shows "db' = db"
proof (cases r)
  case (Inl e)
  with assms put_Inl show ?thesis by blast
next
  case (Inr v)
  with assms(2) have "r = Inr (fst v, fst (snd v), True)" by (cases v) auto
  with assms(1) put_replay show ?thesis by blast
qed

lemma put_write:
  assumes "put_experiment now org ws actor xid body db = (Inr (view, created, False), db')"
    and "experiment_key_of org ws actor xid = Inr k" and "validate_experiment_put body = Inr (data, seen)" and "xinv db"
  shows "seen = (case experiment_at db k of None \<Rightarrow> 0 | Some (n, w) \<Rightarrow> n) \<and>
    experiment_at db' k' = (if k' = k then Some (seen + 1, canon (JDict data)) else experiment_at db k')"
  using assms(1)
proof (cases rule: put_cases)
  case (fresh k2 data2 t digest)
  with assms(2,3) have "k2 = k" "data2 = data" "seen = 0" by auto
  moreover obtain a b c d where "k = (a, b, c, d)" by (cases k)
  ultimately show ?thesis using fresh by (auto simp: experiment_at_def resE find_by_snoc held_by_def xp_key_def)
next
  case (edit k2 data2 t digest r)
  with assms(2,3) have eq: "k2 = k" "data2 = data" "seen = xp_revision r" by auto
  define f where "f = (\<lambda>x. x\<lparr>xp_revision := xp_revision r + 1, xp_updated := now, xp_references := t, xp_digest := digest\<rparr> :: experiment_row)"
  have "find_by xp_key k' (edit_by xp_key k f db) = (if k' = k then Some (f r) else find_by xp_key k' db)"
    using edit eq by (auto simp: table_simps f_def xp_key_def)
  then show ?thesis using edit eq by (auto simp: experiment_at_def held_by_def f_def)
qed simp

lemma xstep_write:
  assumes "xstep s (Some (k, seen, v)) s'" and "xinv s"
  shows "seen = (case experiment_at s k of None \<Rightarrow> 0 | Some (n, w) \<Rightarrow> n) \<and>
    experiment_at s' k' = (if k' = k then Some (seen + 1, v) else experiment_at s k')"
proof -
  from assms(1) obtain now org ws actor xid body view created data where
    "put_experiment now org ws actor xid body s = (Inr (view, created, False), s')"
    "experiment_key_of org ws actor xid = Inr k" "validate_experiment_put body = Inr (data, seen)"
    and v: "v = canon (JDict data)"
    unfolding xstep_def by auto
  from put_write [OF this(1-3) assms(2)] v show ?thesis by simp
qed

interpretation exper: versioned xstep xinv experiment_at
proof unfold_locales
  fix s l s' assume "xstep s l s'" "xinv s"
  then show "xinv s'" unfolding xstep_def using put_inv by blast
next
  fix s s' k assume "xstep s None s'" "xinv s"
  then show "experiment_at s' k = experiment_at s k" unfolding xstep_def using put_quiet by fastforce
next
  fix s k seen v s' assume "xstep s (Some (k, seen, v)) s'" "xinv s"
  then show "seen = (case experiment_at s k of None \<Rightarrow> 0 | Some (n, w) \<Rightarrow> n) \<and> experiment_at s' k = Some (seen + 1, v)"
    using xstep_write [where k' = k] by simp
next
  fix s k' w s' k assume "xstep s (Some (k', w)) s'" "xinv s" "k \<noteq> k'"
  then show "experiment_at s' k = experiment_at s k" using xstep_write [of s k' _ _ s' k] by (cases w) simp
qed

section \<open>Serialised updates\<close>

lemma get_at:
  assumes "xinv db" and "experiment_key_of org ws actor xid = Inr k"
  shows "case experiment_at db k of
     None \<Rightarrow> get_experiment org ws actor xid db = not_found ''WORK_EXPERIMENT_NOT_FOUND''
   | Some (n, v) \<Rightarrow> \<exists>d t. v = JDict d \<and> get_experiment org ws actor xid db = Inr (experiment_view k n t d)"
proof (cases "find_by xp_key k db")
  case None
  with assms show ?thesis by (simp add: experiment_at_def get_experiment_def)
next
  case (Some r)
  with assms(1) obtain d where "stored_object (xp_references r) = Inr d"
    by (auto simp: xinv_def experiment_ok_def dest: find_by_SomeD)
  with assms(2) Some show ?thesis by (auto simp: experiment_at_def get_experiment_def held_by_def)
qed

lemma stale_put:
  assumes "xinv db" and "experiment_key_of org ws actor xid = Inr k" and "validate_experiment_put body = Inr (data, seen)"
    and "seen \<noteq> (case experiment_at db k of None \<Rightarrow> 0 | Some (n, w) \<Rightarrow> n)"
    and "put_experiment now org ws actor xid body db = (r, db')"
  shows "db' = db"
proof (cases "\<exists>view created. r = Inr (view, created, False)")
  case True
  then obtain view created where "r = Inr (view, created, False)" by blast
  with put_write [OF _ assms(2,3,1)] assms(4,5) show ?thesis by blast
next
  case False
  with put_quiet [OF assms(5)] show ?thesis by blast
qed

text \<open>
  C24. Updates of an experiment are serialised and none is lost. In any run of the store the accepted writes of an owner's
  experiment named the revisions 0, 1, 2 and so on in this order, so of two writers that have seen the same revision at
  most one was accepted. The owner then reads exactly the references of the last accepted write, under the number of
  accepted writes as revision, or is told that there is no such experiment if there was none; and a
  request that names another revision than that changes nothing.
\<close>

theorem experiment_updates_serialised:
  assumes "run_of xstep [] h db" and "experiment_key_of org ws actor xid = Inr k"
  shows "map fst (writes_of h k) = map int [0..<length (writes_of h k)] \<and>
    (if writes_of h k = [] then get_experiment org ws actor xid db = not_found ''WORK_EXPERIMENT_NOT_FOUND''
     else \<exists>d t. snd (last (writes_of h k)) = JDict d \<and>
       get_experiment org ws actor xid db = Inr (experiment_view k (int (length (writes_of h k))) t d)) \<and>
    (\<forall>now body data seen r db'. validate_experiment_put body = Inr (data, seen) \<and> seen \<noteq> int (length (writes_of h k)) \<and>
       put_experiment now org ws actor xid body db = (r, db') \<longrightarrow> db' = db)"
proof -
  have none: "experiment_at [] k = None" by (simp add: experiment_at_def find_by_def)
  note inv = exper.history_inv [OF assms(1) xinv_empty]
  note w = exper.history_writes [OF assms(1) xinv_empty none]
  from w get_at [OF inv assms(2)] stale_put [OF inv assms(2)] show ?thesis by (cases "writes_of h k = []") auto
qed

section \<open>A run\<close>

definition demo_put :: json_object where
  "demo_put = [(''expectedRevision'', JInt 0),
     (''datasetVersion'', JDict [(''kind'', JStr ''dataset''), (''resourceUri'', JStr ''s3://b/d''), (''resourceVersion'', JInt 3)])]"

definition demo_references :: json_object where
  "demo_references = [(''datasetVersion'', JDict [(''kind'', JStr ''dataset''), (''resourceUri'', JStr ''s3://b/d''), (''resourceVersion'', JInt 3)]),
     (''trainingRun'', JNull), (''trainingAttempt'', JNull), (''checkpointArtifactRef'', JNull), (''evaluationRun'', JNull),
     (''modelVersion'', JNull), (''deployment'', JNull), (''commit'', JNull)]"

definition demo_experiment :: experiment_key where
  "demo_experiment = ([], ''w'', ''u'', ''00000000-0000-0000-0000-00000000000a'')"

lemma demo_put_valid: "validate_experiment_put demo_put = Inr (demo_references, 0)"
  by code_simp

lemma demo_experiment_key: "experiment_key_of None ''w'' ''u'' ''00000000-0000-0000-0000-00000000000A'' = Inr demo_experiment"
  by code_simp

lemma demo_written: "\<exists>db. xstep [] (Some (demo_experiment, 0, canon (JDict demo_references))) db"
proof -
  have ok: "jok (JDict demo_references)" using put_data_ok [OF demo_put_valid] by blast
  then obtain digest where "request_digest demo_references 0 = Inr digest"
    by (auto simp: request_digest_def work_digest_def work_json_text_def json_text_def small_int_ok)
  with ok demo_put_valid demo_experiment_key have
    "\<exists>view db. put_experiment 1 None ''w'' ''u'' ''00000000-0000-0000-0000-00000000000A'' demo_put [] = (Inr (view, True, False), db)"
    by (simp add: put_experiment_def new_experiment_def find_by_def insert_by_def work_json_text_def json_text_def demo_experiment_def)
  with demo_put_valid demo_experiment_key show ?thesis unfolding xstep_def by fastforce
qed

theorem experiment_updates_serialised_witness:
  "\<exists>db t. run_of xstep [] [(demo_experiment, 0, canon (JDict demo_references))] db \<and>
     get_experiment None ''w'' ''u'' ''00000000-0000-0000-0000-00000000000A'' db =
       Inr (experiment_view demo_experiment 1 t (sort_key fst (canon_items demo_references)))"
proof -
  from demo_written obtain db where "xstep [] (Some (demo_experiment, 0, canon (JDict demo_references))) db" by blast
  then have run: "run_of xstep [] [(demo_experiment, 0, canon (JDict demo_references))] db"
    using run_some [of xstep "[]" "[]" "[]" "(demo_experiment, 0, canon (JDict demo_references))" db] by (simp add: run_nil)
  from experiment_updates_serialised [OF run demo_experiment_key] run show ?thesis
    by (auto simp: writes_of_def)
qed

end
