(* ===== verification/Flow_Base.thy ===== *)
theory Flow_Base
  imports Resources
begin

text \<open>
  What the validators of workflow definitions in \<open>work/store.py\<close> share: the cron schedule, the notification policy, the
  lists of texts, and the generic version 1. The time zone database of the host is the parameter \<open>zones\<close>: whether
  \<open>ZoneInfo(name)\<close> finds the zone, raises \<open>ZoneInfoNotFoundError\<close>, or raises something else.
\<close>

section \<open>Shapes\<close>

datatype zone_lookup = Zone | No_zone | Zone_fails error

type_synonym zones = "string \<Rightarrow> zone_lookup"

definition check_zone :: "zones \<Rightarrow> string \<Rightarrow> string \<Rightarrow> unit res" where
  "check_zone zones code name = (case zones name of
     Zone \<Rightarrow> Inr () | No_zone \<Rightarrow> invalid code | Zone_fails e \<Rightarrow> Inl e)"

text \<open>\<open>value in {...}\<close> for a set of texts: a list or an object cannot be hashed.\<close>

definition in_names :: "json \<Rightarrow> string list \<Rightarrow> bool res" where
  "in_names v names = (case v of
     JStr s \<Rightarrow> Inr (s \<in> set names) | JList _ \<Rightarrow> Inl TypeError | JDict _ \<Rightarrow> Inl TypeError | _ \<Rightarrow> Inr False)"

definition is_bool :: "json \<Rightarrow> bool" where
  "is_bool v = (case v of JBool b \<Rightarrow> True | _ \<Rightarrow> False)"

text \<open>A description may be any text of bounded length; it defaults to the empty one.\<close>

definition description_of :: "string \<Rightarrow> json_object \<Rightarrow> string res" where
  "description_of code d = (case dget_or d ''description'' (JStr []) of
     JStr s \<Rightarrow> if length s > 20000 then invalid code else Inr s
   | _ \<Rightarrow> invalid code)"

text \<open>\<open>str.isdigit\<close> on code points below 256: the superscripts one, two and three are digits too.\<close>

definition py_isdigit :: "string \<Rightarrow> bool" where
  "py_isdigit s \<longleftrightarrow> s \<noteq> [] \<and> list_all (\<lambda>c. is_digit c \<or> (of_char c :: nat) \<in> {178, 179, 185}) s"

text \<open>\<open>[^/\s]+/[^/\s]+\<close> with \<open>re.fullmatch\<close>.\<close>

definition repository_label :: "string \<Rightarrow> bool" where
  "repository_label s = (case split_on (CHR ''/'') s of
     [a, b] \<Rightarrow> a \<noteq> [] \<and> b \<noteq> [] \<and> \<not> list_ex py_space (a @ b) | _ \<Rightarrow> False)"

definition github_uri :: "string \<Rightarrow> string" where
  "github_uri label = ''https://github.com/'' @ label"

text \<open>The identity of a normalised target.\<close>

definition text_at :: "json_object \<Rightarrow> string \<Rightarrow> string" where
  "text_at d k = (case dget d k of JStr s \<Rightarrow> s | _ \<Rightarrow> [])"

definition target_kind :: "json_object list \<Rightarrow> string \<Rightarrow> string option" where
  "target_kind ts i = map_option (\<lambda>t. text_at t ''kind'') (List.find (\<lambda>t. text_at t ''id'' = i) ts)"

definition updated_at_of :: "json \<Rightarrow> json_object res" where
  "updated_at_of v = (if v = JNull then Inr [] else bindE (bounded_text v 128 False) (\<lambda>t. Inr [(''updatedAt'', JStr t)]))"

definition bounded_list :: "nat \<Rightarrow> nat \<Rightarrow> json \<Rightarrow> string \<Rightarrow> json list res" where
  "bounded_list lo hi v code = (case v of
     JList l \<Rightarrow> if lo \<le> length l \<and> length l \<le> hi then Inr l else invalid code
   | _ \<Rightarrow> invalid code)"

section \<open>Schedules and notifications\<close>

definition cron :: "string \<Rightarrow> string \<Rightarrow> json_object" where
  "cron expression time_zone = [(''kind'', JStr ''cron''), (''expression'', JStr expression), (''timeZone'', JStr time_zone)]"

abbreviation bad_trigger2 :: "'a res" where
  "bad_trigger2 \<equiv> invalid ''WORK_WORKFLOW_V2_TRIGGER_INVALID''"

definition validate_workflow_schedule :: "zones \<Rightarrow> json \<Rightarrow> json_object res" where
  "validate_workflow_schedule zones v = (case v of
     JDict d \<Rightarrow>
       if \<not> keys_are d [''kind'', ''expression'', ''timeZone''] \<or> dget d ''kind'' \<noteq> JStr ''cron'' then bad_trigger2
       else
         bindE (bounded_text (dget d ''expression'') 256 False) (\<lambda>expression.
         bindE (bounded_text (dget d ''timeZone'') 128 False) (\<lambda>time_zone.
         bindE (check_zone zones ''WORK_WORKFLOW_V2_TRIGGER_INVALID'' time_zone) (\<lambda>_. Inr (cron expression time_zone))))
   | _ \<Rightarrow> bad_trigger2)"

text \<open>\<open>(?:[01]\d|2[0-3]):[0-5]\d\<close>.\<close>

definition clock_text :: "json \<Rightarrow> bool" where
  "clock_text v = (case v of
     JStr [a, b, c, d, e] \<Rightarrow> ((a \<in> set ''01'' \<and> is_digit b) \<or> (a = CHR ''2'' \<and> b \<in> set ''0123'')) \<and>
       c = CHR '':'' \<and> d \<in> set ''012345'' \<and> is_digit e
   | _ \<Rightarrow> False)"

abbreviation bad_notifications2 :: "'a res" where
  "bad_notifications2 \<equiv> invalid ''WORK_WORKFLOW_V2_NOTIFICATIONS_INVALID''"

definition quiet_hours_of :: "zones \<Rightarrow> json \<Rightarrow> json_object res" where
  "quiet_hours_of zones v = (case v of
     JDict q \<Rightarrow>
       if \<not> keys_are q [''start'', ''end'', ''timeZone''] then bad_notifications2
       else if \<not> clock_text (dget q ''start'') \<or> \<not> clock_text (dget q ''end'') then bad_notifications2
       else
         bindE (bounded_text (dget q ''timeZone'') 128 False) (\<lambda>zone.
         bindE (check_zone zones ''WORK_WORKFLOW_V2_NOTIFICATIONS_INVALID'' zone) (\<lambda>_.
           Inr [(''start'', dget q ''start''), (''end'', dget q ''end''), (''timeZone'', JStr zone)]))
   | _ \<Rightarrow> bad_notifications2)"

definition digest_policy_of :: "json \<Rightarrow> json_object res" where
  "digest_policy_of v = (case v of
     JDict p \<Rightarrow>
       if \<not> keys_are p [''enabled'', ''schedule'', ''maxPerDay''] then bad_notifications2
       else if \<not> is_bool (dget p ''enabled'') \<or> \<not> py_eq (dget p ''maxPerDay'') (JInt 1) then bad_notifications2
       else Inr p
   | _ \<Rightarrow> bad_notifications2)"

definition immediate_kinds :: "string list" where
  "immediate_kinds = [''blocked_goal'', ''user_decision'', ''service_or_auth_outage'']"

definition immediate_on_of :: "json \<Rightarrow> json res" where
  "immediate_on_of v = (case v of
     JList l \<Rightarrow>
       if \<not> list_all hashable l then Inl TypeError
       else if \<not> list_all (\<lambda>x. x \<in> JStr ` set immediate_kinds) l then bad_notifications2
       else if \<not> distinct l then bad_notifications2
       else Inr v
   | _ \<Rightarrow> bad_notifications2)"

definition notification_fields :: "string list" where
  "notification_fields = [''onChange'', ''onFailure'', ''onRecovery'', ''quietWhenUnchanged'', ''quietHours'', ''digest'',
     ''destination'', ''immediateOn'']"

definition validate_workflow_notifications_v2 :: "zones \<Rightarrow> json \<Rightarrow> json_object res" where
  "validate_workflow_notifications_v2 zones v = (case v of
     JDict d \<Rightarrow>
       if \<not> keys_are d notification_fields then bad_notifications2
       else if \<not> list_all (\<lambda>k. is_bool (dget d k)) [''onChange'', ''onFailure'', ''onRecovery'']
         \<or> dget d ''quietWhenUnchanged'' \<noteq> JBool True then bad_notifications2
       else
         bindE (quiet_hours_of zones (dget d ''quietHours'')) (\<lambda>quiet.
         bindE (digest_policy_of (dget d ''digest'')) (\<lambda>policy.
         if dget d ''destination'' \<noteq> JDict [(''kind'', JStr ''responsibility_thread'')] then bad_notifications2
         else
           bindE (immediate_on_of (dget d ''immediateOn'')) (\<lambda>immediate.
           bindE (validate_workflow_schedule zones (dget policy ''schedule'')) (\<lambda>schedule.
             Inr [(''onChange'', dget d ''onChange''), (''onFailure'', dget d ''onFailure''), (''onRecovery'', dget d ''onRecovery''),
               (''quietWhenUnchanged'', JBool True), (''quietHours'', JDict quiet),
               (''digest'', JDict [(''enabled'', dget policy ''enabled''), (''schedule'', JDict schedule), (''maxPerDay'', JInt 1)]),
               (''destination'', JDict [(''kind'', JStr ''responsibility_thread'')]), (''immediateOn'', immediate)]))))
   | _ \<Rightarrow> bad_notifications2)"

section \<open>Version 1\<close>

abbreviation bad_workflow :: "'a res" where
  "bad_workflow \<equiv> invalid ''WORK_WORKFLOW_INVALID''"

definition v1_target :: "json \<Rightarrow> json_object res" where
  "v1_target v = (case v of
     JDict d \<Rightarrow>
       bindE (work_identifier_of (dget d ''id'')) (\<lambda>i.
       bindE (bounded_text (dget d ''label'') 512 False) (\<lambda>label.
       bindE (bounded_text (dget d ''kind'') 128 False) (\<lambda>kind.
       bindE (if jtruthy (dget d ''bindingId'')
              then bindE (work_identifier_of (dget d ''bindingId'')) (\<lambda>b. Inr [(''bindingId'', JStr b)]) else Inr []) (\<lambda>binding.
       bindE (if jtruthy (dget d ''uri'')
              then bindE (bounded_text (dget d ''uri'') 2000 False) (\<lambda>u. Inr [(''uri'', JStr u)]) else Inr []) (\<lambda>uri.
         Inr ([(''id'', JStr i), (''label'', JStr label), (''kind'', JStr kind)] @ binding @ uri))))))
   | _ \<Rightarrow> bad_workflow)"

definition v1_notifications :: "json \<Rightarrow> json_object res" where
  "v1_notifications v = (case v of
     JDict d \<Rightarrow>
       if \<not> list_all (\<lambda>k. is_bool (dget d k)) [''onChange'', ''onFailure'', ''onRecovery''] then bad_workflow
       else if dget d ''quietWhenUnchanged'' \<noteq> JBool True then bad_workflow
       else Inr [(''onChange'', dget d ''onChange''), (''onFailure'', dget d ''onFailure''), (''onRecovery'', dget d ''onRecovery''),
         (''quietWhenUnchanged'', JBool True)]
   | _ \<Rightarrow> bad_workflow)"

definition v1_schedule :: "zones \<Rightarrow> json \<Rightarrow> json_object res" where
  "v1_schedule zones v = (case v of
     JNull \<Rightarrow> Inr []
   | JDict d \<Rightarrow>
       if dget d ''kind'' \<noteq> JStr ''cron'' then invalid ''WORK_WORKFLOW_INVALID_SCHEDULE''
       else
         bindE (bounded_text (dget d ''expression'') 256 False) (\<lambda>expression.
         bindE (bounded_text (dget d ''timeZone'') 128 False) (\<lambda>time_zone.
         bindE (check_zone zones ''WORK_WORKFLOW_INVALID_SCHEDULE'' time_zone) (\<lambda>_.
           Inr [(''schedule'', JDict (cron expression time_zone))])))
   | _ \<Rightarrow> invalid ''WORK_WORKFLOW_INVALID_SCHEDULE'')"

definition validate_workflow_v1 :: "zones \<Rightarrow> json_object \<Rightarrow> json_object res" where
  "validate_workflow_v1 zones d =
    bindE (work_identifier_of (dget d ''id'')) (\<lambda>i.
    if \<not> py_eq (dget d ''version'') (JInt 1) \<or> \<not> is_bool (dget d ''enabled'') then bad_workflow
    else
      bindE (bounded_text (dget d ''title'') 512 False) (\<lambda>title.
      bindE (bounded_text (dget d ''instructions'') 100000 False) (\<lambda>instructions.
      bindE (description_of ''WORK_WORKFLOW_INVALID'' d) (\<lambda>description.
      case dget d ''targets'' of
        JList l \<Rightarrow>
          if length l > 100 then bad_workflow
          else
            bindE (mapE v1_target l) (\<lambda>targets.
            bindE (v1_notifications (dget d ''notifications'')) (\<lambda>notifications.
            bindE (v1_schedule zones (dget d ''schedule'')) (\<lambda>schedule.
              Inr ([(''id'', JStr i), (''version'', JInt 1), (''title'', JStr title), (''description'', JStr description),
                (''instructions'', JStr instructions), (''targets'', JList (map JDict targets)),
                (''notifications'', JDict notifications), (''enabled'', dget d ''enabled'')] @ schedule))))
      | _ \<Rightarrow> bad_workflow))))"

end
