(* ===== verification/Flow_V2.thy ===== *)
theory Flow_V2
  imports Flow_Base
begin

text \<open>
  Workflow definitions of version 2 (\<open>_validate_workflow_v2\<close> of \<open>work/store.py\<close>): proactive responsibilities with typed
  triggers, a model route, and grants that bind each autonomous action to repositories, branches, paths and issues.
\<close>

abbreviation bad_workflow2 :: "'a res" where
  "bad_workflow2 \<equiv> invalid ''WORK_WORKFLOW_V2_INVALID''"

abbreviation bad_target2 :: "'a res" where
  "bad_target2 \<equiv> invalid ''WORK_WORKFLOW_V2_TARGET_INVALID''"

abbreviation bad_policy2 :: "'a res" where
  "bad_policy2 \<equiv> invalid ''WORK_WORKFLOW_V2_ACTION_POLICY_INVALID''"

section \<open>Targets\<close>

text \<open>
  \<open>urlsplit\<close> first drops leading control characters and blanks and every tab and line break; the user information is
  what precedes the last \<open>@\<close> of the authority.
\<close>

definition url_clean :: "string \<Rightarrow> string" where
  "url_clean s = filter (\<lambda>c. (of_char c :: nat) \<notin> {9, 10, 13}) (dropWhile (\<lambda>c. (of_char c :: nat) \<le> 32) s)"

definition user_info :: "string \<Rightarrow> string" where
  "user_info n = rev (drop 1 (dropWhile (\<lambda>c. c \<noteq> CHR ''@'') (rev n)))"

definition has_credentials :: "string \<Rightarrow> bool" where
  "has_credentials n = (case cut_at (CHR '':'') (user_info n) of (user, password) \<Rightarrow> user \<noteq> [] \<or> password \<noteq> [])"

definition v2_uri :: "json \<Rightarrow> json_object res" where
  "v2_uri v = (if v = JNull then Inr []
     else
       bindE (bounded_text v 2000 False) (\<lambda>uri.
       case urlsplit (url_clean uri) of
         None \<Rightarrow> Inl ValueError
       | Some u \<Rightarrow>
           if has_credentials (su_netloc u) \<or> su_query u \<noteq> [] \<or> su_fragment u \<noteq> [] then bad_target2
           else if su_scheme u \<noteq> ''https'' \<or> su_netloc u = [] then bad_target2
           else Inr [(''uri'', JStr uri)]))"

definition v2_target :: "json \<Rightarrow> json_object res" where
  "v2_target v = (case v of
     JDict d \<Rightarrow>
       if \<not> keys_within d [''id'', ''label'', ''kind'', ''uri'', ''bindingId''] then bad_workflow2
       else
         bindE (work_identifier_of (dget d ''id'')) (\<lambda>i.
         bindE (bounded_text (dget d ''label'') 512 False) (\<lambda>label.
         bindE (bounded_text (dget d ''kind'') 128 False) (\<lambda>kind.
         bindE (if dget d ''bindingId'' = JNull then Inr []
                else bindE (work_identifier_of (dget d ''bindingId'')) (\<lambda>b. Inr [(''bindingId'', JStr b)])) (\<lambda>binding.
         bindE (v2_uri (dget d ''uri'')) (\<lambda>uri.
         if kind = ''github_repository'' \<and> (\<not> py_isdigit i \<or> \<not> repository_label label \<or> binding = []) then bad_target2
         else if kind = ''github_repository'' \<and> uri \<noteq> [(''uri'', JStr (github_uri label))] then bad_target2
         else Inr ([(''id'', JStr i), (''label'', JStr label), (''kind'', JStr kind)] @ binding @ uri))))))
   | _ \<Rightarrow> bad_workflow2)"

fun v2_targets :: "string list \<Rightarrow> json list \<Rightarrow> json_object list res" where
  "v2_targets seen [] = Inr []"
| "v2_targets seen (v # vs) =
    bindE (v2_target v) (\<lambda>t.
    if text_at t ''id'' \<in> set seen then bad_target2
    else bindE (v2_targets (text_at t ''id'' # seen) vs) (\<lambda>ts. Inr (t # ts)))"

section \<open>Triggers\<close>

text \<open>A search term must not smuggle in a qualifier: \<open>(?:^|\s)(?:repo|is|...):\<close>, ignoring case.\<close>

definition search_qualifiers :: "string list" where
  "search_qualifiers = [''repo:'', ''is:'', ''label:'', ''state:'', ''updated:'', ''author:'', ''assignee:'', ''milestone:'']"

fun has_qualifier :: "bool \<Rightarrow> string \<Rightarrow> bool" where
  "has_qualifier start [] = False"
| "has_qualifier start (c # s) \<longleftrightarrow>
    (start \<and> list_ex (\<lambda>q. starts_with q (py_lower (c # s))) search_qualifiers) \<or> has_qualifier (py_space c) s"

definition v2_search :: "json \<Rightarrow> json_object res" where
  "v2_search v = (case v of
     JDict d \<Rightarrow>
       if \<not> keys_within d [''state'', ''query'', ''labels'', ''limit''] \<or> \<not> keys_include d [''state'', ''labels'', ''limit''] then bad_trigger2
       else
         bindE (in_names (dget d ''state'') [''open'', ''closed'', ''all'']) (\<lambda>known.
         if \<not> known then bad_trigger2
         else
           bindE (if dget d ''query'' = JNull then Inr []
                  else bindE (bounded_text (dget d ''query'') 256 False) (\<lambda>q.
                    if has_qualifier True q then bad_trigger2 else Inr [(''query'', JStr q)])) (\<lambda>query.
           case dget d ''labels'' of
             JList l \<Rightarrow>
               if length l > 10 then bad_trigger2
               else
                 bindE (mapE (\<lambda>x. bounded_text x 128 False) l) (\<lambda>labels.
                 if \<not> distinct labels then bad_trigger2
                 else case dget d ''limit'' of
                   JInt n \<Rightarrow> if \<not> (1 \<le> n \<and> n \<le> 50) then bad_trigger2
                     else Inr ([(''state'', dget d ''state''), (''labels'', JList (map JStr labels)), (''limit'', JInt n)] @ query)
                 | _ \<Rightarrow> bad_trigger2)
           | _ \<Rightarrow> bad_trigger2))
   | _ \<Rightarrow> bad_trigger2)"

definition v2_trigger :: "zones \<Rightarrow> json_object list \<Rightarrow> string list \<Rightarrow> json \<Rightarrow> json_object res" where
  "v2_trigger zones targets seen v = (case v of
     JDict d \<Rightarrow>
       if \<not> keys_within d [''id'', ''kind'', ''schedule'', ''targetIds'', ''initialBaseline'', ''search''] then bad_trigger2
       else
         bindE (work_identifier_of (dget d ''id'')) (\<lambda>i.
         if i \<in> set seen \<or> i = ''daily-digest'' then bad_trigger2
         else
           bindE (in_names (dget d ''kind'') [''github_incremental_poll'', ''review'']) (\<lambda>known.
           if \<not> known then bad_trigger2
           else
             bindE (validate_workflow_schedule zones (dget d ''schedule'')) (\<lambda>schedule.
             case dget_or d ''targetIds'' (JList []) of
               JList l \<Rightarrow>
                 if length l > 100 then bad_trigger2
                 else
                   bindE (mapE work_identifier_of l) (\<lambda>ids.
                   let polls = (dget d ''kind'' = JStr ''github_incremental_poll'') in
                   if \<not> distinct ids \<or> \<not> list_all (\<lambda>x. target_kind targets x \<noteq> None) ids then bad_trigger2
                   else if polls \<and> (ids = [] \<or> \<not> list_all (\<lambda>x. target_kind targets x = Some ''github_repository'') ids) then bad_trigger2
                   else
                     bindE (if polls then bindE (v2_search (dget d ''search'')) (\<lambda>s. Inr [(''search'', JDict s)])
                            else if dget d ''search'' \<noteq> JNull then bad_trigger2 else Inr []) (\<lambda>search.
                     if dget_or d ''initialBaseline'' (JStr ''record_without_notification'') \<noteq> JStr ''record_without_notification''
                     then bad_trigger2
                     else Inr ([(''id'', JStr i), (''kind'', dget d ''kind''), (''schedule'', JDict schedule),
                       (''targetIds'', JList (map JStr ids)), (''initialBaseline'', JStr ''record_without_notification'')] @ search)))
             | _ \<Rightarrow> bad_trigger2)))
   | _ \<Rightarrow> bad_trigger2)"

fun v2_triggers :: "zones \<Rightarrow> json_object list \<Rightarrow> string list \<Rightarrow> json list \<Rightarrow> json_object list res" where
  "v2_triggers zones targets seen [] = Inr []"
| "v2_triggers zones targets seen (v # vs) =
    bindE (v2_trigger zones targets seen v) (\<lambda>t.
    bindE (v2_triggers zones targets (text_at t ''id'' # seen) vs) (\<lambda>ts. Inr (t # ts)))"

section \<open>Action grants\<close>

definition workflow_text_list :: "json \<Rightarrow> bool \<Rightarrow> nat \<Rightarrow> string list res" where
  "workflow_text_list v paths maximum = (case v of
     JList l \<Rightarrow>
       if length l > 100 then bad_policy2
       else
         bindE (mapE (\<lambda>x. bounded_text x maximum False) l) (\<lambda>items.
         if \<not> distinct items then bad_policy2
         else if paths \<and> list_ex (\<lambda>p. p \<noteq> ''**'' \<and> (starts_with ''/'' p \<or> ''..'' \<in> set (split_on (CHR ''/'') p) \<or>
             CHR 0x5C \<in> set p \<or> CHR ''*'' \<in> set p)) items then bad_policy2
         else Inr items)
   | _ \<Rightarrow> bad_policy2)"

definition valid_assistant_branch_prefix :: "string \<Rightarrow> bool" where
  "valid_assistant_branch_prefix s \<longleftrightarrow> starts_with ''cyrene/assistant/'' s \<and> CHR 0x5C \<notin> set s \<and> \<not> list_ex py_space s \<and>
     ''..'' \<notin> set (split_on (CHR ''/'') s)"

definition permitted_by_action :: "string \<Rightarrow> string list" where
  "permitted_by_action a =
    (if a = ''draft_pull_request'' then
       [''github.branch.create'', ''github.branch.delete'', ''github.file.commit'', ''github.pull_request.draft.create'']
     else if a = ''rerun_source_ci'' then [''github.actions.rerun_failed'']
     else [''github.issue.comment.create'', ''github.issue.state.update''])"

definition issue_numbers_of :: "json \<Rightarrow> int list res" where
  "issue_numbers_of v = (case v of
     JList l \<Rightarrow>
       if int (length l) > 10000 then bad_policy2
       else bindE (mapE (\<lambda>x. case x of JInt n \<Rightarrow> if n < 1 then bad_policy2 else Inr n | _ \<Rightarrow> bad_policy2) l) (\<lambda>ns. Inr (sort (remdups ns)))
   | _ \<Rightarrow> bad_policy2)"

text \<open>The scope each action must have: what it needs, and that it names nothing else.\<close>

definition grant_scope_ok :: "string \<Rightarrow> string list \<Rightarrow> string list \<Rightarrow> string list \<Rightarrow> string list \<Rightarrow> int list \<Rightarrow> string list \<Rightarrow> bool" where
  "grant_scope_ok action operations bases prefixes paths issues sources =
    (if action = ''draft_pull_request'' then
       set [''github.branch.create'', ''github.file.commit'', ''github.pull_request.draft.create''] \<subseteq> set operations \<and>
       bases \<noteq> [] \<and> prefixes \<noteq> [] \<and> paths \<noteq> [] \<and> issues = [] \<and> sources = [] \<and> list_all valid_assistant_branch_prefix prefixes
     else if action = ''rerun_source_ci'' then
       operations = [''github.actions.rerun_failed''] \<and> bases = [] \<and> paths = [] \<and> issues = [] \<and> prefixes \<noteq> [] \<and> sources \<noteq> [] \<and>
       list_all valid_assistant_branch_prefix prefixes
     else
       issues \<noteq> [] \<and> set operations \<subseteq> set [''github.issue.comment.create'', ''github.issue.state.update''] \<and>
       bases = [] \<and> prefixes = [] \<and> paths = [] \<and> sources = [])"

definition workflow_number :: "string \<Rightarrow> bool" where
  "workflow_number s \<longleftrightarrow> s \<noteq> [] \<and> list_all is_digit s \<and> hd s \<noteq> CHR ''0'' \<and> length s \<le> 20"

definition action_names :: "string list" where
  "action_names = [''draft_pull_request'', ''rerun_source_ci'', ''update_issue_progress'']"

definition v2_grant :: "json_object list \<Rightarrow> string list \<Rightarrow> json \<Rightarrow> json_object res" where
  "v2_grant targets seen v = (case v of
     JDict d \<Rightarrow>
       if \<not> keys_include d [''id'', ''action'', ''targetIds'', ''permittedOperations'', ''sourceWorkflowIds''] \<or>
          \<not> keys_within d [''id'', ''action'', ''targetIds'', ''permittedOperations'', ''sourceWorkflowIds'', ''baseBranches'', ''branchPrefixes'',
             ''pathPrefixes'', ''issueNumbers''] then bad_policy2
       else
         bindE (work_identifier_of (dget d ''id'')) (\<lambda>i.
         if i \<in> set seen then bad_policy2
         else
           bindE (in_names (dget d ''action'') action_names) (\<lambda>known.
           if \<not> known then bad_policy2
           else case dget d ''targetIds'' of
             JList (t # ts) \<Rightarrow>
               bindE (mapE work_identifier_of (t # ts)) (\<lambda>ids.
               if \<not> distinct ids \<or> \<not> list_all (\<lambda>x. target_kind targets x = Some ''github_repository'') ids then bad_policy2
               else case dget d ''permittedOperations'' of
                 JList (op # ops) \<Rightarrow>
                   if length (op # ops) > 20 then bad_policy2
                   else
                     let action = text_at d ''action'' in
                     bindE (mapE (\<lambda>x. bounded_text x 128 False) (op # ops)) (\<lambda>operations.
                     if \<not> distinct operations \<or> \<not> set operations \<subseteq> set (permitted_by_action action) then bad_policy2
                     else
                       bindE (workflow_text_list (dget_or d ''baseBranches'' (JList [])) False 256) (\<lambda>bases.
                       bindE (workflow_text_list (dget_or d ''branchPrefixes'' (JList [])) False 256) (\<lambda>prefixes.
                       bindE (workflow_text_list (dget_or d ''pathPrefixes'' (JList [])) True 512) (\<lambda>paths.
                       bindE (workflow_text_list (dget d ''sourceWorkflowIds'') False 20) (\<lambda>sources.
                       if \<not> list_all workflow_number sources then bad_policy2
                       else
                         bindE (issue_numbers_of (dget_or d ''issueNumbers'' (JList []))) (\<lambda>issues.
                         if \<not> grant_scope_ok action operations bases prefixes paths issues sources then bad_policy2
                         else Inr [(''id'', JStr i), (''action'', JStr action), (''targetIds'', JList (map JStr ids)),
                           (''baseBranches'', JList (map JStr bases)), (''branchPrefixes'', JList (map JStr prefixes)),
                           (''pathPrefixes'', JList (map JStr paths)), (''issueNumbers'', JList (map JInt issues)),
                           (''sourceWorkflowIds'', JList (map JStr (sort sources))), (''permittedOperations'', JList (map JStr operations))]))))))
               | _ \<Rightarrow> bad_policy2)
           | _ \<Rightarrow> bad_policy2))
   | _ \<Rightarrow> bad_policy2)"

fun v2_grants :: "json_object list \<Rightarrow> string list \<Rightarrow> json list \<Rightarrow> json_object list res" where
  "v2_grants targets seen [] = Inr []"
| "v2_grants targets seen (v # vs) =
    bindE (v2_grant targets seen v) (\<lambda>g.
    bindE (v2_grants targets (text_at g ''id'' # seen) vs) (\<lambda>gs. Inr (g # gs)))"

definition user_authorized :: json where
  "user_authorized = JList (map JStr [''merge'', ''release'', ''production'', ''new_spend''])"

definition v2_action_policy :: "json_object list \<Rightarrow> json \<Rightarrow> json_object res" where
  "v2_action_policy targets v = (case v of
     JDict d \<Rightarrow>
       if \<not> keys_within d [''allowedActions'', ''separateChildTask'', ''productionChanges'', ''requiresUserAuthorization''] then bad_policy2
       else case dget_or d ''allowedActions'' (JList []) of
         JList l \<Rightarrow>
           if length l > 100 then bad_policy2
           else
             bindE (v2_grants targets [] l) (\<lambda>grants.
             if dget_or d ''separateChildTask'' (JBool True) \<noteq> JBool True \<or>
                dget_or d ''productionChanges'' (JStr ''forbidden'') \<noteq> JStr ''forbidden'' then bad_policy2
             else if dget_or d ''requiresUserAuthorization'' user_authorized \<noteq> user_authorized then bad_policy2
             else Inr [(''allowedActions'', JList (map JDict grants)), (''separateChildTask'', JBool True),
               (''productionChanges'', JStr ''forbidden''), (''requiresUserAuthorization'', user_authorized)])
       | _ \<Rightarrow> bad_policy2
   | _ \<Rightarrow> bad_policy2)"

section \<open>The definition\<close>

definition v2_model_policy :: "json \<Rightarrow> json_object res" where
  "v2_model_policy v =
    (let bad = invalid ''WORK_WORKFLOW_V2_MODEL_POLICY_INVALID'' in
     case v of
       JDict d \<Rightarrow>
         if \<not> keys_are d [''preferredProvider'', ''preferredModel'', ''fallback''] then bad
         else
           bindE (in_names (dget d ''preferredProvider'') [''antigravity'', ''codebuddy'', ''exchange'']) (\<lambda>known.
           if \<not> known then bad
           else if dget d ''fallback'' \<noteq> JStr ''configured_no_additional_spend'' then bad
           else
             bindE (bounded_text (dget d ''preferredModel'') 256 False) (\<lambda>model.
               Inr [(''preferredProvider'', dget d ''preferredProvider''), (''preferredModel'', JStr model),
                 (''fallback'', JStr ''configured_no_additional_spend'')]))
     | _ \<Rightarrow> bad)"

definition v2_authorization :: "json \<Rightarrow> json_object res" where
  "v2_authorization v = (case v of
     JDict d \<Rightarrow>
       if \<not> keys_are d [''kind'', ''threadBindingId'', ''ownerTaskId''] \<or> dget d ''kind'' \<noteq> JStr ''teams_thread''
       then invalid ''WORK_WORKFLOW_V2_AUTHORIZATION_INVALID''
       else
         bindE (work_identifier_of (dget d ''threadBindingId'')) (\<lambda>thread.
         bindE (work_identifier_of (dget d ''ownerTaskId'')) (\<lambda>task.
           Inr [(''kind'', JStr ''teams_thread''), (''threadBindingId'', JStr thread), (''ownerTaskId'', JStr task)]))
   | _ \<Rightarrow> invalid ''WORK_WORKFLOW_V2_AUTHORIZATION_INVALID'')"

definition workflow2_fields :: "string list" where
  "workflow2_fields = [''id'', ''version'', ''title'', ''description'', ''goal'', ''instructions'', ''targets'', ''triggers'',
     ''actionPolicy'', ''modelPolicy'', ''authorization'', ''notifications'', ''enabled'', ''updatedAt'']"

definition validate_workflow_v2 :: "zones \<Rightarrow> json_object \<Rightarrow> json_object res" where
  "validate_workflow_v2 zones d =
    (if \<not> keys_within d workflow2_fields \<or> \<not> py_eq (dget d ''version'') (JInt 2) \<or> \<not> is_bool (dget d ''enabled'')
     then bad_workflow2
     else
       bindE (work_identifier_of (dget d ''id'')) (\<lambda>i.
       bindE (bounded_text (dget d ''title'') 512 False) (\<lambda>title.
       bindE (bounded_text (dget d ''goal'') 20000 False) (\<lambda>goal.
       bindE (bounded_text (dget d ''instructions'') 100000 False) (\<lambda>instructions.
       bindE (description_of ''WORK_WORKFLOW_V2_INVALID'' d) (\<lambda>description.
       bindE (bounded_list 0 100 (dget d ''targets'') ''WORK_WORKFLOW_V2_INVALID'') (\<lambda>tvs.
       bindE (v2_targets [] tvs) (\<lambda>targets.
       bindE (bounded_list 1 100 (dget d ''triggers'') ''WORK_WORKFLOW_V2_TRIGGER_INVALID'') (\<lambda>pvs.
       bindE (v2_triggers zones targets [] pvs) (\<lambda>triggers.
       bindE (v2_action_policy targets (dget d ''actionPolicy'')) (\<lambda>policy.
       bindE (v2_model_policy (dget d ''modelPolicy'')) (\<lambda>model.
       bindE (v2_authorization (dget d ''authorization'')) (\<lambda>auth.
       bindE (validate_workflow_notifications_v2 zones (dget d ''notifications'')) (\<lambda>notifications.
       if dget d ''enabled'' = JBool True \<and> targets = [] then bad_workflow2
       else
         bindE (updated_at_of (dget d ''updatedAt'')) (\<lambda>updated.
           Inr ([(''id'', JStr i), (''version'', JInt 2), (''title'', JStr title), (''description'', JStr description), (''goal'', JStr goal),
             (''instructions'', JStr instructions), (''enabled'', dget d ''enabled''), (''targets'', JList (map JDict targets)),
             (''triggers'', JList (map JDict triggers)), (''actionPolicy'', JDict policy), (''modelPolicy'', JDict model),
             (''authorization'', JDict auth), (''notifications'', JDict notifications)] @ updated))))))))))))))))"

end
