(* ===== verification/Flow_V3.thy ===== *)
theory Flow_V3
  imports Flow_Base
begin

text \<open>
  Workflow definitions of version 3 (\<open>_validate_workflow_v3\<close> of \<open>work/store.py\<close>): polls of typed sources on an approved
  schedule, bound to configured targets, with notices to the owner alone.
\<close>

abbreviation bad_target3 :: "'a res" where
  "bad_target3 \<equiv> invalid ''WORK_WORKFLOW_V3_TARGET_INVALID''"

abbreviation bad_trigger3 :: "'a res" where
  "bad_trigger3 \<equiv> invalid ''WORK_WORKFLOW_V3_TRIGGER_INVALID''"

abbreviation bad_notifications3 :: "'a res" where
  "bad_notifications3 \<equiv> invalid ''WORK_WORKFLOW_V3_NOTIFICATIONS_INVALID''"

abbreviation bad_workflow3 :: "'a res" where
  "bad_workflow3 \<equiv> invalid ''WORK_WORKFLOW_V3_INVALID''"

section \<open>Targets\<close>

definition target_kinds3 :: "string list" where
  "target_kinds3 = [''github_repository'', ''github_actions_workflow'', ''pipeline_runs'', ''release_deployments'', ''planner_plan'',
     ''host_health'', ''training_run'', ''product_resource'']"

text \<open>\<open>[1-9][0-9]{0,n-1}\<close>.\<close>

definition positive_text :: "nat \<Rightarrow> string \<Rightarrow> bool" where
  "positive_text n s \<longleftrightarrow> s \<noteq> [] \<and> list_all is_digit s \<and> hd s \<noteq> CHR ''0'' \<and> length s \<le> n"

definition actions_workflow_id :: "string \<Rightarrow> bool" where
  "actions_workflow_id s = (case split_on (CHR '':'') s of
     [p, a, b] \<Rightarrow> p = ''github-actions-workflow'' \<and> positive_text 19 a \<and> positive_text 20 b | _ \<Rightarrow> False)"

definition actions_label :: "string \<Rightarrow> bool" where
  "actions_label s = (case split_on (CHR ''/'') s of
     [a, b] \<Rightarrow> a \<noteq> [] \<and> b \<noteq> [] \<and> list_all (\<lambda>c. is_alnum c \<or> c \<in> set ''_.-'') (a @ b) | _ \<Rightarrow> False)"

definition v3_target :: "json \<Rightarrow> json_object res" where
  "v3_target v = (case v of
     JDict d \<Rightarrow>
       if \<not> keys_include d [''id'', ''label'', ''kind'', ''bindingId''] \<or>
          \<not> keys_within d [''id'', ''label'', ''kind'', ''bindingId'', ''uri''] then bad_target3
       else
         bindE (work_identifier_of (dget d ''id'')) (\<lambda>i.
         bindE (bounded_text (dget d ''label'') 512 False) (\<lambda>label.
         bindE (in_names (dget d ''kind'') target_kinds3) (\<lambda>known.
         if \<not> known then bad_target3
         else
           bindE (work_identifier_of (dget d ''bindingId'')) (\<lambda>binding.
           let kind = text_at d ''kind'';
               target = [(''id'', JStr i), (''label'', JStr label), (''kind'', JStr kind), (''bindingId'', JStr binding)] in
           if kind = ''github_repository'' then
             if \<not> py_isdigit i \<or> \<not> repository_label label \<or> dget d ''uri'' \<noteq> JStr (github_uri label) then bad_target3
             else bindE (safe_resource_uri (dget d ''uri'')) (\<lambda>uri. Inr (target @ [(''uri'', JStr uri)]))
           else if kind = ''github_actions_workflow'' then
             if \<not> actions_workflow_id i \<or> \<not> actions_label label \<or> dget d ''uri'' \<noteq> JNull then bad_target3 else Inr target
           else if dget d ''uri'' \<noteq> JNull then bad_target3
           else Inr target))))
   | _ \<Rightarrow> bad_target3)"

fun v3_targets :: "string list \<Rightarrow> json list \<Rightarrow> json_object list res" where
  "v3_targets seen [] = Inr []"
| "v3_targets seen (v # vs) =
    bindE (v3_target v) (\<lambda>t.
    if text_at t ''id'' \<in> set seen then bad_target3
    else bindE (v3_targets (text_at t ''id'' # seen) vs) (\<lambda>ts. Inr (t # ts)))"

section \<open>Triggers\<close>

definition sources3 :: "string list" where
  "sources3 = [''github'', ''azure_devops'', ''office_graph'', ''vm_health'', ''training'', ''product'']"

definition kinds_of_source :: "string \<Rightarrow> string list" where
  "kinds_of_source s = (if s = ''github'' then [''github_repository'', ''github_actions_workflow'']
     else if s = ''azure_devops'' then [''pipeline_runs'', ''release_deployments'']
     else if s = ''office_graph'' then [''planner_plan'']
     else if s = ''vm_health'' then [''host_health'']
     else if s = ''training'' then [''training_run'']
     else [''product_resource''])"

definition poll_interval :: "string \<Rightarrow> string" where
  "poll_interval s = (if s \<in> set [''github'', ''azure_devops'', ''office_graph''] then ''*/5 * * * *'' else ''* * * * *'')"

definition quiet_baseline :: json where
  "quiet_baseline = JStr ''record_without_notification''"

text \<open>The page size and the number of pages: each in range, and at most 1,000 records together.\<close>

definition page_limits :: "json_object \<Rightarrow> (int \<times> int) option" where
  "page_limits d = (case (dget_or d ''pageSize'' (JInt 50), dget_or d ''maxPages'' (JInt 20)) of
     (JInt p, JInt m) \<Rightarrow> if 1 \<le> p \<and> p \<le> 50 \<and> 1 \<le> m \<and> m \<le> 20 \<and> p * m \<le> 1000 then Some (p, m) else None
   | _ \<Rightarrow> None)"

definition bound_targets :: "json_object list \<Rightarrow> string \<Rightarrow> string list \<Rightarrow> bool" where
  "bound_targets targets source ids \<longleftrightarrow> distinct ids \<and>
     list_all (\<lambda>i. case target_kind targets i of None \<Rightarrow> False | Some k \<Rightarrow> k \<in> set (kinds_of_source source)) ids"

definition v3_trigger :: "zones \<Rightarrow> json_object list \<Rightarrow> string list \<Rightarrow> json \<Rightarrow> json_object res" where
  "v3_trigger zones targets seen v = (case v of
     JDict d \<Rightarrow>
       if \<not> keys_include d [''id'', ''kind'', ''source'', ''targetIds'', ''schedule''] \<or>
          \<not> keys_within d [''id'', ''kind'', ''source'', ''targetIds'', ''schedule'', ''initialBaseline'', ''pageSize'', ''maxPages'']
       then bad_trigger3
       else
         bindE (work_identifier_of (dget d ''id'')) (\<lambda>i.
         if dget d ''kind'' \<noteq> JStr ''source_poll'' then bad_trigger3
         else
           bindE (in_names (dget d ''source'') sources3) (\<lambda>known.
           if \<not> known then bad_trigger3
           else if i \<in> set seen then bad_trigger3
           else case dget d ''targetIds'' of
             JList l \<Rightarrow>
               if \<not> (1 \<le> length l \<and> length l \<le> 20) then bad_trigger3
               else
                 bindE (mapE work_identifier_of l) (\<lambda>ids.
                 let source = text_at d ''source'' in
                 if \<not> bound_targets targets source ids then bad_trigger3
                 else
                   bindE (validate_workflow_schedule zones (dget d ''schedule'')) (\<lambda>schedule.
                   if schedule \<noteq> cron (poll_interval source) ''UTC'' then bad_trigger3
                   else if dget_or d ''initialBaseline'' quiet_baseline \<noteq> quiet_baseline then bad_trigger3
                   else case page_limits d of
                     None \<Rightarrow> bad_trigger3
                   | Some (p, m) \<Rightarrow>
                       Inr [(''id'', JStr i), (''kind'', JStr ''source_poll''), (''source'', JStr source),
                         (''targetIds'', JList (map JStr ids)), (''schedule'', JDict schedule), (''initialBaseline'', quiet_baseline),
                         (''pageSize'', JInt p), (''maxPages'', JInt m)]))
           | _ \<Rightarrow> bad_trigger3))
   | _ \<Rightarrow> bad_trigger3)"

fun v3_triggers :: "zones \<Rightarrow> json_object list \<Rightarrow> string list \<Rightarrow> json list \<Rightarrow> json_object list res" where
  "v3_triggers zones targets seen [] = Inr []"
| "v3_triggers zones targets seen (v # vs) =
    bindE (v3_trigger zones targets seen v) (\<lambda>t.
    bindE (v3_triggers zones targets (text_at t ''id'' # seen) vs) (\<lambda>ts. Inr (t # ts)))"

section \<open>Authorization and notifications\<close>

definition v3_authorization :: "json \<Rightarrow> json_object res" where
  "v3_authorization v = (case v of
     JDict d \<Rightarrow>
       if dget d ''kind'' = JStr ''owner_private'' \<and> keys_are d [''kind'', ''ownerTaskId'']
       then bindE (work_identifier_of (dget d ''ownerTaskId'')) (\<lambda>task.
         Inr [(''kind'', JStr ''owner_private''), (''ownerTaskId'', JStr task)])
       else invalid ''WORK_WORKFLOW_V3_AUTHORIZATION_INVALID''
   | _ \<Rightarrow> invalid ''WORK_WORKFLOW_V3_AUTHORIZATION_INVALID'')"

definition digest_schedule :: json_object where
  "digest_schedule = cron ''0 9 * * 1-5'' ''America/New_York''"

definition validate_workflow_notifications_v3 :: "zones \<Rightarrow> json \<Rightarrow> json_object res" where
  "validate_workflow_notifications_v3 zones v = (case v of
     JDict d \<Rightarrow>
       if dget d ''destination'' \<noteq> JDict [(''kind'', JStr ''owner_private'')] then bad_notifications3
       else
         bindE (validate_workflow_notifications_v2 zones
           (JDict (dset d ''destination'' (JDict [(''kind'', JStr ''responsibility_thread'')])))) (\<lambda>result.
         if (case dget result ''digest'' of JDict p \<Rightarrow> dget p ''schedule'' \<noteq> JDict digest_schedule | _ \<Rightarrow> True)
         then bad_notifications3
         else Inr (dset result ''destination'' (JDict [(''kind'', JStr ''owner_private'')])))
   | _ \<Rightarrow> bad_notifications3)"

section \<open>The definition\<close>

definition workflow3_fields :: "string list" where
  "workflow3_fields = [''id'', ''version'', ''title'', ''description'', ''targets'', ''triggers'', ''authorization'',
     ''notifications'', ''enabled'', ''updatedAt'']"

definition validate_workflow_v3 :: "zones \<Rightarrow> json_object \<Rightarrow> json_object res" where
  "validate_workflow_v3 zones d =
    (if \<not> keys_within d workflow3_fields \<or> \<not> py_eq (dget d ''version'') (JInt 3) \<or> \<not> is_bool (dget d ''enabled'')
     then bad_workflow3
     else
       bindE (description_of ''WORK_WORKFLOW_V3_INVALID'' d) (\<lambda>description.
       bindE (work_identifier_of (dget d ''id'')) (\<lambda>i.
       bindE (bounded_text (dget d ''title'') 512 False) (\<lambda>title.
       bindE (bounded_list 1 100 (dget d ''targets'') ''WORK_WORKFLOW_V3_TARGET_INVALID'') (\<lambda>tvs.
       bindE (v3_targets [] tvs) (\<lambda>targets.
       bindE (bounded_list 1 100 (dget d ''triggers'') ''WORK_WORKFLOW_V3_TRIGGER_INVALID'') (\<lambda>pl.
       bindE (v3_triggers zones targets [] pl) (\<lambda>triggers.
       bindE (v3_authorization (dget d ''authorization'')) (\<lambda>auth.
       bindE (validate_workflow_notifications_v3 zones (dget d ''notifications'')) (\<lambda>notifications.
       if dget notifications ''destination'' \<noteq> JDict [(''kind'', JStr ''owner_private'')] then bad_notifications3
       else if dget d ''enabled'' = JBool True \<and> targets = [] then bad_workflow3
       else
         bindE (updated_at_of (dget d ''updatedAt'')) (\<lambda>updated.
           Inr ([(''id'', JStr i), (''version'', JInt 3), (''title'', JStr title), (''description'', JStr description),
             (''enabled'', dget d ''enabled''), (''targets'', JList (map JDict targets)), (''triggers'', JList (map JDict triggers)),
             (''authorization'', JDict auth), (''notifications'', JDict notifications)] @ updated))))))))))))"

end
