(* ===== verification/Flow_Store.thy ===== *)
theory Flow_Store
  imports Flow_V2 Flow_V3 Work_Outbox
begin

text \<open>
  The workflow table of \<open>work/store.py\<close>: \<open>put_workflow\<close> validates a definition of version 1, 2 or 3, checks who may write
  it and stores it; \<open>list_workflows\<close> reads the definitions of one version. Definitions of version 3 are private: they
  belong to the actor that wrote them first.
\<close>

section \<open>Times\<close>

text \<open>
  \<open>_iso_utc\<close>: the clock in milliseconds, divided by 1,000 as a double, split into seconds and microseconds rounded to the
  nearest even, and written with milliseconds. Years after 9999 are a \<open>ValueError\<close>.
\<close>

definition from_timestamp :: "int \<times> int \<Rightarrow> int \<times> int" where
  "from_timestamp x =
    (let secs = fst x div snd x;
         scaled = float_mult (fst x mod snd x, snd x) 1000000;
         us = round_half_even (fst scaled) (snd scaled) in
     if us \<ge> 1000000 then (secs + 1, us - 1000000) else (secs, us))"

fun month_of :: "nat \<Rightarrow> int \<Rightarrow> int \<Rightarrow> int \<Rightarrow> int \<times> int" where
  "month_of 0 y m d = (m, d)"
| "month_of (Suc n) y m d = (if d > days_in_month y m then month_of n y (m + 1) (d - days_in_month y m) else (m, d))"

text \<open>The inverse of \<open>date_ordinal\<close>.\<close>

definition ymd_of :: "int \<Rightarrow> int \<times> int \<times> int" where
  "ymd_of ordinal =
    (let n = ordinal - 1; n400 = n div 146097; n = n mod 146097; n100 = n div 36524; n = n mod 36524; n4 = n div 1461;
         n = n mod 1461; n1 = n div 365; n = n mod 365; y = 400 * n400 + 100 * n100 + 4 * n4 + n1 + 1 in
     if n1 = 4 \<or> n100 = 4 then (y - 1, 12, 31)
     else case month_of 11 y 1 (n + 1) of (m, d) \<Rightarrow> (y, m, d))"

text \<open>\<open>%0wd\<close> of a number with at most \<open>w\<close> digits.\<close>

fun padded :: "nat \<Rightarrow> int \<Rightarrow> string" where
  "padded 0 n = []"
| "padded (Suc w) n = padded w (n div 10) @ [digit (n mod 10)]"

definition iso_utc :: "int \<Rightarrow> string res" where
  "iso_utc ms =
    (let (secs, us) = from_timestamp (float_div ms 1000);
         (y, m, d) = ymd_of (secs div 86400 + 719163);
         t = secs mod 86400 in
     if y < 1 \<or> y > 9999 then Inl ValueError
     else Inr (padded 4 y @ ''-'' @ padded 2 m @ ''-'' @ padded 2 d @ ''T'' @ padded 2 (t div 3600) @ '':'' @
       padded 2 (t mod 3600 div 60) @ '':'' @ padded 2 (t mod 60) @ ''.'' @ padded 3 (us div 1000) @ ''Z''))"

section \<open>Table\<close>

record workflow_row =
  wf_org :: string
  wf_ws :: string
  wf_id :: string
  wf_version :: int
  wf_json :: string
  wf_updated :: int
  wf_owner :: string

type_synonym workflow_key = "string \<times> string \<times> string"

definition wf_key :: "workflow_row \<Rightarrow> workflow_key" where
  "wf_key r = (wf_org r, wf_ws r, wf_id r)"

definition put_workflow_row :: "workflow_row \<Rightarrow> workflow_row list \<Rightarrow> workflow_row list" where
  "put_workflow_row r t = (if find_by wf_key (wf_key r) t = None then t @ [r]
     else edit_by wf_key (wf_key r) (\<lambda>x. x\<lparr>wf_version := wf_version r, wf_json := wf_json r, wf_updated := wf_updated r, wf_owner := wf_owner r\<rparr>) t)"

section \<open>Writing\<close>

definition validate_workflow :: "zones \<Rightarrow> json_object \<Rightarrow> json_object res" where
  "validate_workflow zones v =
    bindE (work_json_object (JDict v)) (\<lambda>d.
    if py_eq (dget d ''version'') (JInt 2) then validate_workflow_v2 zones d
    else if py_eq (dget d ''version'') (JInt 3) then validate_workflow_v3 zones d
    else validate_workflow_v1 zones d)"

text \<open>Who may replace a stored definition, and by which version.\<close>

definition may_replace :: "workflow_row option \<Rightarrow> string option \<Rightarrow> bool \<Rightarrow> unit res" where
  "may_replace prior actor v3 = (case prior of
     None \<Rightarrow> Inr ()
   | Some r \<Rightarrow>
       if wf_version r = 3 then
         if actor \<noteq> Some (wf_owner r) then not_found ''WORK_WORKFLOW_NOT_FOUND''
         else if \<not> v3 then conflict ''WORK_WORKFLOW_VERSION_CONFLICT''
         else Inr ()
       else if v3 then conflict ''WORK_WORKFLOW_VERSION_CONFLICT''
       else Inr ())"

text \<open>
  The provenance of a private definition: the owner's private route must resolve. The branch for a Teams thread is the
  code's; the validator of version 3 accepts no such authorization.
\<close>

definition check_owner_route :: "wdb \<Rightarrow> private_scope option \<Rightarrow> string \<Rightarrow> string \<Rightarrow> string \<Rightarrow> json_object \<Rightarrow> unit res" where
  "check_owner_route db scope org ws actor auth =
    (let task = text_at auth ''ownerTaskId'' in
     if dget auth ''kind'' = JStr ''owner_private'' then
       (case scope of
          None \<Rightarrow> raise FORBIDDEN 403
        | Some ps \<Rightarrow> bindE (resolve_private_teams_route db org ws task actor ps) (\<lambda>_. Inr ()))
     else
       (case find_task db (org, ws, task) of
          None \<Rightarrow> not_found ''WORK_TASK_NOT_FOUND''
        | Some t \<Rightarrow>
            if tk_creator t \<noteq> actor then not_found ''WORK_TASK_NOT_FOUND''
            else (case find_by to_key (org, ws, task) (w_origins db) of
                None \<Rightarrow> conflict ''WORK_WORKFLOW_V3_AUTHORIZATION_INVALID''
              | Some o' \<Rightarrow>
                  if py_lower (to_actor o') \<noteq> py_lower actor \<or> py_lower (to_subject o') \<noteq> py_lower actor
                  then conflict ''WORK_WORKFLOW_V3_AUTHORIZATION_INVALID''
                  else if \<not> dhas auth ''threadBindingId'' then Inl KeyError
                  else if to_thread o' \<noteq> text_at auth ''threadBindingId'' then conflict ''WORK_WORKFLOW_V3_AUTHORIZATION_INVALID''
                  else Inr ())))"

definition put_workflow ::
  "zones \<Rightarrow> int \<Rightarrow> wdb \<Rightarrow> string option \<Rightarrow> string \<Rightarrow> json_object \<Rightarrow> string option \<Rightarrow> private_scope option
   \<Rightarrow> workflow_row list \<Rightarrow> json_object res \<times> workflow_row list" where
  "put_workflow zones now db org ws workflow actor scope t = commit t (
    bindE (work_scope org ws) (\<lambda>(org, ws).
    bindE (validate_workflow zones workflow) (\<lambda>v.
    bindE (actor_of actor) (\<lambda>actor.
    let v3 = (dget v ''version'' = JInt 3) in
    if v3 \<and> actor = None then invalid ''WORK_WORKFLOW_OWNER_REQUIRED''
    else
      bindE (iso_utc now) (\<lambda>time.
      let v = dset v ''updatedAt'' (JStr time);
          wid = text_at v ''id'';
          owner = (case actor of None \<Rightarrow> [] | Some a \<Rightarrow> a) in
      bindE (may_replace (find_by wf_key (org, ws, wid) t) actor v3) (\<lambda>_.
      bindE (if v3 then (case dget v ''authorization'' of JDict auth \<Rightarrow> check_owner_route db scope org ws owner auth | _ \<Rightarrow> Inl TypeError)
             else Inr ()) (\<lambda>_.
      bindE (work_json_text (JDict v)) (\<lambda>text.
        Inr (v, put_workflow_row \<lparr>wf_org = org, wf_ws = ws, wf_id = wid,
          wf_version = (case dget v ''version'' of JInt n \<Rightarrow> n | _ \<Rightarrow> 0), wf_json = text, wf_updated = now,
          wf_owner = (if v3 then owner else [])\<rparr> t)))))))))"

section \<open>Reading\<close>

definition list_workflows :: "string option \<Rightarrow> string \<Rightarrow> int \<Rightarrow> string option \<Rightarrow> workflow_row list \<Rightarrow> json_object list res" where
  "list_workflows org ws version actor t =
    bindE (work_scope org ws) (\<lambda>(org, ws).
    if version \<notin> {1, 2, 3} then invalid ''WORK_WORKFLOW_VERSION_UNSUPPORTED''
    else if version = 3 \<and> actor = None then raise ''WORK_WORKFLOW_OWNER_REQUIRED'' 403
    else
      bindE (if version = 3 then (case actor of Some a \<Rightarrow> work_identifier a | None \<Rightarrow> Inr []) else Inr []) (\<lambda>actor.
      mapE (\<lambda>r. stored_object (wf_json r))
        (sort_key wf_id (filter (\<lambda>r. wf_org r = org \<and> wf_ws r = ws \<and> wf_version r = version \<and>
          (version = 3 \<longrightarrow> wf_owner r = actor)) t))))"

end
