(* ===== verification/Flow_Event.thy ===== *)
theory Flow_Event
  imports Flow_Store
begin

text \<open>
  Receipts of the scheduler in \<open>work/store.py\<close>: the strict reading of a schedule event with its checkpoints
  (\<open>_validate_schedule_event\<close>, \<open>_validate_source_poll_checkpoint\<close>), the binding of an event of a private workflow to its
  definition and its task (\<open>_validate_v3_schedule_event\<close>), and the append-only table behind \<open>append_schedule_event\<close> and
  \<open>get_schedule_event\<close>.
\<close>

abbreviation bad_event :: "'a res" where
  "bad_event \<equiv> invalid ''WORK_SCHEDULE_INVALID_EVENT''"

section \<open>Fields\<close>

definition optional_field :: "json_object \<Rightarrow> string \<Rightarrow> nat \<Rightarrow> json_object res" where
  "optional_field d k limit = (if dget d k = JNull then Inr []
     else bindE (bounded_text (dget d k) limit False) (\<lambda>s. Inr [(k, JStr s)]))"

definition optional_fields :: "json_object \<Rightarrow> (string \<times> nat) list \<Rightarrow> json_object res" where
  "optional_fields d specs = bindE (mapE (\<lambda>(k, limit). optional_field d k limit) specs) (\<lambda>parts. Inr (concat parts))"

definition optional_flag :: "json_object \<Rightarrow> string \<Rightarrow> json_object res" where
  "optional_flag d k = (if dget d k = JNull then Inr [] else if \<not> is_bool (dget d k) then bad_event else Inr [(k, dget d k)])"

definition optional_limit :: "json \<Rightarrow> nat \<Rightarrow> json res" where
  "optional_limit v limit = (if v = JNull then Inr JNull else bindE (bounded_text v limit False) (\<lambda>s. Inr (JStr s)))"

definition evidence_item :: "json \<Rightarrow> json_object res" where
  "evidence_item v = (case v of
     JDict d \<Rightarrow>
       if \<not> keys_are d [''targetId'', ''tool'', ''observedAt'', ''resultDigest''] then bad_event
       else
         bindE (bounded_text (dget d ''resultDigest'') 64 False) (\<lambda>digest.
         if \<not> lower_hex 64 digest then bad_event
         else
           bindE (work_identifier_of (dget d ''targetId'')) (\<lambda>target.
           bindE (bounded_text (dget d ''tool'') 256 False) (\<lambda>tool.
           bindE (bounded_text (dget d ''observedAt'') 128 False) (\<lambda>observed.
             Inr [(''targetId'', JStr target), (''tool'', JStr tool), (''observedAt'', JStr observed), (''resultDigest'', JStr digest)]))))
   | _ \<Rightarrow> bad_event)"

definition id_list :: "json \<Rightarrow> json res" where
  "id_list v = (case v of
     JList l \<Rightarrow>
       if length l > 100 then bad_event
       else bindE (mapE work_identifier_of l) (\<lambda>ids. if \<not> distinct ids then bad_event else Inr (JList (map JStr ids)))
   | _ \<Rightarrow> bad_event)"

definition action_result :: "json \<Rightarrow> json_object res" where
  "action_result v = (case v of
     JDict d \<Rightarrow>
       if \<not> keys_are d [''actionId'', ''actionType'', ''targetId'', ''taskId'', ''requestDigest'', ''status'', ''operationIds''] then bad_event
       else
         bindE (bounded_text (dget d ''requestDigest'') 64 False) (\<lambda>digest.
         bindE (in_names (dget d ''actionType'') [''draft_pull_request'', ''rerun_source_ci'', ''update_issue_progress'']) (\<lambda>known.
         if \<not> known then bad_event
         else
           bindE (in_names (dget d ''status'') [''completed'', ''failed'', ''waiting'', ''unknown'', ''skipped'']) (\<lambda>known.
           if \<not> known then bad_event
           else if \<not> lower_hex 64 digest then bad_event
           else case dget d ''operationIds'' of
             JList l \<Rightarrow>
               if length l > 100 then bad_event
               else
                 bindE (mapE work_identifier_of l) (\<lambda>ops.
                 bindE (work_identifier_of (dget d ''actionId'')) (\<lambda>action.
                 bindE (work_identifier_of (dget d ''targetId'')) (\<lambda>target.
                 bindE (work_identifier_of (dget d ''taskId'')) (\<lambda>task.
                   Inr [(''actionId'', JStr action), (''actionType'', dget d ''actionType''), (''targetId'', JStr target),
                     (''taskId'', JStr task), (''requestDigest'', JStr digest), (''status'', dget d ''status''),
                     (''operationIds'', JList (map JStr ops))]))))
           | _ \<Rightarrow> bad_event)))
   | _ \<Rightarrow> bad_event)"

section \<open>Checkpoints of an issue search\<close>

text \<open>\<open>int(text)\<close> of a text that \<open>isdigit\<close> accepts: superscripts are a \<open>ValueError\<close>.\<close>

definition page_number :: "string \<Rightarrow> int res" where
  "page_number s = (if list_all is_digit s then Inr (digits_value s) else Inl ValueError)"

definition blocked_reasons :: "string list" where
  "blocked_reasons = [''result_limit'', ''incomplete_results'', ''missing_pages'']"

definition search_cursor :: "string list \<Rightarrow> json \<Rightarrow> json_object res" where
  "search_cursor seen v = (case v of
     JDict d \<Rightarrow>
       if \<not> keys_within d [''targetId'', ''pageCursor'', ''queryDigest'', ''complete'', ''hasChanges'', ''pagesCollected'', ''totalCount'', ''blockedReason''] \<or>
          \<not> keys_include d [''targetId'', ''pageCursor'', ''queryDigest'', ''complete'', ''hasChanges'', ''pagesCollected''] then bad_event
       else
         bindE (work_identifier_of (dget d ''targetId'')) (\<lambda>target.
         bindE (bounded_text (dget d ''pageCursor'') 8 False) (\<lambda>page.
         bindE (bounded_text (dget d ''queryDigest'') 64 False) (\<lambda>digest.
         if target \<in> set seen \<or> \<not> py_isdigit page then bad_event
         else
           bindE (page_number page) (\<lambda>n.
           if \<not> (1 \<le> n \<and> n \<le> 1000) \<or> \<not> lower_hex 64 digest \<or> \<not> is_bool (dget d ''complete'') \<or> \<not> is_bool (dget d ''hasChanges'') then bad_event
           else case dget d ''pagesCollected'' of
             JInt pages \<Rightarrow>
               if \<not> (0 \<le> pages \<and> pages \<le> 1000) then bad_event
               else if (case dget d ''totalCount'' of JNull \<Rightarrow> False | JInt c \<Rightarrow> \<not> (0 \<le> c \<and> c \<le> 10000000) | _ \<Rightarrow> True) then bad_event
               else
                 bindE (if dget d ''blockedReason'' = JNull then Inr True else in_names (dget d ''blockedReason'') blocked_reasons) (\<lambda>known.
                 if \<not> known then bad_event
                 else Inr ([(''targetId'', JStr target), (''pageCursor'', JStr page), (''queryDigest'', JStr digest), (''complete'', dget d ''complete''),
                   (''hasChanges'', dget d ''hasChanges''), (''pagesCollected'', JInt pages)] @
                   (if dget d ''totalCount'' = JNull then [] else [(''totalCount'', dget d ''totalCount'')]) @
                   (if dget d ''blockedReason'' = JNull then [] else [(''blockedReason'', dget d ''blockedReason'')])))
           | _ \<Rightarrow> bad_event))))
   | _ \<Rightarrow> bad_event)"

fun search_cursors :: "string list \<Rightarrow> json list \<Rightarrow> json_object list res" where
  "search_cursors seen [] = Inr []"
| "search_cursors seen (v # vs) =
    bindE (search_cursor seen v) (\<lambda>c.
    bindE (search_cursors (text_at c ''targetId'' # seen) vs) (\<lambda>cs. Inr (c # cs)))"

definition utc_seconds :: "string \<Rightarrow> bool" where
  "utc_seconds s \<longleftrightarrow> is_utc_time s \<and> length s = 20"

definition all_complete :: "json_object list \<Rightarrow> bool" where
  "all_complete cs \<longleftrightarrow> list_all (\<lambda>c. dget c ''complete'' = JBool True) cs"

definition search_checkpoint :: "json \<Rightarrow> json_object res" where
  "search_checkpoint v = (case v of
     JDict d \<Rightarrow>
       if \<not> keys_within d [''kind'', ''watermark'', ''windowEnd'', ''complete'', ''repositories''] \<or> dget d ''kind'' \<noteq> JStr ''github_issues_search'' \<or>
          \<not> is_bool (dget d ''complete'') then bad_event
       else
         bindE (optional_limit (dget d ''watermark'') 128) (\<lambda>watermark.
         bindE (bounded_text (dget d ''windowEnd'') 128 False) (\<lambda>window_end.
         if (case watermark of JStr w \<Rightarrow> \<not> utc_seconds w | _ \<Rightarrow> False) \<or> \<not> utc_seconds window_end then bad_event
         else case dget d ''repositories'' of
           JList l \<Rightarrow>
             if length l > 100 then bad_event
             else
               bindE (search_cursors [] l) (\<lambda>cursors.
               let complete = (dget d ''complete'' = JBool True) in
               if complete \<and> (cursors \<noteq> [] \<or> watermark \<noteq> JStr window_end) then bad_event
               else if \<not> complete \<and> (cursors = [] \<or> all_complete cursors) then bad_event
               else Inr [(''kind'', JStr ''github_issues_search''), (''watermark'', watermark), (''windowEnd'', JStr window_end),
                 (''complete'', JBool complete), (''repositories'', JList (map JDict cursors))])
         | _ \<Rightarrow> bad_event))
   | _ \<Rightarrow> bad_event)"

section \<open>Checkpoints of a source poll\<close>

definition source_state :: "string list \<Rightarrow> json \<Rightarrow> json_object res" where
  "source_state seen v = (case v of
     JDict d \<Rightarrow>
       if \<not> keys_are d [''resourceKey'', ''fingerprint'', ''state''] then bad_event
       else
         bindE (bounded_text (dget d ''resourceKey'') 64 False) (\<lambda>key.
         bindE (bounded_text (dget d ''fingerprint'') 64 False) (\<lambda>fingerprint.
         if \<not> lower_hex 64 key \<or> \<not> lower_hex 64 fingerprint then bad_event
         else
           bindE (in_names (dget d ''state'') [''healthy'', ''incident'', ''neutral'']) (\<lambda>known.
           if \<not> known \<or> key \<in> set seen then bad_event
           else Inr [(''resourceKey'', JStr key), (''fingerprint'', JStr fingerprint), (''state'', dget d ''state'')])))
   | _ \<Rightarrow> bad_event)"

fun source_states :: "string list \<Rightarrow> json list \<Rightarrow> json_object list res" where
  "source_states seen [] = Inr []"
| "source_states seen (v # vs) =
    bindE (source_state seen v) (\<lambda>s.
    bindE (source_states (text_at s ''resourceKey'' # seen) vs) (\<lambda>ss. Inr (s # ss)))"

text \<open>
  One cursor. A completed source has no page cursor and its watermark is the end of the window; an incomplete one keeps
  its page cursor and has not moved its watermark there.
\<close>

definition cursor_state_ok :: "bool \<Rightarrow> string \<Rightarrow> json \<Rightarrow> json \<Rightarrow> json \<Rightarrow> bool" where
  "cursor_state_ok complete window_end page resume watermark \<longleftrightarrow>
    (if complete then page = JNull \<and> watermark = JStr window_end
     else page \<noteq> JNull \<and> watermark \<noteq> JStr window_end \<and> resume = JNull)"

definition pair_at :: "json_object \<Rightarrow> string \<times> string" where
  "pair_at c = (text_at c ''source'', text_at c ''targetId'')"

definition length_at :: "json_object \<Rightarrow> string \<Rightarrow> int" where
  "length_at c k = (case dget c k of JList l \<Rightarrow> int (length l) | _ \<Rightarrow> 0)"

definition source_cursor :: "string \<Rightarrow> json_object list \<Rightarrow> json \<Rightarrow> json_object res" where
  "source_cursor window_end prior v = (case v of
     JDict d \<Rightarrow>
       if \<not> keys_include d [''source'', ''targetId'', ''complete'', ''pagesCollected''] \<or>
          \<not> keys_within d [''source'', ''targetId'', ''complete'', ''pagesCollected'', ''pageCursor'', ''resumeCursor'', ''watermark'',
             ''seenEventIds'', ''states''] then bad_event
       else
         bindE (in_names (dget d ''source'') sources3) (\<lambda>known.
         if \<not> known \<or> \<not> is_bool (dget d ''complete'') then bad_event
         else
           bindE (work_identifier_of (dget d ''targetId'')) (\<lambda>target.
           if (text_at d ''source'', target) \<in> set (map pair_at prior) then bad_event
           else
             bindE (optional_limit (dget d ''pageCursor'') 2000) (\<lambda>page.
             bindE (optional_limit (dget d ''resumeCursor'') 2000) (\<lambda>resume.
             bindE (optional_limit (dget d ''watermark'') 512) (\<lambda>watermark.
             case dget d ''pagesCollected'' of
               JInt pages \<Rightarrow>
                 if \<not> (0 \<le> pages \<and> pages \<le> 20) then bad_event
                 else (case dget_or d ''seenEventIds'' (JList []) of
                   JList ids \<Rightarrow>
                     if int (length ids) > 1000 then bad_event
                     else
                       bindE (mapE (\<lambda>x. bounded_text x 512 False) ids) (\<lambda>ids.
                       if \<not> distinct ids then bad_event
                       else if sum_list (map (\<lambda>c. length_at c ''seenEventIds'') prior) + int (length ids) > 1000 then bad_event
                       else (case dget_or d ''states'' (JList []) of
                         JList sts \<Rightarrow>
                           if int (length sts) > 1000 then bad_event
                           else
                             bindE (source_states [] sts) (\<lambda>sts.
                             if sum_list (map (\<lambda>c. length_at c ''states'') prior) + int (length sts) > 1000 then bad_event
                             else if \<not> cursor_state_ok (dget d ''complete'' = JBool True) window_end page resume watermark then bad_event
                             else Inr [(''source'', dget d ''source''), (''targetId'', JStr target), (''pageCursor'', page),
                               (''resumeCursor'', resume), (''watermark'', watermark), (''complete'', dget d ''complete''),
                               (''pagesCollected'', JInt pages), (''seenEventIds'', JList (map JStr ids)), (''states'', JList (map JDict sts))])
                       | _ \<Rightarrow> bad_event))
                 | _ \<Rightarrow> bad_event)
             | _ \<Rightarrow> bad_event)))))
   | _ \<Rightarrow> bad_event)"

fun source_cursors :: "string \<Rightarrow> json_object list \<Rightarrow> json list \<Rightarrow> json_object list res" where
  "source_cursors window_end prior [] = Inr prior"
| "source_cursors window_end prior (v # vs) =
    bindE (source_cursor window_end prior v) (\<lambda>c. source_cursors window_end (prior @ [c]) vs)"

definition validate_source_poll_checkpoint :: "json_object \<Rightarrow> json_object res" where
  "validate_source_poll_checkpoint d =
    (if \<not> keys_within d [''kind'', ''windowStart'', ''windowEnd'', ''complete'', ''sources''] \<or>
        \<not> keys_include d [''kind'', ''windowEnd'', ''complete'', ''sources''] \<or> dget d ''kind'' \<noteq> JStr ''source_poll'' then bad_event
     else if \<not> is_bool (dget d ''complete'') then bad_event
     else
       bindE (optional_limit (dget d ''windowStart'') 128) (\<lambda>window_start.
       bindE (bounded_text (dget d ''windowEnd'') 128 False) (\<lambda>window_end.
       if (case window_start of JStr w \<Rightarrow> \<not> is_utc_time w | _ \<Rightarrow> False) \<or> \<not> is_utc_time window_end then bad_event
       else if (case window_start of JStr w \<Rightarrow> window_end < w | _ \<Rightarrow> False) then bad_event
       else
         bindE (bounded_list 1 100 (dget d ''sources'') ''WORK_SCHEDULE_INVALID_EVENT'') (\<lambda>l.
         bindE (source_cursors window_end [] l) (\<lambda>cursors.
         if (dget d ''complete'' = JBool True) \<noteq> all_complete cursors then bad_event
         else Inr [(''kind'', JStr ''source_poll''), (''windowStart'', window_start), (''windowEnd'', JStr window_end),
           (''complete'', dget d ''complete''), (''sources'', JList (map JDict cursors))])))))"

section \<open>Events\<close>

definition checkpoint_of :: "json \<Rightarrow> json_object res" where
  "checkpoint_of v =
    (if v = JNull then Inr []
     else bindE (case v of
         JDict d \<Rightarrow> if dget d ''kind'' = JStr ''source_poll'' then validate_source_poll_checkpoint d else search_checkpoint v
       | _ \<Rightarrow> search_checkpoint v) (\<lambda>c. Inr [(''checkpoint'', JDict c)]))"

definition attention_of :: "json \<Rightarrow> json_object res" where
  "attention_of v = (if v = JNull then Inr []
     else bindE (in_names v immediate_kinds) (\<lambda>known. if \<not> known then bad_event else Inr [(''attentionKind'', v)]))"

definition validate_schedule_event :: "json_object \<Rightarrow> json_object res" where
  "validate_schedule_event v =
    bindE (work_json_object (JDict v)) (\<lambda>d.
    bindE (work_identifier_of (dget d ''id'')) (\<lambda>i.
    bindE (work_identifier_of (dget d ''workflowId'')) (\<lambda>wid.
    bindE (bounded_text (dget d ''scheduledAt'') 128 False) (\<lambda>scheduled.
    bindE (bounded_text (dget d ''createdAt'') 128 False) (\<lambda>created.
    bindE (in_names (dget d ''status'') [''queued'', ''running'', ''succeeded'', ''failed'']) (\<lambda>known.
    if \<not> known then bad_event
    else
      bindE (optional_fields d [(''startedAt'', 128), (''endedAt'', 128)]) (\<lambda>times.
      bindE (optional_flag d ''changed'') (\<lambda>changed.
      bindE (optional_fields d [(''summary'', 2000), (''errorCode'', 256), (''taskId'', 512), (''sessionId'', 512), (''triggerId'', 128)]) (\<lambda>texts.
      bindE (optional_flag d ''baseline'') (\<lambda>baseline.
      bindE (case dget_or d ''evidence'' (JList []) of
          JList l \<Rightarrow> if int (length l) > 1000 then bad_event else mapE evidence_item l
        | _ \<Rightarrow> bad_event) (\<lambda>evidence.
      bindE (id_list (dget_or d ''operationIds'' (JList []))) (\<lambda>operations.
      bindE (id_list (dget_or d ''actionTaskIds'' (JList []))) (\<lambda>tasks.
      bindE (checkpoint_of (dget d ''checkpoint'')) (\<lambda>checkpoint.
      bindE (attention_of (dget d ''attentionKind'')) (\<lambda>attention.
      bindE (case dget_or d ''actionResults'' (JList []) of
          JList l \<Rightarrow> if length l > 100 then bad_event else mapE action_result l
        | _ \<Rightarrow> bad_event) (\<lambda>results.
      if list_ex (dhas d) [''output'', ''reasoning'', ''toolArgs'', ''credentials''] then bad_event
      else Inr ([(''id'', JStr i), (''workflowId'', JStr wid), (''scheduledAt'', JStr scheduled), (''status'', dget d ''status''),
          (''createdAt'', JStr created)] @ times @ changed @ texts @ baseline @ [(''evidence'', JList (map JDict evidence)),
          (''operationIds'', operations), (''actionTaskIds'', tasks)] @ checkpoint @ attention @
          [(''actionResults'', JList (map JDict results))])))))))))))))))))"

section \<open>Events of private workflows\<close>

text \<open>\<open>_v3_occurrence_id\<close>: the identity of one occurrence, salted with the actor that owns its task.\<close>

definition v3_occurrence_id :: "string \<Rightarrow> string \<Rightarrow> string \<Rightarrow> string \<Rightarrow> string" where
  "v3_occurrence_id wid trigger scheduled creator =
    ''occ-'' @ take 40 (sha256_hex (wid @ [CHR 0x00] @ trigger @ [CHR 0x00] @ scheduled @ [CHR 0x00] @ take 16 (sha256_hex creator)))"

text \<open>
  The local time of a timestamp in New York, from \<open>datetime.fromisoformat\<close> and the host's time zone database: weekday (0 is
  Monday), hour, minute, second and microsecond, or \<open>None\<close> where reading it fails or the text has no offset.
\<close>

type_synonym local_clock = "string \<Rightarrow> (int \<times> int \<times> int \<times> int \<times> int) option"

definition is_weekday_digest_time :: "local_clock \<Rightarrow> string \<Rightarrow> bool" where
  "is_weekday_digest_time clock s = (case clock s of
     None \<Rightarrow> False
   | Some (weekday, h, m, sec, us) \<Rightarrow> weekday < 5 \<and> h = 9 \<and> m = 0 \<and> sec = 0 \<and> us = 0)"

definition occurrence_metadata_ok :: "json_object \<Rightarrow> json_object \<Rightarrow> string \<Rightarrow> string \<Rightarrow> bool" where
  "occurrence_metadata_ok m workflow trigger occurrence \<longleftrightarrow>
     dget m ''source'' = JStr ''workflow'' \<and> py_eq (dget m ''workflowId'') (dget workflow ''id'') \<and> dget m ''triggerId'' = JStr trigger \<and>
     dget m ''occurrenceId'' = JStr occurrence \<and> py_eq (dget m ''authorizationRef'') (dget workflow ''authorization'')"

definition int_at :: "json_object \<Rightarrow> string \<Rightarrow> int" where
  "int_at d k = (case dget d k of JInt n \<Rightarrow> n | _ \<Rightarrow> 0)"

definition objects_of :: "json \<Rightarrow> json_object list" where
  "objects_of v = (case v of JList l \<Rightarrow> concat (map (\<lambda>x. case x of JDict d \<Rightarrow> [d] | _ \<Rightarrow> []) l) | _ \<Rightarrow> [])"

definition texts_of :: "json \<Rightarrow> string list" where
  "texts_of v = (case v of JList l \<Rightarrow> concat (map (\<lambda>x. case x of JStr s \<Rightarrow> [s] | _ \<Rightarrow> []) l) | _ \<Rightarrow> [])"

text \<open>A checkpoint of a trigger: its cursors are those of the trigger's targets, within the page budget.\<close>

definition poll_checkpoint_bound :: "json_object \<Rightarrow> json_object \<Rightarrow> json \<Rightarrow> unit res" where
  "poll_checkpoint_bound event trigger v = (case v of
     JNull \<Rightarrow> if dget event ''status'' = JStr ''succeeded'' then bad_event else Inr ()
   | JDict c \<Rightarrow>
       if dget c ''kind'' \<noteq> JStr ''source_poll'' then bad_event
       else
         let cursors = objects_of (dget c ''sources''); source = text_at trigger ''source'' in
         if set (map pair_at cursors) \<noteq> set (map (\<lambda>t. (source, t)) (texts_of (dget trigger ''targetIds''))) then bad_event
         else if sum_list (map (\<lambda>x. int_at x ''pagesCollected'') cursors) > int_at trigger ''maxPages'' then bad_event
         else if list_ex (\<lambda>x. int_at x ''pagesCollected'' > int_at trigger ''maxPages'') cursors then bad_event
         else if dget event ''status'' = JStr ''succeeded'' \<and> dget c ''complete'' \<noteq> JBool True then bad_event
         else if dget event ''baseline'' = JBool True \<and> dget event ''changed'' = JBool True then bad_event
         else Inr ()
   | _ \<Rightarrow> bad_event)"

definition digest_event_ok :: "local_clock \<Rightarrow> json_object \<Rightarrow> json_object \<Rightarrow> string \<Rightarrow> bool" where
  "digest_event_ok clock event workflow scheduled \<longleftrightarrow>
     (case dget workflow ''notifications'' of JDict n \<Rightarrow>
        (case dget n ''digest'' of JDict p \<Rightarrow> dget p ''enabled'' = JBool True | _ \<Rightarrow> False) | _ \<Rightarrow> False) \<and>
     is_weekday_digest_time clock scheduled \<and> dget event ''checkpoint'' = JNull \<and>
     \<not> (dget event ''status'' = JStr ''succeeded'' \<and> dget event ''changed'' \<noteq> JBool True)"

definition validate_v3_schedule_event :: "local_clock \<Rightarrow> json_object \<Rightarrow> json_object \<Rightarrow> wdb \<Rightarrow> string \<Rightarrow> string \<Rightarrow> string \<Rightarrow> unit res" where
  "validate_v3_schedule_event clock event workflow db org ws actor =
    (case (dget event ''triggerId'', dget workflow ''triggers'') of
       (JStr trigger_id, JList triggers) \<Rightarrow>
         bindE (bounded_text (dget event ''scheduledAt'') 128 False) (\<lambda>scheduled.
         case dget event ''taskId'' of
           JStr task_id \<Rightarrow>
             (case find_task db (org, ws, task_id) of
                None \<Rightarrow> not_found ''WORK_TASK_NOT_FOUND''
              | Some task \<Rightarrow>
                  if py_lower (tk_creator task) \<noteq> py_lower actor then not_found ''WORK_TASK_NOT_FOUND''
                  else
                    let occurrence = v3_occurrence_id (text_at workflow ''id'') trigger_id scheduled (tk_creator task);
                        provenance = bindE (stored_object (tk_metadata task)) (\<lambda>m.
                          if \<not> occurrence_metadata_ok m workflow trigger_id occurrence then conflict ''WORK_SCHEDULE_TASK_MISMATCH''
                          else if dget event ''status'' = JStr ''running'' \<and> tk_status task \<noteq> ''running''
                            then conflict ''WORK_SCHEDULE_TASK_STATE_INVALID''
                          else Inr ()) in
                    if task_id \<noteq> ''workflow-'' @ drop 4 occurrence then bad_event
                    else if trigger_id = ''daily-digest'' then
                      if \<not> digest_event_ok clock event workflow scheduled then bad_event else provenance
                    else (case List.find (\<lambda>t. dget t ''id'' = JStr trigger_id) (objects_of (JList triggers)) of
                        None \<Rightarrow> not_found ''WORK_WORKFLOW_TRIGGER_NOT_FOUND''
                      | Some trigger \<Rightarrow>
                          bindE provenance (\<lambda>_. poll_checkpoint_bound event trigger (dget event ''checkpoint''))))
         | _ \<Rightarrow> bad_event)
     | _ \<Rightarrow> bad_event)"

section \<open>The table\<close>

record schedule_row =
  sv_org :: string
  sv_ws :: string
  sv_id :: string
  sv_workflow :: string
  sv_created :: int
  sv_json :: string
  sv_digest :: string
  sv_trigger :: json
  sv_scheduled :: json
  sv_status :: json
  sv_task :: json
  sv_occurrence :: "string option"

definition sv_key :: "schedule_row \<Rightarrow> string \<times> string \<times> string" where
  "sv_key r = (sv_org r, sv_ws r, sv_id r)"

definition schedule_row_of :: "int \<Rightarrow> string \<Rightarrow> string \<Rightarrow> json_object \<Rightarrow> string \<Rightarrow> string \<Rightarrow> string option \<Rightarrow> schedule_row" where
  "schedule_row_of now org ws v body digest occurrence = \<lparr>sv_org = org, sv_ws = ws, sv_id = text_at v ''id'',
     sv_workflow = text_at v ''workflowId'', sv_created = now, sv_json = body, sv_digest = digest, sv_trigger = dget v ''triggerId'',
     sv_scheduled = dget v ''scheduledAt'', sv_status = dget v ''status'', sv_task = dget v ''taskId'', sv_occurrence = occurrence\<rparr>"

record fdb =
  f_workflows :: "workflow_row list"
  f_events :: "schedule_row list"

text \<open>
  The checks against the workflow of an event: an event of a private workflow comes from its owner and is bound to the stored
  definition; other workflows have no source polls.
\<close>

definition check_workflow ::
  "zones \<Rightarrow> local_clock \<Rightarrow> wdb \<Rightarrow> string \<Rightarrow> string \<Rightarrow> string option \<Rightarrow> json_object \<Rightarrow> workflow_row option \<Rightarrow> unit res" where
  "check_workflow zones clock db org ws actor event row = (case row of
     None \<Rightarrow> not_found ''WORK_WORKFLOW_NOT_FOUND''
   | Some r \<Rightarrow>
       if wf_version r = 3 then
         if actor \<noteq> Some (wf_owner r) then not_found ''WORK_WORKFLOW_NOT_FOUND''
         else
           bindE (stored_object (wf_json r)) (\<lambda>d.
           bindE (validate_workflow_v3 zones d) (\<lambda>workflow.
             validate_v3_schedule_event clock event workflow db org ws (case actor of None \<Rightarrow> [] | Some a \<Rightarrow> a)))
       else if (case dget event ''checkpoint'' of JDict c \<Rightarrow> dget c ''kind'' = JStr ''source_poll'' | _ \<Rightarrow> False) then bad_event
       else Inr ())"

definition append_schedule_event ::
  "zones \<Rightarrow> local_clock \<Rightarrow> int \<Rightarrow> wdb \<Rightarrow> string option \<Rightarrow> string \<Rightarrow> json_object \<Rightarrow> string option \<Rightarrow> fdb \<Rightarrow> json_object res \<times> fdb" where
  "append_schedule_event zones clock now w org ws event actor db = commit db (
    bindE (work_scope org ws) (\<lambda>(org, ws).
    bindE (validate_schedule_event event) (\<lambda>v.
    bindE (case actor of None \<Rightarrow> Inr None | Some a \<Rightarrow> bindE (work_identifier a) (\<lambda>a. Inr (Some a))) (\<lambda>actor.
    bindE (work_digest (JDict v)) (\<lambda>digest.
    let wid = text_at v ''workflowId''; row = find_by wf_key (org, ws, wid) (f_workflows db) in
    bindE (check_workflow zones clock w org ws actor v row) (\<lambda>_.
    case find_by sv_key (org, ws, text_at v ''id'') (f_events db) of
      Some e \<Rightarrow>
        if sv_digest e \<noteq> digest then conflict ''WORK_SCHEDULE_EVENT_ID_CONFLICT''
        else bindE (stored_object (sv_json e)) (\<lambda>stored. Inr (stored, db))
    | None \<Rightarrow>
        let occurrence = (if map_option wf_version row = Some 3 \<and> dget v ''triggerId'' \<noteq> JNull
              then Some (v3_occurrence_id wid (text_at v ''triggerId'') (text_at v ''scheduledAt'') (case actor of None \<Rightarrow> [] | Some a \<Rightarrow> a))
              else None) in
        bindE (work_json_text (JDict v)) (\<lambda>text.
        bindE (insert_by sv_key (schedule_row_of now org ws v text digest occurrence) (f_events db)) (\<lambda>es.
          Inr (v, db\<lparr>f_events := es\<rparr>)))))))))"

definition get_schedule_event :: "string option \<Rightarrow> string \<Rightarrow> string \<Rightarrow> string option \<Rightarrow> fdb \<Rightarrow> json_object res" where
  "get_schedule_event org ws event actor db =
    bindE (work_scope org ws) (\<lambda>(org, ws).
    bindE (work_identifier event) (\<lambda>event.
    bindE (case actor of None \<Rightarrow> Inr [] | Some a \<Rightarrow> work_identifier a) (\<lambda>actor.
    case find_by sv_key (org, ws, event) (f_events db) of
      None \<Rightarrow> not_found ''WORK_SCHEDULE_EVENT_NOT_FOUND''
    | Some e \<Rightarrow>
        (case find_by wf_key (org, ws, sv_workflow e) (f_workflows db) of
           None \<Rightarrow> not_found ''WORK_SCHEDULE_EVENT_NOT_FOUND''
         | Some r \<Rightarrow>
             if wf_version r = 3 \<and> wf_owner r \<noteq> actor then not_found ''WORK_SCHEDULE_EVENT_NOT_FOUND''
             else stored_object (sv_json e)))))"

end
