(* ===== verification/Flow_Settle.thy ===== *)
theory Flow_Settle
  imports Flow_V3
begin

text \<open>
  A workflow definition of version 3 that the validator has accepted is a fixed point of the validator: stored as
  canonical text, read back and validated again, it gives the same definition. The store relies on this whenever it
  validates a stored definition before it acts on it.
\<close>

section \<open>Objects that agree with the canonical form of another\<close>

definition views :: "json_object \<Rightarrow> json_object \<Rightarrow> bool" where
  "views d r \<longleftrightarrow> (\<forall>k. dget d k = canon (dget r k)) \<and> (\<forall>k. dhas d k = dhas r k)"

lemma views_canon: "distinct (map fst r) \<Longrightarrow> views (sort_key fst (canon_items r)) r"
  by (simp add: views_def dget_canon dhas_canon)

lemma keys_are_dhas: "keys_are d ks \<longleftrightarrow> (\<forall>k. dhas d k \<longleftrightarrow> k \<in> set ks)"
  by (auto simp: keys_are_def dhas_def)

lemma keys_within_dhas: "keys_within d ks \<longleftrightarrow> (\<forall>k. dhas d k \<longrightarrow> k \<in> set ks)"
  by (force simp: keys_within_def dhas_def list_all_iff)

lemma views_keys:
  "views d r \<Longrightarrow> keys_are d ks = keys_are r ks"
  "views d r \<Longrightarrow> keys_within d ks = keys_within r ks"
  "views d r \<Longrightarrow> keys_include d ks = keys_include r ks"
  by (simp_all add: views_def keys_are_dhas keys_within_dhas keys_include_def list_all_iff)

lemma views_get: "views d r \<Longrightarrow> dget d k = canon (dget r k)"
  by (simp add: views_def)

lemma views_has: "views d r \<Longrightarrow> dhas d k = dhas r k"
  by (simp add: views_def)

lemma views_get_or: "views d r \<Longrightarrow> dget_or d k v = (if dhas r k then canon (dget r k) else v)"
  by (simp add: views_def dget_or_def)

definition text_ok :: "nat \<Rightarrow> string \<Rightarrow> bool" where
  "text_ok n s \<longleftrightarrow> py_strip s \<noteq> [] \<and> length s \<le> n \<and> CHR 0x00 \<notin> set s"

lemmas view_rules = views_keys views_get views_has views_get_or

lemma bounded_text_iff: "bounded_text v n False = Inr s \<longleftrightarrow> v = JStr s \<and> text_ok n s"
  by (auto simp: bounded_text_def text_ok_def split: json.splits if_splits)

definition identifier_ok :: "string \<Rightarrow> bool" where
  "identifier_ok s \<longleftrightarrow> py_strip s \<noteq> [] \<and> length s \<le> 512 \<and> \<not> list_ex is_ctrl s"

lemma identifier_iff: "work_identifier_of v = Inr s \<longleftrightarrow> v = JStr s \<and> identifier_ok s"
  by (auto simp: work_identifier_of_def work_identifier_def identifier_ok_def split: json.splits)

lemma identifiers_JStr: "mapE work_identifier_of l = Inr ids \<Longrightarrow> l = map JStr ids"
  by (induction l arbitrary: ids) (auto simp: bindE_eq_Inr identifier_iff)

lemma in_names_True: "in_names v ns = Inr True \<longleftrightarrow> (\<exists>s. v = JStr s \<and> s \<in> set ns)"
  by (auto simp: in_names_def split: json.splits)

lemma canon_map_JStr [simp]: "canon_list (map JStr ss) = map JStr ss"
  by (induction ss) auto

lemma dget_Cons: "dget ((k, v) # d) k' = (if k' = k then v else dget d k')" "dget [] k' = JNull"
  by (auto simp: dget_def)

lemma dhas_Cons: "dhas ((k, v) # d) k' \<longleftrightarrow> k' = k \<or> dhas d k'" "\<not> dhas [] k'"
  by (auto simp: dhas_def)

lemma keys_within_Cons: "keys_within ((k, v) # d) ks \<longleftrightarrow> k \<in> set ks \<and> keys_within d ks" "keys_within [] ks"
  by (simp_all add: keys_within_def)

lemmas object_simps = dget_Cons dhas_Cons keys_within_Cons keys_include_def

lemmas accepted = bindE_eq_Inr if_Inl_eq_Inr bounded_text_iff identifier_iff

section \<open>Parts\<close>

lemma schedule_settled:
  assumes "validate_workflow_schedule zones v = Inr r" and "views d r"
  shows "validate_workflow_schedule zones (JDict d) = Inr r"
proof -
  from assms(1) obtain e z where r: "r = cron e z" and ok: "text_ok 256 e" "text_ok 128 z"
    "check_zone zones ''WORK_WORKFLOW_V2_TRIGGER_INVALID'' z = Inr ()"
    by (cases v) (auto simp: validate_workflow_schedule_def accepted)
  from assms(2) r have "keys_are d [''kind'', ''expression'', ''timeZone'']" "dget d ''kind'' = JStr ''cron''"
    "dget d ''expression'' = JStr e" "dget d ''timeZone'' = JStr z"
    by (simp_all add: view_rules [OF assms(2)] cron_def object_simps) (simp add: keys_are_def)
  with ok r show ?thesis by (simp add: validate_workflow_schedule_def accepted)
qed

lemma v3_target_Inr:
  assumes "v3_target v = Inr r"
  obtains i label kind binding where "identifier_ok i" "text_ok 512 label" "kind \<in> set target_kinds3" "identifier_ok binding"
    "kind = ''github_repository'' \<Longrightarrow> py_isdigit i \<and> repository_label label \<and>
       safe_resource_uri (JStr (github_uri label)) = Inr (github_uri label)"
    "kind = ''github_actions_workflow'' \<Longrightarrow> actions_workflow_id i \<and> actions_label label"
    "r = [(''id'', JStr i), (''label'', JStr label), (''kind'', JStr kind), (''bindingId'', JStr binding)] @
       (if kind = ''github_repository'' then [(''uri'', JStr (github_uri label))] else [])"
proof (cases v)
  case (JDict d)
  have uri: "safe_resource_uri (JStr u) = Inr w \<Longrightarrow> w = u" for u w
    by (auto simp: safe_resource_uri_def accepted split: if_splits)
  from assms JDict obtain i label kind binding where
    ok: "dget d ''id'' = JStr i" "identifier_ok i" "dget d ''label'' = JStr label" "text_ok 512 label" "dget d ''kind'' = JStr kind"
      "kind \<in> set target_kinds3" "dget d ''bindingId'' = JStr binding" "identifier_ok binding"
    by (auto simp: v3_target_def accepted in_names_True)
  show thesis
  proof (rule that [OF ok(2,4,6,8)])
    show "kind = ''github_repository'' \<Longrightarrow> py_isdigit i \<and> repository_label label \<and>
       safe_resource_uri (JStr (github_uri label)) = Inr (github_uri label)"
      using assms JDict ok uri by (auto simp: v3_target_def accepted in_names_def text_at_def Let_def)
    show "kind = ''github_actions_workflow'' \<Longrightarrow> actions_workflow_id i \<and> actions_label label"
      using assms JDict ok by (auto simp: v3_target_def accepted in_names_def text_at_def Let_def)
    show "r = [(''id'', JStr i), (''label'', JStr label), (''kind'', JStr kind), (''bindingId'', JStr binding)] @
       (if kind = ''github_repository'' then [(''uri'', JStr (github_uri label))] else [])"
      using assms JDict ok uri by (auto simp: v3_target_def accepted in_names_def text_at_def Let_def split: if_split_asm)
  qed
qed (use assms in \<open>simp_all add: v3_target_def\<close>)

lemma target_settled:
  assumes "v3_target v = Inr r" and "views d r"
  shows "v3_target (JDict d) = Inr r"
  using assms(1)
proof (cases rule: v3_target_Inr)
  case (1 i label kind binding)
  have "keys_include d [''id'', ''label'', ''kind'', ''bindingId'']" "keys_within d [''id'', ''label'', ''kind'', ''bindingId'', ''uri'']"
    "dget d ''id'' = JStr i" "dget d ''label'' = JStr label" "dget d ''kind'' = JStr kind" "dget d ''bindingId'' = JStr binding"
    "dget d ''uri'' = (if kind = ''github_repository'' then JStr (github_uri label) else JNull)"
    using 1(7) by (simp_all add: view_rules [OF assms(2)] object_simps)
  with 1 show ?thesis by (auto simp: v3_target_def in_names_def text_at_def accepted Let_def)
qed

lemma v3_trigger_Inr:
  assumes "v3_trigger zones targets seen v = Inr r"
  obtains i source ids p m where "identifier_ok i" "i \<notin> set seen" "source \<in> set sources3" "1 \<le> length ids" "length ids \<le> 20"
    "list_all identifier_ok ids" "bound_targets targets source ids" "1 \<le> p" "p \<le> 50" "1 \<le> m" "m \<le> 20" "p * m \<le> 1000"
    "\<And>d. views d (cron (poll_interval source) ''UTC'') \<Longrightarrow>
       validate_workflow_schedule zones (JDict d) = Inr (cron (poll_interval source) ''UTC'')"
    "r = [(''id'', JStr i), (''kind'', JStr ''source_poll''), (''source'', JStr source), (''targetIds'', JList (map JStr ids)),
       (''schedule'', JDict (cron (poll_interval source) ''UTC'')), (''initialBaseline'', quiet_baseline), (''pageSize'', JInt p), (''maxPages'', JInt m)]"
proof (cases v)
  case (JDict d)
  from assms JDict obtain i source where
    i: "dget d ''id'' = JStr i" "identifier_ok i" "dget d ''kind'' = JStr ''source_poll''" "dget d ''source'' = JStr source"
      "source \<in> set sources3" "i \<notin> set seen"
    by (auto simp: v3_trigger_def accepted in_names_True)
  with assms JDict obtain l where l: "dget d ''targetIds'' = JList l"
    by (cases "dget d ''targetIds''") (auto simp: v3_trigger_def accepted in_names_def)
  with assms JDict i obtain ids where ids: "mapE work_identifier_of l = Inr ids" "1 \<le> length l" "length l \<le> 20"
    "bound_targets targets source ids" "validate_workflow_schedule zones (dget d ''schedule'') = Inr (cron (poll_interval source) ''UTC'')"
    and rest: "(case page_limits d of None \<Rightarrow> bad_trigger3 | Some (p, m) \<Rightarrow> Inr
      [(''id'', JStr i), (''kind'', JStr ''source_poll''), (''source'', JStr source), (''targetIds'', JList (map JStr ids)),
       (''schedule'', JDict (cron (poll_interval source) ''UTC'')), (''initialBaseline'', quiet_baseline), (''pageSize'', JInt p), (''maxPages'', JInt m)]) = Inr r"
    by (auto simp: v3_trigger_def accepted in_names_def text_at_def Let_def split: if_split_asm)
  from rest obtain p m where pm: "page_limits d = Some (p, m)"
    by (cases "page_limits d") auto
  then have bounds: "1 \<le> p" "p \<le> 50" "1 \<le> m" "m \<le> 20" "p * m \<le> 1000"
    by (auto simp: page_limits_def split: json.split_asm if_split_asm)
  have "list_all identifier_ok ids"
    using ids(1) by (induction l arbitrary: ids) (auto simp: bindE_eq_Inr identifier_iff)
  then show thesis
    using that [of i source ids p m] i ids rest pm bounds schedule_settled [OF ids(5)] mapE_length [OF ids(1)] by auto
qed (use assms in \<open>simp_all add: v3_trigger_def\<close>)

lemma identifiers_settled: "list_all identifier_ok ids \<Longrightarrow> mapE work_identifier_of (map JStr ids) = Inr ids"
  by (induction ids) (auto simp: accepted)

lemma trigger_settled:
  assumes "v3_trigger zones targets seen v = Inr r" and "views d r"
  shows "v3_trigger zones targets seen (JDict d) = Inr r"
  using assms(1)
proof (cases rule: v3_trigger_Inr)
  case (1 i source ids p m)
  have "views (sort_key fst (canon_items (cron (poll_interval source) ''UTC''))) (cron (poll_interval source) ''UTC'')"
    by (rule views_canon) (simp add: cron_def)
  from 1(13) [OF this] have s: "validate_workflow_schedule zones (canon (JDict (cron (poll_interval source) ''UTC''))) =
      Inr (cron (poll_interval source) ''UTC'')" by simp
  have "page_limits d = Some (p, m)"
    using 1(8-12,14) by (simp add: page_limits_def view_rules [OF assms(2)] object_simps)
  moreover have "keys_include d [''id'', ''kind'', ''source'', ''targetIds'', ''schedule'']"
    "keys_within d [''id'', ''kind'', ''source'', ''targetIds'', ''schedule'', ''initialBaseline'', ''pageSize'', ''maxPages'']"
    "dget d ''id'' = JStr i" "dget d ''kind'' = JStr ''source_poll''" "dget d ''source'' = JStr source"
    "dget d ''targetIds'' = JList (map JStr ids)" "dget d ''schedule'' = canon (JDict (cron (poll_interval source) ''UTC''))"
    "dget_or d ''initialBaseline'' quiet_baseline = quiet_baseline"
    using 1(14) by (simp_all add: view_rules [OF assms(2)] object_simps quiet_baseline_def del: canon.simps(2))
  ultimately show ?thesis
    using 1 s by (simp add: v3_trigger_def accepted in_names_def text_at_def identifiers_settled Let_def del: canon.simps(2))
qed

lemma trigger_keys: "v3_trigger zones targets seen v = Inr t \<Longrightarrow> distinct (map fst t)"
  by (erule v3_trigger_Inr) simp

lemma target_keys: "v3_target v = Inr t \<Longrightarrow> distinct (map fst t)"
  by (erule v3_target_Inr) simp

lemma targets_settled:
  "v3_targets seen vs = Inr ts \<Longrightarrow> v3_targets seen (map (\<lambda>t. canon (JDict t)) ts) = Inr ts"
  by (induction seen vs arbitrary: ts rule: v3_targets.induct)
    (auto simp: bindE_eq_Inr if_Inl_eq_Inr target_settled [OF _ views_canon] target_keys)

lemma triggers_settled:
  "v3_triggers zones targets seen vs = Inr ts \<Longrightarrow> v3_triggers zones targets seen (map (\<lambda>t. canon (JDict t)) ts) = Inr ts"
  by (induction zones targets seen vs arbitrary: ts rule: v3_triggers.induct)
    (auto simp: bindE_eq_Inr trigger_settled [OF _ views_canon] trigger_keys)

lemma authorization_settled:
  assumes "v3_authorization v = Inr r" and "views d r"
  shows "v3_authorization (JDict d) = Inr r"
proof -
  from assms(1) obtain t where r: "r = [(''kind'', JStr ''owner_private''), (''ownerTaskId'', JStr t)]" and "identifier_ok t"
    by (cases v) (auto simp: v3_authorization_def accepted split: if_split_asm)
  moreover have "keys_are d [''kind'', ''ownerTaskId'']" "dget d ''kind'' = JStr ''owner_private''" "dget d ''ownerTaskId'' = JStr t"
    using r by (simp_all add: view_rules [OF assms(2)] object_simps) (simp add: keys_are_def)
  ultimately show ?thesis by (simp add: v3_authorization_def accepted)
qed

section \<open>Notifications\<close>

lemma quiet_hours_settled:
  assumes "quiet_hours_of zones v = Inr r" and "views d r"
  shows "quiet_hours_of zones (JDict d) = Inr r"
proof -
  from assms(1) obtain a b z where r: "r = [(''start'', JStr a), (''end'', JStr b), (''timeZone'', JStr z)]"
    and ok: "clock_text (JStr a)" "clock_text (JStr b)" "text_ok 128 z"
      "check_zone zones ''WORK_WORKFLOW_V2_NOTIFICATIONS_INVALID'' z = Inr ()"
    by (cases v) (auto simp: quiet_hours_of_def accepted clock_text_def split: json.split_asm)
  have "keys_are d [''start'', ''end'', ''timeZone'']" "dget d ''start'' = JStr a" "dget d ''end'' = JStr b" "dget d ''timeZone'' = JStr z"
    using r by (simp_all add: view_rules [OF assms(2)] object_simps) (simp add: keys_are_def)
  with ok r show ?thesis by (simp add: quiet_hours_of_def accepted)
qed

lemma immediate_settled: "immediate_on_of v = Inr r \<Longrightarrow> r = v \<and> canon v = v"
proof (cases v)
  case (JList l)
  assume "immediate_on_of v = Inr r"
  with JList have "r = v" "list_all (\<lambda>x. x \<in> JStr ` set immediate_kinds) l"
    by (auto simp: immediate_on_of_def split: if_split_asm)
  moreover from this(2) have "canon_list l = l" by (induction l) auto
  ultimately show ?thesis using JList by simp
qed (simp_all add: immediate_on_of_def)

definition notification_object :: "bool \<Rightarrow> bool \<Rightarrow> bool \<Rightarrow> json_object \<Rightarrow> bool \<Rightarrow> json_object \<Rightarrow> string \<Rightarrow> json \<Rightarrow> json_object" where
  "notification_object c f r quiet enabled schedule destination immediate =
    [(''onChange'', JBool c), (''onFailure'', JBool f), (''onRecovery'', JBool r), (''quietWhenUnchanged'', JBool True),
     (''quietHours'', JDict quiet), (''digest'', JDict [(''enabled'', JBool enabled), (''schedule'', JDict schedule), (''maxPerDay'', JInt 1)]),
     (''destination'', JDict [(''kind'', JStr destination)]), (''immediateOn'', immediate)]"

lemma is_bool_iff: "is_bool v \<longleftrightarrow> (\<exists>b. v = JBool b)"
  by (cases v) (simp_all add: is_bool_def)

lemma quiet_hours_keys: "quiet_hours_of zones v = Inr q \<Longrightarrow> distinct (map fst q)"
  by (cases v) (auto simp: quiet_hours_of_def accepted)

lemma schedule_keys: "validate_workflow_schedule zones v = Inr r \<Longrightarrow> distinct (map fst r)"
  by (cases v) (auto simp: validate_workflow_schedule_def accepted cron_def)

text \<open>The parts of an accepted policy, and that they are all the validator looks at.\<close>

lemma notifications2_Inr:
  assumes "validate_workflow_notifications_v2 zones v = Inr r"
  obtains c f rc quiet enabled schedule immediate qv sv where "quiet_hours_of zones qv = Inr quiet"
    "validate_workflow_schedule zones sv = Inr schedule" "immediate_on_of immediate = Inr immediate"
    "r = notification_object c f rc quiet enabled schedule ''responsibility_thread'' immediate"
proof (cases v)
  case (JDict d)
  from assms JDict obtain c f rc quiet policy where
    flags: "dget d ''onChange'' = JBool c" "dget d ''onFailure'' = JBool f" "dget d ''onRecovery'' = JBool rc"
    and quiet: "quiet_hours_of zones (dget d ''quietHours'') = Inr quiet" and policy: "digest_policy_of (dget d ''digest'') = Inr policy"
    by (auto simp: validate_workflow_notifications_v2_def accepted is_bool_iff)
  from policy obtain enabled where enabled: "dget policy ''enabled'' = JBool enabled"
    by (cases "dget d ''digest''") (auto simp: digest_policy_of_def is_bool_iff split: if_split_asm)
  from assms JDict flags quiet policy obtain immediate schedule where
    im: "immediate_on_of (dget d ''immediateOn'') = Inr immediate"
    and sch: "validate_workflow_schedule zones (dget policy ''schedule'') = Inr schedule"
    and r: "r = notification_object c f rc quiet enabled schedule ''responsibility_thread'' immediate"
    by (auto simp: validate_workflow_notifications_v2_def notification_object_def accepted enabled)
  from im immediate_settled have "immediate_on_of immediate = Inr immediate" by metis
  with quiet sch r show thesis by (intro that)
qed (use assms in \<open>simp_all add: validate_workflow_notifications_v2_def\<close>)

lemma notifications2_settled:
  assumes "quiet_hours_of zones qv = Inr quiet" and "validate_workflow_schedule zones sv = Inr schedule"
    and "immediate_on_of immediate = Inr immediate" and "keys_are d notification_fields"
    and "\<forall>k. dget d k = canon (dget (notification_object c f rc quiet enabled schedule ''responsibility_thread'' immediate) k)"
  shows "validate_workflow_notifications_v2 zones (JDict d) =
    Inr (notification_object c f rc quiet enabled schedule ''responsibility_thread'' immediate)"
proof -
  have q: "quiet_hours_of zones (canon (JDict quiet)) = Inr quiet"
    using quiet_hours_settled [OF assms(1) views_canon [OF quiet_hours_keys [OF assms(1)]]] by simp
  have s: "validate_workflow_schedule zones (canon (JDict schedule)) = Inr schedule"
    using schedule_settled [OF assms(2) views_canon [OF schedule_keys [OF assms(2)]]] by simp
  define policy where "policy = [(''enabled'', JBool enabled), (''schedule'', JDict schedule), (''maxPerDay'', JInt 1)]"
  have v: "views (sort_key fst (canon_items policy)) policy" by (rule views_canon) (simp add: policy_def)
  have one: "py_eq (JInt 1) (JInt 1)" by (simp add: py_eq_def)
  have "keys_are policy [''enabled'', ''schedule'', ''maxPerDay'']" by (simp add: policy_def keys_are_def)
  then have p: "digest_policy_of (canon (JDict policy)) = Inr (sort_key fst (canon_items policy))"
    "dget (sort_key fst (canon_items policy)) ''enabled'' = JBool enabled"
    "dget (sort_key fst (canon_items policy)) ''schedule'' = canon (JDict schedule)"
    using one by (simp_all add: digest_policy_of_def view_rules [OF v] is_bool_def) (simp_all add: policy_def object_simps is_bool_def)
  have "dget d ''onChange'' = JBool c" "dget d ''onFailure'' = JBool f" "dget d ''onRecovery'' = JBool rc"
    "dget d ''quietWhenUnchanged'' = JBool True" "dget d ''quietHours'' = canon (JDict quiet)" "dget d ''digest'' = canon (JDict policy)"
    "dget d ''destination'' = JDict [(''kind'', JStr ''responsibility_thread'')]" "dget d ''immediateOn'' = immediate"
    using assms(5) immediate_settled [OF assms(3)] by (simp_all add: notification_object_def policy_def object_simps)
  with assms(3,4) q s p show ?thesis
    by (simp add: validate_workflow_notifications_v2_def notification_object_def is_bool_def del: canon.simps(2))
qed

lemma dget_dset: "dget (dset d k v) j = (if j = k then v else dget d j)"
  by (induction d k v rule: dset.induct) (auto simp: dget_def)

lemma dset_keys: "fst ` set (dset d k v) = insert k (fst ` set d)"
  by (induction d k v rule: dset.induct) auto

lemma keys_are_dset: "dhas d k \<Longrightarrow> keys_are (dset d k v) ks = keys_are d ks"
  by (auto simp: keys_are_def dhas_def dset_keys)

lemma notifications3_Inr:
  assumes "validate_workflow_notifications_v3 zones v = Inr r"
  obtains c f rc quiet enabled immediate qv sv where "quiet_hours_of zones qv = Inr quiet"
    "validate_workflow_schedule zones sv = Inr digest_schedule" "immediate_on_of immediate = Inr immediate"
    "r = notification_object c f rc quiet enabled digest_schedule ''owner_private'' immediate"
proof (cases v)
  case (JDict d)
  with assms obtain result where res: "validate_workflow_notifications_v2 zones
      (JDict (dset d ''destination'' (JDict [(''kind'', JStr ''responsibility_thread'')]))) = Inr result"
    and dig: "\<not> (case dget result ''digest'' of JDict p \<Rightarrow> dget p ''schedule'' \<noteq> JDict digest_schedule | _ \<Rightarrow> True)"
    and r: "r = dset result ''destination'' (JDict [(''kind'', JStr ''owner_private'')])"
    by (auto simp: validate_workflow_notifications_v3_def bindE_eq_Inr split: if_split_asm)
  from res show thesis
  proof (cases rule: notifications2_Inr)
    case (1 c f rc quiet enabled schedule immediate qv sv)
    from dig 1(4) have "schedule = digest_schedule" by (simp add: notification_object_def object_simps)
    with 1 r that show thesis by (simp add: notification_object_def)
  qed
qed (use assms in \<open>simp_all add: validate_workflow_notifications_v3_def\<close>)

lemma notifications3_settled:
  assumes "validate_workflow_notifications_v3 zones v = Inr r" and "views d r"
  shows "validate_workflow_notifications_v3 zones (JDict d) = Inr r"
  using assms(1)
proof (cases rule: notifications3_Inr)
  case (1 c f rc quiet enabled immediate qv sv)
  define d2 where "d2 = dset d ''destination'' (JDict [(''kind'', JStr ''responsibility_thread'')])"
  have dest: "dget d ''destination'' = JDict [(''kind'', JStr ''owner_private'')]"
    using 1(4) by (simp add: view_rules [OF assms(2)] notification_object_def object_simps)
  have "keys_are d notification_fields" using 1(4)
    by (simp add: view_rules [OF assms(2)]) (simp add: notification_object_def notification_fields_def keys_are_def)
  moreover have "dhas d ''destination''" using 1(4) by (simp add: view_rules [OF assms(2)] notification_object_def object_simps)
  ultimately have "keys_are d2 notification_fields" by (simp add: d2_def keys_are_dset)
  moreover have "\<forall>k. dget d2 k = canon (dget (notification_object c f rc quiet enabled digest_schedule ''responsibility_thread'' immediate) k)"
    using 1(4) by (simp add: d2_def dget_dset view_rules [OF assms(2)] notification_object_def object_simps)
  ultimately have "validate_workflow_notifications_v2 zones (JDict d2) =
      Inr (notification_object c f rc quiet enabled digest_schedule ''responsibility_thread'' immediate)"
    using notifications2_settled [OF 1(1-3)] by blast
  with dest 1(4) show ?thesis
    by (simp add: validate_workflow_notifications_v3_def d2_def [symmetric]) (simp add: notification_object_def object_simps)
qed

section \<open>Definitions\<close>

definition workflow3_object :: "string \<Rightarrow> string \<Rightarrow> string \<Rightarrow> bool \<Rightarrow> json_object list \<Rightarrow> json_object list \<Rightarrow> json_object \<Rightarrow> json_object
    \<Rightarrow> string option \<Rightarrow> json_object" where
  "workflow3_object i title description enabled targets triggers auth notifications updated =
    [(''id'', JStr i), (''version'', JInt 3), (''title'', JStr title), (''description'', JStr description), (''enabled'', JBool enabled),
     (''targets'', JList (map JDict targets)), (''triggers'', JList (map JDict triggers)), (''authorization'', JDict auth),
     (''notifications'', JDict notifications)] @ (case updated of None \<Rightarrow> [] | Some t \<Rightarrow> [(''updatedAt'', JStr t)])"

lemma bounded_list_Inr: "bounded_list lo hi v code = Inr l \<longleftrightarrow> v = JList l \<and> lo \<le> length l \<and> length l \<le> hi"
  by (auto simp: bounded_list_def split: json.splits)

lemma updated_at_Inr: "updated_at_of v = Inr u \<Longrightarrow> \<exists>o'. u = (case o' of None \<Rightarrow> [] | Some t \<Rightarrow> [(''updatedAt'', JStr t)]) \<and> pred_option (text_ok 128) o'"
  by (auto simp: updated_at_of_def accepted split: if_split_asm intro: exI [of _ None] exI [of _ "Some _"])

lemma description_Inr: "description_of code d = Inr s \<Longrightarrow> length s \<le> 20000"
  by (auto simp: description_of_def split: json.splits if_split_asm)

lemma targets_length: "v3_targets seen vs = Inr ts \<Longrightarrow> length ts = length vs"
  by (induction seen vs arbitrary: ts rule: v3_targets.induct) (auto simp: bindE_eq_Inr if_Inl_eq_Inr)

lemma triggers_length: "v3_triggers zones targets seen vs = Inr ts \<Longrightarrow> length ts = length vs"
  by (induction zones targets seen vs arbitrary: ts rule: v3_triggers.induct) (auto simp: bindE_eq_Inr)

lemma workflow3_Inr:
  assumes "validate_workflow_v3 zones d = Inr r"
  obtains i title description enabled targets triggers auth notifications updated tvs pvs av nv where
    "identifier_ok i" "text_ok 512 title" "length description \<le> 20000" "1 \<le> length targets" "length targets \<le> 100"
    "v3_targets [] tvs = Inr targets" "1 \<le> length triggers" "length triggers \<le> 100" "v3_triggers zones targets [] pvs = Inr triggers"
    "v3_authorization av = Inr auth" "validate_workflow_notifications_v3 zones nv = Inr notifications" "pred_option (text_ok 128) updated"
    "r = workflow3_object i title description enabled targets triggers auth notifications updated"
proof -
  from assms obtain enabled where e: "dget d ''enabled'' = JBool enabled"
    by (auto simp: validate_workflow_v3_def is_bool_iff split: if_split_asm)
  from assms obtain i title description tvs targets pvs triggers auth notifications u where
    *: "identifier_ok i" "text_ok 512 title" "description_of ''WORK_WORKFLOW_V3_INVALID'' d = Inr description"
    "1 \<le> length tvs" "length tvs \<le> 100" "v3_targets [] tvs = Inr targets" "1 \<le> length pvs" "length pvs \<le> 100"
    "v3_triggers zones targets [] pvs = Inr triggers" "v3_authorization (dget d ''authorization'') = Inr auth"
    "validate_workflow_notifications_v3 zones (dget d ''notifications'') = Inr notifications" "updated_at_of (dget d ''updatedAt'') = Inr u"
    "r = [(''id'', JStr i), (''version'', JInt 3), (''title'', JStr title), (''description'', JStr description), (''enabled'', JBool enabled),
     (''targets'', JList (map JDict targets)), (''triggers'', JList (map JDict triggers)), (''authorization'', JDict auth),
     (''notifications'', JDict notifications)] @ u"
    by (auto simp: validate_workflow_v3_def accepted bounded_list_Inr e)
  from updated_at_Inr [OF *(12)] obtain updated where "u = (case updated of None \<Rightarrow> [] | Some t \<Rightarrow> [(''updatedAt'', JStr t)])"
    "pred_option (text_ok 128) updated" by blast
  with * targets_length [OF *(6)] triggers_length [OF *(9)] description_Inr [OF *(3)] show thesis
    by (intro that [of i title description targets tvs triggers pvs _ auth _ notifications updated enabled]) (simp_all add: workflow3_object_def)
qed

lemma notifications_destination: "validate_workflow_notifications_v3 zones v = Inr r \<Longrightarrow> dget r ''destination'' = JDict [(''kind'', JStr ''owner_private'')]"
  by (erule notifications3_Inr) (simp add: notification_object_def object_simps)

lemma authorization_keys: "v3_authorization v = Inr r \<Longrightarrow> distinct (map fst r)"
  by (cases v) (auto simp: v3_authorization_def accepted split: if_split_asm)

lemma notifications_keys: "validate_workflow_notifications_v3 zones v = Inr r \<Longrightarrow> distinct (map fst r)"
  by (erule notifications3_Inr) (simp add: notification_object_def)

lemma canon_map_JDict: "canon_list (map JDict ts) = map (\<lambda>t. canon (JDict t)) ts"
  by (induction ts) auto

lemma workflow3_settled:
  assumes "identifier_ok i" "text_ok 512 title" "length description \<le> 20000" "1 \<le> length targets" "length targets \<le> 100"
    "v3_targets [] tvs = Inr targets" "1 \<le> length triggers" "length triggers \<le> 100" "v3_triggers zones targets [] pvs = Inr triggers"
    "v3_authorization av = Inr auth" "validate_workflow_notifications_v3 zones nv = Inr notifications" "pred_option (text_ok 128) updated"
    and views: "views d (workflow3_object i title description enabled targets triggers auth notifications updated)"
  shows "validate_workflow_v3 zones d = Inr (workflow3_object i title description enabled targets triggers auth notifications updated)"
proof -
  have three: "py_eq (JInt 3) (JInt 3)" by (simp add: py_eq_def)
  note a = authorization_settled [OF assms(10) views_canon [OF authorization_keys [OF assms(10)]]]
  note n = notifications3_settled [OF assms(11) views_canon [OF notifications_keys [OF assms(11)]]]
  have "keys_within d workflow3_fields"
    by (simp add: view_rules [OF views]) (simp add: workflow3_object_def workflow3_fields_def keys_within_def split: option.split)
  moreover have "dget d ''id'' = JStr i" "dget d ''version'' = JInt 3" "dget d ''title'' = JStr title" "dget d ''enabled'' = JBool enabled"
    "dget d ''targets'' = JList (map (\<lambda>t. canon (JDict t)) targets)" "dget d ''triggers'' = JList (map (\<lambda>t. canon (JDict t)) triggers)"
    "dget d ''authorization'' = canon (JDict auth)" "dget d ''notifications'' = canon (JDict notifications)"
    "dget_or d ''description'' (JStr []) = JStr description"
    "dget d ''updatedAt'' = (case updated of None \<Rightarrow> JNull | Some t \<Rightarrow> JStr t)"
    by (simp_all add: view_rules [OF views] workflow3_object_def object_simps canon_map_JDict split: option.split)
  moreover have "updated_at_of (case updated of None \<Rightarrow> JNull | Some t \<Rightarrow> JStr t) =
      Inr (case updated of None \<Rightarrow> [] | Some t \<Rightarrow> [(''updatedAt'', JStr t)])"
    using assms(12) by (cases updated) (simp_all add: updated_at_of_def accepted)
  ultimately show ?thesis
    using assms three a n targets_settled [OF assms(6)] triggers_settled [OF assms(9)] notifications_destination [OF assms(11)]
    by (auto simp: validate_workflow_v3_def accepted bounded_list_Inr is_bool_def description_of_def workflow3_object_def)
qed

text \<open>What \<open>put_workflow\<close> stores: the accepted definition with the time of the update.\<close>

lemma stored_workflow3:
  assumes "validate_workflow_v3 zones d0 = Inr r" and "text_ok 128 t" and "views d (dset r ''updatedAt'' (JStr t))"
  shows "validate_workflow_v3 zones d = Inr (dset r ''updatedAt'' (JStr t))"
  using assms(1)
proof (cases rule: workflow3_Inr)
  case (1 i title description enabled targets triggers auth notifications updated tvs pvs av nv)
  have "dset r ''updatedAt'' (JStr t) = workflow3_object i title description enabled targets triggers auth notifications (Some t)"
    using 1(13) by (simp add: workflow3_object_def split: option.split)
  with workflow3_settled [OF 1(1-11), of "Some t" d enabled] assms(2,3) show ?thesis by simp
qed

end
