(* ===== verification/Flow_Inv.thy ===== *)
theory Flow_Inv
  imports Flow_Event Flow_Settle Systems
begin

text \<open>
  The invariant of the workflow table: unique keys, every definition readable, and every private one accepted again by its
  validator, unchanged. The theory ends with the runs of \<open>put_workflow\<close> and how a row may change along them.
\<close>

section \<open>Accepted definitions can be stored\<close>

lemma jwf_map_JDict: "jwf_list (map JDict ts) = list_all (\<lambda>t. jwf (JDict t)) ts"
  by (induction ts) auto

lemma jwf_map_JStr [simp]: "jwf_list (map JStr ss)"
  by (induction ss) auto

lemma jwf_map_JInt [simp]: "jwf_list (map JInt ns)"
  by (induction ns) auto

lemma mapE_all: "mapE f l = Inr ts \<Longrightarrow> (\<And>v t. f v = Inr t \<Longrightarrow> P t) \<Longrightarrow> list_all P ts"
  by (induction l arbitrary: ts) (auto simp: bindE_eq_Inr)

lemma schedule_jwf: "validate_workflow_schedule zones v = Inr r \<Longrightarrow> jwf (JDict r)"
  by (cases v) (auto simp: validate_workflow_schedule_def accepted cron_def)

lemma quiet_hours_jwf: "quiet_hours_of zones v = Inr r \<Longrightarrow> jwf (JDict r)"
  by (cases v) (auto simp: quiet_hours_of_def accepted clock_text_def split: json.split_asm)

lemma immediate_jwf:
  assumes "immediate_on_of v = Inr r"
  shows "jwf r"
proof (cases v)
  case (JList l)
  with assms have "r = JList l" "list_all (\<lambda>x. x \<in> JStr ` set immediate_kinds) l"
    by (auto simp: immediate_on_of_def split: if_split_asm)
  moreover from this(2) have "jwf_list l" by (induction l) auto
  ultimately show ?thesis by simp
qed (use assms in \<open>simp_all add: immediate_on_of_def\<close>)

lemma notifications2_jwf: "validate_workflow_notifications_v2 zones v = Inr r \<Longrightarrow> jwf (JDict r)"
  by (erule notifications2_Inr) (auto simp: notification_object_def dest: quiet_hours_jwf schedule_jwf immediate_jwf)

lemma digest_schedule_jwf: "jwf (JDict digest_schedule)"
  by (simp add: digest_schedule_def cron_def)

lemma notifications3_jwf: "validate_workflow_notifications_v3 zones v = Inr r \<Longrightarrow> jwf (JDict r)"
  using digest_schedule_jwf
  by (elim notifications3_Inr) (auto simp: notification_object_def dest: quiet_hours_jwf immediate_jwf)

lemma v3_target_jwf: "v3_target v = Inr t \<Longrightarrow> jwf (JDict t)"
  by (erule v3_target_Inr) auto

lemma v3_trigger_jwf: "v3_trigger zones targets seen v = Inr t \<Longrightarrow> jwf (JDict t)"
  by (erule v3_trigger_Inr) (simp add: cron_def quiet_baseline_def)

lemma v3_targets_jwf: "v3_targets seen vs = Inr ts \<Longrightarrow> list_all (\<lambda>t. jwf (JDict t)) ts"
  by (induction seen vs arbitrary: ts rule: v3_targets.induct)
    (auto simp: bindE_eq_Inr if_Inl_eq_Inr simp del: jwf.simps dest: v3_target_jwf)

lemma v3_triggers_jwf: "v3_triggers zones targets seen vs = Inr ts \<Longrightarrow> list_all (\<lambda>t. jwf (JDict t)) ts"
  by (induction zones targets seen vs arbitrary: ts rule: v3_triggers.induct)
    (auto simp: bindE_eq_Inr simp del: jwf.simps dest: v3_trigger_jwf)

lemma v3_authorization_jwf: "v3_authorization v = Inr r \<Longrightarrow> jwf (JDict r)"
  by (cases v) (auto simp: v3_authorization_def accepted split: if_split_asm)

lemma workflow3_jwf: "validate_workflow_v3 zones d = Inr r \<Longrightarrow> jwf (JDict r)"
  by (erule workflow3_Inr) (auto simp: workflow3_object_def jwf_map_JDict split: option.split
      dest: v3_targets_jwf v3_triggers_jwf v3_authorization_jwf notifications3_jwf)

lemma v1_target_jwf: "v1_target v = Inr r \<Longrightarrow> jwf (JDict r)"
  by (cases v) (auto simp: v1_target_def accepted split: if_split_asm)

lemma v1_notifications_jwf: "v1_notifications v = Inr r \<Longrightarrow> jwf (JDict r)"
  by (cases v) (auto simp: v1_notifications_def is_bool_iff split: if_split_asm)

lemma v1_schedule_jwf: "v1_schedule zones v = Inr r \<Longrightarrow> r = [] \<or> (\<exists>s. r = [(''schedule'', JDict s)] \<and> jwf (JDict s))"
  by (cases v) (auto simp: v1_schedule_def accepted cron_def)

lemma workflow1_jwf:
  assumes "validate_workflow_v1 zones d = Inr r"
  shows "jwf (JDict r)"
proof (cases "dget d ''targets''")
  case (JList l)
  from assms JList obtain i title instructions description enabled targets notifications schedule where
    "mapE v1_target l = Inr targets" and n: "v1_notifications (dget d ''notifications'') = Inr notifications"
    and s: "v1_schedule zones (dget d ''schedule'') = Inr schedule"
    and r: "r = [(''id'', JStr i), (''version'', JInt 1), (''title'', JStr title), (''description'', JStr description),
      (''instructions'', JStr instructions), (''targets'', JList (map JDict targets)), (''notifications'', JDict notifications),
      (''enabled'', JBool enabled)] @ schedule"
    by (auto simp: validate_workflow_v1_def accepted is_bool_iff)
  then have "list_all (\<lambda>t. jwf (JDict t)) targets" using mapE_all v1_target_jwf by metis
  with r v1_notifications_jwf [OF n] v1_schedule_jwf [OF s] show ?thesis by (auto simp: jwf_map_JDict)
qed (use assms in \<open>auto simp: validate_workflow_v1_def accepted\<close>)

lemma v2_target_jwf: "v2_target v = Inr r \<Longrightarrow> jwf (JDict r)"
  by (cases v) (auto simp: v2_target_def v2_uri_def accepted split: if_split_asm option.split_asm)

lemma v2_search_jwf:
  assumes "v2_search v = Inr r"
  shows "jwf (JDict r)"
proof (cases v)
  case (JDict d)
  with assms obtain labels n query where "r = [(''state'', dget d ''state''), (''labels'', JList (map JStr labels)), (''limit'', JInt n)] @ query"
    "query = [] \<or> (\<exists>q. query = [(''query'', JStr q)])"
    by (cases "dget d ''labels''"; cases "dget d ''limit''") (auto simp: v2_search_def accepted split: if_split_asm)
  moreover from assms JDict obtain s where "dget d ''state'' = JStr s" by (auto simp: v2_search_def accepted in_names_True)
  ultimately show ?thesis by auto
qed (use assms in \<open>simp_all add: v2_search_def\<close>)

lemma v2_trigger_jwf:
  assumes "v2_trigger zones targets seen v = Inr r"
  shows "jwf (JDict r)"
proof (cases v)
  case (JDict d)
  with assms obtain kind where k: "dget d ''kind'' = JStr kind" by (auto simp: v2_trigger_def accepted in_names_True)
  from assms JDict obtain i l schedule search where
    r: "r = [(''id'', JStr i), (''kind'', dget d ''kind''), (''schedule'', JDict schedule), (''targetIds'', JList l),
      (''initialBaseline'', JStr ''record_without_notification'')] @ search" and "jwf_list l"
    and sch: "validate_workflow_schedule zones (dget d ''schedule'') = Inr schedule"
    and search: "search = [] \<or> (\<exists>s. v2_search (dget d ''search'') = Inr s \<and> search = [(''search'', JDict s)])"
    by (cases "dget_or d ''targetIds'' (JList [])") (auto simp: v2_trigger_def accepted Let_def split: if_split_asm)
  with k schedule_jwf [OF sch] show ?thesis by (auto dest: v2_search_jwf)
qed (use assms in \<open>simp_all add: v2_trigger_def\<close>)

lemma nonempty_list_Inr:
  "(case v of JList (x # xs) \<Rightarrow> f x xs | _ \<Rightarrow> Inl e) = Inr r \<longleftrightarrow> (\<exists>x xs. v = JList (x # xs) \<and> f x xs = Inr r)"
  by (cases v) (auto split: list.splits)

lemma v2_grant_jwf:
  assumes "v2_grant targets seen v = Inr r"
  shows "jwf (JDict r)"
proof (cases v)
  case (JDict d)
  with assms show ?thesis by (auto simp: v2_grant_def accepted nonempty_list_Inr Let_def)
qed (use assms in \<open>simp_all add: v2_grant_def\<close>)

lemma v2_targets_jwf: "v2_targets seen vs = Inr ts \<Longrightarrow> list_all (\<lambda>t. jwf (JDict t)) ts"
  by (induction seen vs arbitrary: ts rule: v2_targets.induct)
    (auto simp: bindE_eq_Inr if_Inl_eq_Inr simp del: jwf.simps dest: v2_target_jwf)

lemma v2_triggers_jwf: "v2_triggers zones targets seen vs = Inr ts \<Longrightarrow> list_all (\<lambda>t. jwf (JDict t)) ts"
  by (induction zones targets seen vs arbitrary: ts rule: v2_triggers.induct)
    (auto simp: bindE_eq_Inr simp del: jwf.simps dest: v2_trigger_jwf)

lemma v2_grants_jwf: "v2_grants targets seen vs = Inr ts \<Longrightarrow> list_all (\<lambda>t. jwf (JDict t)) ts"
  by (induction targets seen vs arbitrary: ts rule: v2_grants.induct)
    (auto simp: bindE_eq_Inr simp del: jwf.simps dest: v2_grant_jwf)

lemma v2_action_policy_jwf:
  assumes "v2_action_policy targets v = Inr r"
  shows "jwf (JDict r)"
proof (cases v)
  case (JDict d)
  from assms JDict obtain l grants where "v2_grants targets [] l = Inr grants"
    "r = [(''allowedActions'', JList (map JDict grants)), (''separateChildTask'', JBool True),
      (''productionChanges'', JStr ''forbidden''), (''requiresUserAuthorization'', user_authorized)]"
    by (cases "dget_or d ''allowedActions'' (JList [])") (auto simp: v2_action_policy_def accepted)
  with v2_grants_jwf show ?thesis by (auto simp: jwf_map_JDict user_authorized_def)
qed (use assms in \<open>simp_all add: v2_action_policy_def\<close>)

lemma v2_model_policy_jwf: "v2_model_policy v = Inr r \<Longrightarrow> jwf (JDict r)"
  by (cases v) (auto simp: v2_model_policy_def accepted in_names_True Let_def)

lemma v2_authorization_jwf: "v2_authorization v = Inr r \<Longrightarrow> jwf (JDict r)"
  by (cases v) (auto simp: v2_authorization_def accepted)

lemma updated_at_jwf: "updated_at_of v = Inr u \<Longrightarrow> u = [] \<or> (\<exists>t. u = [(''updatedAt'', JStr t)])"
  by (auto simp: updated_at_of_def accepted split: if_split_asm)

lemma workflow2_jwf:
  assumes "validate_workflow_v2 zones d = Inr r"
  shows "jwf (JDict r)"
proof -
  from assms obtain i title description goal instructions enabled targets triggers policy model auth notifications updated tvs pvs where
    "v2_targets [] tvs = Inr targets" "v2_triggers zones targets [] pvs = Inr triggers"
    "v2_action_policy targets (dget d ''actionPolicy'') = Inr policy" "v2_model_policy (dget d ''modelPolicy'') = Inr model"
    "v2_authorization (dget d ''authorization'') = Inr auth"
    "validate_workflow_notifications_v2 zones (dget d ''notifications'') = Inr notifications"
    "updated_at_of (dget d ''updatedAt'') = Inr updated"
    and r: "r = [(''id'', JStr i), (''version'', JInt 2), (''title'', JStr title), (''description'', JStr description), (''goal'', JStr goal),
      (''instructions'', JStr instructions), (''enabled'', JBool enabled), (''targets'', JList (map JDict targets)),
      (''triggers'', JList (map JDict triggers)), (''actionPolicy'', JDict policy), (''modelPolicy'', JDict model),
      (''authorization'', JDict auth), (''notifications'', JDict notifications)] @ updated"
    by (auto simp: validate_workflow_v2_def accepted is_bool_iff)
  note parts = v2_targets_jwf [OF this(1)] v2_triggers_jwf [OF this(2)] v2_action_policy_jwf [OF this(3)] v2_model_policy_jwf [OF this(4)]
    v2_authorization_jwf [OF this(5)] notifications2_jwf [OF this(6)] updated_at_jwf [OF this(7)]
  then show ?thesis unfolding r by (auto simp: jwf_map_JDict)
qed

lemma version_of_accepted:
  "validate_workflow_v1 zones d = Inr w \<Longrightarrow> dget w ''version'' = JInt 1 \<and> (\<exists>i. dget w ''id'' = JStr i)"
  "validate_workflow_v2 zones d = Inr w \<Longrightarrow> dget w ''version'' = JInt 2 \<and> (\<exists>i. dget w ''id'' = JStr i)"
  "validate_workflow_v3 zones d = Inr w \<Longrightarrow> dget w ''version'' = JInt 3 \<and> (\<exists>i. dget w ''id'' = JStr i)"
  by (cases "dget d ''targets''"; force simp: validate_workflow_v1_def accepted object_simps)
    (auto simp: validate_workflow_v2_def validate_workflow_v3_def accepted object_simps)

lemma validate_workflow_Inr:
  assumes "validate_workflow zones v = Inr w"
  obtains n i where "jwf (JDict w)" "dget w ''version'' = JInt n" "n \<in> {1, 2, 3}" "dget w ''id'' = JStr i"
    "n = 3 \<Longrightarrow> \<exists>d. validate_workflow_v3 zones d = Inr w"
proof -
  from assms consider d where "validate_workflow_v1 zones d = Inr w" | d where "validate_workflow_v2 zones d = Inr w"
    | d where "validate_workflow_v3 zones d = Inr w"
    by (auto simp: validate_workflow_def bindE_eq_Inr split: if_split_asm)
  then show thesis
    by cases (use version_of_accepted workflow1_jwf workflow2_jwf workflow3_jwf that in \<open>fastforce+\<close>)
qed

section \<open>The invariant\<close>

definition stored_ok :: "zones \<Rightarrow> workflow_row \<Rightarrow> bool" where
  "stored_ok zones r \<longleftrightarrow> wf_version r \<in> {1, 2, 3} \<and> (wf_version r = 3 \<longrightarrow> py_lower (wf_owner r) = wf_owner r) \<and>
    (\<exists>w. stored_object (wf_json r) = Inr (sort_key fst (canon_items w)) \<and> text_at w ''id'' = wf_id r \<and> dget w ''version'' = JInt (wf_version r) \<and>
      (wf_version r = 3 \<longrightarrow> validate_workflow_v3 zones (sort_key fst (canon_items w)) = Inr w))"

definition finv :: "zones \<Rightarrow> workflow_row list \<Rightarrow> bool" where
  "finv zones t \<longleftrightarrow> keyed wf_key t \<and> (\<forall>r \<in> set t. stored_ok zones r)"

lemma padded_digits: "list_all is_digit (padded w n)" "length (padded w n) = w"
  by (induction w arbitrary: n) (simp_all add: digit_is_digit)

lemma digit_no_nul: "is_digit c \<Longrightarrow> c \<noteq> CHR 0x00"
  by (auto simp: is_digit_def)

lemma py_strip_letter:
  assumes "c \<in> set s" and "\<not> py_space c"
  shows "py_strip s \<noteq> []"
proof -
  have "c \<in> set (dropWhile py_space s)" using assms by (metis set_takeWhileD takeWhile_dropWhile_id Un_iff set_append)
  with assms(2) show ?thesis by (auto simp: py_strip_def)
qed

lemma iso_utc_ok: "iso_utc now = Inr t \<Longrightarrow> text_ok 128 t"
proof -
  assume "iso_utc now = Inr t"
  then obtain a b c d e f g where t: "t = padded 4 a @ ''-'' @ padded 2 b @ ''-'' @ padded 2 c @ ''T'' @ padded 2 d @ '':'' @
      padded 2 e @ '':'' @ padded 2 f @ ''.'' @ padded 3 g @ ''Z''"
    by (auto simp: iso_utc_def Let_def split: prod.split_asm if_split_asm)
  have "CHR 0x00 \<notin> set (padded w n)" for w n
    using padded_digits(1) [of w n] digit_no_nul by (auto simp: list_all_iff)
  moreover have "length t = 24" unfolding t by (simp add: padded_digits(2))
  moreover have "py_strip t \<noteq> []" by (rule py_strip_letter [of "CHR ''Z''"]) (simp_all add: t py_space_def)
  ultimately show ?thesis by (simp add: text_ok_def t)
qed

section \<open>One call\<close>

lemma put_workflow_Inl: "put_workflow zones now db org ws workflow actor scope t = (Inl e, t') \<Longrightarrow> t' = t"
  by (auto simp: put_workflow_def resE Let_def split: if_split_asm)

text \<open>An accepted put writes one row, which holds what was validated and the time.\<close>

lemma put_workflow_Inr:
  assumes "put_workflow zones now db org ws workflow actor scope t = (Inr v, t')"
  obtains o' w a x time row where "work_scope org ws = Inr (o', w)" "validate_workflow zones workflow = Inr x" "actor_of actor = Inr a"
    "iso_utc now = Inr time" "v = dset x ''updatedAt'' (JStr time)" "work_json_text (JDict v) = Inr (wf_json row)"
    "wf_org row = o'" "wf_ws row = w" "dget x ''id'' = JStr (wf_id row)" "dget x ''version'' = JInt (wf_version row)"
    "may_replace (find_by wf_key (wf_key row) t) a (wf_version row = 3) = Inr ()" "wf_version row = 3 \<longrightarrow> a = Some (wf_owner row)"
    "t' = put_workflow_row row t"
proof -
  from assms obtain o' w x a time where *: "work_scope org ws = Inr (o', w)" "validate_workflow zones workflow = Inr x"
    "actor_of actor = Inr a" "iso_utc now = Inr time" by (auto simp: put_workflow_def resE Let_def)
  obtain n i where "dget x ''version'' = JInt n" "dget x ''id'' = JStr i" using *(2) by (rule validate_workflow_Inr)
  with * assms that [OF * , of "\<lparr>wf_org = o', wf_ws = w, wf_id = i, wf_version = n, wf_json = _, wf_updated = now,
      wf_owner = (if n = 3 then case a of None \<Rightarrow> [] | Some b \<Rightarrow> b else [])\<rparr>"]
  show thesis by (auto simp: put_workflow_def resE Let_def text_at_def dget_dset wf_key_def split: if_split_asm)
qed

text \<open>The table afterwards.\<close>

lemma find_put_workflow:
  "find_by wf_key k (put_workflow_row r t) = (if k = wf_key r
     then Some (case find_by wf_key k t of None \<Rightarrow> r | Some x \<Rightarrow> x\<lparr>wf_version := wf_version r, wf_json := wf_json r, wf_updated := wf_updated r, wf_owner := wf_owner r\<rparr>)
     else find_by wf_key k t)"
  by (auto simp: put_workflow_row_def table_simps wf_key_def split: option.split)

lemma keyed_put_workflow: "keyed wf_key t \<Longrightarrow> keyed wf_key (put_workflow_row r t)"
  by (auto simp: put_workflow_row_def keyed_snoc keyed_edit wf_key_def)

lemma set_put_workflow:
  "x \<in> set (put_workflow_row r t) \<Longrightarrow> x \<in> set t \<or> (wf_id x = wf_id r \<and> wf_version x = wf_version r \<and> wf_json x = wf_json r \<and> wf_owner x = wf_owner r)"
  by (auto simp: put_workflow_row_def in_edit_by wf_key_def split: if_split_asm)

lemma dset_jwf: "jwf (JDict d) \<Longrightarrow> jwf (JDict (dset d k (JStr s)))"
proof (induction d k "JStr s" rule: dset.induct)
  case (2 k' v' d k)
  then show ?case using dset_keys [of d k "JStr s"] by auto
qed simp

lemma actor_of_lower: "actor_of a = Inr (Some b) \<Longrightarrow> py_lower b = b"
  by (auto simp: actor_of_def resE split: option.split_asm)

lemma put_workflow_inv:
  assumes "put_workflow zones now db org ws workflow actor scope t = (r, t')" and "finv zones t"
  shows "finv zones t'"
proof (cases r)
  case (Inl e)
  with assms put_workflow_Inl show ?thesis by blast
next
  case (Inr v)
  with assms(1) have "put_workflow zones now db org ws workflow actor scope t = (Inr v, t')" by simp
  then show ?thesis
  proof (cases rule: put_workflow_Inr)
    case (1 o' w a x time row)
    obtain n where x: "jwf (JDict x)" "dget x ''version'' = JInt n" "n \<in> {1, 2, 3}" "n = 3 \<Longrightarrow> \<exists>d. validate_workflow_v3 zones d = Inr x"
      using 1(2) by (rule validate_workflow_Inr) blast
    have jwf: "jwf (JDict v)" unfolding 1(5) by (rule dset_jwf [OF x(1)])
    have stored: "stored_object (wf_json row) = Inr (sort_key fst (canon_items v))" by (rule stored_object_text [OF 1(6) jwf])
    have settled: "validate_workflow_v3 zones (sort_key fst (canon_items v)) = Inr v" if "wf_version row = 3"
    proof -
      from that x 1(10) obtain d where "validate_workflow_v3 zones d = Inr x" by auto
      from stored_workflow3 [OF this iso_utc_ok [OF 1(4)]] views_canon [of v] jwf 1(5) show ?thesis by simp
    qed
    have "wf_version row = 3 \<longrightarrow> py_lower (wf_owner row) = wf_owner row"
      using 1(3,12) actor_of_lower by blast
    with x 1 stored settled have "stored_ok zones row"
      unfolding stored_ok_def by (auto simp: text_at_def dget_dset intro!: exI [of _ v])
    then have "stored_ok zones y" if "wf_id y = wf_id row" "wf_version y = wf_version row" "wf_json y = wf_json row" "wf_owner y = wf_owner row" for y
      using that by (simp add: stored_ok_def)
    with assms(2) 1(13) show ?thesis by (auto simp: finv_def keyed_put_workflow dest!: set_put_workflow)
  qed
qed

section \<open>Accepted events can be stored\<close>

text \<open>A well-formed piece of an object, with keys among the given ones.\<close>

definition piece :: "string list \<Rightarrow> json_object \<Rightarrow> bool" where
  "piece ks d \<longleftrightarrow> distinct (map fst d) \<and> jwf_items d \<and> fst ` set d \<subseteq> set ks"

lemma piece_jwf: "piece ks d \<Longrightarrow> jwf (JDict d)"
  by (simp add: piece_def)

lemma piece_single: "jwf v \<Longrightarrow> piece [k] [(k, v)]" "piece ks []"
  by (simp_all add: piece_def)

lemma piece_append: "piece ks a \<Longrightarrow> piece ls b \<Longrightarrow> set ks \<inter> set ls = {} \<Longrightarrow> piece (ks @ ls) (a @ b)"
  by (auto simp: piece_def jwf_items_all)

lemma optional_field_piece: "optional_field d k n = Inr r \<Longrightarrow> piece [k] r"
  by (auto simp: optional_field_def accepted piece_def split: if_split_asm)

lemma optional_fields_piece:
  "optional_fields d specs = Inr r \<Longrightarrow> distinct (map fst specs) \<Longrightarrow> piece (map fst specs) r"
proof (induction specs arbitrary: r)
  case Nil
  then show ?case by (simp add: optional_fields_def piece_def)
next
  case (Cons spec specs)
  obtain k n where "spec = (k, n)" by (cases spec)
  with Cons.prems obtain a b where "optional_field d k n = Inr a" "optional_fields d specs = Inr b" "r = a @ b"
    by (auto simp: optional_fields_def bindE_eq_Inr)
  with Cons \<open>spec = (k, n)\<close> show ?case using piece_append [OF optional_field_piece [of d k n a], of "map fst specs" b] by auto
qed

lemma optional_flag_piece: "optional_flag d k = Inr r \<Longrightarrow> piece [k] r"
  by (auto simp: optional_flag_def piece_def is_bool_iff split: if_split_asm)

lemma optional_limit_jwf: "optional_limit v n = Inr r \<Longrightarrow> jwf r"
  by (auto simp: optional_limit_def accepted split: if_split_asm)

lemma evidence_item_jwf: "evidence_item v = Inr r \<Longrightarrow> jwf (JDict r)"
  by (cases v) (auto simp: evidence_item_def accepted)

lemma id_list_jwf: "id_list v = Inr r \<Longrightarrow> jwf r"
  by (cases v) (auto simp: id_list_def accepted)

lemma action_result_jwf:
  assumes "action_result v = Inr r"
  shows "jwf (JDict r)"
proof (cases v)
  case (JDict d)
  with assms show ?thesis by (cases "dget d ''operationIds''") (auto simp: action_result_def accepted in_names_True)
qed (use assms in \<open>simp_all add: action_result_def\<close>)

lemma search_cursor_jwf:
  assumes "search_cursor seen v = Inr r"
  shows "jwf (JDict r)"
proof (cases v)
  case (JDict d)
  with assms obtain pages where p: "dget d ''pagesCollected'' = JInt pages"
    by (cases "dget d ''pagesCollected''") (auto simp: search_cursor_def accepted)
  have t: "jwf (dget d ''totalCount'')" using assms JDict p
    by (cases "dget d ''totalCount''") (auto simp: search_cursor_def accepted)
  have b: "jwf (dget d ''blockedReason'')" using assms JDict p
    by (cases "dget d ''blockedReason'' = JNull") (auto simp: search_cursor_def accepted in_names_True)
  have "is_bool (dget d ''complete'')" "is_bool (dget d ''hasChanges'')" using assms JDict by (auto simp: search_cursor_def accepted)
  with assms JDict p t b show ?thesis by (auto simp: search_cursor_def accepted is_bool_iff)
qed (use assms in \<open>simp_all add: search_cursor_def\<close>)

lemma search_cursors_jwf: "search_cursors seen vs = Inr cs \<Longrightarrow> list_all (\<lambda>c. jwf (JDict c)) cs"
  by (induction seen vs arbitrary: cs rule: search_cursors.induct)
    (auto simp: bindE_eq_Inr simp del: jwf.simps dest: search_cursor_jwf)

lemma search_checkpoint_jwf:
  assumes "search_checkpoint v = Inr r"
  shows "jwf (JDict r)"
proof (cases v)
  case (JDict d)
  with assms obtain l where l: "dget d ''repositories'' = JList l"
    by (cases "dget d ''repositories''") (auto simp: search_checkpoint_def accepted)
  with assms JDict obtain w e cs where "optional_limit (dget d ''watermark'') 128 = Inr w" "search_cursors [] l = Inr cs"
    "r = [(''kind'', JStr ''github_issues_search''), (''watermark'', w), (''windowEnd'', JStr e),
      (''complete'', JBool (dget d ''complete'' = JBool True)), (''repositories'', JList (map JDict cs))]"
    by (simp add: search_checkpoint_def accepted Let_def split: if_split_asm) blast+
  with optional_limit_jwf search_cursors_jwf show ?thesis by (auto simp: jwf_map_JDict)
qed (use assms in \<open>simp_all add: search_checkpoint_def\<close>)

lemma source_state_jwf: "source_state seen v = Inr r \<Longrightarrow> jwf (JDict r)"
  by (cases v) (auto simp: source_state_def accepted in_names_True)

lemma source_states_jwf: "source_states seen vs = Inr cs \<Longrightarrow> list_all (\<lambda>c. jwf (JDict c)) cs"
  by (induction seen vs arbitrary: cs rule: source_states.induct)
    (auto simp: bindE_eq_Inr simp del: jwf.simps dest: source_state_jwf)

definition cursor_object :: "string \<Rightarrow> string \<Rightarrow> json \<Rightarrow> json \<Rightarrow> json \<Rightarrow> bool \<Rightarrow> int \<Rightarrow> json list \<Rightarrow> json list \<Rightarrow> json_object" where
  "cursor_object source target page resume watermark complete pages ids sts =
    [(''source'', JStr source), (''targetId'', JStr target), (''pageCursor'', page), (''resumeCursor'', resume), (''watermark'', watermark),
     (''complete'', JBool complete), (''pagesCollected'', JInt pages), (''seenEventIds'', JList ids), (''states'', JList sts)]"

lemma source_cursor_Inr:
  assumes "source_cursor window_end prior v = Inr r"
  obtains source target page resume watermark complete pages ids sts where
    "r = cursor_object source target page resume watermark complete pages ids sts"
    "(source, target) \<notin> set (map pair_at prior)" "cursor_state_ok complete window_end page resume watermark" "0 \<le> pages" "pages \<le> 20"
    "jwf page" "jwf resume" "jwf watermark" "jwf_list ids" "jwf_list sts"
proof (cases v)
  case (JDict d)
  from assms JDict obtain source target complete where
    s: "dget d ''source'' = JStr source" "dget d ''targetId'' = JStr target" "dget d ''complete'' = JBool complete"
    by (auto simp: source_cursor_def accepted in_names_True is_bool_iff)
  with assms JDict obtain pages where p: "dget d ''pagesCollected'' = JInt pages"
    by (cases "dget d ''pagesCollected''") (auto simp: source_cursor_def accepted)
  with assms JDict s obtain idv where i: "dget_or d ''seenEventIds'' (JList []) = JList idv"
    by (cases "dget_or d ''seenEventIds'' (JList [])") (auto simp: source_cursor_def accepted)
  with assms JDict s p obtain stv where st: "dget_or d ''states'' (JList []) = JList stv"
    by (cases "dget_or d ''states'' (JList [])") (auto simp: source_cursor_def accepted)
  from assms JDict s p i st obtain page resume watermark ids sts where
    "optional_limit (dget d ''pageCursor'') 2000 = Inr page" "optional_limit (dget d ''resumeCursor'') 2000 = Inr resume"
    "optional_limit (dget d ''watermark'') 512 = Inr watermark" "source_states [] stv = Inr sts"
    "r = cursor_object source target page resume watermark complete pages (map JStr ids) (map JDict sts)"
    "(source, target) \<notin> set (map pair_at prior)" "cursor_state_ok complete window_end page resume watermark" "0 \<le> pages" "pages \<le> 20"
    by (auto simp: source_cursor_def accepted text_at_def cursor_object_def)
  with that optional_limit_jwf source_states_jwf show thesis
    by (metis jwf_map_JDict jwf_map_JStr)
qed (use assms in \<open>simp_all add: source_cursor_def\<close>)

lemma source_cursor_jwf: "source_cursor window_end prior v = Inr r \<Longrightarrow> jwf (JDict r)"
  by (erule source_cursor_Inr) (simp add: cursor_object_def)

lemma source_cursors_jwf:
  "source_cursors window_end prior vs = Inr cs \<Longrightarrow> list_all (\<lambda>c. jwf (JDict c)) prior \<Longrightarrow> list_all (\<lambda>c. jwf (JDict c)) cs"
  by (induction window_end prior vs arbitrary: cs rule: source_cursors.induct)
    (auto simp: bindE_eq_Inr simp del: jwf.simps dest: source_cursor_jwf)

lemma source_poll_Inr:
  assumes "validate_source_poll_checkpoint d = Inr r"
  obtains start window_end complete l cursors where "r = [(''kind'', JStr ''source_poll''), (''windowStart'', start), (''windowEnd'', JStr window_end),
      (''complete'', JBool complete), (''sources'', JList (map JDict cursors))]" "jwf start"
    "source_cursors window_end [] l = Inr cursors" "complete = all_complete cursors"
proof -
  from assms obtain complete where c: "dget d ''complete'' = JBool complete"
    by (auto simp: validate_source_poll_checkpoint_def is_bool_iff split: if_split_asm)
  from assms c obtain start window_end l cursors where "optional_limit (dget d ''windowStart'') 128 = Inr start"
    "source_cursors window_end [] l = Inr cursors" "complete = all_complete cursors"
    "r = [(''kind'', JStr ''source_poll''), (''windowStart'', start), (''windowEnd'', JStr window_end),
      (''complete'', JBool complete), (''sources'', JList (map JDict cursors))]"
    by (auto simp: validate_source_poll_checkpoint_def accepted)
  with that optional_limit_jwf show thesis by blast
qed

lemma source_poll_jwf: "validate_source_poll_checkpoint d = Inr r \<Longrightarrow> jwf (JDict r)"
  by (erule source_poll_Inr) (auto simp: jwf_map_JDict dest: source_cursors_jwf)

lemma checkpoint_piece: "checkpoint_of v = Inr r \<Longrightarrow> piece [''checkpoint''] r"
  by (auto simp: checkpoint_of_def bindE_eq_Inr piece_def split: if_split_asm json.split_asm dest!: source_poll_jwf search_checkpoint_jwf)

lemma attention_piece: "attention_of v = Inr r \<Longrightarrow> piece [''attentionKind''] r"
  by (auto simp: attention_of_def bindE_eq_Inr in_names_True piece_def split: if_split_asm)

end
