(* ===== verification/Flow_System.thy ===== *)
theory Flow_System
  imports Flow_Inv
begin

text \<open>
  Workflows and schedule events as one system: its calls \<open>fstep\<close>, the invariant \<open>fdb_inv\<close>, the order \<open>fgrows\<close> (events are
  appended and never change, a private workflow keeps its owner), and the interpretation of \<open>history\<close>.
\<close>

section \<open>Accepted events\<close>

lemma dget_append: "dget (a @ b) k = (if dhas a k then dget a k else dget b k)"
  by (induction a) (auto simp: object_simps dhas_def dget_def split: option.split)

lemma piece_dhas: "piece ks d \<Longrightarrow> k \<notin> set ks \<Longrightarrow> \<not> dhas d k"
  by (auto simp: piece_def dhas_def)

lemma schedule_event_Inr:
  assumes "validate_schedule_event event = Inr v"
  obtains i wid scheduled status created times changed texts baseline evidence operations tasks checkpoint attention results cv where
    "v = [(''id'', JStr i), (''workflowId'', JStr wid), (''scheduledAt'', JStr scheduled), (''status'', JStr status), (''createdAt'', JStr created)] @
      times @ changed @ texts @ baseline @ [(''evidence'', JList (map JDict evidence)), (''operationIds'', operations), (''actionTaskIds'', tasks)] @
      checkpoint @ attention @ [(''actionResults'', JList (map JDict results))]"
    "piece [''startedAt'', ''endedAt''] times" "piece [''changed''] changed" "piece [''summary'', ''errorCode'', ''taskId'', ''sessionId'', ''triggerId''] texts"
    "piece [''baseline''] baseline" "list_all (\<lambda>e. jwf (JDict e)) evidence" "jwf operations" "jwf tasks" "checkpoint_of cv = Inr checkpoint"
    "piece [''attentionKind''] attention" "list_all (\<lambda>e. jwf (JDict e)) results"
proof -
  from assms obtain d where "work_json_object (JDict event) = Inr d" by (auto simp: validate_schedule_event_def bindE_eq_Inr)
  then have d: "d = event" by (auto dest: work_json_object_Inr)
  from assms obtain ev where ev: "dget_or event ''evidence'' (JList []) = JList ev"
    by (cases "dget_or event ''evidence'' (JList [])") (auto simp: validate_schedule_event_def accepted dest!: work_json_object_Inr)
  from assms obtain rv where rv: "dget_or event ''actionResults'' (JList []) = JList rv"
    by (cases "dget_or event ''actionResults'' (JList [])") (auto simp: validate_schedule_event_def accepted dest!: work_json_object_Inr)
  from assms obtain status where st: "dget event ''status'' = JStr status"
    by (auto simp: validate_schedule_event_def accepted in_names_True dest!: work_json_object_Inr)
  from assms ev rv st obtain i wid scheduled created times changed texts baseline evidence operations tasks checkpoint attention results where
    v: "v = [(''id'', JStr i), (''workflowId'', JStr wid), (''scheduledAt'', JStr scheduled), (''status'', JStr status), (''createdAt'', JStr created)] @
      times @ changed @ texts @ baseline @ [(''evidence'', JList (map JDict evidence)), (''operationIds'', operations), (''actionTaskIds'', tasks)] @
      checkpoint @ attention @ [(''actionResults'', JList (map JDict results))]"
    and parts: "optional_fields event [(''startedAt'', 128), (''endedAt'', 128)] = Inr times" "optional_flag event ''changed'' = Inr changed"
      "optional_fields event [(''summary'', 2000), (''errorCode'', 256), (''taskId'', 512), (''sessionId'', 512), (''triggerId'', 128)] = Inr texts"
      "optional_flag event ''baseline'' = Inr baseline" "mapE evidence_item ev = Inr evidence" "id_list (dget_or event ''operationIds'' (JList [])) = Inr operations"
      "id_list (dget_or event ''actionTaskIds'' (JList [])) = Inr tasks" "checkpoint_of (dget event ''checkpoint'') = Inr checkpoint"
      "attention_of (dget event ''attentionKind'') = Inr attention" "mapE action_result rv = Inr results"
    by (auto simp: validate_schedule_event_def accepted dest!: work_json_object_Inr)
  have e: "list_all (\<lambda>e. jwf (JDict e)) evidence" "list_all (\<lambda>e. jwf (JDict e)) results"
    by (rule mapE_all [OF parts(5)], erule evidence_item_jwf) (rule mapE_all [OF parts(10)], erule action_result_jwf)
  show thesis
    using that [OF v] parts e optional_fields_piece [OF parts(1)] optional_fields_piece [OF parts(3)] optional_flag_piece [OF parts(2)]
      optional_flag_piece [OF parts(4)] id_list_jwf [OF parts(6)] id_list_jwf [OF parts(7)] attention_piece [OF parts(9)] by simp
qed

lemma schedule_event_jwf:
  assumes "validate_schedule_event event = Inr v"
  shows "jwf (JDict v)"
  using assms
proof (cases rule: schedule_event_Inr)
  case (1 i wid scheduled status created times changed texts baseline evidence operations tasks checkpoint attention results cv)
  have head: "piece [''id'', ''workflowId'', ''scheduledAt'', ''status'', ''createdAt'']
      [(''id'', JStr i), (''workflowId'', JStr wid), (''scheduledAt'', JStr scheduled), (''status'', JStr status), (''createdAt'', JStr created)]"
    by (simp add: piece_def)
  have mid: "piece [''evidence'', ''operationIds'', ''actionTaskIds'']
      [(''evidence'', JList (map JDict evidence)), (''operationIds'', operations), (''actionTaskIds'', tasks)]"
    using 1(6,7,8) by (simp add: piece_def jwf_map_JDict)
  have last: "piece [''actionResults''] [(''actionResults'', JList (map JDict results))]"
    using 1(11) by (simp add: piece_def jwf_map_JDict)
  note p = piece_append [OF checkpoint_piece [OF 1(9)] piece_append [OF 1(10) last]]
  note p = piece_append [OF 1(5) piece_append [OF mid p]]
  note p = piece_append [OF 1(2) piece_append [OF 1(3) piece_append [OF 1(4) p]]]
  from piece_append [OF head p] show ?thesis unfolding 1(1) by (intro piece_jwf) simp
qed

lemma schedule_event_checkpoint:
  assumes "validate_schedule_event event = Inr v" and "dget v ''checkpoint'' = JDict c" and "dget c ''kind'' = JStr ''source_poll''"
  shows "\<exists>d. validate_source_poll_checkpoint d = Inr c"
  using assms(1)
proof (cases rule: schedule_event_Inr)
  case (1 i wid scheduled status created times changed texts baseline evidence operations tasks checkpoint attention results cv)
  have "dget v ''checkpoint'' = (if dhas checkpoint ''checkpoint'' then dget checkpoint ''checkpoint'' else JNull)"
    using piece_dhas [OF 1(2)] piece_dhas [OF 1(3)] piece_dhas [OF 1(4)] piece_dhas [OF 1(5)] piece_dhas [OF 1(10)]
    unfolding 1(1) by (simp add: dget_append object_simps)
  with assms(2) have "dget checkpoint ''checkpoint'' = JDict c" by (auto split: if_split_asm)
  with 1(9) consider d where "validate_source_poll_checkpoint d = Inr c" | w where "search_checkpoint w = Inr c"
    by (auto simp: checkpoint_of_def bindE_eq_Inr object_simps split: if_split_asm json.split_asm)
  then show ?thesis
  proof cases
    case 1
    then show ?thesis by blast
  next
    case (2 w)
    then obtain d where w: "w = JDict d" by (cases w) (auto simp: search_checkpoint_def)
    with 2 obtain l where "dget d ''repositories'' = JList l"
      by (cases "dget d ''repositories''") (auto simp: search_checkpoint_def accepted)
    with 2 w have "dget c ''kind'' = JStr ''github_issues_search''"
      by (auto simp: search_checkpoint_def accepted Let_def object_simps split: if_split_asm)
    with assms(3) show ?thesis by simp
  qed
qed

section \<open>The system\<close>

text \<open>A call of \<open>put_workflow\<close> or of \<open>append_schedule_event\<close>, whatever the task tables hold at the time.\<close>

inductive fstep :: "zones \<Rightarrow> local_clock \<Rightarrow> fdb \<Rightarrow> fdb \<Rightarrow> bool" for zones clock where
  put: "put_workflow zones now w org ws workflow actor scope (f_workflows db) = (r, t) \<Longrightarrow> fstep zones clock db (db\<lparr>f_workflows := t\<rparr>)"
| append: "append_schedule_event zones clock now w org ws event actor db = (r, db') \<Longrightarrow> fstep zones clock db db'"

inductive_cases fstepE: "fstep zones clock db db'"

definition empty_fdb :: fdb where
  "empty_fdb = \<lparr>f_workflows = [], f_events = []\<rparr>"

definition fdb_inv :: "zones \<Rightarrow> fdb \<Rightarrow> bool" where
  "fdb_inv zones db \<longleftrightarrow> finv zones (f_workflows db) \<and> keyed sv_key (f_events db) \<and>
     (\<forall>e \<in> set (f_events db). (\<exists>v. stored_object (sv_json e) = Inr v) \<and>
       find_by wf_key (sv_org e, sv_ws e, sv_workflow e) (f_workflows db) \<noteq> None)"

definition keeps_owner :: "workflow_row list \<Rightarrow> workflow_row list \<Rightarrow> bool" where
  "keeps_owner t t' \<longleftrightarrow> (\<forall>k r. find_by wf_key k t = Some r \<longrightarrow> (\<exists>r'. find_by wf_key k t' = Some r' \<and>
     (wf_version r' = 3 \<longleftrightarrow> wf_version r = 3) \<and> (wf_version r = 3 \<longrightarrow> wf_owner r' = wf_owner r)))"

definition fgrows :: "fdb \<Rightarrow> fdb \<Rightarrow> bool" where
  "fgrows db db' \<longleftrightarrow> (\<exists>new. f_events db' = f_events db @ new) \<and> keeps_owner (f_workflows db) (f_workflows db')"

lemma keeps_owner_refl: "keeps_owner t t"
  by (auto simp: keeps_owner_def)

lemma keeps_owner_trans: "keeps_owner t t' \<Longrightarrow> keeps_owner t' t'' \<Longrightarrow> keeps_owner t t''"
  unfolding keeps_owner_def by (metis (no_types, lifting))

lemma put_workflow_keeps_owner:
  assumes "put_workflow zones now db org ws workflow actor scope t = (r, t')"
  shows "keeps_owner t t'"
proof (cases r)
  case (Inl e)
  with assms put_workflow_Inl keeps_owner_refl show ?thesis by metis
next
  case (Inr v)
  with assms have "put_workflow zones now db org ws workflow actor scope t = (Inr v, t')" by simp
  then show ?thesis
  proof (cases rule: put_workflow_Inr)
    case (1 o' w a x time row)
    then show ?thesis unfolding keeps_owner_def
      by (auto simp: find_put_workflow may_replace_def split: if_split_asm option.split_asm)
  qed
qed

text \<open>An accepted event is a retry, or one new row.\<close>

lemma append_Inl: "append_schedule_event zones clock now w org ws event actor db = (Inl e, db') \<Longrightarrow> db' = db"
  by (auto simp: append_schedule_event_def resE Let_def split: option.split_asm if_split_asm)

lemma schedule_row_of_simps [simp]:
  "sv_key (schedule_row_of now org ws v body digest occurrence) = (org, ws, text_at v ''id'')"
  "sv_workflow (schedule_row_of now org ws v body digest occurrence) = text_at v ''workflowId''"
  "sv_json (schedule_row_of now org ws v body digest occurrence) = body"
  by (simp_all add: schedule_row_of_def sv_key_def)

lemma append_Inr:
  assumes "append_schedule_event zones clock now w org ws event actor db = (Inr v, db')"
  obtains o' u x a row where "work_scope org ws = Inr (o', u)" "validate_schedule_event event = Inr x"
    "case actor of None \<Rightarrow> a = None | Some b \<Rightarrow> a = Some b"
    "find_by wf_key (o', u, text_at x ''workflowId'') (f_workflows db) = Some row" "check_workflow zones clock w o' u a x (Some row) = Inr ()"
    "(db' = db \<and> (\<exists>e. find_by sv_key (o', u, text_at x ''id'') (f_events db) = Some e \<and> stored_object (sv_json e) = Inr v)) \<or>
     (v = x \<and> (\<exists>e. sv_key e = (o', u, text_at x ''id'') \<and> sv_workflow e = text_at x ''workflowId'' \<and> work_json_text (JDict x) = Inr (sv_json e) \<and>
       find_by sv_key (sv_key e) (f_events db) = None \<and> db' = db\<lparr>f_events := f_events db @ [e]\<rparr>))"
proof -
  from assms obtain o' u x a digest where *: "work_scope org ws = Inr (o', u)" "validate_schedule_event event = Inr x"
    "(case actor of None \<Rightarrow> Inr None | Some b \<Rightarrow> bindE (work_identifier b) (\<lambda>b. Inr (Some b))) = Inr a" "work_digest (JDict x) = Inr digest"
    by (auto simp: append_schedule_event_def commit_Inr bindE_eq_Inr Let_def)
  from assms * have chk: "check_workflow zones clock w o' u a x (find_by wf_key (o', u, text_at x ''workflowId'') (f_workflows db)) = Inr ()"
    by (auto simp: append_schedule_event_def commit_Inr bindE_eq_Inr Let_def)
  then obtain row where row: "find_by wf_key (o', u, text_at x ''workflowId'') (f_workflows db) = Some row"
    by (cases "find_by wf_key (o', u, text_at x ''workflowId'') (f_workflows db)") (simp_all add: check_workflow_def)
  have a: "case actor of None \<Rightarrow> a = None | Some b \<Rightarrow> a = Some b" using *(3) by (auto simp: resE split: option.split_asm)
  show thesis
  proof (cases "find_by sv_key (o', u, text_at x ''id'') (f_events db)")
    case (Some e)
    with assms * chk have "db' = db" "stored_object (sv_json e) = Inr v"
      by (auto simp: append_schedule_event_def commit_Inr bindE_eq_Inr Let_def split: if_split_asm)
    with that [OF *(1,2) a row] chk row Some show thesis by auto
  next
    case None
    with assms * chk obtain body occurrence where "v = x" "work_json_text (JDict x) = Inr body"
      "db' = db\<lparr>f_events := f_events db @ [schedule_row_of now o' u x body digest occurrence]\<rparr>"
      by (auto simp: append_schedule_event_def commit_Inr bindE_eq_Inr insert_by_eq_Inr Let_def)
    with None have "v = x \<and> (\<exists>e. sv_key e = (o', u, text_at x ''id'') \<and> sv_workflow e = text_at x ''workflowId'' \<and>
        work_json_text (JDict x) = Inr (sv_json e) \<and> find_by sv_key (sv_key e) (f_events db) = None \<and> db' = db\<lparr>f_events := f_events db @ [e]\<rparr>)"
      by (intro conjI exI [of _ "schedule_row_of now o' u x body digest occurrence"]) simp_all
    with that [OF *(1,2) a row] chk row show thesis by auto
  qed
qed

lemma append_inv:
  assumes "append_schedule_event zones clock now w org ws event actor db = (r, db')" and "fdb_inv zones db"
  shows "fdb_inv zones db' \<and> fgrows db db'"
proof (cases r)
  case (Inl e)
  with assms append_Inl have "db' = db" by blast
  with assms(2) keeps_owner_refl show ?thesis by (auto simp: fgrows_def)
next
  case (Inr v)
  with assms(1) have "append_schedule_event zones clock now w org ws event actor db = (Inr v, db')" by simp
  then show ?thesis
  proof (cases rule: append_Inr)
    case (1 o' u x a row)
    from 1(6) consider "db' = db" | e where "sv_key e = (o', u, text_at x ''id'')" "sv_workflow e = text_at x ''workflowId''"
      "work_json_text (JDict x) = Inr (sv_json e)" "find_by sv_key (sv_key e) (f_events db) = None" "db' = db\<lparr>f_events := f_events db @ [e]\<rparr>"
      by blast
    then show ?thesis
    proof cases
      case 1
      with assms(2) keeps_owner_refl show ?thesis by (auto simp: fgrows_def)
    next
      case e: (2 e)
      have "stored_object (sv_json e) = Inr (sort_key fst (canon_items x))"
        by (rule stored_object_text [OF e(3) schedule_event_jwf [OF 1(2)]])
      with e 1(4) assms(2) keeps_owner_refl show ?thesis
        by (auto simp: fdb_inv_def fgrows_def keyed_snoc sv_key_def)
    qed
  qed
qed

lemma put_inv_grows:
  assumes "put_workflow zones now w org ws workflow actor scope (f_workflows db) = (r, t)" and "fdb_inv zones db"
  shows "fdb_inv zones (db\<lparr>f_workflows := t\<rparr>) \<and> fgrows db (db\<lparr>f_workflows := t\<rparr>)"
proof -
  note keeps = put_workflow_keeps_owner [OF assms(1)]
  have "find_by wf_key k (f_workflows db) \<noteq> None \<Longrightarrow> find_by wf_key k t \<noteq> None" for k
    using keeps unfolding keeps_owner_def by blast
  with assms(2) put_workflow_inv [OF assms(1)] keeps show ?thesis by (auto simp: fdb_inv_def fgrows_def)
qed

interpretation flow: history "fstep zones clock" "fdb_inv zones" fgrows for zones clock
proof unfold_locales
  fix s s' assume "fstep zones clock s s'" "fdb_inv zones s"
  then show "fdb_inv zones s'" using put_inv_grows append_inv by (auto elim!: fstepE)
next
  fix s s' assume "fstep zones clock s s'" "fdb_inv zones s"
  then show "fgrows s s'" using put_inv_grows append_inv by (auto elim!: fstepE)
next
  fix s show "fgrows s s" by (simp add: fgrows_def keeps_owner_refl)
next
  fix s s' s'' assume "fgrows s s'" "fgrows s' s''"
  then show "fgrows s s''" unfolding fgrows_def using keeps_owner_trans by (metis append.assoc)
qed

lemma fdb_inv_empty: "fdb_inv zones empty_fdb"
  by (simp add: fdb_inv_def finv_def empty_fdb_def keyed_def)

lemma fdb_inv_reachable: "(fstep zones clock)\<^sup>*\<^sup>* empty_fdb db \<Longrightarrow> fdb_inv zones db"
  using flow.inv_steps fdb_inv_empty by blast

end
