(* ===== verification/Flow_Demo.thy ===== *)
theory Flow_Demo
  imports Flow_System Work_Demo
begin

text \<open>
  A private workflow that polls one host, put by its owner into the empty store, and the receipt of a poll of it. The
  witnesses of the properties of workflows apply them here.
\<close>

section \<open>The workflow\<close>

definition flow_owner :: string where
  "flow_owner = ''00000000-0000-0000-0000-00000000000b''"

definition demo_zones :: zones where
  "demo_zones = (\<lambda>_. Zone)"

definition demo_notices :: json_object where
  "demo_notices = [(''onChange'', JBool True), (''onFailure'', JBool True), (''onRecovery'', JBool False), (''quietWhenUnchanged'', JBool True),
     (''quietHours'', JDict [(''start'', JStr ''22:00''), (''end'', JStr ''07:00''), (''timeZone'', JStr ''UTC'')]),
     (''digest'', JDict [(''enabled'', JBool True), (''schedule'', JDict digest_schedule), (''maxPerDay'', JInt 1)]),
     (''destination'', JDict [(''kind'', JStr ''owner_private'')]), (''immediateOn'', JList [])]"

definition demo_trigger :: json_object where
  "demo_trigger = [(''id'', JStr ''poll''), (''kind'', JStr ''source_poll''), (''source'', JStr ''vm_health''),
     (''targetIds'', JList [JStr ''h'']), (''schedule'', JDict (cron ''* * * * *'' ''UTC'')), (''initialBaseline'', quiet_baseline),
     (''pageSize'', JInt 50), (''maxPages'', JInt 20)]"

definition demo_flow :: json_object where
  "demo_flow = [(''id'', JStr ''wf''), (''version'', JInt 3), (''title'', JStr ''hosts''), (''description'', JStr []), (''enabled'', JBool True),
     (''targets'', JList [JDict [(''id'', JStr ''h''), (''label'', JStr ''h''), (''kind'', JStr ''host_health''), (''bindingId'', JStr ''b'')]]),
     (''triggers'', JList [JDict demo_trigger]),
     (''authorization'', JDict [(''kind'', JStr ''owner_private''), (''ownerTaskId'', JStr ''t'')]), (''notifications'', JDict demo_notices)]"

definition demo_owner_task :: wdb where
  "demo_owner_task = empty_wdb\<lparr>w_tasks := [(new_task ''org'' ''w'' ''t'' ''s'' ''p'' 1000)\<lparr>tk_creator := flow_owner\<rparr>],
     w_origins := [\<lparr>to_org = ''org'', to_ws = ''w'', to_task = ''t'', to_actor = flow_owner, to_issuer = ''i'', to_subject = flow_owner,
       to_tenant = ''tenant'', to_connector = ''c'', to_thread = ''th'', to_message = ''m'', to_kind = ''channel'', to_bot = None,
       to_created_at = 1000\<rparr>],
     w_installations := [\<lparr>pi_org = ''org'', pi_ws = ''w'', pi_tenant = ''tenant'', pi_actor = flow_owner, pi_bot = ''bot'',
       pi_conversation = ''c'', pi_service_url = ''u'', pi_active = 1\<rparr>]\<rparr>"

definition flow_scope :: private_scope where
  "flow_scope = \<lparr>ps_ws = ''w'', ps_issuer = ''i'', ps_tenant = ''tenant'', ps_bot = ''bot'', ps_subjects = [flow_owner]\<rparr>"

definition demo_definition :: json_object where
  "demo_definition = demo_flow @ [(''updatedAt'', JStr ''1970-01-01T00:00:01.000Z'')]"

definition demo_workflow :: workflow_row where
  "demo_workflow = \<lparr>wf_org = ''org'', wf_ws = ''w'', wf_id = ''wf'', wf_version = 3, wf_json = render (canon (JDict demo_definition)),
     wf_updated = 1000, wf_owner = flow_owner\<rparr>"

definition demo_fdb :: fdb where
  "demo_fdb = empty_fdb\<lparr>f_workflows := [demo_workflow]\<rparr>"

lemma flow_put: "put_workflow demo_zones 1000 demo_owner_task (Some ''org'') ''w'' demo_flow (Some flow_owner) (Some flow_scope) [] =
    (Inr demo_definition, [demo_workflow])"
  by code_simp

lemma flow_put_step: "fstep demo_zones clock empty_fdb demo_fdb"
  using fstep.put [of demo_zones 1000 demo_owner_task "Some ''org''" "''w''" demo_flow "Some flow_owner" "Some flow_scope" empty_fdb] flow_put
  by (simp add: demo_fdb_def empty_fdb_def)

section \<open>A receipt\<close>

text \<open>The task of the occurrence has a digest for an id.\<close>

definition demo_occurrence :: string where
  "demo_occurrence = v3_occurrence_id ''wf'' ''poll'' ''2025-01-01T00:00:00Z'' flow_owner"

definition demo_poll_task :: string where
  "demo_poll_task = ''workflow-'' @ drop 4 demo_occurrence"

definition demo_checkpoint :: json_object where
  "demo_checkpoint = [(''kind'', JStr ''source_poll''), (''windowStart'', JNull), (''windowEnd'', JStr ''2025-01-01T00:00:00Z''), (''complete'', JBool True),
     (''sources'', JList [JDict [(''source'', JStr ''vm_health''), (''targetId'', JStr ''h''), (''pageCursor'', JNull), (''resumeCursor'', JNull),
       (''watermark'', JStr ''2025-01-01T00:00:00Z''), (''complete'', JBool True), (''pagesCollected'', JInt 1), (''seenEventIds'', JList []),
       (''states'', JList [])]])]"

definition demo_receipt :: "string \<Rightarrow> json_object" where
  "demo_receipt task = [(''id'', JStr ''e''), (''workflowId'', JStr ''wf''), (''scheduledAt'', JStr ''2025-01-01T00:00:00Z''),
     (''status'', JStr ''succeeded''), (''createdAt'', JStr ''2025-01-01T00:00:01Z''), (''taskId'', JStr task), (''triggerId'', JStr ''poll''),
     (''evidence'', JList []), (''operationIds'', JList []), (''actionTaskIds'', JList []), (''checkpoint'', JDict demo_checkpoint),
     (''actionResults'', JList [])]"

lemma demo_checkpoint_ok: "validate_source_poll_checkpoint demo_checkpoint = Inr demo_checkpoint"
  by code_simp

definition demo_poll_meta :: json_object where
  "demo_poll_meta = [(''source'', JStr ''workflow''), (''workflowId'', JStr ''wf''), (''triggerId'', JStr ''poll''),
     (''occurrenceId'', JStr demo_occurrence),
     (''authorizationRef'', JDict [(''kind'', JStr ''owner_private''), (''ownerTaskId'', JStr ''t'')])]"

definition demo_poll_db :: wdb where
  "demo_poll_db = demo_owner_task\<lparr>w_tasks := [(new_task ''org'' ''w'' demo_poll_task ''s'' ''p'' 1000)\<lparr>tk_creator := flow_owner,
     tk_metadata := render (canon (JDict demo_poll_meta))\<rparr>]\<rparr>"

text \<open>A bound on the size of a rendered value.\<close>

fun jbound :: "json \<Rightarrow> nat"
  and jbound_list :: "json list \<Rightarrow> nat"
  and jbound_items :: "(string \<times> json) list \<Rightarrow> nat" where
  "jbound (JStr s) = 6 * length s + 2"
| "jbound (JList xs) = jbound_list xs + 2"
| "jbound (JDict ps) = jbound_items ps + 2"
| "jbound v = length (render v)"
| "jbound_list [] = 0"
| "jbound_list (x # xs) = jbound x + 1 + jbound_list xs"
| "jbound_items [] = 0"
| "jbound_items ((k, v) # ps) = 6 * length k + jbound v + 4 + jbound_items ps"

lemma length_quote: "length (quote s) \<le> 6 * length s + 2"
proof -
  have "length (esc_char c) \<le> 6" for c by (simp add: esc_char_def)
  then have "length (concat (map esc_char s)) \<le> 6 * length s"
    by (induction s) (auto intro: add_mono)
  then show ?thesis by (simp add: quote_def)
qed

lemma render_bound:
  "length (render v) \<le> jbound v"
  "length (render_elems xs) \<le> jbound_list xs + 1"
  "length (render_items ps) \<le> jbound_items ps + 1"
proof (induction v and xs and ps rule: render_render_elems_render_items.induct)
  case (9 k v ps)
  then show ?case using length_quote [of k] by simp
next
  case (13 k v ps)
  then show ?case using length_quote [of k] by simp
qed (use length_quote in \<open>simp_all\<close>)

lemma jbound_items_sum: "jbound_items ps = sum_list (map (\<lambda>(k, v). 6 * length k + jbound v + 4) ps)"
  by (induction ps) auto

lemma jbound_items_sort: "jbound_items (sort_key f ps) = jbound_items ps"
  by (simp add: jbound_items_sum flip: sum_mset_sum_list)

lemma jbound_canon: "jbound (canon v) = jbound v" "jbound_list (canon_list xs) = jbound_list xs" "jbound_items (canon_items ps) = jbound_items ps"
  by (induction v and xs and ps rule: canon_canon_list_canon_items.induct) (simp_all add: jbound_items_sort)

lemma length_utf8: "length (utf8 s) \<le> 2 * length s"
  by (induction s) (simp_all add: utf8_def utf8_char_def Let_def)

lemma small_object:
  assumes "jok (JDict d)" and "2 * int (jbound (JDict d)) \<le> MAX_JSON_BYTES"
  shows "work_json_object (JDict d) = Inr d"
proof -
  have "int (length (utf8 (render (canon (JDict d))))) \<le> MAX_JSON_BYTES"
    using length_utf8 [of "render (canon (JDict d))"] render_bound(1) [of "canon (JDict d)"] jbound_canon(1) [of "JDict d"] assms(2) by linarith
  then show ?thesis by (simp add: work_json_object_def text_ok [OF assms(1)])
qed

lemma demo_poll_task_shape:
  "length demo_poll_task = 49" "CHR 0x00 \<notin> set demo_poll_task" "py_strip demo_poll_task \<noteq> []"
proof -
  let ?h = "sha256_hex (''wf'' @ [CHR 0x00] @ ''poll'' @ [CHR 0x00] @ ''2025-01-01T00:00:00Z'' @ [CHR 0x00] @ take 16 (sha256_hex flow_owner))"
  have t: "demo_poll_task = ''workflow-'' @ take 40 ?h"
    by (simp add: demo_poll_task_def demo_occurrence_def v3_occurrence_id_def)
  show "length demo_poll_task = 49" unfolding t by (simp add: length_sha256_hex)
  show "CHR 0x00 \<notin> set demo_poll_task" unfolding t using sha256_hex_is_hex [of "CHR 0x00" ?h] 
    by (auto dest!: in_set_takeD sha256_hex_is_hex simp: is_hex_def)
  show "py_strip demo_poll_task \<noteq> []" unfolding t by (simp add: py_strip_def py_space_def)
qed

lemma demo_receipt_json: "jok (JDict (demo_receipt demo_poll_task))" "work_json_object (JDict (demo_receipt demo_poll_task)) = Inr (demo_receipt demo_poll_task)"
proof -
  have n: "int_ok 1" and one: "show_int 1 = ''1''" by code_simp+
  from n show jok: "jok (JDict (demo_receipt demo_poll_task))" by (simp add: demo_receipt_def demo_checkpoint_def)
  show "work_json_object (JDict (demo_receipt demo_poll_task)) = Inr (demo_receipt demo_poll_task)"
    by (rule small_object [OF jok]) (simp add: demo_receipt_def demo_checkpoint_def demo_poll_task_shape one MAX_JSON_BYTES_def)
qed

lemma demo_receipt_parts:
  "work_identifier_of (JStr ''e'') = Inr ''e''" "work_identifier_of (JStr ''wf'') = Inr ''wf''"
  "bounded_text (JStr ''2025-01-01T00:00:00Z'') 128 False = Inr ''2025-01-01T00:00:00Z''"
  "bounded_text (JStr ''2025-01-01T00:00:01Z'') 128 False = Inr ''2025-01-01T00:00:01Z''" "bounded_text (JStr ''poll'') 128 False = Inr ''poll''"
  by code_simp+

lemma demo_poll_task_text: "bounded_text (JStr demo_poll_task) 512 False = Inr demo_poll_task"
  using demo_poll_task_shape by (simp add: bounded_text_def)

lemma demo_receipt_ok: "validate_schedule_event (demo_receipt demo_poll_task) = Inr (demo_receipt demo_poll_task)"
proof -
  have kind: "dget demo_checkpoint ''kind'' = JStr ''source_poll''" by (simp add: demo_checkpoint_def object_simps)
  show ?thesis unfolding validate_schedule_event_def demo_receipt_json
    by (simp add: demo_receipt_def object_simps dget_or_def demo_receipt_parts demo_poll_task_text optional_fields_def optional_field_def
        optional_flag_def in_names_def id_list_def checkpoint_of_def demo_checkpoint_ok attention_of_def kind)
qed

text \<open>The stored definition as the receipt is checked against it.\<close>

lemma demo_stored: "stored_object (wf_json demo_workflow) = Inr (sort_key fst (canon_items demo_definition))"
  by code_simp

lemma demo_definition_ok: "validate_workflow_v3 demo_zones (sort_key fst (canon_items demo_definition)) = Inr demo_definition"
  by code_simp

lemma demo_receipt_reads:
  "dget (demo_receipt task) ''workflowId'' = JStr ''wf''" "dget (demo_receipt task) ''scheduledAt'' = JStr ''2025-01-01T00:00:00Z''"
  "dget (demo_receipt task) ''status'' = JStr ''succeeded''" "dget (demo_receipt task) ''taskId'' = JStr task"
  "dget (demo_receipt task) ''triggerId'' = JStr ''poll''" "dget (demo_receipt task) ''checkpoint'' = JDict demo_checkpoint"
  "dget (demo_receipt task) ''baseline'' = JNull"
  by (simp_all add: demo_receipt_def object_simps)

lemma demo_bound: "poll_checkpoint_bound (demo_receipt task) demo_trigger (JDict demo_checkpoint) = Inr ()"
  by (simp add: poll_checkpoint_bound_def demo_receipt_reads demo_trigger_def demo_checkpoint_def object_simps objects_of_def texts_of_def
    text_at_def int_at_def pair_at_def)

lemma demo_flow_reads:
  "dget demo_definition ''id'' = JStr ''wf''" "dget demo_definition ''triggers'' = JList [JDict demo_trigger]"
  "dget demo_definition ''authorization'' = JDict [(''kind'', JStr ''owner_private''), (''ownerTaskId'', JStr ''t'')]"
  "dget demo_trigger ''id'' = JStr ''poll''"
  by (simp_all add: demo_definition_def demo_flow_def demo_trigger_def object_simps)

lemma demo_poll_meta_ok:
  "stored_object (render (canon (JDict demo_poll_meta))) = Inr (sort_key fst (canon_items demo_poll_meta))"
  "occurrence_metadata_ok (sort_key fst (canon_items demo_poll_meta)) demo_definition ''poll'' demo_occurrence"
proof -
  have wf: "jwf (JDict demo_poll_meta)" by (simp add: demo_poll_meta_def)
  then show "stored_object (render (canon (JDict demo_poll_meta))) = Inr (sort_key fst (canon_items demo_poll_meta))"
    by (intro stored_object_text text_ok) (simp_all add: demo_poll_meta_def)
  have eq: "py_eq (JStr ''wf'') (JStr ''wf'')" "py_eq (JDict [(''kind'', JStr ''owner_private''), (''ownerTaskId'', JStr ''t'')])
      (JDict [(''kind'', JStr ''owner_private''), (''ownerTaskId'', JStr ''t'')])" by code_simp+
  have "distinct (map fst demo_poll_meta)" by (simp add: demo_poll_meta_def)
  from dget_canon [OF this] show "occurrence_metadata_ok (sort_key fst (canon_items demo_poll_meta)) demo_definition ''poll'' demo_occurrence"
    by (simp add: occurrence_metadata_ok_def demo_flow_reads) (simp add: demo_poll_meta_def object_simps eq)
qed

lemma demo_poll_row: "find_task demo_poll_db (''org'', ''w'', demo_poll_task) = Some ((new_task ''org'' ''w'' demo_poll_task ''s'' ''p'' 1000)\<lparr>
    tk_creator := flow_owner, tk_metadata := render (canon (JDict demo_poll_meta))\<rparr>)"
  by (simp add: find_task_def demo_poll_db_def find_by_Cons tk_key_def new_task_def)

lemma demo_event_ok: "validate_v3_schedule_event clock (demo_receipt demo_poll_task) demo_definition demo_poll_db ''org'' ''w'' flow_owner = Inr ()"
proof -
  have "v3_occurrence_id (text_at demo_definition ''id'') ''poll'' ''2025-01-01T00:00:00Z'' flow_owner = demo_occurrence"
    by (simp add: text_at_def demo_flow_reads demo_occurrence_def)
  then show ?thesis
    by (simp add: validate_v3_schedule_event_def demo_receipt_reads demo_flow_reads demo_receipt_parts demo_poll_row demo_poll_meta_ok
        demo_bound objects_of_def Let_def flip: demo_poll_task_def del: canon.simps append.simps)
qed

lemma flow_append: "append_schedule_event demo_zones clock 2000 demo_poll_db (Some ''org'') ''w'' (demo_receipt demo_poll_task) (Some flow_owner) demo_fdb =
    (Inr (demo_receipt demo_poll_task), demo_fdb\<lparr>f_events := [schedule_row_of 2000 ''org'' ''w'' (demo_receipt demo_poll_task)
      (render (canon (JDict (demo_receipt demo_poll_task)))) (sha256_hex (render (canon (JDict (demo_receipt demo_poll_task))))) (Some demo_occurrence)]\<rparr>)"
proof -
  have a: "work_identifier flow_owner = Inr flow_owner" by code_simp
  have f: "find_by wf_key (''org'', ''w'', ''wf'') (f_workflows demo_fdb) = Some demo_workflow"
    by (simp add: demo_fdb_def find_by_Cons wf_key_def demo_workflow_def)
  have e: "f_events demo_fdb = []" "wf_version demo_workflow = 3" by (simp_all add: demo_fdb_def empty_fdb_def demo_workflow_def)
  have c: "check_workflow demo_zones clock demo_poll_db ''org'' ''w'' (Some flow_owner) (demo_receipt demo_poll_task) (Some demo_workflow) = Inr ()"
    by (simp add: check_workflow_def demo_stored demo_definition_ok demo_event_ok) (simp add: demo_workflow_def)
  show ?thesis
    using a f c
    by (simp add: append_schedule_event_def demo_scope demo_receipt_ok digest_ok [OF demo_receipt_json(1)] text_ok [OF demo_receipt_json(1)] text_at_def demo_receipt_reads
        e insert_by_def demo_occurrence_def commit_def del: canon.simps)
qed

end
