(* ===== verification/Flow_Props.thy ===== *)
theory Flow_Props
  imports Flow_Demo
begin

text \<open>
  The properties of workflows and their schedule receipts: a stored definition is what was accepted and passes its validator
  again, a private workflow belongs to one actor for ever, and the receipt of a successful poll accounts for every target.
\<close>

section \<open>Definitions are stored as accepted\<close>

lemma canon_text_at: "distinct (map fst w) \<Longrightarrow> text_at (sort_key fst (canon_items w)) k = text_at w k"
  by (cases "dget w k") (simp_all add: text_at_def dget_canon)

lemma put_workflow_stored:
  assumes "put_workflow zones now w org ws body actor scope t = (Inr v, t')" and "work_scope org ws = Inr (o', u)"
  shows "\<exists>r. find_by wf_key (o', u, text_at v ''id'') t' = Some r \<and> stored_object (wf_json r) = Inr (sort_key fst (canon_items v))"
  using assms(1)
proof (cases rule: put_workflow_Inr)
  case (1 o2 u2 a x time row)
  have "jwf (JDict x)" using 1(2) by (rule validate_workflow_Inr)
  then have jwf: "jwf (JDict v)" unfolding 1(5) by (rule dset_jwf)
  have id: "text_at v ''id'' = wf_id row" using 1(5,9) by (simp add: text_at_def dget_dset)
  have "wf_key row = (o', u, text_at v ''id'')" using 1(1,7,8) assms(2) id by (simp add: wf_key_def)
  then have "\<exists>r. find_by wf_key (o', u, text_at v ''id'') t' = Some r \<and> wf_json r = wf_json row"
    using 1(13) by (auto simp: find_put_workflow split: option.split)
  with stored_object_text [OF 1(6) jwf] show ?thesis by auto
qed

text \<open>
  C9. What is accepted is what is stored, and it stays acceptable. In every reachable state each stored workflow definition can
  be read and has the id and version of its row, and a private definition passes its validator again and comes out
  unchanged, so no later call that validates it first can fail there. And an accepted put stores exactly the definition it
  returns.
\<close>

theorem stored_definition_fixed:
  assumes "(fstep zones clock)\<^sup>*\<^sup>* empty_fdb db"
  shows "(\<forall>r \<in> set (f_workflows db). \<exists>w. stored_object (wf_json r) = Inr (sort_key fst (canon_items w)) \<and> text_at w ''id'' = wf_id r \<and>
      dget w ''version'' = JInt (wf_version r) \<and>
      (wf_version r = 3 \<longrightarrow> validate_workflow_v3 zones (sort_key fst (canon_items w)) = Inr w)) \<and>
    (\<forall>now w org ws body actor scope v t o' u. put_workflow zones now w org ws body actor scope (f_workflows db) = (Inr v, t) \<and>
      work_scope org ws = Inr (o', u) \<longrightarrow>
      (\<exists>r. find_by wf_key (o', u, text_at v ''id'') t = Some r \<and> stored_object (wf_json r) = Inr (sort_key fst (canon_items v))))"
  using fdb_inv_reachable [OF assms] put_workflow_stored unfolding fdb_inv_def finv_def stored_ok_def by blast

lemma demo_reachable: "(fstep demo_zones clock)\<^sup>*\<^sup>* empty_fdb demo_fdb"
  using flow_put_step by blast

theorem stored_definition_fixed_witness:
  "validate_workflow_v3 demo_zones (sort_key fst (canon_items demo_definition)) = Inr demo_definition \<and>
   (\<exists>w. stored_object (wf_json demo_workflow) = Inr (sort_key fst (canon_items w)) \<and>
     validate_workflow_v3 demo_zones (sort_key fst (canon_items w)) = Inr w)"
  using stored_definition_fixed [OF demo_reachable [where clock = "\<lambda>_. None"]] demo_definition_ok
  by (auto simp: demo_fdb_def demo_workflow_def)

section \<open>Private workflows\<close>

lemma put_by_other:
  assumes "put_workflow zones now w org ws body actor scope t = (res, t')" and "work_scope org ws = Inr (o', u)"
    and "find_by wf_key (o', u, wid) t = Some r" and "wf_version r = 3" and "actor_of actor \<noteq> Inr (Some (wf_owner r))"
  shows "find_by wf_key (o', u, wid) t' = Some r"
proof (cases res)
  case (Inl e)
  with assms put_workflow_Inl show ?thesis by metis
next
  case (Inr v)
  with assms(1) have "put_workflow zones now w org ws body actor scope t = (Inr v, t')" by simp
  then show ?thesis
  proof (cases rule: put_workflow_Inr)
    case (1 o2 u2 a x time row)
    have "wf_key row \<noteq> (o', u, wid)" using 1(3,11) assms(3-5) by (auto simp: may_replace_def split: if_split_asm)
    with 1(13) assms(3) show ?thesis by (simp add: find_put_workflow)
  qed
qed

lemma mapE_source: "mapE f xs = Inr ys \<Longrightarrow> y \<in> set ys \<Longrightarrow> \<exists>x \<in> set xs. f x = Inr y"
  by (induction xs arbitrary: ys) (auto simp: bindE_eq_Inr)

lemma listed_row:
  assumes "finv zones t" and "list_workflows org ws 3 (Some a) t = Inr l" and "work_scope org ws = Inr (o', u)" and "d \<in> set l"
  shows "\<exists>r \<in> set t. wf_key r = (o', u, text_at d ''id'') \<and> wf_version r = 3 \<and> wf_owner r = a"
proof -
  from assms(2,3) have m: "mapE (\<lambda>r. stored_object (wf_json r)) (sort_key wf_id (filter (\<lambda>r. wf_org r = o' \<and> wf_ws r = u \<and> wf_version r = 3 \<and>
      (3 = (3::int) \<longrightarrow> wf_owner r = a)) t)) = Inr l"
    by (auto simp: list_workflows_def bindE_eq_Inr resE)
  then have "\<exists>r \<in> set (sort_key wf_id (filter (\<lambda>r. wf_org r = o' \<and> wf_ws r = u \<and> wf_version r = 3 \<and> (3 = (3::int) \<longrightarrow> wf_owner r = a)) t)).
      stored_object (wf_json r) = Inr d"
    using mapE_source [OF _ assms(4)] by blast
  then obtain r where r: "r \<in> set t" "wf_org r = o'" "wf_ws r = u" "wf_version r = 3" "wf_owner r = a" "stored_object (wf_json r) = Inr d"
    by auto
  then have "stored_ok zones r" using assms(1) by (simp add: finv_def)
  with r obtain w where w: "d = sort_key fst (canon_items w)" "text_at w ''id'' = wf_id r"
    "validate_workflow_v3 zones (sort_key fst (canon_items w)) = Inr w" unfolding stored_ok_def by auto
  from workflow3_jwf [OF w(3)] canon_text_at w have "text_at d ''id'' = wf_id r" by simp
  with r show ?thesis by (auto simp: wf_key_def)
qed

lemma listed_owner:
  assumes "finv zones t" and "list_workflows org ws 3 (Some a) t = Inr l" and "work_scope org ws = Inr (o', u)"
    and "find_by wf_key (o', u, wid) t = Some r" and "a \<noteq> wf_owner r"
  shows "\<forall>d \<in> set l. text_at d ''id'' \<noteq> wid"
proof (intro ballI notI)
  fix d assume d: "d \<in> set l" "text_at d ''id'' = wid"
  from listed_row [OF assms(1-3) d(1)] obtain x where x: "x \<in> set t" "wf_key x = (o', u, text_at d ''id'')" "wf_owner x = a" by blast
  with assms(1) d(2) have "find_by wf_key (o', u, wid) t = Some x" using find_by_keyed [of wf_key t x] by (auto simp: finv_def)
  with x(3) assms(4,5) show False by simp
qed

lemma append_by_other:
  assumes "append_schedule_event zones clock now w org ws event (Some a) db = (res, db')" and "work_scope org ws = Inr (o', u)"
    and "validate_schedule_event event = Inr x" and "find_by wf_key (o', u, text_at x ''workflowId'') (f_workflows db) = Some r"
    and "wf_version r = 3" and "a \<noteq> wf_owner r"
  shows "db' = db \<and> (\<exists>e. res = Inl e)"
proof (cases res)
  case (Inl e)
  with assms(1) append_Inl show ?thesis by blast
next
  case (Inr v)
  with assms(1) have "append_schedule_event zones clock now w org ws event (Some a) db = (Inr v, db')" by simp
  then show ?thesis
    by (cases rule: append_Inr) (use assms in \<open>auto simp: check_workflow_def\<close>)
qed

lemma event_hidden:
  assumes "find_by sv_key (o', u, eid) (f_events db) = Some e" and "find_by wf_key (o', u, sv_workflow e) (f_workflows db) = Some r"
    and "wf_version r = 3" and "a \<noteq> wf_owner r" and "work_scope org ws = Inr (o', u)"
  shows "get_schedule_event org ws eid (Some a) db \<noteq> Inr v"
  using assms by (auto simp: get_schedule_event_def bindE_eq_Inr work_identifier_Inr)

lemma no_upper_case_owner:
  assumes "finv zones t" and "list_workflows org ws 3 (Some a) t = Inr l" and "py_lower a \<noteq> a"
  shows "l = []"
proof (rule ccontr)
  assume "l \<noteq> []"
  then obtain d where d: "d \<in> set l" by (cases l) auto
  from assms(2) obtain o' u where "work_scope org ws = Inr (o', u)" by (auto simp: list_workflows_def bindE_eq_Inr)
  from listed_row [OF assms(1,2) this d] assms(1,3) show False by (auto simp: finv_def stored_ok_def)
qed

text \<open>An actor finds no trace of a workflow: not in a listing, not by an event appended to it, not by an event read.\<close>

definition hidden_from :: "zones \<Rightarrow> local_clock \<Rightarrow> fdb \<Rightarrow> workflow_key \<Rightarrow> string \<Rightarrow> bool" where
  "hidden_from zones clock db k a \<longleftrightarrow> (case k of (o', u, wid) \<Rightarrow> \<forall>org ws. work_scope org ws = Inr (o', u) \<longrightarrow>
     (\<forall>l. list_workflows org ws 3 (Some a) (f_workflows db) = Inr l \<longrightarrow> (\<forall>d \<in> set l. text_at d ''id'' \<noteq> wid)) \<and>
     (\<forall>now w event x res db'. validate_schedule_event event = Inr x \<and> text_at x ''workflowId'' = wid \<and>
        append_schedule_event zones clock now w org ws event (Some a) db = (res, db') \<longrightarrow> db' = db \<and> (\<exists>e. res = Inl e)) \<and>
     (\<forall>eid e v. find_by sv_key (o', u, eid) (f_events db) = Some e \<and> sv_workflow e = wid \<longrightarrow>
        get_schedule_event org ws eid (Some a) db \<noteq> Inr v))"

lemma hidden_from_other:
  assumes "finv zones (f_workflows db)" and "find_by wf_key k (f_workflows db) = Some r" and "wf_version r = 3" and "a \<noteq> wf_owner r"
  shows "hidden_from zones clock db k a"
proof -
  obtain o' u wid where k: "k = (o', u, wid)" by (cases k)
  note row = assms(2) [unfolded k]
  have "db' = db \<and> (\<exists>e. res = Inl e)" if "work_scope org ws = Inr (o', u)" "validate_schedule_event event = Inr x"
    "text_at x ''workflowId'' = wid" "append_schedule_event zones clock now w org ws event (Some a) db = (res, db')"
    for org ws now w event x res db'
    by (rule append_by_other [OF that(4,1,2)]) (use that(3) row assms(3,4) in simp_all)
  moreover have "get_schedule_event org ws eid (Some a) db \<noteq> Inr v"
    if "work_scope org ws = Inr (o', u)" "find_by sv_key (o', u, eid) (f_events db) = Some e" "sv_workflow e = wid" for org ws eid e v
    by (rule event_hidden [OF that(2) _ assms(3,4) that(1)]) (use that(3) row in simp)
  ultimately show ?thesis unfolding hidden_from_def k using listed_owner [OF assms(1) _ _ row assms(4)] by simp blast
qed

text \<open>
  C7. A private workflow belongs to one actor for ever. Once a definition of version 3 is stored, every later state holds a
  definition of version 3 with the same owner under its id; whatever another actor puts leaves it as it is, and it is hidden
  from every other actor, in listings and by its schedule events. The owner is kept in lower case while the listing compares
  the actor as given, so an actor whose id has an upper-case letter is always shown an empty list, whatever it has stored.
\<close>

theorem private_workflow_owned:
  assumes "(fstep zones clock)\<^sup>*\<^sup>* empty_fdb db" and "(fstep zones clock)\<^sup>*\<^sup>* db db'"
    and "find_by wf_key (o', u, wid) (f_workflows db) = Some r" and "wf_version r = 3"
  shows "\<exists>r'. find_by wf_key (o', u, wid) (f_workflows db') = Some r' \<and> wf_version r' = 3 \<and> wf_owner r' = wf_owner r \<and>
    (\<forall>now w org ws body actor scope res t. work_scope org ws = Inr (o', u) \<and> actor_of actor \<noteq> Inr (Some (wf_owner r)) \<and>
       put_workflow zones now w org ws body actor scope (f_workflows db') = (res, t) \<longrightarrow> find_by wf_key (o', u, wid) t = Some r') \<and>
    (\<forall>a. a \<noteq> wf_owner r \<longrightarrow> hidden_from zones clock db' (o', u, wid) a) \<and>
    (\<forall>org ws a l. py_lower a \<noteq> a \<and> list_workflows org ws 3 (Some a) (f_workflows db') = Inr l \<longrightarrow> l = [])"
proof -
  have inv: "fdb_inv zones db'" using fdb_inv_reachable rtranclp_trans [OF assms(1,2)] by blast
  then have f: "finv zones (f_workflows db')" by (simp add: fdb_inv_def)
  have "fgrows db db'" by (rule flow.grows_steps [OF assms(2) fdb_inv_reachable [OF assms(1)]])
  with assms(3,4) obtain r' where r': "find_by wf_key (o', u, wid) (f_workflows db') = Some r'" "wf_version r' = 3" "wf_owner r' = wf_owner r"
    unfolding fgrows_def keeps_owner_def by blast
  have "find_by wf_key (o', u, wid) t = Some r'" if "work_scope org ws = Inr (o', u)" "actor_of actor \<noteq> Inr (Some (wf_owner r))"
    "put_workflow zones now w org ws body actor scope (f_workflows db') = (res, t)" for now w org ws body actor scope res t
    by (rule put_by_other [OF that(3,1) r'(1,2)]) (use that(2) r'(3) in simp)
  moreover have "hidden_from zones clock db' (o', u, wid) a" if "a \<noteq> wf_owner r" for a
    by (rule hidden_from_other [OF f r'(1,2)]) (use that r'(3) in simp)
  moreover note no_upper_case_owner [OF f]
  ultimately show ?thesis using r' by blast
qed

theorem private_workflow_owned_witness:
  "\<exists>r. find_by wf_key (''org'', ''w'', ''wf'') (f_workflows demo_fdb) = Some r \<and> wf_owner r = flow_owner \<and>
    (\<forall>a. a \<noteq> flow_owner \<longrightarrow> hidden_from demo_zones (\<lambda>_. None) demo_fdb (''org'', ''w'', ''wf'') a)"
proof -
  have "find_by wf_key (''org'', ''w'', ''wf'') (f_workflows demo_fdb) = Some demo_workflow" "wf_version demo_workflow = 3"
    "wf_owner demo_workflow = flow_owner"
    by (simp_all add: demo_fdb_def find_by_Cons wf_key_def demo_workflow_def)
  with private_workflow_owned [OF demo_reachable rtranclp.rtrancl_refl this(1,2)] show ?thesis by auto
qed

section \<open>Receipts of successful polls\<close>

lemma objects_of_map: "objects_of (JList (map JDict ds)) = ds"
  by (induction ds) (simp_all add: objects_of_def)

text \<open>The cursors of an accepted checkpoint: one per source and target, each in a state that matches its flag.\<close>

lemma source_cursors_ok:
  assumes "source_cursors window_end prior vs = Inr cs" and "distinct (map pair_at prior)"
    and "\<forall>c \<in> set prior. dget c ''complete'' = JBool True \<longrightarrow> dget c ''watermark'' = JStr window_end \<and> dget c ''pageCursor'' = JNull"
  shows "distinct (map pair_at cs) \<and>
    (\<forall>c \<in> set cs. dget c ''complete'' = JBool True \<longrightarrow> dget c ''watermark'' = JStr window_end \<and> dget c ''pageCursor'' = JNull)"
  using assms
proof (induction window_end prior vs arbitrary: cs rule: source_cursors.induct)
  case (2 window_end prior v vs)
  from 2(2) obtain c where c: "source_cursor window_end prior v = Inr c" and rest: "source_cursors window_end (prior @ [c]) vs = Inr cs"
    by (auto simp: bindE_eq_Inr)
  from c have "pair_at c \<notin> set (map pair_at prior)"
    "dget c ''complete'' = JBool True \<longrightarrow> dget c ''watermark'' = JStr window_end \<and> dget c ''pageCursor'' = JNull"
    by (auto elim!: source_cursor_Inr simp: cursor_object_def pair_at_def text_at_def object_simps cursor_state_ok_def)
  with 2(1) [OF c rest] 2(3,4) show ?case by auto
qed simp

lemma complete_checkpoint:
  assumes "validate_source_poll_checkpoint d = Inr c" and "dget c ''complete'' = JBool True"
  shows "distinct (map pair_at (objects_of (dget c ''sources''))) \<and>
    (\<forall>x \<in> set (objects_of (dget c ''sources'')). dget x ''watermark'' = dget c ''windowEnd'' \<and> dget x ''pageCursor'' = JNull)"
  using assms(1)
proof (cases rule: source_poll_Inr)
  case (1 start window_end complete l cursors)
  with assms(2) have "all_complete cursors" by (simp add: object_simps)
  then have "\<forall>x \<in> set cursors. dget x ''complete'' = JBool True" by (simp add: all_complete_def list_all_iff)
  with source_cursors_ok [OF 1(3)] 1(1) show ?thesis by (simp add: objects_of_map object_simps)
qed

lemma v3_event_poll:
  assumes "validate_v3_schedule_event clock event flow w org ws actor = Inr ()" and "dget event ''triggerId'' \<noteq> JStr ''daily-digest''"
  shows "\<exists>trigger \<in> set (objects_of (dget flow ''triggers'')). dget trigger ''id'' = dget event ''triggerId'' \<and>
    poll_checkpoint_bound event trigger (dget event ''checkpoint'') = Inr ()"
proof -
  from assms(1) obtain tid triggers where t: "dget event ''triggerId'' = JStr tid" "dget flow ''triggers'' = JList triggers"
    by (cases "dget event ''triggerId''"; cases "dget flow ''triggers''") (auto simp: validate_v3_schedule_event_def)
  with assms(1) obtain task where task: "dget event ''taskId'' = JStr task"
    by (cases "dget event ''taskId''") (auto simp: validate_v3_schedule_event_def bindE_eq_Inr)
  from assms t task obtain trigger where "List.find (\<lambda>t. dget t ''id'' = JStr tid) (objects_of (JList triggers)) = Some trigger"
    "poll_checkpoint_bound event trigger (dget event ''checkpoint'') = Inr ()"
    by (auto simp: validate_v3_schedule_event_def bindE_eq_Inr Let_def split: option.split_asm if_split_asm)
  with t show ?thesis by (fastforce simp: find_Some_iff)
qed

lemma poll_bound_succeeded:
  assumes "poll_checkpoint_bound event trigger v = Inr ()" and "dget event ''status'' = JStr ''succeeded''"
  obtains c where "v = JDict c" "dget c ''kind'' = JStr ''source_poll''" "dget c ''complete'' = JBool True"
    "set (map pair_at (objects_of (dget c ''sources''))) = (\<lambda>t. (text_at trigger ''source'', t)) ` set (texts_of (dget trigger ''targetIds''))"
    "sum_list (map (\<lambda>x. int_at x ''pagesCollected'') (objects_of (dget c ''sources''))) \<le> int_at trigger ''maxPages''"
  using assms by (cases v) (auto simp: poll_checkpoint_bound_def Let_def split: if_split_asm)

text \<open>
  C35. The receipt of a successful poll accounts for every target. When a new schedule event of a private workflow is
  accepted with status succeeded for one of its polls, it comes from the workflow's owner, and its checkpoint is complete:
  it has exactly one cursor for each target of the trigger in the stored definition, every cursor has no page left and its
  watermark is the end of the window, and together they stay within the trigger's page budget.
\<close>

theorem successful_poll_complete:
  assumes "append_schedule_event zones clock now w org ws event (Some a) db = (Inr v, db')" and "db' \<noteq> db"
    and "work_scope org ws = Inr (o', u)" and "find_by wf_key (o', u, text_at v ''workflowId'') (f_workflows db) = Some r"
    and "wf_version r = 3" and "dget v ''status'' = JStr ''succeeded''" and "dget v ''triggerId'' \<noteq> JStr ''daily-digest''"
  shows "a = wf_owner r \<and> (\<exists>d flow trigger c. stored_object (wf_json r) = Inr d \<and> validate_workflow_v3 zones d = Inr flow \<and>
    trigger \<in> set (objects_of (dget flow ''triggers'')) \<and> dget trigger ''id'' = dget v ''triggerId'' \<and>
    dget v ''checkpoint'' = JDict c \<and> dget c ''complete'' = JBool True \<and>
    distinct (map pair_at (objects_of (dget c ''sources''))) \<and>
    set (map pair_at (objects_of (dget c ''sources''))) = (\<lambda>t. (text_at trigger ''source'', t)) ` set (texts_of (dget trigger ''targetIds'')) \<and>
    (\<forall>x \<in> set (objects_of (dget c ''sources'')). dget x ''watermark'' = dget c ''windowEnd'' \<and> dget x ''pageCursor'' = JNull) \<and>
    sum_list (map (\<lambda>x. int_at x ''pagesCollected'') (objects_of (dget c ''sources''))) \<le> int_at trigger ''maxPages'')"
  using assms(1)
proof (cases rule: append_Inr)
  case (1 o2 u2 x b row)
  have v: "validate_schedule_event event = Inr v" using 1(2,6) assms(2) by auto
  have r: "row = r" "b = Some a" using 1(1-4) v assms(3,4) by auto
  with 1(1,2,5) v assms(3,5) obtain d flow where d: "a = wf_owner r" "stored_object (wf_json r) = Inr d"
    "validate_workflow_v3 zones d = Inr flow" "validate_v3_schedule_event clock v flow w o' u a = Inr ()"
    by (auto simp: check_workflow_def bindE_eq_Inr split: if_split_asm)
  from v3_event_poll [OF d(4) assms(7)] obtain trigger where t: "trigger \<in> set (objects_of (dget flow ''triggers''))"
    "dget trigger ''id'' = dget v ''triggerId''" "poll_checkpoint_bound v trigger (dget v ''checkpoint'') = Inr ()" by blast
  from t(3) assms(6) obtain c where c: "dget v ''checkpoint'' = JDict c" "dget c ''kind'' = JStr ''source_poll''" "dget c ''complete'' = JBool True"
    "set (map pair_at (objects_of (dget c ''sources''))) = (\<lambda>t. (text_at trigger ''source'', t)) ` set (texts_of (dget trigger ''targetIds''))"
    "sum_list (map (\<lambda>x. int_at x ''pagesCollected'') (objects_of (dget c ''sources''))) \<le> int_at trigger ''maxPages''"
    by (rule poll_bound_succeeded)
  from schedule_event_checkpoint [OF v c(1,2)] complete_checkpoint c(3) have
    "distinct (map pair_at (objects_of (dget c ''sources'')))"
    "\<forall>x \<in> set (objects_of (dget c ''sources'')). dget x ''watermark'' = dget c ''windowEnd'' \<and> dget x ''pageCursor'' = JNull" by blast+
  with d t c show ?thesis by blast
qed

theorem successful_poll_complete_witness:
  "\<exists>c. dget (demo_receipt demo_poll_task) ''checkpoint'' = JDict c \<and> dget c ''complete'' = JBool True \<and>
    (\<forall>x \<in> set (objects_of (dget c ''sources'')). dget x ''watermark'' = dget c ''windowEnd'' \<and> dget x ''pageCursor'' = JNull)"
proof -
  have "find_by wf_key (''org'', ''w'', text_at (demo_receipt demo_poll_task) ''workflowId'') (f_workflows demo_fdb) = Some demo_workflow"
    "wf_version demo_workflow = 3"
    by (simp_all add: text_at_def demo_receipt_reads demo_fdb_def find_by_Cons wf_key_def demo_workflow_def)
  with successful_poll_complete [OF flow_append [where clock = "\<lambda>_. None"] _ demo_scope this] show ?thesis
    by (auto simp: demo_receipt_reads demo_fdb_def empty_fdb_def)
qed

end
