(* ===== verification/Auto_Store.thy ===== *)
theory Auto_Store
  imports Flow_Event
begin

text \<open>
  Source events of \<open>work/store.py\<close>: \<open>append_automation_event\<close> records what a poll observed, once per source event id, and
  \<open>enqueue_automation_event_notice\<close> (in \<open>Auto_Notice\<close>) judges each observation. This theory has the three tables, the
  reading of an event, quiet hours, and the decision. The host's time zones are the parameter \<open>tz_db\<close> beside \<open>zones\<close>.
\<close>

section \<open>Tables\<close>

record automation_row =
  ae_org :: string
  ae_ws :: string
  ae_source :: string
  ae_source_event :: string
  ae_id :: string
  ae_actor :: string
  ae_observed :: int
  ae_json :: string
  ae_digest :: string

type_synonym observation_key = "string \<times> string \<times> string \<times> string \<times> string"

definition ae_key :: "automation_row \<Rightarrow> observation_key" where
  "ae_key r = (ae_org r, ae_ws r, ae_source r, ae_source_event r, ae_actor r)"

definition ae_clash :: "automation_row \<Rightarrow> automation_row \<Rightarrow> bool" where
  "ae_clash r r' \<longleftrightarrow> ae_id r = ae_id r' \<or> ae_key r = ae_key r'"

record source_state_row =
  ss_org :: string
  ss_ws :: string
  ss_actor :: string
  ss_source :: string
  ss_resource :: string
  ss_class :: string
  ss_fingerprint :: string
  ss_occurred :: int
  ss_source_event :: string
  ss_event :: string

definition ss_key :: "source_state_row \<Rightarrow> observation_key" where
  "ss_key r = (ss_org r, ss_ws r, ss_actor r, ss_source r, ss_resource r)"

record intent_row =
  ai_org :: string
  ai_ws :: string
  ai_actor :: string
  ai_event :: string
  ai_workflow :: string
  ai_trigger :: string
  ai_occurrence :: string
  ai_decision :: string
  ai_digest :: string
  ai_note :: "string option"
  ai_receipt :: string
  ai_created :: int

type_synonym intent_key = "string \<times> string \<times> string \<times> string \<times> string \<times> string"

definition ai_key :: "intent_row \<Rightarrow> intent_key" where
  "ai_key r = (ai_org r, ai_ws r, ai_actor r, ai_event r, ai_workflow r, ai_trigger r)"

record adb =
  a_events :: "automation_row list"
  a_states :: "source_state_row list"
  a_intents :: "intent_row list"
  a_flow :: fdb
  a_work :: wdb

section \<open>Observations\<close>

abbreviation bad_observation :: "'a res" where
  "bad_observation \<equiv> invalid ''WORK_AUTOMATION_EVENT_INVALID''"

definition observation_required :: "string list" where
  "observation_required = [''source'', ''sourceEventId'', ''resourceUri'', ''sourceVersion'', ''eventType'', ''occurredAt'']"

definition observation_fields :: "string list" where
  "observation_fields = observation_required @ [''title'', ''summary'', ''severity'', ''correlationId'', ''experimentId'',
     ''semanticFingerprint'', ''stateClass'', ''metadataReferences'']"

text \<open>\<open>value is not None and value not in {...}\<close>.\<close>

definition none_or_in :: "json \<Rightarrow> string list \<Rightarrow> bool res" where
  "none_or_in v names = (if v = JNull then Inr True else in_names v names)"

definition state_classes :: "string list" where
  "state_classes = [''healthy'', ''incident'', ''neutral'']"

definition fingerprint_ok :: "json \<Rightarrow> bool" where
  "fingerprint_ok v = (case v of JNull \<Rightarrow> True | JStr s \<Rightarrow> lower_hex 64 s | _ \<Rightarrow> False)"

definition validate_automation_event :: "json_object \<Rightarrow> json_object res" where
  "validate_automation_event v =
    bindE (work_json_object (JDict v)) (\<lambda>d.
    if \<not> keys_include d observation_required \<or> \<not> keys_within d observation_fields then bad_observation
    else
      bindE (bounded_text (dget d ''source'') 128 False) (\<lambda>source.
      bindE (bounded_text (dget d ''eventType'') 256 False) (\<lambda>event_type.
      if \<not> symbolic ''._:/-'' 127 source \<or> \<not> symbolic ''._:/-'' 255 event_type then bad_observation
      else
        bindE (validate_resource_version (dget d ''sourceVersion'')) (\<lambda>version.
        bindE (nonnegative_integer (dget d ''occurredAt'')) (\<lambda>occurred.
        bindE (none_or_in (dget d ''severity'') [''info'', ''warning'', ''critical'']) (\<lambda>known.
        if \<not> known then bad_observation
        else if \<not> fingerprint_ok (dget d ''semanticFingerprint'') then bad_observation
        else
          bindE (none_or_in (dget d ''stateClass'') state_classes) (\<lambda>known.
          if \<not> known then bad_observation
          else
            bindE (bounded_text (dget d ''sourceEventId'') 512 False) (\<lambda>source_event.
            bindE (safe_resource_uri (dget d ''resourceUri'')) (\<lambda>uri.
            bindE (optional_text (dget d ''title'') 512) (\<lambda>title.
            bindE (optional_text (dget d ''summary'') 2000) (\<lambda>summary.
            bindE (if dget d ''correlationId'' = JNull then Inr None
                   else bindE (work_identifier_of (dget d ''correlationId'')) (\<lambda>c. Inr (Some c))) (\<lambda>correlation.
            bindE (if dget d ''experimentId'' = JNull then Inr None
                   else bindE (canonical_uuid (dget d ''experimentId'')) (\<lambda>x. Inr (Some x))) (\<lambda>xid.
            bindE (bounded_list 0 32 (dget_or d ''metadataReferences'' (JList [])) ''WORK_AUTOMATION_EVENT_INVALID'') (\<lambda>l.
            bindE (mapE automation_resource_reference l) (\<lambda>references.
              Inr [(''source'', JStr source), (''sourceEventId'', JStr source_event), (''resourceUri'', JStr uri),
                (''sourceVersion'', version), (''eventType'', JStr event_type), (''occurredAt'', JInt occurred),
                (''title'', jopt title), (''summary'', jopt summary), (''severity'', dget d ''severity''),
                (''correlationId'', jopt correlation), (''experimentId'', jopt xid),
                (''semanticFingerprint'', dget d ''semanticFingerprint''), (''stateClass'', dget d ''stateClass''),
                (''metadataReferences'', JList (map JDict references))])))))))))))))))"

definition observation_record :: "string \<Rightarrow> int \<Rightarrow> string \<Rightarrow> string \<Rightarrow> string \<Rightarrow> json_object \<Rightarrow> json_object" where
  "observation_record eid now org ws actor v = v @ [(''id'', JStr eid), (''observedAt'', JInt now), (''actorId'', JStr actor),
     (''organizationId'', JStr org), (''workspaceId'', JStr ws), (''revision'', JInt 1), (''visibility'', JStr ''owner'')]"

definition append_automation_event ::
  "string \<Rightarrow> int \<Rightarrow> string option \<Rightarrow> string \<Rightarrow> string \<Rightarrow> json_object \<Rightarrow> automation_row list
   \<Rightarrow> (json_object \<times> bool) res \<times> automation_row list" where
  "append_automation_event eid now org ws actor event t = commit t (
    bindE (work_scope org ws) (\<lambda>(org, ws).
    bindE (work_identifier actor) (\<lambda>actor.
    bindE (validate_automation_event event) (\<lambda>v.
    bindE (work_digest (JDict v)) (\<lambda>digest.
    let source = text_at v ''source''; source_event = text_at v ''sourceEventId''; record = observation_record eid now org ws actor v in
    case find_by ae_key (org, ws, source, source_event, actor) t of
      Some prior \<Rightarrow>
        if ae_digest prior \<noteq> digest then conflict ''WORK_AUTOMATION_EVENT_ID_CONFLICT''
        else bindE (stored_object (ae_json prior)) (\<lambda>stored. Inr ((stored, True), t))
    | None \<Rightarrow>
        bindE (work_json_text (JDict record)) (\<lambda>text.
        bindE (insert_with ae_clash \<lparr>ae_org = org, ae_ws = ws, ae_source = source, ae_source_event = source_event, ae_id = eid,
          ae_actor = actor, ae_observed = now, ae_json = text, ae_digest = digest\<rparr> t) (\<lambda>t'.
          Inr ((record, False), t'))))))))"

section \<open>Attention and quiet hours\<close>

fun occurs_in :: "string \<Rightarrow> string \<Rightarrow> bool" where
  "occurs_in p [] = (p = [])"
| "occurs_in p (c # s) = (take (length p) (c # s) = p \<or> occurs_in p s)"

definition attention_kind_for_event_type :: "string \<Rightarrow> string option" where
  "attention_kind_for_event_type event_type =
    (let s = map (\<lambda>c. if c = CHR ''-'' \<or> c = CHR ''.'' then CHR ''_'' else c) (py_lower event_type) in
     if occurs_in ''blocked'' s \<or> occurs_in ''blocker'' s then Some ''blocked_goal''
     else if occurs_in ''decision'' s \<or> occurs_in ''approval'' s then Some ''user_decision''
     else if occurs_in ''auth'' s \<or> occurs_in ''outage'' s \<or> occurs_in ''unavailable'' s then Some ''service_or_auth_outage''
     else None)"

text \<open>
  What the host's time zones tell of a zone they know: the local date and the microsecond of the day at a time in
  milliseconds, and the time in milliseconds at a second of a local day, or the exception that \<open>datetime\<close> raises.
\<close>

record tz_db =
  tz_wall :: "string \<Rightarrow> int \<Rightarrow> (int \<times> int) res"
  tz_instant :: "string \<Rightarrow> int \<Rightarrow> int \<Rightarrow> int res"

abbreviation corrupt :: "'a res" where
  "corrupt \<equiv> raise ''WORK_STORAGE_CORRUPT'' 500"

text \<open>The second of the day of \<open>HH:MM\<close>.\<close>

definition parse_clock :: "json \<Rightarrow> int res" where
  "parse_clock v = (case v of
     JStr [a, b, c, d, e] \<Rightarrow>
       if \<not> list_all is_digit [a, b, d, e] \<or> c \<noteq> CHR '':'' then corrupt
       else
         let hour = digits_value [a, b]; minute = digits_value [d, e] in
         if hour > 23 \<or> minute > 59 then corrupt else Inr (3600 * hour + 60 * minute)
   | _ \<Rightarrow> corrupt)"

definition release_day :: "int \<Rightarrow> int \<Rightarrow> int \<Rightarrow> int \<Rightarrow> int option" where
  "release_day start finish day us =
    (let s = start * 1000000; f = finish * 1000000 in
     if s = f then Some (day + 1)
     else if s < f then if s \<le> us \<and> us < f then Some day else None
     else if us \<ge> s then Some (day + 1)
     else if us < f then Some day
     else None)"

definition quiet_hours_release_ms :: "zones \<Rightarrow> tz_db \<Rightarrow> int \<Rightarrow> json_object \<Rightarrow> int option res" where
  "quiet_hours_release_ms zones tz now q = (case dget q ''timeZone'' of
     JStr zone \<Rightarrow>
       (case zones zone of
          No_zone \<Rightarrow> corrupt
        | Zone_fails e \<Rightarrow> Inl e
        | Zone \<Rightarrow>
            bindE (parse_clock (dget q ''start'')) (\<lambda>start.
            bindE (parse_clock (dget q ''end'')) (\<lambda>finish.
            bindE (tz_wall tz zone now) (\<lambda>(day, us).
            case release_day start finish day us of
              None \<Rightarrow> Inr None
            | Some d \<Rightarrow> bindE (tz_instant tz zone d finish) (\<lambda>t. Inr (Some t))))))
   | _ \<Rightarrow> corrupt)"

section \<open>Decisions\<close>

definition source_poll_resource_uri :: "string \<Rightarrow> string \<Rightarrow> string" where
  "source_poll_resource_uri source target = ''cyrene://workflow-sources/'' @ source @ ''/'' @ target"

definition source_poll_failure_fingerprint :: "string \<Rightarrow> string" where
  "source_poll_failure_fingerprint reason = sha256_hex (''cyrene.source-poll.failure.v1:'' @ reason)"

definition source_poll_recovery_fingerprint :: string where
  "source_poll_recovery_fingerprint = sha256_hex ''cyrene.source-poll.healthy.v1''"

definition is_source_failure :: "json_object \<Rightarrow> bool" where
  "is_source_failure event \<longleftrightarrow> text_at event ''eventType'' = ''source.poll.failure''"

definition is_source_recovery :: "json_object \<Rightarrow> bool" where
  "is_source_recovery event \<longleftrightarrow> text_at event ''eventType'' = ''source.poll.recovery''"

text \<open>Observations of a resource are ordered by the time they happened and then by their source event id.\<close>

definition not_after :: "int \<times> string \<Rightarrow> int \<times> string \<Rightarrow> bool" where
  "not_after a b \<longleftrightarrow> fst a < fst b \<or> (fst a = fst b \<and> snd a \<le> snd b)"

definition order_of_event :: "json_object \<Rightarrow> int \<times> string" where
  "order_of_event event = (int_at event ''occurredAt'', text_at event ''sourceEventId'')"

definition order_of_state :: "source_state_row \<Rightarrow> int \<times> string" where
  "order_of_state r = (ss_occurred r, ss_source_event r)"

definition is_stale :: "source_state_row option \<Rightarrow> json_object \<Rightarrow> bool" where
  "is_stale prior event = (case prior of None \<Rightarrow> False | Some r \<Rightarrow> not_after (order_of_event event) (order_of_state r))"

definition same_state :: "source_state_row \<Rightarrow> json_object \<Rightarrow> bool" where
  "same_state r event \<longleftrightarrow> ss_class r = text_at event ''stateClass'' \<and> ss_fingerprint r = text_at event ''semanticFingerprint''"

definition change_decision :: "json \<Rightarrow> source_state_row \<Rightarrow> json_object \<Rightarrow> string" where
  "change_decision immediate r event =
    (if (case attention_kind_for_event_type (text_at event ''eventType'') of None \<Rightarrow> False | Some a \<Rightarrow> a \<in> set (texts_of immediate))
     then ''blocker''
     else if ss_class r = ''incident'' \<and> text_at event ''stateClass'' = ''healthy'' then ''recovery''
     else if ss_class r \<noteq> ''incident'' \<and> text_at event ''stateClass'' = ''incident'' then ''failure''
     else ''change'')"

definition source_decision :: "bool \<Rightarrow> json \<Rightarrow> source_state_row option \<Rightarrow> json_object \<Rightarrow> string res" where
  "source_decision baseline immediate prior event =
    (if is_stale prior event then Inr ''stale''
     else if is_source_failure event then
       Inr (case prior of
           Some r \<Rightarrow> if ss_class r = ''incident'' \<and> ss_fingerprint r = text_at event ''semanticFingerprint'' then ''unchanged'' else ''failure''
         | None \<Rightarrow> ''failure'')
     else if is_source_recovery event then
       (case prior of
          Some r \<Rightarrow> if ss_class r = ''incident'' then Inr ''recovery'' else conflict ''WORK_AUTOMATION_EVENT_RECOVERY_WITHOUT_INCIDENT''
        | None \<Rightarrow> conflict ''WORK_AUTOMATION_EVENT_RECOVERY_WITHOUT_INCIDENT'')
     else Inr (case prior of
         None \<Rightarrow> ''initial_baseline''
       | Some r \<Rightarrow>
           if baseline then ''initial_baseline''
           else if same_state r event then ''unchanged''
           else change_decision immediate r event))"

definition state_of_event :: "string \<Rightarrow> string \<Rightarrow> string \<Rightarrow> string \<Rightarrow> json_object \<Rightarrow> source_state_row" where
  "state_of_event org ws actor eid event = \<lparr>ss_org = org, ss_ws = ws, ss_actor = actor, ss_source = text_at event ''source'',
     ss_resource = sha256_hex (text_at event ''resourceUri''), ss_class = text_at event ''stateClass'',
     ss_fingerprint = text_at event ''semanticFingerprint'', ss_occurred = int_at event ''occurredAt'',
     ss_source_event = text_at event ''sourceEventId'', ss_event = eid\<rparr>"

definition put_source_state :: "source_state_row \<Rightarrow> source_state_row list \<Rightarrow> source_state_row list" where
  "put_source_state r t = (if find_by ss_key (ss_key r) t = None then t @ [r]
     else edit_by ss_key (ss_key r) (\<lambda>x. x\<lparr>ss_class := ss_class r, ss_fingerprint := ss_fingerprint r, ss_occurred := ss_occurred r,
       ss_source_event := ss_source_event r, ss_event := ss_event r\<rparr>) t)"

end
