(* ===== verification/Auto_Notice.thy ===== *)
theory Auto_Notice
  imports Auto_Store
begin

text \<open>
  \<open>enqueue_automation_event_notice\<close> of \<open>work/store.py\<close>: it consumes one observation for one trigger of a private workflow.
  The observation, the workflow, the running occurrence with its task and the page receipt in the task's log must agree;
  then the decision, the state of the resource, the notice and the receipt are written together.
\<close>

section \<open>The request\<close>

abbreviation bad_notice :: "'a res" where
  "bad_notice \<equiv> invalid ''WORK_AUTOMATION_EVENT_NOTICE_INVALID''"

record notice_intent =
  ni_workflow :: string
  ni_trigger :: string
  ni_occurrence :: string
  ni_scheduled :: string
  ni_task :: string

definition occurrence_text :: "string \<Rightarrow> bool" where
  "occurrence_text s \<longleftrightarrow> take 4 s = ''occ-'' \<and> lower_hex 40 (drop 4 s)"

definition notice_intent_of :: "json_object \<Rightarrow> notice_intent res" where
  "notice_intent_of body =
    (if \<not> keys_are body [''workflowId'', ''triggerId'', ''occurrenceId'', ''scheduledAt'', ''taskId''] then bad_notice
     else
       bindE (work_identifier_of (dget body ''workflowId'')) (\<lambda>wid.
       bindE (work_identifier_of (dget body ''triggerId'')) (\<lambda>trigger.
       bindE (bounded_text (dget body ''occurrenceId'') 44 False) (\<lambda>occurrence.
       if \<not> occurrence_text occurrence then bad_notice
       else
         bindE (bounded_text (dget body ''scheduledAt'') 128 False) (\<lambda>scheduled.
         bindE (work_identifier_of (dget body ''taskId'')) (\<lambda>task.
         if task \<noteq> ''workflow-'' @ drop 4 occurrence then bad_notice
         else Inr \<lparr>ni_workflow = wid, ni_trigger = trigger, ni_occurrence = occurrence, ni_scheduled = scheduled, ni_task = task\<rparr>))))))"

definition intent_digest :: "notice_intent \<Rightarrow> string res" where
  "intent_digest n = work_digest (JDict [(''workflowId'', JStr (ni_workflow n)), (''triggerId'', JStr (ni_trigger n)),
     (''occurrenceId'', JStr (ni_occurrence n)), (''scheduledAt'', JStr (ni_scheduled n)), (''taskId'', JStr (ni_task n))])"

section \<open>The workflow, the observation and the occurrence\<close>

definition find_owned_workflow :: "fdb \<Rightarrow> string \<Rightarrow> string \<Rightarrow> string \<Rightarrow> string \<Rightarrow> workflow_row option" where
  "find_owned_workflow f org ws wid actor =
    List.find (\<lambda>r. wf_org r = org \<and> wf_ws r = ws \<and> wf_id r = wid \<and> wf_version r = 3 \<and> wf_owner r = actor) (f_workflows f)"

definition source_trigger :: "json_object \<Rightarrow> string \<Rightarrow> json_object option" where
  "source_trigger flow trigger = List.find (\<lambda>t. dget t ''id'' = JStr trigger \<and> dget t ''kind'' = JStr ''source_poll'')
     (objects_of (dget flow ''triggers''))"

definition load_trigger :: "zones \<Rightarrow> workflow_row \<Rightarrow> string \<Rightarrow> (json_object \<times> json_object) res" where
  "load_trigger zones row trigger =
    bindE (stored_object (wf_json row)) (\<lambda>d.
    bindE (validate_workflow_v3 zones d) (\<lambda>flow.
    if dget flow ''enabled'' \<noteq> JBool True then conflict ''WORK_WORKFLOW_DISABLED''
    else if (case dget flow ''authorization'' of JDict a \<Rightarrow> dget a ''kind'' \<noteq> JStr ''owner_private'' | _ \<Rightarrow> True)
      then invalid ''WORK_WORKFLOW_V3_AUTHORIZATION_INVALID''
    else case source_trigger flow trigger of
      None \<Rightarrow> not_found ''WORK_WORKFLOW_TRIGGER_NOT_FOUND''
    | Some t \<Rightarrow> Inr (flow, t)))"

definition load_observation :: "automation_row \<Rightarrow> json_object \<Rightarrow> json_object res" where
  "load_observation row trigger =
    bindE (stored_object (ae_json row)) (\<lambda>event.
    if dget event ''source'' \<noteq> dget trigger ''source'' then conflict ''WORK_AUTOMATION_EVENT_SOURCE_MISMATCH''
    else
      bindE (in_names (dget event ''stateClass'') state_classes) (\<lambda>known.
      if \<not> known \<or> \<not> lower_hex 64 (text_at event ''semanticFingerprint'') then invalid ''WORK_AUTOMATION_EVENT_STATE_REQUIRED''
      else Inr event))"

definition running_occurrence :: "fdb \<Rightarrow> string \<Rightarrow> string \<Rightarrow> notice_intent \<Rightarrow> schedule_row option" where
  "running_occurrence f org ws n = List.find (\<lambda>e. sv_org e = org \<and> sv_ws e = ws \<and> sv_workflow e = ni_workflow n \<and>
     sv_trigger e = JStr (ni_trigger n) \<and> sv_occurrence e = Some (ni_occurrence n) \<and> sv_scheduled e = JStr (ni_scheduled n) \<and>
     sv_task e = JStr (ni_task n) \<and> sv_status e = JStr ''running'') (f_events f)"

definition check_occurrence_task :: "wdb \<Rightarrow> string \<Rightarrow> string \<Rightarrow> string \<Rightarrow> notice_intent \<Rightarrow> unit res" where
  "check_occurrence_task db org ws actor n = (case find_task db (org, ws, ni_task n) of
     None \<Rightarrow> not_found ''WORK_TASK_NOT_FOUND''
   | Some task \<Rightarrow>
       if py_lower (tk_creator task) \<noteq> py_lower actor \<or> tk_status task \<noteq> ''running'' then not_found ''WORK_TASK_NOT_FOUND''
       else if ni_occurrence n \<noteq> v3_occurrence_id (ni_workflow n) (ni_trigger n) (ni_scheduled n) (tk_creator task) then bad_notice
       else
         bindE (stored_object (tk_metadata task)) (\<lambda>m.
         if dget m ''source'' \<noteq> JStr ''workflow'' \<or> dget m ''workflowId'' \<noteq> JStr (ni_workflow n) \<or>
            dget m ''triggerId'' \<noteq> JStr (ni_trigger n) \<or> dget m ''occurrenceId'' \<noteq> JStr (ni_occurrence n)
         then conflict ''WORK_AUTOMATION_EVENT_TASK_MISMATCH''
         else Inr ()))"

definition page_receipts :: "wdb \<Rightarrow> string \<Rightarrow> string \<Rightarrow> string \<Rightarrow> json_object list res" where
  "page_receipts db org ws task = mapE (\<lambda>e. stored_object (te_json e))
     (sort_key te_seq (filter (\<lambda>e. te_org e = org \<and> te_ws e = ws \<and> te_task e = task) (w_events db)))"

section \<open>Evidence in the log of the task\<close>

definition names_occurrence :: "notice_intent \<Rightarrow> json_object \<Rightarrow> bool" where
  "names_occurrence n d \<longleftrightarrow> dget d ''workflowId'' = JStr (ni_workflow n) \<and> dget d ''triggerId'' = JStr (ni_trigger n) \<and>
     dget d ''occurrenceId'' = JStr (ni_occurrence n) \<and> dget d ''scheduledAt'' = JStr (ni_scheduled n)"

definition error_receipt_fields :: "string list" where
  "error_receipt_fields = [''type'', ''workflowId'', ''triggerId'', ''occurrenceId'', ''scheduledAt'', ''source'', ''targetId'',
     ''windowStart'', ''windowEnd'', ''outcome'', ''reasonCode'', ''observedAt'']"

definition failure_reasons :: "string list" where
  "failure_reasons = [''not_configured'', ''forbidden'', ''unavailable'', ''timeout'', ''invalid'', ''partial'']"

definition is_text :: "json \<Rightarrow> bool" where
  "is_text v = (case v of JStr s \<Rightarrow> True | _ \<Rightarrow> False)"

text \<open>The proof of a failed poll; the reason it names.\<close>

definition failure_evidence :: "json_object \<Rightarrow> notice_intent \<Rightarrow> json_object \<Rightarrow> json_object list \<Rightarrow> string res" where
  "failure_evidence event n trigger receipts =
    (case List.find (\<lambda>d. dget d ''type'' = JStr ''workflow.source-error.v1'' \<and> names_occurrence n d) receipts of
       None \<Rightarrow> conflict ''WORK_AUTOMATION_EVENT_SOURCE_ERROR_RECEIPT_REQUIRED''
     | Some d \<Rightarrow>
         if \<not> keys_are d error_receipt_fields then invalid ''WORK_AUTOMATION_EVENT_SOURCE_ERROR_RECEIPT_INVALID''
         else
           bindE (work_identifier_of (dget d ''targetId'')) (\<lambda>target.
           let source = text_at trigger ''source''; mismatch = conflict ''WORK_AUTOMATION_EVENT_SOURCE_ERROR_RECEIPT_MISMATCH'' in
           if dget d ''source'' \<noteq> JStr source \<or> target \<notin> set (texts_of (dget trigger ''targetIds'')) \<or>
              dget d ''outcome'' \<noteq> JStr ''failed'' then mismatch
           else
             bindE (in_names (dget d ''reasonCode'') failure_reasons) (\<lambda>known.
             if \<not> known \<or> (dget d ''windowStart'' \<noteq> JNull \<and> \<not> is_text (dget d ''windowStart'')) \<or> \<not> is_text (dget d ''windowEnd'') \<or>
                \<not> is_text (dget d ''observedAt'') \<or> dget event ''resourceUri'' \<noteq> JStr (source_poll_resource_uri source target) \<or>
                dget event ''stateClass'' \<noteq> JStr ''incident'' \<or>
                dget event ''semanticFingerprint'' \<noteq> JStr (source_poll_failure_fingerprint (text_at d ''reasonCode'')) then mismatch
             else Inr (text_at d ''reasonCode''))))"

text \<open>\<open>event_id in value\<close>: membership of a list, of the keys of an object, or a substring.\<close>

definition py_contains :: "string \<Rightarrow> json \<Rightarrow> bool res" where
  "py_contains s v = (case v of
     JList l \<Rightarrow> Inr (JStr s \<in> set l) | JDict d \<Rightarrow> Inr (dhas d s) | JStr t \<Rightarrow> Inr (occurs_in s t) | _ \<Rightarrow> Inl TypeError)"

fun find_page :: "string \<Rightarrow> json_object list \<Rightarrow> json_object option res" where
  "find_page eid [] = Inr None"
| "find_page eid (d # ds) =
    (if dget d ''type'' \<noteq> JStr ''workflow.source-page.v1'' then find_page eid ds
     else bindE (py_contains eid (dget_or d ''automationEventIds'' (JList []))) (\<lambda>found.
       if found then Inr (Some d) else find_page eid ds))"

definition page_receipt_fields :: "string list" where
  "page_receipt_fields = [''type'', ''workflowId'', ''triggerId'', ''occurrenceId'', ''scheduledAt'', ''source'', ''targetId'',
     ''pageCursor'', ''nextCursor'', ''windowStart'', ''windowEnd'', ''complete'', ''truncated'', ''automationEventIds'',
     ''sourceEventIds'', ''observedAt'']"

definition page_proves :: "string \<Rightarrow> json_object \<Rightarrow> notice_intent \<Rightarrow> json_object \<Rightarrow> string \<Rightarrow> json_object \<Rightarrow> bool" where
  "page_proves eid event n trigger target d \<longleftrightarrow> names_occurrence n d \<and> dget d ''source'' = dget trigger ''source'' \<and>
     target \<in> set (texts_of (dget trigger ''targetIds'')) \<and> dget d ''complete'' = JBool True \<and> dget d ''truncated'' = JBool False \<and>
     dget d ''automationEventIds'' = JList [JStr eid] \<and> dget d ''sourceEventIds'' = JList [JStr (text_at event ''sourceEventId'')]"

definition page_evidence :: "string \<Rightarrow> json_object \<Rightarrow> notice_intent \<Rightarrow> json_object \<Rightarrow> json_object list \<Rightarrow> unit res" where
  "page_evidence eid event n trigger receipts =
    bindE (find_page eid receipts) (\<lambda>page. case page of
      None \<Rightarrow> conflict ''WORK_AUTOMATION_EVENT_PAGE_RECEIPT_REQUIRED''
    | Some d \<Rightarrow>
        if \<not> keys_are d page_receipt_fields then invalid ''WORK_AUTOMATION_EVENT_PAGE_RECEIPT_INVALID''
        else
          bindE (work_identifier_of (dget d ''targetId'')) (\<lambda>target.
          if \<not> page_proves eid event n trigger target d then conflict ''WORK_AUTOMATION_EVENT_PAGE_RECEIPT_MISMATCH''
          else if is_source_recovery event \<and>
             (dget event ''resourceUri'' \<noteq> JStr (source_poll_resource_uri (text_at trigger ''source'') target) \<or>
              dget event ''stateClass'' \<noteq> JStr ''healthy'' \<or> dget event ''semanticFingerprint'' \<noteq> JStr source_poll_recovery_fingerprint)
            then conflict ''WORK_AUTOMATION_EVENT_SOURCE_RECOVERY_RECEIPT_MISMATCH''
          else if take 12 (text_at event ''eventType'') = ''source.poll.'' \<and> \<not> is_source_recovery event
            then conflict ''WORK_AUTOMATION_EVENT_SOURCE_RECEIPT_MISMATCH''
          else Inr ()))"

text \<open>The reason of a failed poll, or \<open>None\<close> for every other observation.\<close>

definition source_evidence :: "string \<Rightarrow> json_object \<Rightarrow> notice_intent \<Rightarrow> json_object \<Rightarrow> json_object list \<Rightarrow> string option res" where
  "source_evidence eid event n trigger receipts =
    (if is_source_failure event then bindE (failure_evidence event n trigger receipts) (\<lambda>r. Inr (Some r))
     else bindE (page_evidence eid event n trigger receipts) (\<lambda>_. Inr None))"

section \<open>The notice\<close>

definition authorization_of :: "json_object \<Rightarrow> json_object" where
  "authorization_of flow = (case dget flow ''authorization'' of JDict a \<Rightarrow> a | _ \<Rightarrow> [])"

definition notifications_of :: "json_object \<Rightarrow> json_object" where
  "notifications_of flow = (case dget flow ''notifications'' of JDict d \<Rightarrow> d | _ \<Rightarrow> [])"

definition should_notify :: "json_object \<Rightarrow> string \<Rightarrow> bool" where
  "should_notify notifications decision \<longleftrightarrow> (decision = ''failure'' \<and> dget notifications ''onFailure'' = JBool True) \<or>
     (decision = ''recovery'' \<and> dget notifications ''onRecovery'' = JBool True) \<or> decision = ''blocker''"

definition notice_attention :: "json_object \<Rightarrow> string option \<Rightarrow> string option" where
  "notice_attention event reason = (case reason of
     Some r \<Rightarrow> if r \<in> set [''not_configured'', ''forbidden'', ''unavailable'', ''timeout''] then Some ''service_or_auth_outage''
       else attention_kind_for_event_type (text_at event ''eventType'')
   | None \<Rightarrow> attention_kind_for_event_type (text_at event ''eventType''))"

definition notice_text :: "json_object \<Rightarrow> string res" where
  "notice_text event = bounded_text (if jtruthy (dget event ''summary'') then dget event ''summary''
     else if jtruthy (dget event ''title'') then dget event ''title'' else dget event ''eventType'') 2000 False"

definition source_notice_key :: "string \<Rightarrow> string \<Rightarrow> string \<Rightarrow> string" where
  "source_notice_key wid eid decision = ''workflow:'' @ wid @ '':source:'' @ eid @ '':'' @ decision"

definition enqueue_source_notice ::
  "zones \<Rightarrow> tz_db \<Rightarrow> string \<Rightarrow> int \<Rightarrow> string \<Rightarrow> string \<Rightarrow> string \<Rightarrow> string \<Rightarrow> notice_intent \<Rightarrow> json_object \<Rightarrow> json_object
   \<Rightarrow> string option \<Rightarrow> string \<Rightarrow> private_scope option \<Rightarrow> wdb \<Rightarrow> (string \<times> wdb) res" where
  "enqueue_source_notice zones tz nid now org ws actor eid n flow event reason decision scope db =
    (let notifications = notifications_of flow; owner_task = text_at (authorization_of flow) ''ownerTaskId'' in
     bindE (case scope of None \<Rightarrow> raise FORBIDDEN 403
            | Some ps \<Rightarrow> resolve_private_teams_route db org ws owner_task actor ps) (\<lambda>route.
     bindE (notice_text event) (\<lambda>body.
     bindE (quiet_hours_release_ms zones tz now (case dget notifications ''quietHours'' of JDict q \<Rightarrow> q | _ \<Rightarrow> [])) (\<lambda>quiet.
     let immediate = decision = ''blocker'' \<or>
           (case notice_attention event reason of None \<Rightarrow> False | Some a \<Rightarrow> a \<in> set (texts_of (dget notifications ''immediateOn'')));
         available = (case quiet of None \<Rightarrow> now | Some t \<Rightarrow> if immediate then now else t) in
     bindE (enqueue_notification nid org ws (source_notice_key (ni_workflow n) eid decision) ''teams.message'' [(''text'', JStr body)]
         (Some ''teams-v1'') (Some ''teams:owner-private'') (Some (ni_task n)) available now (Some actor)
         (Some [(''taskId'', JStr owner_task), (''tenantId'', dget route ''tenantId''), (''actorAadObjectId'', dget route ''actorAadObjectId''),
           (''botAppId'', dget route ''botAppId'')]) db)
       (\<lambda>((view, _), db'). Inr (text_at view ''id'', db'))))))"

section \<open>The handler\<close>

definition notice_receipt :: "string \<Rightarrow> notice_intent \<Rightarrow> string \<Rightarrow> string option \<Rightarrow> json_object" where
  "notice_receipt eid n decision note = [(''eventId'', JStr eid), (''workflowId'', JStr (ni_workflow n)), (''triggerId'', JStr (ni_trigger n)),
     (''occurrenceId'', JStr (ni_occurrence n)), (''decision'', JStr decision), (''notificationId'', jopt note)]"

text \<open>What is written once every check has passed.\<close>

definition settle_notice ::
  "zones \<Rightarrow> tz_db \<Rightarrow> string \<Rightarrow> int \<Rightarrow> string \<Rightarrow> string \<Rightarrow> string \<Rightarrow> string \<Rightarrow> string \<Rightarrow> notice_intent \<Rightarrow> json_object \<Rightarrow> json_object
   \<Rightarrow> string option \<Rightarrow> bool \<Rightarrow> private_scope option \<Rightarrow> adb \<Rightarrow> ((json_object \<times> bool) \<times> adb) res" where
  "settle_notice zones tz nid now org ws actor eid digest n flow event reason baseline scope db =
    (let state = state_of_event org ws actor eid event; prior = find_by ss_key (ss_key state) (a_states db);
         notifications = notifications_of flow in
     bindE (source_decision baseline (dget notifications ''immediateOn'') prior event) (\<lambda>decision.
     let states = (if is_stale prior event then a_states db else put_source_state state (a_states db)) in
     bindE (if should_notify notifications decision
            then bindE (enqueue_source_notice zones tz nid now org ws actor eid n flow event reason decision scope (a_work db)) (\<lambda>(i, w). Inr (Some i, w))
            else Inr (None, a_work db)) (\<lambda>(note, w).
     let receipt = notice_receipt eid n decision note in
     bindE (work_json_text (JDict receipt)) (\<lambda>text.
     bindE (insert_by ai_key \<lparr>ai_org = org, ai_ws = ws, ai_actor = actor, ai_event = eid, ai_workflow = ni_workflow n, ai_trigger = ni_trigger n,
         ai_occurrence = ni_occurrence n, ai_decision = decision, ai_digest = digest, ai_note = note, ai_receipt = text, ai_created = now\<rparr>
         (a_intents db)) (\<lambda>intents.
       Inr ((receipt, False), db\<lparr>a_states := states, a_intents := intents, a_work := w\<rparr>))))))"

definition enqueue_automation_event_notice ::
  "zones \<Rightarrow> tz_db \<Rightarrow> string \<Rightarrow> int \<Rightarrow> string option \<Rightarrow> string \<Rightarrow> string \<Rightarrow> string \<Rightarrow> json_object \<Rightarrow> private_scope option \<Rightarrow> adb
   \<Rightarrow> (json_object \<times> bool) res \<times> adb" where
  "enqueue_automation_event_notice zones tz nid now org ws actor eid body scope db = commit db (
    bindE (work_scope org ws) (\<lambda>(org, ws).
    bindE (work_identifier actor) (\<lambda>actor.
    bindE (work_identifier eid) (\<lambda>eid.
    bindE (notice_intent_of body) (\<lambda>n.
    bindE (intent_digest n) (\<lambda>digest.
    case List.find (\<lambda>r. ae_org r = org \<and> ae_ws r = ws \<and> ae_id r = eid) (a_events db) of
      None \<Rightarrow> not_found ''WORK_AUTOMATION_EVENT_NOT_FOUND''
    | Some row \<Rightarrow>
        if ae_actor row \<noteq> actor then not_found ''WORK_AUTOMATION_EVENT_NOT_FOUND''
        else (case find_owned_workflow (a_flow db) org ws (ni_workflow n) actor of
            None \<Rightarrow> not_found ''WORK_WORKFLOW_NOT_FOUND''
          | Some w \<Rightarrow>
              (case find_by ai_key (org, ws, actor, eid, ni_workflow n, ni_trigger n) (a_intents db) of
                 Some i \<Rightarrow> bindE (stored_object (ai_receipt i)) (\<lambda>receipt. Inr ((receipt, True), db))
               | None \<Rightarrow>
                   bindE (load_trigger zones w (ni_trigger n)) (\<lambda>(flow, trigger).
                   bindE (load_observation row trigger) (\<lambda>event.
                   case running_occurrence (a_flow db) org ws n of
                     None \<Rightarrow> conflict ''WORK_AUTOMATION_EVENT_OCCURRENCE_NOT_RUNNING''
                   | Some run \<Rightarrow>
                       bindE (stored_object (sv_json run)) (\<lambda>run_event.
                       bindE (check_occurrence_task (a_work db) org ws actor n) (\<lambda>_.
                       bindE (page_receipts (a_work db) org ws (ni_task n)) (\<lambda>receipts.
                       bindE (source_evidence eid event n trigger receipts) (\<lambda>reason.
                       bindE (check_owner_route (a_work db) scope org ws actor (authorization_of flow)) (\<lambda>_.
                         settle_notice zones tz nid now org ws actor eid digest n flow event reason
                           (dget run_event ''baseline'' = JBool True) scope db)))))))))))))))"

end
