(* ===== verification/Auto_Inv.thy ===== *)
theory Auto_Inv
  imports Auto_Notice Flow_System Work_Delivery Health_Inv
begin

text \<open>
  What one judged observation does to the tables, and the system of observations, workflows and the Work store together:
  its calls \<open>astep\<close>, the invariant \<open>ainv\<close>, the order \<open>agrows\<close> (observations and receipts are only added, the state of a
  resource moves forward in time) and the interpretation of \<open>history\<close>.
\<close>

section \<open>The order of observations\<close>

lemma not_after_refl: "not_after a a"
  by (simp add: not_after_def)

lemma not_after_trans: "not_after a b \<Longrightarrow> not_after b c \<Longrightarrow> not_after a c"
  by (auto simp: not_after_def)

lemma not_after_total: "not_after a b \<or> not_after b a"
  by (auto simp: not_after_def)

lemma not_after_antisym: "not_after a b \<Longrightarrow> not_after b a \<Longrightarrow> a = b"
  by (cases a; cases b) (auto simp: not_after_def)

definition later :: "source_state_row \<Rightarrow> source_state_row \<Rightarrow> bool" where
  "later r r' \<longleftrightarrow> \<not> not_after (order_of_state r') (order_of_state r)"

lemma later_trans: "later a b \<Longrightarrow> later b c \<Longrightarrow> later a c"
  unfolding later_def using not_after_total not_after_trans by blast

section \<open>The states of resources\<close>

lemma find_put_state:
  "find_by ss_key k (put_source_state r t) = (if k = ss_key r
     then Some (case find_by ss_key k t of None \<Rightarrow> r | Some x \<Rightarrow> x\<lparr>ss_class := ss_class r, ss_fingerprint := ss_fingerprint r,
       ss_occurred := ss_occurred r, ss_source_event := ss_source_event r, ss_event := ss_event r\<rparr>)
     else find_by ss_key k t)"
  by (auto simp: put_source_state_def table_simps ss_key_def split: option.split)

lemma keyed_put_state: "keyed ss_key t \<Longrightarrow> keyed ss_key (put_source_state r t)"
  by (auto simp: put_source_state_def keyed_snoc keyed_edit ss_key_def)

definition states_forward :: "source_state_row list \<Rightarrow> source_state_row list \<Rightarrow> bool" where
  "states_forward t t' \<longleftrightarrow> (\<forall>k r. find_by ss_key k t = Some r \<longrightarrow> (\<exists>r'. find_by ss_key k t' = Some r' \<and> (r' = r \<or> later r r')))"

lemma states_forward_refl: "states_forward t t"
  by (auto simp: states_forward_def)

lemma states_forward_trans: "states_forward t t' \<Longrightarrow> states_forward t' t'' \<Longrightarrow> states_forward t t''"
  unfolding states_forward_def by (blast dest: later_trans)

lemma put_state_forward:
  assumes "\<not> is_stale (find_by ss_key (ss_key (state_of_event org ws actor eid event)) t) event"
  shows "states_forward t (put_source_state (state_of_event org ws actor eid event) t)"
  using assms unfolding states_forward_def
  by (auto simp: find_put_state is_stale_def later_def order_of_state_def order_of_event_def state_of_event_def split: option.split_asm)

section \<open>One notice\<close>

lemma notification_view_id: "notification_view r = Inr v \<Longrightarrow> text_at v ''id'' = nt_id r"
  by (auto simp: notification_view_def bindE_eq_Inr text_at_def dget_def)

lemma enqueue_note_id:
  assumes "enqueue_notification nid org ws dedup ntype payload conn recip task avail now owner po db = Inr ((v, dup), db')"
  shows "find_by nt_key (org, ws, text_at v ''id'') (w_notes db') \<noteq> None"
proof -
  have "\<exists>r \<in> set (w_notes db'). nt_org r = org \<and> nt_ws r = ws \<and> notification_view r = Inr v"
  proof (cases "find_by nt_dedup_key (org, ws, dedup) (w_notes db)")
    case None
    with assms show ?thesis by (auto simp: enqueue_notification_def resE Let_def)
  next
    case (Some r)
    with assms have "notification_view r = Inr v" "db' = db" by (auto simp: enqueue_notification_def resE split: if_split_asm)
    with find_by_SomeD [OF Some] show ?thesis by (auto simp: nt_dedup_key_def)
  qed
  then obtain r where "r \<in> set (w_notes db')" "nt_org r = org" "nt_ws r = ws" "notification_view r = Inr v" by blast
  with notification_view_id [of r v] have "nt_key r = (org, ws, text_at v ''id'')" "r \<in> set (w_notes db')" by (simp_all add: nt_key_def)
  then show ?thesis unfolding find_by_None_iff by (metis image_eqI)
qed

lemma enqueue_source_notice_Inr:
  assumes "enqueue_source_notice zones tz nid now org ws actor eid n flow event reason decision scope db = Inr (i, db')"
  obtains v dup payload avail po where "i = text_at v ''id''"
    "enqueue_notification nid org ws (source_notice_key (ni_workflow n) eid decision) ''teams.message'' payload (Some ''teams-v1'')
      (Some ''teams:owner-private'') (Some (ni_task n)) avail now (Some actor) (Some po) db = Inr ((v, dup), db')"
  using assms by (auto simp: enqueue_source_notice_def bindE_eq_Inr Let_def)

text \<open>What a notice adds to the outbox: nothing, or one private row for the actor.\<close>

definition notifies :: "string \<Rightarrow> wdb \<Rightarrow> wdb \<Rightarrow> bool" where
  "notifies actor w w' \<longleftrightarrow> w' = w \<or> (\<exists>r. w' = w\<lparr>w_notes := w_notes w @ [r]\<rparr> \<and> owner_private (py_lower actor) r)"

lemma enqueue_source_notice_effect:
  assumes "enqueue_source_notice zones tz nid now org ws actor eid n flow event reason decision scope db = Inr (i, db')"
  shows "notifies actor db db' \<and> wchange\<^sup>*\<^sup>* db db' \<and> find_by nt_key (org, ws, i) (w_notes db') \<noteq> None"
proof -
  from assms obtain v dup payload avail po where i: "i = text_at v ''id''" and e:
    "enqueue_notification nid org ws (source_notice_key (ni_workflow n) eid decision) ''teams.message'' payload (Some ''teams-v1'')
      (Some ''teams:owner-private'') (Some (ni_task n)) avail now (Some actor) (Some po) db = Inr ((v, dup), db')"
    by (rule enqueue_source_notice_Inr)
  have "notifies actor db db'" using enqueue_private [OF e] enqueue_effect [OF e] unfolding notifies_def by auto
  with enqueue_note_id [OF e] enqueue_changes [OF e] show ?thesis by (simp add: i)
qed

text \<open>An accepted notice: what was decided and what was written.\<close>

lemma settle_notice_Inr:
  assumes "settle_notice zones tz nid now org ws actor eid digest n flow event reason baseline scope db = Inr ((receipt, dup), db')"
  obtains prior decision made w i where "prior = find_by ss_key (ss_key (state_of_event org ws actor eid event)) (a_states db)"
    "source_decision baseline (dget (notifications_of flow) ''immediateOn'') prior event = Inr decision"
    "\<not> dup" "receipt = notice_receipt eid n decision made"
    "if should_notify (notifications_of flow) decision
     then \<exists>j. made = Some j \<and> enqueue_source_notice zones tz nid now org ws actor eid n flow event reason decision scope (a_work db) = Inr (j, w)
     else made = None \<and> w = a_work db"
    "ai_key i = (org, ws, actor, eid, ni_workflow n, ni_trigger n)" "ai_decision i = decision" "ai_note i = made"
    "work_json_text (JDict receipt) = Inr (ai_receipt i)" "find_by ai_key (ai_key i) (a_intents db) = None"
    "db' = db\<lparr>a_states := if is_stale prior event then a_states db else put_source_state (state_of_event org ws actor eid event) (a_states db),
      a_intents := a_intents db @ [i], a_work := w\<rparr>"
proof -
  let ?prior = "find_by ss_key (ss_key (state_of_event org ws actor eid event)) (a_states db)"
  from assms obtain decision where d: "source_decision baseline (dget (notifications_of flow) ''immediateOn'') ?prior event = Inr decision"
    by (auto simp: settle_notice_def bindE_eq_Inr Let_def)
  from assms d obtain made w where nw: "(if should_notify (notifications_of flow) decision
      then bindE (enqueue_source_notice zones tz nid now org ws actor eid n flow event reason decision scope (a_work db)) (\<lambda>(i, w). Inr (Some i, w))
      else Inr (None, a_work db)) = Inr (made, w)"
    by (auto simp: settle_notice_def bindE_eq_Inr Let_def split: prod.split_asm)
  have written: "if should_notify (notifications_of flow) decision
     then \<exists>j. made = Some j \<and> enqueue_source_notice zones tz nid now org ws actor eid n flow event reason decision scope (a_work db) = Inr (j, w)
     else made = None \<and> w = a_work db"
    using nw by (auto simp: bindE_eq_Inr split: if_split_asm)
  let ?row = "\<lambda>body. \<lparr>ai_org = org, ai_ws = ws, ai_actor = actor, ai_event = eid, ai_workflow = ni_workflow n, ai_trigger = ni_trigger n,
       ai_occurrence = ni_occurrence n, ai_decision = decision, ai_digest = digest, ai_note = made, ai_receipt = body, ai_created = now\<rparr>"
  from assms d nw obtain body where t: "\<not> dup" "receipt = notice_receipt eid n decision made" "work_json_text (JDict receipt) = Inr body"
    "insert_by ai_key (?row body) (a_intents db) = Inr (a_intents db')"
    "db' = db\<lparr>a_states := if is_stale ?prior event then a_states db else put_source_state (state_of_event org ws actor eid event) (a_states db),
      a_intents := a_intents db', a_work := w\<rparr>"
    by (auto simp: settle_notice_def bindE_eq_Inr Let_def)
  show thesis
    by (rule that [OF refl d t(1,2) written, of "?row body"]) (use t(3-5) in \<open>auto simp: insert_by_eq_Inr ai_key_def\<close>)
qed

lemma notice_Inl: "enqueue_automation_event_notice zones tz nid now org ws actor eid body scope db = (Inl e, db') \<Longrightarrow> db' = db"
  by (auto simp: enqueue_automation_event_notice_def commit_def split: sum.split_asm)

text \<open>An accepted notice is a replay of a stored receipt, or it settles an observation that had none.\<close>

lemma notice_Inr:
  assumes "enqueue_automation_event_notice zones tz nid now org ws actor eid body scope db = (Inr (v, dup), db')"
  obtains o' u n where "work_scope org ws = Inr (o', u)" "notice_intent_of body = Inr n"
    "(dup \<and> db' = db \<and> (\<exists>i. find_by ai_key (o', u, actor, eid, ni_workflow n, ni_trigger n) (a_intents db) = Some i \<and>
        stored_object (ai_receipt i) = Inr v)) \<or>
     (find_by ai_key (o', u, actor, eid, ni_workflow n, ni_trigger n) (a_intents db) = None \<and>
       (\<exists>digest flow event reason baseline. settle_notice zones tz nid now o' u actor eid digest n flow event reason baseline scope db = Inr ((v, dup), db')))"
proof -
  from assms obtain o' u n digest where *: "work_scope org ws = Inr (o', u)" "work_identifier actor = Inr actor" "work_identifier eid = Inr eid"
    "notice_intent_of body = Inr n" "intent_digest n = Inr digest"
    by (auto simp: enqueue_automation_event_notice_def commit_Inr bindE_eq_Inr work_identifier_Inr)
  with assms obtain row w where r: "List.find (\<lambda>r. ae_org r = o' \<and> ae_ws r = u \<and> ae_id r = eid) (a_events db) = Some row"
    "ae_actor row = actor" "find_owned_workflow (a_flow db) o' u (ni_workflow n) actor = Some w"
    by (auto simp: enqueue_automation_event_notice_def commit_Inr split: option.split_asm if_split_asm)
  show thesis
  proof (cases "find_by ai_key (o', u, actor, eid, ni_workflow n, ni_trigger n) (a_intents db)")
    case (Some i)
    with assms * r have "dup" "db' = db" "stored_object (ai_receipt i) = Inr v"
      by (auto simp: enqueue_automation_event_notice_def commit_Inr bindE_eq_Inr)
    with that [OF *(1,4)] Some show thesis by simp
  next
    case None
    with assms * r obtain flow event reason baseline where
      "settle_notice zones tz nid now o' u actor eid digest n flow event reason baseline scope db = Inr ((v, dup), db')"
      by (auto simp: enqueue_automation_event_notice_def commit_Inr bindE_eq_Inr split: option.split_asm)
    with that [OF *(1,4)] None show thesis by blast
  qed
qed

section \<open>The system\<close>

text \<open>Observations, notices, workflows with their receipts, and every operation of the Work store, in any order.\<close>

inductive astep :: "zones \<Rightarrow> local_clock \<Rightarrow> tz_db \<Rightarrow> adb \<Rightarrow> adb \<Rightarrow> bool" for zones clock tz where
  observe: "append_automation_event eid now org ws actor event (a_events db) = (r, t) \<Longrightarrow> astep zones clock tz db (db\<lparr>a_events := t\<rparr>)"
| notice: "enqueue_automation_event_notice zones tz nid now org ws actor eid body scope db = (r, db') \<Longrightarrow> astep zones clock tz db db'"
| flow: "fstep zones clock (a_flow db) f \<Longrightarrow> astep zones clock tz db (db\<lparr>a_flow := f\<rparr>)"
| work: "wstep (a_work db) w \<Longrightarrow> astep zones clock tz db (db\<lparr>a_work := w\<rparr>)"

inductive_cases astepE: "astep zones clock tz db db'"

definition empty_adb :: adb where
  "empty_adb = \<lparr>a_events = [], a_states = [], a_intents = [], a_flow = empty_fdb, a_work = empty_wdb\<rparr>"

definition intent_noted :: "wdb \<Rightarrow> intent_row \<Rightarrow> bool" where
  "intent_noted w i \<longleftrightarrow> (\<forall>n. ai_note i = Some n \<longrightarrow> find_by nt_key (ai_org i, ai_ws i, n) (w_notes w) \<noteq> None)"

definition ainv :: "zones \<Rightarrow> adb \<Rightarrow> bool" where
  "ainv zones db \<longleftrightarrow> keyed ae_key (a_events db) \<and> keyed ss_key (a_states db) \<and> keyed ai_key (a_intents db) \<and>
     (\<forall>i \<in> set (a_intents db). intent_noted (a_work db) i) \<and> fdb_inv zones (a_flow db) \<and> winv (a_work db)"

definition agrows :: "adb \<Rightarrow> adb \<Rightarrow> bool" where
  "agrows db db' \<longleftrightarrow> (\<exists>new. a_events db' = a_events db @ new) \<and> (\<exists>new. a_intents db' = a_intents db @ new) \<and>
     states_forward (a_states db) (a_states db') \<and> fgrows (a_flow db) (a_flow db') \<and> wgrows (a_work db) (a_work db')"

lemma agrows_refl: "agrows db db"
  by (simp add: agrows_def states_forward_refl flow.grows_refl wgrows_refl)

lemma agrows_trans: "agrows a b \<Longrightarrow> agrows b c \<Longrightarrow> agrows a c"
  unfolding agrows_def using states_forward_trans flow.grows_trans wgrows_trans by (metis append.assoc)

lemma intent_noted_grows: "wgrows w w' \<Longrightarrow> intent_noted w i \<Longrightarrow> intent_noted w' i"
  unfolding intent_noted_def using grows_note by (metis not_None_eq)

lemma observe_Inl: "append_automation_event eid now org ws actor event t = (Inl e, t') \<Longrightarrow> t' = t"
  by (auto simp: append_automation_event_def commit_def split: sum.split_asm)

lemma observe_Inr:
  assumes "append_automation_event eid now org ws actor event t = (Inr v, t')"
  shows "t' = t \<or> (\<exists>r. (\<forall>r' \<in> set t. \<not> ae_clash r r') \<and> t' = t @ [r])"
proof -
  from assms obtain o' u x digest where *: "work_scope org ws = Inr (o', u)" "work_identifier actor = Inr actor"
    "validate_automation_event event = Inr x" "work_digest (JDict x) = Inr digest"
    by (auto simp: append_automation_event_def commit_Inr bindE_eq_Inr work_identifier_Inr)
  show ?thesis
  proof (cases "find_by ae_key (o', u, text_at x ''source'', text_at x ''sourceEventId'', actor) t")
    case None
    with assms * show ?thesis
      by (auto simp: append_automation_event_def commit_Inr Let_def resE)
  next
    case (Some r)
    with assms * show ?thesis by (auto simp: append_automation_event_def commit_Inr Let_def bindE_eq_Inr split: if_split_asm)
  qed
qed

lemma observe_effect:
  assumes "append_automation_event eid now org ws actor event t = (r, t')" and "keyed ae_key t"
  shows "keyed ae_key t' \<and> (\<exists>new. t' = t @ new)"
proof -
  have "t' = t \<or> (\<exists>r. (\<forall>r' \<in> set t. \<not> ae_clash r r') \<and> t' = t @ [r])"
    using assms(1) observe_Inl observe_Inr by (cases r) blast+
  then consider "t' = t" | x where "\<forall>r' \<in> set t. \<not> ae_clash x r'" "t' = t @ [x]" by blast
  then show ?thesis
  proof cases
    case (2 x)
    then have "find_by ae_key (ae_key x) t = None" by (auto simp: find_by_None_iff ae_clash_def)
    with 2 assms(2) show ?thesis by (simp add: keyed_snoc)
  qed (use assms(2) in simp)
qed

lemma settle_effect:
  assumes "settle_notice zones tz nid now org ws actor eid digest n flow event reason baseline scope db = Inr ((v, dup), db')" and "ainv zones db"
  shows "ainv zones db' \<and> agrows db db'"
  using assms(1)
proof (cases rule: settle_notice_Inr)
  case (1 prior decision made w i)
  have w: "wchange\<^sup>*\<^sup>* (a_work db) w \<and> intent_noted w i"
    using 1(5) enqueue_source_notice_effect 1(6,8) by (fastforce simp: intent_noted_def ai_key_def split: if_split_asm)
  have inv: "winv (a_work db)" using assms(2) by (simp add: ainv_def)
  have grows: "wgrows (a_work db) w" "winv w" using w change.grows_steps change.inv_steps inv by blast+
  have "states_forward (a_states db) (a_states db')" using put_state_forward 1(1,11) states_forward_refl by auto
  moreover have "keyed ss_key (a_states db')" using assms(2) keyed_put_state 1(11) by (auto simp: ainv_def)
  moreover have "keyed ai_key (a_intents db')" using assms(2) 1(10,11) by (simp add: ainv_def keyed_snoc)
  moreover have "\<forall>j \<in> set (a_intents db'). intent_noted w j"
    using assms(2) 1(11) w intent_noted_grows [OF grows(1)] by (auto simp: ainv_def)
  ultimately show ?thesis using assms(2) 1(11) grows flow.grows_refl by (simp add: ainv_def agrows_def)
qed

lemma notice_effect:
  assumes "enqueue_automation_event_notice zones tz nid now org ws actor eid body scope db = (r, db')" and "ainv zones db"
  shows "ainv zones db' \<and> agrows db db'"
proof (cases r)
  case (Inl e)
  with assms notice_Inl show ?thesis by (metis agrows_refl)
next
  case (Inr x)
  with assms(1) have "enqueue_automation_event_notice zones tz nid now org ws actor eid body scope db = (Inr (fst x, snd x), db')" by simp
  then show ?thesis by (cases rule: notice_Inr) (use assms(2) settle_effect agrows_refl in blast)
qed

lemma astep_effect:
  assumes "astep zones clock tz db db'" and "ainv zones db"
  shows "ainv zones db' \<and> agrows db db'"
  using assms(1)
proof cases
  case (observe eid now org ws actor event r t)
  with observe_effect [OF observe(2)] assms(2) show ?thesis
    by (auto simp: ainv_def agrows_def states_forward_refl flow.grows_refl wgrows_refl)
next
  case (notice nid now org ws actor eid body scope r)
  with notice_effect assms(2) show ?thesis by blast
next
  case (flow f)
  with assms(2) have "fdb_inv zones f" "fgrows (a_flow db) f" using flow.inv_step flow.grows_step by (auto simp: ainv_def)
  with flow(1) assms(2) show ?thesis by (simp add: ainv_def agrows_def states_forward_refl wgrows_refl)
next
  case (work w)
  with assms(2) have "winv w" "wgrows (a_work db) w" using work.inv_step work.grows_step by (auto simp: ainv_def)
  with work(1) assms(2) intent_noted_grows show ?thesis by (auto simp: ainv_def agrows_def states_forward_refl flow.grows_refl)
qed

interpretation auto: history "astep zones clock tz" "ainv zones" agrows for zones clock tz
  by unfold_locales (use astep_effect agrows_refl agrows_trans in blast)+

lemma ainv_empty: "ainv zones empty_adb"
  by (simp add: ainv_def empty_adb_def keyed_def fdb_inv_empty winv_empty)

lemma ainv_reachable: "(astep zones clock tz)\<^sup>*\<^sup>* empty_adb db \<Longrightarrow> ainv zones db"
  using auto.inv_steps ainv_empty by blast

end
