(* ===== verification/Auto_Demo.thy ===== *)
theory Auto_Demo
  imports Auto_Inv Flow_Demo
begin

text \<open>
  An observation of the host of the demonstration workflow, found by a running poll, and its notice: the first observation
  of a resource is a baseline. The witness of the property of source events applies it here.
\<close>

section \<open>The state before\<close>

text \<open>Objects written with their keys in order are stored as they are.\<close>

lemma stored_sorted:
  assumes "jok (JDict d)" "jwf (JDict d)" "sort_key fst (canon_items d) = d"
  shows "stored_object (render (canon (JDict d))) = Inr d"
  using stored_object_text [OF text_ok [OF assms(1)] assms(2)] assms(3) by simp

definition demo_fingerprint :: string where
  "demo_fingerprint = replicate 64 (CHR ''a'')"

definition demo_observation :: json_object where
  "demo_observation = [(''eventType'', JStr ''host.state''), (''occurredAt'', JInt 5), (''resourceUri'', JStr ''cyrene://hosts/h''),
     (''semanticFingerprint'', JStr demo_fingerprint), (''source'', JStr ''vm_health''), (''sourceEventId'', JStr ''s1''),
     (''stateClass'', JStr ''healthy'')]"

definition demo_seen :: automation_row where
  "demo_seen = \<lparr>ae_org = ''org'', ae_ws = ''w'', ae_source = ''vm_health'', ae_source_event = ''s1'', ae_id = ''o1'', ae_actor = flow_owner,
     ae_observed = 5, ae_json = render (canon (JDict demo_observation)), ae_digest = []\<rparr>"

definition poll_run :: json_object where
  "poll_run = [(''status'', JStr ''running'')]"

definition demo_run_row :: schedule_row where
  "demo_run_row = \<lparr>sv_org = ''org'', sv_ws = ''w'', sv_id = ''r'', sv_workflow = ''wf'', sv_created = 2000, sv_json = render (canon (JDict poll_run)),
     sv_digest = [], sv_trigger = JStr ''poll'', sv_scheduled = JStr ''2025-01-01T00:00:00Z'', sv_status = JStr ''running'',
     sv_task = JStr demo_poll_task, sv_occurrence = Some demo_occurrence\<rparr>"

definition demo_page :: json_object where
  "demo_page = [(''automationEventIds'', JList [JStr ''o1'']), (''complete'', JBool True), (''nextCursor'', JNull),
     (''observedAt'', JStr ''2025-01-01T00:00:00Z''), (''occurrenceId'', JStr demo_occurrence), (''pageCursor'', JNull),
     (''scheduledAt'', JStr ''2025-01-01T00:00:00Z''), (''source'', JStr ''vm_health''), (''sourceEventIds'', JList [JStr ''s1'']),
     (''targetId'', JStr ''h''), (''triggerId'', JStr ''poll''), (''truncated'', JBool False), (''type'', JStr ''workflow.source-page.v1''),
     (''windowEnd'', JNull), (''windowStart'', JNull), (''workflowId'', JStr ''wf'')]"

definition demo_poll_running :: task_row where
  "demo_poll_running = (new_task ''org'' ''w'' demo_poll_task ''s'' ''p'' 1000)\<lparr>tk_creator := flow_owner, tk_status := ''running'', tk_sequence := 1,
     tk_metadata := render (canon (JDict demo_poll_meta))\<rparr>"

definition demo_running_work :: wdb where
  "demo_running_work = demo_owner_task\<lparr>w_tasks := w_tasks demo_owner_task @ [demo_poll_running],
     w_events := [\<lparr>te_org = ''org'', te_ws = ''w'', te_task = demo_poll_task, te_seq = 1, te_json = render (canon (JDict demo_page)),
       te_digest = [], te_created_at = 2000, te_message = None\<rparr>]\<rparr>"

definition demo_adb :: adb where
  "demo_adb = \<lparr>a_events = [demo_seen], a_states = [], a_intents = [], a_flow = demo_fdb\<lparr>f_events := [demo_run_row]\<rparr>, a_work = demo_running_work\<rparr>"

lemma demo_poll_task_other: "demo_poll_task \<noteq> ''t''"
proof
  assume "demo_poll_task = ''t''"
  then have "length demo_poll_task = length ''t''" by (rule arg_cong)
  with demo_poll_task_shape(1) show False by simp
qed

lemma demo_running_inv: "winv demo_running_work"
  using demo_poll_task_other
  by (auto simp: winv_def demo_running_work_def demo_owner_task_def demo_poll_running_def new_task_def empty_wdb_def tasks_ok_def approvals_ok_def
    inputs_ok_def gate_ok_def operations_ok_def notes_ok_def provenance_ok_def keyed_def te_scope_def tk_key_def log_of_def waits_def
    task_transitions_def to_key_def)

lemma demo_run_stored: "stored_object (sv_json demo_run_row) = Inr poll_run"
  unfolding demo_run_row_def by (simp only: schedule_row.simps) (rule stored_sorted, simp_all add: poll_run_def)

lemma demo_adb_inv: "ainv demo_zones demo_adb"
proof -
  have "fdb_inv demo_zones demo_fdb" using flow.inv_step [OF flow_put_step] fdb_inv_empty by blast
  moreover have "find_by wf_key (''org'', ''w'', ''wf'') (f_workflows demo_fdb) = Some demo_workflow"
    by (simp add: demo_fdb_def find_by_Cons wf_key_def demo_workflow_def)
  moreover have "sv_org demo_run_row = ''org''" "sv_ws demo_run_row = ''w''" "sv_workflow demo_run_row = ''wf''" by (simp_all add: demo_run_row_def)
  ultimately have "fdb_inv demo_zones (demo_fdb\<lparr>f_events := [demo_run_row]\<rparr>)"
    using demo_run_stored by (simp add: fdb_inv_def keyed_def)
  with demo_running_inv show ?thesis by (simp add: ainv_def demo_adb_def keyed_def)
qed

section \<open>The notice\<close>

definition demo_notice_body :: json_object where
  "demo_notice_body = [(''workflowId'', JStr ''wf''), (''triggerId'', JStr ''poll''), (''occurrenceId'', JStr demo_occurrence),
     (''scheduledAt'', JStr ''2025-01-01T00:00:00Z''), (''taskId'', JStr demo_poll_task)]"

definition poll_intent :: notice_intent where
  "poll_intent = \<lparr>ni_workflow = ''wf'', ni_trigger = ''poll'', ni_occurrence = demo_occurrence, ni_scheduled = ''2025-01-01T00:00:00Z'',
     ni_task = demo_poll_task\<rparr>"

lemma hex_prefix: "list_all is_lower_hex (take n (sha256_hex s))"
proof -
  have "is_lower_hex c" if "c \<in> set (take n (sha256_hex s))" for c
    using sha256_hex_is_hex [OF in_set_takeD [OF that]] by (simp add: is_lower_hex_def is_hex_def)
  then show ?thesis by (simp add: list_all_iff)
qed

lemma demo_occurrence_shape: "take 4 demo_occurrence = ''occ-''" "lower_hex 40 (drop 4 demo_occurrence)" "length demo_occurrence = 44"
  and demo_task_plain: "list_all (\<lambda>c. is_lower_hex c \<or> c \<in> set ''workflow-'') demo_poll_task"
proof -
  let ?h = "sha256_hex (''wf'' @ [CHR 0x00] @ ''poll'' @ [CHR 0x00] @ ''2025-01-01T00:00:00Z'' @ [CHR 0x00] @ take 16 (sha256_hex flow_owner))"
  have o: "demo_occurrence = ''occ-'' @ take 40 ?h" by (simp add: demo_occurrence_def v3_occurrence_id_def)
  show "take 4 demo_occurrence = ''occ-''" "length demo_occurrence = 44" unfolding o by (simp_all add: length_sha256_hex)
  show "lower_hex 40 (drop 4 demo_occurrence)" unfolding o by (simp add: lower_hex_def length_sha256_hex hex_prefix)
  show "list_all (\<lambda>c. is_lower_hex c \<or> c \<in> set ''workflow-'') demo_poll_task"
    unfolding demo_poll_task_def o using hex_prefix [unfolded list_all_iff] by (simp add: list_all_iff)
qed

lemma demo_task_identifier: "work_identifier demo_poll_task = Inr demo_poll_task"
proof -
  have "\<forall>c \<in> set ''0123456789abcdef''. \<not> is_ctrl c" "\<forall>c \<in> set ''workflow-''. \<not> is_ctrl c" by (simp_all add: is_ctrl_def)
  then have "\<not> is_ctrl c" if "is_lower_hex c \<or> c \<in> set ''workflow-''" for c using that unfolding is_lower_hex_def by blast
  with demo_task_plain have "\<not> list_ex is_ctrl demo_poll_task" by (auto simp: list_all_iff list_ex_iff)
  with demo_poll_task_shape show ?thesis by (simp add: work_identifier_def)
qed

lemma demo_occurrence_text: "bounded_text (JStr demo_occurrence) 44 False = Inr demo_occurrence"
proof -
  have o: "''occ-'' @ drop 4 demo_occurrence = demo_occurrence"
    using append_take_drop_id [of 4 demo_occurrence] unfolding demo_occurrence_shape(1) .
  have "\<forall>c \<in> set (drop 4 demo_occurrence). is_lower_hex c" using demo_occurrence_shape(2) by (simp add: lower_hex_def list_all_iff)
  moreover have "\<not> is_lower_hex (CHR 0x00)" by (simp add: is_lower_hex_def)
  ultimately have "CHR 0x00 \<notin> set (''occ-'' @ drop 4 demo_occurrence)" by (auto simp del: set_drop_subset)
  moreover have "py_strip (''occ-'' @ s) \<noteq> []" for s by (rule py_strip_letter [of "CHR ''o''"]) (simp_all add: py_space_def)
  ultimately have "CHR 0x00 \<notin> set demo_occurrence" "py_strip demo_occurrence \<noteq> []" unfolding o by (simp, metis o)
  with demo_occurrence_shape(3) show ?thesis by (simp add: bounded_text_def)
qed

lemma demo_intent_ok: "notice_intent_of demo_notice_body = Inr poll_intent"
proof -
  have "work_identifier_of (JStr ''wf'') = Inr ''wf''" "work_identifier_of (JStr ''poll'') = Inr ''poll''" by code_simp+
  moreover have "keys_are demo_notice_body [''workflowId'', ''triggerId'', ''occurrenceId'', ''scheduledAt'', ''taskId'']"
    by (simp add: keys_are_def demo_notice_body_def)
  moreover have "work_identifier_of (JStr demo_poll_task) = Inr demo_poll_task" by (simp add: work_identifier_of_def demo_task_identifier)
  ultimately show ?thesis
    by (simp add: notice_intent_of_def demo_notice_body_def object_simps demo_occurrence_text occurrence_text_def demo_occurrence_shape
        demo_receipt_parts poll_intent_def flip: demo_poll_task_def del: append.simps)
qed

lemma demo_load:
  "load_trigger demo_zones demo_workflow ''poll'' = Inr (demo_definition, demo_trigger)"
  "load_observation demo_seen demo_trigger = Inr demo_observation"
proof -
  have r: "dget demo_definition ''enabled'' = JBool True" "dget demo_trigger ''kind'' = JStr ''source_poll''" "dget demo_trigger ''source'' = JStr ''vm_health''"
    by (simp_all add: demo_definition_def demo_flow_def demo_trigger_def object_simps)
  then show "load_trigger demo_zones demo_workflow ''poll'' = Inr (demo_definition, demo_trigger)"
    by (simp add: load_trigger_def demo_stored demo_definition_ok demo_flow_reads source_trigger_def objects_of_def object_simps)
  have "stored_object (ae_json demo_seen) = Inr demo_observation"
  proof -
    have "int_ok 5" by code_simp
    then have "stored_object (render (canon (JDict demo_observation))) = Inr demo_observation"
      by (intro stored_sorted) (simp_all add: demo_observation_def)
    then show ?thesis by (simp add: demo_seen_def del: canon.simps)
  qed
  moreover have "lower_hex 64 demo_fingerprint" by code_simp
  ultimately show "load_observation demo_seen demo_trigger = Inr demo_observation"
    using r(3) by (simp add: load_observation_def) (simp add: demo_observation_def object_simps in_names_def state_classes_def text_at_def)
qed

lemma demo_task_checked: "check_occurrence_task demo_running_work ''org'' ''w'' flow_owner poll_intent = Inr ()"
proof -
  have find: "find_task demo_running_work (''org'', ''w'', demo_poll_task) = Some demo_poll_running"
    using demo_poll_task_other
    by (simp add: find_task_def demo_running_work_def demo_owner_task_def empty_wdb_def find_by_Cons tk_key_def new_task_def demo_poll_running_def)
  have meta: "dget (sort_key fst (canon_items demo_poll_meta)) k = canon (dget demo_poll_meta k)" for k
    by (rule dget_canon) (simp add: demo_poll_meta_def)
  have row: "tk_creator demo_poll_running = flow_owner" "tk_status demo_poll_running = ''running''"
    "stored_object (tk_metadata demo_poll_running) = Inr (sort_key fst (canon_items demo_poll_meta))"
    using demo_poll_meta_ok(1) by (simp_all add: demo_poll_running_def del: canon.simps)
  have n: "ni_task poll_intent = demo_poll_task" "ni_occurrence poll_intent = demo_occurrence" "ni_workflow poll_intent = ''wf''"
    "ni_trigger poll_intent = ''poll''" "v3_occurrence_id ''wf'' ''poll'' (ni_scheduled poll_intent) flow_owner = demo_occurrence"
    by (simp_all add: poll_intent_def demo_occurrence_def)
  show ?thesis by (simp add: check_occurrence_task_def find row n meta) (simp add: demo_poll_meta_def object_simps)
qed

lemma demo_evidence:
  "page_receipts demo_running_work ''org'' ''w'' demo_poll_task = Inr [demo_page]"
  "source_evidence ''o1'' demo_observation poll_intent demo_trigger [demo_page] = Inr None"
proof -
  have "stored_object (render (canon (JDict demo_page))) = Inr demo_page" by (rule stored_sorted) (simp_all add: demo_page_def)
  then show "page_receipts demo_running_work ''org'' ''w'' demo_poll_task = Inr [demo_page]"
    by (simp add: page_receipts_def demo_running_work_def demo_owner_task_def del: canon.simps)
  have reads: "dget demo_page ''type'' = JStr ''workflow.source-page.v1''" "dget_or demo_page ''automationEventIds'' (JList []) = JList [JStr ''o1'']"
    "dget demo_page ''targetId'' = JStr ''h''" "keys_are demo_page page_receipt_fields"
    by (auto simp: demo_page_def object_simps dget_or_def keys_are_def page_receipt_fields_def)
  moreover have "page_proves ''o1'' demo_observation poll_intent demo_trigger ''h'' demo_page"
    by (simp add: page_proves_def names_occurrence_def demo_page_def poll_intent_def demo_trigger_def demo_observation_def object_simps texts_of_def text_at_def)
  moreover have "work_identifier_of (JStr ''h'') = Inr ''h''" by code_simp
  moreover have "\<not> is_source_failure demo_observation" "\<not> is_source_recovery demo_observation" "text_at demo_observation ''eventType'' = ''host.state''"
    by (simp_all add: is_source_failure_def is_source_recovery_def demo_observation_def object_simps text_at_def)
  ultimately show "source_evidence ''o1'' demo_observation poll_intent demo_trigger [demo_page] = Inr None"
    by (simp add: source_evidence_def page_evidence_def py_contains_def)
qed

lemma owner_route_cong:
  assumes "find_task w (org, ws, text_at auth ''ownerTaskId'') = find_task w' (org, ws, text_at auth ''ownerTaskId'')"
    and "w_origins w = w_origins w'" and "w_installations w = w_installations w'" and "dget auth ''kind'' = JStr ''owner_private''"
  shows "check_owner_route w scope org ws actor auth = check_owner_route w' scope org ws actor auth"
proof (cases "work_identifier (text_at auth ''ownerTaskId'')")
  case (Inl e)
  with assms show ?thesis by (simp add: check_owner_route_def resolve_private_teams_route_def split: option.split)
next
  case (Inr t)
  then have t: "t = text_at auth ''ownerTaskId''" by (simp add: work_identifier_Inr)
  have route: "installation_route w = installation_route w'" by (intro ext) (simp add: installation_route_def assms(3))
  show ?thesis unfolding check_owner_route_def resolve_private_teams_route_def assms(2) route
    using Inr t assms(1,4) by (cases scope) simp_all
qed

lemma demo_owner_route: "check_owner_route demo_running_work (Some flow_scope) ''org'' ''w'' flow_owner (authorization_of demo_definition) = Inr ()"
proof -
  have a: "authorization_of demo_definition = [(''kind'', JStr ''owner_private''), (''ownerTaskId'', JStr ''t'')]"
    by (simp add: authorization_of_def demo_flow_reads)
  have "check_owner_route demo_owner_task (Some flow_scope) ''org'' ''w'' flow_owner [(''kind'', JStr ''owner_private''), (''ownerTaskId'', JStr ''t'')] = Inr ()"
    by code_simp
  moreover have "check_owner_route demo_running_work (Some flow_scope) ''org'' ''w'' flow_owner (authorization_of demo_definition) =
      check_owner_route demo_owner_task (Some flow_scope) ''org'' ''w'' flow_owner (authorization_of demo_definition)"
    by (rule owner_route_cong) (simp_all add: a text_at_def object_simps find_task_def demo_running_work_def demo_owner_task_def find_by_Cons
        tk_key_def new_task_def)
  ultimately show ?thesis by (simp add: a)
qed

definition tz_demo :: tz_db where
  "tz_demo = \<lparr>tz_wall = (\<lambda>_ now. Inr (now div 86400000, (now mod 86400000) * 1000)), tz_instant = (\<lambda>_ day s. Inr (day * 86400000 + s * 1000))\<rparr>"

lemma poll_notice: "\<exists>i. enqueue_automation_event_notice demo_zones tz nid 3000 (Some ''org'') ''w'' flow_owner ''o1'' demo_notice_body (Some flow_scope) demo_adb =
    (Inr (notice_receipt ''o1'' poll_intent ''initial_baseline'' None, False),
     demo_adb\<lparr>a_states := [state_of_event ''org'' ''w'' flow_owner ''o1'' demo_observation], a_intents := [i]\<rparr>)"
proof -
  have ids: "work_identifier flow_owner = Inr flow_owner" "work_identifier ''o1'' = Inr ''o1''" by code_simp+
  have n: "ni_workflow poll_intent = ''wf''" "ni_trigger poll_intent = ''poll''" "ni_task poll_intent = demo_poll_task" by (simp_all add: poll_intent_def)
  have finds: "List.find (\<lambda>r. ae_org r = ''org'' \<and> ae_ws r = ''w'' \<and> ae_id r = ''o1'') (a_events demo_adb) = Some demo_seen" "ae_actor demo_seen = flow_owner"
    "find_owned_workflow (a_flow demo_adb) ''org'' ''w'' ''wf'' flow_owner = Some demo_workflow"
    "running_occurrence (a_flow demo_adb) ''org'' ''w'' poll_intent = Some demo_run_row" "dget poll_run ''baseline'' = JNull"
    by (simp_all add: demo_adb_def demo_seen_def find_owned_workflow_def demo_fdb_def demo_workflow_def running_occurrence_def demo_run_row_def
        poll_intent_def poll_run_def object_simps)
  have parts: "a_intents demo_adb = []" "a_states demo_adb = []" "a_work demo_adb = demo_running_work" by (simp_all add: demo_adb_def)
  have jok: "jok (JDict (notice_receipt ''o1'' poll_intent ''initial_baseline'' None))" by (simp add: notice_receipt_def)
  have d: "source_decision False x None demo_observation = Inr ''initial_baseline''" for x
    by (simp add: source_decision_def is_stale_def is_source_failure_def is_source_recovery_def demo_observation_def object_simps text_at_def)
  obtain digest where digest: "intent_digest poll_intent = Inr digest" by (simp add: intent_digest_def digest_ok)
  have settle: "\<exists>i. settle_notice demo_zones tz nid 3000 ''org'' ''w'' flow_owner ''o1'' digest poll_intent demo_definition demo_observation None False
      (Some flow_scope) demo_adb = Inr ((notice_receipt ''o1'' poll_intent ''initial_baseline'' None, False),
      demo_adb\<lparr>a_states := [state_of_event ''org'' ''w'' flow_owner ''o1'' demo_observation], a_intents := [i]\<rparr>)"
    by (simp add: settle_notice_def parts d is_stale_def should_notify_def text_ok [OF jok] put_source_state_def insert_by_def Let_def)
      (auto simp: demo_adb_def)
  then show ?thesis
    by (auto simp: enqueue_automation_event_notice_def demo_scope ids demo_intent_ok digest finds parts n demo_load demo_run_stored
        demo_task_checked demo_evidence demo_owner_route)
qed

end
