(* ===== verification/Auto_Props.thy ===== *)
theory Auto_Props
  imports Auto_Demo
begin

text \<open>
  The property of source events: each is judged once for a trigger, in the order in which the observations happened, and
  what is sent follows the decision.
\<close>

section \<open>Decisions\<close>






section \<open>Receipts\<close>





end
