(* ===== verification/Spec2Isabelle.thy ===== *)
theory Spec2Isabelle
  imports Persist_Props Persist_Migrate Persist_Refine Work_Delivery Work_Guard Json_Fuel Memory_Props Health_Props Work_List Install_Props Exp_Props Flow_Props Auto_Props
begin

text \<open>
  The server-side state of Cyrene Navigator, verified.

  \<^bold>\<open>The program.\<close> Navigator's Python host keeps two SQLite stores. The persistence store
  (\<open>src/src/cyrene_navigator/persistence/store.py\<close>) keeps agent sessions: an append-only event log per
  session, one writer at a time, fenced by an epoch and a lease. The Work store
  (\<open>src/src/cyrene_navigator/work/store.py\<close>) keeps tasks with a state machine and an event log, the human
  gates that park a task (approvals and input requests), receipts of external effects, native backend
  sessions, the notification outbox that delivers a task's result, and memory facts with the inventories of
  external sources, the health of external credentials, the private Teams installations, the index of experiments, and workflow definitions with the
  receipts of their scheduler and the source events their polls observe. HTTP routes, connectors and the
  conversation services call these stores; a task of the Work store runs on a session of the persistence
  store, and a terminal task puts its result into the outbox within the same transaction.

  \<^bold>\<open>Conventions.\<close> A table is the list of its rows in insertion order (theory \<open>Tables\<close>); a store is a
  record of tables. A mutation is a function that ends in \<open>commit\<close>: it returns what the caller sees and
  the database afterwards, which is the old one whenever the body fails, as the code's transaction bracket
  rolls back. Failures are values of \<open>error\<close>: the code and status of \<open>PersistenceError\<close>, an SQLite
  \<open>IntegrityError\<close>, or one of Python's own exceptions; the human-readable detail is dropped. Random ids,
  capability tokens and every reading of the clock are arguments, in the order the code reads them. Text is
  a \<open>string\<close> over the code points 0 to 255, so that \<open>len\<close> is \<open>length\<close>; request bodies are JSON values
  (theory \<open>Json\<close>) with Python's canonical text form and its parser; digests are SHA-256 of that text,
  computed by theory \<open>Sha256\<close>. Where SQL leaves the order of rows open the model keeps the order of the
  table. \<open>INSERT\<close> fails on the uniqueness constraints of the schema; its \<open>CHECK\<close> constraints are proved to
  hold in every reachable state.

  \<^bold>\<open>Shared theories.\<close> \<open>Prelude\<close>: failures, sequencing and transactions, the text operations of Python and
  SQLite. \<open>Tables\<close>: lookups, inserts, updates, the interface \<open>locale table\<close> and how a table may change over
  time. \<open>Systems\<close>: \<open>locale history\<close>, what an invariant and a forward order of single calls give for whole
  runs. \<open>Json\<close>, \<open>Json_Roundtrip\<close>, \<open>Sha256\<close>.

  \<^bold>\<open>The persistence store.\<close> \<open>Persist_Base\<close> has its rows, principals and validators; \<open>Persist_Store\<close> every
  operation (create, open and take over, append, heartbeat, flush, release, the readers); \<open>Persist_Inv\<close> the
  step relation \<open>pstep\<close>, the invariant \<open>pinv\<close> and the order \<open>pgrows\<close>, and interprets \<open>history\<close>;
  \<open>Persist_Read\<close> what the readers return; \<open>Persist_Demo\<close> a concrete run for the witnesses; \<open>Persist_Props\<close>
  C1 to C6 and C12, with what an append accepts, that it is idempotent and that scopes are isolated (no claims); \<open>Persist_Migrate\<close> the schema initialisation with the legacy rebuild and C16;
  \<open>Persist_Refine\<close> the store's contract as single-writer journals and the refinement C37.

  \<^bold>\<open>The Work store.\<close> \<open>Work_Base\<close> has the rows of its tables, the transition table and the validators;
  \<open>Work_Meta\<close> reply routes, background provenance, the credential filter on human input and the bounded
  result text; \<open>Work_Access\<close> the actor boundary, the views and the event log; \<open>Work_Outbox\<close> the
  notification outbox; \<open>Work_Task\<close> tasks, claims, patches, continuations and native sessions; \<open>Work_Gate\<close>
  approvals and input requests; \<open>Work_Operation\<close> receipts; \<open>Work_List\<close> the listings of unresolved receipts and of the
  outbox. \<open>Work_Inv\<close> splits the operations into elementary
  changes \<open>wchange\<close> and states the invariant \<open>winv\<close> and the order \<open>wgrows\<close>; its \<open>locale human_gate\<close> proves
  once what both kinds of gate promise their task. \<open>Work_Change\<close> shows that every change keeps the
  invariant and moves forward; \<open>Work_Steps\<close> that every operation is a sequence of changes (the \<open>runs\<close> rules
  walk down a transaction body), and interprets \<open>history\<close> on the calls \<open>wstep\<close>.
  \<open>Work_Demo\<close> is a concrete run for the witnesses. \<open>Work_Props\<close> has C17, C18, C20 to C22, C25 and C26: the invariant, the history of a
  task, the pages of its log, the single winner of a claim, the human gates (with the lost duration of a rejection, a finding)
  and receipts. \<open>Work_Delivery\<close> has C27 to C30: delivery of notifications and private results. \<open>Work_Guard\<close>
  has C31, C32 and C34: hidden private tasks, immutable provenance, the bounded result text (no claim), the filter on human
  input against its declarative rule, and idempotent admission (no claim).

  \<^bold>\<open>Memory facts and source inventories.\<close> These tables of the Work store are disjoint from those of the tasks,
  so they are a state \<open>mdb\<close> of their own. \<open>Memory_Store\<close> has the rows and every operation: the upsert, listing
  and search of memory facts and the paged inventory of a source. \<open>Memory_Inv\<close> has the invariant \<open>minv\<close> (one open
  inventory per source, unbroken chains of pages, a snapshot from one inventory) and the calls \<open>mstep\<close>;
  \<open>Memory_Refine\<close> the contract \<open>inventory_step\<close> of a source, that every call follows it, and the interpretation of
  \<open>history\<close>; \<open>Memory_Live\<close> that a proper chain of pages always completes and that a looping one never can;
  \<open>Memory_Props\<close> C14, C23 and C38 to C40.

  \<^bold>\<open>Credential health.\<close> The monitor writes its own checkpoint table and the shared outbox, so its state \<open>hdb\<close>
  holds the tables of the Work store. \<open>Health_Time\<close> has what it uses of Python's \<open>datetime\<close>, \<open>float\<close> and
  \<open>uuid\<close>, down to the rounding of a time through a double; \<open>Health_Store\<close> the reading of a snapshot, the
  decision, the fingerprint, the notice and \<open>process_credential_health_snapshots\<close>; \<open>Health_Inv\<close> what an accepted
  snapshot is, the invariant \<open>hinv\<close>, the system \<open>hstep\<close> in which the monitor and every operation of the Work
  store interleave, and the interpretation of \<open>history\<close> on it; \<open>Health_Refine\<close> the contract, one incident machine
  \<open>incident_step\<close> per connection; \<open>Health_Props\<close> C11 (accepted snapshots), C15 (a recovery that a late report
  swallows), C19 (the contract) and C33 (the bound on reminders).

  \<^bold>\<open>Private installations.\<close> \<open>Install_Store\<close> has the two tables behind the private Teams routes and
  \<open>apply_private_installation\<close>. Activities carry their own time and arrive late, twice or out of order.
  \<open>Registers\<close> states what makes that harmless as an interface: \<open>locale max_registers\<close>, a store in which every
  accepted call joins a value into one register by maximum. \<open>Install_Inv\<close> has the invariant \<open>iinv\<close> and the labelled
  calls \<open>istep\<close> and interprets the locale; \<open>Install_Props\<close> has C8 (the status of a route depends only on the set of
  accepted activities) and C10 (after a removal the outbox finds no route), which joins this store to the outbox.

  \<^bold>\<open>Experiments.\<close> \<open>Uri\<close> has what the check of a resource URI uses of Python's \<open>urllib.parse\<close> and \<open>ipaddress\<close>,
  \<open>Resources\<close> the typed references, \<open>Exp_Store\<close> the table, \<open>put_experiment\<close> and \<open>get_experiment\<close>. \<open>Versioned\<close> states
  optimistic concurrency control as an interface, \<open>locale versioned\<close>: a write names the revision its author has seen.
  \<open>Exp_Props\<close> interprets it on \<open>put_experiment\<close> and has C24, no accepted update is lost.

  \<^bold>\<open>Workflows and schedule events.\<close> A workflow definition is a JSON object of version 1, 2 or 3: \<open>Flow_Base\<close> has version 1
  and what the versions share, \<open>Flow_V2\<close> the responsibilities with their action grants, \<open>Flow_V3\<close> the private polls.
  \<open>Flow_Store\<close> has the table, \<open>put_workflow\<close> and \<open>list_workflows\<close>; \<open>Flow_Event\<close> the receipts of the scheduler with their
  checkpoints, \<open>append_schedule_event\<close> and \<open>get_schedule_event\<close>. Two parameters stand for the time zone database of the host:
  \<open>zones\<close> (does a zone exist) and \<open>local_clock\<close> (the time in New York of a timestamp); no property assumes anything of them.
  \<open>Flow_Settle\<close> shows that what the validator of version 3 returns passes it again unchanged, also after its members were
  sorted for storage; \<open>Flow_Inv\<close> and \<open>Flow_System\<close> have the invariant \<open>fdb_inv\<close>, the calls \<open>fstep\<close> and the interpretation of
  \<open>history\<close>; \<open>Flow_Demo\<close> a workflow and a receipt for the witnesses. \<open>Flow_Props\<close> has C7 (a private workflow has one owner for
  ever; the findings on upper-case actors), C9 (definitions are stored as accepted and stay acceptable) and C35 (the receipt of
  a successful poll accounts for every target).

  \<^bold>\<open>Source events.\<close> A running poll records what it observed and asks for a notice. \<open>Auto_Store\<close> has the tables,
  \<open>append_automation_event\<close>, quiet hours and the decision (stale, baseline, unchanged, failure, recovery, blocker, change);
  \<open>Auto_Notice\<close> the handler \<open>enqueue_automation_event_notice\<close>, which checks the observation against the workflow, the running
  occurrence, its task and the page receipt in the task's log, and writes the state, the notice and the receipt together.
  The host's time zones are the parameter \<open>tz_db\<close>. \<open>Auto_Inv\<close> has the system \<open>astep\<close> of source events, workflows and the Work
  store, its invariant and the interpretation of \<open>history\<close>; \<open>Auto_Demo\<close> a judged observation; \<open>Auto_Props\<close> C13, each event is
  judged once and in order.

  \<^bold>\<open>Bounds and loops.\<close> Every loop of the two stores runs over a finite list of rows, so it is a structural
  recursion and total; no fuel is used outside the JSON parser, whose fuel is the length of the text;
  \<open>Json_Fuel\<close> shows that this is enough for every text (C36).

  \<^bold>\<open>Not modelled.\<close> In the Work store: \<open>list_tasks\<close> (its cursor is base64 of arbitrary bytes), the fixed finalizers of
  research and notification receipts, attachments, the digest and workflow notices (their texts
  have characters above 255), \<open>list_automation_events\<close> and \<open>list_schedule_events\<close> (base64 cursors), and the connector intake, whose tables appear here only
  as the columns the modelled code reads and may change arbitrarily (\<open>wt_outside\<close>). Of the rest of the
  repository: the HTTP layer (\<open>api.py\<close>, \<open>work/api.py\<close>, \<open>web_host.py\<close>), which parses requests and calls the
  stores, the conversation services, the command-line tools, the TypeScript harness and the Rust natives.
\<close>

end
